(* ===== verification/Tmnt_Prelude.thy ===== *)
theory Tmnt_Prelude
  imports Main "HOL-Library.Word" "HOL-Library.Signed_Division" "HOL-Library.Monad_Syntax"
begin

text \<open>
  The prelude of the development: the C integer types of
  \<^verbatim>\<open>student-distrib/types.h\<close> as machine words, C's signed operators on them, and the
  facts on words, lists and byte memories that the component theories share.

  Conventions used everywhere:
  \<^item> \<open>uint8_t\<close>, \<open>uint16_t\<close>, \<open>uint32_t\<close> are \<open>u8\<close>, \<open>u16\<close>, \<open>u32\<close>; \<open>int\<close> and
    \<open>int32_t\<close> are also \<open>u32\<close> (the same 32 bits), compared with the signed operators
    below wherever the C type is signed;
  \<^item> a C boolean is a word that is tested against 0;
  \<^item> a memory is a function from 32-bit addresses to bytes;
  \<^item> an access outside a C array is the value \<open>None\<close> of an \<open>option\<close> result.
\<close>

unbundle bit_operations_syntax

type_synonym u8 = "8 word"
type_synonym u16 = "16 word"
type_synonym u32 = "32 word"

text \<open>The fact collections: definitions to unfold when a component's operations are run
  symbolically, facts on the translation of addresses, and frame facts.\<close>

named_theorems op_defs "definitions of operations, unfolded to run them symbolically"
named_theorems frame_simps "what an operation leaves unchanged"

subsection \<open>\<^verbatim>\<open>types.h\<close>\<close>

definition C_TRUE :: u32 where "C_TRUE = 0xFFFFFFFF"
definition C_FALSE :: u32 where "C_FALSE = 0"

text \<open>Signed comparison, division and remainder of C (\<open>int32_t\<close> operands). C99 division
  truncates towards zero and leaves division by zero undefined.\<close>

definition slt :: "u32 \<Rightarrow> u32 \<Rightarrow> bool" where
  "slt a b \<longleftrightarrow> sint a < sint b"

definition sdiv32 :: "u32 \<Rightarrow> u32 \<Rightarrow> u32" where
  "sdiv32 a b = word_of_int (sint a sdiv sint b)"

definition smod32 :: "u32 \<Rightarrow> u32 \<Rightarrow> u32" where
  "smod32 a b = word_of_int (sint a smod sint b)"

subsection \<open>C arrays\<close>

text \<open>An array object is a list; reading or writing outside it is undefined in C and
  \<open>None\<close> here.\<close>

definition aget :: "'a list \<Rightarrow> nat \<Rightarrow> 'a option" where
  "aget xs i = (if i < length xs then Some (xs ! i) else None)"

definition aput :: "'a list \<Rightarrow> nat \<Rightarrow> 'a \<Rightarrow> 'a list option" where
  "aput xs i v = (if i < length xs then Some (xs[i := v]) else None)"

lemma aget_Some [simp]: "i < length xs \<Longrightarrow> aget xs i = Some (xs ! i)"
  by (simp add: aget_def)

lemma aput_Some [simp]: "i < length xs \<Longrightarrow> aput xs i v = Some (xs[i := v])"
  by (simp add: aput_def)

lemma aget_outside [simp]: "length xs \<le> i \<Longrightarrow> aget xs i = None"
  by (simp add: aget_def)

lemma aput_outside [simp]: "length xs \<le> i \<Longrightarrow> aput xs i v = None"
  by (simp add: aput_def)

lemma aget_eq_Some: "aget xs i = Some x \<longleftrightarrow> i < length xs \<and> x = xs ! i"
  by (auto simp: aget_def)

lemma aput_eq_Some: "aput xs i v = Some ys \<longleftrightarrow> i < length xs \<and> ys = xs[i := v]"
  by (auto simp: aput_def)

lemma all_less_3: "(\<forall>i<3. P i) \<longleftrightarrow> P 0 \<and> P 1 \<and> P (2 :: nat)"
  by (auto simp: numeral_3_eq_3 numeral_2_eq_2 All_less_Suc)

lemma nth_updated: "j < length xs \<Longrightarrow> (xs[i := v]) ! j = (if i = j then v else xs ! j)"
  by (cases "i = j") auto

subsection \<open>Words\<close>

lemma unat_u32_bound [simp]: "unat (x :: u32) < 4294967296"
  using unsigned_less [of x, where ?'a = nat] by simp

lemma unat_u8_bound [simp]: "unat (x :: u8) < 256"
  using unsigned_less [of x, where ?'a = nat] by simp

lemma unat_minus_1: "unat (- 1 :: u32) = 4294967295"
proof -
  have "(- 1 :: u32) = 0xFFFFFFFF" by simp
  then have "unat (- 1 :: u32) = unat (0xFFFFFFFF :: u32)" by (rule arg_cong)
  also have "\<dots> = 4294967295" by simp
  finally show ?thesis .
qed

lemma unat_offset: "unat (a :: u32) + i < 2 ^ 32 \<Longrightarrow> unat (a + of_nat i) = unat a + i"
  by (simp add: unat_word_ariths unat_of_nat take_bit_nat_eq_self)

lemma byte_round_trip: "ucast (ucast (x :: u8) :: u32) = x"
  by (rule bit_word_eqI) (simp add: bit_simps)

lemma sint_eq_unat:
  assumes "unat (x :: u32) < 2147483648"
  shows "sint x = int (unat x)"
proof -
  have "uint x < 2147483648"
    using assms by (metis of_nat_less_iff of_nat_numeral of_nat_unat ucast_id)
  moreover have "- 2147483648 \<le> uint x"
    using uint_ge_0 [of x] by linarith
  ultimately have "signed_take_bit 31 (uint x) = uint x"
    by (intro signed_take_bit_int_eq_self) simp_all
  then show ?thesis by (simp add: sint_uint)
qed

lemma smod32_unat:
  assumes "unat a < 2147483648" and "unat b < 2147483648"
  shows "smod32 a b = word_of_nat (unat a mod unat b)"
proof -
  have "sint a smod sint b = int (unat a) mod int (unat b)"
    using assms by (simp only: sint_eq_unat signed_modulo_int_eq_modulo_int)
      (simp add: signed_modulo_int_eq_modulo_int)
  then show ?thesis
    unfolding smod32_def by (simp only: zmod_int [symmetric] of_int_of_nat_eq)
qed

lemma sdiv32_unat:
  assumes "unat a < 2147483648" and "unat b < 2147483648"
  shows "sdiv32 a b = of_nat (unat a div unat b)"
proof -
  have nonneg: "0 \<le> x \<Longrightarrow> 0 \<le> y \<Longrightarrow> x sdiv y = x div y" for x y :: int
    by (cases "x = 0"; cases "y = 0") (simp_all add: signed_divide_int_def)
  have "sint a sdiv sint b = int (unat a) div int (unat b)"
    using assms by (simp only: sint_eq_unat) (simp add: nonneg [OF of_nat_0_le_iff of_nat_0_le_iff] del: of_nat_unat)
  then show ?thesis unfolding sdiv32_def by (simp only: zdiv_int [symmetric] of_int_of_nat_eq)
qed

lemma slt_unat:
  assumes "unat a < 2147483648" and "unat b < 2147483648"
  shows "slt a b \<longleftrightarrow> unat a < unat b"
  unfolding slt_def sint_eq_unat [OF assms(1)] sint_eq_unat [OF assms(2)] by linarith

text \<open>Clearing the low bits of an address: the block of size \<open>2 ^ n\<close> it lies in.\<close>

lemma align_down_minus: "(x :: u32) AND NOT (mask n) = x - take_bit n x"
proof -
  have "NOT x AND take_bit n x = 0" by (rule bit_word_eqI) (simp add: bit_simps)
  then have "x - take_bit n x = x AND NOT (take_bit n x)" by (rule disjunctive_diff_eq_and_not)
  also have "\<dots> = x AND NOT (mask n)" by (rule bit_word_eqI) (auto simp: bit_simps)
  finally show ?thesis ..
qed

lemma unat_align_down: "unat ((x :: u32) AND NOT (mask n)) = unat x - unat x mod 2 ^ n"
proof -
  have t: "unat (take_bit n x) = unat x mod 2 ^ n"
    by (simp add: unsigned_take_bit_eq flip: take_bit_eq_mod)
  then have "take_bit n x \<le> x" by (simp add: word_le_nat_alt)
  then show ?thesis by (simp add: align_down_minus unat_sub t)
qed

lemma align_down_offset:
  assumes "unat (b :: u32) mod 2 ^ n = 0" and "k < 2 ^ n" and "unat b + k < 2 ^ 32"
  shows "(b + of_nat k) AND NOT (mask n) = b"
proof -
  have "(unat b + k) mod 2 ^ n = k" using assms(1,2) by (metis mod_add_left_eq add_0 mod_less)
  then have "unat ((b + of_nat k) AND NOT (mask n)) = unat b"
    unfolding unat_align_down unat_offset [OF assms(3)] by simp
  then show ?thesis by (rule word_unat_eq_iff [THEN iffD2])
qed

end
