(* ===== verification/Machine.thy ===== *)
theory Machine
  imports Tmnt_Prelude
begin

text \<open>
  The machine under the kernel: physical memory, the address translation the MMU applies
  (the page tables themselves belong to \<^verbatim>\<open>paging.c\<close>, which is not part of the
  tree), the history of port accesses, and the registers the C code reads or writes with
  inline assembly. The operations are the inline functions and macros of
  \<^verbatim>\<open>student-distrib/lib.h\<close>.

  What a port read returns is decided by the hardware: it is a function of the port and of
  the whole history of earlier accesses, passed as the argument \<open>hw\<close> to every operation
  that reads a port.
\<close>

datatype io_event = Out u16 u8 | OutW u16 u16 | In u16 u8

record machine =
  mem :: "u32 \<Rightarrow> u8"       \<comment> \<open>physical memory\<close>
  mmu :: "u32 \<Rightarrow> u32"      \<comment> \<open>virtual to physical address, as currently translated\<close>
  io :: "io_event list"    \<comment> \<open>port accesses, the latest first\<close>
  eflags :: u32
  esp :: u32
  ebp :: u32

type_synonym hardware = "io_event list \<Rightarrow> u16 \<Rightarrow> u8"

subsection \<open>Memory accesses through the MMU\<close>

definition rd8 :: "'a machine_scheme \<Rightarrow> u32 \<Rightarrow> u8" where
  "rd8 s a = mem s (mmu s a)"

definition wr8 :: "u32 \<Rightarrow> u8 \<Rightarrow> 'a machine_scheme \<Rightarrow> 'a machine_scheme" where
  "wr8 a v s = s\<lparr>mem := (mem s)(mmu s a := v)\<rparr>"

text \<open>A 32-bit access is four little-endian byte accesses.\<close>

definition rd32 :: "'a machine_scheme \<Rightarrow> u32 \<Rightarrow> u32" where
  "rd32 s a = ucast (rd8 s a) OR push_bit 8 (ucast (rd8 s (a + 1)))
     OR push_bit 16 (ucast (rd8 s (a + 2))) OR push_bit 24 (ucast (rd8 s (a + 3)))"

definition wr32 :: "u32 \<Rightarrow> u32 \<Rightarrow> 'a machine_scheme \<Rightarrow> 'a machine_scheme" where
  "wr32 a v s = wr8 (a + 3) (ucast (drop_bit 24 v)) (wr8 (a + 2) (ucast (drop_bit 16 v))
     (wr8 (a + 1) (ucast (drop_bit 8 v)) (wr8 a (ucast v) s)))"

definition wr16 :: "u32 \<Rightarrow> u16 \<Rightarrow> 'a machine_scheme \<Rightarrow> 'a machine_scheme" where
  "wr16 a v s = wr8 (a + 1) (ucast (drop_bit 8 v)) (wr8 a (ucast v) s)"

subsection \<open>Ports\<close>

definition inb :: "hardware \<Rightarrow> u16 \<Rightarrow> 'a machine_scheme \<Rightarrow> u32 \<times> 'a machine_scheme" where
  "inb hw port s = (let v = hw (io s) port in (ucast v, s\<lparr>io := In port v # io s\<rparr>))"

definition outb :: "u8 \<Rightarrow> u16 \<Rightarrow> 'a machine_scheme \<Rightarrow> 'a machine_scheme" where
  "outb data port s = s\<lparr>io := Out port data # io s\<rparr>"

definition outw :: "u16 \<Rightarrow> u16 \<Rightarrow> 'a machine_scheme \<Rightarrow> 'a machine_scheme" where
  "outw data port s = s\<lparr>io := OutW port data # io s\<rparr>"

definition io_wait :: "'a machine_scheme \<Rightarrow> 'a machine_scheme" where
  "io_wait s = outb 0 0x80 s"

subsection \<open>The interrupt and direction flags\<close>

definition IF_MASK :: u32 where "IF_MASK = 0x200"
definition DF_MASK :: u32 where "DF_MASK = 0x400"

definition cli :: "'a machine_scheme \<Rightarrow> 'a machine_scheme" where
  "cli s = s\<lparr>eflags := eflags s AND NOT IF_MASK\<rparr>"

definition sti :: "'a machine_scheme \<Rightarrow> 'a machine_scheme" where
  "sti s = s\<lparr>eflags := eflags s OR IF_MASK\<rparr>"

definition cli_and_save :: "'a machine_scheme \<Rightarrow> u32 \<times> 'a machine_scheme" where
  "cli_and_save s = (eflags s, cli s)"

definition restore_flags :: "u32 \<Rightarrow> 'a machine_scheme \<Rightarrow> 'a machine_scheme" where
  "restore_flags flags s = s\<lparr>eflags := flags\<rparr>"

definition cld :: "'a machine_scheme \<Rightarrow> 'a machine_scheme" where
  "cld s = s\<lparr>eflags := eflags s AND NOT DF_MASK\<rparr>"

definition std :: "'a machine_scheme \<Rightarrow> 'a machine_scheme" where
  "std s = s\<lparr>eflags := eflags s OR DF_MASK\<rparr>"

definition df_clear :: "'a machine_scheme \<Rightarrow> bool" where
  "df_clear s \<longleftrightarrow> eflags s AND DF_MASK = 0"

text \<open>A machine with identity translation and zeroed memory, for concrete runs.\<close>

definition flat_machine :: machine where
  "flat_machine = \<lparr>mem = \<lambda>_. 0, mmu = \<lambda>a. a, io = [], eflags = IF_MASK, esp = 0, ebp = 0\<rparr>"

subsection \<open>Frame facts\<close>

lemma wr8_frame [simp]:
  "mmu (wr8 a v s) = mmu s" "io (wr8 a v s) = io s" "eflags (wr8 a v s) = eflags s"
  "esp (wr8 a v s) = esp s" "ebp (wr8 a v s) = ebp s"
  "machine.more (wr8 a v s) = machine.more s"
  by (simp_all add: wr8_def)

lemma mem_wr8: "mem (wr8 a v s) = (mem s)(mmu s a := v)"
  by (simp add: wr8_def)

lemma rd8_wr8: "rd8 (wr8 a v s) b = (if mmu s a = mmu s b then v else rd8 s b)"
  by (simp add: rd8_def mem_wr8)

lemma outb_frame [simp]:
  "mem (outb d p s) = mem s" "mmu (outb d p s) = mmu s" "eflags (outb d p s) = eflags s"
  "esp (outb d p s) = esp s" "ebp (outb d p s) = ebp s"
  "machine.more (outb d p s) = machine.more s"
  "io (outb d p s) = Out p d # io s"
  by (simp_all add: outb_def)

lemma cli_frame [simp]:
  "mem (cli s) = mem s" "mmu (cli s) = mmu s" "io (cli s) = io s"
  "esp (cli s) = esp s" "ebp (cli s) = ebp s" "machine.more (cli s) = machine.more s"
  "eflags (cli s) = eflags s AND NOT IF_MASK"
  by (simp_all add: cli_def)

lemma restore_flags_frame [simp]:
  "mem (restore_flags f s) = mem s" "mmu (restore_flags f s) = mmu s"
  "io (restore_flags f s) = io s" "esp (restore_flags f s) = esp s"
  "ebp (restore_flags f s) = ebp s" "machine.more (restore_flags f s) = machine.more s"
  "eflags (restore_flags f s) = f"
  by (simp_all add: restore_flags_def)

lemma cld_df_clear: "df_clear s \<Longrightarrow> cld s = s"
proof -
  assume "df_clear s"
  then have "eflags s AND NOT DF_MASK = eflags s"
    by (metis (no_types, lifting) df_clear_def and.commute bit.conj_disj_distrib
        bit.conj_one_right bit.disj_cancel_right or.right_neutral or.commute)
  then show ?thesis by (simp add: cld_def)
qed

lemma df_clear_wr8 [simp]: "df_clear (wr8 a v s) = df_clear s"
  by (simp add: df_clear_def)

lemma flat_machine_simps [simp]:
  "mem flat_machine a = 0" "mmu flat_machine a = a" "io flat_machine = []"
  "eflags flat_machine = IF_MASK" "df_clear flat_machine"
  by (simp_all add: flat_machine_def df_clear_def IF_MASK_def DF_MASK_def)

end
