(* ===== verification/Mem_Ops.thy ===== *)
theory Mem_Ops
  imports Machine
begin

text \<open>
  The memory routines of \<^verbatim>\<open>student-distrib/lib.c\<close>, which are inline assembly: each
  label of the assembly is a function here, the string instructions (\<open>rep stosl\<close>,
  \<open>rep movsl\<close>, \<open>rep movsb\<close>) are recursions over the count register. They are shown
  equal to byte-at-a-time reference loops, and those to a single update of the memory.
\<close>

subsection \<open>Reference loops\<close>

primrec fill_bytes :: "nat \<Rightarrow> u32 \<Rightarrow> u8 \<Rightarrow> 'a machine_scheme \<Rightarrow> 'a machine_scheme" where
  "fill_bytes 0 a c st = st"
| "fill_bytes (Suc n) a c st = fill_bytes n (a + 1) c (wr8 a c st)"

primrec copy_bytes :: "nat \<Rightarrow> u32 \<Rightarrow> u32 \<Rightarrow> 'a machine_scheme \<Rightarrow> 'a machine_scheme" where
  "copy_bytes 0 d s st = st"
| "copy_bytes (Suc n) d s st = copy_bytes n (d + 1) (s + 1) (wr8 d (rd8 st s) st)"

subsection \<open>\<open>memset\<close>\<close>

primrec rep_stosl :: "nat \<Rightarrow> u32 \<Rightarrow> u32 \<Rightarrow> 'a machine_scheme \<Rightarrow> u32 \<times> 'a machine_scheme" where
  "rep_stosl 0 eax edi st = (edi, st)"
| "rep_stosl (Suc ecx) eax edi st = rep_stosl ecx eax (edi + 4) (wr32 edi eax st)"

primrec memset_bottom :: "nat \<Rightarrow> u32 \<Rightarrow> u32 \<Rightarrow> 'a machine_scheme \<Rightarrow> 'a machine_scheme" where
  "memset_bottom 0 eax edi st = st"
| "memset_bottom (Suc edx) eax edi st = memset_bottom edx eax (edi + 1) (wr8 edi (ucast eax) st)"

definition memset_aligned :: "u32 \<Rightarrow> u32 \<Rightarrow> u32 \<Rightarrow> 'a machine_scheme \<Rightarrow> 'a machine_scheme" where
  "memset_aligned ecx eax edi st =
     (let edx = ecx; ecx = drop_bit 2 ecx; edx = edx AND 3; st = cld st;
          (edi, st) = rep_stosl (unat ecx) eax edi st
      in memset_bottom (unat edx) eax edi st)"

function memset_top :: "u32 \<Rightarrow> u32 \<Rightarrow> u32 \<Rightarrow> 'a machine_scheme \<Rightarrow> 'a machine_scheme" where
  "memset_top ecx eax edi st =
     (if ecx = 0 then st
      else if edi AND 3 = 0 then memset_aligned ecx eax edi st
      else memset_top (ecx - 1) eax (edi + 1) (wr8 edi (ucast eax) st))"
  by pat_completeness auto
termination
  by (relation "measure (\<lambda>(ecx, eax, edi, st). unat ecx)")
    (auto simp: unat_minus_one unat_gt_0)

declare memset_top.simps [simp del]

definition memset :: "u32 \<Rightarrow> u32 \<Rightarrow> u32 \<Rightarrow> 'a machine_scheme \<Rightarrow> u32 \<times> 'a machine_scheme" where
  "memset s c n st =
     (let c = c AND 0xFF;
          eax = push_bit 24 c OR push_bit 16 c OR push_bit 8 c OR c
      in (s, memset_top n eax s st))"

primrec rep_stosw :: "nat \<Rightarrow> u16 \<Rightarrow> u32 \<Rightarrow> 'a machine_scheme \<Rightarrow> u32 \<times> 'a machine_scheme" where
  "rep_stosw 0 ax edi st = (edi, st)"
| "rep_stosw (Suc ecx) ax edi st = rep_stosw ecx ax (edi + 2) (wr16 edi ax st)"

definition memset_word :: "u32 \<Rightarrow> u32 \<Rightarrow> u32 \<Rightarrow> 'a machine_scheme \<Rightarrow> u32 \<times> 'a machine_scheme" where
  "memset_word s c n st = (s, snd (rep_stosw (unat n) (ucast c) s (cld st)))"

definition memset_dword :: "u32 \<Rightarrow> u32 \<Rightarrow> u32 \<Rightarrow> 'a machine_scheme \<Rightarrow> u32 \<times> 'a machine_scheme" where
  "memset_dword s c n st = (s, snd (rep_stosl (unat n) c s (cld st)))"

subsection \<open>\<open>memcpy\<close>\<close>

primrec rep_movsl :: "nat \<Rightarrow> u32 \<Rightarrow> u32 \<Rightarrow> 'a machine_scheme \<Rightarrow> u32 \<times> u32 \<times> 'a machine_scheme" where
  "rep_movsl 0 edi esi st = (edi, esi, st)"
| "rep_movsl (Suc ecx) edi esi st =
     rep_movsl ecx (edi + 4) (esi + 4) (wr32 edi (rd32 st esi) st)"

primrec memcpy_bottom :: "nat \<Rightarrow> u32 \<Rightarrow> u32 \<Rightarrow> 'a machine_scheme \<Rightarrow> 'a machine_scheme" where
  "memcpy_bottom 0 edi esi st = st"
| "memcpy_bottom (Suc edx) edi esi st =
     memcpy_bottom edx (edi + 1) (esi + 1) (wr8 edi (rd8 st esi) st)"

definition memcpy_aligned :: "u32 \<Rightarrow> u32 \<Rightarrow> u32 \<Rightarrow> 'a machine_scheme \<Rightarrow> 'a machine_scheme" where
  "memcpy_aligned ecx edi esi st =
     (let edx = ecx; ecx = drop_bit 2 ecx; edx = edx AND 3; st = cld st;
          (edi, esi, st) = rep_movsl (unat ecx) edi esi st
      in memcpy_bottom (unat edx) edi esi st)"

function memcpy_top :: "u32 \<Rightarrow> u32 \<Rightarrow> u32 \<Rightarrow> 'a machine_scheme \<Rightarrow> 'a machine_scheme" where
  "memcpy_top ecx edi esi st =
     (if ecx = 0 then st
      else if edi AND 3 = 0 then memcpy_aligned ecx edi esi st
      else memcpy_top (ecx - 1) (edi + 1) (esi + 1) (wr8 edi (rd8 st esi) st))"
  by pat_completeness auto
termination
  by (relation "measure (\<lambda>(ecx, edi, esi, st). unat ecx)")
    (auto simp: unat_minus_one unat_gt_0)

declare memcpy_top.simps [simp del]

definition memcpy :: "u32 \<Rightarrow> u32 \<Rightarrow> u32 \<Rightarrow> 'a machine_scheme \<Rightarrow> u32 \<times> 'a machine_scheme" where
  "memcpy dest src n st = (dest, memcpy_top n dest src st)"

subsection \<open>\<open>memmove\<close>\<close>

text \<open>\<open>rep movsb\<close> moves up or down according to the direction flag.\<close>

primrec rep_movsb :: "nat \<Rightarrow> u32 \<Rightarrow> u32 \<Rightarrow> 'a machine_scheme \<Rightarrow> 'a machine_scheme" where
  "rep_movsb 0 edi esi st = st"
| "rep_movsb (Suc ecx) edi esi st =
     (let step = (if df_clear st then 1 else - 1)
      in rep_movsb ecx (edi + step) (esi + step) (wr8 edi (rd8 st esi) st))"

definition memmove :: "u32 \<Rightarrow> u32 \<Rightarrow> u32 \<Rightarrow> 'a machine_scheme \<Rightarrow> u32 \<times> 'a machine_scheme" where
  "memmove dest src n st =
     (let st = cld st;
          (edi, esi, st) =
            (if src \<ge> dest then (dest, src, st)
             else (dest + n - 1, src + n - 1, std st))
      in (dest, rep_movsb (unat n) edi esi st))"


subsection \<open>The reference loops\<close>

lemma fill_bytes_add:
  "fill_bytes (m + n) a c st = fill_bytes n (a + of_nat m) c (fill_bytes m a c st)"
  by (induction m arbitrary: a st) (simp_all add: algebra_simps)

lemma fill_bytes_frame [simp]:
  "mmu (fill_bytes n a c st) = mmu st" "io (fill_bytes n a c st) = io st"
  "eflags (fill_bytes n a c st) = eflags st" "esp (fill_bytes n a c st) = esp st"
  "ebp (fill_bytes n a c st) = ebp st"
  "machine.more (fill_bytes n a c st) = machine.more st"
  by (induction n arbitrary: a st) simp_all

lemma copy_bytes_add:
  "copy_bytes (m + n) d s st = copy_bytes n (d + of_nat m) (s + of_nat m) (copy_bytes m d s st)"
  by (induction m arbitrary: d s st) (simp_all add: algebra_simps)

lemma copy_bytes_frame [simp]:
  "mmu (copy_bytes n d s st) = mmu st" "io (copy_bytes n d s st) = io st"
  "eflags (copy_bytes n d s st) = eflags st" "esp (copy_bytes n d s st) = esp st"
  "ebp (copy_bytes n d s st) = ebp st"
  "machine.more (copy_bytes n d s st) = machine.more st"
  by (induction n arbitrary: d s st) simp_all

lemma df_clear_fill_bytes [simp]: "df_clear (fill_bytes n a c st) = df_clear st"
  by (simp add: df_clear_def)

lemma df_clear_copy_bytes [simp]: "df_clear (copy_bytes n d s st) = df_clear st"
  by (simp add: df_clear_def)

lemma dword_split: "unat (drop_bit 2 (n :: u32)) * 4 + unat (n AND 3) = unat n"
proof -
  have "unat (drop_bit 2 n) = unat n div 4"
    by (simp add: unat_drop_bit_eq drop_bit_eq_div unat_div_distrib)
  moreover have "n AND 3 = take_bit 2 n"
    by (simp add: take_bit_eq_mask mask_eq_exp_minus_1)
  then have "unat (n AND 3) = unat n mod 4"
    by (simp add: unsigned_take_bit_eq take_bit_eq_mod unat_mod_distrib)
  ultimately show ?thesis by simp
qed

lemma fill_bytes_4:
  "fill_bytes 4 a c st = wr8 (a + 3) c (wr8 (a + 2) c (wr8 (a + 1) c (wr8 a c st)))"
  by (simp add: numeral_eq_Suc add.assoc)

lemma copy_bytes_4:
  "copy_bytes 4 d s st =
     (let st1 = wr8 d (rd8 st s) st; st2 = wr8 (d + 1) (rd8 st1 (s + 1)) st1;
          st3 = wr8 (d + 2) (rd8 st2 (s + 2)) st2
      in wr8 (d + 3) (rd8 st3 (s + 3)) st3)"
  by (simp add: numeral_eq_Suc add.assoc Let_def)

text \<open>\<open>linear st a p n\<close>: the \<open>n\<close> bytes at the virtual address \<open>a\<close> are the \<open>n\<close> bytes at the
  physical address \<open>p\<close>. There, a filled or copied region is one update of the memory.\<close>

definition linear :: "'a machine_scheme \<Rightarrow> u32 \<Rightarrow> u32 \<Rightarrow> nat \<Rightarrow> bool" where
  "linear st a p n \<longleftrightarrow> (\<forall>i<n. mmu st (a + of_nat i) = p + of_nat i)"

definition within :: "u32 \<Rightarrow> u32 \<Rightarrow> nat \<Rightarrow> bool" where
  "within x p n \<longleftrightarrow> unat (x - p) < n"

definition blit :: "(u32 \<Rightarrow> u8) \<Rightarrow> u32 \<Rightarrow> u32 \<Rightarrow> nat \<Rightarrow> (u32 \<Rightarrow> u8)" where
  "blit m p q n = (\<lambda>x. if within x p n then m (q + (x - p)) else m x)"

lemma within_Suc:
  assumes "n < 2 ^ 32"
  shows "within x p (Suc n) \<longleftrightarrow> within x p n \<or> x = p + of_nat n"
proof -
  have "unat (x - p) = n \<longleftrightarrow> x - p = of_nat n"
    using assms by (auto simp: unat_of_nat take_bit_nat_eq_self)
  then show ?thesis by (auto simp: within_def less_Suc_eq algebra_simps)
qed

lemma linear_Suc: "linear st a p (Suc n) \<longleftrightarrow> linear st a p n \<and> mmu st (a + of_nat n) = p + of_nat n"
  by (auto simp: linear_def less_Suc_eq)

lemma mem_fill_bytes:
  assumes "linear st a p n" and "n \<le> 2 ^ 32"
  shows "mem (fill_bytes n a c st) = (\<lambda>x. if within x p n then c else mem st x)"
  using assms
proof (induction n)
  case 0
  then show ?case by (simp add: within_def)
next
  case (Suc n)
  have "fill_bytes (Suc n) a c st = wr8 (a + of_nat n) c (fill_bytes n a c st)"
    using fill_bytes_add [of n 1 a c st] by simp
  with Suc show ?case by (auto simp: mem_wr8 linear_Suc within_Suc)
qed

lemma mem_copy_bytes:
  assumes "linear st d p n" and "linear st s q n" and "n \<le> 2 ^ 32"
    and "\<And>i. i < n \<Longrightarrow> \<not> within (q + of_nat i) p i"
  shows "mem (copy_bytes n d s st) = blit (mem st) p q n"
  using assms
proof (induction n)
  case 0
  then show ?case by (simp add: blit_def within_def)
next
  case (Suc n)
  then have IH: "mem (copy_bytes n d s st) = blit (mem st) p q n"
    by (simp add: linear_Suc)
  have "rd8 (copy_bytes n d s st) (s + of_nat n) = mem st (q + of_nat n)"
    using Suc.prems by (simp add: rd8_def IH blit_def linear_Suc)
  moreover have "copy_bytes (Suc n) d s st =
      wr8 (d + of_nat n) (rd8 (copy_bytes n d s st) (s + of_nat n)) (copy_bytes n d s st)"
    using copy_bytes_add [of n 1 d s st] by simp
  ultimately show ?case
    using Suc.prems by (auto simp: mem_wr8 IH linear_Suc blit_def within_Suc)
qed

subsection \<open>\<open>memset\<close> fills the region byte by byte\<close>

lemma splat_bytes:
  fixes c :: u32
  assumes "eax = push_bit 24 (c AND 0xFF) OR push_bit 16 (c AND 0xFF)
             OR push_bit 8 (c AND 0xFF) OR (c AND 0xFF)"
  shows "ucast eax = (ucast c :: u8)" and "ucast (drop_bit 8 eax) = (ucast c :: u8)"
    and "ucast (drop_bit 16 eax) = (ucast c :: u8)" and "ucast (drop_bit 24 eax) = (ucast c :: u8)"
proof -
  have m: "c AND 0xFF = take_bit 8 c"
    by (simp add: take_bit_eq_mask mask_eq_exp_minus_1)
  show "ucast eax = (ucast c :: u8)"
    unfolding assms m by (rule bit_word_eqI) (auto simp: bit_simps)
  show "ucast (drop_bit 8 eax) = (ucast c :: u8)"
    unfolding assms m by (rule bit_word_eqI) (auto simp: bit_simps)
  show "ucast (drop_bit 16 eax) = (ucast c :: u8)"
    unfolding assms m by (rule bit_word_eqI) (auto simp: bit_simps)
  show "ucast (drop_bit 24 eax) = (ucast c :: u8)"
    unfolding assms m by (rule bit_word_eqI) (auto simp: bit_simps)
qed

lemma rep_stosl_fill:
  assumes "\<And>a st. wr32 a eax st = fill_bytes 4 a c (st :: 'a machine_scheme)"
  shows "rep_stosl k eax edi (st :: 'a machine_scheme) =
    (edi + 4 * of_nat k, fill_bytes (k * 4) edi c st)"
proof (induction k arbitrary: edi st)
  case 0
  then show ?case by simp
next
  case (Suc k)
  have "fill_bytes (Suc k * 4) edi c st = fill_bytes (k * 4) (edi + 4) c (fill_bytes 4 edi c st)"
    using fill_bytes_add [of 4 "k * 4" edi c st] by (simp add: algebra_simps)
  then show ?case by (simp add: Suc.IH assms algebra_simps del: fill_bytes.simps)
qed

lemma memset_bottom_fill: "memset_bottom n eax edi st = fill_bytes n edi (ucast eax) st"
  by (induction n arbitrary: edi st) simp_all

lemma memset_aligned_fill:
  assumes "\<And>a st. wr32 a eax st = fill_bytes 4 a (ucast eax) (st :: 'a machine_scheme)"
    and "df_clear st"
  shows "memset_aligned ecx eax edi (st :: 'a machine_scheme) = fill_bytes (unat ecx) edi (ucast eax) st"
proof -
  have "fill_bytes (unat ecx) edi (ucast eax) st =
      fill_bytes (unat (ecx AND 3)) (edi + 4 * of_nat (unat (drop_bit 2 ecx))) (ucast eax)
        (fill_bytes (unat (drop_bit 2 ecx) * 4) edi (ucast eax) st)"
    using fill_bytes_add [of "unat (drop_bit 2 ecx) * 4" "unat (ecx AND 3)" edi "ucast eax" st]
    by (simp only: dword_split) (simp add: mult.commute)
  then show ?thesis
    unfolding memset_aligned_def Let_def cld_df_clear [OF assms(2)]
      rep_stosl_fill [OF assms(1)] memset_bottom_fill by simp
qed

lemma memset_top_fill:
  assumes "\<And>a st. wr32 a eax st = fill_bytes 4 a (ucast eax) (st :: 'a machine_scheme)"
    and "df_clear st"
  shows "memset_top ecx eax edi (st :: 'a machine_scheme) = fill_bytes (unat ecx) edi (ucast eax) st"
  using assms(2)
proof (induction "unat ecx" arbitrary: ecx edi st)
  case 0
  then show ?case by (simp add: memset_top.simps unat_eq_0)
next
  case (Suc n)
  have nz: "ecx \<noteq> 0" using Suc.hyps(2) by auto
  then have n: "n = unat (ecx - 1)" using Suc.hyps(2) by (simp add: unat_minus_one)
  show ?case
  proof (cases "edi AND 3 = 0")
    case True
    with nz show ?thesis
      by (simp add: memset_top.simps [of ecx] memset_aligned_fill assms(1) Suc.prems)
  next
    case False
    with nz Suc.hyps(1) [OF n, of "wr8 edi (ucast eax) st" "edi + 1"] Suc.prems
    show ?thesis by (simp add: memset_top.simps [of ecx] n flip: Suc.hyps(2))
  qed
qed

lemma memset_fill:
  assumes "df_clear st"
  shows "memset s c n st = (s, fill_bytes (unat n) s (ucast c) st)"
proof -
  define eax where "eax = push_bit 24 (c AND 0xFF) OR push_bit 16 (c AND 0xFF)
             OR push_bit 8 (c AND 0xFF) OR (c AND 0xFF)"
  note b = splat_bytes [OF eax_def]
  have "\<And>a st. wr32 a eax st = fill_bytes 4 a (ucast eax) (st :: 'a machine_scheme)"
    by (simp add: wr32_def b fill_bytes_4)
  then have "memset_top n eax s st = fill_bytes (unat n) s (ucast eax) st"
    using assms by (intro memset_top_fill)
  then show ?thesis by (simp only: memset_def Let_def b(1) flip: eax_def)
qed

text \<open>\<open>memset_word\<close> and \<open>memset_dword\<close> store \<open>n\<close> units of two and four bytes.\<close>

lemma memset_dword_fill:
  assumes "df_clear st" and "\<And>k. k < 4 \<Longrightarrow> ucast (drop_bit (8 * k) c) = (b :: u8)"
  shows "memset_dword s c n st = (s, fill_bytes (unat n * 4) s b st)"
proof -
  have "\<And>a st. wr32 a c st = fill_bytes 4 a b (st :: 'a machine_scheme)"
    using assms(2) [of 0] assms(2) [of 1] assms(2) [of 2] assms(2) [of 3]
    by (simp add: wr32_def fill_bytes_4)
  then have "rep_stosl (unat n) c s st = (s + 4 * of_nat (unat n), fill_bytes (unat n * 4) s b st)"
    by (rule rep_stosl_fill)
  then show ?thesis by (simp add: memset_dword_def cld_df_clear assms(1))
qed

subsection \<open>\<open>memcpy\<close> copies a region that does not overlap its source\<close>

definition disjoint_regions :: "'a machine_scheme \<Rightarrow> u32 \<Rightarrow> u32 \<Rightarrow> nat \<Rightarrow> bool" where
  "disjoint_regions st d s n \<longleftrightarrow>
     (\<forall>i<n. \<forall>j<n. mmu st (d + of_nat i) \<noteq> mmu st (s + of_nat j))"

lemma bytes_rd32:
  "ucast (rd32 st a) = rd8 st a" "ucast (drop_bit 8 (rd32 st a)) = rd8 st (a + 1)"
  "ucast (drop_bit 16 (rd32 st a)) = rd8 st (a + 2)" "ucast (drop_bit 24 (rd32 st a)) = rd8 st (a + 3)"
  unfolding rd32_def by (rule bit_word_eqI; auto simp: bit_simps dest: bit_imp_le_length)+

lemma disjoint_regionsD:
  assumes "disjoint_regions st d s n" and "i < n" and "j < n"
  shows "mmu st (d + of_nat i) \<noteq> mmu st (s + of_nat j)"
  using assms by (simp add: disjoint_regions_def)

lemma wr32_copy:
  assumes "disjoint_regions st d s n" and "4 \<le> n"
  shows "wr32 d (rd32 st s) st = copy_bytes 4 d s st"
proof -
  have D: "mmu st (d + of_nat i) \<noteq> mmu st (s + of_nat j)" if "i < 4" and "j < 4" for i j
    using disjoint_regionsD [OF assms(1), of i j] that assms(2) by simp
  show ?thesis
    using D [of 0 1] D [of 0 2] D [of 0 3] D [of 1 2] D [of 1 3] D [of 2 3]
    by (simp add: wr32_def copy_bytes_4 Let_def bytes_rd32 rd8_wr8)
qed

lemma disjoint_regions_step:
  assumes "disjoint_regions st d s (m + n)" and "mmu st' = mmu st"
  shows "disjoint_regions st' (d + of_nat m) (s + of_nat m) n"
  unfolding disjoint_regions_def
proof (intro allI impI)
  fix i j assume "i < n" and "j < n"
  then show "mmu st' (d + of_nat m + of_nat i) \<noteq> mmu st' (s + of_nat m + of_nat j)"
    using disjoint_regionsD [OF assms(1), of "m + i" "m + j"] by (simp add: assms(2) add.assoc)
qed

lemma rep_movsl_copy:
  assumes "disjoint_regions st edi esi (k * 4)"
  shows "rep_movsl k edi esi st =
    (edi + 4 * of_nat k, esi + 4 * of_nat k, copy_bytes (k * 4) edi esi st)"
  using assms
proof (induction k arbitrary: edi esi st)
  case 0
  then show ?case by simp
next
  case (Suc k)
  let ?st = "copy_bytes 4 edi esi st"
  have "wr32 edi (rd32 st esi) st = ?st"
    using Suc.prems by (rule wr32_copy) simp
  moreover have "disjoint_regions ?st (edi + 4) (esi + 4) (k * 4)"
    using disjoint_regions_step [of st edi esi 4 "k * 4" ?st] Suc.prems by simp
  moreover have "copy_bytes (Suc k * 4) edi esi st = copy_bytes (k * 4) (edi + 4) (esi + 4) ?st"
    using copy_bytes_add [of 4 "k * 4" edi esi st] by simp
  ultimately show ?case
    using Suc.IH [of ?st "edi + 4" "esi + 4"] by (simp add: algebra_simps del: copy_bytes.simps)
qed

lemma memcpy_bottom_copy: "memcpy_bottom n edi esi st = copy_bytes n edi esi st"
  by (induction n arbitrary: edi esi st) simp_all

lemma memcpy_aligned_copy:
  assumes "disjoint_regions st edi esi (unat ecx)" and "df_clear st"
  shows "memcpy_aligned ecx edi esi st = copy_bytes (unat ecx) edi esi st"
proof -
  let ?k = "unat (drop_bit 2 ecx)"
  have "copy_bytes (unat ecx) edi esi st =
      copy_bytes (unat (ecx AND 3)) (edi + 4 * of_nat ?k) (esi + 4 * of_nat ?k)
        (copy_bytes (?k * 4) edi esi st)"
    using copy_bytes_add [of "?k * 4" "unat (ecx AND 3)" edi esi st]
    by (simp only: dword_split) (simp add: mult.commute)
  moreover have "?k * 4 \<le> unat ecx"
    using dword_split [of ecx] by linarith
  then have "disjoint_regions st edi esi (?k * 4)"
    using assms(1) by (auto simp: disjoint_regions_def)
  ultimately show ?thesis
    unfolding memcpy_aligned_def Let_def cld_df_clear [OF assms(2)] memcpy_bottom_copy
    by (simp add: rep_movsl_copy)
qed

lemma memcpy_top_copy:
  assumes "disjoint_regions st edi esi (unat ecx)" and "df_clear st"
  shows "memcpy_top ecx edi esi st = copy_bytes (unat ecx) edi esi st"
  using assms
proof (induction "unat ecx" arbitrary: ecx edi esi st)
  case 0
  then show ?case by (simp add: memcpy_top.simps unat_eq_0)
next
  case (Suc n)
  have nz: "ecx \<noteq> 0" using Suc.hyps(2) by auto
  then have n: "n = unat (ecx - 1)" using Suc.hyps(2) by (simp add: unat_minus_one)
  show ?case
  proof (cases "edi AND 3 = 0")
    case True
    with nz show ?thesis
      by (simp add: memcpy_top.simps [of ecx] memcpy_aligned_copy Suc.prems)
  next
    case False
    have "disjoint_regions (wr8 edi (rd8 st esi) st) (edi + 1) (esi + 1) n"
      using disjoint_regions_step [of st edi esi 1 n "wr8 edi (rd8 st esi) st"] Suc.prems(1) by (simp flip: Suc.hyps(2))
    with nz False Suc.hyps(1) [OF n, of "wr8 edi (rd8 st esi) st" "edi + 1" "esi + 1"] Suc.prems(2)
    show ?thesis by (simp add: memcpy_top.simps [of ecx] n flip: Suc.hyps(2))
  qed
qed

lemma memcpy_copy:
  assumes "disjoint_regions st dest src (unat n)" and "df_clear st"
  shows "memcpy dest src n st = (dest, copy_bytes (unat n) dest src st)"
  using assms by (simp add: memcpy_def memcpy_top_copy)

subsection \<open>\<open>memmove\<close> copies overlapping regions\<close>

lemma df_clear_cld [simp]: "df_clear (cld st)"
  by (simp add: df_clear_def cld_def and.assoc)

lemma df_set_std [simp]: "\<not> df_clear (std st)"
  by (simp add: df_clear_def std_def DF_MASK_def bit.conj_disj_distrib2)

lemma cld_frame [simp]:
  "mem (cld st) = mem st" "mmu (cld st) = mmu st" "mem (std st) = mem st" "mmu (std st) = mmu st"
  by (simp_all add: cld_def std_def)

lemma rep_movsb_up: "df_clear st \<Longrightarrow> rep_movsb n edi esi st = copy_bytes n edi esi st"
  by (induction n arbitrary: edi esi st) simp_all

lemma rep_movsb_flags: "df_clear (rep_movsb n edi esi st) = df_clear st"
  by (induction n arbitrary: edi esi st) (simp_all add: Let_def)

lemma mem_rep_movsb_down:
  assumes "\<not> df_clear st" and "linear st d p n" and "linear st s q n" and "n \<le> 2 ^ 32"
    and "\<And>i j. i < n \<Longrightarrow> j < i \<Longrightarrow> q + of_nat j \<noteq> p + of_nat i"
  shows "mem (rep_movsb n (d + of_nat n - 1) (s + of_nat n - 1) st) = blit (mem st) p q n"
  using assms
proof (induction n arbitrary: st)
  case 0
  then show ?case by (simp add: blit_def within_def)
next
  case (Suc n)
  let ?st = "wr8 (d + of_nat n) (rd8 st (s + of_nat n)) st"
  have lin: "linear ?st d p n" "linear ?st s q n"
    using Suc.prems(2,3) by (simp_all add: linear_def)
  have "mem (rep_movsb n (d + of_nat n - 1) (s + of_nat n - 1) ?st) = blit (mem ?st) p q n"
    using Suc.prems lin by (intro Suc.IH) simp_all
  then have "mem (rep_movsb (Suc n) (d + of_nat (Suc n) - 1) (s + of_nat (Suc n) - 1) st) =
      blit (mem ?st) p q n"
    using Suc.prems(1) by (simp add: Let_def)
  also have "\<dots> = blit (mem st) p q (Suc n)"
  proof
    fix x
    have "q + (x - p) \<noteq> p + of_nat n" if "within x p n"
    proof -
      have "unat (x - p) < n" using that by (simp add: within_def)
      then have "q + of_nat (unat (x - p)) \<noteq> p + of_nat n"
        using Suc.prems(5) by blast
      then show ?thesis by simp
    qed
    moreover have "\<not> within (p + of_nat n) p n"
      using Suc.prems(4) by (simp add: within_def unat_of_nat take_bit_nat_eq_self)
    ultimately show "blit (mem ?st) p q n x = blit (mem st) p q (Suc n) x"
      using Suc.prems(2,3,4) by (auto simp: blit_def mem_wr8 rd8_def linear_Suc within_Suc)
  qed
  finally show ?case .
qed

text \<open>The offset between two addresses of a region that does not wrap around.\<close>

lemma offset_not_below:
  assumes "unat dest \<le> unat (src :: u32)" and "unat src + n \<le> 2 ^ 32" and "i < n"
  shows "\<not> within (p + (src - dest) + of_nat i) p i"
proof -
  have "unat (src - dest) = unat src - unat dest"
    using assms(1) by (simp add: unat_sub word_le_nat_alt)
  moreover have "unat (of_nat i :: u32) = i"
    using assms(2,3) by (simp add: unat_of_nat take_bit_nat_eq_self)
  ultimately have "unat (src - dest + of_nat i) = unat src - unat dest + i"
    using assms by (simp add: unat_word_ariths)
  then show ?thesis by (simp add: within_def add.assoc)
qed

lemma offset_above:
  assumes "unat (src :: u32) < unat dest" and "unat dest + n \<le> 2 ^ 32" and "i < n" and "j < i"
  shows "p + (src - dest) + of_nat j \<noteq> p + of_nat i"
proof
  assume "p + (src - dest) + of_nat j = p + of_nat i"
  then have "src + of_nat j = dest + of_nat i" by (simp add: algebra_simps)
  then have "unat (src + of_nat j) = unat (dest + of_nat i)" by simp
  moreover have "unat (of_nat i :: u32) = i" "unat (of_nat j :: u32) = j"
    using assms by (simp_all add: unat_of_nat take_bit_nat_eq_self)
  ultimately show False using assms by (simp add: unat_word_ariths)
qed

lemma memmove_blit:
  assumes "linear st dest p (unat n)" and "linear st src (p + (src - dest)) (unat n)"
    and "unat dest + unat n \<le> 2 ^ 32" and "unat src + unat n \<le> 2 ^ 32"
  shows "mem (snd (memmove dest src n st)) = blit (mem st) p (p + (src - dest)) (unat n)"
    and "df_clear (snd (memmove dest src n st)) \<longleftrightarrow> dest \<le> src"
proof -
  let ?up = "rep_movsb (unat n) dest src (cld st)"
  let ?down = "rep_movsb (unat n) (dest + n - 1) (src + n - 1) (std (cld st))"
  have n: "unat n \<le> 2 ^ 32" using less_imp_le [OF unat_u32_bound [of n]] by simp
  have lin: "linear (cld st) dest p (unat n)" "linear (cld st) src (p + (src - dest)) (unat n)"
    "linear (std (cld st)) dest p (unat n)" "linear (std (cld st)) src (p + (src - dest)) (unat n)"
    using assms(1,2) by (simp_all add: linear_def)
  have "mem ?up = blit (mem st) p (p + (src - dest)) (unat n)" if "dest \<le> src"
    using mem_copy_bytes [OF lin(1,2) n] offset_not_below [of dest src "unat n"] that assms(4)
    by (simp add: rep_movsb_up word_le_nat_alt)
  moreover have "mem ?down = blit (mem st) p (p + (src - dest)) (unat n)" if "\<not> dest \<le> src"
    using mem_rep_movsb_down [OF df_set_std lin(3,4) n] offset_above [of src dest "unat n"] that assms(3)
    by (simp add: word_le_nat_alt)
  ultimately show "mem (snd (memmove dest src n st)) = blit (mem st) p (p + (src - dest)) (unat n)"
    by (simp add: memmove_def Let_def)
  show "df_clear (snd (memmove dest src n st)) \<longleftrightarrow> dest \<le> src"
    by (simp add: memmove_def Let_def rep_movsb_flags)
qed

subsection \<open>The three routines on contiguous regions\<close>

lemma fill_bytes_region:
  assumes "linear st a p n" and "n \<le> 2 ^ 32"
  shows "fill_bytes n a c st = st\<lparr>mem := \<lambda>x. if within x p n then c else mem st x\<rparr>"
  using mem_fill_bytes [OF assms, of c] by (intro machine.equality) simp_all

lemma copy_bytes_region:
  assumes "linear st d p n" and "linear st s q n" and "n \<le> 2 ^ 32"
    and "\<And>i. i < n \<Longrightarrow> \<not> within (q + of_nat i) p i"
  shows "copy_bytes n d s st = st\<lparr>mem := blit (mem st) p q n\<rparr>"
  using mem_copy_bytes [OF assms] by (intro machine.equality) simp_all

lemma unat_u32_le: "unat (n :: u32) \<le> 2 ^ 32"
  using less_imp_le [OF unat_u32_bound [of n]] by simp

lemma disjoint_not_within:
  assumes "linear st d p n" and "linear st s q n" and "disjoint_regions st d s n" and "i < n"
  shows "\<not> within (q + of_nat i) p i"
proof
  assume w: "within (q + of_nat i) p i"
  define j where "j = unat (q + of_nat i - p)"
  have "j < i" using w by (simp add: within_def j_def)
  then have "mmu st (d + of_nat j) = p + of_nat j" using assms(1,4) by (simp add: linear_def)
  also have "\<dots> = q + of_nat i" by (simp add: j_def)
  also have "\<dots> = mmu st (s + of_nat i)" using assms(2,4) by (simp add: linear_def)
  finally show False using disjoint_regionsD [OF assms(3), of j i] \<open>j < i\<close> assms(4) by simp
qed

lemma flat_linear [simp]: "linear flat_machine a b n \<longleftrightarrow> n = 0 \<or> a = b"
  by (cases n) (auto simp: linear_def)

lemma flat_disjoint:
  assumes "\<And>a. mmu st a = a" and "unat d + n \<le> unat s" and "unat s + n \<le> 2 ^ 32"
  shows "disjoint_regions st d s n"
  unfolding disjoint_regions_def
proof (intro allI impI notI)
  fix i j assume "i < n" "j < n" and "mmu st (d + of_nat i) = mmu st (s + of_nat j)"
  then have "unat (d + of_nat i) = unat (s + of_nat j)" by (simp add: assms(1))
  moreover have "unat d + i < 2 ^ 32" "unat s + j < 2 ^ 32"
    using assms \<open>i < n\<close> \<open>j < n\<close> by linarith+
  ultimately show False
    using assms \<open>i < n\<close> by (simp add: unat_offset)
qed

text \<open>\<open>memset\<close> (three phases: bytes up to a double-word boundary, double words, the rest):
  on a virtual region that is contiguous in physical memory it returns its first argument,
  sets exactly the \<open>n\<close> bytes of the region to the low byte of \<open>c\<close> and changes nothing else,
  whatever the alignment and the length.\<close>

theorem memset_region:
  assumes "df_clear st" and "linear st s p (unat n)"
  shows "memset s c n st =
    (s, st\<lparr>mem := \<lambda>x. if within x p (unat n) then ucast c else mem st x\<rparr>)"
  using assms by (simp add: memset_fill fill_bytes_region [OF _ unat_u32_le])

theorem memset_region_witness:
  "memset 0x1003 0x5A 9 flat_machine =
     (0x1003, flat_machine\<lparr>mem := \<lambda>x. if within x 0x1003 9 then 0x5A else 0\<rparr>)"
  using memset_region [of flat_machine "0x1003" "0x1003" 9 "0x5A"]
  by (simp cong: if_cong)

text \<open>\<open>memcpy\<close>: on regions contiguous in physical memory that do not overlap it returns
  the destination, makes the destination region equal to the source region and changes
  nothing else.\<close>

theorem memcpy_region:
  assumes "df_clear st" and "linear st dest p (unat n)" and "linear st src q (unat n)"
    and "disjoint_regions st dest src (unat n)"
  shows "memcpy dest src n st = (dest, st\<lparr>mem := blit (mem st) p q (unat n)\<rparr>)"
  using memcpy_copy [OF assms(4,1)]
    copy_bytes_region [OF assms(2,3) unat_u32_le disjoint_not_within [OF assms(2-4)]] by simp

theorem memcpy_region_witness:
  "memcpy 0x1003 0x2000 9 flat_machine =
     (0x1003, flat_machine\<lparr>mem := blit (mem flat_machine) 0x1003 0x2000 9\<rparr>)"
proof -
  have "disjoint_regions flat_machine 0x1003 0x2000 9"
    by (rule flat_disjoint) simp_all
  then show ?thesis
    using memcpy_region [of flat_machine "0x1003" "0x1003" 9 "0x2000" "0x2000"]
    by simp
qed

text \<open>C24. \<open>memmove\<close>: on any two regions, overlapping in either direction, the destination gets
  the bytes the source had before the call. The direction flag is left set exactly when the
  copy ran downwards, although the C calling convention wants it clear.\<close>

theorem memmove_region:
  assumes "linear st dest p (unat n)" and "linear st src (p + (src - dest)) (unat n)"
    and "unat dest + unat n \<le> 2 ^ 32" and "unat src + unat n \<le> 2 ^ 32"
  shows "mem (snd (memmove dest src n st)) = blit (mem st) p (p + (src - dest)) (unat n)
    \<and> (df_clear (snd (memmove dest src n st)) \<longleftrightarrow> dest \<le> src)"
  using memmove_blit [OF assms] by simp

theorem memmove_region_witness:
  "mem (snd (memmove 0x1004 0x1000 9 flat_machine)) = blit (mem flat_machine) 0x1004 0x1000 9
    \<and> \<not> df_clear (snd (memmove 0x1004 0x1000 9 flat_machine))"
  using memmove_region [of flat_machine "0x1004" "0x1004" 9 "0x1000"]
  by simp

end
