(* ===== verification/Strings.thy ===== *)
theory Strings
  imports Tmnt_Prelude
begin

text \<open>
  The string routines of \<^verbatim>\<open>student-distrib/lib.c\<close>. A \<open>char*\<close> is an array object and an
  offset into it; a loop that runs off its array is \<open>None\<close>. The theorems give each routine's
  result on NUL-terminated strings and show that it stays inside its arrays there.
\<close>

subsection \<open>\<open>strlen\<close>, \<open>strrev\<close>, \<open>itoa\<close>\<close>

function strlen_loop :: "u8 list \<Rightarrow> nat \<Rightarrow> nat \<Rightarrow> nat option" where
  "strlen_loop s p len =
     do { c \<leftarrow> aget s (p + len);
          if c \<noteq> 0 then strlen_loop s p (len + 1) else Some len }"
  by pat_completeness auto
termination
  by (relation "measure (\<lambda>(s, p, len). length s - (p + len))") (auto simp: aget_eq_Some)

declare strlen_loop.simps [simp del]

definition strlen :: "u8 list \<Rightarrow> nat \<Rightarrow> nat option" where
  "strlen s p = strlen_loop s p 0"

function strrev_loop :: "u8 list \<Rightarrow> nat \<Rightarrow> int \<Rightarrow> int \<Rightarrow> u8 list option" where
  "strrev_loop s p beg en =
     (if beg < en then
        do { tmp \<leftarrow> aget s (p + nat en);
             c \<leftarrow> aget s (p + nat beg);
             s \<leftarrow> aput s (p + nat en) c;
             s \<leftarrow> aput s (p + nat beg) tmp;
             strrev_loop s p (beg + 1) (en - 1) }
      else Some s)"
  by pat_completeness auto
termination
  by (relation "measure (\<lambda>(s, p, beg, en). nat (en - beg))") auto

declare strrev_loop.simps [simp del]

definition strrev :: "u8 list \<Rightarrow> nat \<Rightarrow> u8 list option" where
  "strrev s p = do { len \<leftarrow> strlen s p; strrev_loop s p 0 (int len - 1) }"

text \<open>The array \<open>lookup\<close>, with the NUL of the string literal.\<close>

definition itoa_lookup :: "u8 list" where
  "itoa_lookup = map of_char ''0123456789ABCDEFGHIJKLMNOPQRSTUVWXYZ'' @ [0]"

text \<open>\<open>newval % radix\<close> and \<open>newval / radix\<close> are unsigned (the \<open>int32_t\<close> radix is converted);
  a radix of 0 traps.\<close>

function itoa_loop :: "u32 \<Rightarrow> u32 \<Rightarrow> u8 list \<Rightarrow> nat \<Rightarrow> (u8 list \<times> nat) option" where
  "itoa_loop newval radix buf newbuf =
     (if newval > 0 then
        if radix = 0 then None
        else do { d \<leftarrow> aget itoa_lookup (unat (newval mod radix));
                  buf \<leftarrow> aput buf newbuf d;
                  itoa_loop (newval div radix) radix buf (newbuf + 1) }
      else Some (buf, newbuf))"
  by pat_completeness auto
termination
  by (relation "measure (\<lambda>(newval, radix, buf, newbuf). length buf - newbuf)")
    (auto simp: aput_eq_Some)

declare itoa_loop.simps [simp del]

definition itoa :: "u32 \<Rightarrow> u8 list \<Rightarrow> nat \<Rightarrow> u32 \<Rightarrow> u8 list option" where
  "itoa value buf p radix =
     (if value = 0 then
        do { buf \<leftarrow> aput buf p (of_char CHR ''0''); aput buf (p + 1) 0 }
      else
        do { (buf, newbuf) \<leftarrow> itoa_loop value radix buf p;
             buf \<leftarrow> aput buf newbuf 0;
             strrev buf p })"

subsection \<open>\<open>strncmp\<close>, \<open>strcpy\<close>, \<open>strncpy\<close>\<close>

text \<open>\<open>char\<close> is signed: the difference of two characters is that of their signed values.\<close>

function strncmp_loop :: "u8 list \<Rightarrow> u8 list \<Rightarrow> nat \<Rightarrow> nat \<Rightarrow> int option" where
  "strncmp_loop s1 s2 n i =
     (if i < n then
        do { a \<leftarrow> aget s1 i;
             b \<leftarrow> aget s2 i;
             if a \<noteq> b \<or> a = 0 then Some (sint a - sint b)
             else strncmp_loop s1 s2 n (i + 1) }
      else Some 0)"
  by pat_completeness auto
termination
  by (relation "measure (\<lambda>(s1, s2, n, i). n - i)") auto

declare strncmp_loop.simps [simp del]

definition strncmp :: "u8 list \<Rightarrow> u8 list \<Rightarrow> nat \<Rightarrow> int option" where
  "strncmp s1 s2 n = strncmp_loop s1 s2 n 0"

function strcpy_loop :: "u8 list \<Rightarrow> u8 list \<Rightarrow> nat \<Rightarrow> (u8 list \<times> nat) option" where
  "strcpy_loop dest src i =
     do { c \<leftarrow> aget src i;
          if c \<noteq> 0 then do { dest \<leftarrow> aput dest i c; strcpy_loop dest src (i + 1) }
          else Some (dest, i) }"
  by pat_completeness auto
termination
  by (relation "measure (\<lambda>(dest, src, i). length src - i)") (auto simp: aget_eq_Some)

declare strcpy_loop.simps [simp del]

definition strcpy :: "u8 list \<Rightarrow> u8 list \<Rightarrow> u8 list option" where
  "strcpy dest src = do { (dest, i) \<leftarrow> strcpy_loop dest src 0; aput dest i 0 }"

text \<open>The first loop of \<open>strncpy\<close> reads \<open>src[i]\<close> before it compares \<open>i\<close> with \<open>n\<close>.\<close>

function strncpy_copy :: "u8 list \<Rightarrow> u8 list \<Rightarrow> nat \<Rightarrow> nat \<Rightarrow> (u8 list \<times> nat) option" where
  "strncpy_copy dest src n i =
     do { c \<leftarrow> aget src i;
          if c \<noteq> 0 \<and> i < n
          then do { dest \<leftarrow> aput dest i c; strncpy_copy dest src n (i + 1) }
          else Some (dest, i) }"
  by pat_completeness auto
termination
  by (relation "measure (\<lambda>(dest, src, n, i). n - i)") auto

declare strncpy_copy.simps [simp del]

function strncpy_pad :: "u8 list \<Rightarrow> nat \<Rightarrow> nat \<Rightarrow> u8 list option" where
  "strncpy_pad dest n i =
     (if i < n then do { dest \<leftarrow> aput dest i 0; strncpy_pad dest n (i + 1) } else Some dest)"
  by pat_completeness auto
termination
  by (relation "measure (\<lambda>(dest, n, i). n - i)") auto

declare strncpy_pad.simps [simp del]

definition strncpy :: "u8 list \<Rightarrow> u8 list \<Rightarrow> nat \<Rightarrow> u8 list option" where
  "strncpy dest src n = do { (dest, i) \<leftarrow> strncpy_copy dest src n 0; strncpy_pad dest n i }"


subsection \<open>\<open>strlen\<close> and \<open>strrev\<close> on NUL-terminated strings\<close>

lemma strlen_loop_nul:
  assumes "0 \<notin> set xs" and "len \<le> length xs"
  shows "strlen_loop (pre @ xs @ 0 # post) (length pre) len = Some (length xs)"
  using assms(2)
proof (induction "length xs - len" arbitrary: len)
  case 0
  then show ?case by (simp add: strlen_loop.simps nth_append)
next
  case (Suc k)
  then have lt: "len < length xs" by linarith
  then have "xs ! len \<noteq> 0" using assms(1) by (metis nth_mem)
  moreover have "strlen_loop (pre @ xs @ 0 # post) (length pre) (len + 1) = Some (length xs)"
    using Suc.hyps(2) lt by (intro Suc.hyps(1)) simp_all
  ultimately show ?case using lt by (simp add: strlen_loop.simps [of _ _ len] nth_append)
qed

lemma strlen_nul: "0 \<notin> set xs \<Longrightarrow> strlen (pre @ xs @ 0 # post) (length pre) = Some (length xs)"
  by (simp add: strlen_def strlen_loop_nul)

lemma strlen_loop_unterminated:
  assumes "0 \<notin> set (drop p s)"
  shows "strlen_loop s p len = None"
proof (induction "length s - (p + len)" arbitrary: len)
  case 0
  then show ?case by (simp add: strlen_loop.simps)
next
  case (Suc k)
  then have lt: "p + len < length s" by linarith
  then have "s ! (p + len) \<in> set (drop p s)"
    using nth_mem [of len "drop p s"] by simp
  then have "s ! (p + len) \<noteq> 0" using assms by metis
  moreover have "strlen_loop s p (len + 1) = None" using Suc.hyps by simp
  ultimately show ?case using lt by (simp add: strlen_loop.simps [of s p len])
qed

lemma list_ends_cases:
  obtains "xs = []" | x where "xs = [x]" | a m b where "xs = a # m @ [b]"
  by (metis append_butlast_last_id list.exhaust)

lemma strrev_loop_rev:
  assumes "length pre = p + nat beg" and "0 \<le> beg"
  shows "strrev_loop (pre @ xs @ post) p beg (beg + int (length xs) - 1) = Some (pre @ rev xs @ post)"
  using assms
proof (induction "length xs" arbitrary: pre xs post beg rule: less_induct)
  case less
  show ?case
  proof (cases xs rule: list_ends_cases)
    case 1
    then show ?thesis by (simp add: strrev_loop.simps)
  next
    case (2 x)
    then show ?thesis by (simp add: strrev_loop.simps)
  next
    case (3 a m b)
    let ?en = "beg + int (length xs) - 1"
    have i: "p + nat (1 + (beg + int (length m))) = length pre + Suc (length m)" and j: "p + nat beg = length pre"
      using less.prems 3 by (simp_all add: nat_add_distrib)
    have "strrev_loop (pre @ xs @ post) p beg ?en =
        strrev_loop ((pre @ [b]) @ m @ (a # post)) p (beg + 1) (?en - 1)"
      using 3 by (simp add: strrev_loop.simps [of _ _ beg] i j nth_append list_update_append)
    also have "?en - 1 = (beg + 1) + int (length m) - 1" using 3 by simp
    also have "strrev_loop ((pre @ [b]) @ m @ (a # post)) p (beg + 1) \<dots> =
        Some ((pre @ [b]) @ rev m @ (a # post))"
      using 3 less.prems by (intro less.hyps) (simp_all add: nat_add_distrib)
    finally show ?thesis using 3 by simp
  qed
qed

lemma strrev_nul:
  assumes "0 \<notin> set xs"
  shows "strrev (pre @ xs @ 0 # post) (length pre) = Some (pre @ rev xs @ 0 # post)"
  using strrev_loop_rev [of pre "length pre" 0 xs "0 # post"]
  by (simp add: strrev_def strlen_nul assms)

subsection \<open>\<open>itoa\<close> prints the digits of its argument\<close>

function digits_rev :: "nat \<Rightarrow> nat \<Rightarrow> nat list" where
  "digits_rev r v = (if 2 \<le> r \<and> 0 < v then (v mod r) # digits_rev r (v div r) else [])"
  by pat_completeness auto
termination
  by (relation "measure (\<lambda>(r, v). v)") auto

declare digits_rev.simps [simp del]

definition numval :: "nat \<Rightarrow> nat list \<Rightarrow> nat" where
  "numval r ds = foldl (\<lambda>a d. a * r + d) 0 ds"

lemma numval_digits: "2 \<le> r \<Longrightarrow> numval r (rev (digits_rev r v)) = v"
proof (induction r v rule: digits_rev.induct)
  case (1 r v)
  then show ?case
    by (cases "0 < v") (simp_all add: digits_rev.simps [of r] numval_def)
qed

lemma digits_rev_less: "2 \<le> r \<Longrightarrow> d \<in> set (digits_rev r v) \<Longrightarrow> d < r"
proof (induction r v rule: digits_rev.induct)
  case (1 r v)
  then show ?case by (cases "0 < v") (auto simp: digits_rev.simps [of r v])
qed

lemma length_digits_rev: "2 \<le> r \<Longrightarrow> v < r ^ k \<Longrightarrow> length (digits_rev r v) \<le> k"
proof (induction k arbitrary: v)
  case 0
  then show ?case by (simp add: digits_rev.simps)
next
  case (Suc k)
  then have "v div r < r ^ k" by (simp add: less_mult_imp_div_less mult.commute)
  with Suc show ?case by (simp add: digits_rev.simps [of r v])
qed

definition digit_char :: "nat \<Rightarrow> u8" where
  "digit_char d = itoa_lookup ! d"

lemma length_itoa_lookup [simp]: "length itoa_lookup = 37"
  by (simp add: itoa_lookup_def)

lemma itoa_loop_digits:
  assumes "2 \<le> unat r" and "unat r \<le> 36" and "i + length (digits_rev (unat r) (unat v)) \<le> length buf"
  shows "itoa_loop v r buf i =
    Some (take i buf @ map digit_char (digits_rev (unat r) (unat v))
            @ drop (i + length (digits_rev (unat r) (unat v))) buf,
          i + length (digits_rev (unat r) (unat v)))"
  using assms(3)
proof (induction "unat v" arbitrary: v buf i rule: less_induct)
  case less
  show ?case
  proof (cases "v = 0")
    case True
    then show ?thesis by (simp add: itoa_loop.simps digits_rev.simps)
  next
    case False
    let ?d = "unat v mod unat r"
    let ?ds = "digits_rev (unat r) (unat (v div r))"
    have pos: "0 < unat v" using False by (simp add: unat_gt_0)
    have ds: "digits_rev (unat r) (unat v) = ?d # ?ds"
      using pos assms(1) by (simp add: digits_rev.simps [of _ "unat v"] unat_div_distrib)
    have smaller: "unat (v div r) < unat v"
      using pos assms(1) by (simp add: unat_div_distrib)
    have "?d < unat r" using assms(1) by simp
    then have d: "?d < 37" using assms(2) by simp
    have i: "i < length buf" using less.prems ds by simp
    have "itoa_loop (v div r) r (buf[i := digit_char ?d]) (i + 1) =
      Some (take (i + 1) (buf[i := digit_char ?d]) @ map digit_char ?ds
            @ drop (i + 1 + length ?ds) (buf[i := digit_char ?d]), i + 1 + length ?ds)"
      using less.prems ds by (intro less.hyps [OF smaller]) simp
    moreover have "r \<noteq> 0" using assms(1) by auto
    ultimately show ?thesis
      using False i d
      by (simp add: itoa_loop.simps [of v] word_gt_0 unat_mod_distrib ds digit_char_def
          take_Suc_conv_app_nth)
  qed
qed

lemma itoa_lookup_bytes: "\<forall>c\<in>set (take 36 itoa_lookup). 0x30 \<le> c"
  by (simp add: itoa_lookup_def)

lemma digit_char_plain:
  assumes "d < 36"
  shows "0x30 \<le> digit_char d" "digit_char d \<noteq> 0" "digit_char d \<noteq> 0x08"
proof -
  have "digit_char d \<in> set (take 36 itoa_lookup)"
    using assms nth_mem [of d "take 36 itoa_lookup"] by (simp add: digit_char_def)
  then show "0x30 \<le> digit_char d" using itoa_lookup_bytes by blast
  then show "digit_char d \<noteq> 0" "digit_char d \<noteq> 0x08" by auto
qed

lemmas digit_char_nonzero = digit_char_plain(2)

lemma itoa_digits:
  assumes "2 \<le> unat r" and "unat r \<le> 36" and "v \<noteq> 0"
    and "p + length (digits_rev (unat r) (unat v)) < length buf"
  shows "itoa v buf p r =
    Some (take p buf @ map digit_char (rev (digits_rev (unat r) (unat v)))
            @ 0 # drop (p + length (digits_rev (unat r) (unat v)) + 1) buf)"
proof -
  let ?ds = "digits_rev (unat r) (unat v)"
  let ?n = "p + length ?ds"
  have nz: "0 \<notin> set (map digit_char ?ds)"
    using digits_rev_less [OF assms(1)] assms(2) digit_char_nonzero by fastforce
  have "itoa_loop v r buf p = Some (take p buf @ map digit_char ?ds @ drop ?n buf, ?n)"
    using assms by (intro itoa_loop_digits) simp_all
  moreover have "aput (take p buf @ map digit_char ?ds @ drop ?n buf) ?n 0 =
      Some (take p buf @ map digit_char ?ds @ 0 # drop (?n + 1) buf)"
    using assms(4) by (simp add: list_update_append Cons_nth_drop_Suc [symmetric])
  moreover have "strrev (take p buf @ map digit_char ?ds @ 0 # drop (?n + 1) buf) p =
      Some (take p buf @ rev (map digit_char ?ds) @ 0 # drop (?n + 1) buf)"
    using strrev_nul [OF nz, of "take p buf" "drop (?n + 1) buf"] assms(4) by simp
  ultimately show ?thesis
    using assms(3) by (simp add: itoa_def rev_map)
qed

text \<open>Reading the printed digits back gives the number that was printed.\<close>

definition digit_value :: "u8 \<Rightarrow> nat" where
  "digit_value c = (if of_char CHR ''A'' \<le> c then unat c - 55 else unat c - 48)"

definition read_number :: "nat \<Rightarrow> u8 list \<Rightarrow> nat" where
  "read_number r cs = numval r (map digit_value cs)"

lemma digit_value_char: "d < 36 \<Longrightarrow> digit_value (digit_char d) = d"
proof -
  have "\<forall>d\<in>{0..<36::nat}. digit_value (digit_char d) = d"
    by code_simp
  then show "d < 36 \<Longrightarrow> digit_value (digit_char d) = d" by simp
qed

lemma read_number_digits:
  assumes "2 \<le> r" and "r \<le> 36"
  shows "read_number r (map digit_char (rev (digits_rev r v))) = v"
proof -
  have "map digit_value (map digit_char (rev (digits_rev r v))) = rev (digits_rev r v)"
    using digits_rev_less [OF assms(1), of _ v] assms(2)
    by (auto intro!: map_idI digit_value_char simp: less_le_trans [where y = r])
  then show ?thesis using assms(1) by (simp only: read_number_def numval_digits)
qed

text \<open>The string \<open>itoa\<close> leaves at the start of its buffer.\<close>

definition cstring_at :: "u8 list \<Rightarrow> nat \<Rightarrow> u8 list" where
  "cstring_at s p = takeWhile (\<lambda>c. c \<noteq> 0) (drop p s)"

lemma cstring_at_nul: "0 \<notin> set xs \<Longrightarrow> cstring_at (pre @ xs @ 0 # post) (length pre) = xs"
  by (simp add: cstring_at_def takeWhile_append2 [where P = "\<lambda>c. c \<noteq> 0"] takeWhile_tail)
    (metis (mono_tags, lifting) append_Nil2 takeWhile.simps(2) takeWhile_append2)

lemma length_digits_u32: "2 \<le> unat r \<Longrightarrow> length (digits_rev (unat r) (unat (v :: u32))) \<le> 32"
proof -
  assume r: "2 \<le> unat r"
  have "unat v < 2 ^ 32" using unat_u32_bound [of v] by simp
  also have "\<dots> \<le> unat r ^ 32" using r by (intro power_mono) simp_all
  finally show ?thesis using r by (intro length_digits_rev)
qed

text \<open>C25. \<open>itoa\<close> terminates and stays inside a buffer with room for 32 digits and the NUL, in
  every radix the kernel's digit table has; what it leaves there is a NUL-terminated numeral that
  reads back as the unsigned value, and the bytes before the buffer position are untouched.\<close>

theorem itoa_roundtrip:
  assumes "2 \<le> unat r" and "unat r \<le> 36" and "p + 32 < length buf"
  shows "\<exists>buf'. itoa v buf p r = Some buf' \<and> length buf' = length buf
    \<and> take p buf' = take p buf \<and> read_number (unat r) (cstring_at buf' p) = unat v"
proof (cases "v = 0")
  case True
  have "cstring_at (buf[p := of_char CHR ''0'', p + 1 := 0]) p = [of_char CHR ''0'']"
    using assms(3) by (simp add: cstring_at_def Cons_nth_drop_Suc [symmetric] drop_update_swap)
  then show ?thesis
    using True assms(3) by (simp add: itoa_def read_number_def numval_def digit_value_def)
next
  case False
  let ?ds = "digits_rev (unat r) (unat v)"
  let ?str = "map digit_char (rev ?ds)"
  have len: "p + length ?ds < length buf"
    using length_digits_u32 [OF assms(1), of v] assms(3) by linarith
  have nz: "0 \<notin> set ?str"
    using digits_rev_less [OF assms(1)] assms(2) digit_char_nonzero by fastforce
  have "cstring_at (take p buf @ ?str @ 0 # drop (p + length ?ds + 1) buf) p = ?str"
    using cstring_at_nul [OF nz, of "take p buf"] len by simp
  then show ?thesis
    using itoa_digits [OF assms(1,2) False len] len read_number_digits [OF assms(1,2)]
    by (simp add: min_def)
qed

theorem itoa_roundtrip_witness:
  "\<exists>buf'. itoa 0xFFFFFFFF (replicate 40 0) 3 10 = Some buf' \<and> length buf' = 40
    \<and> take 3 buf' = replicate 3 0 \<and> read_number 10 (cstring_at buf' 3) = 4294967295"
  using itoa_roundtrip [of 10 3 "replicate 40 0" "0xFFFFFFFF"] by simp

subsection \<open>\<open>strncmp\<close>\<close>

lemma strncmp_loop_shift:
  "strncmp_loop (a # s1) (b # s2) (Suc n) (Suc i) = strncmp_loop s1 s2 n i"
proof (induction "n - i" arbitrary: i)
  case 0
  then show ?case by (simp add: strncmp_loop.simps)
next
  case (Suc k)
  then have "strncmp_loop (a # s1) (b # s2) (Suc n) (Suc (i + 1)) = strncmp_loop s1 s2 n (i + 1)"
    by (intro Suc.hyps(1)) simp
  then show ?case
    by (simp add: strncmp_loop.simps [of _ _ _ i] strncmp_loop.simps [of _ _ _ "Suc i"] aget_def)
qed

lemma strncmp_Cons:
  "strncmp (a # s1) (b # s2) (Suc n) =
     (if a \<noteq> b \<or> a = 0 then Some (sint a - sint b) else strncmp s1 s2 n)"
  by (simp add: strncmp_def strncmp_loop.simps [of _ _ _ 0] strncmp_loop_shift)

lemma strncmp_0: "strncmp s1 s2 0 = Some 0"
  by (simp add: strncmp_def strncmp_loop.simps)

text \<open>The order \<open>strncmp\<close> decides: the signed characters, with the terminating NUL.\<close>

fun signed_order :: "u8 list \<Rightarrow> u8 list \<Rightarrow> int" where
  "signed_order [] [] = 0"
| "signed_order [] (y # ys) = - sint y"
| "signed_order (x # xs) [] = sint x"
| "signed_order (x # xs) (y # ys) = (if x = y then signed_order xs ys else sint x - sint y)"

lemma strncmp_signed_order:
  assumes "0 \<notin> set xs" and "0 \<notin> set ys"
  shows "strncmp (xs @ 0 # post1) (ys @ 0 # post2) n = Some (signed_order (take n xs) (take n ys))"
  using assms
proof (induction n arbitrary: xs ys)
  case 0
  then show ?case by (simp add: strncmp_0)
next
  case (Suc n)
  then show ?case by (cases xs; cases ys) (auto simp: strncmp_Cons)
qed

lemma signed_order_zero_iff:
  assumes "0 \<notin> set xs" and "0 \<notin> set ys"
  shows "signed_order xs ys = 0 \<longleftrightarrow> xs = ys"
  using assms
proof (induction xs ys rule: signed_order.induct)
  case (4 x xs y ys)
  then show ?case by (auto simp: signed_word_eqI)
qed (use signed_word_eqI [of _ "0 :: u8"] in auto)

subsection \<open>\<open>strncpy\<close>\<close>

lemma strncpy_pad_zeros:
  assumes "i \<le> n" and "n \<le> length dest"
  shows "strncpy_pad dest n i = Some (take i dest @ replicate (n - i) 0 @ drop n dest)"
  using assms
proof (induction "n - i" arbitrary: i dest)
  case 0
  then show ?case by (simp add: strncpy_pad.simps)
next
  case (Suc k)
  then have i: "i < n" by linarith
  have "strncpy_pad (dest[i := 0]) n (i + 1) =
      Some (take (i + 1) (dest[i := 0]) @ replicate (n - (i + 1)) 0 @ drop n (dest[i := 0]))"
    using Suc i by (intro Suc.hyps(1)) simp_all
  then show ?case
    using i Suc.prems by (simp add: strncpy_pad.simps [of dest n i] take_Suc_conv_app_nth
        Suc_diff_Suc [symmetric])
qed

lemma strncpy_copy_shift:
  "strncpy_copy (d # dest) (c # src) (Suc n) (Suc i) =
     map_option (\<lambda>(ds, k). (d # ds, Suc k)) (strncpy_copy dest src n i)"
proof (induction "length src - i" arbitrary: i dest)
  case 0
  then show ?case by (simp add: strncpy_copy.simps)
next
  case (Suc k)
  then have i: "i < length src" by linarith
  have "strncpy_copy (d # dest') (c # src) (Suc n) (Suc (i + 1)) =
      map_option (\<lambda>(ds, k). (d # ds, Suc k)) (strncpy_copy dest' src n (i + 1))" for dest'
    using Suc.hyps(2) by (intro Suc.hyps(1)) simp
  then show ?case
    using i by (simp add: strncpy_copy.simps [of _ _ _ i] strncpy_copy.simps [of _ _ _ "Suc i"] aput_def)
qed

lemma strncpy_pad_shift:
  "strncpy_pad (d # dest) (Suc n) (Suc i) = map_option (Cons d) (strncpy_pad dest n i)"
proof (induction "n - i" arbitrary: i dest)
  case 0
  then show ?case by (simp add: strncpy_pad.simps)
next
  case (Suc k)
  have "strncpy_pad (d # dest') (Suc n) (Suc (i + 1)) = map_option (Cons d) (strncpy_pad dest' n (i + 1))"
    for dest' using Suc.hyps(2) by (intro Suc.hyps(1)) simp
  then show ?case
    by (simp add: strncpy_pad.simps [of _ _ i] strncpy_pad.simps [of _ _ "Suc i"] aput_def)
qed

lemma strncpy_Cons:
  "c \<noteq> 0 \<Longrightarrow> strncpy (d # dest) (c # src) (Suc n) = map_option (Cons c) (strncpy dest src n)"
  by (cases "strncpy_copy dest src n 0")
    (auto simp: strncpy_def strncpy_copy.simps [of "d # dest" "c # src" "Suc n" 0]
      strncpy_copy_shift strncpy_pad_shift)

lemma strncpy_Nil: "strncpy dest [] n = None"
  by (simp add: strncpy_def strncpy_copy.simps)

lemma strncpy_nul:
  assumes "0 \<notin> set xs" and "n \<le> length dest"
  shows "strncpy dest (xs @ 0 # post) n = Some (take n (xs @ replicate n 0) @ drop n dest)"
  using assms
proof (induction n arbitrary: xs dest)
  case 0
  then show ?case
    by (cases xs) (simp_all add: strncpy_def strncpy_copy.simps strncpy_pad.simps)
next
  case (Suc n)
  then obtain d ds where dest: "dest = d # ds" by (cases dest) auto
  show ?case
  proof (cases xs)
    case Nil
    then show ?thesis
      using Suc.prems by (simp add: strncpy_def strncpy_copy.simps strncpy_pad_zeros)
  next
    case (Cons c cs)
    then have "strncpy ds (cs @ 0 # post) n = Some (take n (cs @ replicate n 0) @ drop n ds)"
      using Suc.prems dest by (intro Suc.IH) simp_all
    then show ?thesis
      using Cons Suc.prems dest by (auto simp: strncpy_Cons replicate_append_same [symmetric])
  qed
qed

text \<open>A source that fills \<open>n\<close> bytes without a NUL is read one byte past its end.\<close>

lemma strncpy_overread:
  assumes "0 \<notin> set src" and "length src = length dest"
  shows "strncpy dest src (length src) = None"
  using assms(2,1)
proof (induction src dest rule: list_induct2)
  case Nil
  then show ?case by (simp add: strncpy_Nil)
next
  case (Cons c src d dest)
  then show ?case by (simp add: strncpy_Cons)
qed

text \<open>\<open>strncmp\<close> on two NUL-terminated strings never reads past either terminator, returns
  zero exactly when the first \<open>n\<close> characters agree, and is otherwise the difference of the first
  two signed characters that differ (the terminator counting as 0).\<close>

theorem strncmp_correct:
  assumes "0 \<notin> set xs" and "0 \<notin> set ys"
  shows "\<exists>r. strncmp (xs @ 0 # post1) (ys @ 0 # post2) n = Some r
    \<and> r = signed_order (take n xs) (take n ys) \<and> (r = 0 \<longleftrightarrow> take n xs = take n ys)"
proof -
  have "0 \<notin> set (take n xs)" "0 \<notin> set (take n ys)"
    using assms by (auto dest: in_set_takeD)
  then show ?thesis by (simp add: strncmp_signed_order [OF assms] signed_order_zero_iff)
qed

theorem strncmp_correct_witness:
  "\<exists>r. strncmp ([0x65, 0x78, 0x69, 0x74] @ 0 # []) ([0x65, 0x78] @ 0 # [1, 2]) 4 = Some r
    \<and> r = signed_order (take 4 [0x65, 0x78, 0x69, 0x74]) (take 4 [0x65, 0x78])
    \<and> (r = 0 \<longleftrightarrow> take 4 [0x65, 0x78, 0x69, 0x74 :: u8] = take 4 [0x65, 0x78])"
  by (rule strncmp_correct) simp_all

text \<open>\<open>strncpy\<close> of a NUL-terminated source writes exactly the first \<open>n\<close> bytes of the
  destination, with the string cut to \<open>n\<close> characters and padded with NULs; but with a source of
  \<open>n\<close> characters in an array of \<open>n\<close> bytes (no terminator) the loop reads \<open>src[n]\<close>, outside the
  array, before it compares \<open>i\<close> with \<open>n\<close>.\<close>

theorem strncpy_correct:
  shows "(0 \<notin> set xs \<longrightarrow> n \<le> length dest \<longrightarrow>
      strncpy dest (xs @ 0 # post) n = Some (take n (xs @ replicate n 0) @ drop n dest))
    \<and> (0 \<notin> set src \<longrightarrow> length src = length dest \<longrightarrow> strncpy dest src (length src) = None)"
  using strncpy_overread [of src dest] by (simp add: strncpy_nul)

theorem strncpy_correct_witness:
  "strncpy [9, 9, 9, 9] ([1, 2] @ 0 # [7]) 3 = Some (take 3 ([1, 2] @ replicate 3 0) @ [9])
    \<and> strncpy [9, 9] [1, 2] 2 = None"
  using strncpy_correct [of "[1, 2]" 3 "[9, 9, 9, 9]" "[7]" "[]"]
    strncpy_correct [of "[]" 0 "[9, 9]" "[]" "[1, 2]"]
  by (simp add: numeral_2_eq_2)

end
