(* ===== verification/I8259.thy ===== *)
theory I8259
  imports Machine
begin

text \<open>
  The programmable interrupt controllers, \<^verbatim>\<open>student-distrib/i8259.c\<close> and
  \<^verbatim>\<open>i8259.h\<close>. The two chips are hardware: what they answer to a port read is the
  argument \<open>hw\<close>. Their documented behaviour (the data port of a chip that expects no
  initialisation word reads back its mask) is the hypothesis \<open>pic_reads_back\<close>.
\<close>

abbreviation MASTER_8259_PORT :: u8 where "MASTER_8259_PORT \<equiv> 0x20"
abbreviation SLAVE_8259_PORT :: u8 where "SLAVE_8259_PORT \<equiv> 0xA0"
abbreviation ICW1 :: u8 where "ICW1 \<equiv> 0x11"
abbreviation ICW2_MASTER :: u8 where "ICW2_MASTER \<equiv> 0x20"
abbreviation ICW2_SLAVE :: u8 where "ICW2_SLAVE \<equiv> 0x28"
abbreviation ICW3_MASTER :: u8 where "ICW3_MASTER \<equiv> 0x04"
abbreviation ICW3_SLAVE :: u8 where "ICW3_SLAVE \<equiv> 0x02"
abbreviation ICW4 :: u8 where "ICW4 \<equiv> 0x01"
abbreviation EOI :: u8 where "EOI \<equiv> 0x60"
abbreviation SLAVE_IRQ :: u32 where "SLAVE_IRQ \<equiv> 0x02"
abbreviation SLAVE_IRQ_MASK :: u32 where "SLAVE_IRQ_MASK \<equiv> 0x07"
abbreviation MASK :: u8 where "MASK \<equiv> 0xFF"
abbreviation SLAVE_IRQ_START :: u32 where "SLAVE_IRQ_START \<equiv> 0x08"

subsection \<open>The operations\<close>

text \<open>\<open>1 << irq_num\<close> is an \<open>int\<close>; a shift by 32 or more is outside C.\<close>

definition enable_irq :: "hardware \<Rightarrow> u32 \<Rightarrow> 'a machine_scheme \<Rightarrow> 'a machine_scheme" where
  "enable_irq hw irq_num s =
     (let (flags, s) = cli_and_save s;
          (port, irq_num) =
            (if irq_num < SLAVE_IRQ_START then (MASTER_8259_PORT + 1, irq_num)
             else (SLAVE_8259_PORT + 1, irq_num - SLAVE_IRQ_START));
          (v, s) = inb hw (ucast port) s;
          value = ucast (v AND NOT (push_bit (unat irq_num) 1));
          s = outb value (ucast port) s
      in restore_flags flags s)"

definition disable_irq :: "hardware \<Rightarrow> u32 \<Rightarrow> 'a machine_scheme \<Rightarrow> 'a machine_scheme" where
  "disable_irq hw irq_num s =
     (let (flags, s) = cli_and_save s;
          (port, irq_num) =
            (if irq_num < SLAVE_IRQ_START then (MASTER_8259_PORT + 1, irq_num)
             else (SLAVE_8259_PORT + 1, irq_num - SLAVE_IRQ_START));
          (v, s) = inb hw (ucast port) s;
          value = ucast (v OR push_bit (unat irq_num) 1);
          s = outb value (ucast port) s
      in restore_flags flags s)"

definition send_eoi :: "u32 \<Rightarrow> 'a machine_scheme \<Rightarrow> 'a machine_scheme" where
  "send_eoi irq_num s =
     (let (flags, s) = cli_and_save s;
          s = (if irq_num \<ge> SLAVE_IRQ_START
               then outb (EOI OR ucast SLAVE_IRQ) (ucast MASTER_8259_PORT)
                      (outb (EOI OR ucast (irq_num AND SLAVE_IRQ_MASK)) (ucast SLAVE_8259_PORT) s)
               else outb (EOI OR ucast irq_num) (ucast MASTER_8259_PORT) s)
      in restore_flags flags s)"

text \<open>\<open>outb\<close> followed by \<open>io_wait\<close>, as every write of the initialisation is.\<close>

definition outb_wait :: "u8 \<Rightarrow> u8 \<Rightarrow> 'a machine_scheme \<Rightarrow> 'a machine_scheme" where
  "outb_wait data port s = io_wait (outb data (ucast port) s)"

text \<open>The delay loop of \<open>i8259_init\<close> counts a local variable and leaves no trace.\<close>

definition i8259_init :: "hardware \<Rightarrow> 'a machine_scheme \<Rightarrow> 'a machine_scheme" where
  "i8259_init hw s =
     (let s = cli s;
          s = outb_wait MASK (MASTER_8259_PORT + 1) s;
          s = outb_wait MASK (SLAVE_8259_PORT + 1) s;
          s = outb_wait ICW1 MASTER_8259_PORT s;
          s = outb_wait ICW2_MASTER (MASTER_8259_PORT + 1) s;
          s = outb_wait ICW3_MASTER (MASTER_8259_PORT + 1) s;
          s = outb_wait ICW4 (MASTER_8259_PORT + 1) s;
          s = outb_wait ICW1 SLAVE_8259_PORT s;
          s = outb_wait ICW2_SLAVE (SLAVE_8259_PORT + 1) s;
          s = outb_wait ICW3_SLAVE (SLAVE_8259_PORT + 1) s;
          s = outb_wait ICW4 (SLAVE_8259_PORT + 1) s;
          s = outb_wait MASK (MASTER_8259_PORT + 1) s;
          s = outb_wait MASK (SLAVE_8259_PORT + 1) s;
          s = enable_irq hw SLAVE_IRQ s
      in sti s)"

subsection \<open>The mask the controllers hold\<close>

text \<open>A chip as the writes to its two ports leave it: how many initialisation words it still expects at its data
  port, and its mask. The first initialisation word (bit 4 set, at the command port) clears the mask and announces
  the second, the third unless bit 1 says that the chip is alone, and the fourth if bit 0 asks for it.\<close>

definition pic_event :: "u16 \<Rightarrow> io_event \<Rightarrow> nat \<times> u8 option \<Rightarrow> nat \<times> u8 option" where
  "pic_event port ev c =
     (case ev of
        Out p v \<Rightarrow>
          if p = port then (if fst c = 0 then (0, Some v) else (fst c - 1, snd c))
          else if p = port - 1 \<and> bit v 4 then (1 + (if bit v 1 then 0 else 1) + (if bit v 0 then 1 else 0), Some 0)
          else c
      | _ \<Rightarrow> c)"

primrec pic_chip :: "io_event list \<Rightarrow> u16 \<Rightarrow> nat \<times> u8 option" where
  "pic_chip [] port = (0, None)"
| "pic_chip (ev # h) port = pic_event port ev (pic_chip h port)"

lemma pic_event_simps [simp]:
  "pic_event port (Out p v) c =
     (if p = port then (if fst c = 0 then (0, Some v) else (fst c - 1, snd c))
      else if p = port - 1 \<and> bit v 4 then (1 + (if bit v 1 then 0 else 1) + (if bit v 0 then 1 else 0), Some 0)
      else c)"
  "pic_event port (In p v) c = c" "pic_event port (OutW p w) c = c"
  by (simp_all add: pic_event_def)

definition pic_data_port :: "u16 \<Rightarrow> bool" where
  "pic_data_port port \<longleftrightarrow> port = 0x21 \<or> port = 0xA1"

definition pic_reads_back :: "hardware \<Rightarrow> bool" where
  "pic_reads_back hw \<longleftrightarrow>
     (\<forall>h port v. pic_data_port port \<longrightarrow> pic_chip h port = (0, Some v) \<longrightarrow> hw h port = v)"

text \<open>Any hardware with that behaviour, with the data ports answered from the history.\<close>

definition readback_hw :: "hardware \<Rightarrow> hardware" where
  "readback_hw other h port =
     (if pic_data_port port then case pic_chip h port of (0, Some v) \<Rightarrow> v | _ \<Rightarrow> other h port
      else other h port)"

lemma pic_reads_back_readback_hw: "pic_reads_back (readback_hw other)"
  by (simp add: pic_reads_back_def readback_hw_def)

lemma readback_hw_id: "pic_reads_back hw \<Longrightarrow> readback_hw hw = hw"
  by (intro ext) (auto simp: pic_reads_back_def readback_hw_def split: option.split prod.split nat.split)

definition pic_ready :: "'a machine_scheme \<Rightarrow> bool" where
  "pic_ready s \<longleftrightarrow> (\<forall>port\<in>{0x21, 0xA1}. fst (pic_chip (io s) port) = 0 \<and> snd (pic_chip (io s) port) \<noteq> None)"

definition irq_masked :: "'a machine_scheme \<Rightarrow> nat \<Rightarrow> bool" where
  "irq_masked s i =
     (if i < 8 then bit (the (snd (pic_chip (io s) 0x21))) i
      else bit (the (snd (pic_chip (io s) 0xA1))) (i - 8))"

text \<open>The interface of an interrupt controller for the sixteen lines of a PC, and what its
  clients get from it.\<close>

locale irq_controller =
  fixes enable :: "nat \<Rightarrow> 's \<Rightarrow> 's"
    and disable :: "nat \<Rightarrow> 's \<Rightarrow> 's"
    and masked :: "'s \<Rightarrow> nat \<Rightarrow> bool"
    and ready :: "'s \<Rightarrow> bool"
  assumes masked_enable: "ready s \<Longrightarrow> irq < 16 \<Longrightarrow> i < 16 \<Longrightarrow> masked (enable irq s) i = (masked s i \<and> i \<noteq> irq)"
    and masked_disable: "ready s \<Longrightarrow> irq < 16 \<Longrightarrow> i < 16 \<Longrightarrow> masked (disable irq s) i = (masked s i \<or> i = irq)"
    and ready_enable: "ready s \<Longrightarrow> irq < 16 \<Longrightarrow> ready (enable irq s)"
    and ready_disable: "ready s \<Longrightarrow> irq < 16 \<Longrightarrow> ready (disable irq s)"
begin

lemma enable_all:
  assumes "ready s" and "\<forall>irq\<in>set irqs. irq < 16" and "i < 16"
  shows "ready (fold enable irqs s)"
    and "masked (fold enable irqs s) i = (masked s i \<and> i \<notin> set irqs)"
  using assms
proof (induction irqs arbitrary: s)
  case (Cons irq irqs)
  { case 1 then show ?case using Cons.IH(1) by (simp add: ready_enable) }
  { case 2 then show ?case using Cons.IH(2) by (auto simp: ready_enable masked_enable) }
qed simp_all

lemma enable_disable:
  assumes "ready s" and "irq < 16" and "i < 16"
  shows "masked (disable irq (enable irq s)) i = (masked s i \<or> i = irq)"
  using assms by (auto simp: masked_enable masked_disable ready_enable)

end

subsection \<open>The operations implement the interface\<close>

lemma mask_bit_clear:
  "bit (ucast ((ucast (v :: u8) :: u32) AND NOT (2 ^ k)) :: u8) j \<longleftrightarrow> bit v j \<and> j \<noteq> k"
  by (auto simp: bit_simps dest: bit_imp_le_length)

lemma mask_bit_set:
  "k < 8 \<Longrightarrow> bit (ucast ((ucast (v :: u8) :: u32) OR 2 ^ k) :: u8) j \<longleftrightarrow> bit v j \<or> j = k"
  by (auto simp: bit_simps dest: bit_imp_le_length)

lemma irq_word: "i < 16 \<Longrightarrow> unat (of_nat i :: u32) = i"
  by (simp add: unat_of_nat take_bit_nat_eq_self)

lemma irq_word_less: "i < 16 \<Longrightarrow> (of_nat i :: u32) < 8 \<longleftrightarrow> i < 8"
  by (simp add: word_less_nat_alt irq_word)

lemma irq_word_minus: "8 \<le> i \<Longrightarrow> i < 16 \<Longrightarrow> unat (of_nat i - 8 :: u32) = i - 8"
  by (simp add: unat_sub word_le_nat_alt irq_word)

lemmas irq_word_simps = irq_word irq_word_less irq_word_minus

lemma enable_irq_io:
  assumes "irq < 16"
  shows "io (enable_irq hw (of_nat irq) s) =
    (if irq < 8
     then Out 0x21 (ucast ((ucast (hw (io s) 0x21) :: u32) AND NOT (2 ^ irq)))
            # In 0x21 (hw (io s) 0x21) # io s
     else Out 0xA1 (ucast ((ucast (hw (io s) 0xA1) :: u32) AND NOT (2 ^ (irq - 8))))
            # In 0xA1 (hw (io s) 0xA1) # io s)"
  using assms by (simp add: enable_irq_def cli_and_save_def inb_def Let_def irq_word_simps)

lemma disable_irq_io:
  assumes "irq < 16"
  shows "io (disable_irq hw (of_nat irq) s) =
    (if irq < 8
     then Out 0x21 (ucast ((ucast (hw (io s) 0x21) :: u32) OR 2 ^ irq))
            # In 0x21 (hw (io s) 0x21) # io s
     else Out 0xA1 (ucast ((ucast (hw (io s) 0xA1) :: u32) OR 2 ^ (irq - 8)))
            # In 0xA1 (hw (io s) 0xA1) # io s)"
  using assms by (simp add: disable_irq_def cli_and_save_def inb_def Let_def irq_word_simps)

lemma enable_irq_frame [simp]:
  "mem (enable_irq hw irq s) = mem s" "mmu (enable_irq hw irq s) = mmu s"
  "eflags (enable_irq hw irq s) = eflags s" "esp (enable_irq hw irq s) = esp s"
  "ebp (enable_irq hw irq s) = ebp s" "machine.more (enable_irq hw irq s) = machine.more s"
  by (simp_all add: enable_irq_def cli_and_save_def inb_def Let_def)

lemma pic_ready_read:
  assumes "pic_reads_back hw" and "pic_ready s"
  shows "hw (io s) 0x21 = the (snd (pic_chip (io s) 0x21))" and "hw (io s) 0xA1 = the (snd (pic_chip (io s) 0xA1))"
  using assms by (simp_all add: pic_reads_back_def pic_ready_def pic_data_port_def prod_eq_iff)

lemma enable_irq_masked:
  assumes "pic_reads_back hw" and "pic_ready s" and "irq < 16" and "i < 16"
  shows "irq_masked (enable_irq hw (of_nat irq) s) i \<longleftrightarrow> irq_masked s i \<and> i \<noteq> irq"
    and "pic_ready (enable_irq hw (of_nat irq) s)"
  using assms(2-) pic_ready_read [OF assms(1,2)]
  by (auto simp: irq_masked_def pic_ready_def pic_data_port_def enable_irq_io mask_bit_clear)

lemma disable_irq_masked:
  assumes "pic_reads_back hw" and "pic_ready s" and "irq < 16" and "i < 16"
  shows "irq_masked (disable_irq hw (of_nat irq) s) i \<longleftrightarrow> irq_masked s i \<or> i = irq"
    and "pic_ready (disable_irq hw (of_nat irq) s)"
  using assms(2-) pic_ready_read [OF assms(1,2)]
  by (auto simp: irq_masked_def pic_ready_def pic_data_port_def disable_irq_io mask_bit_set)

interpretation pic: irq_controller
  "\<lambda>irq. enable_irq (readback_hw other) (of_nat irq)"
  "\<lambda>irq. disable_irq (readback_hw other) (of_nat irq)" irq_masked pic_ready for other
proof (unfold_locales, goal_cases)
  case (1 s irq i) then show ?case
    by (simp add: enable_irq_masked pic_reads_back_readback_hw)
next
  case (2 s irq i) then show ?case
    by (simp add: disable_irq_masked pic_reads_back_readback_hw)
next
  case (3 s irq) then show ?case
    using enable_irq_masked(2) [OF pic_reads_back_readback_hw, of s irq 0] by simp
next
  case (4 s irq) then show ?case
    using disable_irq_masked(2) [OF pic_reads_back_readback_hw, of s irq 0] by simp
qed

subsection \<open>Initialisation and acknowledgement\<close>

lemma outb_wait_io [simp]: "io (outb_wait d p s) = Out 0x80 0 # Out (ucast p) d # io s"
  by (simp add: outb_wait_def io_wait_def)

lemma outb_wait_frame [simp]:
  "mem (outb_wait d p s) = mem s" "mmu (outb_wait d p s) = mmu s"
  "eflags (outb_wait d p s) = eflags s" "machine.more (outb_wait d p s) = machine.more s"
  by (simp_all add: outb_wait_def io_wait_def)

lemma sti_frame [simp]:
  "mem (sti s) = mem s" "mmu (sti s) = mmu s" "io (sti s) = io s" "esp (sti s) = esp s"
  "ebp (sti s) = ebp s" "machine.more (sti s) = machine.more s"
  "eflags (sti s) = eflags s OR IF_MASK"
  by (simp_all add: sti_def)

lemma sti_pic [simp]: "irq_masked (sti s) i = irq_masked s i" "pic_ready (sti s) = pic_ready s"
  by (simp_all add: irq_masked_def pic_ready_def)

text \<open>The sixteen lines after initialisation: the cascade line alone is open.\<close>

lemma all_ones_u8_bit: "i < 8 \<Longrightarrow> bit (255 :: u8) i"
proof -
  have "(255 :: u8) = - 1" by simp
  then show "i < 8 \<Longrightarrow> bit (255 :: u8) i" by (simp only: bit_minus_1_iff) simp
qed

lemma i8259_init_masks:
  assumes "pic_reads_back hw" and "i < 16"
  shows "pic_ready (i8259_init hw s)"
    and "irq_masked (i8259_init hw s) i \<longleftrightarrow> i \<noteq> 2"
    and "eflags (i8259_init hw s) = (eflags s AND NOT IF_MASK) OR IF_MASK"
proof -
  let ?t = "outb_wait MASK (SLAVE_8259_PORT + 1) (outb_wait MASK (MASTER_8259_PORT + 1)
    (outb_wait ICW4 (SLAVE_8259_PORT + 1) (outb_wait ICW3_SLAVE (SLAVE_8259_PORT + 1)
    (outb_wait ICW2_SLAVE (SLAVE_8259_PORT + 1) (outb_wait ICW1 SLAVE_8259_PORT
    (outb_wait ICW4 (MASTER_8259_PORT + 1) (outb_wait ICW3_MASTER (MASTER_8259_PORT + 1)
    (outb_wait ICW2_MASTER (MASTER_8259_PORT + 1) (outb_wait ICW1 MASTER_8259_PORT
    (outb_wait MASK (SLAVE_8259_PORT + 1) (outb_wait MASK (MASTER_8259_PORT + 1) (cli s))))))))))))"
  have init: "i8259_init hw s = sti (enable_irq hw (of_nat 2) ?t)"
    by (simp add: i8259_init_def Let_def)
  have chips: "pic_chip (io ?t) 0x21 = (0, Some 0xFF)" "pic_chip (io ?t) 0xA1 = (0, Some 0xFF)" by simp_all
  have ready: "pic_ready ?t" unfolding pic_ready_def by (simp only: chips ball_simps) simp
  have masked: "irq_masked ?t i"
    unfolding irq_masked_def chips using assms(2) all_ones_u8_bit [of i] all_ones_u8_bit [of "i - 8"] by auto
  have step: "irq_masked (enable_irq hw (of_nat 2) ?t) i \<longleftrightarrow> i \<noteq> 2"
    "pic_ready (enable_irq hw (of_nat 2) ?t)"
    using enable_irq_masked [OF assms(1) ready, of 2 i] assms(2) masked by simp_all
  show "pic_ready (i8259_init hw s)" using step(2) by (simp add: init)
  show "irq_masked (i8259_init hw s) i \<longleftrightarrow> i \<noteq> 2" using step(1) by (simp add: init)
  show "eflags (i8259_init hw s) = (eflags s AND NOT IF_MASK) OR IF_MASK" by (simp add: init)
qed

text \<open>A specific end of interrupt names its line in the low three bits, and a line of the
  slave is acknowledged at the slave first and then, as line 2, at the master.\<close>

lemma send_eoi_io:
  assumes "irq < 16"
  shows "io (send_eoi (of_nat irq) s) =
    (if irq < 8 then Out 0x20 (0x60 OR of_nat irq) # io s
     else Out 0x20 0x62 # Out 0xA0 (0x60 OR of_nat (irq - 8)) # io s)"
proof -
  have "irq \<in> set [0..<16]" using assms by simp
  then show ?thesis
    by (simp add: upt_conv_Cons) (elim disjE; simp add: send_eoi_def cli_and_save_def Let_def word_le_nat_alt)
qed

lemma send_eoi_frame [simp]:
  "mem (send_eoi i s) = mem s" "mmu (send_eoi i s) = mmu s" "eflags (send_eoi i s) = eflags s"
  "esp (send_eoi i s) = esp s" "ebp (send_eoi i s) = ebp s"
  "machine.more (send_eoi i s) = machine.more s"
  by (simp_all add: send_eoi_def cli_and_save_def Let_def)

text \<open>C26. On controllers that, once initialised, read back their mask, \<open>i8259_init\<close> followed
  by any sequence of \<open>enable_irq\<close> calls leaves exactly the cascade line 2 and the lines enabled
  open, and all the others masked.\<close>

theorem i8259_open_lines:
  assumes "pic_reads_back hw" and "\<forall>irq\<in>set irqs. irq < 16" and "i < 16"
  shows "irq_masked (fold (\<lambda>irq. enable_irq hw (of_nat irq)) irqs (i8259_init hw s)) i
    \<longleftrightarrow> i \<noteq> 2 \<and> i \<notin> set irqs"
  using pic.enable_all(2) [of "i8259_init hw s" irqs i hw] i8259_init_masks [OF assms(1,3), of s]
    assms by (simp add: readback_hw_id)

theorem i8259_open_lines_witness:
  "irq_masked (fold (\<lambda>irq. enable_irq (readback_hw (\<lambda>h p. 0)) (of_nat irq)) [1, 8]
     (i8259_init (readback_hw (\<lambda>h p. 0)) flat_machine)) 9"
  using i8259_open_lines [OF pic_reads_back_readback_hw, of "[1, 8]" 9 "\<lambda>h p. 0" flat_machine]
  by simp

text \<open>\<open>send_eoi\<close> for each of the sixteen lines: one specific end of interrupt to the master
  for lines 0 to 7; for lines 8 to 15 one to the slave with the line within the slave, then one
  to the master for the cascade line. The interrupt flag comes out as it went in.\<close>

theorem send_eoi_acknowledges:
  assumes "irq < 16"
  shows "io (send_eoi (of_nat irq) s) =
      (if irq < 8 then [Out 0x20 (0x60 OR of_nat irq)]
       else [Out 0x20 0x62, Out 0xA0 (0x60 OR of_nat (irq - 8))]) @ io s
    \<and> eflags (send_eoi (of_nat irq) s) = eflags s"
  using assms by (simp add: send_eoi_io)

theorem send_eoi_acknowledges_witness:
  "io (send_eoi (of_nat 12) flat_machine) = [Out 0x20 0x62, Out 0xA0 (0x60 OR of_nat 4)]
    \<and> eflags (send_eoi (of_nat 12) flat_machine) = IF_MASK"
  using send_eoi_acknowledges [of 12 flat_machine] by simp

end
