(* ===== verification/Keyboard.thy ===== *)
theory Keyboard
  imports I8259
begin

text \<open>
  The keyboard: \<^verbatim>\<open>student-distrib/keyboard.c\<close> and the scancode translation of
  \<^verbatim>\<open>scancode_ascii_lookup.h\<close>. The concrete translation keeps a counter \<open>modifier\<close> that
  indexes the columns of the table; the abstract keyboard keeps the set of keys held and the
  state of caps lock. The refinement holds for the streams in which at most one shift key is
  down and no shift press is repeated; outside them the counter drifts off the table.
\<close>

abbreviation KEYBOARD_PORT :: u16 where "KEYBOARD_PORT \<equiv> 0x60"
abbreviation KEYBOARD_IRQ :: u32 where "KEYBOARD_IRQ \<equiv> 0x01"
abbreviation ACTIVE :: u8 where "ACTIVE \<equiv> 0xFF"
abbreviation INACTIVE :: u8 where "INACTIVE \<equiv> 0x00"
abbreviation MSB_MASK :: u8 where "MSB_MASK \<equiv> 0x80"
abbreviation MODIFIER_SHIFT :: u8 where "MODIFIER_SHIFT \<equiv> 0x01"
abbreviation MODIFIER_CAPS :: u8 where "MODIFIER_CAPS \<equiv> 0x02"
abbreviation MODIFIER_NUMLOCK :: nat where "MODIFIER_NUMLOCK \<equiv> 0x04"
abbreviation MODIFIER_CTRL :: nat where "MODIFIER_CTRL \<equiv> 0x05"
abbreviation MODIFIER_ALT :: nat where "MODIFIER_ALT \<equiv> 0x06"
abbreviation CONTROL :: u8 where "CONTROL \<equiv> 0x1D"
abbreviation SHIFT_L :: u8 where "SHIFT_L \<equiv> 0x2A"
abbreviation SHIFT_R :: u8 where "SHIFT_R \<equiv> 0x36"
abbreviation CAPSLOCK :: u8 where "CAPSLOCK \<equiv> 0x3A"
abbreviation ALT :: u8 where "ALT \<equiv> 0x38"
abbreviation NUMLOCK :: u8 where "NUMLOCK \<equiv> 0x45"

subsection \<open>The table and the translation\<close>

text \<open>Columns: nothing, shift, caps, caps and shift, numlock, control, alt.\<close>

definition scancode_lut :: "u8 list list" where
  "scancode_lut =
    [
     [0x00, 0x00, 0x00, 0x00, 0x00, 0x00, 0x00],
     [0x1B, 0x1B, 0x1B, 0x1B, 0x00, 0x00, 0x00],
     [0x31, 0x21, 0x31, 0x21, 0x00, 0x00, 0x00],
     [0x32, 0x40, 0x32, 0x40, 0x00, 0x00, 0x00],
     [0x33, 0x23, 0x33, 0x23, 0x00, 0x00, 0x00],
     [0x34, 0x24, 0x34, 0x24, 0x00, 0x00, 0x00],
     [0x35, 0x25, 0x35, 0x25, 0x00, 0x00, 0x00],
     [0x36, 0x5E, 0x36, 0x5E, 0x00, 0x00, 0x00],
     [0x37, 0x26, 0x37, 0x26, 0x00, 0x00, 0x00],
     [0x38, 0x2A, 0x38, 0x2A, 0x00, 0x00, 0x00],
     [0x39, 0x28, 0x39, 0x28, 0x00, 0x00, 0x00],
     [0x30, 0x29, 0x30, 0x29, 0x00, 0x00, 0x00],
     [0x2D, 0x5F, 0x2D, 0x5F, 0x00, 0x00, 0x00],
     [0x3D, 0x2B, 0x3D, 0x2B, 0x00, 0x00, 0x00],
     [0x08, 0x08, 0x08, 0x08, 0x00, 0x00, 0x00],
     [0x09, 0x09, 0x09, 0x09, 0x00, 0x00, 0x00],
     [0x71, 0x51, 0x51, 0x71, 0x00, 0x00, 0x00],
     [0x77, 0x57, 0x57, 0x77, 0x00, 0x00, 0x00],
     [0x65, 0x45, 0x45, 0x65, 0x00, 0x00, 0x00],
     [0x72, 0x52, 0x52, 0x72, 0x00, 0x00, 0x00],
     [0x74, 0x54, 0x54, 0x74, 0x00, 0x00, 0x00],
     [0x79, 0x59, 0x59, 0x79, 0x00, 0x00, 0x00],
     [0x75, 0x55, 0x55, 0x75, 0x00, 0x00, 0x00],
     [0x69, 0x49, 0x49, 0x69, 0x00, 0x00, 0x00],
     [0x6F, 0x4F, 0x4F, 0x6F, 0x00, 0x00, 0x00],
     [0x70, 0x50, 0x50, 0x70, 0x00, 0x00, 0x00],
     [0x5B, 0x7B, 0x5B, 0x7B, 0x00, 0x00, 0x00],
     [0x5D, 0x7D, 0x5D, 0x7D, 0x00, 0x00, 0x00],
     [0x0A, 0x0A, 0x0A, 0x0A, 0x00, 0x00, 0x00],
     [0x00, 0x00, 0x00, 0x00, 0x00, 0x00, 0x00],
     [0x61, 0x41, 0x41, 0x61, 0x00, 0x00, 0x00],
     [0x73, 0x53, 0x53, 0x73, 0x00, 0x00, 0x00],
     [0x64, 0x44, 0x44, 0x64, 0x00, 0x00, 0x00],
     [0x66, 0x46, 0x46, 0x66, 0x00, 0x00, 0x00],
     [0x67, 0x47, 0x47, 0x67, 0x00, 0x00, 0x00],
     [0x68, 0x48, 0x48, 0x68, 0x00, 0x00, 0x00],
     [0x6A, 0x4A, 0x4A, 0x6A, 0x00, 0x00, 0x00],
     [0x6B, 0x4B, 0x4B, 0x6B, 0x00, 0x00, 0x00],
     [0x6C, 0x4C, 0x4C, 0x6C, 0x00, 0xB3, 0x00],
     [0x3B, 0x3A, 0x3B, 0x3A, 0x00, 0x00, 0x00],
     [0x27, 0x22, 0x27, 0x22, 0x00, 0x00, 0x00],
     [0x60, 0x7E, 0x60, 0x7E, 0x00, 0x00, 0x00],
     [0x00, 0x00, 0x00, 0x00, 0x00, 0x00, 0x00],
     [0x5C, 0x7C, 0x5C, 0x7C, 0x00, 0x00, 0x00],
     [0x7A, 0x5A, 0x5A, 0x7A, 0x00, 0x00, 0x00],
     [0x78, 0x58, 0x58, 0x78, 0x00, 0x00, 0x00],
     [0x63, 0x43, 0x43, 0x63, 0x00, 0xBC, 0x00],
     [0x76, 0x56, 0x56, 0x76, 0x00, 0x00, 0x00],
     [0x62, 0x42, 0x42, 0x62, 0x00, 0x00, 0x00],
     [0x6E, 0x4E, 0x4E, 0x6E, 0x00, 0x00, 0x00],
     [0x6D, 0x4D, 0x4D, 0x6D, 0x00, 0x00, 0x00],
     [0x2C, 0x3C, 0x2C, 0x3C, 0x00, 0x00, 0x00],
     [0x2E, 0x3E, 0x2E, 0x3E, 0x00, 0x00, 0x00],
     [0x2F, 0x3F, 0x2F, 0x3F, 0x00, 0x00, 0x00],
     [0x00, 0x00, 0x00, 0x00, 0x00, 0x00, 0x00],
     [0x00, 0x00, 0x00, 0x00, 0x00, 0x00, 0x00],
     [0x00, 0x00, 0x00, 0x00, 0x00, 0x00, 0x00],
     [0x20, 0x20, 0x20, 0x20, 0x00, 0x00, 0x00],
     [0x00, 0x00, 0x00, 0x00, 0x00, 0x00, 0x00],
     [0x00, 0x00, 0x00, 0x00, 0x00, 0x00, 0xF1],
     [0x00, 0x00, 0x00, 0x00, 0x00, 0x00, 0xF2],
     [0x00, 0x00, 0x00, 0x00, 0x00, 0x00, 0xF3],
     [0x00, 0x00, 0x00, 0x00, 0x00, 0x00, 0xF4],
     [0x00, 0x00, 0x00, 0x00, 0x00, 0x00, 0xF5],
     [0x00, 0x00, 0x00, 0x00, 0x00, 0x00, 0xF6],
     [0x00, 0x00, 0x00, 0x00, 0x00, 0x00, 0xF7],
     [0x00, 0x00, 0x00, 0x00, 0x00, 0x00, 0xF8],
     [0x00, 0x00, 0x00, 0x00, 0x00, 0x00, 0xF9],
     [0x00, 0x00, 0x00, 0x00, 0x00, 0x00, 0xFA],
     [0x00, 0x00, 0x00, 0x00, 0x00, 0x00, 0x00],
     [0x00, 0x00, 0x00, 0x00, 0x00, 0x00, 0x00],
     [0x00, 0x00, 0x00, 0x00, 0x00, 0x00, 0x00],
     [0x00, 0x00, 0x00, 0x00, 0x00, 0x00, 0x00],
     [0x00, 0x00, 0x00, 0x00, 0x00, 0x00, 0x00],
     [0x00, 0x00, 0x00, 0x00, 0x00, 0x00, 0x00],
     [0x00, 0x00, 0x00, 0x00, 0x00, 0x00, 0x00],
     [0x00, 0x00, 0x00, 0x00, 0x00, 0x00, 0x00],
     [0x00, 0x00, 0x00, 0x00, 0x00, 0x00, 0x00],
     [0x00, 0x00, 0x00, 0x00, 0x00, 0x00, 0x00],
     [0x00, 0x00, 0x00, 0x00, 0x00, 0x00, 0x00],
     [0x00, 0x00, 0x00, 0x00, 0x00, 0x00, 0x00],
     [0x00, 0x00, 0x00, 0x00, 0x00, 0x00, 0x00],
     [0x00, 0x00, 0x00, 0x00, 0x00, 0x00, 0x00],
     [0x00, 0x00, 0x00, 0x00, 0x00, 0x00, 0x00],
     [0x00, 0x00, 0x00, 0x00, 0x00, 0x00, 0x00],
     [0x00, 0x00, 0x00, 0x00, 0x00, 0x00, 0x00],
     [0x00, 0x00, 0x00, 0x00, 0x00, 0x00, 0x00],
     [0x00, 0x00, 0x00, 0x00, 0x00, 0x00, 0xFB],
     [0x00, 0x00, 0x00, 0x00, 0x00, 0x00, 0xFC],
     [0x00, 0x00, 0x00, 0x00, 0x00, 0x00, 0x00],
     [0x00, 0x00, 0x00, 0x00, 0x00, 0x00, 0x00],
     [0x00, 0x00, 0x00, 0x00, 0x00, 0x00, 0x00],
     [0x00, 0x00, 0x00, 0x00, 0x00, 0x00, 0x00],
     [0x00, 0x00, 0x00, 0x00, 0x00, 0x00, 0x00],
     [0x00, 0x00, 0x00, 0x00, 0x00, 0x00, 0x00],
     [0x00, 0x00, 0x00, 0x00, 0x00, 0x00, 0x00],
     [0x00, 0x00, 0x00, 0x00, 0x00, 0x00, 0x00],
     [0x00, 0x00, 0x00, 0x00, 0x00, 0x00, 0x00],
     [0x00, 0x00, 0x00, 0x00, 0x00, 0x00, 0x00],
     [0x00, 0x00, 0x00, 0x00, 0x00, 0x00, 0x00],
     [0x00, 0x00, 0x00, 0x00, 0x00, 0x00, 0x00],
     [0x00, 0x00, 0x00, 0x00, 0x00, 0x00, 0x00],
     [0x00, 0x00, 0x00, 0x00, 0x00, 0x00, 0x00],
     [0x00, 0x00, 0x00, 0x00, 0x00, 0x00, 0x00],
     [0x00, 0x00, 0x00, 0x00, 0x00, 0x00, 0x00],
     [0x00, 0x00, 0x00, 0x00, 0x00, 0x00, 0x00],
     [0x00, 0x00, 0x00, 0x00, 0x00, 0x00, 0x00],
     [0x00, 0x00, 0x00, 0x00, 0x00, 0x00, 0x00],
     [0x00, 0x00, 0x00, 0x00, 0x00, 0x00, 0x00],
     [0x00, 0x00, 0x00, 0x00, 0x00, 0x00, 0x00],
     [0x00, 0x00, 0x00, 0x00, 0x00, 0x00, 0x00],
     [0x00, 0x00, 0x00, 0x00, 0x00, 0x00, 0x00],
     [0x00, 0x00, 0x00, 0x00, 0x00, 0x00, 0x00],
     [0x00, 0x00, 0x00, 0x00, 0x00, 0x00, 0x00],
     [0x00, 0x00, 0x00, 0x00, 0x00, 0x00, 0x00],
     [0x00, 0x00, 0x00, 0x00, 0x00, 0x00, 0x00],
     [0x00, 0x00, 0x00, 0x00, 0x00, 0x00, 0x00],
     [0x00, 0x00, 0x00, 0x00, 0x00, 0x00, 0x00],
     [0x00, 0x00, 0x00, 0x00, 0x00, 0x00, 0x00],
     [0x00, 0x00, 0x00, 0x00, 0x00, 0x00, 0x00],
     [0x00, 0x00, 0x00, 0x00, 0x00, 0x00, 0x00],
     [0x00, 0x00, 0x00, 0x00, 0x00, 0x00, 0x00],
     [0x00, 0x00, 0x00, 0x00, 0x00, 0x00, 0x00],
     [0x00, 0x00, 0x00, 0x00, 0x00, 0x00, 0x00],
     [0x00, 0x00, 0x00, 0x00, 0x00, 0x00, 0x00],
     [0x00, 0x00, 0x00, 0x00, 0x00, 0x00, 0x00],
     [0x00, 0x00, 0x00, 0x00, 0x00, 0x00, 0x00],
     [0x00, 0x00, 0x00, 0x00, 0x00, 0x00, 0x00]
    ]"

record keyboard =
  modifier :: u8
  scancode_active_lut :: "u8 list"

definition keyboard_start :: keyboard where
  "keyboard_start = \<lparr>modifier = 0, scancode_active_lut = replicate 0x80 INACTIVE\<rparr>"

definition lut_at :: "u8 \<Rightarrow> nat \<Rightarrow> u8 option" where
  "lut_at scancode column = do { row \<leftarrow> aget scancode_lut (unat scancode); aget row column }"

definition key_code :: "u8 \<Rightarrow> u8" where
  "key_code scancode = scancode AND NOT MSB_MASK"

definition release_key :: "u8 \<Rightarrow> keyboard \<Rightarrow> keyboard option" where
  "release_key scancode kb =
     do { lut \<leftarrow> aput (scancode_active_lut kb) (unat scancode) INACTIVE;
          Some (kb\<lparr>scancode_active_lut := lut,
                   modifier := (if scancode = SHIFT_L \<or> scancode = SHIFT_R
                                then modifier kb - MODIFIER_SHIFT else modifier kb)\<rparr>) }"

definition press_key :: "u8 \<Rightarrow> keyboard \<Rightarrow> keyboard option" where
  "press_key scancode kb =
     do { lut \<leftarrow> aput (scancode_active_lut kb) (unat scancode) ACTIVE;
          let m = (if scancode = SHIFT_L \<or> scancode = SHIFT_R
                   then modifier kb + MODIFIER_SHIFT else modifier kb);
          let m = (if scancode = CAPSLOCK
                   then if m < MODIFIER_CAPS then m + MODIFIER_CAPS else m - MODIFIER_CAPS
                   else m);
          Some (kb\<lparr>scancode_active_lut := lut, modifier := m\<rparr>) }"

definition press_code :: "u8 \<Rightarrow> keyboard \<Rightarrow> u8 option" where
  "press_code scancode kb =
     do { held_ctrl \<leftarrow> aget (scancode_active_lut kb) (unat CONTROL);
          ctrl \<leftarrow> lut_at scancode MODIFIER_CTRL;
          if held_ctrl \<noteq> 0 \<and> ctrl \<noteq> 0 then Some ctrl
          else do {
            held_alt \<leftarrow> aget (scancode_active_lut kb) (unat ALT);
            alt \<leftarrow> lut_at scancode MODIFIER_ALT;
            if held_alt \<noteq> 0 \<and> alt \<noteq> 0 then Some alt
            else do {
              held_num \<leftarrow> aget (scancode_active_lut kb) (unat NUMLOCK);
              num \<leftarrow> lut_at scancode MODIFIER_NUMLOCK;
              if held_num \<noteq> 0 \<and> num \<noteq> 0 then Some num
              else lut_at scancode (unat (modifier kb)) } } }"

definition translate_scancode :: "u8 \<Rightarrow> keyboard \<Rightarrow> (u8 \<times> keyboard) option" where
  "translate_scancode scancode kb =
     (let release = scancode AND MSB_MASK; scancode = key_code scancode
      in if release \<noteq> 0 then do { kb \<leftarrow> release_key scancode kb; Some (INACTIVE, kb) }
         else do { kb \<leftarrow> press_key scancode kb; c \<leftarrow> press_code scancode kb; Some (c, kb) })"

subsection \<open>The driver\<close>

definition keyboard_init :: "hardware \<Rightarrow> 'a machine_scheme \<Rightarrow> 'a machine_scheme" where
  "keyboard_init hw s =
     (let (flags, s) = cli_and_save s;
          s = enable_irq hw KEYBOARD_IRQ s
      in restore_flags flags s)"

definition keyboard_interrupt :: "hardware \<Rightarrow> 'a machine_scheme \<Rightarrow> u8 \<times> 'a machine_scheme" where
  "keyboard_interrupt hw s = (let (v, s) = inb hw KEYBOARD_PORT s in (ucast v, s))"

subsection \<open>The table has the shape the translation needs\<close>

lemma length_scancode_lut [simp]: "length scancode_lut = 128"
  by (simp add: scancode_lut_def)

lemma scancode_lut_rows: "\<forall>row\<in>set scancode_lut. length row = 7"
  by (simp add: scancode_lut_def)

text \<open>Plain columns hold codes below 0x80, command columns nothing or a code from 0x80.\<close>

lemma scancode_lut_msb:
  "\<forall>row\<in>set scancode_lut. (\<forall>j\<in>{0, 1, 2, 3}. row ! j < 0x80) \<and> row ! 4 = 0
     \<and> (\<forall>j\<in>{5, 6}. row ! j = 0 \<or> 0x80 \<le> row ! j)"
  by code_simp

text \<open>The four plain columns: letters have their case flipped by shift and by caps lock, all
  other keys look at shift alone.\<close>

definition letter_code :: "u8 \<Rightarrow> bool" where
  "letter_code c \<longleftrightarrow> 0x61 \<le> c \<and> c \<le> 0x7A"

lemma scancode_lut_columns:
  "\<forall>row\<in>set scancode_lut.
     if letter_code (row ! 0)
     then row ! 1 = row ! 0 - 0x20 \<and> row ! 2 = row ! 0 - 0x20 \<and> row ! 3 = row ! 0
     else row ! 2 = row ! 0 \<and> row ! 3 = row ! 1"
  by code_simp

lemma lut_at_Some:
  assumes "unat sc < 128" and "column < 7"
  shows "lut_at sc column = Some (scancode_lut ! unat sc ! column)"
proof -
  have "scancode_lut ! unat sc \<in> set scancode_lut" using assms(1) by simp
  then have "length (scancode_lut ! unat sc) = 7" using scancode_lut_rows by blast
  then show ?thesis using assms by (simp add: lut_at_def)
qed

lemma lut_at_outside: "7 \<le> column \<Longrightarrow> lut_at sc column = None"
proof (cases "unat sc < 128")
  case True
  assume "7 \<le> column"
  have "scancode_lut ! unat sc \<in> set scancode_lut" using True by simp
  then have "length (scancode_lut ! unat sc) = 7" using scancode_lut_rows by blast
  then show ?thesis using True \<open>7 \<le> column\<close> by (simp add: lut_at_def)
qed (simp add: lut_at_def)

subsection \<open>The abstract keyboard\<close>

record key_state =
  held :: "u8 \<Rightarrow> bool"
  caps :: bool

definition spec_start :: key_state where
  "spec_start = \<lparr>held = \<lambda>_. False, caps = False\<rparr>"

definition shift_held :: "key_state \<Rightarrow> bool" where
  "shift_held ks \<longleftrightarrow> held ks SHIFT_L \<or> held ks SHIFT_R"

definition spec_column :: "key_state \<Rightarrow> nat" where
  "spec_column ks = (if shift_held ks then 1 else 0) + (if caps ks then 2 else 0)"

definition spec_char :: "u8 \<Rightarrow> key_state \<Rightarrow> u8" where
  "spec_char k ks =
     (let row = scancode_lut ! unat k
      in if held ks CONTROL \<and> row ! 5 \<noteq> 0 then row ! 5
         else if held ks ALT \<and> row ! 6 \<noteq> 0 then row ! 6
         else row ! spec_column ks)"

definition spec_event :: "u8 \<Rightarrow> key_state \<Rightarrow> u8 \<times> key_state" where
  "spec_event sc ks =
     (let k = key_code sc
      in if sc AND MSB_MASK \<noteq> 0 then (0, ks\<lparr>held := (held ks)(k := False)\<rparr>)
         else let ks' = ks\<lparr>held := (held ks)(k := True),
                           caps := (if k = CAPSLOCK then \<not> caps ks else caps ks)\<rparr>
              in (spec_char k ks', ks'))"

text \<open>The streams the counter follows: a shift is pressed only when none is down and released
  only when it is down.\<close>

definition disciplined :: "u8 \<Rightarrow> key_state \<Rightarrow> bool" where
  "disciplined sc ks =
     (let k = key_code sc
      in if k = SHIFT_L \<or> k = SHIFT_R
         then if sc AND MSB_MASK \<noteq> 0 then held ks k else \<not> shift_held ks
         else True)"

definition kbd_rel :: "keyboard \<Rightarrow> key_state \<Rightarrow> bool" where
  "kbd_rel kb ks \<longleftrightarrow>
     length (scancode_active_lut kb) = 128
     \<and> (\<forall>k. unat k < 128 \<longrightarrow> (scancode_active_lut kb ! unat k \<noteq> 0) = held ks k)
     \<and> modifier kb = of_nat (spec_column ks) \<and> \<not> (held ks SHIFT_L \<and> held ks SHIFT_R)"

subsection \<open>Refinement\<close>

lemma key_code_bound: "unat (key_code sc) < 128"
proof -
  have "(NOT MSB_MASK :: u8) = 0x7F" by simp
  then have "sc AND NOT MSB_MASK \<le> 0x7F" using word_and_le1 [of sc "NOT MSB_MASK"] by metis
  then show ?thesis unfolding word_le_nat_alt key_code_def [symmetric] by simp
qed

lemma kbd_rel_lut_update:
  assumes "kbd_rel kb ks" and "unat k < 128" and "unat j < 128" and "(v \<noteq> 0) = b"
  shows "((scancode_active_lut kb)[unat k := v] ! unat j \<noteq> 0) = ((held ks)(k := b)) j"
  using assms by (auto simp: kbd_rel_def nth_list_update word_unat_eq_iff [symmetric])

lemma kbd_rel_release:
  assumes "kbd_rel kb ks" and "disciplined sc ks" and "sc AND MSB_MASK \<noteq> 0"
  shows "\<exists>kb'. translate_scancode sc kb = Some (0, kb') \<and> kbd_rel kb' (snd (spec_event sc ks))"
proof -
  define k where "k = key_code sc"
  have k: "unat k < 128" unfolding k_def by (rule key_code_bound)
  have len: "length (scancode_active_lut kb) = 128" using assms(1) by (simp add: kbd_rel_def)
  define kb' where "kb' = kb\<lparr>scancode_active_lut := (scancode_active_lut kb)[unat k := INACTIVE],
    modifier := (if k = SHIFT_L \<or> k = SHIFT_R then modifier kb - 1 else modifier kb)\<rparr>"
  have "translate_scancode sc kb = Some (0, kb')"
    using assms(3) k len by (simp add: translate_scancode_def release_key_def Let_def k_def [symmetric] kb'_def)
  moreover have "kbd_rel kb' (ks\<lparr>held := (held ks)(k := False)\<rparr>)"
    using assms kbd_rel_lut_update [OF assms(1) k, of _ 0 False]
    by (auto simp: kbd_rel_def kb'_def disciplined_def k_def [symmetric] spec_column_def shift_held_def)
  ultimately show ?thesis using assms(3) by (auto simp: spec_event_def Let_def k_def)
qed

lemma press_code_spec:
  assumes "kbd_rel kb ks" and "unat k < 128"
  shows "press_code k kb = Some (spec_char k ks)"
proof -
  have len: "length (scancode_active_lut kb) = 128" and m: "modifier kb = of_nat (spec_column ks)"
    and lut: "\<And>j. unat j < 128 \<Longrightarrow> (scancode_active_lut kb ! unat j \<noteq> 0) = held ks j"
    using assms(1) by (simp_all add: kbd_rel_def)
  have col: "spec_column ks < 7" by (simp add: spec_column_def)
  then have "unat (modifier kb) = spec_column ks" by (simp add: m unat_of_nat take_bit_nat_eq_self)
  moreover have "scancode_lut ! unat k ! 4 = 0" using scancode_lut_msb assms(2) by simp
  moreover note lut [of CONTROL] lut [of ALT] lut [of NUMLOCK]
  ultimately show ?thesis
    using assms(2) len col by (simp add: press_code_def spec_char_def lut_at_Some Let_def)
qed

lemma kbd_rel_press:
  assumes "kbd_rel kb ks" and "disciplined sc ks" and "sc AND MSB_MASK = 0"
  shows "\<exists>kb'. translate_scancode sc kb = Some (fst (spec_event sc ks), kb')
    \<and> kbd_rel kb' (snd (spec_event sc ks))"
proof -
  define k where "k = key_code sc"
  have k: "unat k < 128" unfolding k_def by (rule key_code_bound)
  have len: "length (scancode_active_lut kb) = 128" using assms(1) by (simp add: kbd_rel_def)
  define ks' where "ks' = ks\<lparr>held := (held ks)(k := True),
    caps := (if k = CAPSLOCK then \<not> caps ks else caps ks)\<rparr>"
  define m where "m = (if k = SHIFT_L \<or> k = SHIFT_R then modifier kb + 1
    else if k = CAPSLOCK then if modifier kb < 2 then modifier kb + 2 else modifier kb - 2
    else modifier kb)"
  define kb' where "kb' = kb\<lparr>scancode_active_lut := (scancode_active_lut kb)[unat k := ACTIVE],
    modifier := m\<rparr>"
  have kb': "press_key k kb = Some kb'"
    using k len by (auto simp: press_key_def Let_def kb'_def m_def)
  have kbm: "modifier kb = of_nat (spec_column ks)" using assms(1) by (simp add: kbd_rel_def)
  have dis: "k = SHIFT_L \<or> k = SHIFT_R \<Longrightarrow> \<not> shift_held ks"
    using assms(2,3) by (auto simp: disciplined_def k_def [symmetric] Let_def)
  have "m = of_nat (spec_column ks')"
    using kbm dis by (auto simp: m_def ks'_def spec_column_def shift_held_def)
  moreover have "\<not> (held ks' SHIFT_L \<and> held ks' SHIFT_R)"
    using dis assms(1) by (auto simp: ks'_def shift_held_def kbd_rel_def)
  ultimately have rel: "kbd_rel kb' ks'"
    using kbd_rel_lut_update [OF assms(1) k, of _ ACTIVE True] len
    by (auto simp: kbd_rel_def kb'_def ks'_def)
  then have "translate_scancode sc kb = Some (spec_char k ks', kb')"
    using assms(3) kb' press_code_spec [OF rel k]
    by (simp add: translate_scancode_def Let_def k_def [symmetric])
  moreover have "spec_event sc ks = (spec_char k ks', ks')"
    using assms(3) by (simp add: spec_event_def Let_def k_def ks'_def)
  ultimately show ?thesis using rel by simp
qed

lemma translate_refines:
  assumes "kbd_rel kb ks" and "disciplined sc ks"
  shows "\<exists>kb'. translate_scancode sc kb = Some (fst (spec_event sc ks), kb')
    \<and> kbd_rel kb' (snd (spec_event sc ks))"
proof (cases "sc AND MSB_MASK = 0")
  case False
  then have "fst (spec_event sc ks) = 0" by (simp add: spec_event_def Let_def)
  then show ?thesis using kbd_rel_release [OF assms False] by simp
qed (rule kbd_rel_press [OF assms])

subsection \<open>Streams of scancodes\<close>

primrec kbd_run :: "u8 list \<Rightarrow> keyboard \<Rightarrow> (u8 list \<times> keyboard) option" where
  "kbd_run [] kb = Some ([], kb)"
| "kbd_run (sc # scs) kb =
     do { (c, kb) \<leftarrow> translate_scancode sc kb; (cs, kb) \<leftarrow> kbd_run scs kb; Some (c # cs, kb) }"

primrec spec_run :: "u8 list \<Rightarrow> key_state \<Rightarrow> u8 list \<times> key_state" where
  "spec_run [] ks = ([], ks)"
| "spec_run (sc # scs) ks =
     (let (c, ks) = spec_event sc ks; (cs, ks) = spec_run scs ks in (c # cs, ks))"

primrec disciplined_run :: "u8 list \<Rightarrow> key_state \<Rightarrow> bool" where
  "disciplined_run [] ks = True"
| "disciplined_run (sc # scs) ks \<longleftrightarrow> disciplined sc ks \<and> disciplined_run scs (snd (spec_event sc ks))"

lemma kbd_rel_start: "kbd_rel keyboard_start spec_start"
  by (simp add: kbd_rel_def keyboard_start_def spec_start_def spec_column_def shift_held_def)

lemma kbd_run_refines:
  assumes "kbd_rel kb ks" and "disciplined_run scs ks"
  shows "\<exists>kb'. kbd_run scs kb = Some (fst (spec_run scs ks), kb') \<and> kbd_rel kb' (snd (spec_run scs ks))"
  using assms
proof (induction scs arbitrary: kb ks)
  case (Cons sc scs)
  then obtain kb1 where kb1: "translate_scancode sc kb = Some (fst (spec_event sc ks), kb1)"
    "kbd_rel kb1 (snd (spec_event sc ks))"
    using translate_refines by (metis disciplined_run.simps(2))
  then show ?case
    using Cons.IH [OF kb1(2)] Cons.prems(2) by (auto simp: split_beta)
qed simp

text \<open>C11. From power on, for every stream of scancodes in which at most one shift key is down at
  a time and shift presses do not repeat, the translation stays inside its tables and returns
  the codes of the abstract keyboard, which knows the keys held and the caps lock state.\<close>

theorem keyboard_refines:
  assumes "disciplined_run scs spec_start"
  shows "\<exists>kb. kbd_run scs keyboard_start = Some (fst (spec_run scs spec_start), kb)
    \<and> kbd_rel kb (snd (spec_run scs spec_start))"
  by (rule kbd_run_refines [OF kbd_rel_start assms])

theorem keyboard_refines_witness:
  "disciplined_run [0x2A, 0x1E, 0xAA, 0x3A, 0x1E] spec_start
    \<and> (\<exists>kb. kbd_run [0x2A, 0x1E, 0xAA, 0x3A, 0x1E] keyboard_start
          = Some (fst (spec_run [0x2A, 0x1E, 0xAA, 0x3A, 0x1E] spec_start), kb))"
proof -
  have "disciplined_run [0x2A, 0x1E, 0xAA, 0x3A, 0x1E] spec_start"
    by (simp add: disciplined_def spec_event_def key_code_def spec_start_def shift_held_def Let_def)
  then show ?thesis using keyboard_refines [of "[0x2A, 0x1E, 0xAA, 0x3A, 0x1E]"] by blast
qed

text \<open>The code returned for a key press when the counter is in step with the keys: it has its
  top bit set exactly for a control or alt command of that key, as the interrupt handler assumes;
  a letter key gives the upper case letter exactly when one of shift and caps lock is on, and any
  other key ignores caps lock.\<close>

theorem key_press_codes:
  assumes "kbd_rel kb ks" and "unat k < 128"
  shows "press_code k kb = Some (spec_char k ks)
    \<and> (0x80 \<le> spec_char k ks \<longleftrightarrow>
        held ks CONTROL \<and> scancode_lut ! unat k ! 5 \<noteq> 0
        \<or> held ks ALT \<and> scancode_lut ! unat k ! 6 \<noteq> 0)
    \<and> (spec_char k ks < 0x80 \<longrightarrow> letter_code (scancode_lut ! unat k ! 0) \<longrightarrow>
        spec_char k ks = scancode_lut ! unat k ! 0 - (if shift_held ks = caps ks then 0 else 0x20))
    \<and> (spec_char k ks < 0x80 \<longrightarrow> \<not> letter_code (scancode_lut ! unat k ! 0) \<longrightarrow>
        spec_char k ks = scancode_lut ! unat k ! (if shift_held ks then 1 else 0))"
proof -
  define row where "row = scancode_lut ! unat k"
  have mem: "row \<in> set scancode_lut" using assms(2) by (simp add: row_def)
  have plain: "row ! 0 < 0x80" "row ! 1 < 0x80" "row ! 2 < 0x80" "row ! 3 < 0x80"
    and cmd: "row ! 5 = 0 \<or> 0x80 \<le> row ! 5" "row ! 6 = 0 \<or> 0x80 \<le> row ! 6"
    using bspec [OF scancode_lut_msb mem] by simp_all
  have col: "spec_column ks \<in> {0, 1, 2, 3}" by (auto simp: spec_column_def)
  then have "row ! spec_column ks < 0x80" using plain by auto
  then have msb: "0x80 \<le> spec_char k ks \<longleftrightarrow> held ks CONTROL \<and> row ! 5 \<noteq> 0 \<or> held ks ALT \<and> row ! 6 \<noteq> 0"
    using cmd by (auto simp: spec_char_def Let_def row_def [symmetric])
  then have "spec_char k ks < 0x80 \<Longrightarrow> spec_char k ks = row ! spec_column ks"
    by (auto simp: spec_char_def Let_def row_def [symmetric] not_le [symmetric])
  moreover have "if letter_code (row ! 0)
     then row ! 1 = row ! 0 - 0x20 \<and> row ! 2 = row ! 0 - 0x20 \<and> row ! 3 = row ! 0
     else row ! 2 = row ! 0 \<and> row ! 3 = row ! 1"
    using bspec [OF scancode_lut_columns mem] .
  ultimately show ?thesis
    using msb press_code_spec [OF assms]
    by (auto simp: spec_column_def row_def [symmetric] numeral_3_eq_3 numeral_2_eq_2 split: if_splits)
qed

theorem key_press_codes_witness:
  "kbd_rel keyboard_start spec_start \<and> press_code 0x1E keyboard_start = Some 0x61"
proof -
  have "spec_char 0x1E spec_start = 0x61"
    by (simp add: spec_char_def spec_column_def shift_held_def spec_start_def scancode_lut_def Let_def)
  then show ?thesis using key_press_codes [OF kbd_rel_start, of "0x1E"] kbd_rel_start by simp
qed

lemma kbd_run_append:
  "kbd_run (xs @ ys) kb =
     do { (cs, kb) \<leftarrow> kbd_run xs kb; (ds, kb) \<leftarrow> kbd_run ys kb; Some (cs @ ds, kb) }"
  by (induction xs arbitrary: kb) (auto simp: split_beta bind_assoc split: Option.bind_splits)

text \<open>Runs outside the discipline: the shift key repeated, and both shift keys together.\<close>

lemma seven_shift_presses: "kbd_run (replicate 7 SHIFT_L) keyboard_start = None"
  by code_simp

lemma both_shifts: "map_option fst (kbd_run [SHIFT_L, SHIFT_R, 0x02] keyboard_start) = Some [0, 0, 0x31]"
  by code_simp

text \<open>Outside that discipline the counter drifts. A held shift key repeats its press code: from
  the seventh press on the translation indexes the table past its seven columns. And with both
  shift keys down the counter equals that of caps lock, so the key 1 gives the digit, not the
  exclamation mark.\<close>

theorem shift_counter_drifts:
  "kbd_run (replicate (7 + n) SHIFT_L @ scs) keyboard_start = None
   \<and> map_option fst (kbd_run [SHIFT_L, SHIFT_R, 0x02] keyboard_start) = Some [0, 0, 0x31]"
  using both_shifts by (simp add: replicate_add kbd_run_append seven_shift_presses)

end
