(* ===== verification/Kernel_State.thy ===== *)
theory Kernel_State
  imports Keyboard
begin

text \<open>
  The data of the kernel: \<^verbatim>\<open>student-distrib/process.h\<close>, \<^verbatim>\<open>terminal.h\<close>,
  \<^verbatim>\<open>scheduling.h\<close>, \<^verbatim>\<open>mouse.h\<close> and the file-level variables of the
  \<^verbatim>\<open>.c\<close> files. One record \<open>kstate\<close> extends the machine with the kernel's
  variables. A pointer to an element of \<open>terminals\<close> is its index; a PCB pointer is its
  address, and \<open>pcbs\<close> maps addresses to PCBs (the PCBs are kept apart from the bytes of \<open>mem\<close>).

  The theory also has the address arithmetic of \<^verbatim>\<open>process.h\<close> and its PID allocator.
\<close>

abbreviation ONE_K :: u32 where "ONE_K \<equiv> 0x400"
abbreviation FOUR_K :: u32 where "FOUR_K \<equiv> 0x1000"
abbreviation EIGHT_K :: u32 where "EIGHT_K \<equiv> 0x2000"
abbreviation FOUR_M :: u32 where "FOUR_M \<equiv> 0x400000"
abbreviation EIGHT_M :: u32 where "EIGHT_M \<equiv> 0x800000"
abbreviation VIDMEM :: u32 where "VIDMEM \<equiv> 0xB8000"
abbreviation BASE_VIDEO_MEM :: u32 where "BASE_VIDEO_MEM \<equiv> 0xB8000"
abbreviation VIRTUAL_BEGIN :: u32 where "VIRTUAL_BEGIN \<equiv> 0x8000000"
abbreviation VIRTUAL_END :: u32 where "VIRTUAL_END \<equiv> 0x8400000"
abbreviation KERNEL_STACK_MASK :: u32 where "KERNEL_STACK_MASK \<equiv> 0xFFFFE000"
abbreviation FD_ARRAY_SIZE :: nat where "FD_ARRAY_SIZE \<equiv> 8"
abbreviation FD_IN_USE :: u32 where "FD_IN_USE \<equiv> 0x80000000"
abbreviation FIRST_FD :: nat where "FIRST_FD \<equiv> 2"
abbreviation PID_OFFSET :: u32 where "PID_OFFSET \<equiv> 2"
abbreviation NUM_PROCESSES :: nat where "NUM_PROCESSES \<equiv> 6"
abbreviation AVAILABLE :: u32 where "AVAILABLE \<equiv> 0"
abbreviation UNAVAILABLE :: u32 where "UNAVAILABLE \<equiv> 0xFFFFFFFF"
abbreviation MAX_ARG_SIZE :: nat where "MAX_ARG_SIZE \<equiv> 0x80"
abbreviation USER_PRIV :: u32 where "USER_PRIV \<equiv> 3"
abbreviation INPUT_BUFFER_SIZE :: nat where "INPUT_BUFFER_SIZE \<equiv> 0x80"
abbreviation NEWLINE :: u8 where "NEWLINE \<equiv> 0x0A"
abbreviation BKSP :: u8 where "BKSP \<equiv> 0x08"
abbreviation TAB :: u8 where "TAB \<equiv> 0x09"
abbreviation INPUT_ENDED :: u8 where "INPUT_ENDED \<equiv> 0x00"
abbreviation IN_PROGRESS :: u8 where "IN_PROGRESS \<equiv> 0xFF"
abbreviation NUM_TERMINALS :: nat where "NUM_TERMINALS \<equiv> 3"
abbreviation NUM_TASKS :: nat where "NUM_TASKS \<equiv> 3"

subsection \<open>Structures\<close>

record terminal =
  terminal_number :: u32
  video_mem :: u32
  term_x :: u32            \<comment> \<open>\<open>screen_x\<close> of \<open>terminal_t\<close>\<close>
  term_y :: u32
  input_buffer :: "u8 list"
  buffer_index :: u8
  input_status :: u8
  active :: u8

text \<open>The tables of operations of \<^verbatim>\<open>sys_call.c\<close>; a slot never assigned has none.\<close>

datatype fops = no_fops | std_in_fops | std_out_fops | file_fops | directory_fops | rtc_fops

record fd_entry =
  file_ops :: fops
  inode :: u32
  position :: u32
  fd_flags :: u32

record pcb =
  fd_array :: "fd_entry list"
  parent_pcb :: u32
  parent_pid :: u32
  parent_esp :: u32
  parent_ebp :: u32
  parent_esp0 :: u32
  schedule_esp :: u32
  schedule_ebp :: u32
  schedule_esp0 :: u32
  pcb_terminal_number :: u32
  rtc_freq :: u32
  rtc_interrupt_occurred :: u32
  pcb_terminal :: nat
  args :: "u8 list"

record task =
  task_pcb :: u32
  started :: u32
  task_flags :: u32
  task_pid :: u32
  task_terminal :: nat

record mouse_input =
  in_x :: u8
  in_y :: u8
  in_z :: u8
  in_sign_x :: bool
  in_sign_y :: bool
  in_btn_l :: bool
  in_btn_m :: bool
  in_btn_r :: bool

record mouse =
  mouse_cycle :: u8
  mouse_packets :: "u8 list"
  packet_x :: u8           \<comment> \<open>\<open>mouse_x\<close> of \<^verbatim>\<open>mouse.c\<close>\<close>
  packet_y :: u8
  packet_z :: u8
  packet_sign_x :: u8
  packet_sign_y :: u8
  packet_btn_l :: u8
  packet_btn_m :: u8
  packet_btn_r :: u8
  mouse_input_status :: u8
  mouse_in :: mouse_input

record kstate = machine +
  terminals :: "terminal list"
  active_terminal :: u32
  tasks :: "task list"
  current_task :: u32
  scheduling_started :: u32
  pit_interrupt_counter :: u32
  pcb_all_started :: u32
  pcbs :: "u32 \<Rightarrow> pcb"
  global_pid :: u32
  pid_availability :: "u32 list"
  tss_esp0 :: u32
  screen_x :: u32          \<comment> \<open>static variables of \<^verbatim>\<open>lib.c\<close>\<close>
  screen_y :: u32
  cursor_x :: u32
  cursor_y :: u32
  mouse_x :: u32
  mouse_y :: u32
  s_input_buffer :: "u8 list"   \<comment> \<open>static variables of \<^verbatim>\<open>terminal.c\<close>\<close>
  s_buffer_index :: u8
  s_input_status :: u8
  kbd :: keyboard
  mouse_dev :: mouse
  virtual_frequency :: u32      \<comment> \<open>variables of the RTC driver that \<^verbatim>\<open>rtc.c\<close> uses\<close>
  rtc_virtual_interrupt_counter :: u32

subsection \<open>The macros that index the arrays\<close>

definition ACTIVE_TERMINAL :: "kstate \<Rightarrow> terminal" where
  "ACTIVE_TERMINAL s = terminals s ! unat (active_terminal s)"

definition upd_terminal :: "nat \<Rightarrow> (terminal \<Rightarrow> terminal) \<Rightarrow> kstate \<Rightarrow> kstate" where
  "upd_terminal i f s = s\<lparr>terminals := (terminals s)[i := f (terminals s ! i)]\<rparr>"

definition upd_active :: "(terminal \<Rightarrow> terminal) \<Rightarrow> kstate \<Rightarrow> kstate" where
  "upd_active f s = upd_terminal (unat (active_terminal s)) f s"

definition CURRENT_TASK :: "kstate \<Rightarrow> task" where
  "CURRENT_TASK s = tasks s ! unat (current_task s)"

definition upd_task :: "nat \<Rightarrow> (task \<Rightarrow> task) \<Rightarrow> kstate \<Rightarrow> kstate" where
  "upd_task i f s = s\<lparr>tasks := (tasks s)[i := f (tasks s ! i)]\<rparr>"

definition upd_current_task :: "(task \<Rightarrow> task) \<Rightarrow> kstate \<Rightarrow> kstate" where
  "upd_current_task f s = upd_task (unat (current_task s)) f s"

text \<open>\<open>CURRENT_TASK.terminal\<close>, dereferenced.\<close>

definition task_term :: "kstate \<Rightarrow> terminal" where
  "task_term s = terminals s ! task_terminal (CURRENT_TASK s)"

definition KERNEL_STACK_ADDRESS :: "u32 \<Rightarrow> u32" where
  "KERNEL_STACK_ADDRESS process_number = EIGHT_M - process_number * EIGHT_K - 0x04"

definition PCB_ADDRESS :: "u32 \<Rightarrow> u32" where
  "PCB_ADDRESS number = KERNEL_STACK_ADDRESS number AND KERNEL_STACK_MASK"

definition CURRENT_PCB_ADDRESS :: "kstate \<Rightarrow> u32" where
  "CURRENT_PCB_ADDRESS s = PCB_ADDRESS (global_pid s)"

definition upd_pcb :: "u32 \<Rightarrow> (pcb \<Rightarrow> pcb) \<Rightarrow> kstate \<Rightarrow> kstate" where
  "upd_pcb a f s = s\<lparr>pcbs := (pcbs s)(a := f (pcbs s a))\<rparr>"

subsection \<open>Kernel stacks and PCBs\<close>

text \<open>Process \<open>n\<close> owns the 8 KB block that ends at 8 MB - 8 KB * n.\<close>

definition kernel_block :: "nat \<Rightarrow> u32" where
  "kernel_block n = of_nat (0x800000 - (n + 1) * 0x2000)"

lemma pcb_address_block:
  assumes "n < 6"
  shows "PCB_ADDRESS (of_nat n) = kernel_block n"
    and "KERNEL_STACK_ADDRESS (of_nat n) = kernel_block n + 0x1FFC"
proof -
  have "n \<in> set [0..<6]" using assms by simp
  then show "PCB_ADDRESS (of_nat n) = kernel_block n"
    "KERNEL_STACK_ADDRESS (of_nat n) = kernel_block n + 0x1FFC"
    by (simp add: upt_conv_Cons; elim disjE;
        simp add: PCB_ADDRESS_def KERNEL_STACK_ADDRESS_def kernel_block_def)+
qed

lemma kernel_block_inj: "m < 6 \<Longrightarrow> n < 6 \<Longrightarrow> kernel_block m = kernel_block n \<longleftrightarrow> m = n"
proof -
  assume "m < 6" "n < 6"
  then have "unat (kernel_block m) = 0x800000 - (m + 1) * 0x2000"
    "unat (kernel_block n) = 0x800000 - (n + 1) * 0x2000"
    unfolding kernel_block_def unat_of_nat by (simp_all add: take_bit_nat_eq_self)
  then show ?thesis using \<open>m < 6\<close> \<open>n < 6\<close> by (auto dest: arg_cong [where f = unat])
qed

lemma PCB_ADDRESS_inj: "m < 6 \<Longrightarrow> n < 6 \<Longrightarrow> PCB_ADDRESS (of_nat m) = PCB_ADDRESS (of_nat n) \<longleftrightarrow> m = n"
  by (simp add: pcb_address_block kernel_block_inj)

subsection \<open>What the updates change\<close>

lemma upd_terminal_fields [simp]:
  "mem (upd_terminal i f s) = mem s" "mmu (upd_terminal i f s) = mmu s"
  "io (upd_terminal i f s) = io s" "eflags (upd_terminal i f s) = eflags s"
  "terminals (upd_terminal i f s) = (terminals s)[i := f (terminals s ! i)]"
  "active_terminal (upd_terminal i f s) = active_terminal s"
  "tasks (upd_terminal i f s) = tasks s" "current_task (upd_terminal i f s) = current_task s"
  "pcbs (upd_terminal i f s) = pcbs s" "global_pid (upd_terminal i f s) = global_pid s"
  "screen_x (upd_terminal i f s) = screen_x s" "screen_y (upd_terminal i f s) = screen_y s"
  "scheduling_started (upd_terminal i f s) = scheduling_started s"
  "pid_availability (upd_terminal i f s) = pid_availability s"
  by (simp_all add: upd_terminal_def)

lemma upd_task_fields [simp]:
  "mem (upd_task i f s) = mem s" "mmu (upd_task i f s) = mmu s"
  "io (upd_task i f s) = io s" "eflags (upd_task i f s) = eflags s"
  "terminals (upd_task i f s) = terminals s" "active_terminal (upd_task i f s) = active_terminal s"
  "tasks (upd_task i f s) = (tasks s)[i := f (tasks s ! i)]"
  "current_task (upd_task i f s) = current_task s"
  "pcbs (upd_task i f s) = pcbs s" "global_pid (upd_task i f s) = global_pid s"
  "screen_x (upd_task i f s) = screen_x s" "screen_y (upd_task i f s) = screen_y s"
  "scheduling_started (upd_task i f s) = scheduling_started s"
  "pid_availability (upd_task i f s) = pid_availability s"
  by (simp_all add: upd_task_def)

lemma upd_pcb_fields [simp]:
  "mem (upd_pcb a f s) = mem s" "mmu (upd_pcb a f s) = mmu s"
  "io (upd_pcb a f s) = io s" "eflags (upd_pcb a f s) = eflags s"
  "terminals (upd_pcb a f s) = terminals s" "active_terminal (upd_pcb a f s) = active_terminal s"
  "tasks (upd_pcb a f s) = tasks s" "current_task (upd_pcb a f s) = current_task s"
  "pcbs (upd_pcb a f s) = (pcbs s)(a := f (pcbs s a))"
  "global_pid (upd_pcb a f s) = global_pid s"
  "screen_x (upd_pcb a f s) = screen_x s" "screen_y (upd_pcb a f s) = screen_y s"
  "scheduling_started (upd_pcb a f s) = scheduling_started s"
  "pid_availability (upd_pcb a f s) = pid_availability s" "tss_esp0 (upd_pcb a f s) = tss_esp0 s"
  by (simp_all add: upd_pcb_def)

subsection \<open>Well-formed kernel states\<close>

text \<open>The three terminals and tasks, each task on its own terminal, the flag \<open>active\<close> set on the
  active terminal alone, each terminal with its own page next to video memory, an input buffer of
  its size with the index inside it.\<close>

definition terminals_ok :: "terminal list \<Rightarrow> u32 \<Rightarrow> bool" where
  "terminals_ok ts a \<longleftrightarrow> length ts = NUM_TERMINALS \<and> unat a < NUM_TERMINALS
     \<and> (\<forall>i<NUM_TERMINALS. video_mem (ts ! i) = BASE_VIDEO_MEM + (of_nat i + 1) * FOUR_K
          \<and> (active (ts ! i) \<noteq> 0) = (i = unat a)
          \<and> length (input_buffer (ts ! i)) = INPUT_BUFFER_SIZE)"

definition tasks_ok :: "task list \<Rightarrow> u32 \<Rightarrow> bool" where
  "tasks_ok ts c \<longleftrightarrow> length ts = NUM_TASKS \<and> unat c < NUM_TASKS
     \<and> (\<forall>i<NUM_TASKS. task_terminal (ts ! i) = i)"

definition wf_kernel :: "kstate \<Rightarrow> bool" where
  "wf_kernel s \<longleftrightarrow> terminals_ok (terminals s) (active_terminal s)
     \<and> tasks_ok (tasks s) (current_task s) \<and> length (pid_availability s) = NUM_PROCESSES"

lemma wf_kernelD:
  assumes "wf_kernel s"
  shows "length (terminals s) = 3" "unat (active_terminal s) < 3" "length (tasks s) = 3"
    "unat (current_task s) < 3" "task_terminal (CURRENT_TASK s) = unat (current_task s)"
    "i < 3 \<Longrightarrow> video_mem (terminals s ! i) = BASE_VIDEO_MEM + (of_nat i + 1) * FOUR_K"
    "i < 3 \<Longrightarrow> active (terminals s ! i) \<noteq> 0 \<longleftrightarrow> i = unat (active_terminal s)"
    "i < 3 \<Longrightarrow> length (input_buffer (terminals s ! i)) = 128"
  using assms by (simp_all add: wf_kernel_def terminals_ok_def tasks_ok_def CURRENT_TASK_def)

lemma task_term_eq: "wf_kernel s \<Longrightarrow> task_term s = terminals s ! unat (current_task s)"
  by (simp add: task_term_def wf_kernelD)

text \<open>Updates that keep the video page, the activity and the length of the buffer of a terminal
  keep a state well formed.\<close>

lemma wf_upd_terminal:
  assumes "wf_kernel s" and "video_mem (f (terminals s ! i)) = video_mem (terminals s ! i)"
    and "active (f (terminals s ! i)) = active (terminals s ! i)"
    and "length (input_buffer (f (terminals s ! i))) = length (input_buffer (terminals s ! i))"
  shows "wf_kernel (upd_terminal i f s)"
  using assms by (auto simp: wf_kernel_def terminals_ok_def nth_updated)

lemma wf_kernel_cong:
  assumes "wf_kernel s" and "terminals t = terminals s" and "active_terminal t = active_terminal s"
    and "tasks t = tasks s" and "current_task t = current_task s"
    and "pid_availability t = pid_availability s"
  shows "wf_kernel t"
  using assms by (simp add: wf_kernel_def)

subsection \<open>A concrete state\<close>

text \<open>The kernel with three terminals and tasks set up and identity address translation, for
  concrete runs.\<close>

definition sample_terminal :: "nat \<Rightarrow> terminal" where
  "sample_terminal i = \<lparr>terminal_number = of_nat i, video_mem = BASE_VIDEO_MEM + (of_nat i + 1) * FOUR_K,
     term_x = 0, term_y = 0, input_buffer = replicate INPUT_BUFFER_SIZE NEWLINE, buffer_index = 0,
     input_status = INPUT_ENDED, active = (if i = 0 then 1 else 0)\<rparr>"

definition empty_fd :: fd_entry where
  "empty_fd = \<lparr>file_ops = no_fops, inode = 0, position = 0, fd_flags = 0\<rparr>"

definition sample_pcb :: pcb where
  "sample_pcb = \<lparr>fd_array = replicate FD_ARRAY_SIZE empty_fd, parent_pcb = 0, parent_pid = 0xFFFFFFFF,
     parent_esp = 0, parent_ebp = 0, parent_esp0 = 0, schedule_esp = 0, schedule_ebp = 0,
     schedule_esp0 = 0, pcb_terminal_number = 0, rtc_freq = 0, rtc_interrupt_occurred = 0,
     pcb_terminal = 0, args = replicate MAX_ARG_SIZE 0\<rparr>"

definition sample_task :: "nat \<Rightarrow> task" where
  "sample_task i = \<lparr>task_pcb = PCB_ADDRESS (of_nat i), started = 1, task_flags = IF_MASK,
     task_pid = of_nat i, task_terminal = i\<rparr>"

definition sample_mouse :: mouse where
  "sample_mouse = \<lparr>mouse_cycle = 0xFF, mouse_packets = replicate 4 0, packet_x = 0, packet_y = 0,
     packet_z = 0, packet_sign_x = 0, packet_sign_y = 0, packet_btn_l = 0, packet_btn_m = 0,
     packet_btn_r = 0, mouse_input_status = 0xFF,
     mouse_in = \<lparr>in_x = 0, in_y = 0, in_z = 0, in_sign_x = False, in_sign_y = False,
       in_btn_l = False, in_btn_m = False, in_btn_r = False\<rparr>\<rparr>"

definition sample_kernel :: kstate where
  "sample_kernel = \<lparr>mem = \<lambda>_. 0, mmu = \<lambda>a. a, io = [], eflags = IF_MASK, esp = 0, ebp = 0,
     terminals = map sample_terminal [0, 1, 2], active_terminal = 0,
     tasks = map sample_task [0, 1, 2], current_task = 0, scheduling_started = C_TRUE,
     pit_interrupt_counter = 0, pcb_all_started = 0, pcbs = \<lambda>_. sample_pcb, global_pid = 0,
     pid_availability = [UNAVAILABLE, UNAVAILABLE, UNAVAILABLE, 0, 0, 0], tss_esp0 = 0x800000,
     screen_x = 0, screen_y = 0, cursor_x = 0, cursor_y = 0, mouse_x = 40, mouse_y = 13,
     s_input_buffer = replicate INPUT_BUFFER_SIZE NEWLINE, s_buffer_index = 0, s_input_status = 0,
     kbd = keyboard_start, mouse_dev = sample_mouse, virtual_frequency = 0,
     rtc_virtual_interrupt_counter = 0\<rparr>"

lemma sample_kernel_wf: "wf_kernel sample_kernel"
  by (simp add: wf_kernel_def terminals_ok_def tasks_ok_def sample_kernel_def sample_terminal_def
      sample_task_def all_less_3)

lemma sample_kernel_fields [simp]:
  "mem sample_kernel a = 0" "mmu sample_kernel a = a" "eflags sample_kernel = IF_MASK"
  "screen_x sample_kernel = 0" "screen_y sample_kernel = 0" "active_terminal sample_kernel = 0"
  "current_task sample_kernel = 0" "scheduling_started sample_kernel = C_TRUE"
  "terminals sample_kernel = map sample_terminal [0, 1, 2]" "tasks sample_kernel = map sample_task [0, 1, 2]"
  "ACTIVE_TERMINAL sample_kernel = sample_terminal 0" "CURRENT_TASK sample_kernel = sample_task 0"
  "df_clear sample_kernel" "global_pid sample_kernel = 0" "pcbs sample_kernel a = sample_pcb"
  by (simp_all add: sample_kernel_def ACTIVE_TERMINAL_def CURRENT_TASK_def df_clear_def IF_MASK_def DF_MASK_def)

end
