(* ===== verification/Slots.thy ===== *)
theory Slots
  imports Tmnt_Prelude
begin

text \<open>
  The contract of a table of slots that hands out the lowest free one: what the kernel relies on
  for process numbers (\<^verbatim>\<open>process.h\<close>) and for file descriptors
  (\<^verbatim>\<open>sys_call.c\<close>). \<open>alloc\<close> has the result \<open>None\<close> when it has no slot to give.
\<close>

locale slot_table =
  fixes alloc :: "'t \<Rightarrow> (nat \<times> 't) option"
    and release :: "nat \<Rightarrow> 't \<Rightarrow> 't"
    and used :: "'t \<Rightarrow> nat \<Rightarrow> bool"
    and valid :: "'t \<Rightarrow> bool"
    and lo :: nat and hi :: nat
  assumes alloc_free: "valid t \<Longrightarrow> lo \<le> i \<Longrightarrow> i < hi \<Longrightarrow> \<not> used t i \<Longrightarrow>
      \<forall>j. lo \<le> j \<and> j < i \<longrightarrow> used t j \<Longrightarrow>
      \<exists>t'. alloc t = Some (i, t') \<and> valid t' \<and> used t' = (used t)(i := True)"
    and alloc_full: "valid t \<Longrightarrow> \<forall>i. lo \<le> i \<and> i < hi \<longrightarrow> used t i \<Longrightarrow> alloc t = None"
    and release_used: "valid t \<Longrightarrow> lo \<le> i \<Longrightarrow> i < hi \<Longrightarrow>
      valid (release i t) \<and> used (release i t) = (used t)(i := False)"
begin

lemma alloc_cases:
  assumes "valid t"
  obtains (full) "alloc t = None" "\<forall>i. lo \<le> i \<and> i < hi \<longrightarrow> used t i"
  | (slot) i t' where "alloc t = Some (i, t')" "lo \<le> i" "i < hi" "\<not> used t i"
      "\<forall>j. lo \<le> j \<and> j < i \<longrightarrow> used t j" "valid t'" "used t' = (used t)(i := True)"
proof (cases "\<exists>i. lo \<le> i \<and> i < hi \<and> \<not> used t i")
  case True
  define i where "i = (LEAST i. lo \<le> i \<and> i < hi \<and> \<not> used t i)"
  have i: "lo \<le> i \<and> i < hi \<and> \<not> used t i" unfolding i_def by (rule LeastI_ex [OF True])
  moreover have "\<forall>j. lo \<le> j \<and> j < i \<longrightarrow> used t j"
    using i by (metis i_def less_trans not_less_Least)
  ultimately show thesis using alloc_free [OF assms] slot by metis
next
  case False
  then show thesis using alloc_full [OF assms] full by blast
qed

text \<open>A slot is never handed out twice without being released in between.\<close>

lemma alloc_fresh:
  assumes "valid t" and "alloc t = Some (i, t')"
  shows "lo \<le> i" "i < hi" "\<not> used t i" "valid t'" "used t' = (used t)(i := True)"
    "lo \<le> j \<Longrightarrow> j < i \<Longrightarrow> used t j"
  by (rule alloc_cases [OF assms(1)]; use assms(2) in simp)+

lemma alloc_iff: "valid t \<Longrightarrow> alloc t = None \<longleftrightarrow> (\<forall>i. lo \<le> i \<and> i < hi \<longrightarrow> used t i)"
  by (erule alloc_cases) auto

lemma alloc_twice_distinct:
  assumes "valid t" and "alloc t = Some (i, t')" and "alloc t' = Some (j, t'')"
  shows "i \<noteq> j"
  using alloc_fresh [OF assms(1,2)] alloc_fresh [OF _ assms(3)] by auto

text \<open>A released slot can be allocated again, and the one handed out is not above it.\<close>

lemma alloc_after_release:
  assumes "valid t" and "lo \<le> i" and "i < hi"
  shows "\<exists>j t'. alloc (release i t) = Some (j, t') \<and> j \<le> i"
proof (rule alloc_cases [of "release i t"])
  show "valid (release i t)" using release_used [OF assms] by simp
next
  assume "\<forall>j. lo \<le> j \<and> j < hi \<longrightarrow> used (release i t) j"
  then show ?thesis using release_used [OF assms] assms by auto
next
  fix j t'
  assume "alloc (release i t) = Some (j, t')"
    and "\<forall>k. lo \<le> k \<and> k < j \<longrightarrow> used (release i t) k"
  moreover have "\<not> used (release i t) i" using release_used [OF assms] by simp
  ultimately show ?thesis using assms(2) by (metis not_le_imp_less)
qed

end

text \<open>Allocating \<open>n\<close> times.\<close>

primrec alloc_many :: "('t \<Rightarrow> (nat \<times> 't) option) \<Rightarrow> nat \<Rightarrow> 't \<Rightarrow> (nat list \<times> 't) option" where
  "alloc_many alloc 0 t = Some ([], t)"
| "alloc_many alloc (Suc n) t =
     do { (i, t) \<leftarrow> alloc t; (is, t) \<leftarrow> alloc_many alloc n t; Some (i # is, t) }"

context slot_table
begin

lemma alloc_many_sequence:
  assumes "valid t" and "\<forall>i. lo \<le> i \<and> i < hi \<longrightarrow> (used t i \<longleftrightarrow> i < k)" and "lo \<le> k"
  shows "k + n \<le> hi \<Longrightarrow> \<exists>t'. alloc_many alloc n t = Some ([k..<k + n], t') \<and> valid t'
      \<and> (\<forall>i. lo \<le> i \<and> i < hi \<longrightarrow> (used t' i \<longleftrightarrow> i < k + n))"
  using assms
proof (induction n arbitrary: t k)
  case (Suc n)
  then obtain t1 where t1: "alloc t = Some (k, t1)" "valid t1" "used t1 = (used t)(k := True)"
    using alloc_free [of t k] by auto
  then have "\<forall>i. lo \<le> i \<and> i < hi \<longrightarrow> (used t1 i \<longleftrightarrow> i < Suc k)"
    using Suc.prems(3) by auto
  then obtain t' where "alloc_many alloc n t1 = Some ([Suc k..<Suc k + n], t')" "valid t'"
    "\<forall>i. lo \<le> i \<and> i < hi \<longrightarrow> (used t' i \<longleftrightarrow> i < Suc k + n)"
    using Suc.IH [of "Suc k" t1] t1(2) Suc.prems by auto
  then show ?case using t1(1) by (simp add: upt_conv_Cons)
qed auto

lemma alloc_all_then_full:
  assumes "valid t" and "\<forall>i. lo \<le> i \<and> i < hi \<longrightarrow> \<not> used t i" and "lo \<le> hi"
  shows "\<exists>t'. alloc_many alloc (hi - lo) t = Some ([lo..<hi], t') \<and> alloc t' = None"
proof -
  have "\<forall>i. lo \<le> i \<and> i < hi \<longrightarrow> (used t i \<longleftrightarrow> i < lo)" using assms(2) by auto
  then show ?thesis
    using alloc_many_sequence [of t lo "hi - lo"] assms alloc_full by fastforce
qed

end

end
