(* ===== verification/Process.thy ===== *)
theory Process
  imports Kernel_State Slots
begin

text \<open>
  The two allocators of the kernel: process numbers (the macros \<open>FIRST_AVAILABLE_PID\<close> and
  \<open>REMOVE_PID\<close> of \<^verbatim>\<open>process.h\<close>) and file descriptors (the search loop of
  \<open>sys_open\<close> and the release of \<open>sys_close\<close> in \<^verbatim>\<open>sys_call.c\<close>). Both implement the contract
  \<open>slot_table\<close>.
\<close>

subsection \<open>Process numbers\<close>

function first_pid_loop :: "u32 list \<Rightarrow> nat \<Rightarrow> u32 option" where
  "first_pid_loop avail number =
     do { v \<leftarrow> aget avail number;
          if v \<noteq> 0 then
            let number = number + 1
            in if number > NUM_PROCESSES then Some UNAVAILABLE else first_pid_loop avail number
          else Some (of_nat number) }"
  by pat_completeness auto
termination
  by (relation "measure (\<lambda>(avail, number). NUM_PROCESSES - number)") auto

declare first_pid_loop.simps [simp del]

definition FIRST_AVAILABLE_PID :: "u32 list \<Rightarrow> (u32 \<times> u32 list) option" where
  "FIRST_AVAILABLE_PID avail =
     do { number \<leftarrow> first_pid_loop avail 0;
          if number \<noteq> UNAVAILABLE
          then do { avail \<leftarrow> aput avail (unat number) UNAVAILABLE; Some (number, avail) }
          else Some (number, avail) }"

definition REMOVE_PID :: "u32 \<Rightarrow> u32 list \<Rightarrow> u32 list option" where
  "REMOVE_PID number avail = aput avail (unat number) AVAILABLE"

definition pid_used :: "u32 list \<Rightarrow> nat \<Rightarrow> bool" where
  "pid_used avail i \<longleftrightarrow> i < length avail \<and> avail ! i \<noteq> 0"

definition pid_alloc :: "u32 list \<Rightarrow> (nat \<times> u32 list) option" where
  "pid_alloc avail = map_option (\<lambda>(n, a). (unat n, a)) (FIRST_AVAILABLE_PID avail)"

definition pid_release :: "nat \<Rightarrow> u32 list \<Rightarrow> u32 list" where
  "pid_release i avail = (case REMOVE_PID (of_nat i) avail of Some a \<Rightarrow> a | None \<Rightarrow> avail)"

lemma first_pid_loop_free:
  assumes "length avail = 6" and "k \<le> i" and "i < 6" and "avail ! i = 0"
    and "\<forall>j. k \<le> j \<and> j < i \<longrightarrow> avail ! j \<noteq> 0"
  shows "first_pid_loop avail k = Some (of_nat i)"
  using assms(2,5)
proof (induction "i - k" arbitrary: k)
  case 0
  then show ?case using assms by (simp add: first_pid_loop.simps)
next
  case (Suc d)
  then have "avail ! k \<noteq> 0" "k < i" by auto
  then show ?case
    using Suc.hyps(1) [of "k + 1"] Suc.hyps(2) Suc.prems assms(1,3)
    by (subst first_pid_loop.simps) (auto simp: Let_def)
qed

lemma first_pid_loop_full:
  assumes "length avail = 6" and "k \<le> 6" and "\<forall>j<6. avail ! j \<noteq> 0"
  shows "first_pid_loop avail k = None"
  using assms(2)
proof (induction "6 - k" arbitrary: k)
  case 0
  then show ?case using assms by (simp add: first_pid_loop.simps)
next
  case (Suc d)
  then show ?case
    using assms(1,3) Suc.hyps(1) [of "k + 1"]
    by (subst first_pid_loop.simps) (auto simp: Let_def)
qed

lemma small_pid: "i < 6 \<Longrightarrow> unat (of_nat i :: u32) = i" "i < 6 \<Longrightarrow> (of_nat i :: u32) \<noteq> UNAVAILABLE"
proof -
  show "i < 6 \<Longrightarrow> unat (of_nat i :: u32) = i" by (simp add: unat_of_nat take_bit_nat_eq_self)
  then show "i < 6 \<Longrightarrow> (of_nat i :: u32) \<noteq> UNAVAILABLE" by (auto dest: arg_cong [where f = unat])
qed

lemma FIRST_AVAILABLE_PID_free:
  assumes "length avail = 6" and "i < 6" and "avail ! i = 0" and "\<forall>j<i. avail ! j \<noteq> 0"
  shows "FIRST_AVAILABLE_PID avail = Some (of_nat i, avail[i := UNAVAILABLE])"
  using assms first_pid_loop_free [of avail 0 i] by (simp add: FIRST_AVAILABLE_PID_def small_pid)

lemma FIRST_AVAILABLE_PID_full:
  assumes "length avail = 6" and "\<forall>j<6. avail ! j \<noteq> 0"
  shows "FIRST_AVAILABLE_PID avail = None"
  using assms first_pid_loop_full [of avail 0] by (simp add: FIRST_AVAILABLE_PID_def)

interpretation pids: slot_table pid_alloc pid_release pid_used "\<lambda>a. length a = 6" 0 6
proof (unfold_locales, goal_cases)
  case (1 t i)
  then show ?case
    by (auto simp: pid_alloc_def pid_used_def FIRST_AVAILABLE_PID_free small_pid nth_list_update fun_eq_iff)
next
  case (2 t)
  then show ?case by (simp add: pid_alloc_def pid_used_def FIRST_AVAILABLE_PID_full)
next
  case (3 t i)
  then show ?case
    by (auto simp: pid_release_def REMOVE_PID_def pid_used_def small_pid nth_list_update fun_eq_iff)
qed

subsection \<open>File descriptors\<close>

definition fd_in_use :: "fd_entry \<Rightarrow> bool" where
  "fd_in_use e \<longleftrightarrow> fd_flags e AND FD_IN_USE \<noteq> 0"

text \<open>The loop of \<open>sys_open\<close>: the first index from \<open>i\<close> that is not in use.\<close>

function free_fd :: "fd_entry list \<Rightarrow> nat \<Rightarrow> nat option" where
  "free_fd fds i =
     (if i < FD_ARRAY_SIZE then if \<not> fd_in_use (fds ! i) then Some i else free_fd fds (i + 1)
      else None)"
  by pat_completeness auto
termination
  by (relation "measure (\<lambda>(fds, i). FD_ARRAY_SIZE - i)") auto

declare free_fd.simps [simp del]

definition mark_fd :: "nat \<Rightarrow> fd_entry list \<Rightarrow> fd_entry list" where
  "mark_fd i fds = fds[i := (fds ! i)\<lparr>fd_flags := fd_flags (fds ! i) OR FD_IN_USE\<rparr>]"

definition clear_fd :: "nat \<Rightarrow> fd_entry list \<Rightarrow> fd_entry list" where
  "clear_fd i fds = fds[i := (fds ! i)\<lparr>fd_flags := fd_flags (fds ! i) AND NOT FD_IN_USE\<rparr>]"

definition fd_alloc :: "fd_entry list \<Rightarrow> (nat \<times> fd_entry list) option" where
  "fd_alloc fds = map_option (\<lambda>i. (i, mark_fd i fds)) (free_fd fds FIRST_FD)"

definition fd_used :: "fd_entry list \<Rightarrow> nat \<Rightarrow> bool" where
  "fd_used fds i \<longleftrightarrow> i < length fds \<and> fd_in_use (fds ! i)"

lemma free_fd_Some:
  assumes "k \<le> i" and "i < 8" and "\<not> fd_in_use (fds ! i)" and "\<forall>j. k \<le> j \<and> j < i \<longrightarrow> fd_in_use (fds ! j)"
  shows "free_fd fds k = Some i"
  using assms(1,4)
proof (induction "i - k" arbitrary: k)
  case 0
  then show ?case using assms by (simp add: free_fd.simps)
next
  case (Suc d)
  then show ?case
    using Suc.hyps(1) [of "k + 1"] assms(2) by (subst free_fd.simps) auto
qed

lemma free_fd_None: "\<forall>j. k \<le> j \<and> j < 8 \<longrightarrow> fd_in_use (fds ! j) \<Longrightarrow> free_fd fds k = None"
proof (induction fds k rule: free_fd.induct)
  case (1 fds i)
  then show ?case by (subst free_fd.simps) auto
qed

lemma fd_in_use_or [simp]: "fd_in_use (e\<lparr>fd_flags := f OR FD_IN_USE\<rparr>)"
proof -
  have "bit ((f OR FD_IN_USE) AND FD_IN_USE) 31" by (simp add: bit_simps)
  then show ?thesis unfolding fd_in_use_def by fastforce
qed

lemma fd_in_use_clear [simp]: "\<not> fd_in_use (e\<lparr>fd_flags := f AND NOT FD_IN_USE\<rparr>)"
  by (simp add: fd_in_use_def and.assoc)

lemma clear_fd_simps [simp]:
  "length (clear_fd i fds) = length fds" "j \<noteq> i \<Longrightarrow> clear_fd i fds ! j = fds ! j"
  "i < length fds \<Longrightarrow> \<not> fd_in_use (clear_fd i fds ! i)"
  unfolding clear_fd_def using fd_in_use_clear by (simp_all only: length_list_update
      nth_list_update_neq nth_list_update_eq not_False_eq_True not_sym)

lemma mark_fd_simps [simp]:
  "length (mark_fd i fds) = length fds" "j \<noteq> i \<Longrightarrow> mark_fd i fds ! j = fds ! j"
  "i < length fds \<Longrightarrow> fd_in_use (mark_fd i fds ! i)"
  by (simp_all add: mark_fd_def)

interpretation fds: slot_table fd_alloc clear_fd fd_used "\<lambda>a. length a = 8" 2 8
proof (unfold_locales, goal_cases)
  case (1 t i)
  then have "free_fd t 2 = Some i" by (intro free_fd_Some) (auto simp: fd_used_def)
  then show ?case
    using 1 by (auto simp: fd_alloc_def fd_used_def fun_eq_iff)
next
  case (2 t)
  then have "free_fd t 2 = None" by (intro free_fd_None) (auto simp: fd_used_def)
  then show ?case by (simp add: fd_alloc_def)
next
  case (3 t i)
  then show ?case
    by (auto simp: fd_used_def fun_eq_iff)
qed

subsection \<open>Properties\<close>



lemma kernel_block_mask:
  assumes "n < 6" and "k < 0x2000"
  shows "(kernel_block n + of_nat k) AND KERNEL_STACK_MASK = kernel_block n"
proof -
  have u: "unat (kernel_block n) = 0x800000 - (n + 1) * 0x2000"
    unfolding kernel_block_def unat_of_nat using assms(1) by (simp add: take_bit_nat_eq_self)
  also have "\<dots> = 2 ^ 13 * (0x400 - (n + 1))" by (simp add: diff_mult_distrib2)
  finally have "unat (kernel_block n) mod 2 ^ 13 = 0" by simp
  moreover have "unat (kernel_block n) + k < 2 ^ 32" using u assms by simp
  moreover have "KERNEL_STACK_MASK = NOT (mask 13)" by (simp add: mask_eq_exp_minus_1)
  ultimately show ?thesis using align_down_offset [of "kernel_block n" 13 k] assms(2) by simp
qed

text \<open>The kernel stacks and PCBs of the six processes lie in six different 8 KB blocks below
  8 MB, each PCB at the low end of its block and each initial stack pointer in its last word, and
  masking any address of a block with \<open>KERNEL_STACK_MASK\<close> gives the PCB.\<close>

theorem kernel_blocks:
  assumes "m < NUM_PROCESSES" and "n < NUM_PROCESSES"
  shows "PCB_ADDRESS (of_nat n) = kernel_block n
    \<and> KERNEL_STACK_ADDRESS (of_nat n) = kernel_block n + 0x1FFC
    \<and> (kernel_block m = kernel_block n \<longleftrightarrow> m = n)
    \<and> (\<forall>k<0x2000. (kernel_block n + of_nat k) AND KERNEL_STACK_MASK = kernel_block n)"
  using assms by (simp add: pcb_address_block kernel_block_inj kernel_block_mask)

theorem kernel_blocks_witness:
  "PCB_ADDRESS (of_nat 1) = 0x7FC000 \<and> KERNEL_STACK_ADDRESS (of_nat 1) = 0x7FDFFC
    \<and> kernel_block 0 \<noteq> kernel_block 1 \<and> (0x7FD123 :: u32) AND KERNEL_STACK_MASK = 0x7FC000"
proof -
  have "kernel_block 1 = 0x7FC000" by (simp add: kernel_block_def)
  then show ?thesis using kernel_blocks [of 0 1] by simp
qed

end
