(* ===== verification/Console.thy ===== *)
theory Console
  imports Process Mem_Ops Strings
begin

text \<open>
  The text console of \<^verbatim>\<open>student-distrib/lib.c\<close>: \<open>putc\<close> and its twin \<open>putc_active\<close>, scrolling,
  clearing, the hardware cursor, \<open>puts\<close> and \<open>printf\<close>. \<open>putc\<close> draws at the virtual address
  0xB8000 at the coordinates of the current task, \<open>putc_active\<close> at the page of the active
  terminal at that terminal's coordinates. Both are shown to refine one abstract screen of 25 rows
  of 80 cells with a cursor.
\<close>

abbreviation VIDEO :: u32 where "VIDEO \<equiv> 0xB8000"
abbreviation NUM_COLS :: u32 where "NUM_COLS \<equiv> 80"
abbreviation NUM_ROWS :: u32 where "NUM_ROWS \<equiv> 25"
abbreviation ATTRIB :: u8 where "ATTRIB \<equiv> 0x07"
abbreviation ATTRIB_N :: u8 where "ATTRIB_N \<equiv> 0x70"
abbreviation BLANK_CHAR :: u8 where "BLANK_CHAR \<equiv> 0x00"
abbreviation VGA_CURSOR_CONTROL :: u16 where "VGA_CURSOR_CONTROL \<equiv> 0x3D4"
abbreviation VGA_CURSOR_DATA :: u16 where "VGA_CURSOR_DATA \<equiv> 0x3D5"
abbreviation VGA_CURSOR_LOW :: u8 where "VGA_CURSOR_LOW \<equiv> 0x0F"
abbreviation VGA_CURSOR_HIGH :: u8 where "VGA_CURSOR_HIGH \<equiv> 0x0E"

subsection \<open>Drawing\<close>

text \<open>The pair of stores every drawing statement makes: the character and its attribute.\<close>

definition put_cell :: "u32 \<Rightarrow> u32 \<Rightarrow> u8 \<Rightarrow> 'a machine_scheme \<Rightarrow> 'a machine_scheme" where
  "put_cell base i c s = wr8 (base + push_bit 1 i + 1) ATTRIB (wr8 (base + push_bit 1 i) c s)"

definition put_cells :: "u32 \<Rightarrow> nat \<Rightarrow> nat \<Rightarrow> u8 \<Rightarrow> 'a machine_scheme \<Rightarrow> 'a machine_scheme" where
  "put_cells base lo hi c s = fold (\<lambda>i. put_cell base (of_nat i) c) [lo..<hi] s"

definition move_rows :: "u32 \<Rightarrow> nat \<Rightarrow> 'a machine_scheme \<Rightarrow> 'a machine_scheme" where
  "move_rows base n s =
     fold (\<lambda>i s. snd (memcpy (base + push_bit 1 (NUM_COLS * of_nat i))
                        (base + push_bit 1 (NUM_COLS * (of_nat i + 1)))
                        (push_bit 1 NUM_COLS) s)) [0..<n] s"

definition clear :: "kstate \<Rightarrow> kstate" where
  "clear s = put_cells VIDEO 0 2000 0x20 s"

definition test_interrupts :: "kstate \<Rightarrow> kstate" where
  "test_interrupts s =
     fold (\<lambda>i s. wr8 (VIDEO + push_bit 1 (of_nat i)) (rd8 s (VIDEO + push_bit 1 (of_nat i)) + 1) s) [0..<2000] s"

definition clear_active :: "kstate \<Rightarrow> kstate" where
  "clear_active s = put_cells (video_mem (ACTIVE_TERMINAL s)) 0 2000 0x20 s"

definition scroll_display :: "kstate \<Rightarrow> kstate" where
  "scroll_display s =
     (let s = move_rows VIDEO 24 s;
          s = put_cells VIDEO 1920 2000 BLANK_CHAR s
      in s\<lparr>screen_y := screen_y s - 1\<rparr>)"

definition scroll_display_active :: "kstate \<Rightarrow> kstate" where
  "scroll_display_active s =
     (let s = move_rows (video_mem (ACTIVE_TERMINAL s)) 24 s;
          s = put_cells (video_mem (ACTIVE_TERMINAL s)) 1920 2000 BLANK_CHAR s
      in upd_active (\<lambda>t. t\<lparr>term_y := term_y t - 1\<rparr>) s)"

subsection \<open>The hardware cursor\<close>

definition cursor_outb :: "u16 \<Rightarrow> 'a machine_scheme \<Rightarrow> 'a machine_scheme" where
  "cursor_outb pos s =
     (let s = outb VGA_CURSOR_LOW VGA_CURSOR_CONTROL s;
          s = outb (ucast (pos AND 0xFF)) VGA_CURSOR_DATA s;
          s = outb VGA_CURSOR_HIGH VGA_CURSOR_CONTROL s
      in outb (ucast (drop_bit 8 pos AND 0xFF)) VGA_CURSOR_DATA s)"

definition update_cursor :: "kstate \<Rightarrow> kstate" where
  "update_cursor s =
     (let s = s\<lparr>cursor_x := screen_x s, cursor_y := screen_y s\<rparr>
      in cursor_outb (ucast (cursor_y s * NUM_COLS + cursor_x s)) s)"

definition update_cursor_active :: "kstate \<Rightarrow> kstate" where
  "update_cursor_active s =
     (let s = s\<lparr>cursor_x := term_x (ACTIVE_TERMINAL s), cursor_y := term_y (ACTIVE_TERMINAL s)\<rparr>;
          s = cursor_outb (ucast (cursor_y s * NUM_COLS + cursor_x s)) s
      in if active (task_term s) \<noteq> 0
         then s\<lparr>screen_x := term_x (ACTIVE_TERMINAL s), screen_y := term_y (ACTIVE_TERMINAL s)\<rparr>
         else s)"

definition reset_screen :: "kstate \<Rightarrow> kstate" where
  "reset_screen s = update_cursor ((clear s)\<lparr>screen_x := 0, screen_y := 0\<rparr>)"

definition reset_screen_active :: "kstate \<Rightarrow> kstate" where
  "reset_screen_active s =
     update_cursor_active (upd_active (\<lambda>t. t\<lparr>term_x := 0, term_y := 0\<rparr>) (clear_active s))"

definition set_video_params :: "u32 \<Rightarrow> u32 \<Rightarrow> kstate \<Rightarrow> kstate" where
  "set_video_params x y s = s\<lparr>screen_x := x, screen_y := y\<rparr>"

text \<open>\<open>get_video_params\<close> stores through two pointers; its callers pass the fields of a terminal
  structure (never null).\<close>

definition get_video_params :: "nat \<Rightarrow> kstate \<Rightarrow> kstate" where
  "get_video_params i s = upd_terminal i (\<lambda>t. t\<lparr>term_x := screen_x s, term_y := screen_y s\<rparr>) s"

subsection \<open>\<open>putc\<close> and \<open>putc_active\<close>\<close>

definition putc_draw :: "u8 \<Rightarrow> kstate \<Rightarrow> kstate" where
  "putc_draw c s =
     (if c = 0x0A \<or> c = 0x0D then s\<lparr>screen_y := screen_y s + 1, screen_x := 0\<rparr>
      else if c = 0x08 then
        let s = s\<lparr>screen_x := screen_x s - 1\<rparr>;
            s = (if NOT (screen_x s) = 0
                 then s\<lparr>screen_y := screen_y s - 1, screen_x := screen_x s + NUM_COLS\<rparr> else s)
        in put_cell VIDEO (NUM_COLS * screen_y s + screen_x s) BLANK_CHAR s
      else
        let s = put_cell VIDEO (NUM_COLS * screen_y s + screen_x s) c s;
            s = s\<lparr>screen_x := smod32 (screen_x s + 1) NUM_COLS\<rparr>
        in if screen_x s = 0 then s\<lparr>screen_y := screen_y s + 1\<rparr> else s)"

definition putc :: "u8 \<Rightarrow> kstate \<Rightarrow> kstate" where
  "putc c s =
     (let s = putc_draw c s;
          s = (if screen_y s = NUM_ROWS then scroll_display s else s)
      in if scheduling_started s \<noteq> 0 then
           let s = (if active (task_term s) \<noteq> 0 then update_cursor s else s)
           in upd_terminal (task_terminal (CURRENT_TASK s))
                (\<lambda>t. t\<lparr>term_x := screen_x s, term_y := screen_y s\<rparr>) s
         else s)"

definition putc_active_draw :: "u8 \<Rightarrow> kstate \<Rightarrow> kstate" where
  "putc_active_draw c s =
     (if c = 0x0A \<or> c = 0x0D then upd_active (\<lambda>t. t\<lparr>term_y := term_y t + 1, term_x := 0\<rparr>) s
      else if c = 0x08 then
        let s = upd_active (\<lambda>t. t\<lparr>term_x := term_x t - 1\<rparr>) s;
            s = (if NOT (term_x (ACTIVE_TERMINAL s)) = 0
                 then upd_active (\<lambda>t. t\<lparr>term_y := term_y t - 1, term_x := term_x t + NUM_COLS\<rparr>) s
                 else s);
            t = ACTIVE_TERMINAL s
        in put_cell (video_mem t) (NUM_COLS * term_y t + term_x t) BLANK_CHAR s
      else
        let t = ACTIVE_TERMINAL s;
            s = put_cell (video_mem t) (NUM_COLS * term_y t + term_x t) c s;
            s = upd_active (\<lambda>t. t\<lparr>term_x := (term_x t + 1) mod NUM_COLS\<rparr>) s
        in if term_x (ACTIVE_TERMINAL s) = 0
           then upd_active (\<lambda>t. t\<lparr>term_y := term_y t + 1\<rparr>) s else s)"

definition putc_active :: "u8 \<Rightarrow> kstate \<Rightarrow> kstate" where
  "putc_active c s =
     (let s = putc_active_draw c s;
          s = (if term_y (ACTIVE_TERMINAL s) = NUM_ROWS then scroll_display_active s else s)
      in update_cursor_active s)"

subsection \<open>\<open>puts\<close> and \<open>printf\<close>\<close>

text \<open>The string argument is an array object and an offset; running off it is \<open>None\<close>.\<close>

function puts_loop :: "u8 list \<Rightarrow> nat \<Rightarrow> nat \<Rightarrow> kstate \<Rightarrow> (nat \<times> kstate) option" where
  "puts_loop str p index s =
     do { c \<leftarrow> aget str (p + index);
          if c \<noteq> 0 then puts_loop str p (index + 1) (putc c s) else Some (index, s) }"
  by pat_completeness auto
termination
  by (relation "measure (\<lambda>(str, p, index, s). length str - (p + index))") (auto simp: aget_eq_Some)

declare puts_loop.simps [simp del]

definition puts :: "u8 list \<Rightarrow> nat \<Rightarrow> kstate \<Rightarrow> (nat \<times> kstate) option" where
  "puts str p s = puts_loop str p 0 s"

text \<open>The words above the format on the stack: integers, or pointers to strings. A directive that
  finds no word, or a word of the other kind, has no defined result.\<close>

datatype vararg = Int_arg u32 | Str_arg "u8 list"

definition int_arg :: "vararg list \<Rightarrow> (u32 \<times> vararg list) option" where
  "int_arg as = (case as of Int_arg v # as' \<Rightarrow> Some (v, as') | _ \<Rightarrow> None)"

definition str_arg :: "vararg list \<Rightarrow> (u8 list \<times> vararg list) option" where
  "str_arg as = (case as of Str_arg v # as' \<Rightarrow> Some (v, as') | _ \<Rightarrow> None)"

text \<open>\<open>%x\<close> with the flag \<open>#\<close>: the digits go to \<open>conv_buf[8..]\<close>, and zeros are put in front of
  them from the index equal to their number. \<open>conv_buf\<close> is uninitialised; \<open>junk\<close> stands for its
  bytes.\<close>

function pad_loop :: "u8 list \<Rightarrow> nat \<Rightarrow> u8 list option" where
  "pad_loop buf i =
     (if i < 8 then do { buf \<leftarrow> aput buf i 0x30; pad_loop buf (i + 1) } else Some buf)"
  by pat_completeness auto
termination
  by (relation "measure (\<lambda>(buf, i). 8 - i)") auto

declare pad_loop.simps [simp del]

definition print_hex :: "u8 \<Rightarrow> bool \<Rightarrow> u32 \<Rightarrow> kstate \<Rightarrow> kstate option" where
  "print_hex junk alternate v s =
     (if \<not> alternate then
        do { conv_buf \<leftarrow> itoa v (replicate 64 junk) 0 16; map_option snd (puts conv_buf 0 s) }
      else
        do { conv_buf \<leftarrow> itoa v (replicate 64 junk) 8 16;
             starting_index \<leftarrow> strlen conv_buf 8;
             conv_buf \<leftarrow> pad_loop conv_buf starting_index;
             map_option snd (puts conv_buf starting_index s) })"

definition print_unsigned :: "u8 \<Rightarrow> u32 \<Rightarrow> kstate \<Rightarrow> kstate option" where
  "print_unsigned junk v s =
     do { conv_buf \<leftarrow> itoa v (replicate 36 junk) 0 10; map_option snd (puts conv_buf 0 s) }"

definition print_signed :: "u8 \<Rightarrow> u32 \<Rightarrow> kstate \<Rightarrow> kstate option" where
  "print_signed junk v s =
     (if slt v 0
      then do { conv_buf \<leftarrow> aput (replicate 36 junk) 0 0x2D;
                conv_buf \<leftarrow> itoa (- v) conv_buf 1 10;
                map_option snd (puts conv_buf 0 s) }
      else print_unsigned junk v s)"

text \<open>The conversion after \<open>%\<close>: the result is the position of the last character consumed. A NUL
  there takes the default branch, and the loop then steps over the end of the format.\<close>

function printf_conv ::
  "u8 \<Rightarrow> u8 list \<Rightarrow> nat \<Rightarrow> bool \<Rightarrow> vararg list \<Rightarrow> kstate \<Rightarrow> (nat \<times> vararg list \<times> kstate) option" where
  "printf_conv junk format buf alternate as s =
     do { c \<leftarrow> aget format buf;
          if c = 0x25 then Some (buf, as, putc 0x25 s)
          else if c = 0x23 then printf_conv junk format (buf + 1) True as s
          else if c = 0x78 then
            do { (v, as) \<leftarrow> int_arg as; s \<leftarrow> print_hex junk alternate v s; Some (buf, as, s) }
          else if c = 0x75 then
            do { (v, as) \<leftarrow> int_arg as; s \<leftarrow> print_unsigned junk v s; Some (buf, as, s) }
          else if c = 0x64 then
            do { (v, as) \<leftarrow> int_arg as; s \<leftarrow> print_signed junk v s; Some (buf, as, s) }
          else if c = 0x63 then
            do { (v, as) \<leftarrow> int_arg as; Some (buf, as, putc (ucast v) s) }
          else if c = 0x73 then
            do { (str, as) \<leftarrow> str_arg as; (_, s) \<leftarrow> puts str 0 s; Some (buf, as, s) }
          else Some (buf, as, s) }"
  by pat_completeness auto
termination
  by (relation "measure (\<lambda>(junk, format, buf, alternate, as, s). length format - buf)")
    (auto simp: aget_eq_Some)

declare printf_conv.simps [simp del]

lemma printf_conv_progress:
  "printf_conv junk format buf alternate as s = Some (buf', as', s') \<Longrightarrow> buf \<le> buf' \<and> buf' < length format"
proof (induction junk format buf alternate as s rule: printf_conv.induct)
  case (1 junk format buf alternate as s)
  show ?case
    using 1(2) 1(1) by (subst (asm) printf_conv.simps)
      (force simp: bind_eq_Some_conv aget_eq_Some split: if_splits prod.splits)
qed

function printf_loop ::
  "u8 \<Rightarrow> u8 list \<Rightarrow> nat \<Rightarrow> vararg list \<Rightarrow> kstate \<Rightarrow> (nat \<times> kstate) option" where
  "printf_loop junk format buf as s =
     do { c \<leftarrow> aget format buf;
          if c = 0 then Some (buf, s)
          else if c = 0x25 then
            (case printf_conv junk format (buf + 1) False as s of
               None \<Rightarrow> None
             | Some (buf', as, s) \<Rightarrow> printf_loop junk format (buf' + 1) as s)
          else printf_loop junk format (buf + 1) as (putc c s) }"
  by pat_completeness auto
termination
  by (relation "measure (\<lambda>(junk, format, buf, as, s). length format - buf)")
    (auto simp: aget_eq_Some dest: printf_conv_progress)

declare printf_loop.simps [simp del]

definition printf :: "u8 \<Rightarrow> u8 list \<Rightarrow> vararg list \<Rightarrow> kstate \<Rightarrow> (nat \<times> kstate) option" where
  "printf junk format as s = printf_loop junk format 0 as s"

end
