(* ===== verification/Screen.thy ===== *)
theory Screen
  imports Console
begin

text \<open>
  The console as an abstract screen: 2000 cells and a cursor. \<open>draws\<close> relates the stores of
  \<^verbatim>\<open>lib.c\<close> to operations on the list of cells; \<open>putc\<close> and \<open>putc_active\<close> are shown to
  implement the same abstract operation \<open>spec_putc\<close> through the locale \<open>text_screen\<close>, whose lemmas
  on whole strings the users of the console share.
\<close>

subsection \<open>The cells of a screen\<close>

text \<open>The 2000 cells (character, attribute) at the physical address \<open>P\<close>.\<close>

definition screen_cells :: "u32 \<Rightarrow> (u32 \<Rightarrow> u8) \<Rightarrow> (u8 \<times> u8) list" where
  "screen_cells P m = map (\<lambda>i. (m (P + of_nat (2 * i)), m (P + of_nat (2 * i + 1)))) [0..<2000]"

lemma length_screen_cells [simp]: "length (screen_cells P m) = 2000"
  by (simp add: screen_cells_def)

lemma nth_screen_cells:
  "i < 2000 \<Longrightarrow> screen_cells P m ! i = (m (P + of_nat (2 * i)), m (P + of_nat (2 * i + 1)))"
  by (simp add: screen_cells_def)

lemma offset_eq_iff:
  assumes "a < 4096" and "b < 4096"
  shows "(P :: u32) + of_nat a = P + of_nat b \<longleftrightarrow> a = b"
  using assms by (auto simp: word_of_nat_eq_iff take_bit_nat_eq_self)

lemma within_offset:
  assumes "k < 4096" and "a < 4096" and "n \<le> 4096"
  shows "within ((P :: u32) + of_nat k) (P + of_nat a) n \<longleftrightarrow> a \<le> k \<and> k < a + n"
proof (cases "a \<le> k")
  case True
  then have "(P + of_nat k) - (P + of_nat a) = (of_nat (k - a) :: u32)" by (simp add: of_nat_diff)
  moreover have "unat (of_nat (k - a) :: u32) = k - a"
    unfolding unat_of_nat using assms by (simp add: take_bit_nat_eq_self)
  ultimately show ?thesis using True by (simp only: within_def) auto
next
  case False
  have "\<not> unat ((P + of_nat k) - (P + of_nat a)) < n"
  proof
    define w where "w = unat ((P + of_nat k) - (P + of_nat a))"
    assume "unat ((P + of_nat k) - (P + of_nat a)) < n"
    then have "w < 4096" using assms(3) by (simp add: w_def)
    moreover have "(of_nat k :: u32) = of_nat (a + w)" by (simp add: w_def)
    ultimately have "k = a + w" using assms by (simp add: word_of_nat_eq_iff take_bit_nat_eq_self del: of_nat_add)
    then show False using False by simp
  qed
  then show ?thesis using False by (simp only: within_def) simp
qed

lemma within_offset0: "k < 4096 \<Longrightarrow> n \<le> 4096 \<Longrightarrow> within (P + of_nat k) P n \<longleftrightarrow> k < n"
  using within_offset [of k 0 n P] by simp

text \<open>\<open>draws P f s s'\<close>: the step from \<open>s\<close> to \<open>s'\<close> changes memory only, applies \<open>f\<close> to the cells of
  the screen at \<open>P\<close> and touches nothing outside that screen.\<close>

definition draws ::
  "u32 \<Rightarrow> ((u8 \<times> u8) list \<Rightarrow> (u8 \<times> u8) list) \<Rightarrow> 'a machine_scheme \<Rightarrow> 'a machine_scheme \<Rightarrow> bool" where
  "draws P f s s' \<longleftrightarrow> s' = s\<lparr>mem := mem s'\<rparr> \<and> screen_cells P (mem s') = f (screen_cells P (mem s))
     \<and> (\<forall>x. \<not> within x P 4000 \<longrightarrow> mem s' x = mem s x)"

lemma drawsI:
  assumes "s' = s\<lparr>mem := m\<rparr>" and "\<And>i. i < 2000 \<Longrightarrow>
      (m (P + of_nat (2 * i)), m (P + of_nat (2 * i + 1))) = f (screen_cells P (mem s)) ! i"
    and "length (f (screen_cells P (mem s))) = 2000"
    and "\<And>x. \<not> within x P 4000 \<Longrightarrow> m x = mem s x"
  shows "draws P f s s'"
  using assms by (auto simp: draws_def nth_screen_cells intro!: nth_equalityI)

lemma draws_trans: "draws P f s s' \<Longrightarrow> draws P g s' s'' \<Longrightarrow> draws P (\<lambda>cs. g (f cs)) s s''"
  unfolding draws_def by (metis machine.select_convs(1) machine.surjective machine.update_convs(1))

lemma draws_refl: "draws P (\<lambda>cs. cs) s s"
  by (simp add: draws_def)

lemma draws_cong:
  "draws P f s s' \<Longrightarrow> f (screen_cells P (mem s)) = g (screen_cells P (mem s)) \<Longrightarrow> draws P g s s'"
  by (simp add: draws_def)

lemma draws_keeps:
  assumes "draws P f s s'"
  shows "mmu s' = mmu s" "io s' = io s" "eflags s' = eflags s" "machine.more s' = machine.more s"
    "linear s' a q n = linear s a q n" "df_clear s' = df_clear s"
proof -
  have s': "s' = s\<lparr>mem := mem s'\<rparr>" using assms by (simp add: draws_def)
  show "mmu s' = mmu s" "io s' = io s" "eflags s' = eflags s" "machine.more s' = machine.more s"
    by (subst s', simp)+
  then show "linear s' a q n = linear s a q n" "df_clear s' = df_clear s"
    by (simp_all add: linear_def df_clear_def)
qed

lemma linearD: "linear s a p n \<Longrightarrow> i < n \<Longrightarrow> mmu s (a + of_nat i) = p + of_nat i"
  by (simp add: linear_def)

lemma put_cell_draws:
  assumes "linear s base P 4000" and "i < 2000"
  shows "draws P (\<lambda>cs. cs[i := (c, ATTRIB)]) s (put_cell base (of_nat i) c s)"
proof (rule drawsI)
  let ?m = "(mem s)(P + of_nat (2 * i) := c, P + of_nat (2 * i + 1) := ATTRIB)"
  have addr: "base + push_bit 1 (of_nat i) = base + of_nat (2 * i)"
    "base + push_bit 1 (of_nat i) + 1 = base + of_nat (2 * i + 1)"
    by (simp_all add: push_bit_eq_mult)
  show "put_cell base (of_nat i) c s = s\<lparr>mem := ?m\<rparr>"
    unfolding put_cell_def addr(2) unfolding addr(1)
    using linearD [OF assms(1), of "2 * i"] linearD [OF assms(1), of "2 * i + 1"] assms(2)
    by (simp add: wr8_def del: of_nat_add of_nat_mult of_nat_Suc)
  fix j :: nat assume j: "j < 2000"
  have ne: "2 * j \<noteq> 2 * i + 1" "2 * j + 1 \<noteq> 2 * i" by presburger+
  show "(?m (P + of_nat (2 * j)), ?m (P + of_nat (2 * j + 1))) = (screen_cells P (mem s))[i := (c, ATTRIB)] ! j"
    using j assms(2) offset_eq_iff [of "2 * j" "2 * i" P] offset_eq_iff [of "2 * j + 1" "2 * i" P]
      offset_eq_iff [of "2 * j" "2 * i + 1" P] offset_eq_iff [of "2 * j + 1" "2 * i + 1" P] ne
    by (auto simp: nth_updated nth_screen_cells simp del: of_nat_add of_nat_mult of_nat_Suc)
next
  let ?m = "(mem s)(P + of_nat (2 * i) := c, P + of_nat (2 * i + 1) := ATTRIB)"
  fix x assume "\<not> within x P 4000"
  then have "x \<noteq> P + of_nat (2 * i)" "x \<noteq> P + of_nat (2 * i + 1)"
    using assms(2) within_offset0 [of "2 * i" 4000 P] within_offset0 [of "2 * i + 1" 4000 P] by auto
  then show "?m x = mem s x" by simp
qed simp

lemma bump_cell_draws:
  assumes "linear s base P 4000" and "i < 2000"
  shows "draws P (\<lambda>cs. cs[i := (fst (cs ! i) + 1, snd (cs ! i))]) s
           (wr8 (base + push_bit 1 (of_nat i)) (rd8 s (base + push_bit 1 (of_nat i)) + 1) s)"
proof (rule drawsI)
  let ?m = "(mem s)(P + of_nat (2 * i) := mem s (P + of_nat (2 * i)) + 1)"
  have addr: "base + push_bit 1 (of_nat i) = base + of_nat (2 * i)" by (simp add: push_bit_eq_mult)
  show "wr8 (base + push_bit 1 (of_nat i)) (rd8 s (base + push_bit 1 (of_nat i)) + 1) s = s\<lparr>mem := ?m\<rparr>"
    unfolding addr using linearD [OF assms(1), of "2 * i"] assms(2)
    by (simp add: wr8_def rd8_def del: of_nat_add of_nat_mult of_nat_Suc)
  fix j :: nat assume j: "j < 2000"
  have "2 * j + 1 \<noteq> 2 * i" by presburger
  then show "(?m (P + of_nat (2 * j)), ?m (P + of_nat (2 * j + 1)))
      = (screen_cells P (mem s))[i := (fst (screen_cells P (mem s) ! i) + 1, snd (screen_cells P (mem s) ! i))] ! j"
    using j assms(2) offset_eq_iff [of "2 * j" "2 * i" P] offset_eq_iff [of "2 * j + 1" "2 * i" P]
    by (auto simp: nth_updated nth_screen_cells simp del: of_nat_add of_nat_mult of_nat_Suc)
next
  let ?m = "(mem s)(P + of_nat (2 * i) := mem s (P + of_nat (2 * i)) + 1)"
  fix x assume "\<not> within x P 4000"
  then have "x \<noteq> P + of_nat (2 * i)" using assms(2) within_offset0 [of "2 * i" 4000 P] by auto
  then show "?m x = mem s x" by simp
qed simp

text \<open>\<open>test_interrupts\<close> counts every character of the screen up by one and leaves the attributes.\<close>

lemma test_interrupts_draws:
  assumes "linear s VIDEO P 4000"
  shows "draws P (map (\<lambda>(c, a). (c + 1, a))) s (test_interrupts s)"
proof -
  let ?f = "\<lambda>i s. wr8 (VIDEO + push_bit 1 (of_nat i)) (rd8 s (VIDEO + push_bit 1 (of_nat i)) + 1) s"
  let ?g = "\<lambda>(c :: u8, a :: u8). (c + 1, a)"
  have "draws P (\<lambda>cs. map ?g (take n cs) @ drop n cs) s (fold ?f [0..<n] s)" if "n \<le> 2000" for n
    using that
  proof (induction n)
    case 0
    then show ?case by (simp add: draws_refl)
  next
    case (Suc n)
    let ?cs = "screen_cells P (mem s)"
    have d: "draws P (\<lambda>cs. map ?g (take n cs) @ drop n cs) s (fold ?f [0..<n] s)" using Suc by simp
    have n: "linear (fold ?f [0..<n] s) VIDEO P 4000" "n < 2000" using draws_keeps(5) [OF d] assms Suc.prems by simp_all
    note e = draws_trans [OF d bump_cell_draws [OF n]]
    have "(map ?g (take n ?cs) @ drop n ?cs)[n := (fst (?cs ! n) + 1, snd (?cs ! n))]
      = map ?g (take (Suc n) ?cs) @ drop (Suc n) ?cs"
      using Suc.prems Cons_nth_drop_Suc [of n ?cs]
      by (simp add: list_update_append take_Suc_conv_app_nth split_beta flip: Cons_nth_drop_Suc)
    moreover have "(map ?g (take n ?cs) @ drop n ?cs) ! n = ?cs ! n" using n(2) by (simp add: nth_append)
    moreover have u: "fold ?f [0..<Suc n] s = ?f n (fold ?f [0..<n] s)" by simp
    ultimately show ?case unfolding u by (intro draws_cong [OF e]) (simp only:)
  qed
  from this [OF order_refl] have d: "draws P (\<lambda>cs. map ?g (take 2000 cs) @ drop 2000 cs) s (test_interrupts s)"
    unfolding test_interrupts_def .
  show ?thesis by (rule draws_cong [OF d]) simp
qed

lemma within_sub:
  assumes "within x (P + of_nat a) n" and "a + n \<le> N" and "N \<le> 4096"
  shows "within x P N"
proof -
  define w where "w = unat (x - (P + of_nat a))"
  have "x = P + of_nat (a + w)" by (simp add: w_def)
  moreover have "a + w < N" using assms(1,2) by (simp add: within_def w_def)
  ultimately show ?thesis using within_offset0 [of "a + w" N P] assms(3) by simp
qed

lemma put_cells_draws:
  assumes "linear s base P 4000" and "hi \<le> 2000" and "lo \<le> hi"
  shows "draws P (\<lambda>cs. take lo cs @ replicate (hi - lo) (c, ATTRIB) @ drop hi cs) s (put_cells base lo hi c s)"
  using assms(2,3)
proof (induction "hi - lo" arbitrary: hi)
  case 0
  then have "draws P (\<lambda>cs. cs) s (put_cells base lo hi c s)" by (simp add: put_cells_def draws_refl)
  then show ?case by (rule draws_cong) (use 0 in simp)
next
  case (Suc n)
  then obtain h where h: "hi = Suc h" "lo \<le> h" by (cases hi) auto
  have step: "put_cells base lo hi c s = put_cell base (of_nat h) c (put_cells base lo h c s)"
    using h by (simp add: put_cells_def)
  have IH: "draws P (\<lambda>cs. take lo cs @ replicate (h - lo) (c, ATTRIB) @ drop h cs) s (put_cells base lo h c s)"
    using Suc.hyps(1) [of h] Suc.hyps(2) Suc.prems h by simp
  have "draws P (\<lambda>cs. (take lo cs @ replicate (h - lo) (c, ATTRIB) @ drop h cs)[h := (c, ATTRIB)]) s
      (put_cells base lo hi c s)"
    unfolding step
    by (rule draws_trans [OF IH], rule put_cell_draws) (use Suc.prems h assms(1) draws_keeps(5) [OF IH] in auto)
  then show ?case
  proof (rule draws_cong)
    let ?cs = "screen_cells P (mem s)"
    have "drop h ?cs = ?cs ! h # drop (Suc h) ?cs"
      using Suc.prems h by (simp add: Cons_nth_drop_Suc)
    then show "(take lo ?cs @ replicate (h - lo) (c, ATTRIB) @ drop h ?cs)[h := (c, ATTRIB)] =
        take lo ?cs @ replicate (hi - lo) (c, ATTRIB) @ drop hi ?cs"
      using Suc.prems h by (simp add: list_update_append Suc_diff_le replicate_append_same)
  qed
qed

text \<open>One row moved up: row \<open>r\<close> becomes a copy of row \<open>r + 1\<close>.\<close>

definition row_up :: "nat \<Rightarrow> (u8 \<times> u8) list \<Rightarrow> (u8 \<times> u8) list" where
  "row_up r cs = map (\<lambda>i. if 80 * r \<le> i \<and> i < 80 * r + 80 then cs ! (i + 80) else cs ! i) [0..<2000]"

lemma memcpy_row_blit:
  assumes "linear s base P 4000" and "df_clear s" and "r < 24"
  defines "d \<equiv> 160 * r"
  shows "snd (memcpy (base + of_nat d) (base + of_nat (d + 160)) 160 s) = s\<lparr>mem := blit (mem s) (P + of_nat d) (P + of_nat (d + 160)) 160\<rparr>"
proof -
  have lin: "linear s (base + of_nat d) (P + of_nat d) 160" "linear s (base + of_nat (d + 160)) (P + of_nat (d + 160)) 160"
    unfolding linear_def using assms(1,3)
    by (auto simp: d_def add.assoc of_nat_add [symmetric] linearD simp del: of_nat_add of_nat_mult)
  have "disjoint_regions s (base + of_nat d) (base + of_nat (d + 160)) 160"
    unfolding disjoint_regions_def
  proof (intro allI impI)
    fix i j :: nat assume ij: "i < 160" "j < 160"
    have "P + of_nat (d + i) \<noteq> P + of_nat (d + 160 + j)"
      using offset_eq_iff [of "d + i" "d + 160 + j" P] ij assms(3) unfolding d_def by linarith
    then show "mmu s (base + of_nat d + of_nat i) \<noteq> mmu s (base + of_nat (d + 160) + of_nat j)"
      using lin ij by (simp add: linear_def add.assoc)
  qed
  then show ?thesis
    using memcpy_copy [of s _ _ 160] copy_bytes_region [OF lin] disjoint_not_within [OF lin] assms(2) by simp
qed

lemma blit_row_byte:
  assumes "r < 24" and "k < 4000"
  defines "d \<equiv> 160 * r"
  shows "blit m (P + of_nat d) (P + of_nat (d + 160)) 160 (P + of_nat k) = m (P + of_nat (if d \<le> k \<and> k < d + 160 then k + 160 else k))"
proof -
  have "within (P + of_nat k) (P + of_nat d) 160 \<longleftrightarrow> d \<le> k \<and> k < d + 160"
    using within_offset [of k d 160 P] assms(1,2) by (simp add: d_def)
  moreover have "P + of_nat (d + 160) + (P + of_nat k - (P + of_nat d)) = P + of_nat (k + 160)" by simp
  ultimately show ?thesis unfolding blit_def by (simp add: ac_simps)
qed

lemma memcpy_row_draws:
  assumes "linear s base P 4000" and "df_clear s" and "r < 24"
  shows "draws P (row_up r) s
    (snd (memcpy (base + push_bit 1 (NUM_COLS * of_nat r)) (base + push_bit 1 (NUM_COLS * (of_nat r + 1)))
           (push_bit 1 NUM_COLS) s))"
proof -
  let ?d = "160 * r" and ?q = "160 * r + 160"
  have addr: "base + push_bit 1 (NUM_COLS * of_nat r) = base + of_nat ?d"
    "base + push_bit 1 (NUM_COLS * (of_nat r + 1)) = base + of_nat ?q"
    "push_bit 1 NUM_COLS = (160 :: u32)"
    by (simp_all add: push_bit_eq_mult algebra_simps)
  show ?thesis
    unfolding addr
  proof (rule drawsI [OF memcpy_row_blit [OF assms]])
    fix i :: nat assume i: "i < 2000"
    have cond: "?d \<le> 2 * i \<and> 2 * i < ?q \<longleftrightarrow> 80 * r \<le> i \<and> i < 80 * r + 80"
      "?d \<le> 2 * i + 1 \<and> 2 * i + 1 < ?q \<longleftrightarrow> 80 * r \<le> i \<and> i < 80 * r + 80" by presburger+
    let ?i = "if 80 * r \<le> i \<and> i < 80 * r + 80 then i + 80 else i"
    have "?i < 2000" using i assms(3) by auto
    moreover have "row_up r (screen_cells P (mem s)) ! i = screen_cells P (mem s) ! ?i"
      using i by (simp add: row_up_def)
    ultimately have "row_up r (screen_cells P (mem s)) ! i = (mem s (P + of_nat (2 * ?i)), mem s (P + of_nat (2 * ?i + 1)))"
      by (simp only: nth_screen_cells)
    moreover have "(if ?d \<le> 2 * i \<and> 2 * i < ?q then 2 * i + 160 else 2 * i) = 2 * ?i"
      "(if ?d \<le> 2 * i + 1 \<and> 2 * i + 1 < ?q then 2 * i + 1 + 160 else 2 * i + 1) = 2 * ?i + 1"
      unfolding cond by simp_all
    ultimately show "(blit (mem s) (P + of_nat ?d) (P + of_nat ?q) 160 (P + of_nat (2 * i)),
        blit (mem s) (P + of_nat ?d) (P + of_nat ?q) 160 (P + of_nat (2 * i + 1))) =
        row_up r (screen_cells P (mem s)) ! i"
      using blit_row_byte [OF assms(3), of "2 * i"] blit_row_byte [OF assms(3), of "2 * i + 1"] i
      by (simp del: of_nat_add of_nat_mult)
  next
    fix x assume "\<not> within x P 4000"
    then show "blit (mem s) (P + of_nat ?d) (P + of_nat ?q) 160 x = mem s x"
      using within_sub [of x P ?d 160 4000] assms(3) by (auto simp: blit_def simp del: of_nat_mult)
  qed (simp add: row_up_def)
qed

lemma move_rows_Suc:
  "move_rows base (Suc n) s = snd (memcpy (base + push_bit 1 (NUM_COLS * of_nat n))
     (base + push_bit 1 (NUM_COLS * (of_nat n + 1))) (push_bit 1 NUM_COLS) (move_rows base n s))"
  by (simp add: move_rows_def)

lemma move_rows_draws:
  assumes "linear s base P 4000" and "df_clear s"
  shows "n \<le> 24 \<Longrightarrow> draws P (fold row_up [0..<n]) s (move_rows base n s)"
proof (induction n)
  case 0
  have "draws P (\<lambda>cs. cs) s (move_rows base 0 s)" by (simp add: move_rows_def draws_refl)
  then show ?case by (rule draws_cong) simp
next
  case (Suc n)
  then have IH: "draws P (fold row_up [0..<n]) s (move_rows base n s)" by simp
  have "draws P (row_up n) (move_rows base n s) (move_rows base (Suc n) s)"
    unfolding move_rows_Suc using memcpy_row_draws [of "move_rows base n s" base P n]
      assms Suc.prems draws_keeps(5,6) [OF IH] by simp
  from draws_trans [OF IH this] show ?case by (rule draws_cong) simp
qed

lemma fold_row_up:
  assumes "length cs = 2000"
  shows "n \<le> 24 \<Longrightarrow> fold row_up [0..<n] cs = map (\<lambda>i. if i < 80 * n then cs ! (i + 80) else cs ! i) [0..<2000]"
proof (induction n)
  case 0
  then show ?case using assms by (auto intro: nth_equalityI)
next
  case (Suc n)
  then have "fold row_up [0..<Suc n] cs =
      row_up n (map (\<lambda>i. if i < 80 * n then cs ! (i + 80) else cs ! i) [0..<2000])" by simp
  also have "\<dots> = map (\<lambda>i. if i < 80 * Suc n then cs ! (i + 80) else cs ! i) [0..<2000]"
    using Suc.prems by (auto simp: row_up_def)
  finally show ?case .
qed

lemma scroll_cells_draws:
  assumes "linear s base P 4000" and "df_clear s"
  shows "draws P (\<lambda>cs. drop 80 cs @ replicate 80 (BLANK_CHAR, ATTRIB)) s
    (put_cells base 1920 2000 BLANK_CHAR (move_rows base 24 s))"
proof -
  note rows = move_rows_draws [OF assms, of 24, OF order_refl]
  have "draws P (\<lambda>cs. take 1920 cs @ replicate (2000 - 1920) (BLANK_CHAR, ATTRIB) @ drop 2000 cs)
      (move_rows base 24 s) (put_cells base 1920 2000 BLANK_CHAR (move_rows base 24 s))"
    using assms(1) draws_keeps(5) [OF rows] by (intro put_cells_draws) simp_all
  from draws_trans [OF rows this] show ?thesis
  proof (rule draws_cong)
    let ?cs = "screen_cells P (mem s)" and ?f = "\<lambda>cs. fold row_up [0..<24] cs"
    have f: "?f ?cs = map (\<lambda>i. if i < 1920 then ?cs ! (i + 80) else ?cs ! i) [0..<2000]"
      by (simp add: fold_row_up)
    have "take 1920 (?f ?cs) = drop 80 ?cs" unfolding f by (auto intro!: nth_equalityI simp: add.commute)
    moreover have "drop 2000 (?f ?cs) = []" unfolding f by simp
    ultimately show "take 1920 (?f ?cs) @ replicate (2000 - 1920) (BLANK_CHAR, ATTRIB) @ drop 2000 (?f ?cs) =
        drop 80 ?cs @ replicate 80 (BLANK_CHAR, ATTRIB)" by simp
  qed
qed

subsection \<open>The abstract screen\<close>

record tscreen =
  scr_x :: nat
  scr_y :: nat
  cells :: "(u8 \<times> u8) list"

definition scr_ok :: "tscreen \<Rightarrow> bool" where
  "scr_ok v \<longleftrightarrow> scr_x v < 80 \<and> scr_y v < 25 \<and> length (cells v) = 2000"

definition spec_draw :: "u8 \<Rightarrow> tscreen \<Rightarrow> tscreen" where
  "spec_draw c v =
     (if c = 0x0A \<or> c = 0x0D then v\<lparr>scr_x := 0, scr_y := scr_y v + 1\<rparr>
      else if c = 0x08 then
        let (x, y) = (if scr_x v = 0 then (79, scr_y v - 1) else (scr_x v - 1, scr_y v))
        in v\<lparr>scr_x := x, scr_y := y, cells := (cells v)[80 * y + x := (BLANK_CHAR, ATTRIB)]\<rparr>
      else v\<lparr>scr_x := (scr_x v + 1) mod 80, scr_y := (if scr_x v = 79 then scr_y v + 1 else scr_y v),
             cells := (cells v)[80 * scr_y v + scr_x v := (c, ATTRIB)]\<rparr>)"

definition spec_putc :: "u8 \<Rightarrow> tscreen \<Rightarrow> tscreen" where
  "spec_putc c v =
     (let v = spec_draw c v
      in if scr_y v = 25
         then v\<lparr>cells := drop 80 (cells v) @ replicate 80 (BLANK_CHAR, ATTRIB), scr_y := 24\<rparr> else v)"

text \<open>A backspace at the top left corner has nothing to erase.\<close>

definition erasable :: "u8 \<Rightarrow> tscreen \<Rightarrow> bool" where
  "erasable c v \<longleftrightarrow> (c = 0x08 \<longrightarrow> scr_x v \<noteq> 0 \<or> scr_y v \<noteq> 0)"

primrec erasable_all :: "u8 list \<Rightarrow> tscreen \<Rightarrow> bool" where
  "erasable_all [] v = True"
| "erasable_all (c # cs) v \<longleftrightarrow> erasable c v \<and> erasable_all cs (spec_putc c v)"

lemma erasable_all_plain: "0x08 \<notin> set cs \<Longrightarrow> erasable_all cs v"
  by (induction cs arbitrary: v) (auto simp: erasable_def)

lemma spec_putc_ok: "scr_ok v \<Longrightarrow> erasable c v \<Longrightarrow> scr_ok (spec_putc c v)"
  by (auto simp: scr_ok_def erasable_def spec_putc_def spec_draw_def Let_def)

locale text_screen =
  fixes put :: "u8 \<Rightarrow> 's \<Rightarrow> 's"
    and view :: "'s \<Rightarrow> tscreen"
    and inv :: "'s \<Rightarrow> bool"
    and frame :: "'s \<Rightarrow> 's \<Rightarrow> bool"
  assumes put_view: "inv s \<Longrightarrow> erasable c (view s) \<Longrightarrow> view (put c s) = spec_putc c (view s)"
    and put_inv: "inv s \<Longrightarrow> erasable c (view s) \<Longrightarrow> inv (put c s)"
    and put_frame: "inv s \<Longrightarrow> erasable c (view s) \<Longrightarrow> frame s (put c s)"
    and inv_ok: "inv s \<Longrightarrow> scr_ok (view s)"
    and frame_refl: "frame s s"
    and frame_trans: "frame s t \<Longrightarrow> frame t u \<Longrightarrow> frame s u"
begin

text \<open>A whole string: the abstract screen follows, the cursor stays on the screen and nothing but
  the screen changes.\<close>

lemma put_all:
  assumes "inv s" and "erasable_all cs (view s)"
  shows "inv (fold put cs s)" "view (fold put cs s) = fold spec_putc cs (view s)"
    "frame s (fold put cs s)" "scr_ok (fold spec_putc cs (view s))"
proof -
  have "inv (fold put cs s) \<and> view (fold put cs s) = fold spec_putc cs (view s) \<and> frame s (fold put cs s)"
    using assms
  proof (induction cs arbitrary: s)
    case (Cons c cs)
    then have c: "inv s" "erasable c (view s)" by simp_all
    then have "erasable_all cs (view (put c s))" using Cons.prems by (simp add: put_view)
    then show ?case
      using Cons.IH [OF put_inv [OF c]] put_frame [OF c] put_view [OF c] frame_trans by auto
  qed (simp add: frame_refl)
  then show "inv (fold put cs s)" "view (fold put cs s) = fold spec_putc cs (view s)"
    "frame s (fold put cs s)" "scr_ok (fold spec_putc cs (view s))"
    using inv_ok by metis+
qed

end

subsection \<open>What a console operation may change\<close>

definition forget_xy :: "terminal \<Rightarrow> terminal" where
  "forget_xy t = t\<lparr>term_x := 0, term_y := 0\<rparr>"

text \<open>Memory on the screen at \<open>P\<close>, the port history, the coordinates and nothing else.\<close>

definition console_frame :: "u32 \<Rightarrow> kstate \<Rightarrow> kstate \<Rightarrow> bool" where
  "console_frame P s s' \<longleftrightarrow>
     s' = s\<lparr>mem := mem s', io := io s', terminals := terminals s', screen_x := screen_x s',
            screen_y := screen_y s', cursor_x := cursor_x s', cursor_y := cursor_y s'\<rparr>
     \<and> map forget_xy (terminals s') = map forget_xy (terminals s)
     \<and> (\<forall>x. \<not> within x P 4000 \<longrightarrow> mem s' x = mem s x)"

lemma console_frame_refl: "console_frame P s s"
  by (simp add: console_frame_def)

lemma console_frame_fields:
  assumes "console_frame P s s'"
  shows "mmu s' = mmu s" "eflags s' = eflags s" "active_terminal s' = active_terminal s"
    "tasks s' = tasks s" "current_task s' = current_task s" "pcbs s' = pcbs s"
    "global_pid s' = global_pid s" "pid_availability s' = pid_availability s"
    "scheduling_started s' = scheduling_started s" "map forget_xy (terminals s') = map forget_xy (terminals s)"
proof -
  have s': "s' = s\<lparr>mem := mem s', io := io s', terminals := terminals s', screen_x := screen_x s',
      screen_y := screen_y s', cursor_x := cursor_x s', cursor_y := cursor_y s'\<rparr>"
    using assms by (simp add: console_frame_def)
  show "mmu s' = mmu s" "eflags s' = eflags s" "active_terminal s' = active_terminal s"
    "tasks s' = tasks s" "current_task s' = current_task s" "pcbs s' = pcbs s"
    "global_pid s' = global_pid s" "pid_availability s' = pid_availability s"
    "scheduling_started s' = scheduling_started s"
    by (subst s', simp)+
  show "map forget_xy (terminals s') = map forget_xy (terminals s)"
    using assms by (simp add: console_frame_def)
qed

lemma console_frame_trans:
  assumes "console_frame P s t" and "console_frame P t u"
  shows "console_frame P s u"
proof -
  have t: "t = s\<lparr>mem := mem t, io := io t, terminals := terminals t, screen_x := screen_x t,
      screen_y := screen_y t, cursor_x := cursor_x t, cursor_y := cursor_y t\<rparr>"
    and u: "u = t\<lparr>mem := mem u, io := io u, terminals := terminals u, screen_x := screen_x u,
      screen_y := screen_y u, cursor_x := cursor_x u, cursor_y := cursor_y u\<rparr>"
    using assms by (simp_all add: console_frame_def)
  have "u = s\<lparr>mem := mem u, io := io u, terminals := terminals u, screen_x := screen_x u,
      screen_y := screen_y u, cursor_x := cursor_x u, cursor_y := cursor_y u\<rparr>"
    by (subst u, subst t) simp
  then show ?thesis using assms by (simp add: console_frame_def)
qed

lemma forget_xy_nth:
  assumes "map forget_xy ts = map forget_xy us" and "i < length us"
  shows "video_mem (ts ! i) = video_mem (us ! i)" "active (ts ! i) = active (us ! i)"
    "input_buffer (ts ! i) = input_buffer (us ! i)" "buffer_index (ts ! i) = buffer_index (us ! i)"
    "input_status (ts ! i) = input_status (us ! i)"
proof -
  have "length ts = length us" using assms(1) by (metis length_map)
  then have "forget_xy (ts ! i) = forget_xy (us ! i)" using assms by (metis nth_map)
  then show "video_mem (ts ! i) = video_mem (us ! i)" "active (ts ! i) = active (us ! i)"
    "input_buffer (ts ! i) = input_buffer (us ! i)" "buffer_index (ts ! i) = buffer_index (us ! i)"
    "input_status (ts ! i) = input_status (us ! i)"
    unfolding forget_xy_def by (cases "ts ! i"; cases "us ! i"; simp)+
qed

lemma wf_console_frame:
  assumes "wf_kernel s" and "console_frame P s s'"
  shows "wf_kernel s'"
proof -
  note f = console_frame_fields [OF assms(2)]
  have "length (terminals s') = length (terminals s)" using f(10) by (metis length_map)
  then show ?thesis
    using assms(1) forget_xy_nth [OF f(10)] f by (auto simp: wf_kernel_def terminals_ok_def)
qed

lemma draws_console_frame:
  assumes "draws P f s s'"
  shows "console_frame P s s'"
proof -
  have s': "s' = s\<lparr>mem := mem s'\<rparr>" using assms by (simp add: draws_def)
  have "terminals s' = terminals s" "io s' = io s" "screen_x s' = screen_x s" "screen_y s' = screen_y s"
    "cursor_x s' = cursor_x s" "cursor_y s' = cursor_y s" by (subst s', simp)+
  moreover have "\<forall>x. \<not> within x P 4000 \<longrightarrow> mem s' x = mem s x" using assms by (simp add: draws_def)
  ultimately show ?thesis
    unfolding console_frame_def by (intro conjI) (subst s', simp_all)
qed

subsection \<open>Coordinates as machine words\<close>

lemma coord_index: "(80 :: u32) * y + x = of_nat (80 * unat y + unat x)"
  by simp

lemma coord_dec: "(x :: u32) \<noteq> 0 \<Longrightarrow> unat (x - 1) = unat x - 1" "(x :: u32) \<noteq> 0 \<Longrightarrow> NOT (x - 1) \<noteq> 0"
proof -
  assume "x \<noteq> 0"
  then show "unat (x - 1) = unat x - 1" by (simp add: unat_minus_one)
  show "NOT (x - 1) \<noteq> 0"
  proof
    assume "NOT (x - 1) = 0"
    then have "x - 1 = - 1" by (metis bit.double_compl bit.compl_zero)
    then show False using \<open>x \<noteq> 0\<close> by simp
  qed
qed

lemma coord_inc: "unat (x :: u32) < 80 \<Longrightarrow> unat (x + 1) = unat x + 1"
  using unat_offset [of x 1] by simp

lemma coord_mod: "(n :: nat) < 80 \<Longrightarrow> (n + 1) mod 80 = (if n = 79 then 0 else n + 1)"
  by auto

lemma coord_inc_nonzero: "unat (x :: u32) < 80 \<Longrightarrow> x + 1 \<noteq> 0"
  using coord_inc [of x] by (metis add_is_0 one_neq_zero unat_0)

lemma coord_wrap_signed: "unat x < 80 \<Longrightarrow> smod32 (x + 1) NUM_COLS = (if unat x = 79 then 0 else x + 1)"
  using smod32_unat [of "x + 1" 80] coord_inc [of x] coord_mod [of "unat x"] by auto

lemma coord_wrap_unsigned: "unat x < 80 \<Longrightarrow> (x + 1) mod NUM_COLS = (if unat x = 79 then 0 else x + 1)"
  using coord_inc [of x] coord_mod [of "unat x"]
  by (simp add: word_unat_eq_iff unat_mod_distrib)

definition view_of :: "u32 \<Rightarrow> u32 \<Rightarrow> u32 \<Rightarrow> (u32 \<Rightarrow> u8) \<Rightarrow> tscreen" where
  "view_of P x y m = \<lparr>scr_x = unat x, scr_y = unat y, cells = screen_cells P m\<rparr>"

subsection \<open>\<open>putc\<close>\<close>

definition task_view :: "u32 \<Rightarrow> kstate \<Rightarrow> tscreen" where
  "task_view P s = view_of P (screen_x s) (screen_y s) (mem s)"

definition task_screen_ok :: "u32 \<Rightarrow> kstate \<Rightarrow> bool" where
  "task_screen_ok P s \<longleftrightarrow> wf_kernel s \<and> linear s VIDEO P 4000 \<and> df_clear s \<and> scr_ok (task_view P s)"

lemma task_screen_okD:
  assumes "task_screen_ok P s"
  shows "linear s VIDEO P 4000" "df_clear s" "scr_ok (task_view P s)"
  using assms by (simp_all add: task_screen_ok_def)

lemma putc_cell:
  assumes "linear s VIDEO P 4000" and "unat x < 80" and "unat y < 25"
  shows "draws P (\<lambda>cs. cs[80 * unat y + unat x := (c, ATTRIB)]) s (put_cell VIDEO (NUM_COLS * y + x) c s)"
  unfolding coord_index using assms by (intro put_cell_draws) simp_all

lemma draws_fields:
  assumes "draws P f s s'"
  shows "screen_x s' = screen_x s" "screen_y s' = screen_y s" "terminals s' = terminals s"
    "screen_cells P (mem s') = f (screen_cells P (mem s))" "active_terminal s' = active_terminal s"
    "ACTIVE_TERMINAL s' = ACTIVE_TERMINAL s"
proof -
  have s': "s' = s\<lparr>mem := mem s'\<rparr>" using assms by (simp add: draws_def)
  show "screen_x s' = screen_x s" "screen_y s' = screen_y s" "terminals s' = terminals s"
    "active_terminal s' = active_terminal s"
    "ACTIVE_TERMINAL s' = ACTIVE_TERMINAL s" by (subst s', simp add: ACTIVE_TERMINAL_def)+
  show "screen_cells P (mem s') = f (screen_cells P (mem s))" using assms by (simp add: draws_def)
qed

lemma console_frame_xy:
  "console_frame P s s' \<Longrightarrow> console_frame P s (s'\<lparr>screen_x := x, screen_y := y\<rparr>)"
proof -
  assume f: "console_frame P s s'"
  then have "s' = s\<lparr>mem := mem s', io := io s', terminals := terminals s', screen_x := screen_x s',
      screen_y := screen_y s', cursor_x := cursor_x s', cursor_y := cursor_y s'\<rparr>"
    by (simp add: console_frame_def)
  from arg_cong [OF this, of "\<lambda>s. s\<lparr>screen_x := x, screen_y := y\<rparr>"] show ?thesis
    using f by (simp add: console_frame_def)
qed

lemma linear_xy [simp]:
  "linear (s\<lparr>screen_x := x, screen_y := y\<rparr>) a p n = linear s a p n"
  "linear (s\<lparr>screen_x := x\<rparr>) a p n = linear s a p n" "linear (s\<lparr>screen_y := y\<rparr>) a p n = linear s a p n"
  by (simp_all add: linear_def)

lemma putc_draw_erase:
  assumes "linear s VIDEO P 4000" and "unat x < 80" and "unat y < 25"
  defines "s' \<equiv> put_cell VIDEO (NUM_COLS * y + x) BLANK_CHAR (s\<lparr>screen_x := x, screen_y := y\<rparr>)"
  shows "task_view P s' = \<lparr>scr_x = unat x, scr_y = unat y,
      cells = (screen_cells P (mem s))[80 * unat y + unat x := (BLANK_CHAR, ATTRIB)]\<rparr>"
    and "console_frame P s s'"
proof -
  have d: "draws P (\<lambda>cs. cs[80 * unat y + unat x := (BLANK_CHAR, ATTRIB)]) (s\<lparr>screen_x := x, screen_y := y\<rparr>) s'"
    unfolding s'_def using assms by (intro putc_cell) simp_all
  show "task_view P s' = \<lparr>scr_x = unat x, scr_y = unat y,
      cells = (screen_cells P (mem s))[80 * unat y + unat x := (BLANK_CHAR, ATTRIB)]\<rparr>"
    by (simp add: task_view_def view_of_def draws_fields [OF d])
  show "console_frame P s s'"
    by (rule console_frame_trans [OF console_frame_xy [OF console_frame_refl] draws_console_frame [OF d]])
qed

lemma putc_draw_char:
  assumes "linear s VIDEO P 4000" and "unat (screen_x s) < 80" and "unat (screen_y s) < 25"
    and "c \<noteq> 0x0A" "c \<noteq> 0x0D" "c \<noteq> 0x08"
  shows "task_view P (putc_draw c s) = spec_draw c (task_view P s)" and "console_frame P s (putc_draw c s)"
proof -
  define s1 where "s1 = put_cell VIDEO (NUM_COLS * screen_y s + screen_x s) c s"
  have d: "draws P (\<lambda>cs. cs[80 * unat (screen_y s) + unat (screen_x s) := (c, ATTRIB)]) s s1"
    unfolding s1_def using assms by (intro putc_cell) simp_all
  note f = draws_fields [OF d]
  have s': "putc_draw c s = s1\<lparr>screen_x := (if unat (screen_x s) = 79 then 0 else screen_x s + 1),
      screen_y := (if unat (screen_x s) = 79 then screen_y s + 1 else screen_y s)\<rparr>"
    using assms f(1,2) by (simp add: putc_draw_def Let_def s1_def [symmetric] coord_wrap_signed
        coord_inc_nonzero)
  show "task_view P (putc_draw c s) = spec_draw c (task_view P s)"
    unfolding s' using assms f(4)
    by (simp add: task_view_def view_of_def spec_draw_def coord_inc coord_mod [simplified])
  show "console_frame P s (putc_draw c s)"
    unfolding s' by (rule console_frame_xy [OF draws_console_frame [OF d]])
qed

lemma swap_xy: "(s :: kstate)\<lparr>screen_y := y, screen_x := x\<rparr> = s\<lparr>screen_x := x, screen_y := y\<rparr>"
  by (rule kstate.equality) simp_all

lemma putc_draw_refines:
  assumes "linear s VIDEO P 4000" and "scr_ok (task_view P s)" and "erasable c (task_view P s)"
  shows "task_view P (putc_draw c s) = spec_draw c (task_view P s)" and "console_frame P s (putc_draw c s)"
proof -
  have x: "unat (screen_x s) < 80" and y: "unat (screen_y s) < 25"
    using assms(2) by (simp_all add: scr_ok_def task_view_def view_of_def)
  have "task_view P (putc_draw c s) = spec_draw c (task_view P s) \<and> console_frame P s (putc_draw c s)"
  proof -
    consider "c = 0x0A \<or> c = 0x0D" | "c = 0x08" "screen_x s = 0" | "c = 0x08" "screen_x s \<noteq> 0"
      | "c \<noteq> 0x0A" "c \<noteq> 0x0D" "c \<noteq> 0x08" by blast
    then show ?thesis
    proof cases
      case 1
      then have "putc_draw c s = s\<lparr>screen_x := 0, screen_y := screen_y s + 1\<rparr>"
        by (auto simp: putc_draw_def)
      then show ?thesis
        using 1 y console_frame_xy [OF console_frame_refl, where x = 0 and y = "screen_y s + 1" and s = s]
        by (auto simp: task_view_def view_of_def spec_draw_def coord_inc)
    next
      case 2
      then have "screen_y s \<noteq> 0"
        using assms(3) by (auto simp: erasable_def task_view_def view_of_def)
      moreover have "putc_draw c s = put_cell VIDEO (NUM_COLS * (screen_y s - 1) + 79) BLANK_CHAR
          (s\<lparr>screen_x := 79, screen_y := screen_y s - 1\<rparr>)"
        using 2 by (simp add: putc_draw_def Let_def swap_xy)
      ultimately show ?thesis
        using 2 y putc_draw_erase [OF assms(1), of 79 "screen_y s - 1"]
        by (simp add: task_view_def view_of_def spec_draw_def coord_dec)
    next
      case 3
      then have "putc_draw c s = put_cell VIDEO (NUM_COLS * screen_y s + (screen_x s - 1)) BLANK_CHAR
          (s\<lparr>screen_x := screen_x s - 1, screen_y := screen_y s\<rparr>)"
        by (simp add: putc_draw_def Let_def coord_dec)
      then show ?thesis
        using 3 x y putc_draw_erase [OF assms(1), of "screen_x s - 1" "screen_y s"]
        by (simp add: task_view_def view_of_def spec_draw_def coord_dec unat_eq_0)
    next
      case 4
      then show ?thesis using putc_draw_char [OF assms(1) x y] by simp
    qed
  qed
  then show "task_view P (putc_draw c s) = spec_draw c (task_view P s)" "console_frame P s (putc_draw c s)"
    by simp_all
qed

lemma console_frame_cursor:
  "console_frame P s (cursor_outb pos (s\<lparr>cursor_x := a, cursor_y := b\<rparr>))"
  unfolding console_frame_def by (simp add: cursor_outb_def outb_def Let_def)

lemma console_frame_coords:
  "console_frame P s (upd_terminal i (\<lambda>t. t\<lparr>term_x := a, term_y := b\<rparr>) s)"
proof -
  have "map forget_xy ((terminals s)[i := (terminals s ! i)\<lparr>term_x := a, term_y := b\<rparr>]) = map forget_xy (terminals s)"
  proof (cases "i < length (terminals s)")
    case True
    then show ?thesis
      by (intro nth_equalityI) (auto simp: nth_updated forget_xy_def)
  qed (simp add: list_update_beyond)
  then show ?thesis by (simp add: console_frame_def upd_terminal_def)
qed

lemma cursor_outb_fields [simp]:
  "mem (cursor_outb pos s) = mem s" "machine.more (cursor_outb pos s) = machine.more s"
  "mmu (cursor_outb pos s) = mmu s" "eflags (cursor_outb pos s) = eflags s"
  by (simp_all add: cursor_outb_def Let_def)

lemma cursor_outb_kfields [simp]:
  "screen_x (cursor_outb pos s) = screen_x s" "screen_y (cursor_outb pos s) = screen_y s"
  "terminals (cursor_outb pos s) = terminals s" "active_terminal (cursor_outb pos s) = active_terminal s"
  "tasks (cursor_outb pos s) = tasks s" "current_task (cursor_outb pos s) = current_task s"
  "scheduling_started (cursor_outb pos s) = scheduling_started s"
  by (simp_all add: cursor_outb_def outb_def Let_def)

lemma update_cursor_frame:
  "console_frame P s (update_cursor s)" "task_view P (update_cursor s) = task_view P s"
  "screen_x (update_cursor s) = screen_x s" "screen_y (update_cursor s) = screen_y s"
  using console_frame_cursor by (simp_all add: update_cursor_def Let_def task_view_def)

lemma scroll_display_refines:
  assumes "linear s VIDEO P 4000" and "df_clear s" and "screen_y s \<noteq> 0"
  shows "task_view P (scroll_display s) = (task_view P s)\<lparr>
      cells := drop 80 (cells (task_view P s)) @ replicate 80 (BLANK_CHAR, ATTRIB),
      scr_y := scr_y (task_view P s) - 1\<rparr>"
    and "console_frame P s (scroll_display s)"
proof -
  define s1 where "s1 = put_cells VIDEO 1920 2000 BLANK_CHAR (move_rows VIDEO 24 s)"
  note d = scroll_cells_draws [OF assms(1,2), folded s1_def]
  have s': "scroll_display s = s1\<lparr>screen_x := screen_x s1, screen_y := screen_y s - 1\<rparr>"
    by (simp add: scroll_display_def Let_def s1_def [symmetric] draws_fields(2) [OF d])
  show "console_frame P s (scroll_display s)"
    unfolding s' by (rule console_frame_xy [OF draws_console_frame [OF d]])
  show "task_view P (scroll_display s) = (task_view P s)\<lparr>
      cells := drop 80 (cells (task_view P s)) @ replicate 80 (BLANK_CHAR, ATTRIB),
      scr_y := scr_y (task_view P s) - 1\<rparr>"
    unfolding s' using assms(3) draws_fields [OF d] by (simp add: task_view_def view_of_def coord_dec)
qed

lemma console_frame_linear:
  "console_frame P s s' \<Longrightarrow> linear s' a p n = linear s a p n" "console_frame P s s' \<Longrightarrow> df_clear s' = df_clear s"
  by (simp_all add: linear_def df_clear_def console_frame_fields)

text \<open>The part of \<open>putc\<close> that draws and scrolls, and the part that records the coordinates.\<close>

definition putc_screen :: "u8 \<Rightarrow> kstate \<Rightarrow> kstate" where
  "putc_screen c s = (let s = putc_draw c s in if screen_y s = NUM_ROWS then scroll_display s else s)"

lemma putc_screen_refines:
  assumes lin: "linear s VIDEO P 4000" "df_clear s" "scr_ok (task_view P s)" and "erasable c (task_view P s)"
  shows "task_view P (putc_screen c s) = spec_putc c (task_view P s)" and "console_frame P s (putc_screen c s)"
proof -
  let ?s = "putc_draw c s"
  note d = putc_draw_refines [OF lin(1,3) assms(4)]
  have y: "screen_y ?s = NUM_ROWS \<longleftrightarrow> scr_y (task_view P ?s) = 25"
    by (simp add: task_view_def view_of_def word_unat_eq_iff)
  have "linear ?s VIDEO P 4000" "df_clear ?s" using lin console_frame_linear [OF d(2)] by simp_all
  note sc = scroll_display_refines [OF this]
  show "task_view P (putc_screen c s) = spec_putc c (task_view P s)"
    using sc(1) y d(1) by (auto simp: putc_screen_def spec_putc_def Let_def)
  show "console_frame P s (putc_screen c s)"
    using sc(2) console_frame_trans [OF d(2)] d(2) by (auto simp: putc_screen_def Let_def)
qed

definition putc_record :: "kstate \<Rightarrow> kstate" where
  "putc_record s =
     (if scheduling_started s \<noteq> 0 then
        let s = (if active (task_term s) \<noteq> 0 then update_cursor s else s)
        in upd_terminal (task_terminal (CURRENT_TASK s)) (\<lambda>t. t\<lparr>term_x := screen_x s, term_y := screen_y s\<rparr>) s
      else s)"

lemma putc_split: "putc c s = putc_record (putc_screen c s)"
  by (simp add: putc_def putc_record_def putc_screen_def Let_def)

lemma putc_record_frame: "console_frame P s (putc_record s)" "task_view P (putc_record s) = task_view P s"
proof -
  have cf: "console_frame P t (upd_terminal i (\<lambda>r. r\<lparr>term_x := screen_x t, term_y := screen_y t\<rparr>) t)" for t i
    by (rule console_frame_coords)
  show "console_frame P s (putc_record s)"
    using cf console_frame_trans [OF update_cursor_frame(1) cf] by (simp add: putc_record_def Let_def console_frame_refl)
  show "task_view P (putc_record s) = task_view P s"
    using update_cursor_frame(2) by (simp add: putc_record_def Let_def task_view_def)
qed

lemma putc_refines:
  assumes "task_screen_ok P s" and "erasable c (task_view P s)"
  shows "task_view P (putc c s) = spec_putc c (task_view P s)" and "task_screen_ok P (putc c s)"
    and "console_frame P s (putc c s)"
proof -
  note d = putc_screen_refines [OF task_screen_okD [OF assms(1)] assms(2)]
  show v: "task_view P (putc c s) = spec_putc c (task_view P s)"
    by (simp add: putc_split putc_record_frame d(1))
  show f: "console_frame P s (putc c s)"
    unfolding putc_split by (rule console_frame_trans [OF d(2) putc_record_frame(1)])
  show "task_screen_ok P (putc c s)"
    using assms wf_console_frame [OF _ f] console_frame_linear [OF f] spec_putc_ok v
    by (simp add: task_screen_ok_def)
qed

interpretation task_console: text_screen putc "task_view P" "task_screen_ok P" "console_frame P" for P
proof (unfold_locales, goal_cases)
  case (4 s) then show ?case by (simp add: task_screen_ok_def)
qed (blast intro: putc_refines console_frame_refl console_frame_trans)+

text \<open>Before the scheduler has started \<open>putc\<close> only draws: the console works before there are tasks.\<close>

definition boot_screen_ok :: "u32 \<Rightarrow> kstate \<Rightarrow> bool" where
  "boot_screen_ok P s \<longleftrightarrow> linear s VIDEO P 4000 \<and> df_clear s \<and> scr_ok (task_view P s) \<and> scheduling_started s = 0"

lemma putc_boot:
  assumes "boot_screen_ok P s" and "erasable c (task_view P s)"
  shows "task_view P (putc c s) = spec_putc c (task_view P s)" and "boot_screen_ok P (putc c s)"
    and "console_frame P s (putc c s)"
proof -
  have ok: "linear s VIDEO P 4000" "df_clear s" "scr_ok (task_view P s)" "scheduling_started s = 0"
    using assms(1) by (simp_all add: boot_screen_ok_def)
  note d = putc_screen_refines [OF ok(1-3) assms(2)]
  have st: "scheduling_started (putc_screen c s) = 0" using console_frame_fields(9) [OF d(2)] ok(4) by simp
  then have e: "putc c s = putc_screen c s" by (simp add: putc_split putc_record_def)
  show "task_view P (putc c s) = spec_putc c (task_view P s)" "console_frame P s (putc c s)"
    using d by (simp_all add: e)
  show "boot_screen_ok P (putc c s)"
    unfolding boot_screen_ok_def e using st ok console_frame_linear [OF d(2)] spec_putc_ok [OF ok(3) assms(2)] d(1) by simp
qed

interpretation boot_console: text_screen putc "task_view P" "boot_screen_ok P" "console_frame P" for P
proof (unfold_locales, goal_cases)
  case (4 s) then show ?case by (simp add: boot_screen_ok_def)
qed (blast intro: putc_boot console_frame_refl console_frame_trans)+

end
