(* ===== verification/Active_Screen.thy ===== *)
theory Active_Screen
  imports Screen
begin

text \<open>
  The twin of \<open>putc\<close> that echoes keys on the active terminal: \<open>putc_active\<close> of
  \<^verbatim>\<open>lib.c\<close> implements the same abstract screen, at the page and the coordinates of the
  active terminal. The theory ends with the properties of the console: the two refinements, the
  coordinates every terminal keeps, \<open>puts\<close>, \<open>printf\<close> and the hardware cursor.
\<close>

subsection \<open>\<open>putc_active\<close>\<close>

definition active_view :: "u32 \<Rightarrow> kstate \<Rightarrow> tscreen" where
  "active_view P s = view_of P (term_x (ACTIVE_TERMINAL s)) (term_y (ACTIVE_TERMINAL s)) (mem s)"

definition active_screen_ok :: "u32 \<Rightarrow> kstate \<Rightarrow> bool" where
  "active_screen_ok P s \<longleftrightarrow> wf_kernel s \<and> linear s (video_mem (ACTIVE_TERMINAL s)) P 4000 \<and> df_clear s
     \<and> scr_ok (active_view P s)"

definition set_active_xy :: "u32 \<Rightarrow> u32 \<Rightarrow> kstate \<Rightarrow> kstate" where
  "set_active_xy x y s = upd_active (\<lambda>t. t\<lparr>term_x := x, term_y := y\<rparr>) s"

lemma ACTIVE_TERMINAL_upd:
  "wf_kernel s \<Longrightarrow> ACTIVE_TERMINAL (upd_active f s) = f (ACTIVE_TERMINAL s)"
  by (simp add: ACTIVE_TERMINAL_def upd_active_def wf_kernelD)

lemma set_active_xy_fields [simp]:
  "mem (set_active_xy x y s) = mem s" "mmu (set_active_xy x y s) = mmu s"
  "active_terminal (set_active_xy x y s) = active_terminal s"
  "linear (set_active_xy x y s) a p n = linear s a p n"
  by (simp_all add: set_active_xy_def upd_active_def linear_def)

lemma set_active_xy_terminal:
  "wf_kernel s \<Longrightarrow> ACTIVE_TERMINAL (set_active_xy x y s) = (ACTIVE_TERMINAL s)\<lparr>term_x := x, term_y := y\<rparr>"
  by (simp add: set_active_xy_def ACTIVE_TERMINAL_upd)

lemma set_active_xy_frame: "console_frame P s (set_active_xy x y s)"
  unfolding set_active_xy_def upd_active_def by (rule console_frame_coords)

lemma swap_term_xy: "(t :: terminal)\<lparr>term_y := y, term_x := x\<rparr> = t\<lparr>term_x := x, term_y := y\<rparr>"
  by (rule terminal.equality) simp_all

lemma upd_active_xy:
  "wf_kernel s \<Longrightarrow> upd_active (\<lambda>t. t\<lparr>term_y := g t, term_x := h t\<rparr>) s =
     set_active_xy (h (ACTIVE_TERMINAL s)) (g (ACTIVE_TERMINAL s)) s"
  "wf_kernel s \<Longrightarrow> upd_active (\<lambda>t. t\<lparr>term_x := h t\<rparr>) s =
     set_active_xy (h (ACTIVE_TERMINAL s)) (term_y (ACTIVE_TERMINAL s)) s"
  "wf_kernel s \<Longrightarrow> upd_active (\<lambda>t. t\<lparr>term_y := g t\<rparr>) s =
     set_active_xy (term_x (ACTIVE_TERMINAL s)) (g (ACTIVE_TERMINAL s)) s"
  by (simp_all add: set_active_xy_def upd_active_def upd_terminal_def ACTIVE_TERMINAL_def swap_term_xy)

lemma set_active_xy_twice:
  "wf_kernel s \<Longrightarrow> set_active_xy x y (set_active_xy x' y' s) = set_active_xy x y s"
  by (simp add: set_active_xy_def upd_active_def upd_terminal_def wf_kernelD)

lemma wf_set_active_xy: "wf_kernel s \<Longrightarrow> wf_kernel (set_active_xy x y s)"
  by (rule wf_console_frame [OF _ set_active_xy_frame])

lemma active_cell:
  assumes "linear s base P 4000" and "unat x < 80" and "unat y < 25"
  shows "draws P (\<lambda>cs. cs[80 * unat y + unat x := (c, ATTRIB)]) s (put_cell base (NUM_COLS * y + x) c s)"
  unfolding coord_index using assms by (intro put_cell_draws) simp_all

text \<open>Moving the cursor of the active terminal and drawing there, in either order.\<close>

lemma active_erase:
  assumes "wf_kernel s" and "linear s (video_mem (ACTIVE_TERMINAL s)) P 4000" and "unat x < 80" and "unat y < 25"
  defines "s' \<equiv> put_cell (video_mem (ACTIVE_TERMINAL s)) (NUM_COLS * y + x) BLANK_CHAR (set_active_xy x y s)"
  shows "active_view P s' = \<lparr>scr_x = unat x, scr_y = unat y,
      cells = (screen_cells P (mem s))[80 * unat y + unat x := (BLANK_CHAR, ATTRIB)]\<rparr>"
    and "console_frame P s s'"
proof -
  have d: "draws P (\<lambda>cs. cs[80 * unat y + unat x := (BLANK_CHAR, ATTRIB)]) (set_active_xy x y s) s'"
    unfolding s'_def using assms by (intro active_cell) simp_all
  show "active_view P s' = \<lparr>scr_x = unat x, scr_y = unat y,
      cells = (screen_cells P (mem s))[80 * unat y + unat x := (BLANK_CHAR, ATTRIB)]\<rparr>"
    using assms(1) by (simp add: active_view_def view_of_def draws_fields [OF d] set_active_xy_terminal)
  show "console_frame P s s'"
    by (rule console_frame_trans [OF set_active_xy_frame draws_console_frame [OF d]])
qed

lemma active_char:
  assumes "wf_kernel s" and "linear s (video_mem (ACTIVE_TERMINAL s)) P 4000"
    and "unat (term_x (ACTIVE_TERMINAL s)) < 80" and "unat (term_y (ACTIVE_TERMINAL s)) < 25"
    and "c \<noteq> 0x0A" "c \<noteq> 0x0D" "c \<noteq> 0x08"
  shows "active_view P (putc_active_draw c s) = spec_draw c (active_view P s)"
    and "console_frame P s (putc_active_draw c s)"
proof -
  let ?t = "ACTIVE_TERMINAL s"
  define s1 where "s1 = put_cell (video_mem ?t) (NUM_COLS * term_y ?t + term_x ?t) c s"
  have d: "draws P (\<lambda>cs. cs[80 * unat (term_y ?t) + unat (term_x ?t) := (c, ATTRIB)]) s s1"
    unfolding s1_def using assms by (intro active_cell) simp_all
  note f = draws_fields [OF d]
  have wf1: "wf_kernel s1" by (rule wf_console_frame [OF assms(1) draws_console_frame [OF d]])
  have s': "putc_active_draw c s = set_active_xy (if unat (term_x ?t) = 79 then 0 else term_x ?t + 1)
      (if unat (term_x ?t) = 79 then term_y ?t + 1 else term_y ?t) s1"
    using assms f(6) wf1 by (simp add: putc_active_draw_def Let_def s1_def [symmetric] upd_active_xy
        coord_wrap_unsigned coord_inc_nonzero set_active_xy_terminal set_active_xy_twice wf_set_active_xy)
  show "active_view P (putc_active_draw c s) = spec_draw c (active_view P s)"
    unfolding s' using assms f(4) wf1
    by (simp add: active_view_def view_of_def spec_draw_def coord_inc coord_mod [simplified]
        set_active_xy_terminal)
  show "console_frame P s (putc_active_draw c s)"
    unfolding s' by (rule console_frame_trans [OF draws_console_frame [OF d] set_active_xy_frame])
qed

lemma active_draw_refines:
  assumes "wf_kernel s" and "linear s (video_mem (ACTIVE_TERMINAL s)) P 4000"
    and "scr_ok (active_view P s)" and "erasable c (active_view P s)"
  shows "active_view P (putc_active_draw c s) = spec_draw c (active_view P s)
    \<and> console_frame P s (putc_active_draw c s)"
proof -
  let ?t = "ACTIVE_TERMINAL s"
  have x: "unat (term_x ?t) < 80" and y: "unat (term_y ?t) < 25"
    using assms(3) by (simp_all add: scr_ok_def active_view_def view_of_def)
  consider "c = 0x0A \<or> c = 0x0D" | "c = 0x08" "term_x ?t = 0" | "c = 0x08" "term_x ?t \<noteq> 0"
    | "c \<noteq> 0x0A" "c \<noteq> 0x0D" "c \<noteq> 0x08" by blast
  then show ?thesis
  proof cases
    case 1
    then have "putc_active_draw c s = set_active_xy 0 (term_y ?t + 1) s"
      using assms(1) by (auto simp: putc_active_draw_def upd_active_xy)
    then show ?thesis
      using 1 y assms(1) set_active_xy_frame
      by (auto simp: active_view_def view_of_def spec_draw_def coord_inc set_active_xy_terminal)
  next
    case 2
    then have "term_y ?t \<noteq> 0"
      using assms(4) by (auto simp: erasable_def active_view_def view_of_def)
    moreover have "putc_active_draw c s = put_cell (video_mem ?t) (NUM_COLS * (term_y ?t - 1) + 79) BLANK_CHAR
        (set_active_xy 79 (term_y ?t - 1) s)"
      using 2 assms(1) by (simp add: putc_active_draw_def Let_def upd_active_xy set_active_xy_terminal
          set_active_xy_twice wf_set_active_xy)
    ultimately show ?thesis
      using 2 y active_erase [OF assms(1,2), of 79 "term_y ?t - 1"]
      by (simp add: active_view_def view_of_def spec_draw_def coord_dec)
  next
    case 3
    then have "putc_active_draw c s = put_cell (video_mem ?t) (NUM_COLS * term_y ?t + (term_x ?t - 1)) BLANK_CHAR
        (set_active_xy (term_x ?t - 1) (term_y ?t) s)"
      using assms(1) by (simp add: putc_active_draw_def Let_def upd_active_xy set_active_xy_terminal coord_dec)
    then show ?thesis
      using 3 x y active_erase [OF assms(1,2), of "term_x ?t - 1" "term_y ?t"]
      by (simp add: active_view_def view_of_def spec_draw_def coord_dec unat_eq_0)
  next
    case 4
    then show ?thesis using active_char [OF assms(1,2) x y] by simp
  qed
qed

lemma scroll_active_refines:
  assumes "wf_kernel s" and "linear s (video_mem (ACTIVE_TERMINAL s)) P 4000" and "df_clear s"
    and "term_y (ACTIVE_TERMINAL s) \<noteq> 0"
  shows "active_view P (scroll_display_active s) = (active_view P s)\<lparr>
      cells := drop 80 (cells (active_view P s)) @ replicate 80 (BLANK_CHAR, ATTRIB),
      scr_y := scr_y (active_view P s) - 1\<rparr>"
    and "console_frame P s (scroll_display_active s)"
proof -
  let ?b = "video_mem (ACTIVE_TERMINAL s)"
  define s1 where "s1 = put_cells ?b 1920 2000 BLANK_CHAR (move_rows ?b 24 s)"
  note d = scroll_cells_draws [OF assms(2,3), folded s1_def]
  have m: "draws P (fold row_up [0..<24]) s (move_rows ?b 24 s)"
    by (rule move_rows_draws [OF assms(2,3)]) simp
  have wf1: "wf_kernel s1" by (rule wf_console_frame [OF assms(1) draws_console_frame [OF d]])
  have s': "scroll_display_active s = set_active_xy (term_x (ACTIVE_TERMINAL s)) (term_y (ACTIVE_TERMINAL s) - 1) s1"
    using wf1 draws_fields(6) [OF m] draws_fields(6) [OF d]
    by (simp add: scroll_display_active_def Let_def s1_def [symmetric] upd_active_xy)
  show "console_frame P s (scroll_display_active s)"
    unfolding s' by (rule console_frame_trans [OF draws_console_frame [OF d] set_active_xy_frame])
  show "active_view P (scroll_display_active s) = (active_view P s)\<lparr>
      cells := drop 80 (cells (active_view P s)) @ replicate 80 (BLANK_CHAR, ATTRIB),
      scr_y := scr_y (active_view P s) - 1\<rparr>"
    unfolding s' using assms(4) wf1 draws_fields [OF d]
    by (simp add: active_view_def view_of_def coord_dec set_active_xy_terminal)
qed

lemma update_cursor_active_frame:
  "console_frame P s (update_cursor_active s)" "ACTIVE_TERMINAL (update_cursor_active s) = ACTIVE_TERMINAL s"
  "mem (update_cursor_active s) = mem s"
proof -
  let ?s = "cursor_outb (ucast (term_y (ACTIVE_TERMINAL s) * NUM_COLS + term_x (ACTIVE_TERMINAL s)))
    (s\<lparr>cursor_x := term_x (ACTIVE_TERMINAL s), cursor_y := term_y (ACTIVE_TERMINAL s)\<rparr>)"
  have f: "console_frame P s ?s" by (rule console_frame_cursor)
  show "console_frame P s (update_cursor_active s)"
    using f console_frame_xy [OF f] by (simp add: update_cursor_active_def Let_def)
  show "ACTIVE_TERMINAL (update_cursor_active s) = ACTIVE_TERMINAL s" "mem (update_cursor_active s) = mem s"
    by (simp_all add: update_cursor_active_def Let_def ACTIVE_TERMINAL_def)
qed

lemma video_mem_frame:
  assumes "wf_kernel s" and "console_frame P s s'"
  shows "video_mem (ACTIVE_TERMINAL s') = video_mem (ACTIVE_TERMINAL s)"
  using forget_xy_nth(1) [OF console_frame_fields(10) [OF assms(2)]] assms(1)
  by (simp add: ACTIVE_TERMINAL_def console_frame_fields(3) [OF assms(2)] wf_kernelD)

lemma putc_active_refines:
  assumes "active_screen_ok P s" and "erasable c (active_view P s)"
  shows "active_view P (putc_active c s) = spec_putc c (active_view P s)"
    and "active_screen_ok P (putc_active c s)" and "console_frame P s (putc_active c s)"
proof -
  let ?d = "putc_active_draw c s"
  let ?t = "if term_y (ACTIVE_TERMINAL ?d) = NUM_ROWS then scroll_display_active ?d else ?d"
  have pre: "wf_kernel s" "linear s (video_mem (ACTIVE_TERMINAL s)) P 4000" "df_clear s" "scr_ok (active_view P s)"
    using assms(1) by (simp_all add: active_screen_ok_def)
  have d: "active_view P ?d = spec_draw c (active_view P s)" "console_frame P s ?d"
    using active_draw_refines [OF pre(1,2,4) assms(2)] by simp_all
  have y: "term_y (ACTIVE_TERMINAL ?d) = NUM_ROWS \<longleftrightarrow> scr_y (active_view P ?d) = 25"
    by (simp add: active_view_def view_of_def word_unat_eq_iff)
  have "wf_kernel ?d" "linear ?d (video_mem (ACTIVE_TERMINAL ?d)) P 4000" "df_clear ?d"
    using pre wf_console_frame [OF pre(1) d(2)] console_frame_linear [OF d(2)] video_mem_frame [OF pre(1) d(2)]
    by simp_all
  note sc = scroll_active_refines [OF this]
  have t: "active_view P ?t = spec_putc c (active_view P s)" "console_frame P s ?t"
    using sc y d(1) console_frame_trans [OF d(2)] d(2) by (auto simp: spec_putc_def Let_def)
  have p: "putc_active c s = update_cursor_active ?t" by (simp add: putc_active_def Let_def)
  show v: "active_view P (putc_active c s) = spec_putc c (active_view P s)"
    using t(1) by (simp only: p active_view_def update_cursor_active_frame)
  show f: "console_frame P s (putc_active c s)"
    unfolding p by (rule console_frame_trans [OF t(2) update_cursor_active_frame(1)])
  show "active_screen_ok P (putc_active c s)"
    using pre wf_console_frame [OF pre(1) f] console_frame_linear [OF f] video_mem_frame [OF pre(1) f]
      spec_putc_ok [OF pre(4) assms(2)] by (simp add: active_screen_ok_def v)
qed

interpretation active_console: text_screen putc_active "active_view P" "active_screen_ok P" "console_frame P" for P
proof (unfold_locales, goal_cases)
  case (4 s) then show ?case by (simp add: active_screen_ok_def)
qed (blast intro: putc_active_refines console_frame_refl console_frame_trans)+

end
