(* ===== verification/Printing.thy ===== *)
theory Printing
  imports Active_Screen
begin

text \<open>
  What the console prints: \<open>puts\<close> and \<open>printf\<close> of \<^verbatim>\<open>lib.c\<close> against a rendering of
  the format as a list of characters, and the properties of the console operations.
\<close>

subsection \<open>\<open>puts\<close> and the number formats\<close>

lemma puts_loop_nul:
  assumes "0 \<notin> set xs" and "k \<le> length xs"
  shows "puts_loop (pre @ xs @ 0 # post) (length pre) k s = Some (length xs, fold putc (drop k xs) s)"
  using assms(2)
proof (induction "length xs - k" arbitrary: k s)
  case 0
  then show ?case by (simp add: puts_loop.simps nth_append)
next
  case (Suc n)
  then have k: "k < length xs" by linarith
  then have "xs ! k \<noteq> 0" using assms(1) by (metis nth_mem)
  moreover have "drop k xs = xs ! k # drop (Suc k) xs" using k by (simp add: Cons_nth_drop_Suc)
  ultimately show ?case
    using k Suc.hyps(1) [of "k + 1"] Suc.hyps(2)
    by (subst puts_loop.simps) (simp add: nth_append)
qed

lemma puts_nul: "0 \<notin> set xs \<Longrightarrow> puts (pre @ xs @ 0 # post) (length pre) s = Some (length xs, fold putc xs s)"
  using puts_loop_nul [of xs 0 pre post s] by (simp add: puts_def)

definition numeral_chars :: "nat \<Rightarrow> nat \<Rightarrow> u8 list" where
  "numeral_chars r v = (if v = 0 then [0x30] else map digit_char (rev (digits_rev r v)))"

lemma numeral_chars_nonzero: "2 \<le> r \<Longrightarrow> r \<le> 36 \<Longrightarrow> 0 \<notin> set (numeral_chars r v)"
proof -
  assume r: "2 \<le> r" "r \<le> 36"
  have "digit_char d \<noteq> 0" if "d \<in> set (digits_rev r v)" for d
    using digits_rev_less [OF r(1) that] r(2) by (intro digit_char_nonzero) simp
  then show ?thesis by (simp add: numeral_chars_def image_iff)
qed

lemma length_numeral_hex: "length (numeral_chars 16 (unat (v :: u32))) \<le> 8"
proof -
  have "unat v < 16 ^ 8" using unat_u32_bound [of v] by simp
  then show ?thesis using length_digits_rev [of 16 "unat v" 8] by (simp add: numeral_chars_def)
qed

lemma itoa_numeral:
  assumes "2 \<le> unat r" and "unat r \<le> 36" and "p + 32 < length buf"
  shows "\<exists>post. itoa v buf p r = Some (take p buf @ numeral_chars (unat r) (unat v) @ 0 # post)
    \<and> length post + length (numeral_chars (unat r) (unat v)) + 1 + p = length buf"
proof (cases "v = 0")
  case True
  have "buf[p := 0x30, p + 1 := 0] = take p buf @ 0x30 # 0 # drop (p + 2) buf"
    using assms(3) by (simp add: upd_conv_take_nth_drop take_update_swap)
  then show ?thesis using True assms(3) by (auto simp: itoa_def numeral_chars_def)
next
  case False
  let ?ds = "digits_rev (unat r) (unat v)"
  have len: "p + length ?ds < length buf"
    using length_digits_u32 [OF assms(1), of v] assms(3) by linarith
  moreover have "unat v \<noteq> 0" using False by (simp add: unat_eq_0)
  ultimately show ?thesis
    using itoa_digits [OF assms(1,2) False len] by (auto simp: numeral_chars_def)
qed

lemma print_unsigned_numeral:
  "print_unsigned junk v s = Some (fold putc (numeral_chars 10 (unat v)) s)"
proof -
  obtain post where "itoa v (replicate 36 junk) 0 10 = Some ([] @ numeral_chars 10 (unat v) @ 0 # post)"
    using itoa_numeral [of 10 0 "replicate 36 junk" v] by auto
  then show ?thesis
    using puts_nul [OF numeral_chars_nonzero, of 10 "[]" "unat v" post s]
    by (simp add: print_unsigned_def)
qed

lemma print_signed_numeral:
  "print_signed junk v s = Some (fold putc (if slt v 0 then 0x2D # numeral_chars 10 (unat (- v))
     else numeral_chars 10 (unat v)) s)"
proof (cases "slt v 0")
  case True
  let ?buf = "(replicate 36 junk)[0 := 0x2D]"
  obtain post where "itoa (- v) ?buf 1 10 = Some (take 1 ?buf @ numeral_chars 10 (unat (- v)) @ 0 # post)"
    using itoa_numeral [of 10 1 ?buf "- v"] by auto
  moreover have "take 1 ?buf = [0x2D]" by (simp add: numeral_eq_Suc)
  ultimately show ?thesis
    using True puts_nul [of "0x2D # numeral_chars 10 (unat (- v))" "[]" post s]
      numeral_chars_nonzero [of 10 "unat (- v)"] by (simp add: print_signed_def)
qed (simp add: print_signed_def print_unsigned_numeral)

lemma pad_loop_zeros:
  assumes "length buf = 8" and "k \<le> 8"
  shows "pad_loop (buf @ rest) k = Some (take k buf @ replicate (8 - k) 0x30 @ rest)"
  using assms
proof (induction "8 - k" arbitrary: k buf)
  case 0
  then show ?case by (simp add: pad_loop.simps)
next
  case (Suc n)
  then have k: "k < 8" by linarith
  have "pad_loop (buf @ rest) k = pad_loop (buf[k := 0x30] @ rest) (k + 1)"
    using k Suc.prems by (subst pad_loop.simps) (simp add: list_update_append)
  also have "\<dots> = Some (take (k + 1) (buf[k := 0x30]) @ replicate (8 - (k + 1)) 0x30 @ rest)"
    using Suc.hyps(1) [of "k + 1" "buf[k := 0x30]"] Suc.hyps(2) Suc.prems k by simp
  also have "take (k + 1) (buf[k := 0x30]) = take k buf @ [0x30]"
    using k Suc.prems by (simp add: take_Suc_conv_app_nth)
  also have "replicate (8 - k) (0x30 :: u8) = 0x30 # replicate (8 - (k + 1)) 0x30"
    using k by (metis Suc_diff_Suc Suc_eq_plus1 replicate_Suc)
  ultimately show ?case by simp
qed

lemma print_hex_numeral:
  "print_hex junk alternate v s = Some (fold putc
     (if alternate then replicate (8 - length (numeral_chars 16 (unat v))) 0x30 @ numeral_chars 16 (unat v)
      else numeral_chars 16 (unat v)) s)"
proof (cases alternate)
  case False
  obtain post where "itoa v (replicate 64 junk) 0 16 = Some ([] @ numeral_chars 16 (unat v) @ 0 # post)"
    using itoa_numeral [of 16 0 "replicate 64 junk" v] by auto
  then show ?thesis
    using False puts_nul [OF numeral_chars_nonzero, of 16 "[]" "unat v" post s] by (simp add: print_hex_def)
next
  case True
  let ?ds = "numeral_chars 16 (unat v)"
  let ?k = "length ?ds"
  obtain post where i: "itoa v (replicate 64 junk) 8 16 = Some (replicate 8 junk @ ?ds @ 0 # post)"
    using itoa_numeral [of 16 8 "replicate 64 junk" v] by auto
  have nz: "0 \<notin> set ?ds" by (rule numeral_chars_nonzero) simp_all
  have k: "?k \<le> 8" by (rule length_numeral_hex)
  have "strlen (replicate 8 junk @ ?ds @ 0 # post) 8 = Some ?k"
    using strlen_nul [OF nz, of "replicate 8 junk" post] by simp
  moreover have "pad_loop (replicate 8 junk @ ?ds @ 0 # post) ?k =
      Some (replicate ?k junk @ (replicate (8 - ?k) 0x30 @ ?ds) @ 0 # post)"
    using pad_loop_zeros [OF _ k, of "replicate 8 junk"] k by simp
  moreover have "0 \<notin> set (replicate (8 - ?k) 0x30 @ ?ds)" using nz by auto
  ultimately show ?thesis
    using True i puts_nul [of "replicate (8 - ?k) 0x30 @ ?ds" "replicate ?k junk" post s]
    by (simp add: print_hex_def)
qed

subsection \<open>\<open>printf\<close> against a rendering of the format\<close>

text \<open>The characters a format without its NUL stands for; no rendering when a directive lacks its
  argument or the format ends inside a directive.\<close>

definition flag_chars :: "bool \<Rightarrow> nat \<Rightarrow> u8 list" where
  "flag_chars alternate v =
     (if alternate then replicate (8 - length (numeral_chars 16 v)) 0x30 @ numeral_chars 16 v
      else numeral_chars 16 v)"

fun render :: "u8 list \<Rightarrow> vararg list \<Rightarrow> u8 list option"
  and render_conv :: "bool \<Rightarrow> u8 list \<Rightarrow> vararg list \<Rightarrow> u8 list option" where
  "render [] as = Some []"
| "render (c # fmt) as =
     (if c = 0x25 then render_conv False fmt as else map_option ((#) c) (render fmt as))"
| "render_conv alternate [] as = None"
| "render_conv alternate (c # fmt) as =
     (if c = 0x25 then map_option ((#) 0x25) (render fmt as)
      else if c = 0x23 then render_conv True fmt as
      else if c = 0x78 then
        do { (v, as) \<leftarrow> int_arg as; cs \<leftarrow> render fmt as; Some (flag_chars alternate (unat v) @ cs) }
      else if c = 0x75 then
        do { (v, as) \<leftarrow> int_arg as; cs \<leftarrow> render fmt as; Some (numeral_chars 10 (unat v) @ cs) }
      else if c = 0x64 then
        do { (v, as) \<leftarrow> int_arg as; cs \<leftarrow> render fmt as;
             Some ((if slt v 0 then 0x2D # numeral_chars 10 (unat (- v)) else numeral_chars 10 (unat v)) @ cs) }
      else if c = 0x63 then
        do { (v, as) \<leftarrow> int_arg as; cs \<leftarrow> render fmt as; Some (ucast v # cs) }
      else if c = 0x73 then
        do { (str, as) \<leftarrow> str_arg as;
             if 0 \<in> set str
             then do { cs \<leftarrow> render fmt as; Some (takeWhile (\<lambda>c. c \<noteq> 0) str @ cs) } else None }
      else render fmt as)"

lemma puts_terminated:
  assumes "0 \<in> set str"
  shows "\<exists>n. puts str 0 s = Some (n, fold putc (takeWhile (\<lambda>c. c \<noteq> 0) str) s)"
proof -
  obtain xs post where str: "str = xs @ 0 # post" "0 \<notin> set xs" using split_list_first [OF assms] by blast
  then have "takeWhile (\<lambda>c. c \<noteq> 0) str = xs" using cstring_at_nul [of xs "[]" post] by (simp add: cstring_at_def)
  then show ?thesis using puts_nul [OF str(2), of "[]" post s] str(1) by simp
qed

lemma aget_middle: "aget (pre @ c # post) (length pre) = Some c"
  by simp

text \<open>From the position after \<open>pre\<close> the loop prints the rendering and stops at the NUL.\<close>

definition prints :: "u8 \<Rightarrow> u8 list \<Rightarrow> u8 list \<Rightarrow> u8 list \<Rightarrow> bool" where
  "prints junk pre fmt post \<longleftrightarrow>
     (\<forall>as cs s. render fmt as = Some cs \<longrightarrow>
        printf_loop junk (pre @ fmt @ 0 # post) (length pre) as s = Some (length pre + length fmt, fold putc cs s))"

definition converts :: "u8 \<Rightarrow> u8 list \<Rightarrow> u8 list \<Rightarrow> u8 list \<Rightarrow> bool" where
  "converts junk pre fmt post \<longleftrightarrow>
     (\<forall>alternate as cs s. render_conv alternate fmt as = Some cs \<longrightarrow>
        (\<exists>buf' as' s'. printf_conv junk (pre @ fmt @ 0 # post) (length pre) alternate as s = Some (buf', as', s')
           \<and> printf_loop junk (pre @ fmt @ 0 # post) (buf' + 1) as' s'
               = Some (length pre + length fmt, fold putc cs s)))"

lemma prints_Cons:
  assumes "c \<noteq> 0" and "prints junk (pre @ [c]) fmt post" and "converts junk (pre @ [c]) fmt post"
  shows "prints junk pre (c # fmt) post"
  unfolding prints_def
proof (intro allI impI)
  fix as cs s assume r: "render (c # fmt) as = Some cs"
  show "printf_loop junk (pre @ (c # fmt) @ 0 # post) (length pre) as s
      = Some (length pre + length (c # fmt), fold putc cs s)"
  proof (cases "c = 0x25")
    case True
    then obtain buf' as' s' where "printf_conv junk ((pre @ [c]) @ fmt @ 0 # post) (length (pre @ [c])) False as s
          = Some (buf', as', s')"
        "printf_loop junk ((pre @ [c]) @ fmt @ 0 # post) (buf' + 1) as' s'
           = Some (length (pre @ [c]) + length fmt, fold putc cs s)"
      using r assms(3) unfolding converts_def by (metis render.simps(2))
    then show ?thesis using True by (subst printf_loop.simps) (simp add: aget_middle)
  next
    case False
    then obtain ds where ds: "render fmt as = Some ds" "cs = c # ds" using r by auto
    then have "printf_loop junk ((pre @ [c]) @ fmt @ 0 # post) (length (pre @ [c])) as (putc c s)
        = Some (length (pre @ [c]) + length fmt, fold putc ds (putc c s))"
      using assms(2) by (simp add: prints_def)
    then show ?thesis using False assms(1) ds(2) by (subst printf_loop.simps) (simp add: aget_middle)
  qed
qed

lemma converts_Cons:
  assumes "prints junk (pre @ [c]) fmt post" and "converts junk (pre @ [c]) fmt post"
  shows "converts junk pre (c # fmt) post"
  unfolding converts_def
proof (intro allI impI)
  fix alternate as cs s assume r: "render_conv alternate (c # fmt) as = Some cs"
  let ?f = "pre @ (c # fmt) @ 0 # post"
  have at: "aget ?f (length pre) = Some c" by (simp add: aget_middle)
  have cont: "printf_loop junk ?f (length pre + 1) as' s' = Some (length pre + length (c # fmt), fold putc ds s')"
    if "render fmt as' = Some ds" for as' s' ds
    using assms(1) that unfolding prints_def by (metis (no_types, lifting) Suc_eq_plus1 add_Suc_shift append.assoc
        append_Cons append_Nil length_Cons length_append_singleton)
  consider "c = 0x25" | "c = 0x23" | "c = 0x78" | "c = 0x75" | "c = 0x64" | "c = 0x63" | "c = 0x73"
    | "c \<notin> {0x25, 0x23, 0x78, 0x75, 0x64, 0x63, 0x73}" by blast
  then show "\<exists>buf' as' s'. printf_conv junk ?f (length pre) alternate as s = Some (buf', as', s')
      \<and> printf_loop junk ?f (buf' + 1) as' s' = Some (length pre + length (c # fmt), fold putc cs s)"
  proof cases
    case 1
    then obtain ds where "render fmt as = Some ds" "cs = 0x25 # ds" using r by auto
    then show ?thesis using 1 at cont by (subst printf_conv.simps) simp
  next
    case 2
    then have "render_conv True fmt as = Some cs" using r by simp
    then obtain buf' as' s' where "printf_conv junk ((pre @ [c]) @ fmt @ 0 # post) (length (pre @ [c])) True as s
          = Some (buf', as', s')"
        "printf_loop junk ((pre @ [c]) @ fmt @ 0 # post) (buf' + 1) as' s'
           = Some (length (pre @ [c]) + length fmt, fold putc cs s)"
      using assms(2) unfolding converts_def by blast
    then show ?thesis using 2 by (subst printf_conv.simps) (simp add: aget_middle)
  next
    case 3
    then obtain v as' ds where "int_arg as = Some (v, as')" "render fmt as' = Some ds" "cs = flag_chars alternate (unat v) @ ds"
      using r by (auto simp: bind_eq_Some_conv)
    then show ?thesis using 3 at cont by (subst printf_conv.simps) (simp add: print_hex_numeral flag_chars_def)
  next
    case 4
    then obtain v as' ds where "int_arg as = Some (v, as')" "render fmt as' = Some ds" "cs = numeral_chars 10 (unat v) @ ds"
      using r by (auto simp: bind_eq_Some_conv)
    then show ?thesis using 4 at cont by (subst printf_conv.simps) (simp add: print_unsigned_numeral)
  next
    case 5
    then obtain v as' ds where "int_arg as = Some (v, as')" "render fmt as' = Some ds"
      "cs = (if slt v 0 then 0x2D # numeral_chars 10 (unat (- v)) else numeral_chars 10 (unat v)) @ ds"
      using r by (auto simp: bind_eq_Some_conv)
    then show ?thesis using 5 at cont by (subst printf_conv.simps) (simp add: print_signed_numeral)
  next
    case 6
    then obtain v as' ds where "int_arg as = Some (v, as')" "render fmt as' = Some ds" "cs = ucast v # ds"
      using r by (auto simp: bind_eq_Some_conv)
    then show ?thesis using 6 at cont by (subst printf_conv.simps) simp
  next
    case 7
    then obtain str as' ds where str: "str_arg as = Some (str, as')" "0 \<in> set str" "render fmt as' = Some ds"
      "cs = takeWhile (\<lambda>c. c \<noteq> 0) str @ ds"
      using r by (auto simp: bind_eq_Some_conv split: if_splits)
    obtain n where "puts str 0 s = Some (n, fold putc (takeWhile (\<lambda>c. c \<noteq> 0) str) s)"
      using puts_terminated [OF str(2)] by blast
    then show ?thesis using 7 at cont str by (subst printf_conv.simps) simp
  next
    case 8
    then have "render fmt as = Some cs" using r by simp
    then show ?thesis using 8 at cont by (subst printf_conv.simps) simp
  qed
qed

lemma printf_render: "0 \<notin> set fmt \<Longrightarrow> prints junk pre fmt post \<and> converts junk pre fmt post"
proof (induction fmt arbitrary: pre)
  case Nil
  then show ?case by (simp add: prints_def converts_def printf_loop.simps aget_middle)
next
  case (Cons c fmt)
  then show ?case by (auto intro: prints_Cons converts_Cons)
qed

lemma printf_prints:
  "0 \<notin> set fmt \<Longrightarrow> render fmt as = Some cs \<Longrightarrow> printf junk (fmt @ [0]) as s = Some (length fmt, fold putc cs s)"
  using printf_render [of fmt junk "[]" "[]"] unfolding prints_def printf_def by simp

subsection \<open>Formats that print without erasing\<close>

text \<open>The arguments fit the directives and no backspace is printed.\<close>

definition renders :: "u8 list \<Rightarrow> vararg list \<Rightarrow> bool" where
  "renders fmt as \<longleftrightarrow> 0 \<notin> set fmt \<and> (\<exists>cs. render fmt as = Some cs \<and> 0x08 \<notin> set cs)"

lemma numeral_chars_plain: "2 \<le> r \<Longrightarrow> r \<le> 36 \<Longrightarrow> 0x08 \<notin> set (numeral_chars r v)"
proof -
  assume r: "2 \<le> r" "r \<le> 36"
  have "list_all (\<lambda>c. c \<noteq> 0x08) (take 36 itoa_lookup)" by (simp add: itoa_lookup_def)
  then have "digit_char d \<noteq> 0x08" if "d < 36" for d
    using that by (simp add: list_all_length digit_char_def)
  then have "digit_char d \<noteq> 0x08" if "d \<in> set (digits_rev r v)" for d
    using digits_rev_less [OF r(1) that] r(2) by simp
  then show ?thesis by (auto simp: numeral_chars_def)
qed

lemma flag_chars_plain: "0x08 \<notin> set (flag_chars a v)"
  using numeral_chars_plain [of 16 v] by (simp add: flag_chars_def)

lemma renders_simps [simp]:
  "renders [] as"
  "c \<noteq> 0x25 \<Longrightarrow> renders (c # fmt) as \<longleftrightarrow> c \<noteq> 0 \<and> c \<noteq> 0x08 \<and> renders fmt as"
  "renders (0x25 # 0x78 # fmt) (Int_arg v # as) \<longleftrightarrow> renders fmt as"
  "renders (0x25 # 0x23 # 0x78 # fmt) (Int_arg v # as) \<longleftrightarrow> renders fmt as"
  "renders (0x25 # 0x75 # fmt) (Int_arg v # as) \<longleftrightarrow> renders fmt as"
  "renders (0x25 # 0x64 # fmt) (Int_arg v # as) \<longleftrightarrow> renders fmt as"
  "renders (0x25 # 0x73 # fmt) (Str_arg str # as)
     \<longleftrightarrow> 0 \<in> set str \<and> 0x08 \<notin> set (takeWhile (\<lambda>c. c \<noteq> 0) str) \<and> renders fmt as"
  using flag_chars_plain numeral_chars_plain [of 10]
  by (auto simp: renders_def int_arg_def str_arg_def bind_eq_Some_conv)

lemma printf_renders:
  assumes "renders fmt as"
  shows "\<exists>cs. printf junk (fmt @ [0]) as s = Some (length fmt, fold putc cs s) \<and> 0x08 \<notin> set cs"
  using assms printf_prints [of fmt as _ junk s] by (auto simp: renders_def)

subsection \<open>The hardware cursor\<close>

text \<open>The registers of the CRT controller as the port history leaves them: an index written to
  0x3D4 selects the register a byte written to 0x3D5 goes to.\<close>

fun vga_index :: "io_event list \<Rightarrow> u8 option" where
  "vga_index [] = None"
| "vga_index (Out p v # h) = (if p = VGA_CURSOR_CONTROL then Some v else vga_index h)"
| "vga_index (_ # h) = vga_index h"

fun vga_reg :: "io_event list \<Rightarrow> u8 \<Rightarrow> u8 option" where
  "vga_reg [] r = None"
| "vga_reg (Out p v # h) r =
     (if p = VGA_CURSOR_DATA \<and> vga_index h = Some r then Some v else vga_reg h r)"
| "vga_reg (_ # h) r = vga_reg h r"

definition vga_cursor :: "io_event list \<Rightarrow> nat option" where
  "vga_cursor h =
     do { lo \<leftarrow> vga_reg h VGA_CURSOR_LOW; hi \<leftarrow> vga_reg h VGA_CURSOR_HIGH; Some (256 * unat hi + unat lo) }"

lemma cursor_bytes:
  "256 * unat (ucast (drop_bit 8 (pos :: u16) AND 0xFF) :: u8) + unat (ucast (pos AND 0xFF) :: u8) = unat pos"
proof -
  have "w AND 0xFF = take_bit 8 w" for w :: u16 by (simp add: take_bit_eq_mask mask_eq_exp_minus_1)
  moreover have "(ucast (take_bit 8 w) :: u8) = ucast w" for w :: u16
    by (rule bit_word_eqI) (auto simp: bit_simps)
  ultimately have "(ucast (pos AND 0xFF) :: u8) = ucast pos"
    "(ucast (drop_bit 8 pos AND 0xFF) :: u8) = ucast (drop_bit 8 pos)" by simp_all
  moreover have "unat pos < 65536" using unsigned_less [of pos, where ?'a = nat] by simp
  then have "unat pos div 256 < 256" by (simp add: less_mult_imp_div_less)
  then have "unat (ucast (drop_bit 8 pos) :: u8) = unat pos div 256"
    unfolding unsigned_ucast_eq unsigned_drop_bit_eq by (simp add: drop_bit_eq_div take_bit_nat_eq_self)
  moreover have "unat (ucast pos :: u8) = unat pos mod 256"
    by (simp add: unsigned_ucast_eq take_bit_eq_mod)
  ultimately show ?thesis by simp
qed

lemma vga_cursor_outb: "vga_cursor (io (cursor_outb pos s)) = Some (unat pos)"
  by (simp add: cursor_outb_def Let_def vga_cursor_def cursor_bytes [symmetric])

lemma cursor_position:
  assumes "unat x < 80" and "unat y < 25"
  shows "unat (ucast (y * NUM_COLS + x :: u32) :: u16) = 80 * unat y + unat x"
proof -
  have "y * NUM_COLS + x = of_nat (80 * unat y + unat x)" by (simp add: mult.commute)
  moreover have "80 * unat y + unat x < 2000" using assms by simp
  ultimately show ?thesis by (simp add: unsigned_ucast_eq unat_of_nat take_bit_nat_eq_self
        del: of_nat_add of_nat_mult)
qed

subsection \<open>Properties of the console\<close>

lemma sample_task_screen: "task_screen_ok 0xB8000 sample_kernel"
  by (simp add: task_screen_ok_def sample_kernel_wf linear_def scr_ok_def task_view_def view_of_def)

lemma sample_active_screen: "active_screen_ok 0xB9000 sample_kernel"
  by (simp add: active_screen_ok_def sample_kernel_wf linear_def scr_ok_def active_view_def view_of_def
      sample_terminal_def)

text \<open>C12. \<open>putc\<close> refines the abstract screen. For every string in which no backspace is printed at
  the top left corner, drawing it character by character with \<open>putc\<close> (stores to the virtual address
  0xB8000, \<open>memcpy\<close> of 24 rows when the cursor leaves the last one) has exactly the effect of the
  abstract operation on the 80 x 25 cells behind that address; the cursor stays on the screen and
  no byte outside the screen and no other variable of the kernel changes.\<close>

theorem putc_string:
  assumes "task_screen_ok P s" and "erasable_all cs (task_view P s)"
  shows "task_view P (fold putc cs s) = fold spec_putc cs (task_view P s)
    \<and> task_screen_ok P (fold putc cs s) \<and> scr_ok (task_view P (fold putc cs s))
    \<and> console_frame P s (fold putc cs s)"
  using task_console.put_all [OF assms] by simp

theorem putc_string_witness:
  "task_view 0xB8000 (fold putc [0x68, 0x69, 0x0A, 0x08] sample_kernel) =
     fold spec_putc [0x68, 0x69, 0x0A, 0x08] (task_view 0xB8000 sample_kernel)"
proof -
  have "erasable_all [0x68, 0x69, 0x0A, 0x08] (task_view 0xB8000 sample_kernel)"
    by (simp add: erasable_def spec_putc_def spec_draw_def task_view_def view_of_def Let_def)
  then show ?thesis using putc_string [OF sample_task_screen] by blast
qed

text \<open>\<open>putc_active\<close> refines the same abstract screen, at the page and the coordinates of the
  active terminal.\<close>

theorem putc_active_string:
  assumes "active_screen_ok P s" and "erasable_all cs (active_view P s)"
  shows "active_view P (fold putc_active cs s) = fold spec_putc cs (active_view P s)
    \<and> active_screen_ok P (fold putc_active cs s) \<and> scr_ok (active_view P (fold putc_active cs s))
    \<and> console_frame P s (fold putc_active cs s)"
  using active_console.put_all [OF assms] by simp

theorem putc_active_string_witness:
  "active_view 0xB9000 (fold putc_active [0x6C, 0x73, 0x08] sample_kernel) =
     fold spec_putc [0x6C, 0x73, 0x08] (active_view 0xB9000 sample_kernel)"
proof -
  have "erasable_all [0x6C, 0x73, 0x08] (active_view 0xB9000 sample_kernel)"
    by (simp add: erasable_def spec_putc_def spec_draw_def active_view_def view_of_def Let_def sample_terminal_def)
  then show ?thesis using putc_active_string [OF sample_active_screen] by blast
qed

lemma putc_scheduled:
  assumes "wf_kernel s" and "task_screen_ok P s" and "erasable c (task_view P s)" and "scheduling_started s \<noteq> 0"
  shows "term_x (task_term (putc c s)) = screen_x (putc c s)" "term_y (task_term (putc c s)) = screen_y (putc c s)"
    and "active (task_term s) \<noteq> 0 \<Longrightarrow> vga_cursor (io (putc c s)) =
      Some (80 * unat (screen_y (putc c s)) + unat (screen_x (putc c s)))"
proof -
  define t where "t = putc_screen c s"
  note d = putc_screen_refines [OF task_screen_okD [OF assms(2)] assms(3), folded t_def]
  have wft: "wf_kernel t" by (rule wf_console_frame [OF assms(1) d(2)])
  have st: "scheduling_started t \<noteq> 0" using assms(4) console_frame_fields(9) [OF d(2)] by simp
  define u where "u = (if active (task_term t) \<noteq> 0 then update_cursor t else t)"
  have p: "putc c s = upd_terminal (task_terminal (CURRENT_TASK u)) (\<lambda>r. r\<lparr>term_x := screen_x u, term_y := screen_y u\<rparr>) u"
    using st by (simp add: putc_split t_def [symmetric] putc_record_def u_def Let_def)
  have "console_frame P t u" by (simp add: u_def update_cursor_frame console_frame_refl)
  then have wfu: "wf_kernel u" by (rule wf_console_frame [OF wft])
  then have "task_term (putc c s) = (terminals u ! unat (current_task u))\<lparr>term_x := screen_x u, term_y := screen_y u\<rparr>"
    by (simp add: p task_term_def CURRENT_TASK_def wf_kernelD [simplified CURRENT_TASK_def])
  then show "term_x (task_term (putc c s)) = screen_x (putc c s)" "term_y (task_term (putc c s)) = screen_y (putc c s)"
    by (simp_all add: p)
  assume "active (task_term s) \<noteq> 0"
  moreover have "active (task_term t) = active (task_term s)"
    using forget_xy_nth(2) [OF console_frame_fields(10) [OF d(2)]] assms(1) wft
    by (simp add: task_term_eq console_frame_fields(5) [OF d(2)] wf_kernelD)
  ultimately have u: "u = update_cursor t" by (simp add: u_def)
  have "scr_ok (task_view P t)"
    using assms(2,3) d(1) spec_putc_ok by (simp add: task_screen_ok_def)
  then have "unat (screen_x t) < 80" "unat (screen_y t) < 25"
    by (simp_all add: scr_ok_def task_view_def view_of_def)
  then show "vga_cursor (io (putc c s)) = Some (80 * unat (screen_y (putc c s)) + unat (screen_x (putc c s)))"
    by (simp add: p u update_cursor_def Let_def vga_cursor_outb cursor_position)
qed

text \<open>Once scheduling has started, \<open>putc\<close> leaves the coordinates of the current task's terminal
  equal to the live coordinates, and when that terminal is the active one the hardware cursor is
  programmed to the cell the next character goes to.\<close>

theorem putc_keeps_coordinates:
  assumes "task_screen_ok P s" and "erasable c (task_view P s)" and "scheduling_started s \<noteq> 0"
  shows "term_x (task_term (putc c s)) = screen_x (putc c s) \<and> term_y (task_term (putc c s)) = screen_y (putc c s)
    \<and> (active (task_term s) \<noteq> 0 \<longrightarrow> vga_cursor (io (putc c s)) =
        Some (80 * scr_y (spec_putc c (task_view P s)) + scr_x (spec_putc c (task_view P s))))"
proof -
  have wf: "wf_kernel s" using assms(1) by (simp add: task_screen_ok_def)
  have "scr_x (spec_putc c (task_view P s)) = unat (screen_x (putc c s))"
    "scr_y (spec_putc c (task_view P s)) = unat (screen_y (putc c s))"
    using putc_refines(1) [OF assms(1,2)] by (metis task_view_def view_of_def tscreen.select_convs)+
  then show ?thesis using putc_scheduled [OF wf assms] by simp
qed

theorem putc_keeps_coordinates_witness:
  "term_x (task_term (putc 0x41 sample_kernel)) = screen_x (putc 0x41 sample_kernel)
    \<and> vga_cursor (io (putc 0x41 sample_kernel)) = Some 1"
proof -
  have "scheduling_started sample_kernel \<noteq> 0" "active (task_term sample_kernel) \<noteq> 0"
    by (simp_all add: C_TRUE_def task_term_def sample_terminal_def sample_task_def)
  then show ?thesis
    using putc_keeps_coordinates [OF sample_task_screen, of "0x41"]
    by (simp add: erasable_def spec_putc_def spec_draw_def task_view_def view_of_def Let_def)
qed

text \<open>A backspace printed at the top left corner is not caught: the row becomes -1 (0xFFFFFFFF)
  and the blank goes to the two bytes before the video page, at 0xB7FFE and 0xB7FFF.\<close>

theorem putc_backspace_corner:
  assumes "screen_x s = 0" and "screen_y s = 0" and "scheduling_started s = 0"
  shows "putc 0x08 s = wr8 0xB7FFF ATTRIB (wr8 0xB7FFE BLANK_CHAR (s\<lparr>screen_x := 79, screen_y := - 1\<rparr>))"
proof -
  have addr: "VIDEO + push_bit 1 (- 1) = (0xB7FFE :: u32)" "(0xB7FFE :: u32) + 1 = 0xB7FFF" by simp_all
  have "put_cell VIDEO (- 1) BLANK_CHAR t = wr8 0xB7FFF ATTRIB (wr8 0xB7FFE BLANK_CHAR t)" for t :: kstate
    unfolding put_cell_def addr ..
  moreover have "putc_draw 0x08 s = put_cell VIDEO (- 1) BLANK_CHAR (s\<lparr>screen_x := 79, screen_y := - 1\<rparr>)"
    using assms by (simp add: putc_draw_def Let_def swap_xy)
  ultimately show ?thesis using assms(3) by (simp add: putc_def Let_def wr8_def)
qed

theorem putc_backspace_corner_witness:
  "putc 0x08 (sample_kernel\<lparr>scheduling_started := 0\<rparr>) =
     wr8 0xB7FFF ATTRIB (wr8 0xB7FFE BLANK_CHAR
       (sample_kernel\<lparr>scheduling_started := 0, screen_x := 79, screen_y := - 1\<rparr>))"
  using putc_backspace_corner [of "sample_kernel\<lparr>scheduling_started := 0\<rparr>"] by simp

text \<open>C19. \<open>printf\<close>: for every format whose directives have their arguments, the conversions \<open>%x\<close>,
  \<open>%#x\<close>, \<open>%u\<close>, \<open>%d\<close>, \<open>%c\<close>, \<open>%s\<close> and \<open>%%\<close> print exactly the characters of the rendering and the
  length of the format is returned; the conversion buffers never overflow. A format that ends in a
  bare percent sign makes the loop step over its NUL and read past the string.\<close>

theorem printf_correct:
  "(0 \<notin> set fmt \<longrightarrow> render fmt as = Some cs \<longrightarrow>
      printf junk (fmt @ 0 # post) as s = Some (length fmt, fold putc cs s))
   \<and> printf junk [0x25, 0] as s = None"
proof
  show "0 \<notin> set fmt \<longrightarrow> render fmt as = Some cs \<longrightarrow>
      printf junk (fmt @ 0 # post) as s = Some (length fmt, fold putc cs s)"
    using printf_render [of fmt junk "[]" post] unfolding prints_def printf_def by simp
  show "printf junk [0x25, 0] as s = None"
    by (simp add: printf_def printf_loop.simps printf_conv.simps aget_def)
qed

theorem printf_correct_witness:
  "printf 0xCC ([0x66, 0x25, 0x23, 0x78, 0x21] @ 0 # []) [Int_arg 0x2A] sample_kernel
    = Some (5, fold putc ([0x66] @ replicate 6 0x30 @ [0x32, 0x41] @ [0x21]) sample_kernel)"
proof -
  have "numeral_chars 16 0x2A = [0x32, 0x41]"
    by (simp add: numeral_chars_def digits_rev.simps digit_char_def itoa_lookup_def)
  then have "render [0x66, 0x25, 0x23, 0x78, 0x21] [Int_arg 0x2A] =
      Some ([0x66] @ replicate 6 0x30 @ [0x32, 0x41] @ [0x21])"
    by (simp add: int_arg_def flag_chars_def)
  then show ?thesis using printf_correct [of "[0x66, 0x25, 0x23, 0x78, 0x21]"] by simp
qed

end
