(* ===== verification/Paging.thy ===== *)
theory Paging
  imports Kernel_State Mem_Ops
begin

text \<open>
  The interface to \<^verbatim>\<open>paging.c\<close>, which the sources call and the tree does not hold: the
  three functions are a parameter \<open>pg\<close> of the operations that use them, and act on the translation
  \<open>mmu\<close>. What the kernel relies on is the hypothesis \<open>paging_ok\<close>: \<open>map_virt_to_phys\<close> redirects the
  4 KB page of its first argument (in the two regions that have page tables: below 4 MB, and the
  4 MB from 132 MB) and leaves every other page alone; \<open>page_modify\<close> redirects the 4 MB page at
  128 MB; flushing the TLB does not change the translation the tables define.
\<close>

record paging =
  map_virt_to_phys :: "u32 \<Rightarrow> u32 \<Rightarrow> (u32 \<Rightarrow> u32) \<Rightarrow> u32 \<Rightarrow> u32"
  page_modify :: "u32 \<Rightarrow> u32 \<Rightarrow> u32 \<Rightarrow> (u32 \<Rightarrow> u32) \<Rightarrow> u32 \<Rightarrow> u32"
  flush_TLB :: "(u32 \<Rightarrow> u32) \<Rightarrow> u32 \<Rightarrow> u32"

definition page :: "u32 \<Rightarrow> bool" where
  "page a \<longleftrightarrow> unat a mod 4096 = 0"

definition paged_region :: "u32 \<Rightarrow> bool" where
  "paged_region v \<longleftrightarrow> 0x1000 \<le> v \<and> v < 0x400000 \<or> 0x8400000 \<le> v \<and> v < 0x8800000"

definition paging_ok :: "paging \<Rightarrow> bool" where
  "paging_ok pg \<longleftrightarrow>
     (\<forall>v p m w k. page v \<and> paged_region v \<and> page p \<and> page w \<and> k < 4096 \<longrightarrow>
        map_virt_to_phys pg v p m (w + of_nat k) = (if w = v then p + of_nat k else m (w + of_nat k)))
   \<and> (\<forall>p priv m x. page_modify pg VIRTUAL_BEGIN p priv m x =
        (if VIRTUAL_BEGIN \<le> x \<and> x < VIRTUAL_END then p + (x - VIRTUAL_BEGIN) else m x))
   \<and> (\<forall>m. flush_TLB pg m = m)"

text \<open>Page tables that do exactly that.\<close>

definition simple_paging :: paging where
  "simple_paging = \<lparr>
     map_virt_to_phys = \<lambda>v p m x. if x AND NOT (mask 12) = v then p + (x - v) else m x,
     page_modify = \<lambda>v p priv m x.
       if VIRTUAL_BEGIN \<le> x \<and> x < VIRTUAL_END then p + (x - VIRTUAL_BEGIN) else m x,
     flush_TLB = \<lambda>m. m\<rparr>"

lemma page_bound: "page v \<Longrightarrow> unat v + 4096 \<le> 2 ^ 32"
proof -
  assume "page v"
  then obtain q where q: "unat v = 4096 * q" by (auto simp: page_def)
  then have "4096 * q < 4096 * 1048576" using unat_u32_bound [of v] by simp
  then have "q + 1 \<le> 1048576" by simp
  then show ?thesis using q by simp
qed

lemma page_offset:
  assumes "page w" and "k < 4096"
  shows "(w + of_nat k) AND NOT (mask 12) = w"
  using align_down_offset [of w 12 k] page_bound [OF assms(1)] assms by (simp add: page_def)

lemma paging_ok_simple: "paging_ok simple_paging"
  by (auto simp: paging_ok_def simple_paging_def page_offset)

definition kmap :: "paging \<Rightarrow> u32 \<Rightarrow> u32 \<Rightarrow> 'a machine_scheme \<Rightarrow> 'a machine_scheme" where
  "kmap pg v p s = s\<lparr>mmu := map_virt_to_phys pg v p (mmu s)\<rparr>"

text \<open>\<open>maps s v p\<close>: the virtual page \<open>v\<close> is the physical page \<open>p\<close>.\<close>

definition maps :: "'a machine_scheme \<Rightarrow> u32 \<Rightarrow> u32 \<Rightarrow> bool" where
  "maps s v p \<longleftrightarrow> linear s v p 4096"

lemma kmap_maps:
  assumes "paging_ok pg" and "page v" and "paged_region v" and "page p" and "page w"
  shows "maps (kmap pg v p s) w q \<longleftrightarrow> (if w = v then p = q else maps s w q)"
proof -
  have m: "mmu (kmap pg v p s) (w + of_nat k) = (if w = v then p + of_nat k else mmu s (w + of_nat k))"
    if "k < 4096" for k
    using assms that by (simp add: paging_ok_def kmap_def)
  show ?thesis
  proof (cases "w = v")
    case True
    then have "maps (kmap pg v p s) w q \<longleftrightarrow> (\<forall>i<4096. p + of_nat i = q + of_nat i)"
      unfolding maps_def linear_def using m by auto
    then show ?thesis using True by (metis add_right_cancel zero_less_numeral)
  qed (use m in \<open>simp add: maps_def linear_def\<close>)
qed

lemma kmap_fields [simp]:
  "mem (kmap pg v p s) = mem s" "io (kmap pg v p s) = io s" "eflags (kmap pg v p s) = eflags s"
  "machine.more (kmap pg v p s) = machine.more s" "df_clear (kmap pg v p s) = df_clear s"
  by (simp_all add: kmap_def df_clear_def)

lemma kmap_kfields [simp]:
  "terminals (kmap pg v p s) = terminals s" "active_terminal (kmap pg v p s) = active_terminal s"
  "tasks (kmap pg v p s) = tasks s" "current_task (kmap pg v p s) = current_task s"
  "pcbs (kmap pg v p s) = pcbs s" "global_pid (kmap pg v p s) = global_pid s"
  "pid_availability (kmap pg v p s) = pid_availability s"
  "screen_x (kmap pg v p s) = screen_x s" "screen_y (kmap pg v p s) = screen_y s"
  "scheduling_started (kmap pg v p s) = scheduling_started s" "tss_esp0 (kmap pg v p s) = tss_esp0 s"
  by (simp_all add: kmap_def)

lemma maps_linear: "maps s v p \<Longrightarrow> n \<le> 4096 \<Longrightarrow> linear s v p n"
  by (simp add: maps_def linear_def)

lemma maps_cong: "mmu s = mmu t \<Longrightarrow> maps s v p = maps t v p"
  by (simp add: maps_def linear_def)

text \<open>The pages of the display: video memory and the three pages behind it.\<close>

definition term_page :: "nat \<Rightarrow> u32" where
  "term_page i = BASE_VIDEO_MEM + (of_nat i + 1) * FOUR_K"

lemma term_page_simps [simp]: "term_page 0 = 0xB9000" "term_page 1 = 0xBA000" "term_page 2 = 0xBB000"
  "term_page (Suc 0) = 0xBA000" "term_page (Suc (Suc 0)) = 0xBB000"
  by (simp_all add: term_page_def)

lemma display_pages [simp]:
  "page 0xB8000" "page 0xB9000" "page 0xBA000" "page 0xBB000" "page 0x8400000"
  "paged_region 0xB8000" "paged_region 0xB9000" "paged_region 0xBA000" "paged_region 0xBB000"
  "paged_region 0x8400000"
  by (simp_all add: page_def paged_region_def)

lemma term_page_ok: "i < 3 \<Longrightarrow> page (term_page i)" "i < 3 \<Longrightarrow> paged_region (term_page i)"
  by (auto simp: less_Suc_eq numeral_3_eq_3)

lemma term_page_inj: "i < 3 \<Longrightarrow> j < 3 \<Longrightarrow> term_page i = term_page j \<longleftrightarrow> i = j"
  by (auto simp: less_Suc_eq numeral_3_eq_3)

lemma term_page_other: "i < 3 \<Longrightarrow> term_page i \<noteq> 0xB8000" "i < 3 \<Longrightarrow> term_page i \<noteq> 0x8400000"
  by (auto simp: less_Suc_eq numeral_3_eq_3)

text \<open>Copying one page to another.\<close>

lemma pages_disjoint:
  assumes "page v" and "page w" and "v \<noteq> w" and "i < 4096" and "j < 4096"
  shows "v + of_nat i \<noteq> w + of_nat j"
  using page_offset [OF assms(1,4)] page_offset [OF assms(2,5)] assms(3) by metis

lemma memcpy_page:
  assumes "maps s d p" and "maps s v q" and "page p" and "page q" and "p \<noteq> q" and "df_clear s"
  shows "snd (memcpy d v FOUR_K s) = s\<lparr>mem := blit (mem s) p q 4096\<rparr>"
proof -
  have lin: "linear s d p 4096" "linear s v q 4096" using assms(1,2) by (simp_all add: maps_def)
  have dis: "disjoint_regions s d v 4096"
    using lin pages_disjoint [OF assms(3,4,5)] by (simp add: disjoint_regions_def linear_def)
  show ?thesis
    using memcpy_copy [of s d v FOUR_K] copy_bytes_region [OF lin] disjoint_not_within [OF lin dis]
      dis assms(6) by simp
qed

lemma within_page: "page p \<Longrightarrow> page q \<Longrightarrow> k < 4096 \<Longrightarrow> within (q + of_nat k) p 4096 \<longleftrightarrow> p = q"
proof -
  assume pq: "page p" "page q" "k < 4096"
  show ?thesis
  proof
    assume w: "within (q + of_nat k) p 4096"
    define j where "j = unat (q + of_nat k - p)"
    have "q + of_nat k = p + of_nat j" "j < 4096" using w by (simp_all add: j_def within_def)
    then show "p = q" using pages_disjoint [of p q j k] pq by auto
  next
    assume "p = q"
    then show "within (q + of_nat k) p 4096"
      using pq(3) by (simp add: within_def unat_of_nat take_bit_nat_eq_self)
  qed
qed

lemma blit_page:
  assumes "page p" and "page r" and "k < 4096"
  shows "blit m p q 4096 (r + of_nat k) = (if r = p then m (q + of_nat k) else m (r + of_nat k))"
  using within_page [OF assms] by (auto simp: blit_def)

end
