(* ===== verification/Terminal.thy ===== *)
theory Terminal
  imports Printing Paging
begin

text \<open>
  The terminals: \<^verbatim>\<open>student-distrib/terminal.c\<close> up to the key handler (the handler itself
  also halts processes and is in \<open>Terminal_Irq\<close>). The input of a terminal is a line that keys edit
  and \<open>terminal_read\<close> delivers; the display of a terminal is video memory while it is the active
  one and a page of its own otherwise.
\<close>

subsection \<open>Input buffers\<close>

definition reset_buffer :: "kstate \<Rightarrow> kstate" where
  "reset_buffer s =
     (let (flags, s) = cli_and_save s;
          s = upd_active (\<lambda>t. t\<lparr>input_buffer := replicate INPUT_BUFFER_SIZE NEWLINE, buffer_index := 0\<rparr>) s
      in restore_flags flags s)"

subsection \<open>\<open>terminal_open\<close>\<close>

definition open_terminal :: "paging \<Rightarrow> nat \<Rightarrow> kstate \<Rightarrow> kstate" where
  "open_terminal pg i s =
     (let v = BASE_VIDEO_MEM + (of_nat i + 1) * FOUR_K;
          s = upd_terminal i (\<lambda>t. t\<lparr>term_x := 0, term_y := 0, buffer_index := 0,
                input_status := INPUT_ENDED, terminal_number := of_nat i,
                active := (if i = 0 then 1 else 0), video_mem := v\<rparr>) s;
          s = kmap pg v v s
      in upd_terminal i (\<lambda>t. t\<lparr>input_buffer := replicate INPUT_BUFFER_SIZE NEWLINE\<rparr>) s)"

definition terminal_open :: "hardware \<Rightarrow> paging \<Rightarrow> kstate \<Rightarrow> u32 \<times> kstate" where
  "terminal_open hw pg s =
     (let (flags, s) = cli_and_save s;
          s = keyboard_init hw s;
          s = reset_screen s;
          s = reset_buffer s;
          s = s\<lparr>s_input_status := INPUT_ENDED\<rparr>;
          s = fold (open_terminal pg) [0..<NUM_TERMINALS] s;
          s = s\<lparr>s_input_buffer := replicate INPUT_BUFFER_SIZE NEWLINE\<rparr>;
          s = s\<lparr>active_terminal := 0\<rparr>;
          s = kmap pg BASE_VIDEO_MEM BASE_VIDEO_MEM s;
          s = kmap pg (video_mem (ACTIVE_TERMINAL s)) BASE_VIDEO_MEM s;
          s = set_video_params 0 0 s
      in (0, restore_flags flags s))"

subsection \<open>\<open>terminal_read\<close>, \<open>terminal_write\<close>, \<open>terminal_close\<close>\<close>

primrec store_bytes :: "u8 list \<Rightarrow> u32 \<Rightarrow> 'a machine_scheme \<Rightarrow> 'a machine_scheme" where
  "store_bytes [] a s = s"
| "store_bytes (b # bs) a s = store_bytes bs (a + 1) (wr8 a b s)"

text \<open>The loop that waits for the end of a line makes progress through interrupt handlers only: each
  iteration runs the next of the given handlers, and with none left it is still waiting.\<close>

primrec spin :: "nat \<Rightarrow> (kstate \<Rightarrow> kstate) list \<Rightarrow> kstate \<Rightarrow> kstate option" where
  "spin t [] s = (if input_status (terminals s ! t) = 0 then Some s else None)"
| "spin t (irq # irqs) s = (if input_status (terminals s ! t) = 0 then Some s else spin t irqs (irq s))"

text \<open>The index is a byte, so the copy may ask for up to 255 bytes of the 128-byte buffer; past its
  end it has no result.\<close>

definition terminal_read ::
  "(kstate \<Rightarrow> kstate) list \<Rightarrow> u32 \<Rightarrow> u32 \<Rightarrow> kstate \<Rightarrow> (u32 \<times> kstate) option" where
  "terminal_read irqs buf nbytes s =
     (if buf = 0 then Some (- 1, s)
      else if slt nbytes 0 then Some (- 1, s)
      else
        let t = pcb_terminal (pcbs s (CURRENT_PCB_ADDRESS s))
        in do { s \<leftarrow> spin t irqs (upd_terminal t (\<lambda>r. r\<lparr>input_status := IN_PROGRESS\<rparr>) s);
                let r = terminals s ! t;
                let num_copied = (if slt (ucast (buffer_index r)) nbytes then ucast (buffer_index r) else nbytes);
                if unat num_copied \<le> length (input_buffer r)
                then Some (num_copied, reset_buffer (store_bytes (take (unat num_copied) (input_buffer r)) buf s))
                else None })"

primrec write_loop :: "nat \<Rightarrow> u32 \<Rightarrow> kstate \<Rightarrow> kstate" where
  "write_loop 0 bufptr s = s"
| "write_loop (Suc n) bufptr s = write_loop n (bufptr + 1) (putc (rd8 s bufptr) s)"

definition terminal_write :: "u32 \<Rightarrow> u32 \<Rightarrow> kstate \<Rightarrow> u32 \<times> kstate" where
  "terminal_write buf nbytes s =
     (if buf = 0 then (- 1, s)
      else if slt nbytes 0 then (- 1, s)
      else let (flags, s) = cli_and_save s;
               s = write_loop (unat nbytes) buf s
           in (nbytes, restore_flags flags s))"

definition terminal_close :: "u32 \<Rightarrow> kstate \<Rightarrow> u32 \<times> kstate" where
  "terminal_close fd s = (0, s)"

subsection \<open>Switching terminals\<close>

definition switch_terminals :: "paging \<Rightarrow> u32 \<Rightarrow> kstate \<Rightarrow> kstate" where
  "switch_terminals pg next_terminal s =
     (let (flags, s) = cli_and_save s;
          old = unat (active_terminal s);
          s = upd_terminal old (\<lambda>t. t\<lparr>active := INACTIVE\<rparr>) s;
          s = s\<lparr>active_terminal := next_terminal\<rparr>;
          new = unat (active_terminal s);
          s = upd_terminal new (\<lambda>t. t\<lparr>active := ACTIVE\<rparr>) s;
          old_mem = video_mem (terminals s ! old);
          new_mem = video_mem (terminals s ! new);
          s = kmap pg BASE_VIDEO_MEM BASE_VIDEO_MEM s;
          s = kmap pg old_mem old_mem s;
          s = kmap pg new_mem new_mem s;
          s = snd (memcpy old_mem BASE_VIDEO_MEM FOUR_K s);
          s = snd (memcpy BASE_VIDEO_MEM new_mem FOUR_K s);
          s = kmap pg new_mem BASE_VIDEO_MEM s;
          s = (if active (task_term s) \<noteq> 0
               then kmap pg VIRTUAL_END BASE_VIDEO_MEM s
               else kmap pg VIRTUAL_END new_mem (kmap pg BASE_VIDEO_MEM new_mem s));
          s = update_cursor_active s
      in restore_flags flags s)"

definition alt_f1 :: "paging \<Rightarrow> kstate \<Rightarrow> kstate" where
  "alt_f1 pg s =
     (let (flags, s) = cli_and_save s;
          s = (if active_terminal s \<noteq> 0 then switch_terminals pg 0 s else s)
      in restore_flags flags s)"

definition alt_f2 :: "paging \<Rightarrow> kstate \<Rightarrow> kstate" where
  "alt_f2 pg s =
     (let (flags, s) = cli_and_save s;
          s = (if active_terminal s \<noteq> 1 then switch_terminals pg 1 s else s)
      in restore_flags flags s)"

definition alt_f3 :: "paging \<Rightarrow> kstate \<Rightarrow> kstate" where
  "alt_f3 pg s =
     (let (flags, s) = cli_and_save s;
          s = (if active_terminal s \<noteq> 2 then switch_terminals pg 2 s else s)
      in restore_flags flags s)"

subsection \<open>Keys\<close>

text \<open>The loop of \<open>ctrl_l\<close> compares its byte counter with the static variable \<open>buffer_index\<close> of the
  file, not with the index of the active terminal; nothing in the loop writes that variable.\<close>

function redraw_loop :: "u8 \<Rightarrow> u8 \<Rightarrow> kstate \<Rightarrow> kstate option" where
  "redraw_loop bound i s =
     (if i < bound
      then do { c \<leftarrow> aget (input_buffer (ACTIVE_TERMINAL s)) (unat i);
                redraw_loop bound (i + 1) (putc_active c s) }
      else Some s)"
  by pat_completeness auto
termination
proof (relation "measure (\<lambda>(bound, i, s). unat bound - unat i)", goal_cases)
  case (2 bound i s)
  then have "unat i < unat bound" by (simp add: word_less_nat_alt)
  moreover have "unat bound < 256" by simp
  ultimately have "unat (i + 1) = unat i + 1" by (simp add: unat_word_ariths del: unat_u8_bound)
  then show ?case using \<open>unat i < unat bound\<close> by simp
qed simp

declare redraw_loop.simps [simp del]

definition ctrl_l :: "kstate \<Rightarrow> kstate option" where
  "ctrl_l s =
     (let (flags, s) = cli_and_save s;
          s = reset_screen_active s
      in do { s \<leftarrow> redraw_loop (s_buffer_index s) 0 s; Some (restore_flags flags s) })"

text \<open>A key whose code has the top bit clear.\<close>

definition plain_key :: "u8 \<Rightarrow> kstate \<Rightarrow> kstate option" where
  "plain_key ascii_data s =
     (if ascii_data = 0 then Some s
      else if ascii_data = TAB then Some s
      else if ascii_data = BKSP then
        if buffer_index (ACTIVE_TERMINAL s) > 0 then
          let s = putc_active ascii_data s;
              s = upd_active (\<lambda>t. t\<lparr>buffer_index := buffer_index t - 1\<rparr>) s;
              t = ACTIVE_TERMINAL s
          in do { b \<leftarrow> aput (input_buffer t) (unat (buffer_index t)) NEWLINE;
                  Some (upd_active (\<lambda>t. t\<lparr>input_buffer := b\<rparr>) s) }
        else Some s
      else if ascii_data = NEWLINE then
        let s = putc_active ascii_data s
        in Some (upd_active (\<lambda>t. t\<lparr>input_status := INPUT_ENDED, buffer_index := buffer_index t + 1\<rparr>) s)
      else if buffer_index (ACTIVE_TERMINAL s) < 0x7F then
        let s = putc_active ascii_data s;
            t = ACTIVE_TERMINAL s
        in do { b \<leftarrow> aput (input_buffer t) (unat (buffer_index t)) ascii_data;
                Some (upd_active (\<lambda>t. t\<lparr>input_buffer := b, buffer_index := buffer_index t + 1\<rparr>) s) }
      else Some s)"

subsection \<open>What the operations leave alone\<close>

text \<open>An operation of the machine leaves all of the kernel's variables alone.\<close>

lemma kfields_more:
  fixes s t :: kstate
  assumes "machine.more s = machine.more t"
  shows "terminals s = terminals t" "active_terminal s = active_terminal t" "tasks s = tasks t"
    "current_task s = current_task t" "pid_availability s = pid_availability t" "pcbs s = pcbs t"
    "global_pid s = global_pid t" "scheduling_started s = scheduling_started t" "tss_esp0 s = tss_esp0 t"
    "screen_x s = screen_x t" "screen_y s = screen_y t" "s_buffer_index s = s_buffer_index t"
  using assms by (cases s, cases t, simp)+

lemma fold_keeps: "(\<And>x t. g (f x t) = g t) \<Longrightarrow> g (fold f xs s) = g s"
  by (induction xs arbitrary: s) simp_all

lemma put_cells_fields [simp]: "machine.more (put_cells base lo hi c s) = machine.more s"
  "mmu (put_cells base lo hi c s) = mmu s" "eflags (put_cells base lo hi c s) = eflags s"
  unfolding put_cells_def by (rule fold_keeps, simp add: put_cell_def)+

lemmas put_cells_kfields [simp] = kfields_more [OF put_cells_fields(1)]

lemma reset_screen_fields [simp]:
  "terminals (reset_screen s) = terminals s" "active_terminal (reset_screen s) = active_terminal s"
  "tasks (reset_screen s) = tasks s" "current_task (reset_screen s) = current_task s"
  "pid_availability (reset_screen s) = pid_availability s" "eflags (reset_screen s) = eflags s"
  "mmu (reset_screen s) = mmu s"
  by (simp_all add: reset_screen_def update_cursor_def Let_def clear_def cursor_outb_def outb_def)

lemma keyboard_init_more [simp]:
  "machine.more (keyboard_init hw s) = machine.more s"
  by (simp add: keyboard_init_def cli_and_save_def Let_def)

lemma keyboard_init_flags [simp]: "eflags (keyboard_init hw s) = eflags s" "mmu (keyboard_init hw s) = mmu s"
  by (simp_all add: keyboard_init_def cli_and_save_def Let_def)

lemmas keyboard_init_kfields [simp] = kfields_more [OF keyboard_init_more]
lemmas cli_kfields [simp] = kfields_more [OF cli_frame(6)]
lemmas restore_flags_kfields [simp] = kfields_more [OF restore_flags_frame(6)]

lemma reset_buffer_fields [simp]:
  "terminals (reset_buffer s) = (terminals s)[unat (active_terminal s) :=
     (ACTIVE_TERMINAL s)\<lparr>input_buffer := replicate INPUT_BUFFER_SIZE NEWLINE, buffer_index := 0\<rparr>]"
  "active_terminal (reset_buffer s) = active_terminal s"
  "tasks (reset_buffer s) = tasks s" "current_task (reset_buffer s) = current_task s"
  "pid_availability (reset_buffer s) = pid_availability s" "eflags (reset_buffer s) = eflags s"
  "mmu (reset_buffer s) = mmu s" "mem (reset_buffer s) = mem s"
  by (simp_all add: reset_buffer_def cli_and_save_def Let_def upd_active_def ACTIVE_TERMINAL_def)


end
