(* ===== verification/Terminal_Display.thy ===== *)
theory Terminal_Display
  imports Terminal
begin

text \<open>
  The displays of the three terminals. The contents of the active terminal are in video memory, those
  of the others in a page of their own; \<open>switch_terminals\<close> moves them by copying pages and
  redirecting the virtual pages. The theory shows that no contents are lost and which pages the
  kernel and the user program of the current task draw on afterwards.
\<close>

subsection \<open>Where a terminal's contents are\<close>

definition content_page :: "kstate \<Rightarrow> nat \<Rightarrow> u32" where
  "content_page s i = (if i = unat (active_terminal s) then BASE_VIDEO_MEM else term_page i)"

definition content :: "kstate \<Rightarrow> nat \<Rightarrow> u8 list" where
  "content s i = map (\<lambda>k. mem s (content_page s i + of_nat k)) [0..<4096]"

text \<open>Every terminal's own virtual page shows its contents: what \<open>putc_active\<close> needs.\<close>

definition own_pages :: "kstate \<Rightarrow> bool" where
  "own_pages s \<longleftrightarrow> (\<forall>i<3. maps s (video_mem (terminals s ! i)) (content_page s i))"

text \<open>The current task's kernel page 0xB8000 and user page 132 MB show its terminal: what \<open>putc\<close> and
  \<open>sys_vidmap\<close> need.\<close>

definition task_pages :: "kstate \<Rightarrow> bool" where
  "task_pages s \<longleftrightarrow> maps s VIDMEM (content_page s (unat (current_task s)))
     \<and> maps s VIRTUAL_END (content_page s (unat (current_task s)))"

lemma wf_video_mem: "wf_kernel s \<Longrightarrow> i < 3 \<Longrightarrow> video_mem (terminals s ! i) = term_page i"
  by (simp add: wf_kernelD term_page_def)

lemma df_clear_cli [simp]: "df_clear (cli s) = df_clear s"
proof -
  have "DF_MASK AND NOT IF_MASK = (DF_MASK :: u32)"
    by (simp add: IF_MASK_def DF_MASK_def)
  then have "(eflags s AND NOT IF_MASK) AND DF_MASK = eflags s AND DF_MASK"
    by (metis and.assoc and.commute)
  then show ?thesis by (simp add: df_clear_def)
qed

subsection \<open>\<open>switch_terminals\<close> step by step\<close>

definition switch_flags :: "u32 \<Rightarrow> kstate \<Rightarrow> kstate" where
  "switch_flags nxt s =
     upd_terminal (unat nxt) (\<lambda>t. t\<lparr>active := ACTIVE\<rparr>)
       ((upd_terminal (unat (active_terminal s)) (\<lambda>t. t\<lparr>active := INACTIVE\<rparr>) s)\<lparr>active_terminal := nxt\<rparr>)"

lemma wf_switch_flags:
  assumes "wf_kernel s" and "unat nxt < 3" and "nxt \<noteq> active_terminal s"
  shows "wf_kernel (switch_flags nxt s)"
proof -
  have "unat nxt \<noteq> unat (active_terminal s)" using assms(3) by (simp add: word_unat_eq_iff)
  then show ?thesis
    using assms(1,2) by (auto simp: wf_kernel_def terminals_ok_def tasks_ok_def switch_flags_def nth_updated)
qed

definition unit_map :: "paging \<Rightarrow> u32 \<Rightarrow> u32 \<Rightarrow> kstate \<Rightarrow> kstate" where
  "unit_map pg old_mem new_mem s =
     kmap pg new_mem new_mem (kmap pg old_mem old_mem (kmap pg BASE_VIDEO_MEM BASE_VIDEO_MEM s))"

definition swap_pages :: "u32 \<Rightarrow> u32 \<Rightarrow> kstate \<Rightarrow> kstate" where
  "swap_pages old_mem new_mem s =
     snd (memcpy BASE_VIDEO_MEM new_mem FOUR_K (snd (memcpy old_mem BASE_VIDEO_MEM FOUR_K s)))"

definition remap_task :: "paging \<Rightarrow> u32 \<Rightarrow> kstate \<Rightarrow> kstate" where
  "remap_task pg new_mem s =
     (let s = kmap pg new_mem BASE_VIDEO_MEM s
      in if active (task_term s) \<noteq> 0 then kmap pg VIRTUAL_END BASE_VIDEO_MEM s
         else kmap pg VIRTUAL_END new_mem (kmap pg BASE_VIDEO_MEM new_mem s))"

lemma switch_terminals_steps:
  assumes "wf_kernel s" and "unat nxt < 3" and "nxt \<noteq> active_terminal s"
  defines "o_page \<equiv> term_page (unat (active_terminal s))" and "n_page \<equiv> term_page (unat nxt)"
  shows "switch_terminals pg nxt s = restore_flags (eflags s) (update_cursor_active (remap_task pg n_page
     (swap_pages o_page n_page (unit_map pg o_page n_page (switch_flags nxt (cli s))))))"
proof -
  have wf: "wf_kernel (switch_flags nxt (cli s))"
    using wf_switch_flags [of "cli s" nxt] assms(1-3) by (simp add: cli_def wf_kernel_def)
  have vm: "video_mem (terminals (switch_flags nxt (cli s)) ! unat (active_terminal s)) = o_page"
    "video_mem (terminals (switch_flags nxt (cli s)) ! unat nxt) = n_page"
    using wf_video_mem [OF wf] wf_kernelD(2) [OF assms(1)] assms(2) by (simp_all add: o_page_def n_page_def)
  have a: "active_terminal (cli s) = active_terminal s" by (simp add: cli_def)
  show ?thesis
    using vm by (simp add: switch_terminals_def cli_and_save_def Let_def switch_flags_def unit_map_def swap_pages_def
        remap_task_def a)
qed

lemma unit_map_maps:
  assumes "paging_ok pg" and "i < 3" and "j < 3" and "page w"
  shows "maps (unit_map pg (term_page i) (term_page j) s) w q \<longleftrightarrow>
    (if w \<in> {BASE_VIDEO_MEM, term_page i, term_page j} then q = w else maps s w q)"
  using assms term_page_ok by (auto simp: unit_map_def kmap_maps)

lemma unit_map_fields [simp]:
  "mem (unit_map pg a b s) = mem s" "df_clear (unit_map pg a b s) = df_clear s"
  "terminals (unit_map pg a b s) = terminals s" "active_terminal (unit_map pg a b s) = active_terminal s"
  "tasks (unit_map pg a b s) = tasks s" "current_task (unit_map pg a b s) = current_task s"
  "pid_availability (unit_map pg a b s) = pid_availability s"
  by (simp_all add: unit_map_def)

lemma swap_pages_mem:
  assumes "maps s BASE_VIDEO_MEM BASE_VIDEO_MEM" and "maps s (term_page i) (term_page i)"
    and "maps s (term_page j) (term_page j)" and "i < 3" and "j < 3" and "df_clear s"
  shows "swap_pages (term_page i) (term_page j) s =
    s\<lparr>mem := blit (blit (mem s) (term_page i) BASE_VIDEO_MEM 4096) BASE_VIDEO_MEM (term_page j) 4096\<rparr>"
proof -
  have first: "snd (memcpy (term_page i) BASE_VIDEO_MEM FOUR_K s)
      = s\<lparr>mem := blit (mem s) (term_page i) BASE_VIDEO_MEM 4096\<rparr>" (is "_ = ?t")
    using assms term_page_ok term_page_other by (intro memcpy_page) auto
  have "maps ?t BASE_VIDEO_MEM BASE_VIDEO_MEM" "maps ?t (term_page j) (term_page j)"
    using assms(1,3) maps_cong [of ?t s] by simp_all
  then have "snd (memcpy BASE_VIDEO_MEM (term_page j) FOUR_K ?t)
      = ?t\<lparr>mem := blit (mem ?t) BASE_VIDEO_MEM (term_page j) 4096\<rparr>"
    using assms term_page_ok term_page_other [of j] by (intro memcpy_page) (auto simp: df_clear_def)
  then show ?thesis by (simp add: swap_pages_def first)
qed

lemma remap_task_maps:
  assumes "paging_ok pg" and "wf_kernel s" and "n = unat (active_terminal s)" and "page w"
  shows "maps (remap_task pg (term_page n) s) w q \<longleftrightarrow>
    (if w = term_page n then q = BASE_VIDEO_MEM
     else if w = VIRTUAL_END then q = (if unat (current_task s) = n then BASE_VIDEO_MEM else term_page n)
     else if w = BASE_VIDEO_MEM \<and> unat (current_task s) \<noteq> n then q = term_page n
     else maps s w q)"
proof -
  have n: "n < 3" using assms(2,3) wf_kernelD(2) by simp
  have "task_term (kmap pg (term_page n) BASE_VIDEO_MEM s) = task_term s"
    by (simp add: task_term_def CURRENT_TASK_def)
  then have act: "active (task_term (kmap pg (term_page n) BASE_VIDEO_MEM s)) \<noteq> 0 \<longleftrightarrow> unat (current_task s) = n"
    using assms(2,3) wf_kernelD by (simp add: task_term_eq)
  show ?thesis
    using assms(1,4) term_page_ok [OF n] term_page_other [OF n]
    by (auto simp: remap_task_def Let_def act kmap_maps)
qed

lemma remap_task_fields [simp]:
  "mem (remap_task pg a s) = mem s" "terminals (remap_task pg a s) = terminals s"
  "active_terminal (remap_task pg a s) = active_terminal s" "tasks (remap_task pg a s) = tasks s"
  "current_task (remap_task pg a s) = current_task s" "pid_availability (remap_task pg a s) = pid_availability s"
  by (simp_all add: remap_task_def Let_def)

lemma switch_flags_fields [simp]:
  "mem (switch_flags nxt s) = mem s" "mmu (switch_flags nxt s) = mmu s" "eflags (switch_flags nxt s) = eflags s"
  "active_terminal (switch_flags nxt s) = nxt" "tasks (switch_flags nxt s) = tasks s"
  "current_task (switch_flags nxt s) = current_task s"
  by (simp_all add: switch_flags_def)

lemma df_clear_switch_flags [simp]: "df_clear (switch_flags nxt s) = df_clear s"
  by (simp add: df_clear_def)

lemma update_cursor_active_fields [simp]:
  "mmu (update_cursor_active s) = mmu s" "terminals (update_cursor_active s) = terminals s"
  "active_terminal (update_cursor_active s) = active_terminal s" "tasks (update_cursor_active s) = tasks s"
  "current_task (update_cursor_active s) = current_task s"
  "pid_availability (update_cursor_active s) = pid_availability s"
  "mem (update_cursor_active s) = mem s" "eflags (update_cursor_active s) = eflags s"
  "pcbs (update_cursor_active s) = pcbs s" "global_pid (update_cursor_active s) = global_pid s"
  by (simp_all add: update_cursor_active_def Let_def cursor_outb_def outb_def)

text \<open>The state after a switch, as far as the displays are concerned.\<close>

lemma switch_terminals_effect:
  assumes "wf_kernel s" and "paging_ok pg" and "df_clear s" and "unat nxt < 3" and "nxt \<noteq> active_terminal s"
  defines "od \<equiv> unat (active_terminal s)" and "s' \<equiv> switch_terminals pg nxt s"
  shows "wf_kernel s'" and "active_terminal s' = nxt" and "current_task s' = current_task s"
    and "eflags s' = eflags s"
    and "mem s' = blit (blit (mem s) (term_page od) BASE_VIDEO_MEM 4096) BASE_VIDEO_MEM (term_page (unat nxt)) 4096"
    and "page w \<Longrightarrow> maps s' w q \<longleftrightarrow>
      (if w = term_page (unat nxt) then q = BASE_VIDEO_MEM
       else if w = term_page od then q = term_page od
       else if w = VIRTUAL_END \<or> w = BASE_VIDEO_MEM
         then q = (if unat (current_task s) = unat nxt then BASE_VIDEO_MEM else term_page (unat nxt))
       else maps s w q)"
proof -
  let ?n = "unat nxt"
  define s1 where "s1 = switch_flags nxt (cli s)"
  define s2 where "s2 = unit_map pg (term_page od) (term_page ?n) s1"
  define s3 where "s3 = swap_pages (term_page od) (term_page ?n) s2"
  define s4 where "s4 = remap_task pg (term_page ?n) s3"
  have od: "od < 3" using wf_kernelD(2) [OF assms(1)] by (simp add: od_def)
  have on: "od \<noteq> ?n" using assms(5) by (simp add: od_def word_unat_eq_iff)
  have s': "s' = restore_flags (eflags s) (update_cursor_active s4)"
    using switch_terminals_steps [OF assms(1,4,5), of pg]
    by (simp add: s'_def s4_def s3_def s2_def s1_def od_def)
  have c: "active_terminal (cli s) = active_terminal s" "current_task (cli s) = current_task s"
    "terminals (cli s) = terminals s" "tasks (cli s) = tasks s" "pid_availability (cli s) = pid_availability s"
    by (simp_all add: cli_def)
  have wf1: "wf_kernel s1"
    using wf_switch_flags [of "cli s" nxt] assms(1,4,5) by (simp add: s1_def wf_kernel_def c)
  have df2: "df_clear s2" using assms(3) by (simp add: s2_def s1_def)
  have m2: "maps s2 w q \<longleftrightarrow> (if w \<in> {BASE_VIDEO_MEM, term_page od, term_page ?n} then q = w else maps s w q)"
    if "page w" for w q
    using unit_map_maps [OF assms(2) od assms(4) that, of s1 q] maps_cong [of s1 s] by (simp add: s2_def s1_def)
  have s3: "s3 = s2\<lparr>mem := blit (blit (mem s) (term_page od) BASE_VIDEO_MEM 4096) BASE_VIDEO_MEM (term_page ?n) 4096\<rparr>"
    using swap_pages_mem [of s2 od ?n] m2 term_page_ok od assms(4) df2 by (simp add: s3_def s2_def s1_def)
  have f3: "terminals s3 = terminals s1" "active_terminal s3 = nxt" "tasks s3 = tasks s1"
    "current_task s3 = current_task s" "pid_availability s3 = pid_availability s1" "mmu s3 = mmu s2"
    by (simp_all add: s3 s2_def) (simp_all add: s1_def c)
  have wf3: "wf_kernel s3" by (rule wf_kernel_cong [OF wf1]) (simp_all add: f3, simp_all add: s1_def c)
  show "wf_kernel s'"
    by (rule wf_kernel_cong [OF wf3]) (simp_all add: s' restore_flags_def s4_def)
  show "active_terminal s' = nxt" "current_task s' = current_task s" "eflags s' = eflags s"
    "mem s' = blit (blit (mem s) (term_page od) BASE_VIDEO_MEM 4096) BASE_VIDEO_MEM (term_page ?n) 4096"
    by (simp_all add: s' restore_flags_def s4_def f3) (simp add: s3)
  assume w: "page w"
  have "maps s' w q = maps s4 w q" by (rule maps_cong) (simp add: s')
  also have "\<dots> \<longleftrightarrow> (if w = term_page ?n then q = BASE_VIDEO_MEM
     else if w = VIRTUAL_END then q = (if unat (current_task s) = ?n then BASE_VIDEO_MEM else term_page ?n)
     else if w = BASE_VIDEO_MEM \<and> unat (current_task s) \<noteq> ?n then q = term_page ?n
     else maps s3 w q)"
    unfolding s4_def using remap_task_maps [OF assms(2) wf3, of ?n w q] w by (simp add: f3)
  also have "maps s3 w q = maps s2 w q" by (rule maps_cong) (simp add: f3)
  finally show "maps s' w q \<longleftrightarrow> (if w = term_page (unat nxt) then q = BASE_VIDEO_MEM
       else if w = term_page od then q = term_page od
       else if w = VIRTUAL_END \<or> w = BASE_VIDEO_MEM
         then q = (if unat (current_task s) = unat nxt then BASE_VIDEO_MEM else term_page (unat nxt))
       else maps s w q)"
    using m2 [OF w, of q] term_page_other [OF od] term_page_other [OF assms(4)]
    by (cases "w = term_page ?n"; cases "w = term_page od"; cases "w = BASE_VIDEO_MEM") simp_all
qed

lemma switch_content:
  assumes "wf_kernel s" and "paging_ok pg" and "df_clear s" and "unat nxt < 3" and "nxt \<noteq> active_terminal s" and "i < 3"
  shows "content (switch_terminals pg nxt s) i = content s i"
proof -
  let ?s' = "switch_terminals pg nxt s" and ?o = "unat (active_terminal s)" and ?n = "unat nxt"
  note e = switch_terminals_effect [OF assms(1-5)]
  have on: "?o < 3" "?n < 3" "?o \<noteq> ?n" using wf_kernelD(2) [OF assms(1)] assms(4,5) by (simp_all add: word_unat_eq_iff)
  have pages: "page (term_page ?o)" "page (term_page ?n)" "page (term_page i)"
    using term_page_ok on assms(6) by simp_all
  have ne: "term_page ?o \<noteq> BASE_VIDEO_MEM" "term_page ?n \<noteq> BASE_VIDEO_MEM" "term_page i \<noteq> BASE_VIDEO_MEM"
    "term_page i = term_page ?o \<longleftrightarrow> i = ?o" "term_page ?o \<noteq> term_page ?n"
    using term_page_other term_page_inj on assms(6) by simp_all
  have "mem ?s' (content_page ?s' i + of_nat k) = mem s (content_page s i + of_nat k)" if "k < 4096" for k
    unfolding e(5) using that pages ne on by (auto simp: content_page_def e(2) blit_page)
  then show ?thesis by (simp add: content_def)
qed

subsection \<open>Properties\<close>

text \<open>C10. Switching terminals loses no output: for every current task and every next terminal other
  than the active one, the 4 KB contents of all three terminals are the same after
  \<open>switch_terminals\<close> as before, the kernel state stays well formed with the next terminal active,
  and every terminal's own virtual page shows its contents.\<close>

theorem switch_keeps_contents:
  assumes "wf_kernel s" and "paging_ok pg" and "df_clear s" and "unat nxt < NUM_TERMINALS"
    and "nxt \<noteq> active_terminal s" and "own_pages s"
  shows "(\<forall>i<NUM_TERMINALS. content (switch_terminals pg nxt s) i = content s i)
    \<and> wf_kernel (switch_terminals pg nxt s) \<and> active_terminal (switch_terminals pg nxt s) = nxt
    \<and> own_pages (switch_terminals pg nxt s)"
proof -
  let ?s' = "switch_terminals pg nxt s"
  note e = switch_terminals_effect [OF assms(1-5)]
  have ne: "unat nxt \<noteq> unat (active_terminal s)" using assms(5) by (simp add: word_unat_eq_iff)
  have "maps ?s' (video_mem (terminals ?s' ! i)) (content_page ?s' i)" if i: "i < 3" for i
  proof -
    have "maps s (term_page i) (content_page s i)"
      using assms(6) i wf_video_mem [OF assms(1) i] unfolding own_pages_def by metis
    then show ?thesis
      unfolding wf_video_mem [OF e(1) i] e(6) [OF term_page_ok(1) [OF i]]
      using i ne wf_kernelD(2) [OF assms(1)] assms(4) term_page_other [OF i]
      by (auto simp: content_page_def e(2) term_page_inj)
  qed
  then show ?thesis using switch_content [OF assms(1-5)] e(1,2) by (simp add: own_pages_def)
qed

lemma sample_own_pages:
  "own_pages (kmap simple_paging 0xB9000 0xB8000 sample_kernel)"
proof -
  have "maps sample_kernel w w" for w by (simp add: maps_def linear_def)
  then show ?thesis
    by (simp add: own_pages_def all_less_3 kmap_maps paging_ok_simple content_page_def sample_terminal_def)
qed

lemma sample_switch_state:
  "wf_kernel (kmap simple_paging 0xB9000 0xB8000 sample_kernel)"
  "df_clear (kmap simple_paging 0xB9000 0xB8000 sample_kernel)"
  using wf_kernel_cong [OF sample_kernel_wf] by simp_all

theorem switch_keeps_contents_witness:
  "content (switch_terminals simple_paging 2 (kmap simple_paging 0xB9000 0xB8000 sample_kernel)) 1
      = content (kmap simple_paging 0xB9000 0xB8000 sample_kernel) 1
    \<and> own_pages (switch_terminals simple_paging 2 (kmap simple_paging 0xB9000 0xB8000 sample_kernel))"
  using switch_keeps_contents [OF sample_switch_state(1) paging_ok_simple sample_switch_state(2), of 2]
    sample_own_pages by simp

text \<open>After a switch the current task draws on its own terminal exactly when that terminal is the
  new one. In every other case \<open>switch_terminals\<close> points 0xB8000 and the user video page at the page
  behind the new terminal (which shows nothing and is overwritten at the next switch), so output of
  the current task until the next scheduler tick does not reach its terminal.\<close>

theorem switch_task_pages:
  assumes "wf_kernel s" and "paging_ok pg" and "df_clear s" and "unat nxt < NUM_TERMINALS"
    and "nxt \<noteq> active_terminal s"
  shows "(task_pages (switch_terminals pg nxt s) \<longleftrightarrow> current_task s = nxt)
    \<and> (current_task s \<noteq> nxt \<longrightarrow>
        maps (switch_terminals pg nxt s) VIDMEM (term_page (unat nxt))
        \<and> maps (switch_terminals pg nxt s) VIRTUAL_END (term_page (unat nxt)))"
proof -
  note e = switch_terminals_effect [OF assms(1-5)]
  have n: "unat nxt < 3" "unat (current_task s) < 3" "unat (active_terminal s) < 3"
    using assms(4) wf_kernelD [OF assms(1)] by simp_all
  show ?thesis
    unfolding task_pages_def e(6) [OF display_pages(1)] e(6) [OF display_pages(5)]
    using n term_page_other [of "unat nxt"] term_page_other [of "unat (active_terminal s)"]
      term_page_inj [of "unat (current_task s)" "unat nxt"]
    by (auto simp: content_page_def e(2,3) word_unat_eq_iff)
qed

theorem switch_task_pages_witness:
  "\<not> task_pages (switch_terminals simple_paging 2 sample_kernel)"
  using switch_task_pages [OF sample_kernel_wf paging_ok_simple, of 2] by simp

subsection \<open>\<open>terminal_open\<close>\<close>

definition opened :: "nat \<Rightarrow> terminal \<Rightarrow> terminal" where
  "opened i t = t\<lparr>term_x := 0, term_y := 0, buffer_index := 0, input_status := INPUT_ENDED,
     terminal_number := of_nat i, active := (if i = 0 then 1 else 0), video_mem := term_page i,
     input_buffer := replicate INPUT_BUFFER_SIZE NEWLINE\<rparr>"

lemma open_terminal_fields:
  assumes "i < length (terminals s)"
  shows "terminals (open_terminal pg i s) = (terminals s)[i := opened i (terminals s ! i)]"
    and "mmu (open_terminal pg i s) = mmu (kmap pg (term_page i) (term_page i) s)"
  using assms by (simp_all add: open_terminal_def Let_def opened_def term_page_def kmap_def upd_terminal_def)

lemma open_terminal_keeps [simp]:
  "tasks (open_terminal pg i s) = tasks s" "current_task (open_terminal pg i s) = current_task s"
  "pid_availability (open_terminal pg i s) = pid_availability s"
  "eflags (open_terminal pg i s) = eflags s" "mem (open_terminal pg i s) = mem s"
  by (simp_all add: open_terminal_def Let_def)

lemma open_terminals:
  fixes s :: kstate
  assumes "length (terminals s) = 3" and "paging_ok pg"
  defines "s' \<equiv> fold (open_terminal pg) [0..<3] s"
  shows "length (terminals s') = 3" and "i < 3 \<Longrightarrow> terminals s' ! i = opened i (terminals s ! i)"
    and "i < 3 \<Longrightarrow> maps s' (term_page i) (term_page i)"
    and "tasks s' = tasks s" and "current_task s' = current_task s" and "pid_availability s' = pid_availability s"
    and "eflags s' = eflags s"
proof -
  define s1 where "s1 = open_terminal pg 0 s"
  define s2 where "s2 = open_terminal pg 1 s1"
  have s': "s' = open_terminal pg 2 s2"
    by (simp add: s'_def s2_def s1_def upt_rec numeral_2_eq_2)
  have t: "terminals s' = [opened 0 (terminals s ! 0), opened 1 (terminals s ! 1), opened 2 (terminals s ! 2)]"
    using assms(1) by (auto simp: s' s2_def s1_def open_terminal_fields nth_updated less_Suc_eq numeral_3_eq_3
        intro!: nth_equalityI)
  then show "length (terminals s') = 3" "i < 3 \<Longrightarrow> terminals s' ! i = opened i (terminals s ! i)"
    by (auto simp: less_Suc_eq numeral_3_eq_3 numeral_2_eq_2)
  have "maps s' w q \<longleftrightarrow> maps (kmap pg (term_page 2) (term_page 2) (kmap pg (term_page 1) (term_page 1)
      (kmap pg (term_page 0) (term_page 0) s))) w q" for w q
    by (rule maps_cong) (simp add: s' s2_def s1_def open_terminal_fields assms(1) kmap_def)
  then show "i < 3 \<Longrightarrow> maps s' (term_page i) (term_page i)"
    using assms(2) by (auto simp: kmap_maps less_Suc_eq numeral_3_eq_3)
  show "tasks s' = tasks s" "current_task s' = current_task s" "pid_availability s' = pid_availability s"
    "eflags s' = eflags s" by (simp_all add: s' s2_def s1_def)
qed

text \<open>The steps of \<open>terminal_open\<close>: up to the loop, and all of it.\<close>

definition terminal_reset :: "hardware \<Rightarrow> kstate \<Rightarrow> kstate" where
  "terminal_reset hw s = (reset_buffer (reset_screen (keyboard_init hw (cli s))))\<lparr>s_input_status := INPUT_ENDED\<rparr>"

lemma terminal_reset_fields [simp]:
  "length (terminals (terminal_reset hw s)) = length (terminals s)" "tasks (terminal_reset hw s) = tasks s"
  "current_task (terminal_reset hw s) = current_task s" "pid_availability (terminal_reset hw s) = pid_availability s"
  "mmu (terminal_reset hw s) = mmu s"
  by (simp_all add: terminal_reset_def)

lemma terminal_open_steps:
  assumes "length (terminals s) = 3" and "paging_ok pg"
  shows "terminal_open hw pg s = (0, restore_flags (eflags s) ((kmap pg 0xB9000 BASE_VIDEO_MEM (kmap pg BASE_VIDEO_MEM BASE_VIDEO_MEM
      ((fold (open_terminal pg) [0..<3] (terminal_reset hw s))
        \<lparr>s_input_buffer := replicate INPUT_BUFFER_SIZE NEWLINE, active_terminal := 0\<rparr>)))\<lparr>screen_x := 0, screen_y := 0\<rparr>))"
proof -
  have "video_mem (terminals (fold (open_terminal pg) [0..<3] (terminal_reset hw s)) ! 0) = 0xB9000"
    using open_terminals(2) [of "terminal_reset hw s" pg 0] assms by (simp add: opened_def)
  then show ?thesis
    by (simp add: terminal_open_def cli_and_save_def Let_def terminal_reset_def [symmetric] ACTIVE_TERMINAL_def
        set_video_params_def del: upt_rec_numeral)
qed

lemma terminal_open_result:
  assumes "length (terminals s) = NUM_TERMINALS" and "paging_ok pg" and "terminal_open hw pg s = (r, s')"
  shows "r = 0 \<and> terminals_ok (terminals s') (active_terminal s') \<and> active_terminal s' = 0
    \<and> own_pages s' \<and> maps s' VIDMEM (content_page s' 0)
    \<and> screen_x s' = 0 \<and> screen_y s' = 0 \<and> eflags s' = eflags s
    \<and> (\<forall>i<NUM_TERMINALS. terminals s' ! i = opened i (terminals s' ! i))
    \<and> tasks s' = tasks s \<and> current_task s' = current_task s \<and> pid_availability s' = pid_availability s"
proof -
  define s1 where "s1 = terminal_reset hw s"
  define s2 where "s2 = fold (open_terminal pg) [0..<3] s1"
  have f1: "length (terminals s1) = 3" "tasks s1 = tasks s" "current_task s1 = current_task s"
    "pid_availability s1 = pid_availability s"
    using assms(1) by (simp_all add: s1_def)
  note o = open_terminals [OF f1(1) assms(2), folded s2_def]
  let ?t = "s2\<lparr>s_input_buffer := replicate INPUT_BUFFER_SIZE NEWLINE, active_terminal := 0\<rparr>"
  have s': "s' = restore_flags (eflags s) ((kmap pg 0xB9000 BASE_VIDEO_MEM (kmap pg BASE_VIDEO_MEM BASE_VIDEO_MEM ?t))
      \<lparr>screen_x := 0, screen_y := 0\<rparr>)" and r: "r = 0"
    using assms(3) unfolding terminal_open_steps [OF assms(1,2)] s2_def s1_def by simp_all
  have f: "terminals s' = terminals s2" "active_terminal s' = 0" "tasks s' = tasks s"
    "current_task s' = current_task s" "pid_availability s' = pid_availability s" "eflags s' = eflags s"
    "screen_x s' = 0" "screen_y s' = 0"
    by (simp_all add: s' o f1 kmap_def)
  have m: "maps s' w q \<longleftrightarrow> (if w = 0xB9000 \<or> w = BASE_VIDEO_MEM then q = BASE_VIDEO_MEM else maps s2 w q)"
    if "page w" for w q
  proof -
    have "maps s' w q \<longleftrightarrow> maps (kmap pg 0xB9000 BASE_VIDEO_MEM (kmap pg BASE_VIDEO_MEM BASE_VIDEO_MEM s2)) w q"
      by (rule maps_cong) (simp add: s' kmap_def)
    then show ?thesis using that by (auto simp: kmap_maps [OF assms(2)])
  qed
  have opened: "\<forall>i<3. terminals s' ! i = opened i (terminals s' ! i)"
    using o(2) by (simp add: f(1) opened_def)
  have wf: "terminals_ok (terminals s') (active_terminal s')"
    using o(1,2) by (auto simp: terminals_ok_def f opened_def term_page_def)
  have "own_pages s'"
    using o(3) [of 1] o(3) [of 2] o(2)
    by (simp add: own_pages_def content_page_def f opened_def m all_less_3)
  moreover have "maps s' VIDMEM (content_page s' 0)" by (simp add: m content_page_def f)
  ultimately show ?thesis using wf r f opened by simp
qed

text \<open>C28. \<open>terminal_open\<close> puts the terminals in order from any contents of their array: the terminals are well formed
  with terminal 0 active, each has an empty input buffer, coordinates (0, 0) and its own page, every terminal's
  virtual page shows its contents, 0xB8000 shows the active terminal, the call returns 0 and the interrupt flag is
  what it was. It touches neither the tasks nor the process numbers, so the kernel's invariant holds behind it
  exactly if these two tables were in order before.\<close>

theorem terminal_open_establishes:
  assumes "length (terminals s) = NUM_TERMINALS" and "unat (active_terminal s) < NUM_TERMINALS"
    and "paging_ok pg" and "terminal_open hw pg s = (r, s')"
  shows "r = 0 \<and> terminals_ok (terminals s') (active_terminal s') \<and> active_terminal s' = 0
    \<and> own_pages s' \<and> maps s' VIDMEM (content_page s' 0)
    \<and> screen_x s' = 0 \<and> screen_y s' = 0 \<and> eflags s' = eflags s
    \<and> (\<forall>i<NUM_TERMINALS. terminals s' ! i = opened i (terminals s' ! i))
    \<and> tasks s' = tasks s \<and> current_task s' = current_task s \<and> pid_availability s' = pid_availability s
    \<and> (wf_kernel s' \<longleftrightarrow> tasks_ok (tasks s) (current_task s) \<and> length (pid_availability s) = NUM_PROCESSES)"
  using terminal_open_result [OF assms(1,3,4)] by (auto simp: wf_kernel_def)

text \<open>Terminals with no buffer at all, beside tables without entries.\<close>

definition raw_kernel :: kstate where
  "raw_kernel = sample_kernel\<lparr>terminals := replicate 3 ((terminals sample_kernel ! 0)\<lparr>input_buffer := [], buffer_index := 77, video_mem := 0\<rparr>),
     active_terminal := 2, tasks := [], pid_availability := []\<rparr>"

theorem terminal_open_establishes_witness:
  "\<not> terminals_ok (terminals raw_kernel) (active_terminal raw_kernel)
    \<and> terminals_ok (terminals (snd (terminal_open (\<lambda>h p. 0) simple_paging raw_kernel))) 0
    \<and> own_pages (snd (terminal_open (\<lambda>h p. 0) simple_paging raw_kernel))"
proof -
  let ?r = "terminal_open (\<lambda>h p. 0) simple_paging raw_kernel"
  have "length (terminals raw_kernel) = NUM_TERMINALS" "unat (active_terminal raw_kernel) < NUM_TERMINALS"
    by (simp_all add: raw_kernel_def)
  from terminal_open_establishes [OF this paging_ok_simple, of "\<lambda>h p. 0" "fst ?r" "snd ?r"]
  have "terminals_ok (terminals (snd ?r)) 0" "own_pages (snd ?r)" by auto
  moreover have "\<not> terminals_ok (terminals raw_kernel) (active_terminal raw_kernel)"
    by (auto simp: raw_kernel_def terminals_ok_def intro!: exI [of _ 0])
  ultimately show ?thesis by blast
qed

end
