(* ===== verification/Line_Input.thy ===== *)
theory Line_Input
  imports Terminal_Display
begin

text \<open>
  Line input: the keys typed on the active terminal edit a line, and \<open>terminal_read\<close> delivers it.
  The input buffer of \<^verbatim>\<open>terminal.c\<close> is shown to implement an abstract line (a list of
  characters with a bound), and a read to return what was typed. The theory also shows where the
  code departs from its comments: repeated line ends, the redraw of \<open>ctrl_l\<close>, and the terminal that
  is reset after a read.
\<close>

subsection \<open>Echoing changes coordinates only\<close>

lemma rep_movsl_more: "machine.more (snd (snd (rep_movsl n d a s))) = machine.more s"
  "mmu (snd (snd (rep_movsl n d a s))) = mmu s"
  by (induction n arbitrary: d a s) (simp_all add: wr32_def)

lemma memcpy_bottom_more: "machine.more (memcpy_bottom n d a s) = machine.more s"
  "mmu (memcpy_bottom n d a s) = mmu s"
  by (induction n arbitrary: d a s) simp_all

lemma memcpy_aligned_more: "machine.more (memcpy_aligned n d a s) = machine.more s"
  "mmu (memcpy_aligned n d a s) = mmu s"
  by (simp_all add: memcpy_aligned_def memcpy_bottom_more rep_movsl_more Let_def split_beta cld_def)

lemma memcpy_top_more:
  "machine.more (memcpy_top n d a s) = machine.more s \<and> mmu (memcpy_top n d a s) = mmu s"
proof (induction n d a s rule: memcpy_top.induct)
  case (1 n d a s)
  then show ?case by (subst (1 2) memcpy_top.simps) (simp add: memcpy_aligned_more)
qed

lemma memcpy_more [simp]: "machine.more (snd (memcpy d a n s)) = machine.more s"
  "mmu (snd (memcpy d a n s)) = mmu s"
  by (simp_all add: memcpy_def memcpy_top_more)

lemma move_rows_more [simp]: "machine.more (move_rows base n s) = machine.more s" "mmu (move_rows base n s) = mmu s"
  unfolding move_rows_def by (rule fold_keeps, simp)+

lemma put_cell_more [simp]: "machine.more (put_cell base i c s) = machine.more s" "mmu (put_cell base i c s) = mmu s"
  by (simp_all add: put_cell_def)

text \<open>\<open>echo s s'\<close>: from \<open>s\<close> to \<open>s'\<close> the terminals differ in their coordinates at most, and the
  variables input handling depends on are the same.\<close>

definition echo :: "kstate \<Rightarrow> kstate \<Rightarrow> bool" where
  "echo s s' \<longleftrightarrow> map forget_xy (terminals s') = map forget_xy (terminals s) \<and> mmu s' = mmu s
     \<and> active_terminal s' = active_terminal s \<and> tasks s' = tasks s \<and> current_task s' = current_task s
     \<and> pid_availability s' = pid_availability s \<and> pcbs s' = pcbs s \<and> global_pid s' = global_pid s
     \<and> s_buffer_index s' = s_buffer_index s"

lemma echo_refl: "echo s s"
  by (simp add: echo_def)

lemma echo_trans: "echo s t \<Longrightarrow> echo t u \<Longrightarrow> echo s u"
  by (simp add: echo_def)

lemma echo_more: "machine.more s' = machine.more s \<Longrightarrow> mmu s' = mmu s \<Longrightarrow> echo s s'"
  by (simp add: echo_def kfields_more [of s' s])

lemma echo_upd_active:
  assumes "\<And>t. forget_xy (f t) = forget_xy t"
  shows "echo s (upd_active f s)"
proof -
  have "map forget_xy ((terminals s)[i := f (terminals s ! i)]) = map forget_xy (terminals s)" for i
    by (rule nth_equalityI) (auto simp: nth_updated assms)
  then show ?thesis
    by (simp add: echo_def upd_active_def) (simp add: upd_terminal_def)
qed

lemma echo_cursor: "echo s (update_cursor_active s)"
  by (simp add: echo_def) (simp add: update_cursor_active_def Let_def cursor_outb_def outb_def)

lemma putc_active_echo: "echo s (putc_active c s)"
proof -
  have xy: "forget_xy (t\<lparr>term_x := a, term_y := b\<rparr>) = forget_xy t"
    "forget_xy (t\<lparr>term_y := b, term_x := a\<rparr>) = forget_xy t"
    "forget_xy (t\<lparr>term_x := a\<rparr>) = forget_xy t" "forget_xy (t\<lparr>term_y := b\<rparr>) = forget_xy t" for t a b
    by (simp_all add: forget_xy_def)
  have cell: "echo t u \<Longrightarrow> echo t (put_cell base i c' u)" for t u :: kstate and base i c'
    by (erule echo_trans) (rule echo_more, simp_all)
  have upd: "(\<And>r. forget_xy (f r) = forget_xy r) \<Longrightarrow> echo t u \<Longrightarrow> echo t (upd_active f u)" for f t u
    by (erule echo_trans) (rule echo_upd_active)
  have draw: "echo s (putc_active_draw c s)"
    unfolding putc_active_draw_def Let_def by (simp add: xy cell upd echo_refl)
  have scroll: "echo t (scroll_display_active t)" for t
    unfolding scroll_display_active_def Let_def
    by (rule echo_trans [OF echo_more echo_upd_active]) (simp_all add: xy)
  show ?thesis
    unfolding putc_active_def Let_def
    by (rule echo_trans [OF _ echo_cursor]) (use draw echo_trans [OF draw scroll] in simp)
qed

lemma echo_wf: "wf_kernel s \<Longrightarrow> echo s s' \<Longrightarrow> wf_kernel s'"
proof -
  assume wf: "wf_kernel s" and e: "echo s s'"
  have f: "map forget_xy (terminals s') = map forget_xy (terminals s)" using e by (simp add: echo_def)
  then have "length (terminals s') = length (terminals s)" by (metis length_map)
  then show "wf_kernel s'"
    using wf e forget_xy_nth [OF f] by (auto simp: echo_def wf_kernel_def terminals_ok_def)
qed

lemma echo_active:
  assumes "wf_kernel s" and "echo s s'"
  shows "input_buffer (ACTIVE_TERMINAL s') = input_buffer (ACTIVE_TERMINAL s)"
    "buffer_index (ACTIVE_TERMINAL s') = buffer_index (ACTIVE_TERMINAL s)"
    "input_status (ACTIVE_TERMINAL s') = input_status (ACTIVE_TERMINAL s)"
  using forget_xy_nth [of "terminals s'" "terminals s" "unat (active_terminal s)"] assms
  by (simp_all add: echo_def ACTIVE_TERMINAL_def wf_kernelD)

subsection \<open>The abstract line\<close>

definition edit_line :: "u8 \<Rightarrow> u8 list \<Rightarrow> u8 list" where
  "edit_line c line =
     (if c = 0 \<or> c = TAB then line
      else if c = BKSP then butlast line
      else if length line < 127 then line @ [c] else line)"

definition holds_line :: "u8 list \<Rightarrow> terminal \<Rightarrow> bool" where
  "holds_line line t \<longleftrightarrow> length line \<le> 127 \<and> buffer_index t = of_nat (length line)
     \<and> input_buffer t = line @ replicate (128 - length line) NEWLINE"

lemma edit_line_bound: "length line \<le> 127 \<Longrightarrow> length (edit_line c line) \<le> 127"
  by (auto simp: edit_line_def)

lemma replicate_first: "n < 128 \<Longrightarrow> replicate (128 - n) x = x # replicate (127 - n) x"
proof -
  assume "n < 128"
  then have "128 - n = Suc (127 - n)" by linarith
  then show ?thesis by simp
qed

lemma byte_index: "n < 256 \<Longrightarrow> unat (of_nat n :: u8) = n"
  by (simp add: unat_of_nat take_bit_nat_eq_self)

text \<open>Changing fields other than the page, the activity and the buffer length keeps a state well
  formed.\<close>

lemma wf_upd_active:
  assumes "wf_kernel s" and "video_mem (f (ACTIVE_TERMINAL s)) = video_mem (ACTIVE_TERMINAL s)"
    and "active (f (ACTIVE_TERMINAL s)) = active (ACTIVE_TERMINAL s)"
    and "length (input_buffer (f (ACTIVE_TERMINAL s))) = 128"
  shows "wf_kernel (upd_active f s)"
  using assms wf_kernelD(2,8) [OF assms(1)] unfolding upd_active_def
  by (intro wf_upd_terminal) (simp_all add: ACTIVE_TERMINAL_def)

lemma upd_active_twice: "wf_kernel s \<Longrightarrow> upd_active f (upd_active g s) = upd_active (\<lambda>t. f (g t)) s"
  by (simp add: upd_active_def upd_terminal_def wf_kernelD)

definition same_kernel :: "kstate \<Rightarrow> kstate \<Rightarrow> bool" where
  "same_kernel s s' \<longleftrightarrow> mmu s' = mmu s \<and> active_terminal s' = active_terminal s \<and> tasks s' = tasks s
     \<and> current_task s' = current_task s \<and> pcbs s' = pcbs s \<and> global_pid s' = global_pid s
     \<and> s_buffer_index s' = s_buffer_index s"

lemma same_kernel_trans: "same_kernel s t \<Longrightarrow> same_kernel t u \<Longrightarrow> same_kernel s u"
  by (simp add: same_kernel_def)

lemma echo_same: "echo s s' \<Longrightarrow> same_kernel s s'"
  by (simp add: echo_def same_kernel_def)

lemma upd_active_same: "same_kernel s (upd_active f s)"
  by (simp add: same_kernel_def upd_active_def) (simp add: upd_terminal_def)

text \<open>The line in the buffer of a terminal. A key leaves the kernel alone or shows its character and puts the
  edited line there.\<close>

definition put_line :: "u8 list \<Rightarrow> terminal \<Rightarrow> terminal" where
  "put_line line t = t\<lparr>input_buffer := line @ replicate (128 - length line) NEWLINE, buffer_index := of_nat (length line)\<rparr>"

lemma upd_active_cong: "f (ACTIVE_TERMINAL s) = g (ACTIVE_TERMINAL s) \<Longrightarrow> upd_active f s = upd_active g s"
  by (simp add: upd_active_def upd_terminal_def ACTIVE_TERMINAL_def)

lemma plain_key_cases:
  assumes "wf_kernel s" and "holds_line line (ACTIVE_TERMINAL s)" and "c \<noteq> NEWLINE"
  shows "edit_line c line = line \<and> plain_key c s = Some s
    \<or> edit_line c line \<noteq> line \<and> (c = BKSP \<longrightarrow> line \<noteq> []) \<and> plain_key c s = Some (upd_active (put_line (edit_line c line)) (putc_active c s))"
proof -
  let ?p = "putc_active c s"
  have wfp: "wf_kernel ?p" by (rule echo_wf [OF assms(1) putc_active_echo])
  note ep = echo_active [OF assms(1) putc_active_echo, of c]
  have len: "length line \<le> 127" and idx: "buffer_index (ACTIVE_TERMINAL s) = of_nat (length line)"
    and buf: "input_buffer (ACTIVE_TERMINAL s) = line @ replicate (128 - length line) NEWLINE"
    using assms(2) by (simp_all add: holds_line_def)
  have u: "unat (buffer_index (ACTIVE_TERMINAL s)) = length line" using len by (simp add: idx byte_index)
  consider "c = 0 \<or> c = TAB \<or> c = BKSP \<and> line = []" | l x where "c = BKSP" "line = l @ [x]"
    | "c \<notin> {0, TAB, BKSP}" "length line < 127" | "c \<notin> {0, TAB, BKSP}" "length line = 127"
    using len by (metis (no_types, opaque_lifting) insert_iff nat_less_le rev_exhaust singletonD)
  then show ?thesis
  proof cases
    case 1
    then show ?thesis using u by (auto simp: plain_key_def edit_line_def word_less_nat_alt)
  next
    case (2 l x)
    have i: "buffer_index (ACTIVE_TERMINAL s) - 1 = of_nat (length l)" by (simp add: idx 2(2))
    have b: "aput (input_buffer (ACTIVE_TERMINAL s)) (length l) NEWLINE = Some (l @ replicate (128 - length l) NEWLINE)"
      using len by (simp add: buf 2(2) list_update_append replicate_first)
    have "plain_key c s = Some (upd_active (\<lambda>t. t\<lparr>buffer_index := buffer_index t - 1, input_buffer := l @ replicate (128 - length l) NEWLINE\<rparr>) ?p)"
      using 2 u i b ep len wfp by (simp add: plain_key_def Let_def ACTIVE_TERMINAL_upd word_less_nat_alt byte_index upd_active_twice)
    also have "\<dots> = Some (upd_active (put_line l) ?p)" using i ep by (intro arg_cong [of _ _ Some] upd_active_cong) (simp add: put_line_def)
    finally show ?thesis using 2 by (simp add: edit_line_def)
  next
    case 3
    have b: "aput (input_buffer (ACTIVE_TERMINAL s)) (length line) c = Some ((line @ [c]) @ replicate (127 - length line) NEWLINE)"
      using 3(2) by (simp add: buf list_update_append replicate_first)
    have "plain_key c s = Some (upd_active (\<lambda>t. t\<lparr>input_buffer := (line @ [c]) @ replicate (127 - length line) NEWLINE, buffer_index := buffer_index t + 1\<rparr>) ?p)"
      using 3 u b ep assms(3) by (simp add: plain_key_def Let_def word_less_nat_alt)
    also have "\<dots> = Some (upd_active (put_line (line @ [c])) ?p)"
      using idx ep by (intro arg_cong [of _ _ Some] upd_active_cong) (simp add: put_line_def)
    finally show ?thesis using 3 by (simp add: edit_line_def)
  next
    case 4
    then show ?thesis using u assms(3) by (simp add: plain_key_def edit_line_def word_less_nat_alt)
  qed
qed

lemma plain_key_edits:
  assumes "wf_kernel s" and "holds_line line (ACTIVE_TERMINAL s)" and "c \<noteq> NEWLINE"
  shows "\<exists>s'. plain_key c s = Some s' \<and> wf_kernel s' \<and> holds_line (edit_line c line) (ACTIVE_TERMINAL s')
    \<and> input_status (ACTIVE_TERMINAL s') = input_status (ACTIVE_TERMINAL s) \<and> same_kernel s s'"
proof (cases "edit_line c line = line")
  case True
  then show ?thesis using plain_key_cases [OF assms] assms(1,2) by (auto simp: same_kernel_def)
next
  case False
  let ?p = "putc_active c s" and ?L = "edit_line c line"
  have wfp: "wf_kernel ?p" by (rule echo_wf [OF assms(1) putc_active_echo])
  have len: "length ?L \<le> 127" using assms(2) by (simp add: holds_line_def edit_line_bound)
  have "wf_kernel (upd_active (put_line ?L) ?p)" using wfp len by (intro wf_upd_active) (simp_all add: put_line_def)
  moreover have "same_kernel s (upd_active (put_line ?L) ?p)"
    by (rule same_kernel_trans [OF echo_same [OF putc_active_echo] upd_active_same])
  ultimately show ?thesis
    using plain_key_cases [OF assms] False len wfp echo_active(3) [OF assms(1) putc_active_echo, of c]
    by (simp add: ACTIVE_TERMINAL_upd holds_line_def put_line_def)
qed

subsection \<open>Reading a line\<close>

definition key_irq :: "u8 \<Rightarrow> kstate \<Rightarrow> kstate" where
  "key_irq c s = (case plain_key c s of Some s' \<Rightarrow> s' | None \<Rightarrow> s)"

lemma newline_key:
  assumes "wf_kernel s" and "holds_line line (ACTIVE_TERMINAL s)"
  shows "wf_kernel (key_irq NEWLINE s)" "same_kernel s (key_irq NEWLINE s)"
    "input_status (ACTIVE_TERMINAL (key_irq NEWLINE s)) = 0"
    "buffer_index (ACTIVE_TERMINAL (key_irq NEWLINE s)) = of_nat (length line + 1)"
    "input_buffer (ACTIVE_TERMINAL (key_irq NEWLINE s)) = line @ replicate (128 - length line) NEWLINE"
proof -
  let ?p = "putc_active NEWLINE s"
  have wfp: "wf_kernel ?p" by (rule echo_wf [OF assms(1) putc_active_echo])
  note ep = echo_active [OF assms(1) putc_active_echo, of NEWLINE]
  have k: "key_irq NEWLINE s = upd_active (\<lambda>t. t\<lparr>input_status := INPUT_ENDED, buffer_index := buffer_index t + 1\<rparr>) ?p"
    by (simp add: key_irq_def plain_key_def Let_def)
  show "wf_kernel (key_irq NEWLINE s)"
    unfolding k using wfp ep(1) assms(2) by (intro wf_upd_active) (simp_all add: holds_line_def)
  show "same_kernel s (key_irq NEWLINE s)"
    unfolding k by (rule same_kernel_trans [OF echo_same [OF putc_active_echo] upd_active_same])
  show "input_status (ACTIVE_TERMINAL (key_irq NEWLINE s)) = 0"
    "buffer_index (ACTIVE_TERMINAL (key_irq NEWLINE s)) = of_nat (length line + 1)"
    "input_buffer (ACTIVE_TERMINAL (key_irq NEWLINE s)) = line @ replicate (128 - length line) NEWLINE"
    using wfp ep assms(2) by (simp_all add: k ACTIVE_TERMINAL_upd holds_line_def)
qed

lemma active_nth: "terminals s ! unat (active_terminal s) = ACTIVE_TERMINAL s"
  by (simp add: ACTIVE_TERMINAL_def)

lemma spin_line:
  assumes "wf_kernel s" and "holds_line line (ACTIVE_TERMINAL s)" and "NEWLINE \<notin> set keys"
    and "input_status (ACTIVE_TERMINAL s) \<noteq> 0"
  shows "\<exists>s'. spin (unat (active_terminal s)) (map key_irq (keys @ [NEWLINE])) s = Some s' \<and> wf_kernel s'
    \<and> same_kernel s s' \<and> length (fold edit_line keys line) \<le> 127
    \<and> buffer_index (ACTIVE_TERMINAL s') = of_nat (length (fold edit_line keys line) + 1)
    \<and> input_buffer (ACTIVE_TERMINAL s') =
        fold edit_line keys line @ replicate (128 - length (fold edit_line keys line)) NEWLINE"
  using assms
proof (induction keys arbitrary: s line)
  case Nil
  note k = newline_key [OF Nil(1,2)]
  have "unat (active_terminal (key_irq NEWLINE s)) = unat (active_terminal s)"
    using k(2) by (simp add: same_kernel_def)
  then have "spin (unat (active_terminal s)) (map key_irq [NEWLINE]) s = Some (key_irq NEWLINE s)"
    using k(3) Nil(4) by (simp add: active_nth) (metis active_nth)
  then show ?case using k Nil(2) by (simp add: holds_line_def)
next
  case (Cons c keys)
  then obtain s1 where s1: "plain_key c s = Some s1" "wf_kernel s1" "holds_line (edit_line c line) (ACTIVE_TERMINAL s1)"
    "input_status (ACTIVE_TERMINAL s1) = input_status (ACTIVE_TERMINAL s)" "same_kernel s s1"
    using plain_key_edits [of s line c] by auto
  then have k: "key_irq c s = s1" by (simp add: key_irq_def)
  have a: "active_terminal s1 = active_terminal s" using s1(5) by (simp add: same_kernel_def)
  have "spin (unat (active_terminal s)) (map key_irq ((c # keys) @ [NEWLINE])) s
      = spin (unat (active_terminal s1)) (map key_irq (keys @ [NEWLINE])) s1"
    using Cons.prems(4) by (simp add: active_nth k a)
  then show ?case
    using Cons.IH [OF s1(2,3)] Cons.prems s1(4) same_kernel_trans [OF s1(5)] by auto
qed

lemma store_bytes_snoc: "store_bytes (bs @ [b]) a s = wr8 (a + of_nat (length bs)) b (store_bytes bs a s)"
  by (induction bs arbitrary: a s) (simp_all add: ac_simps)

lemma store_bytes_fields [simp]:
  "mmu (store_bytes bs a s) = mmu s" "machine.more (store_bytes bs a s) = machine.more s"
  "eflags (store_bytes bs a s) = eflags s"
  by (induction bs arbitrary: a s) simp_all

lemma rd8_store_bytes:
  assumes "linear s a q (length bs)" and "length bs \<le> 4096" and "i < length bs"
  shows "rd8 (store_bytes bs a s) (a + of_nat i) = bs ! i"
  using assms
proof (induction bs rule: rev_induct)
  case (snoc b bs)
  then have lin: "linear s a q (length bs)" by (simp add: linear_def)
  have "mmu s (a + of_nat (length bs)) = q + of_nat (length bs)" "mmu s (a + of_nat i) = q + of_nat i"
    using snoc.prems by (auto intro!: linearD)
  moreover have "q + of_nat (length bs) = q + of_nat i \<longleftrightarrow> length bs = i"
    using snoc.prems by (intro offset_eq_iff) simp_all
  ultimately show ?case
    using snoc lin by (auto simp: store_bytes_snoc rd8_wr8 nth_append less_Suc_eq)
qed simp

lemma nonneg_word: "\<not> slt x 0 \<Longrightarrow> unat x < 2147483648"
proof -
  assume "\<not> slt x 0"
  then have "\<not> sint x < 0" by (simp add: slt_def)
  then have "\<not> bit x 31" using bit_last_iff [of x] by simp
  moreover have "n = 31 \<or> n < 31" if "n < 32" for n :: nat using that by linarith
  ultimately have "take_bit 31 x = x"
    by (intro bit_word_eqI) (auto simp: bit_simps)
  then have "unat x = take_bit 31 (unat x)" by (metis unsigned_take_bit_eq)
  moreover have "take_bit 31 (unat x) < 2 ^ 31" by (rule take_bit_nat_less_exp)
  ultimately show ?thesis by simp
qed

subsection \<open>Properties of terminal input\<close>

lemma ucast_byte_index: "n < 256 \<Longrightarrow> (ucast (of_nat n :: u8) :: u32) = of_nat n"
  by (simp add: word_unat_eq_iff unsigned_ucast_eq unat_of_nat take_bit_nat_eq_self)

lemma read_copies:
  assumes "wf_kernel s" and "buf \<noteq> 0" and "\<not> slt nbytes 0" and "t = pcb_terminal (pcbs s (CURRENT_PCB_ADDRESS s))"
    and "spin t irqs (upd_terminal t (\<lambda>r. r\<lparr>input_status := IN_PROGRESS\<rparr>) s) = Some s1"
    and "buffer_index (terminals s1 ! t) = of_nat n" and "n \<le> 128" and "length (input_buffer (terminals s1 ! t)) = 128"
  shows "terminal_read irqs buf nbytes s =
    Some (of_nat (min n (unat nbytes)), reset_buffer (store_bytes (take (min n (unat nbytes)) (input_buffer (terminals s1 ! t))) buf s1))"
proof -
  have b: "unat nbytes < 2147483648" by (rule nonneg_word [OF assms(3)])
  have n: "unat (of_nat n :: u32) = n" using assms(7) by (simp add: unat_of_nat take_bit_nat_eq_self)
  have sl: "slt (of_nat n) nbytes \<longleftrightarrow> n < unat nbytes" using b n assms(7) by (simp add: slt_unat)
  show ?thesis
  proof (cases "n < unat nbytes")
    case True
    then show ?thesis
      using assms(2,3,5,6,7,8) sl n
      by (simp add: terminal_read_def Let_def assms(4) [symmetric] ucast_byte_index)
  next
    case False
    then show ?thesis
      using assms(2,3,5,6,7,8) sl n
      by (simp add: terminal_read_def Let_def assms(4) [symmetric] ucast_byte_index min_def)
  qed
qed

lemma reset_buffer_line:
  assumes "wf_kernel s"
  shows "wf_kernel (reset_buffer s)" "holds_line [] (ACTIVE_TERMINAL (reset_buffer s))"
proof -
  let ?f = "\<lambda>t. t\<lparr>input_buffer := replicate INPUT_BUFFER_SIZE NEWLINE, buffer_index := 0\<rparr> :: terminal"
  have "wf_kernel (upd_active ?f (cli s))"
    using assms wf_kernel_cong [OF assms, of "cli s"] by (intro wf_upd_active) simp_all
  then show "wf_kernel (reset_buffer s)"
    by (rule wf_kernel_cong) (simp_all add: reset_buffer_def cli_and_save_def Let_def)
  show "holds_line [] (ACTIVE_TERMINAL (reset_buffer s))"
    using assms by (simp add: ACTIVE_TERMINAL_def holds_line_def wf_kernelD)
qed

text \<open>C3. What is typed is what is read. A process whose terminal is the active one reads: for every
  sequence of keys (characters, backspaces, ignored keys) ended by Enter, \<open>terminal_read\<close> stores at
  the user buffer the first bytes of the line the keys edit (at most 127 characters, backspace
  removing the last one) with its newline, returns their number, and leaves the terminal with an
  empty line.\<close>

theorem read_delivers_line:
  assumes "wf_kernel s" and "pcb_terminal (pcbs s (CURRENT_PCB_ADDRESS s)) = unat (active_terminal s)"
    and "holds_line [] (ACTIVE_TERMINAL s)" and "NEWLINE \<notin> set keys" and "buf \<noteq> 0" and "\<not> slt nbytes 0"
    and "line = fold edit_line keys []" and "r = min (length line + 1) (unat nbytes)" and "linear s buf q r"
  shows "\<exists>s'. terminal_read (map key_irq (keys @ [NEWLINE])) buf nbytes s = Some (of_nat r, s')
    \<and> (\<forall>i<r. rd8 s' (buf + of_nat i) = (line @ [NEWLINE]) ! i)
    \<and> holds_line [] (ACTIVE_TERMINAL s') \<and> wf_kernel s' \<and> length line \<le> 127"
proof -
  define u where "u = upd_active (\<lambda>r. r\<lparr>input_status := IN_PROGRESS\<rparr>) s"
  have u: "u = upd_terminal (unat (active_terminal s)) (\<lambda>r. r\<lparr>input_status := IN_PROGRESS\<rparr>) s"
    by (simp add: u_def upd_active_def)
  have lenA: "length (input_buffer (ACTIVE_TERMINAL s)) = 128"
    using assms(3) by (simp add: holds_line_def)
  have "wf_kernel u" unfolding u_def using assms(1) lenA by (intro wf_upd_active) simp_all
  moreover have "holds_line [] (ACTIVE_TERMINAL u)" "input_status (ACTIVE_TERMINAL u) \<noteq> 0"
    using assms(1,3) by (simp_all add: u_def ACTIVE_TERMINAL_upd holds_line_def)
  moreover have au: "active_terminal u = active_terminal s" by (simp add: u)
  ultimately obtain s1 where s1: "spin (unat (active_terminal s)) (map key_irq (keys @ [NEWLINE])) u = Some s1"
    "wf_kernel s1" "same_kernel u s1" "length line \<le> 127"
    "buffer_index (ACTIVE_TERMINAL s1) = of_nat (length line + 1)"
    "input_buffer (ACTIVE_TERMINAL s1) = line @ replicate (128 - length line) NEWLINE"
    using spin_line [of u "[]" keys] assms(4,7) by auto
  have a1: "active_terminal s1 = active_terminal s" "mmu s1 = mmu s"
    using s1(3) au by (simp_all add: same_kernel_def) (simp_all add: u)
  have t: "terminals s1 ! unat (active_terminal s) = ACTIVE_TERMINAL s1" by (simp add: ACTIVE_TERMINAL_def a1)
  let ?bs = "take r (input_buffer (ACTIVE_TERMINAL s1))"
  have read: "terminal_read (map key_irq (keys @ [NEWLINE])) buf nbytes s = Some (of_nat r, reset_buffer (store_bytes ?bs buf s1))"
    using read_copies [OF assms(1,5,6) assms(2) [symmetric], of "map key_irq (keys @ [NEWLINE])" s1 "length line + 1"]
      s1 t u assms(8) by simp
  have lenr: "length ?bs = r" using s1(4,6) assms(8) by simp
  have "linear s1 buf q (length ?bs)" using assms(9) a1 lenr by (simp add: linear_def)
  moreover have "r \<le> 128" using s1(4) assms(8) by simp
  ultimately have "rd8 (store_bytes ?bs buf s1) (buf + of_nat i) = ?bs ! i" if "i < r" for i
    using rd8_store_bytes [of s1 buf q ?bs i] lenr that by simp
  moreover have "?bs ! i = (line @ [NEWLINE]) ! i" if "i < r" for i
    using that s1(4,6) assms(8) by (auto simp: nth_append less_Suc_eq)
  ultimately have bytes: "\<forall>i<r. rd8 (reset_buffer (store_bytes ?bs buf s1)) (buf + of_nat i) = (line @ [NEWLINE]) ! i"
    by (simp add: rd8_def)
  let ?e = "store_bytes ?bs buf s1"
  have we: "wf_kernel ?e" by (rule wf_kernel_cong [OF s1(2)]) (simp_all add: kfields_more [OF store_bytes_fields(2)])
  have "wf_kernel (reset_buffer ?e)" "holds_line [] (ACTIVE_TERMINAL (reset_buffer ?e))" by (rule reset_buffer_line [OF we])+
  then show ?thesis using read bytes s1(4) by blast
qed

theorem read_delivers_line_witness:
  "\<exists>s'. terminal_read (map key_irq ([0x6C, 0x78, 0x08, 0x73] @ [NEWLINE])) 0x8048000 2 sample_kernel = Some (of_nat 2, s')
    \<and> rd8 s' (0x8048000 + of_nat 1) = ([0x6C, 0x73] @ [NEWLINE]) ! 1"
proof -
  have l: "fold edit_line [0x6C, 0x78, 0x08, 0x73] [] = [0x6C, 0x73]" by (simp add: edit_line_def)
  have h: "holds_line [] (ACTIVE_TERMINAL sample_kernel)" by (simp add: holds_line_def sample_terminal_def)
  have t: "pcb_terminal (pcbs sample_kernel (CURRENT_PCB_ADDRESS sample_kernel)) = unat (active_terminal sample_kernel)"
    by (simp add: sample_pcb_def)
  have n: "\<not> slt 2 0" by (simp add: slt_def)
  have k: "NEWLINE \<notin> set [0x6C, 0x78, 0x08, 0x73]" by simp
  have r: "2 = min (length [0x6C, 0x73 :: u8] + 1) (unat (2::u32))" by simp
  have b: "(0x8048000 :: u32) \<noteq> 0" by simp
  have m: "linear sample_kernel 0x8048000 0x8048000 2" by (simp add: linear_def)
  have one_less_two: "(1 :: nat) < 2" by simp
  show ?thesis
    using read_delivers_line [OF sample_kernel_wf t h k b n l [symmetric] r m] one_less_two by blast
qed

lemma newlines_index:
  assumes "wf_kernel s"
  shows "wf_kernel (fold key_irq (replicate n NEWLINE) s)
    \<and> buffer_index (ACTIVE_TERMINAL (fold key_irq (replicate n NEWLINE) s)) = buffer_index (ACTIVE_TERMINAL s) + of_nat n"
  using assms
proof (induction n arbitrary: s)
  case (Suc n)
  let ?p = "putc_active NEWLINE s"
  have wfp: "wf_kernel ?p" by (rule echo_wf [OF Suc.prems putc_active_echo])
  have k: "key_irq NEWLINE s = upd_active (\<lambda>t. t\<lparr>input_status := INPUT_ENDED, buffer_index := buffer_index t + 1\<rparr>) ?p"
    by (simp add: key_irq_def plain_key_def Let_def)
  have "wf_kernel (key_irq NEWLINE s)"
    unfolding k using wfp wf_kernelD(2,8) [OF wfp] by (intro wf_upd_active) (simp_all add: ACTIVE_TERMINAL_def)
  moreover have "buffer_index (ACTIVE_TERMINAL (key_irq NEWLINE s)) = buffer_index (ACTIVE_TERMINAL s) + 1"
    using wfp echo_active(2) [OF Suc.prems putc_active_echo] by (simp add: k ACTIVE_TERMINAL_upd)
  ultimately show ?case using Suc.IH by simp
qed simp

text \<open>Enter is not bounded: it advances the index of the buffer even when nobody reads. After 129
  line ends on an empty line the next backspace stores outside the 128-byte input buffer.\<close>

theorem enter_overruns_buffer:
  assumes "wf_kernel s" and "buffer_index (ACTIVE_TERMINAL s) = 0"
  shows "buffer_index (ACTIVE_TERMINAL (fold key_irq (replicate 129 NEWLINE) s)) = 129
    \<and> plain_key BKSP (fold key_irq (replicate 129 NEWLINE) s) = None"
proof -
  let ?s = "fold key_irq (replicate 129 NEWLINE) s"
  have wf: "wf_kernel ?s" and i: "buffer_index (ACTIVE_TERMINAL ?s) = 129"
    using newlines_index [OF assms(1), of 129] assms(2) by simp_all
  let ?p = "putc_active BKSP ?s"
  have wfp: "wf_kernel ?p" by (rule echo_wf [OF wf putc_active_echo])
  have "length (input_buffer (ACTIVE_TERMINAL ?p)) = 128"
    using wf_kernelD(2,8) [OF wfp] by (simp add: ACTIVE_TERMINAL_def)
  then have "plain_key BKSP ?s = None"
    using i echo_active(2) [OF wf putc_active_echo, of BKSP] wfp
    by (simp add: plain_key_def Let_def ACTIVE_TERMINAL_upd)
  then show ?thesis using i by simp
qed

theorem enter_overruns_buffer_witness:
  "plain_key BKSP (fold key_irq (replicate 129 NEWLINE) sample_kernel) = None"
  using enter_overruns_buffer [OF sample_kernel_wf] by (simp add: sample_terminal_def)

end
