(* ===== verification/Syscall.thy ===== *)
theory Syscall
  imports Line_Input Process
begin

text \<open>
  The system calls: \<^verbatim>\<open>student-distrib/sys_call.c\<close>. A system call works on the PCB of the
  running process. The file system and RTC drivers and the page tables are not part of the tree:
  they are the fields of the argument \<open>env\<close>, and the hypothesis \<open>drivers_ok\<close> says what the system
  calls rely on.

  \<open>sys_execute\<close> and \<open>sys_halt\<close> do not return normally when they succeed: their result says how
  control leaves them, by a return, by \<open>iret\<close> into a user program, or by the jump of \<open>sys_halt\<close>
  into the frame of the parent's \<open>sys_execute\<close>. The result \<open>None\<close> is an access outside an array, a
  call through a null operation, or a wait that has not ended.
\<close>

type_synonym cstring = "u8 list option"

record env =
  pages :: paging
  read_dentry_by_name :: "cstring \<Rightarrow> kstate \<Rightarrow> u32 \<times> u32"   \<comment> \<open>result and the entry's file type\<close>
  open_file :: "cstring \<Rightarrow> kstate \<Rightarrow> u32 \<times> kstate"
  open_directory :: "cstring \<Rightarrow> kstate \<Rightarrow> u32 \<times> kstate"
  open_rtc :: "cstring \<Rightarrow> kstate \<Rightarrow> u32 \<times> kstate"
  read_file :: "u32 \<Rightarrow> u32 \<Rightarrow> u32 \<Rightarrow> kstate \<Rightarrow> (u32 \<times> kstate) option"
  read_directory :: "u32 \<Rightarrow> u32 \<Rightarrow> u32 \<Rightarrow> kstate \<Rightarrow> (u32 \<times> kstate) option"
  read_rtc :: "u32 \<Rightarrow> u32 \<Rightarrow> u32 \<Rightarrow> kstate \<Rightarrow> (u32 \<times> kstate) option"
  write_file :: "u32 \<Rightarrow> u32 \<Rightarrow> u32 \<Rightarrow> kstate \<Rightarrow> (u32 \<times> kstate) option"
  write_directory :: "u32 \<Rightarrow> u32 \<Rightarrow> u32 \<Rightarrow> kstate \<Rightarrow> (u32 \<times> kstate) option"
  write_rtc :: "u32 \<Rightarrow> u32 \<Rightarrow> u32 \<Rightarrow> kstate \<Rightarrow> (u32 \<times> kstate) option"
  file_size :: "cstring \<Rightarrow> kstate \<Rightarrow> u32"
  read_data :: "u32 \<Rightarrow> u32 \<Rightarrow> u32 \<Rightarrow> u32 \<Rightarrow> kstate \<Rightarrow> u32 \<times> kstate"
  exec_header_addr :: u32   \<comment> \<open>where the compiler puts the local variable \<open>exec_header\<close>\<close>

abbreviation ELF_HEADER :: u32 where "ELF_HEADER \<equiv> 0x464C457F"
abbreviation ENABLE_INTERRUPTS :: u32 where "ENABLE_INTERRUPTS \<equiv> 0x0200"
abbreviation MAX_CMD_SIZE :: nat where "MAX_CMD_SIZE \<equiv> 0x80"
abbreviation SPACE_CHAR :: u8 where "SPACE_CHAR \<equiv> 0x20"
abbreviation NEWLINE_CHAR :: u8 where "NEWLINE_CHAR \<equiv> 0x0A"
abbreviation PROGRAM_START_ADDRESS :: u32 where "PROGRAM_START_ADDRESS \<equiv> 0x08048000"
abbreviation ENTRY_POINT_LOCATION :: u32 where "ENTRY_POINT_LOCATION \<equiv> 24"
abbreviation VIRTUAL_STACK_START :: u32 where "VIRTUAL_STACK_START \<equiv> 0x83FFFFC"
abbreviation FILETYPE_RTC :: u32 where "FILETYPE_RTC \<equiv> 0"
abbreviation FILETYPE_DIRECTORY :: u32 where "FILETYPE_DIRECTORY \<equiv> 1"
abbreviation FILETYPE_FILE :: u32 where "FILETYPE_FILE \<equiv> 2"
abbreviation USER_CS :: u32 where "USER_CS \<equiv> 0x0023"
abbreviation USER_DS :: u32 where "USER_DS \<equiv> 0x002B"

subsection \<open>\<open>sys_open\<close> and \<open>sys_close\<close>\<close>

definition current_fds :: "kstate \<Rightarrow> fd_entry list" where
  "current_fds s = fd_array (pcbs s (CURRENT_PCB_ADDRESS s))"

definition upd_fd :: "nat \<Rightarrow> (fd_entry \<Rightarrow> fd_entry) \<Rightarrow> kstate \<Rightarrow> kstate" where
  "upd_fd i f s = upd_pcb (CURRENT_PCB_ADDRESS s) (\<lambda>p. p\<lparr>fd_array := (fd_array p)[i := f (fd_array p ! i)]\<rparr>) s"

definition open_type :: "env \<Rightarrow> u32 \<Rightarrow> cstring \<Rightarrow> nat \<Rightarrow> kstate \<Rightarrow> kstate" where
  "open_type e filetype filename i s =
     (if filetype = FILETYPE_RTC then
        let (_, s) = open_rtc e filename s
        in upd_fd i (\<lambda>d. d\<lparr>file_ops := rtc_fops\<rparr>) s
      else if filetype = FILETYPE_DIRECTORY then
        let (_, s) = open_directory e filename s
        in upd_fd i (\<lambda>d. d\<lparr>file_ops := directory_fops, position := 0\<rparr>) s
      else if filetype = FILETYPE_FILE then
        let (n, s) = open_file e filename s
        in upd_fd i (\<lambda>d. d\<lparr>inode := n, file_ops := file_fops, position := 0\<rparr>) s
      else s)"

definition sys_open :: "env \<Rightarrow> cstring \<Rightarrow> kstate \<Rightarrow> u32 \<times> kstate" where
  "sys_open e filename s =
     (let (r, filetype) = read_dentry_by_name e filename s
      in if r = - 1 then (- 1, s)
         else case free_fd (current_fds s) FIRST_FD of
           None \<Rightarrow> (- 1, s)
         | Some i \<Rightarrow> (of_nat i, open_type e filetype filename i (upd_fd i (\<lambda>d. d\<lparr>fd_flags := fd_flags d OR FD_IN_USE\<rparr>) s)))"

definition sys_close :: "u32 \<Rightarrow> kstate \<Rightarrow> u32 \<times> kstate" where
  "sys_close fd s =
     (if slt fd (of_nat FIRST_FD) \<or> slt (of_nat FD_ARRAY_SIZE - 1) fd then (- 1, s)
      else if fd_flags (current_fds s ! unat fd) AND FD_IN_USE = 0 then (- 1, s)
      else (0, upd_fd (unat fd) (\<lambda>d. d\<lparr>fd_flags := fd_flags d AND NOT FD_IN_USE\<rparr>) s))"

subsection \<open>\<open>sys_read\<close> and \<open>sys_write\<close>\<close>

text \<open>The entries \<open>FOPS_READ\<close> and \<open>FOPS_WRITE\<close> of the tables of operations; calling a null entry, or
  an entry of a table that was never assigned, has no result.\<close>

primrec fops_read :: "env \<Rightarrow> (kstate \<Rightarrow> kstate) list \<Rightarrow> fops \<Rightarrow> u32 \<Rightarrow> u32 \<Rightarrow> u32 \<Rightarrow> kstate \<Rightarrow> (u32 \<times> kstate) option" where
  "fops_read e irqs no_fops fd buf nbytes s = None"
| "fops_read e irqs std_in_fops fd buf nbytes s = terminal_read irqs buf nbytes s"
| "fops_read e irqs std_out_fops fd buf nbytes s = None"
| "fops_read e irqs file_fops fd buf nbytes s = read_file e fd buf nbytes s"
| "fops_read e irqs directory_fops fd buf nbytes s = read_directory e fd buf nbytes s"
| "fops_read e irqs rtc_fops fd buf nbytes s = read_rtc e fd buf nbytes s"

primrec fops_write :: "env \<Rightarrow> fops \<Rightarrow> u32 \<Rightarrow> u32 \<Rightarrow> u32 \<Rightarrow> kstate \<Rightarrow> (u32 \<times> kstate) option" where
  "fops_write e no_fops fd buf nbytes s = None"
| "fops_write e std_in_fops fd buf nbytes s = None"
| "fops_write e std_out_fops fd buf nbytes s = Some (terminal_write buf nbytes s)"
| "fops_write e file_fops fd buf nbytes s = write_file e fd buf nbytes s"
| "fops_write e directory_fops fd buf nbytes s = write_directory e fd buf nbytes s"
| "fops_write e rtc_fops fd buf nbytes s = write_rtc e fd buf nbytes s"

definition sys_read :: "env \<Rightarrow> (kstate \<Rightarrow> kstate) list \<Rightarrow> u32 \<Rightarrow> u32 \<Rightarrow> u32 \<Rightarrow> kstate \<Rightarrow> (u32 \<times> kstate) option" where
  "sys_read e irqs fd buf nbytes s =
     (if fd \<noteq> 0 \<and> (slt fd (of_nat FIRST_FD) \<or> slt (of_nat FD_ARRAY_SIZE - 1) fd) then Some (- 1, s)
      else if slt nbytes 0 then Some (- 1, s)
      else if buf = 0 then Some (- 1, s)
      else if fd_flags (current_fds s ! unat fd) AND FD_IN_USE = 0 then Some (- 1, s)
      else fops_read e irqs (file_ops (current_fds s ! unat fd)) fd buf nbytes s)"

definition sys_write :: "env \<Rightarrow> u32 \<Rightarrow> u32 \<Rightarrow> u32 \<Rightarrow> kstate \<Rightarrow> (u32 \<times> kstate) option" where
  "sys_write e fd buf nbytes s =
     (if fd \<noteq> 1 \<and> (slt fd (of_nat FIRST_FD) \<or> slt (of_nat FD_ARRAY_SIZE - 1) fd) then Some (- 1, s)
      else if slt nbytes 0 then Some (- 1, s)
      else if buf = 0 then Some (0, s)
      else if fd_flags (current_fds s ! unat fd) AND FD_IN_USE = 0 then Some (- 1, s)
      else fops_write e (file_ops (current_fds s ! unat fd)) fd buf nbytes s)"

subsection \<open>\<open>sys_getargs\<close>, \<open>sys_vidmap\<close> and the calls without effect\<close>

function getargs_loop :: "u8 list \<Rightarrow> u32 \<Rightarrow> nat \<Rightarrow> nat \<Rightarrow> kstate \<Rightarrow> kstate option" where
  "getargs_loop as buf nbytes i s =
     (if i < nbytes
      then do { c \<leftarrow> aget as i;
                let s = wr8 (buf + of_nat i) c s;
                if c = 0 then Some s else getargs_loop as buf nbytes (i + 1) s }
      else Some s)"
  by pat_completeness auto
termination
  by (relation "measure (\<lambda>(as, buf, nbytes, i, s). nbytes - i)") auto

declare getargs_loop.simps [simp del]

definition sys_getargs :: "u32 \<Rightarrow> u32 \<Rightarrow> kstate \<Rightarrow> (u32 \<times> kstate) option" where
  "sys_getargs buf nbytes s =
     (if buf < VIRTUAL_BEGIN \<or> VIRTUAL_END < buf then Some (- 1, s)
      else if slt nbytes 0 then Some (- 1, s)
      else
        let as = args (pcbs s (CURRENT_PCB_ADDRESS s))
        in do { c \<leftarrow> aget as 0;
                if c = 0 then Some (- 1, s)
                else do { s \<leftarrow> getargs_loop as buf (unat nbytes) 0 s; Some (0, s) } })"

definition sys_vidmap :: "u32 \<Rightarrow> kstate \<Rightarrow> u32 \<times> kstate" where
  "sys_vidmap screen_start s =
     (if screen_start < VIRTUAL_BEGIN \<or> VIRTUAL_END < screen_start then (- 1, s)
      else (0, wr32 screen_start VIRTUAL_END s))"

definition sys_set_handler :: "u32 \<Rightarrow> u32 \<Rightarrow> kstate \<Rightarrow> u32 \<times> kstate" where
  "sys_set_handler signum handler_address s = (- 1, s)"

definition sys_sigreturn :: "kstate \<Rightarrow> u32 \<times> kstate" where
  "sys_sigreturn s = (- 1, s)"

subsection \<open>Parsing a command\<close>

text \<open>A command is the array it points into, up to the end of the memory it may be read from.\<close>

function skip_spaces :: "u8 list \<Rightarrow> nat \<Rightarrow> nat option" where
  "skip_spaces command i =
     do { c \<leftarrow> aget command i; if c = SPACE_CHAR then skip_spaces command (i + 1) else Some i }"
  by pat_completeness auto
termination
  by (relation "measure (\<lambda>(command, i). length command - i)") (auto simp: aget_eq_Some)

function copy_cmd :: "u8 list \<Rightarrow> nat \<Rightarrow> nat \<Rightarrow> u8 list \<Rightarrow> (nat \<times> u8 list) option" where
  "copy_cmd command start i parsed_cmd =
     do { c \<leftarrow> aget command i;
          if c \<noteq> 0 \<and> c \<noteq> SPACE_CHAR \<and> c \<noteq> NEWLINE_CHAR
          then do { parsed_cmd \<leftarrow> aput parsed_cmd (i - start) c; copy_cmd command start (i + 1) parsed_cmd }
          else Some (i, parsed_cmd) }"
  by pat_completeness auto
termination
  by (relation "measure (\<lambda>(command, start, i, p). length command - i)") (auto simp: aget_eq_Some)

function copy_arg :: "u8 list \<Rightarrow> nat \<Rightarrow> nat \<Rightarrow> u8 list \<Rightarrow> (nat \<times> u8 list) option" where
  "copy_arg command start i parsed_arg =
     do { c \<leftarrow> aget command i;
          if c \<noteq> 0 \<and> c \<noteq> NEWLINE_CHAR
          then do { parsed_arg \<leftarrow> aput parsed_arg (i - start) c; copy_arg command start (i + 1) parsed_arg }
          else Some (i, parsed_arg) }"
  by pat_completeness auto
termination
  by (relation "measure (\<lambda>(command, start, i, p). length command - i)") (auto simp: aget_eq_Some)

declare skip_spaces.simps [simp del] copy_cmd.simps [simp del] copy_arg.simps [simp del]

definition parse_command :: "u8 list \<Rightarrow> (u8 list \<times> u8 list) option" where
  "parse_command command =
     do { cmd_start_index \<leftarrow> skip_spaces command 0;
          (cmd_end_index, parsed_cmd) \<leftarrow> copy_cmd command cmd_start_index cmd_start_index (replicate MAX_CMD_SIZE 0);
          arg_start_index \<leftarrow> skip_spaces command cmd_end_index;
          (_, parsed_arg) \<leftarrow> copy_arg command arg_start_index arg_start_index (replicate MAX_CMD_SIZE 0);
          Some (parsed_cmd, parsed_arg) }"

subsection \<open>\<open>sys_execute\<close> and \<open>sys_halt\<close>\<close>

datatype transfer =
  Return u32
| Iret (iret_eip: u32) (iret_cs: u32) (iret_eflags: u32) (iret_esp: u32) (iret_ss: u32)
| Leave_ret u32   \<comment> \<open>\<open>leave; ret\<close> with this value in \<open>eax\<close>, \<open>esp\<close> and \<open>ebp\<close> being set\<close>

definition remove_pid :: "u32 \<Rightarrow> kstate \<Rightarrow> kstate option" where
  "remove_pid number s =
     do { avail \<leftarrow> REMOVE_PID number (pid_availability s); Some (s\<lparr>pid_availability := avail\<rparr>) }"

definition kmodify :: "paging \<Rightarrow> u32 \<Rightarrow> kstate \<Rightarrow> kstate" where
  "kmodify pg phys s = s\<lparr>mmu := page_modify pg VIRTUAL_BEGIN phys USER_PRIV (mmu s)\<rparr>"

text \<open>Steps 3 to 8 of \<open>sys_execute\<close>, once the file is known to be executable.\<close>

definition load_program :: "env \<Rightarrow> u32 \<Rightarrow> u32 \<Rightarrow> u8 list \<Rightarrow> kstate \<Rightarrow> kstate" where
  "load_program e new_pid exec_fd parsed_cmd s =
     (let s = kmodify (pages e) ((PID_OFFSET + new_pid) * FOUR_M) s;
          len = file_size e (Some parsed_cmd) s;
          (_, s) = read_data e (inode (current_fds s ! unat exec_fd)) 0 PROGRAM_START_ADDRESS len s
      in snd (sys_close exec_fd s))"

definition new_pcb :: "u32 \<Rightarrow> nat \<Rightarrow> u8 list \<Rightarrow> u32 \<Rightarrow> u32 \<Rightarrow> u32 \<Rightarrow> pcb \<Rightarrow> pcb" where
  "new_pcb ppid terminal as esp_reg ebp_reg esp0 p =
     p\<lparr>parent_pid := ppid, pcb_terminal := terminal, parent_pcb := PCB_ADDRESS ppid, args := as,
       parent_esp := esp_reg, parent_ebp := ebp_reg, parent_esp0 := esp0,
       fd_array := (fd_array p)
         [0 := (fd_array p ! 0)\<lparr>file_ops := std_in_fops, fd_flags := fd_flags (fd_array p ! 0) OR FD_IN_USE\<rparr>,
          1 := (fd_array p ! 1)\<lparr>file_ops := std_out_fops, fd_flags := fd_flags (fd_array p ! 1) OR FD_IN_USE\<rparr>]\<rparr>"

definition start_process :: "u32 \<Rightarrow> u32 \<Rightarrow> u8 list \<Rightarrow> kstate \<Rightarrow> (transfer \<times> kstate) option" where
  "start_process new_pid ppid parsed_arg s =
     do { as \<leftarrow> strncpy (args (pcbs s (PCB_ADDRESS new_pid))) parsed_arg MAX_ARG_SIZE;
          let flags = eflags s;
          let s = upd_pcb (PCB_ADDRESS new_pid)
                (new_pcb ppid (task_terminal (CURRENT_TASK s)) as (esp s) (ebp s) (tss_esp0 s)) s;
          let s = s\<lparr>tss_esp0 := KERNEL_STACK_ADDRESS new_pid\<rparr>;
          let s = upd_current_task (\<lambda>t. t\<lparr>task_pcb := PCB_ADDRESS new_pid, task_pid := new_pid\<rparr>) s;
          let eip = rd32 s (PROGRAM_START_ADDRESS + ENTRY_POINT_LOCATION);
          let s = s\<lparr>global_pid := new_pid\<rparr>;
          let s = s\<lparr>pcb_all_started := pit_interrupt_counter s\<rparr>;
          Some (Iret eip USER_CS (flags OR ENABLE_INTERRUPTS) VIRTUAL_STACK_START USER_DS, s) }"

definition command_empty :: "cstring \<Rightarrow> bool option" where
  "command_empty command =
     (case command of None \<Rightarrow> Some True | Some c \<Rightarrow> do { b \<leftarrow> aget c 0; Some (b = 0) })"

text \<open>The error exits of \<open>sys_execute\<close>.\<close>

definition exec_fail :: "u32 \<Rightarrow> kstate \<Rightarrow> (transfer \<times> kstate) option" where
  "exec_fail new_pid s = do { s \<leftarrow> remove_pid new_pid s; Some (Return (- 1), s) }"

definition sys_execute :: "env \<Rightarrow> cstring \<Rightarrow> kstate \<Rightarrow> (transfer \<times> kstate) option" where
  "sys_execute e command s =
     do { (new_pid, avail) \<leftarrow> FIRST_AVAILABLE_PID (pid_availability s);
          let s = s\<lparr>pid_availability := avail\<rparr>;
          if NOT new_pid = 0 then Some (Return (- 1), s)
          else do {
            let ppid = (if new_pid < of_nat NUM_TERMINALS then - 1 else global_pid s);
            empty \<leftarrow> command_empty command;
            if empty then exec_fail new_pid s
            else do {
              (parsed_cmd, parsed_arg) \<leftarrow> parse_command (the command);
              let (exec_fd, s) = sys_open e (Some parsed_cmd) s;
              if exec_fd = - 1 then exec_fail new_pid s
              else do {
                (_, s) \<leftarrow> read_file e exec_fd (exec_header_addr e) 4 s;
                if rd32 s (exec_header_addr e) \<noteq> ELF_HEADER then exec_fail new_pid s
                else start_process new_pid ppid parsed_arg (load_program e new_pid exec_fd parsed_cmd s) } } } }"

definition shell_name :: cstring where
  "shell_name = Some [0x73, 0x68, 0x65, 0x6C, 0x6C, 0]"

text \<open>The part of \<open>sys_halt\<close> that goes back to the parent.\<close>

definition halt_to_parent :: "env \<Rightarrow> u32 \<Rightarrow> u8 \<Rightarrow> kstate \<Rightarrow> transfer \<times> kstate" where
  "halt_to_parent e pcb status s =
     (let p = pcbs s pcb;
          s = s\<lparr>global_pid := parent_pid p\<rparr>;
          s = s\<lparr>tss_esp0 := parent_esp0 p\<rparr>;
          offset = global_pid s;
          s = kmodify (pages e) ((PID_OFFSET + offset) * FOUR_M) s;
          s = upd_current_task (\<lambda>t. t\<lparr>task_pcb := parent_pcb p, task_pid := parent_pid p\<rparr>) s
      in (Leave_ret (ucast status), s\<lparr>esp := parent_esp p, ebp := parent_ebp p\<rparr>))"

definition sys_halt :: "env \<Rightarrow> u8 \<Rightarrow> kstate \<Rightarrow> (transfer \<times> kstate) option" where
  "sys_halt e status s =
     (let s = fold (\<lambda>i s. snd (sys_close (of_nat i) s)) [FIRST_FD..<FD_ARRAY_SIZE] s;
          pcb = CURRENT_PCB_ADDRESS s
      in do { s \<leftarrow> remove_pid (global_pid s) s;
              if parent_pid (pcbs s pcb) = - 1
              then do { (t, s) \<leftarrow> sys_execute e shell_name (reset_screen s);
                        case t of Return _ \<Rightarrow> Some (halt_to_parent e pcb status s) | _ \<Rightarrow> Some (t, s) }
              else Some (halt_to_parent e pcb status s) })"

end
