(* ===== verification/Syscall_Files.thy ===== *)
theory Syscall_Files
  imports Syscall
begin

text \<open>
  File descriptors: what \<open>sys_open\<close>, \<open>sys_close\<close>, \<open>sys_read\<close>, \<open>sys_write\<close>, \<open>sys_getargs\<close> and
  \<open>sys_vidmap\<close> of \<^verbatim>\<open>sys_call.c\<close> promise to a process, on every branch. The
  descriptors of a process are shown to be a table of slots (\<open>slot_table\<close>), so the facts proved once
  in that locale hold for system calls.
\<close>

subsection \<open>What the drivers may change\<close>

text \<open>A driver may change memory, its own variables, the RTC fields of PCBs and the positions of
  descriptors, and nothing else of the kernel.\<close>

definition forget_driver :: "pcb \<Rightarrow> pcb" where
  "forget_driver p = p\<lparr>rtc_freq := 0, rtc_interrupt_occurred := 0,
     fd_array := map (\<lambda>d. d\<lparr>position := 0\<rparr>) (fd_array p)\<rparr>"

definition driver_frame :: "kstate \<Rightarrow> kstate \<Rightarrow> bool" where
  "driver_frame s s' \<longleftrightarrow> (\<forall>a. forget_driver (pcbs s' a) = forget_driver (pcbs s a)) \<and> mmu s' = mmu s
     \<and> eflags s' = eflags s \<and> esp s' = esp s \<and> ebp s' = ebp s \<and> terminals s' = terminals s
     \<and> active_terminal s' = active_terminal s \<and> tasks s' = tasks s \<and> current_task s' = current_task s
     \<and> global_pid s' = global_pid s \<and> pid_availability s' = pid_availability s \<and> tss_esp0 s' = tss_esp0 s
     \<and> pit_interrupt_counter s' = pit_interrupt_counter s"

definition drivers_ok :: "env \<Rightarrow> bool" where
  "drivers_ok e \<longleftrightarrow> paging_ok (pages e)
     \<and> (\<forall>f s. driver_frame s (snd (open_file e f s))) \<and> (\<forall>f s. driver_frame s (snd (open_directory e f s)))
     \<and> (\<forall>f s. driver_frame s (snd (open_rtc e f s)))
     \<and> (\<forall>fd buf n s. \<exists>r s'. read_file e fd buf n s = Some (r, s') \<and> driver_frame s s')
     \<and> (\<forall>i k buf n s. driver_frame s (snd (read_data e i k buf n s)))"

lemma driver_frameD:
  assumes "driver_frame s s'"
  shows "CURRENT_PCB_ADDRESS s' = CURRENT_PCB_ADDRESS s" "length (fd_array (pcbs s' a)) = length (fd_array (pcbs s a))"
    "i < length (fd_array (pcbs s a)) \<Longrightarrow> fd_flags (fd_array (pcbs s' a) ! i) = fd_flags (fd_array (pcbs s a) ! i)"
    "i < length (fd_array (pcbs s a)) \<Longrightarrow> file_ops (fd_array (pcbs s' a) ! i) = file_ops (fd_array (pcbs s a) ! i)"
    "i < length (fd_array (pcbs s a)) \<Longrightarrow> inode (fd_array (pcbs s' a) ! i) = inode (fd_array (pcbs s a) ! i)"
proof -
  show "CURRENT_PCB_ADDRESS s' = CURRENT_PCB_ADDRESS s"
    using assms by (simp add: driver_frame_def CURRENT_PCB_ADDRESS_def)
  have "fd_array (forget_driver (pcbs s' a)) = fd_array (forget_driver (pcbs s a))"
    using assms by (simp add: driver_frame_def)
  then have m: "map (\<lambda>d. d\<lparr>position := 0\<rparr>) (fd_array (pcbs s' a)) = map (\<lambda>d. d\<lparr>position := 0\<rparr>) (fd_array (pcbs s a))"
    by (simp add: forget_driver_def)
  then show len: "length (fd_array (pcbs s' a)) = length (fd_array (pcbs s a))" by (rule map_eq_imp_length_eq)
  have eq: "(fd_array (pcbs s' a) ! i)\<lparr>position := 0\<rparr> = (fd_array (pcbs s a) ! i)\<lparr>position := 0\<rparr>"
    if "i < length (fd_array (pcbs s a))" using m len that by (metis nth_map)
  show "i < length (fd_array (pcbs s a)) \<Longrightarrow> fd_flags (fd_array (pcbs s' a) ! i) = fd_flags (fd_array (pcbs s a) ! i)"
    using arg_cong [OF eq, of fd_flags] by simp
  show "i < length (fd_array (pcbs s a)) \<Longrightarrow> file_ops (fd_array (pcbs s' a) ! i) = file_ops (fd_array (pcbs s a) ! i)"
    using arg_cong [OF eq, of file_ops] by simp
  show "i < length (fd_array (pcbs s a)) \<Longrightarrow> inode (fd_array (pcbs s' a) ! i) = inode (fd_array (pcbs s a) ! i)"
    using arg_cong [OF eq, of inode] by simp
qed

lemma driver_frame_refl: "driver_frame s s"
  by (simp add: driver_frame_def)

lemma driver_fds:
  assumes "driver_frame s s'"
  shows "length (current_fds s') = length (current_fds s)" "fd_used (current_fds s') = fd_used (current_fds s)"
    "i < length (current_fds s) \<Longrightarrow> file_ops (current_fds s' ! i) = file_ops (current_fds s ! i)"
  using driver_frameD [OF assms]
  by (auto simp: current_fds_def fd_used_def fd_in_use_def fun_eq_iff)

lemma current_fds_upd [simp]:
  "current_fds (upd_fd i f s) = (current_fds s)[i := f (current_fds s ! i)]"
  by (simp add: current_fds_def upd_fd_def CURRENT_PCB_ADDRESS_def)

lemma upd_fd_mark: "current_fds (upd_fd i (\<lambda>d. d\<lparr>fd_flags := fd_flags d OR FD_IN_USE\<rparr>) s) = mark_fd i (current_fds s)"
  by (simp add: mark_fd_def)

lemma fd_used_upd: "fd_flags d = fd_flags (fds ! i) \<Longrightarrow> fd_used (fds[i := d]) = fd_used fds"
  by (rule ext) (simp add: fd_used_def fd_in_use_def nth_updated cong: conj_cong)

lemma open_type_fds:
  assumes "drivers_ok e"
  shows "length (current_fds (open_type e ft f i s)) = length (current_fds s)"
    "fd_used (current_fds (open_type e ft f i s)) = fd_used (current_fds s)"
  using assms driver_fds [of s "snd (open_rtc e f s)"] driver_fds [of s "snd (open_directory e f s)"]
    driver_fds [of s "snd (open_file e f s)"]
  by (simp_all add: open_type_def drivers_ok_def split_beta fd_used_upd)

definition fops_of_type :: "u32 \<Rightarrow> fops \<Rightarrow> fops" where
  "fops_of_type ft old = (if ft = FILETYPE_RTC then rtc_fops else if ft = FILETYPE_DIRECTORY then directory_fops
     else if ft = FILETYPE_FILE then file_fops else old)"

lemma open_type_ops:
  assumes "drivers_ok e" and "j < length (current_fds s)"
  shows "file_ops (current_fds (open_type e ft f i s) ! j) =
    (if j = i then fops_of_type ft (file_ops (current_fds s ! j)) else file_ops (current_fds s ! j))"
  using assms driver_fds(1,3) [of s "snd (open_rtc e f s)"] driver_fds(1,3) [of s "snd (open_directory e f s)"]
    driver_fds(1,3) [of s "snd (open_file e f s)"]
  by (simp add: open_type_def drivers_ok_def split_beta fops_of_type_def nth_updated)

subsection \<open>Descriptors as a table of slots\<close>

definition open_slot :: "env \<Rightarrow> cstring \<Rightarrow> kstate \<Rightarrow> (nat \<times> kstate) option" where
  "open_slot e f s = (case sys_open e f s of (r, s') \<Rightarrow> if r = - 1 then None else Some (unat r, s'))"

definition close_slot :: "nat \<Rightarrow> kstate \<Rightarrow> kstate" where
  "close_slot i s = snd (sys_close (of_nat i) s)"

lemma small_fd: "i < 8 \<Longrightarrow> unat (of_nat i :: u32) = i" "i < 8 \<Longrightarrow> (of_nat i :: u32) \<noteq> - 1"
proof -
  show "i < 8 \<Longrightarrow> unat (of_nat i :: u32) = i" by (simp add: unat_of_nat take_bit_nat_eq_self)
  then have "i < 8 \<Longrightarrow> unat (of_nat i :: u32) \<noteq> unat (- 1 :: u32)" by (simp add: unat_minus_1)
  then show "i < 8 \<Longrightarrow> (of_nat i :: u32) \<noteq> - 1" by metis
qed

lemma fd_range: "\<not> (slt fd (of_nat FIRST_FD) \<or> slt (of_nat FD_ARRAY_SIZE - 1) fd) \<longleftrightarrow> 2 \<le> unat fd \<and> unat fd < 8"
proof (cases "unat fd < 2147483648")
  case True
  then show ?thesis by (auto simp: slt_unat)
next
  case False
  have "slt fd 0"
    using False nonneg_word [of fd] by blast
  then have "slt fd 2" by (simp add: slt_def)
  then show ?thesis using False by simp
qed

lemma sys_close_eq:
  "sys_close fd s = (if 2 \<le> unat fd \<and> unat fd < 8 \<and> fd_in_use (current_fds s ! unat fd)
     then (0, upd_fd (unat fd) (\<lambda>d. d\<lparr>fd_flags := fd_flags d AND NOT FD_IN_USE\<rparr>) s) else (- 1, s))"
proof (cases "slt fd (of_nat FIRST_FD) \<or> slt (of_nat FD_ARRAY_SIZE - 1) fd")
  case True
  then have "\<not> (2 \<le> unat fd \<and> unat fd < 8)" using fd_range [of fd] by blast
  then show ?thesis unfolding sys_close_def if_P [OF True] by auto
next
  case False
  then have "2 \<le> unat fd \<and> unat fd < 8" using fd_range [of fd] by blast
  then show ?thesis unfolding sys_close_def if_not_P [OF False] fd_in_use_def by simp
qed

lemma upd_fd_clear: "current_fds (upd_fd i (\<lambda>d. d\<lparr>fd_flags := fd_flags d AND NOT FD_IN_USE\<rparr>) s) = clear_fd i (current_fds s)"
  unfolding clear_fd_def current_fds_upd ..

lemma sys_close_fds:
  assumes "2 \<le> i" and "i < 8" and "length (current_fds s) = 8"
  shows "length (current_fds (snd (sys_close (of_nat i) s))) = 8"
    "fd_used (current_fds (snd (sys_close (of_nat i) s))) = (fd_used (current_fds s))(i := False)"
proof -
  show "length (current_fds (snd (sys_close (of_nat i) s))) = 8" using assms by (simp add: sys_close_eq)
  show "fd_used (current_fds (snd (sys_close (of_nat i) s))) = (fd_used (current_fds s))(i := False)"
  proof (cases "fd_in_use (current_fds s ! i)")
    case True
    then have "current_fds (snd (sys_close (of_nat i) s)) = clear_fd i (current_fds s)"
      using assms by (simp only: sys_close_eq small_fd upd_fd_clear snd_conv simp_thms if_True)
    then show ?thesis using fds.release_used [of "current_fds s" i] assms by simp
  next
    case False
    then show ?thesis using assms by (simp add: sys_close_eq small_fd fun_eq_iff) (auto simp: fd_used_def)
  qed
qed

lemma sys_open_full:
  assumes "\<forall>i. 2 \<le> i \<and> i < 8 \<longrightarrow> fd_used (current_fds s) i"
  shows "sys_open e f s = (- 1, s)"
  using free_fd_None [of 2 "current_fds s"] assms by (simp add: sys_open_def fd_used_def split_beta)

lemma free_fd_bound: "free_fd fds k = Some i \<Longrightarrow> k \<le> i \<and> i < 8"
proof (induction fds k rule: free_fd.induct)
  case (1 fds k)
  from 1(2) show ?case by (subst (asm) free_fd.simps) (auto split: if_splits dest!: 1(1))
qed

lemma sys_open_error: "sys_open e f s = (- 1, s') \<Longrightarrow> sys_open e f s = (- 1, s)"
  using free_fd_bound [of "current_fds s" 2] small_fd(2)
  by (auto simp: sys_open_def split: prod.splits option.splits if_splits)

lemma sys_open_free:
  assumes "drivers_ok e" and "length (current_fds s) = 8" and "read_dentry_by_name e f s = (r, ft)" and "r \<noteq> - 1"
    and "2 \<le> i" and "i < 8" and "\<not> fd_used (current_fds s) i" and "\<forall>j. 2 \<le> j \<and> j < i \<longrightarrow> fd_used (current_fds s) j"
  shows "\<exists>s'. sys_open e f s = (of_nat i, s') \<and> length (current_fds s') = 8
    \<and> fd_used (current_fds s') = (fd_used (current_fds s))(i := True)
    \<and> file_ops (current_fds s' ! i) = fops_of_type ft (file_ops (current_fds s ! i))"
proof -
  let ?m = "upd_fd i (\<lambda>d. d\<lparr>fd_flags := fd_flags d OR FD_IN_USE\<rparr>) s"
  have free: "free_fd (current_fds s) 2 = Some i"
    using assms by (intro free_fd_Some) (auto simp: fd_used_def)
  then have o: "sys_open e f s = (of_nat i, open_type e ft f i ?m)" using assms(3,4) by (simp add: sys_open_def)
  have "fd_alloc (current_fds s) = Some (i, mark_fd i (current_fds s))" using free by (simp add: fd_alloc_def)
  then have "fd_used (current_fds ?m) = (fd_used (current_fds s))(i := True)" "length (current_fds ?m) = 8"
    using fds.alloc_fresh(5) [OF assms(2)] assms(2) unfolding upd_fd_mark by simp_all
  moreover have "file_ops (current_fds ?m ! i) = file_ops (current_fds s ! i)" using assms(2,6) by simp
  ultimately show ?thesis
    unfolding o using open_type_fds [OF assms(1)] open_type_ops [OF assms(1), of i ?m] assms(6) by simp
qed

lemma open_slots:
  assumes "drivers_ok e" and "\<forall>s. fst (read_dentry_by_name e f s) \<noteq> - 1"
  shows "slot_table (open_slot e f) close_slot (\<lambda>s. fd_used (current_fds s)) (\<lambda>s. length (current_fds s) = 8) 2 8"
proof (unfold_locales, goal_cases)
  case (1 s i)
  then show ?case
    using sys_open_free [OF assms(1), of s f "fst (read_dentry_by_name e f s)" "snd (read_dentry_by_name e f s)" i] assms(2)
    by (auto simp: open_slot_def small_fd)
next
  case (2 s)
  then show ?case by (simp add: open_slot_def sys_open_full)
next
  case (3 s i)
  then show ?case using sys_close_fds by (simp add: close_slot_def)
qed


lemma getargs_copies:
  assumes "as = cs @ 0 # rest" and "0 \<notin> set cs" and "i \<le> length cs"
  shows "getargs_loop as buf n i s = Some (store_bytes (drop i (take n (cs @ [0]))) (buf + of_nat i) s)"
  using assms(3)
proof (induction "length cs - i" arbitrary: i s)
  case 0
  then have "i = length cs" by simp
  then show ?case using assms(1,2) by (subst getargs_loop.simps) (auto simp: Let_def nth_append)
next
  case (Suc k)
  then have i: "i < length cs" by simp
  then have c: "cs ! i \<noteq> 0" using assms(2) by (metis nth_mem)
  show ?case
  proof (cases "i < n")
    case True
    have "drop i (take n (cs @ [0])) = cs ! i # drop (i + 1) (take n (cs @ [0]))"
      using True i by (simp add: Cons_nth_drop_Suc [symmetric] nth_append)
    moreover have "getargs_loop as buf n i s = getargs_loop as buf n (i + 1) (wr8 (buf + of_nat i) (cs ! i) s)"
      using True i c assms(1) by (subst getargs_loop.simps) (simp add: Let_def nth_append)
    ultimately show ?thesis using Suc.hyps i by (simp add: ac_simps)
  next
    case False
    then show ?thesis using i by (subst getargs_loop.simps) simp
  qed
qed

subsection \<open>Concrete drivers\<close>

text \<open>A file system in which every name is an executable file, for concrete runs.\<close>

definition sample_env :: env where
  "sample_env = \<lparr>pages = simple_paging, read_dentry_by_name = \<lambda>f s. (0, FILETYPE_FILE),
     open_file = \<lambda>f s. (7, s), open_directory = \<lambda>f s. (0, s), open_rtc = \<lambda>f s. (0, s),
     read_file = \<lambda>fd buf n s. Some (n, wr32 buf ELF_HEADER s),
     read_directory = \<lambda>fd buf n s. Some (0, s), read_rtc = \<lambda>fd buf n s. Some (0, s),
     write_file = \<lambda>fd buf n s. Some (- 1, s), write_directory = \<lambda>fd buf n s. Some (- 1, s),
     write_rtc = \<lambda>fd buf n s. Some (0, s), file_size = \<lambda>f s. 4,
     read_data = \<lambda>i k buf n s. (n, wr32 buf ELF_HEADER s), exec_header_addr = 0x7FDF00\<rparr>"

lemma driver_frame_wr32: "driver_frame s (wr32 a v s)"
  by (simp add: driver_frame_def wr32_def wr8_def)

lemma sample_drivers_ok: "drivers_ok sample_env"
  by (simp add: drivers_ok_def sample_env_def paging_ok_simple driver_frame_refl driver_frame_wr32)

lemma sample_fds: "current_fds sample_kernel = replicate 8 empty_fd"
  "\<not> fd_used (current_fds sample_kernel) i"
proof -
  show "current_fds sample_kernel = replicate 8 empty_fd" by (simp add: current_fds_def sample_pcb_def)
  then show "\<not> fd_used (current_fds sample_kernel) i"
    by (simp add: fd_used_def fd_in_use_def empty_fd_def)
qed

subsection \<open>Tables of descriptors without wild operations\<close>

text \<open>A descriptor in use has the operations of its kind: the terminal's on 0 and 1, those of a file,
  a directory or the RTC above.\<close>

definition fds_safe :: "fd_entry list \<Rightarrow> bool" where
  "fds_safe fds \<longleftrightarrow> length fds = FD_ARRAY_SIZE
     \<and> (fd_in_use (fds ! 0) \<longrightarrow> file_ops (fds ! 0) = std_in_fops)
     \<and> (fd_in_use (fds ! 1) \<longrightarrow> file_ops (fds ! 1) = std_out_fops)
     \<and> (\<forall>i. FIRST_FD \<le> i \<and> i < FD_ARRAY_SIZE \<and> fd_in_use (fds ! i) \<longrightarrow>
          file_ops (fds ! i) \<in> {file_fops, directory_fops, rtc_fops})"

lemma fds_safe_cong:
  assumes "fds_safe fds" and "length fds' = length fds"
    and "\<And>i. i < 8 \<Longrightarrow> fd_in_use (fds' ! i) \<Longrightarrow> fd_in_use (fds ! i) \<and> file_ops (fds' ! i) = file_ops (fds ! i)
      \<or> 2 \<le> i \<and> file_ops (fds' ! i) \<in> {file_fops, directory_fops, rtc_fops}"
  shows "fds_safe fds'"
  unfolding fds_safe_def
proof (intro conjI allI impI)
  show "length fds' = FD_ARRAY_SIZE" using assms(1,2) by (simp add: fds_safe_def)
  show "file_ops (fds' ! 0) = std_in_fops" if "fd_in_use (fds' ! 0)"
    using assms(1) assms(3) [of 0] that by (simp add: fds_safe_def)
  show "file_ops (fds' ! 1) = std_out_fops" if "fd_in_use (fds' ! 1)"
    using assms(1) assms(3) [of 1] that by (simp add: fds_safe_def)
  show "file_ops (fds' ! i) \<in> {file_fops, directory_fops, rtc_fops}" if "FIRST_FD \<le> i \<and> i < FD_ARRAY_SIZE \<and> fd_in_use (fds' ! i)" for i
    using assms(1) assms(3) [of i] that unfolding fds_safe_def by metis
qed

lemma rd32_wr32:
  assumes "linear s a q 4"
  shows "rd32 (wr32 a v s) a = v"
proof -
  have m: "mmu s (a + of_nat i) = q + of_nat i" if "i < 4" for i using assms that by (simp add: linear_def)
  have m4: "mmu s a = q" "mmu s (a + 1) = q + 1" "mmu s (a + 2) = q + 2" "mmu s (a + 3) = q + 3"
    using m [of 0] m [of 1] m [of 2] m [of 3] by simp_all
  show ?thesis
  proof (rule bit_word_eqI)
    fix n :: nat
    assume "n < LENGTH(32)"
    then consider "n < 8" | "8 \<le> n" "n < 16" | "16 \<le> n" "n < 24" | "24 \<le> n" "n < 32" by fastforce
    then show "bit (rd32 (wr32 a v s) a) n = bit v n"
      by cases (auto simp: rd32_def wr32_def rd8_wr8 m4 bit_simps)
  qed
qed

subsection \<open>Properties\<close>

text \<open>\<open>sys_open\<close> on every branch: a name the file system does not know, or no free descriptor,
  gives -1 and changes nothing; otherwise the result is the lowest free descriptor from 2 to 7, that
  descriptor alone becomes used, and it gets the operations of the file's type.\<close>

theorem sys_open_correct:
  assumes "drivers_ok e" and "length (current_fds s) = FD_ARRAY_SIZE" and "read_dentry_by_name e f s = (r, ft)"
  shows "(r = - 1 \<longrightarrow> sys_open e f s = (- 1, s))
    \<and> ((\<forall>i. FIRST_FD \<le> i \<and> i < FD_ARRAY_SIZE \<longrightarrow> fd_used (current_fds s) i) \<longrightarrow> sys_open e f s = (- 1, s))
    \<and> (\<forall>i. r \<noteq> - 1 \<and> FIRST_FD \<le> i \<and> i < FD_ARRAY_SIZE \<and> \<not> fd_used (current_fds s) i
         \<and> (\<forall>j. FIRST_FD \<le> j \<and> j < i \<longrightarrow> fd_used (current_fds s) j) \<longrightarrow>
       (\<exists>s'. sys_open e f s = (of_nat i, s') \<and> fd_used (current_fds s') = (fd_used (current_fds s))(i := True)
         \<and> file_ops (current_fds s' ! i) = fops_of_type ft (file_ops (current_fds s ! i))))"
proof (intro conjI allI impI)
  assume "r = - 1"
  then show "sys_open e f s = (- 1, s)" using assms(3) by (simp add: sys_open_def)
next
  assume "\<forall>i. FIRST_FD \<le> i \<and> i < FD_ARRAY_SIZE \<longrightarrow> fd_used (current_fds s) i"
  then show "sys_open e f s = (- 1, s)" by (rule sys_open_full)
next
  fix i
  assume "r \<noteq> - 1 \<and> FIRST_FD \<le> i \<and> i < FD_ARRAY_SIZE \<and> \<not> fd_used (current_fds s) i
    \<and> (\<forall>j. FIRST_FD \<le> j \<and> j < i \<longrightarrow> fd_used (current_fds s) j)"
  then show "\<exists>s'. sys_open e f s = (of_nat i, s') \<and> fd_used (current_fds s') = (fd_used (current_fds s))(i := True)
      \<and> file_ops (current_fds s' ! i) = fops_of_type ft (file_ops (current_fds s ! i))"
    using sys_open_free [OF assms, of i] by blast
qed


theorem sys_open_correct_witness:
  "\<exists>s'. sys_open sample_env (Some [0x66, 0]) sample_kernel = (of_nat 2, s')
    \<and> file_ops (current_fds s' ! 2) = file_fops"
proof -
  have r: "read_dentry_by_name sample_env (Some [0x66, 0]) sample_kernel = (0, FILETYPE_FILE)"
    by (simp add: sample_env_def)
  have l: "length (current_fds sample_kernel) = FD_ARRAY_SIZE" by (simp add: sample_fds)
  have "\<exists>s'. sys_open sample_env (Some [0x66, 0]) sample_kernel = (of_nat 2, s')
      \<and> fd_used (current_fds s') = (fd_used (current_fds sample_kernel))(2 := True)
      \<and> file_ops (current_fds s' ! 2) = fops_of_type FILETYPE_FILE (file_ops (current_fds sample_kernel ! 2))"
    using sample_fds(2) [of 2]
    by (intro sys_open_correct [OF sample_drivers_ok l r, THEN conjunct2, THEN conjunct2, rule_format]) auto
  then show ?thesis by (auto simp: fops_of_type_def)
qed


text \<open>C18. Descriptors are reused. A process with none of 2 to 7 in use can open six files, which get
  2 to 7 in order, and the seventh \<open>sys_open\<close> fails and changes nothing. \<open>sys_close\<close> of a descriptor
  in use returns 0, frees that one only, and a following \<open>sys_open\<close> succeeds with a descriptor not
  above it; every other argument gives -1 and changes nothing, 0 and 1 included.\<close>

theorem descriptors_are_reused:
  assumes "drivers_ok e" and "\<forall>s. fst (read_dentry_by_name e f s) \<noteq> - 1" and "length (current_fds s) = FD_ARRAY_SIZE"
  shows "((\<forall>i. FIRST_FD \<le> i \<and> i < FD_ARRAY_SIZE \<longrightarrow> \<not> fd_used (current_fds s) i) \<longrightarrow>
      (\<exists>s'. alloc_many (open_slot e f) 6 s = Some ([2..<8], s') \<and> sys_open e f s' = (- 1, s')))
    \<and> (\<forall>i. FIRST_FD \<le> i \<and> i < FD_ARRAY_SIZE \<and> fd_used (current_fds s) i \<longrightarrow>
        (\<exists>s' j s''. sys_close (of_nat i) s = (0, s') \<and> fd_used (current_fds s') = (fd_used (current_fds s))(i := False)
          \<and> sys_open e f s' = (of_nat j, s'') \<and> j \<le> i))
    \<and> (\<forall>fd. \<not> (FIRST_FD \<le> unat fd \<and> unat fd < FD_ARRAY_SIZE \<and> fd_used (current_fds s) (unat fd)) \<longrightarrow>
        sys_close fd s = (- 1, s))"
proof (intro conjI allI impI)
  note slots = open_slots [OF assms(1,2)]
  assume "\<forall>i. FIRST_FD \<le> i \<and> i < FD_ARRAY_SIZE \<longrightarrow> \<not> fd_used (current_fds s) i"
  then obtain s' where s': "alloc_many (open_slot e f) (8 - 2) s = Some ([2..<8], s')" "open_slot e f s' = None"
    using slot_table.alloc_all_then_full [OF slots, of s] assms(3) by auto
  obtain s'' where "sys_open e f s' = (- 1, s'')"
    using s'(2) by (auto simp: open_slot_def split: prod.splits if_splits)
  then have "sys_open e f s' = (- 1, s')" by (rule sys_open_error)
  then show "\<exists>s'. alloc_many (open_slot e f) 6 s = Some ([2..<8], s') \<and> sys_open e f s' = (- 1, s')"
    using s' by auto
next
  note slots = open_slots [OF assms(1,2)]
  fix i
  assume i: "FIRST_FD \<le> i \<and> i < FD_ARRAY_SIZE \<and> fd_used (current_fds s) i"
  then have u: "fd_in_use (current_fds s ! i)" by (simp add: fd_used_def)
  obtain j s'' where "open_slot e f (close_slot i s) = Some (j, s'')" "j \<le> i"
    using slot_table.alloc_after_release [OF slots, of s i] i assms(3) by auto
  then have "sys_open e f (close_slot i s) = (of_nat j, s'')"
    by (auto simp: open_slot_def split: prod.splits if_splits)
  then show "\<exists>s' j s''. sys_close (of_nat i) s = (0, s') \<and> fd_used (current_fds s') = (fd_used (current_fds s))(i := False)
      \<and> sys_open e f s' = (of_nat j, s'') \<and> j \<le> i"
    using \<open>j \<le> i\<close> u i sys_close_fds(2) [of i s] assms(3)
    by (intro exI [of _ "close_slot i s"] exI [of _ j] exI [of _ s''])
      (simp add: close_slot_def sys_close_eq small_fd)
next
  fix fd :: u32
  assume "\<not> (FIRST_FD \<le> unat fd \<and> unat fd < FD_ARRAY_SIZE \<and> fd_used (current_fds s) (unat fd))"
  then show "sys_close fd s = (- 1, s)" using assms(3) by (auto simp: sys_close_eq fd_used_def)
qed

theorem descriptors_are_reused_witness:
  "\<exists>s'. alloc_many (open_slot sample_env None) 6 sample_kernel = Some ([2..<8], s') \<and> sys_open sample_env None s' = (- 1, s')"
proof -
  have "\<forall>s. fst (read_dentry_by_name sample_env None s) \<noteq> - 1" by (simp add: sample_env_def)
  moreover have "length (current_fds sample_kernel) = FD_ARRAY_SIZE" by (simp add: sample_fds)
  ultimately show ?thesis
    by (intro descriptors_are_reused [OF sample_drivers_ok, THEN conjunct1, rule_format]) (simp_all add: sample_fds(2))
qed


lemma fds_safe_open:
  assumes "drivers_ok e" and "fds_safe (current_fds s)" and "\<And>r ft. read_dentry_by_name e f s = (r, ft) \<Longrightarrow> ft \<in> {FILETYPE_RTC, FILETYPE_DIRECTORY, FILETYPE_FILE}"
  shows "fds_safe (current_fds (snd (sys_open e f s)))"
proof (cases "fst (sys_open e f s) = - 1")
  case True
  then have "snd (sys_open e f s) = s" using sys_open_error [of e f s] by (metis prod.collapse snd_conv)
  then show ?thesis using assms(2) by simp
next
  case False
  then obtain r ft i where o: "read_dentry_by_name e f s = (r, ft)" "r \<noteq> - 1" "free_fd (current_fds s) 2 = Some i"
    by (auto simp: sys_open_def split: prod.splits option.splits if_splits)
  let ?m = "upd_fd i (\<lambda>d. d\<lparr>fd_flags := fd_flags d OR FD_IN_USE\<rparr>) s"
  let ?o = "open_type e ft f i ?m"
  have e: "snd (sys_open e f s) = ?o" using o by (simp add: sys_open_def)
  have len: "length (current_fds s) = 8" using assms(2) by (simp add: fds_safe_def)
  have i: "2 \<le> i" "i < 8" using free_fd_bound [OF o(3)] by simp_all
  show ?thesis
    unfolding e
  proof (rule fds_safe_cong [OF assms(2)])
    fix j :: nat
    assume j: "j < 8" "fd_in_use (current_fds ?o ! j)"
    show "fd_in_use (current_fds s ! j) \<and> file_ops (current_fds ?o ! j) = file_ops (current_fds s ! j)
      \<or> 2 \<le> j \<and> file_ops (current_fds ?o ! j) \<in> {file_fops, directory_fops, rtc_fops}"
    proof (cases "j = i")
      case True
      then show ?thesis
        using open_type_ops [OF assms(1), of i ?m] i len assms(3) [OF o(1)] by (auto simp: fops_of_type_def)
    next
      case False
      have "fd_used (current_fds ?o) j" using j len open_type_fds(1) [OF assms(1)] by (simp add: fd_used_def)
      then have "fd_in_use (current_fds s ! j)"
        using False unfolding open_type_fds(2) [OF assms(1)] by (simp add: fd_used_def nth_updated)
      then show ?thesis using False open_type_ops [OF assms(1), of j ?m] j(1) len by simp
    qed
  qed (simp add: open_type_fds [OF assms(1)])
qed


lemma sys_close_current:
  "current_fds (snd (sys_close fd s)) =
    (if 2 \<le> unat fd \<and> unat fd < 8 \<and> fd_in_use (current_fds s ! unat fd) then clear_fd (unat fd) (current_fds s) else current_fds s)"
  unfolding sys_close_eq if_distrib [of snd] if_distrib [of current_fds] snd_conv upd_fd_clear ..

lemma clear_fd_ops: "j < length fds \<Longrightarrow> file_ops (clear_fd i fds ! j) = file_ops (fds ! j)"
  by (simp add: clear_fd_def nth_updated)

lemma fds_safe_close:
  assumes "fds_safe (current_fds s)"
  shows "fds_safe (current_fds (snd (sys_close fd s)))"
proof -
  have len: "length (current_fds s) = 8" using assms by (simp add: fds_safe_def)
  have "fds_safe (clear_fd i (current_fds s))" for i
  proof (rule fds_safe_cong [OF assms])
    fix j :: nat
    assume j: "j < 8" "fd_in_use (clear_fd i (current_fds s) ! j)"
    then have "j \<noteq> i" using len by auto
    then show "fd_in_use (current_fds s ! j) \<and> file_ops (clear_fd i (current_fds s) ! j) = file_ops (current_fds s ! j)
        \<or> 2 \<le> j \<and> file_ops (clear_fd i (current_fds s) ! j) \<in> {file_fops, directory_fops, rtc_fops}"
      using j by simp
  qed simp
  then show ?thesis using assms by (simp add: sys_close_current)
qed

lemma guarded_if: "(P \<longleftrightarrow> \<not> Q) \<Longrightarrow> (if fd \<noteq> k \<and> P then x else y) = (if fd = k \<or> Q then y else x)"
  by auto

lemma sys_read_eq:
  "sys_read e irqs fd buf nbytes s =
    (if (fd = 0 \<or> 2 \<le> unat fd \<and> unat fd < 8) \<and> \<not> slt nbytes 0 \<and> buf \<noteq> 0 \<and> fd_in_use (current_fds s ! unat fd)
     then fops_read e irqs (file_ops (current_fds s ! unat fd)) fd buf nbytes s else Some (- 1, s))"
proof -
  have "(slt fd (of_nat FIRST_FD) \<or> slt (of_nat FD_ARRAY_SIZE - 1) fd) \<longleftrightarrow> \<not> (2 \<le> unat fd \<and> unat fd < 8)"
    using fd_range [of fd] by blast
  then show ?thesis unfolding sys_read_def fd_in_use_def by (subst guarded_if, assumption) auto
qed

lemma sys_write_eq:
  "sys_write e fd buf nbytes s =
    (if (fd = 1 \<or> 2 \<le> unat fd \<and> unat fd < 8) \<and> \<not> slt nbytes 0
     then if buf = 0 then Some (0, s)
          else if fd_in_use (current_fds s ! unat fd)
          then fops_write e (file_ops (current_fds s ! unat fd)) fd buf nbytes s else Some (- 1, s)
     else Some (- 1, s))"
proof -
  have "(slt fd (of_nat FIRST_FD) \<or> slt (of_nat FD_ARRAY_SIZE - 1) fd) \<longleftrightarrow> \<not> (2 \<le> unat fd \<and> unat fd < 8)"
    using fd_range [of fd] by blast
  then show ?thesis unfolding sys_write_def fd_in_use_def by (subst guarded_if, assumption) auto
qed

lemma safe_operation:
  assumes "fds_safe fds" and "fd_in_use (fds ! unat fd)"
  shows "fd = 0 \<Longrightarrow> file_ops (fds ! unat fd) = std_in_fops" "fd = 1 \<Longrightarrow> file_ops (fds ! unat fd) = std_out_fops"
    "2 \<le> unat fd \<Longrightarrow> unat fd < 8 \<Longrightarrow> file_ops (fds ! unat fd) \<in> {file_fops, directory_fops, rtc_fops}"
proof -
  show "fd = 0 \<Longrightarrow> file_ops (fds ! unat fd) = std_in_fops" "fd = 1 \<Longrightarrow> file_ops (fds ! unat fd) = std_out_fops"
    using assms by (simp_all add: fds_safe_def)
  show "2 \<le> unat fd \<Longrightarrow> unat fd < 8 \<Longrightarrow> file_ops (fds ! unat fd) \<in> {file_fops, directory_fops, rtc_fops}"
    using assms unfolding fds_safe_def by blast
qed

text \<open>C21. No system call jumps through a null or stale operation. The condition that every descriptor
  in use has the operations of its kind is kept by \<open>sys_open\<close> (for the three file types) and by
  \<open>sys_close\<close>; under it \<open>sys_read\<close> and \<open>sys_write\<close>, for any arguments, either report an error and
  change nothing, or call a driver with a read (write) operation: never the null read of standard
  output or the null write of standard input.\<close>

theorem descriptor_operations_safe:
  assumes "drivers_ok e" and "fds_safe (current_fds s)"
  shows "(snd (read_dentry_by_name e f s) \<in> {FILETYPE_RTC, FILETYPE_DIRECTORY, FILETYPE_FILE} \<longrightarrow>
      fds_safe (current_fds (snd (sys_open e f s))))
    \<and> fds_safe (current_fds (snd (sys_close fd s)))
    \<and> (sys_read e irqs fd buf nbytes s = Some (- 1, s)
        \<or> (\<exists>ops \<in> {std_in_fops, file_fops, directory_fops, rtc_fops}.
             sys_read e irqs fd buf nbytes s = fops_read e irqs ops fd buf nbytes s))
    \<and> (sys_write e fd buf nbytes s \<in> {Some (- 1, s), Some (0, s)}
        \<or> (\<exists>ops \<in> {std_out_fops, file_fops, directory_fops, rtc_fops}.
             sys_write e fd buf nbytes s = fops_write e ops fd buf nbytes s))"
proof (intro conjI impI)
  assume "snd (read_dentry_by_name e f s) \<in> {FILETYPE_RTC, FILETYPE_DIRECTORY, FILETYPE_FILE}"
  then show "fds_safe (current_fds (snd (sys_open e f s)))" by (intro fds_safe_open [OF assms]) simp
next
  show "fds_safe (current_fds (snd (sys_close fd s)))" by (rule fds_safe_close [OF assms(2)])
next
  show "sys_read e irqs fd buf nbytes s = Some (- 1, s)
        \<or> (\<exists>ops \<in> {std_in_fops, file_fops, directory_fops, rtc_fops}.
             sys_read e irqs fd buf nbytes s = fops_read e irqs ops fd buf nbytes s)"
    using safe_operation [OF assms(2), of fd]
    by (cases "fd_in_use (current_fds s ! unat fd)")
      (auto simp: sys_read_eq simp del: fops_read.simps intro!: bexI [of _ "file_ops (current_fds s ! unat fd)"])
next
  show "sys_write e fd buf nbytes s \<in> {Some (- 1, s), Some (0, s)}
        \<or> (\<exists>ops \<in> {std_out_fops, file_fops, directory_fops, rtc_fops}.
             sys_write e fd buf nbytes s = fops_write e ops fd buf nbytes s)"
    using safe_operation [OF assms(2), of fd]
    by (cases "fd_in_use (current_fds s ! unat fd)")
      (auto simp: sys_write_eq simp del: fops_write.simps intro!: bexI [of _ "file_ops (current_fds s ! unat fd)"])
qed

theorem descriptor_operations_safe_witness:
  "sys_read sample_env [] 1 0x8048000 4 sample_kernel = Some (- 1, sample_kernel)
    \<and> fds_safe (current_fds (snd (sys_close 2 sample_kernel)))"
proof -
  have "fds_safe (current_fds sample_kernel)"
    using sample_fds(2) by (auto simp: fds_safe_def sample_fds(1) fd_in_use_def empty_fd_def)
  then have "fds_safe (current_fds (snd (sys_close 2 sample_kernel)))"
    using descriptor_operations_safe [OF sample_drivers_ok, of sample_kernel None 2 "[]" "0x8048000" 4] by blast
  then show ?thesis by (simp add: sys_read_eq)
qed

text \<open>\<open>sys_getargs\<close> copies the arguments of the process with their terminator, cut to \<open>nbytes\<close>
  bytes, into a buffer of the user page and returns 0; a buffer below 128 MB or above 132 MB, a
  negative size, or no arguments give -1 and change nothing.\<close>

theorem sys_getargs_correct:
  assumes "args (pcbs s (CURRENT_PCB_ADDRESS s)) = cs @ 0 # rest" and "0 \<notin> set cs"
  shows "(buf < VIRTUAL_BEGIN \<or> VIRTUAL_END < buf \<or> slt nbytes 0 \<or> cs = [] \<longrightarrow> sys_getargs buf nbytes s = Some (- 1, s))
    \<and> (VIRTUAL_BEGIN \<le> buf \<and> buf \<le> VIRTUAL_END \<and> \<not> slt nbytes 0 \<and> cs \<noteq> [] \<longrightarrow>
        (\<exists>s'. sys_getargs buf nbytes s = Some (0, s')
          \<and> (\<forall>q i. linear s buf q (min (unat nbytes) (length cs + 1)) \<and> length cs < 4096
                \<and> i < min (unat nbytes) (length cs + 1) \<longrightarrow> rd8 s' (buf + of_nat i) = (cs @ [0]) ! i)))"
proof (intro conjI impI)
  assume "buf < VIRTUAL_BEGIN \<or> VIRTUAL_END < buf \<or> slt nbytes 0 \<or> cs = []"
  then show "sys_getargs buf nbytes s = Some (- 1, s)" using assms by (auto simp: sys_getargs_def)
next
  assume ok: "VIRTUAL_BEGIN \<le> buf \<and> buf \<le> VIRTUAL_END \<and> \<not> slt nbytes 0 \<and> cs \<noteq> []"
  let ?bs = "take (unat nbytes) (cs @ [0])"
  have "cs ! 0 \<noteq> 0" using assms(2) ok by (metis length_greater_0_conv nth_mem)
  then have "sys_getargs buf nbytes s = Some (0, store_bytes ?bs buf s)"
    using ok assms(1) getargs_copies [OF assms, of 0 buf "unat nbytes" s]
    by (simp add: sys_getargs_def nth_append linorder_not_less)
  moreover have "rd8 (store_bytes ?bs buf s) (buf + of_nat i) = (cs @ [0]) ! i"
    if "linear s buf q (min (unat nbytes) (length cs + 1))" "length cs < 4096" "i < min (unat nbytes) (length cs + 1)" for q i
  proof -
    have "length ?bs = min (unat nbytes) (length cs + 1)" by simp
    then show ?thesis using rd8_store_bytes [of s buf q ?bs i] that by (simp del: length_take length_append take_append)
  qed
  ultimately show "\<exists>s'. sys_getargs buf nbytes s = Some (0, s')
          \<and> (\<forall>q i. linear s buf q (min (unat nbytes) (length cs + 1)) \<and> length cs < 4096
                \<and> i < min (unat nbytes) (length cs + 1) \<longrightarrow> rd8 s' (buf + of_nat i) = (cs @ [0]) ! i)"
    by blast
qed

definition args_kernel :: kstate where
  "args_kernel = upd_pcb (CURRENT_PCB_ADDRESS sample_kernel) (\<lambda>p. p\<lparr>args := [0x61, 0x62, 0, 0]\<rparr>) sample_kernel"

theorem sys_getargs_correct_witness:
  "\<exists>s'. sys_getargs 0x8048000 10 args_kernel = Some (0, s') \<and> rd8 s' (0x8048000 + of_nat 1) = ([0x61, 0x62] @ [0]) ! 1
    \<and> sys_getargs 0x8400001 10 args_kernel = Some (- 1, args_kernel)"
proof -
  have a: "args (pcbs args_kernel (CURRENT_PCB_ADDRESS args_kernel)) = [0x61, 0x62] @ 0 # [0]"
    by (simp add: args_kernel_def CURRENT_PCB_ADDRESS_def)
  have z: "0 \<notin> set [0x61, 0x62 :: u8]" by simp
  have p: "\<not> slt 10 0" by (simp add: slt_def)
  obtain s' where s': "sys_getargs 0x8048000 10 args_kernel = Some (0, s')"
    "\<forall>q i. linear args_kernel 0x8048000 q (min (unat (10 :: u32)) (length [0x61, 0x62 :: u8] + 1)) \<and> length [0x61, 0x62 :: u8] < 4096
          \<and> i < min (unat (10 :: u32)) (length [0x61, 0x62 :: u8] + 1) \<longrightarrow> rd8 s' (0x8048000 + of_nat i) = ([0x61, 0x62] @ [0]) ! i"
    using sys_getargs_correct [OF a z, THEN conjunct2, rule_format, of "0x8048000" 10] p by auto
  have "linear args_kernel 0x8048000 0x8048000 3" by (simp add: linear_def args_kernel_def)
  then have "rd8 s' (0x8048000 + of_nat 1) = ([0x61, 0x62] @ [0]) ! 1"
    by (intro s'(2) [rule_format, of "0x8048000" 1]) (simp add: numeral_3_eq_3)
  moreover have "sys_getargs 0x8400001 10 args_kernel = Some (- 1, args_kernel)"
    by (rule sys_getargs_correct [OF a z, THEN conjunct1, rule_format]) simp
  ultimately show ?thesis using s'(1) by blast
qed

text \<open>C29. \<open>sys_vidmap\<close> stores the address of the user's video page (132 MB) at the given pointer and
  returns 0, for every pointer from 128 MB up to 132 MB; outside it returns -1 and stores nothing.
  The upper bound is inclusive: the address 132 MB is not in the user page, and a call with it
  succeeds and stores into the video page.\<close>

theorem sys_vidmap_correct:
  shows "(screen_start < VIRTUAL_BEGIN \<or> VIRTUAL_END < screen_start \<longrightarrow> sys_vidmap screen_start s = (- 1, s))
    \<and> (VIRTUAL_BEGIN \<le> screen_start \<and> screen_start \<le> VIRTUAL_END \<and> linear s screen_start q 4 \<longrightarrow>
        fst (sys_vidmap screen_start s) = 0 \<and> rd32 (snd (sys_vidmap screen_start s)) screen_start = VIRTUAL_END)
    \<and> (linear s VIRTUAL_END VIDMEM 4 \<longrightarrow> mem (snd (sys_vidmap VIRTUAL_END s)) (VIDMEM + 2) = 0x40)"
proof (intro conjI impI)
  assume "linear s VIRTUAL_END VIDMEM 4"
  then have "mmu s (VIRTUAL_END + of_nat i) = VIDMEM + of_nat i" if "i < 4" for i using that by (simp add: linear_def)
  from this [of 0] this [of 1] this [of 2] this [of 3]
  show "mem (snd (sys_vidmap VIRTUAL_END s)) (VIDMEM + 2) = 0x40"
    by (simp add: sys_vidmap_def wr32_def mem_wr8)
qed (auto simp: sys_vidmap_def rd32_wr32 linorder_not_less)

theorem sys_vidmap_correct_witness:
  "fst (sys_vidmap 0x8300000 sample_kernel) = 0 \<and> rd32 (snd (sys_vidmap 0x8300000 sample_kernel)) 0x8300000 = VIRTUAL_END"
proof -
  have "linear sample_kernel 0x8300000 0x8300000 4" by (simp add: linear_def)
  then show ?thesis using sys_vidmap_correct [of "0x8300000" sample_kernel "0x8300000"] by simp
qed

end
