(* ===== verification/Command_Line.thy ===== *)
theory Command_Line
  imports Syscall
begin

text \<open>
  The command line of \<open>sys_execute\<close>: the four loops of \<^verbatim>\<open>sys_call.c\<close> that split a
  command into a program name and its arguments, against a description of the two parts with
  \<open>takeWhile\<close> and \<open>dropWhile\<close>.
\<close>

definition is_space :: "u8 \<Rightarrow> bool" where
  "is_space c \<longleftrightarrow> c = SPACE_CHAR"

definition name_char :: "u8 \<Rightarrow> bool" where
  "name_char c \<longleftrightarrow> c \<noteq> 0 \<and> c \<noteq> SPACE_CHAR \<and> c \<noteq> NEWLINE_CHAR"

definition arg_char :: "u8 \<Rightarrow> bool" where
  "arg_char c \<longleftrightarrow> c \<noteq> 0 \<and> c \<noteq> NEWLINE_CHAR"

definition cmd_name :: "u8 list \<Rightarrow> u8 list" where
  "cmd_name command = takeWhile name_char (dropWhile is_space command)"

definition cmd_arg :: "u8 list \<Rightarrow> u8 list" where
  "cmd_arg command = takeWhile arg_char (dropWhile is_space (dropWhile name_char (dropWhile is_space command)))"

definition pad_cmd :: "u8 list \<Rightarrow> u8 list" where
  "pad_cmd w = w @ replicate (MAX_CMD_SIZE - length w) 0"

subsection \<open>The loops\<close>

lemma drop_nth: "i < length xs \<Longrightarrow> drop i xs = xs ! i # drop (i + 1) xs"
  by (simp add: Cons_nth_drop_Suc)

lemma skip_spaces_takeWhile:
  "skip_spaces command i =
    (let n = length (takeWhile is_space (drop i command)) in if i + n < length command then Some (i + n) else None)"
proof (induction command i rule: skip_spaces.induct)
  case (1 command i)
  note step = skip_spaces.simps [of command i, folded is_space_def] and IH = 1 [folded is_space_def]
  consider "i < length command" "is_space (command ! i)" | "i < length command" "\<not> is_space (command ! i)"
    | "length command \<le> i" by fastforce
  then show ?case
  proof cases
    case 1
    then have w: "takeWhile is_space (drop i command) = command ! i # takeWhile is_space (drop (i + 1) command)"
      by (simp add: drop_nth [of i command])
    have "skip_spaces command i = skip_spaces command (i + 1)" using 1 by (simp add: step)
    also have "\<dots> = (let n = length (takeWhile is_space (drop (i + 1) command))
        in if i + 1 + n < length command then Some (i + 1 + n) else None)"
      by (rule IH [of "command ! i"]) (use 1 in simp_all)
    finally show ?thesis unfolding w by (simp add: Let_def)
  qed (simp_all add: step drop_nth [of i command])
qed

text \<open>The bytes \<open>w\<close> written over an array from position \<open>k\<close>.\<close>

definition overwrite :: "'a list \<Rightarrow> nat \<Rightarrow> 'a list \<Rightarrow> 'a list" where
  "overwrite p k w = take k p @ w @ drop (k + length w) p"

lemma overwrite_nil: "overwrite p k [] = p"
  by (simp add: overwrite_def)

lemma overwrite_next: "k < length p \<Longrightarrow> overwrite (p[k := c]) (Suc k) w = overwrite p k (c # w)"
  by (simp add: overwrite_def take_Suc_conv_app_nth)

lemma copy_cmd_takeWhile:
  assumes "start \<le> i" and "i - start \<le> length p"
  shows "copy_cmd command start i p =
    (let w = takeWhile name_char (drop i command)
     in if i + length w < length command \<and> (i - start) + length w \<le> length p
        then Some (i + length w, overwrite p (i - start) w) else None)"
  using assms
proof (induction command start i p rule: copy_cmd.induct)
  case (1 command start i p)
  note step = copy_cmd.simps [of command start i p, folded name_char_def] and IH = 1(1) [folded name_char_def]
  consider "i < length command" "name_char (command ! i)" "i - start < length p"
    | "i < length command" "name_char (command ! i)" "i - start = length p" | "i < length command" "\<not> name_char (command ! i)"
    | "length command \<le> i" using 1(3) by fastforce
  then show ?case
  proof cases
    case 1
    then have w: "takeWhile name_char (drop i command) = command ! i # takeWhile name_char (drop (i + 1) command)"
      by (simp add: drop_nth [of i command])
    have d: "i + 1 - start = i - start + 1" using \<open>start \<le> i\<close> by simp
    have "copy_cmd command start i p = copy_cmd command start (i + 1) (p[i - start := command ! i])"
      using 1 by (simp add: step)
    also have "\<dots> = (let w = takeWhile name_char (drop (i + 1) command)
        in if i + 1 + length w < length command \<and> (i + 1 - start) + length w \<le> length (p[i - start := command ! i])
           then Some (i + 1 + length w, overwrite (p[i - start := command ! i]) (i + 1 - start) w) else None)"
      by (rule IH [of "command ! i"]) (use 1 \<open>start \<le> i\<close> in simp_all)
    finally show ?thesis using 1(3) unfolding w d by (simp add: Let_def overwrite_next)
  qed (use \<open>i - start \<le> length p\<close> in \<open>simp_all add: step Let_def drop_nth [of i command] overwrite_nil\<close>)
qed

lemma copy_arg_takeWhile:
  assumes "start \<le> i" and "i - start \<le> length p"
  shows "copy_arg command start i p =
    (let w = takeWhile arg_char (drop i command)
     in if i + length w < length command \<and> (i - start) + length w \<le> length p
        then Some (i + length w, overwrite p (i - start) w) else None)"
  using assms
proof (induction command start i p rule: copy_arg.induct)
  case (1 command start i p)
  note step = copy_arg.simps [of command start i p, folded arg_char_def] and IH = 1(1) [folded arg_char_def]
  consider "i < length command" "arg_char (command ! i)" "i - start < length p"
    | "i < length command" "arg_char (command ! i)" "i - start = length p" | "i < length command" "\<not> arg_char (command ! i)"
    | "length command \<le> i" using 1(3) by fastforce
  then show ?case
  proof cases
    case 1
    then have w: "takeWhile arg_char (drop i command) = command ! i # takeWhile arg_char (drop (i + 1) command)"
      by (simp add: drop_nth [of i command])
    have d: "i + 1 - start = i - start + 1" using \<open>start \<le> i\<close> by simp
    have "copy_arg command start i p = copy_arg command start (i + 1) (p[i - start := command ! i])"
      using 1 by (simp add: step)
    also have "\<dots> = (let w = takeWhile arg_char (drop (i + 1) command)
        in if i + 1 + length w < length command \<and> (i + 1 - start) + length w \<le> length (p[i - start := command ! i])
           then Some (i + 1 + length w, overwrite (p[i - start := command ! i]) (i + 1 - start) w) else None)"
      by (rule IH [of "command ! i"]) (use 1 \<open>start \<le> i\<close> in simp_all)
    finally show ?thesis using 1(3) unfolding w d by (simp add: Let_def overwrite_next)
  qed (use \<open>i - start \<le> length p\<close> in \<open>simp_all add: step Let_def drop_nth [of i command] overwrite_nil\<close>)
qed

subsection \<open>The whole command\<close>

lemma in_dropWhile: "x \<in> set xs \<Longrightarrow> \<not> P x \<Longrightarrow> x \<in> set (dropWhile P xs)"
  by (induction xs) auto

lemma takeWhile_shorter: "x \<in> set xs \<Longrightarrow> \<not> P x \<Longrightarrow> length (takeWhile P xs) < length xs"
  by (induction xs) auto

lemma drop_takeWhile: "drop (length (takeWhile P xs)) xs = dropWhile P xs"
  by (simp add: dropWhile_eq_drop)

lemma end_of_word:
  assumes "0 \<in> set (drop i command)" and "\<not> P 0"
  shows "i + length (takeWhile P (drop i command)) < length command"
    "0 \<in> set (drop (i + length (takeWhile P (drop i command))) command)"
    "drop (i + length (takeWhile P (drop i command))) command = dropWhile P (drop i command)"
proof -
  have d: "drop (i + length (takeWhile P (drop i command))) command = dropWhile P (drop i command)"
    by (metis drop_drop add.commute drop_takeWhile)
  then show "drop (i + length (takeWhile P (drop i command))) command = dropWhile P (drop i command)" .
  show "0 \<in> set (drop (i + length (takeWhile P (drop i command))) command)"
    unfolding d using assms by (rule in_dropWhile)
  then show "i + length (takeWhile P (drop i command)) < length command"
    by (metis drop_eq_Nil empty_iff empty_set not_le)
qed

lemma parse_command_eq:
  assumes "0 \<in> set command"
  shows "parse_command command =
    (if length (cmd_name command) \<le> MAX_CMD_SIZE \<and> length (cmd_arg command) \<le> MAX_CMD_SIZE
     then Some (pad_cmd (cmd_name command), pad_cmd (cmd_arg command)) else None)"
proof -
  have chars: "\<not> is_space 0" "\<not> name_char 0" "\<not> arg_char 0" by (simp_all add: is_space_def name_char_def arg_char_def)
  define i where "i = length (takeWhile is_space command)"
  define j where "j = i + length (takeWhile name_char (drop i command))"
  define k where "k = j + length (takeWhile is_space (drop j command))"
  have e1: "i < length command" "0 \<in> set (drop i command)" "drop i command = dropWhile is_space command"
    using end_of_word [of 0 command is_space] assms chars by (simp_all add: i_def)
  have e2: "j < length command" "0 \<in> set (drop j command)" "drop j command = dropWhile name_char (drop i command)"
    using end_of_word [of i command name_char] e1 chars by (simp_all add: j_def)
  have e3: "k < length command" "0 \<in> set (drop k command)" "drop k command = dropWhile is_space (drop j command)"
    using end_of_word [of j command is_space] e2 chars by (simp_all add: k_def)
  have e4: "k + length (takeWhile arg_char (drop k command)) < length command"
    using end_of_word [of k command arg_char] e3 chars by simp
  have w: "takeWhile name_char (drop i command) = cmd_name command" "takeWhile arg_char (drop k command) = cmd_arg command"
    by (simp_all add: cmd_name_def cmd_arg_def e1(3) e2(3) e3(3))
  have "skip_spaces command 0 = Some i" using e1(1) by (simp add: skip_spaces_takeWhile i_def [symmetric])
  moreover have "skip_spaces command j = Some k" using e3(1) by (simp add: skip_spaces_takeWhile Let_def k_def [symmetric])
  moreover have "copy_cmd command i i (replicate MAX_CMD_SIZE 0) =
      (if length (cmd_name command) \<le> MAX_CMD_SIZE then Some (j, pad_cmd (cmd_name command)) else None)"
    using e2(1) by (simp add: copy_cmd_takeWhile w Let_def j_def overwrite_def pad_cmd_def)
  moreover have "copy_arg command k k (replicate MAX_CMD_SIZE 0) =
      (if length (cmd_arg command) \<le> MAX_CMD_SIZE then Some (k + length (cmd_arg command), pad_cmd (cmd_arg command)) else None)"
    using e4 by (simp add: copy_arg_takeWhile w Let_def overwrite_def pad_cmd_def)
  ultimately show ?thesis by (simp add: parse_command_def)
qed

text \<open>C20. \<open>sys_execute\<close> splits a NUL-terminated command as its comment says: leading spaces are
  skipped, the name ends at a space, newline or NUL, the spaces after it are skipped, and the
  arguments are the rest up to a newline or NUL. Each part is delivered in a 128-byte array filled up
  with NULs; a name or an argument string of more than 128 bytes is written past the end of its
  array (no result), the loops having no bound.\<close>

theorem parse_command_correct:
  assumes "0 \<in> set command"
  shows "parse_command command =
    (if length (cmd_name command) \<le> MAX_CMD_SIZE \<and> length (cmd_arg command) \<le> MAX_CMD_SIZE
     then Some (pad_cmd (cmd_name command), pad_cmd (cmd_arg command)) else None)"
  by (rule parse_command_eq [OF assms])

theorem parse_command_correct_witness:
  "parse_command ([0x20, 0x6C, 0x73, 0x20, 0x20, 0x61, 0x20, 0x62, 0x0A, 0]) =
    Some (pad_cmd [0x6C, 0x73], pad_cmd [0x61, 0x20, 0x62])"
proof -
  have "(0 :: u8) \<in> set [0x20, 0x6C, 0x73, 0x20, 0x20, 0x61, 0x20, 0x62, 0x0A, 0]" by simp
  note p = parse_command_correct [OF this]
  have "cmd_name [0x20, 0x6C, 0x73, 0x20, 0x20, 0x61, 0x20, 0x62, 0x0A, 0] = [0x6C, 0x73]"
    "cmd_arg [0x20, 0x6C, 0x73, 0x20, 0x20, 0x61, 0x20, 0x62, 0x0A, 0] = [0x61, 0x20, 0x62]"
    by (simp_all add: cmd_name_def cmd_arg_def is_space_def name_char_def arg_char_def)
  then show ?thesis unfolding p by simp
qed

end
