(* ===== verification/Exec.thy ===== *)
theory Exec
  imports Syscall_Files Command_Line
begin

text \<open>
  Processes: what \<open>sys_execute\<close> and \<open>sys_halt\<close> of \<^verbatim>\<open>sys_call.c\<close> do to the state of the
  kernel. The error exits of \<open>sys_execute\<close> give the process number back; a successful call builds a
  process in its own memory and PCB; and \<open>sys_halt\<close> of that process restores what the caller of
  \<open>sys_execute\<close> had.
\<close>

subsection \<open>What loading a program leaves alone\<close>

definition forget_fds :: "pcb \<Rightarrow> pcb" where
  "forget_fds p = p\<lparr>rtc_freq := 0, rtc_interrupt_occurred := 0, fd_array := []\<rparr>"

text \<open>Nothing of the kernel changes but page tables, memory, drivers' variables and descriptors, the
  latter (beyond their positions) in the running process only.\<close>

definition fds_frame :: "kstate \<Rightarrow> kstate \<Rightarrow> bool" where
  "fds_frame s s' \<longleftrightarrow> (\<forall>a. forget_fds (pcbs s' a) = forget_fds (pcbs s a)
       \<and> length (fd_array (pcbs s' a)) = length (fd_array (pcbs s a))
       \<and> (a \<noteq> CURRENT_PCB_ADDRESS s \<longrightarrow> forget_driver (pcbs s' a) = forget_driver (pcbs s a)))
     \<and> eflags s' = eflags s \<and> esp s' = esp s \<and> ebp s' = ebp s \<and> terminals s' = terminals s
     \<and> active_terminal s' = active_terminal s \<and> tasks s' = tasks s \<and> current_task s' = current_task s
     \<and> global_pid s' = global_pid s \<and> pid_availability s' = pid_availability s \<and> tss_esp0 s' = tss_esp0 s
     \<and> pit_interrupt_counter s' = pit_interrupt_counter s"

lemma forget_fds_driver: "forget_driver p = forget_driver q \<Longrightarrow> forget_fds p = forget_fds q"
proof -
  have "forget_fds r = (forget_driver r)\<lparr>fd_array := []\<rparr>" for r by (simp add: forget_fds_def forget_driver_def)
  then show "forget_driver p = forget_driver q \<Longrightarrow> forget_fds p = forget_fds q" by simp
qed

lemma fds_frame_driver:
  assumes "driver_frame s s'" shows "fds_frame s s'"
proof -
  have "forget_driver (pcbs s' a) = forget_driver (pcbs s a)" for a using assms by (simp only: driver_frame_def)
  then have "forget_fds (pcbs s' a) = forget_fds (pcbs s a)
       \<and> length (fd_array (pcbs s' a)) = length (fd_array (pcbs s a))
       \<and> (a \<noteq> CURRENT_PCB_ADDRESS s \<longrightarrow> forget_driver (pcbs s' a) = forget_driver (pcbs s a))" for a
    using forget_fds_driver driver_frameD(2) [OF assms] by blast
  then show ?thesis using assms unfolding fds_frame_def driver_frame_def by blast
qed

lemma fds_frame_refl: "fds_frame s s"
  by (simp add: fds_frame_def)

lemma fds_frame_trans: "fds_frame s t \<Longrightarrow> fds_frame t u \<Longrightarrow> fds_frame s u"
  by (simp add: fds_frame_def CURRENT_PCB_ADDRESS_def)

lemma fds_frame_upd: "fds_frame s (upd_fd i f s)"
  by (simp add: fds_frame_def upd_fd_def forget_fds_def) (simp add: upd_pcb_def)

lemma fds_frame_upd_after: "fds_frame s t \<Longrightarrow> fds_frame s (upd_fd i f t)"
  by (rule fds_frame_trans [OF _ fds_frame_upd])

lemma fds_frame_open:
  assumes "drivers_ok e"
  shows "fds_frame s (snd (sys_open e f s))"
proof -
  have d: "fds_frame t (snd (open_rtc e f t))" "fds_frame t (snd (open_directory e f t))" "fds_frame t (snd (open_file e f t))" for t
    using assms by (simp_all add: drivers_ok_def fds_frame_driver)
  have "fds_frame t (open_type e ft f i t)" for t ft i
    using d fds_frame_refl by (simp add: open_type_def split_beta fds_frame_upd_after)
  then have "fds_frame s (open_type e ft f i (upd_fd i g s))" for ft i g
    by (rule fds_frame_trans [OF fds_frame_upd])
  then show ?thesis by (simp add: sys_open_def split_beta fds_frame_refl split: option.split)
qed

lemma fds_frame_close: "fds_frame s (snd (sys_close fd s))"
  by (simp add: sys_close_eq fds_frame_upd fds_frame_refl)

lemma fds_frame_kmodify: "fds_frame s (kmodify pg p s)"
  by (simp add: fds_frame_def kmodify_def)

lemma upd_fd_mmu [simp]: "mmu (upd_fd i f s) = mmu s"
  by (simp add: upd_fd_def)

lemma sys_close_mmu [simp]: "mmu (snd (sys_close fd s)) = mmu s"
  by (simp add: sys_close_eq)

lemma sys_open_mmu: "drivers_ok e \<Longrightarrow> mmu (snd (sys_open e f s)) = mmu s"
  by (simp add: sys_open_def open_type_def split_beta drivers_ok_def driver_frame_def split: option.split)

text \<open>The page of process \<open>n\<close> for user programs.\<close>

definition user_page :: "u32 \<Rightarrow> u32 \<Rightarrow> u32" where
  "user_page pid x = (PID_OFFSET + pid) * FOUR_M + (x - VIRTUAL_BEGIN)"

lemma kmodify_mmu:
  "paging_ok pg \<Longrightarrow> mmu (kmodify pg ((PID_OFFSET + pid) * FOUR_M) s) x =
    (if VIRTUAL_BEGIN \<le> x \<and> x < VIRTUAL_END then user_page pid x else mmu s x)"
  by (simp add: kmodify_def paging_ok_def user_page_def)

lemma load_program_facts:
  assumes "drivers_ok e" and "length (current_fds s) = 8" and "2 \<le> i" and "i < 8"
  shows "fds_frame s (load_program e pid (of_nat i) name s)"
    "mmu (load_program e pid (of_nat i) name s) x =
      (if VIRTUAL_BEGIN \<le> x \<and> x < VIRTUAL_END then user_page pid x else mmu s x)"
    "fd_used (current_fds (load_program e pid (of_nat i) name s)) = (fd_used (current_fds s))(i := False)"
proof -
  let ?m = "kmodify (pages e) ((PID_OFFSET + pid) * FOUR_M) s"
  define r where "r = snd (read_data e (inode (current_fds ?m ! i)) 0 PROGRAM_START_ADDRESS (file_size e (Some name) ?m) ?m)"
  have l: "load_program e pid (of_nat i) name s = snd (sys_close (of_nat i) r)"
    using assms(4) by (simp add: load_program_def Let_def split_beta small_fd r_def)
  have d: "driver_frame ?m r" using assms(1) by (simp add: drivers_ok_def r_def)
  show "fds_frame s (load_program e pid (of_nat i) name s)"
    unfolding l using fds_frame_trans [OF fds_frame_kmodify fds_frame_driver [OF d]] fds_frame_close
    by (rule fds_frame_trans)
  show "mmu (load_program e pid (of_nat i) name s) x = (if VIRTUAL_BEGIN \<le> x \<and> x < VIRTUAL_END then user_page pid x else mmu s x)"
  proof -
    have "mmu r = mmu ?m" "paging_ok (pages e)" using d assms(1) by (simp_all only: driver_frame_def drivers_ok_def)
    then show ?thesis unfolding l sys_close_mmu by (simp only: kmodify_mmu)
  qed
  have m: "current_fds ?m = current_fds s" by (simp add: current_fds_def kmodify_def CURRENT_PCB_ADDRESS_def)
  show "fd_used (current_fds (load_program e pid (of_nat i) name s)) = (fd_used (current_fds s))(i := False)"
    unfolding l using sys_close_fds(2) [OF assms(3,4), of r] driver_fds(1,2) [OF d] assms(2) m by simp
qed

subsection \<open>The steps of \<open>sys_execute\<close>\<close>

text \<open>Process number \<open>n\<close> is the lowest free one.\<close>

definition next_pid :: "kstate \<Rightarrow> nat \<Rightarrow> bool" where
  "next_pid s n \<longleftrightarrow> length (pid_availability s) = NUM_PROCESSES \<and> n < NUM_PROCESSES \<and> pid_availability s ! n = AVAILABLE
     \<and> (\<forall>j<n. pid_availability s ! j \<noteq> AVAILABLE)"

definition take_pid :: "nat \<Rightarrow> kstate \<Rightarrow> kstate" where
  "take_pid n s = s\<lparr>pid_availability := (pid_availability s)[n := UNAVAILABLE]\<rparr>"

lemma not_unavailable: "n < 6 \<Longrightarrow> NOT (of_nat n :: u32) \<noteq> 0"
proof -
  assume "n < 6"
  then have "(of_nat n :: u32) \<noteq> - 1" using small_fd(2) [of n] by simp
  then show ?thesis by (metis bit.compl_zero bit.double_compl)
qed

lemma exec_fail_pid:
  assumes "length (pid_availability t) = 6" and "n < 6"
  shows "exec_fail (of_nat n) t = Some (Return (- 1), t\<lparr>pid_availability := (pid_availability t)[n := AVAILABLE]\<rparr>)"
  using assms by (simp add: exec_fail_def remove_pid_def REMOVE_PID_def small_pid)

lemma give_back:
  assumes "next_pid s n" shows "(take_pid n s)\<lparr>pid_availability := (pid_availability (take_pid n s))[n := AVAILABLE]\<rparr> = s"
proof -
  have "(pid_availability s)[n := AVAILABLE] = pid_availability s"
    using assms unfolding next_pid_def by (metis list_update_id)
  then show ?thesis by (simp add: take_pid_def)
qed

lemma exec_steps:
  assumes "next_pid s n" and "command_empty (Some c) = Some False" and "parse_command c = Some (name, arg)"
    and "sys_open e (Some name) (take_pid n s) = (fd, t)"
  shows "fd = - 1 \<Longrightarrow> sys_execute e (Some c) s = exec_fail (of_nat n) t"
    and "fd \<noteq> - 1 \<Longrightarrow> read_file e fd (exec_header_addr e) 4 t = Some (r, u) \<Longrightarrow>
      sys_execute e (Some c) s =
        (if rd32 u (exec_header_addr e) = ELF_HEADER
         then start_process (of_nat n) (if n < NUM_TERMINALS then - 1 else global_pid s) arg (load_program e (of_nat n) fd name u)
         else exec_fail (of_nat n) u)"
proof -
  have f: "FIRST_AVAILABLE_PID (pid_availability s) = Some (of_nat n, (pid_availability s)[n := UNAVAILABLE])"
    using assms(1) by (intro FIRST_AVAILABLE_PID_free) (simp_all add: next_pid_def)
  have n: "n < 6" using assms(1) by (simp add: next_pid_def)
  have lt: "(of_nat n :: u32) < of_nat NUM_TERMINALS \<longleftrightarrow> n < NUM_TERMINALS"
    using n by (simp add: word_less_nat_alt small_pid)
  have g: "global_pid (take_pid n s) = global_pid s" by (simp add: take_pid_def)
  note exec = sys_execute_def [of e "Some c" s, unfolded f bind.bind_lunit prod.case take_pid_def [symmetric] Let_def assms(2) g lt]
  show "fd = - 1 \<Longrightarrow> sys_execute e (Some c) s = exec_fail (of_nat n) t"
    using not_unavailable [OF n] assms(3,4) by (simp add: exec)
  show "fd \<noteq> - 1 \<Longrightarrow> read_file e fd (exec_header_addr e) 4 t = Some (r, u) \<Longrightarrow>
      sys_execute e (Some c) s =
        (if rd32 u (exec_header_addr e) = ELF_HEADER
         then start_process (of_nat n) (if n < NUM_TERMINALS then - 1 else global_pid s) arg (load_program e (of_nat n) fd name u)
         else exec_fail (of_nat n) u)"
    using not_unavailable [OF n] assms(3,4) by (simp add: exec)
qed


subsection \<open>Starting a process\<close>

lemma pad_cmd_terminated: "length w < 128 \<Longrightarrow> pad_cmd w = w @ 0 # replicate (127 - length w) 0"
proof -
  assume "length w < 128"
  then have "128 - length w = Suc (127 - length w)" by linarith
  then show ?thesis by (simp add: pad_cmd_def)
qed

lemma strncpy_args:
  assumes "length as = 128" and "length w < 128" and "0 \<notin> set w"
  shows "strncpy as (pad_cmd w) 128 = Some (pad_cmd w)"
proof -
  have "strncpy as (pad_cmd w) 128 = Some (take 128 (w @ replicate 128 0) @ drop 128 as)"
    unfolding pad_cmd_terminated [OF assms(2)] by (rule strncpy_nul) (use assms in simp_all)
  then show ?thesis using assms(1,2) by (simp add: pad_cmd_def take_replicate min_absorb1)
qed

lemma cmd_arg_no_nul: "0 \<notin> set (cmd_arg c)"
  by (auto simp: cmd_arg_def arg_char_def dest: set_takeWhileD)

definition started_process :: "u32 \<Rightarrow> u32 \<Rightarrow> u8 list \<Rightarrow> kstate \<Rightarrow> kstate \<Rightarrow> bool" where
  "started_process pid ppid as s s' \<longleftrightarrow>
     (let p = pcbs s' (PCB_ADDRESS pid) in
        global_pid s' = pid \<and> tss_esp0 s' = KERNEL_STACK_ADDRESS pid
      \<and> task_pcb (CURRENT_TASK s') = PCB_ADDRESS pid \<and> task_pid (CURRENT_TASK s') = pid
      \<and> parent_pid p = ppid \<and> parent_pcb p = PCB_ADDRESS ppid \<and> pcb_terminal p = task_terminal (CURRENT_TASK s)
      \<and> parent_esp p = esp s \<and> parent_ebp p = ebp s \<and> parent_esp0 p = tss_esp0 s \<and> args p = as
      \<and> file_ops (fd_array p ! 0) = std_in_fops \<and> fd_in_use (fd_array p ! 0)
      \<and> file_ops (fd_array p ! 1) = std_out_fops \<and> fd_in_use (fd_array p ! 1))"

text \<open>What \<open>start_process\<close> leaves alone.\<close>

definition other_processes :: "u32 \<Rightarrow> kstate \<Rightarrow> kstate \<Rightarrow> bool" where
  "other_processes pid s s' \<longleftrightarrow> (\<forall>a. a \<noteq> PCB_ADDRESS pid \<longrightarrow> pcbs s' a = pcbs s a)
     \<and> (\<forall>i. i \<noteq> unat (current_task s) \<longrightarrow> tasks s' ! i = tasks s ! i) \<and> length (tasks s') = length (tasks s)
     \<and> current_task s' = current_task s \<and> terminals s' = terminals s \<and> active_terminal s' = active_terminal s
     \<and> mmu s' = mmu s \<and> pid_availability s' = pid_availability s \<and> eflags s' = eflags s
     \<and> task_terminal (CURRENT_TASK s') = task_terminal (CURRENT_TASK s)"

lemma new_pcb_fds: "length (fd_array p) = 8 \<Longrightarrow> fd_array (new_pcb ppid t as a b c p) ! 0 =
    (fd_array p ! 0)\<lparr>file_ops := std_in_fops, fd_flags := fd_flags (fd_array p ! 0) OR FD_IN_USE\<rparr>"
  "length (fd_array p) = 8 \<Longrightarrow> fd_array (new_pcb ppid t as a b c p) ! 1 =
    (fd_array p ! 1)\<lparr>file_ops := std_out_fops, fd_flags := fd_flags (fd_array p ! 1) OR FD_IN_USE\<rparr>"
  by (simp_all add: new_pcb_def)

lemma start_process_facts:
  assumes "strncpy (args (pcbs s (PCB_ADDRESS pid))) arg 128 = Some as" and "unat (current_task s) < length (tasks s)"
    and "length (fd_array (pcbs s (PCB_ADDRESS pid))) = 8"
  shows "\<exists>s'. start_process pid ppid arg s =
      Some (Iret (rd32 s (PROGRAM_START_ADDRESS + ENTRY_POINT_LOCATION)) USER_CS (eflags s OR ENABLE_INTERRUPTS) VIRTUAL_STACK_START USER_DS, s')
    \<and> started_process pid ppid as s s' \<and> other_processes pid s s'
    \<and> length (fd_array (pcbs s' (PCB_ADDRESS pid))) = 8 \<and> (\<forall>x. rd32 s' x = rd32 s x)"
proof -
  let ?u = "upd_pcb (PCB_ADDRESS pid) (new_pcb ppid (task_terminal (CURRENT_TASK s)) as (esp s) (ebp s) (tss_esp0 s)) s"
  let ?s = "(upd_current_task (\<lambda>t. t\<lparr>task_pcb := PCB_ADDRESS pid, task_pid := pid\<rparr>) (?u\<lparr>tss_esp0 := KERNEL_STACK_ADDRESS pid\<rparr>))
      \<lparr>global_pid := pid, pcb_all_started := pit_interrupt_counter s\<rparr>"
  have rd: "rd32 (upd_current_task f (?u\<lparr>tss_esp0 := v\<rparr>)) x = rd32 s x" for f v x
    by (simp add: rd32_def rd8_def upd_current_task_def)
  have pit: "pit_interrupt_counter (upd_current_task f (?u\<lparr>tss_esp0 := v\<rparr>)) = pit_interrupt_counter s" for f v
    by (simp add: upd_current_task_def upd_task_def upd_pcb_def)
  have "start_process pid ppid arg s =
      Some (Iret (rd32 s (PROGRAM_START_ADDRESS + ENTRY_POINT_LOCATION)) USER_CS (eflags s OR ENABLE_INTERRUPTS) VIRTUAL_STACK_START USER_DS, ?s)"
    using assms(1) by (simp add: start_process_def Let_def rd pit)
  moreover have "started_process pid ppid as s ?s"
    using assms(2,3) by (simp add: started_process_def Let_def upd_current_task_def CURRENT_TASK_def new_pcb_fds)
      (simp add: new_pcb_def upd_task_def)
  moreover have "other_processes pid s ?s"
    using assms(2) by (simp add: other_processes_def upd_current_task_def CURRENT_TASK_def)
  moreover have "length (fd_array (pcbs ?s (PCB_ADDRESS pid))) = 8"
    using assms(3) by (simp add: upd_current_task_def new_pcb_def)
  moreover have "\<forall>x. rd32 ?s x = rd32 s x" by (simp add: rd32_def rd8_def upd_current_task_def)
  ultimately show ?thesis by blast
qed


subsection \<open>Executable files\<close>

text \<open>The file system knows the name, and what its first four bytes read as, after it was opened in
  state \<open>t\<close>, is the ELF magic number or not.\<close>

definition first_word :: "env \<Rightarrow> u8 list \<Rightarrow> kstate \<Rightarrow> (u32 \<Rightarrow> bool) \<Rightarrow> bool" where
  "first_word e name t P \<longleftrightarrow> fst (read_dentry_by_name e (Some name) t) \<noteq> - 1
     \<and> (\<forall>fd t' r u. sys_open e (Some name) t = (fd, t') \<and> fd \<noteq> - 1 \<and> read_file e fd (exec_header_addr e) 4 t' = Some (r, u)
          \<longrightarrow> P (rd32 u (exec_header_addr e)))"

definition pcbs_ok :: "kstate \<Rightarrow> bool" where
  "pcbs_ok s \<longleftrightarrow> (\<forall>a. length (fd_array (pcbs s a)) = FD_ARRAY_SIZE \<and> length (args (pcbs s a)) = MAX_ARG_SIZE)"

text \<open>Descriptor \<open>i\<close> is the one the next \<open>sys_open\<close> of the running process gets.\<close>

definition next_fd :: "kstate \<Rightarrow> nat \<Rightarrow> bool" where
  "next_fd s i \<longleftrightarrow> FIRST_FD \<le> i \<and> i < FD_ARRAY_SIZE \<and> \<not> fd_used (current_fds s) i
     \<and> (\<forall>j. FIRST_FD \<le> j \<and> j < i \<longrightarrow> fd_used (current_fds s) j)"

lemma take_pid_fds [simp]: "current_fds (take_pid n s) = current_fds s" "pcbs (take_pid n s) = pcbs s"
  by (simp_all add: take_pid_def current_fds_def CURRENT_PCB_ADDRESS_def)

lemma open_for_exec:
  assumes "drivers_ok e" and "length (current_fds s) = 8" and "first_word e name (take_pid n s) P" and "next_fd s i"
  shows "\<exists>t r u. sys_open e (Some name) (take_pid n s) = (of_nat i, t) \<and> (of_nat i :: u32) \<noteq> - 1
    \<and> read_file e (of_nat i) (exec_header_addr e) 4 t = Some (r, u) \<and> P (rd32 u (exec_header_addr e))
    \<and> fds_frame (take_pid n s) u \<and> mmu u = mmu s
    \<and> length (current_fds u) = 8 \<and> fd_used (current_fds u) = (fd_used (current_fds s))(i := True)"
proof -
  obtain r0 ft where d: "read_dentry_by_name e (Some name) (take_pid n s) = (r0, ft)" by fastforce
  have r0: "r0 \<noteq> - 1" using assms(3) d unfolding first_word_def by (metis fst_conv)
  have i: "(of_nat i :: u32) \<noteq> - 1" using assms(4) small_fd(2) [of i] by (simp add: next_fd_def)
  obtain t where t: "sys_open e (Some name) (take_pid n s) = (of_nat i, t)" "length (current_fds t) = 8"
    "fd_used (current_fds t) = (fd_used (current_fds s))(i := True)"
    using sys_open_free [OF assms(1) _ d r0, of i] assms(2,4) by (auto simp: next_fd_def)
  obtain r u where u: "read_file e (of_nat i) (exec_header_addr e) 4 t = Some (r, u)" "driver_frame t u"
    using assms(1) unfolding drivers_ok_def by blast
  have "P (rd32 u (exec_header_addr e))" using assms(3) t(1) i u(1) unfolding first_word_def by blast
  moreover have "fds_frame (take_pid n s) u"
    using fds_frame_open [OF assms(1), of "take_pid n s" "Some name"] t(1) fds_frame_driver [OF u(2)]
    by (metis fds_frame_trans snd_conv)
  moreover have "mmu u = mmu s"
    using sys_open_mmu [OF assms(1), of "Some name" "take_pid n s"] t(1) u(2) by (simp add: driver_frame_def take_pid_def)
  ultimately show ?thesis using t(1) i u(1) driver_fds(1,2) [OF u(2)] t(2,3) by auto
qed

lemma started_process_frame:
  assumes "fds_frame (take_pid n s) u" and "started_process pid ppid as u s'"
  shows "started_process pid ppid as s s'"
  using assms by (simp add: started_process_def fds_frame_def take_pid_def CURRENT_TASK_def)

lemma other_processes_wf:
  assumes "wf_kernel s" and "fds_frame (take_pid n s) u" and "other_processes pid u s'"
  shows "wf_kernel s'"
proof -
  have f: "terminals s' = terminals s" "active_terminal s' = active_terminal s" "current_task s' = current_task s"
    "length (tasks s') = length (tasks s)" "length (pid_availability s') = length (pid_availability s)"
    "i \<noteq> unat (current_task s) \<Longrightarrow> tasks s' ! i = tasks s ! i"
    "task_terminal (CURRENT_TASK s') = task_terminal (CURRENT_TASK s)" for i
    using assms(2,3) by (auto simp: fds_frame_def other_processes_def take_pid_def CURRENT_TASK_def)
  have "task_terminal (tasks s' ! i) = task_terminal (tasks s ! i)" for i
    using f by (cases "i = unat (current_task s)") (simp_all add: CURRENT_TASK_def)
  then show ?thesis using assms(1) f(1-5) by (simp add: wf_kernel_def tasks_ok_def)
qed

lemma exec_starts:
  assumes "drivers_ok e" and "wf_kernel s" and "pcbs_ok s" and "next_pid s n" and "next_fd s i"
    and "0 \<in> set c" and "c ! 0 \<noteq> 0" and "length (cmd_name c) \<le> MAX_CMD_SIZE" and "length (cmd_arg c) < MAX_ARG_SIZE"
    and "first_word e (pad_cmd (cmd_name c)) (take_pid n s) (\<lambda>w. w = ELF_HEADER)"
  shows "\<exists>s'. sys_execute e (Some c) s = Some (Iret (rd32 s' (PROGRAM_START_ADDRESS + ENTRY_POINT_LOCATION)) USER_CS
        (eflags s OR ENABLE_INTERRUPTS) VIRTUAL_STACK_START USER_DS, s')
    \<and> started_process (of_nat n) (if n < NUM_TERMINALS then - 1 else global_pid s) (pad_cmd (cmd_arg c)) s s'
    \<and> pid_availability s' = (pid_availability s)[n := UNAVAILABLE]
    \<and> (\<forall>x. mmu s' x = (if VIRTUAL_BEGIN \<le> x \<and> x < VIRTUAL_END then user_page (of_nat n) x else mmu s x))
    \<and> wf_kernel s' \<and> current_task s' = current_task s
    \<and> (CURRENT_PCB_ADDRESS s \<noteq> PCB_ADDRESS (of_nat n) \<longrightarrow>
        fd_used (fd_array (pcbs s' (CURRENT_PCB_ADDRESS s))) = fd_used (current_fds s))
    \<and> length (fd_array (pcbs s' (PCB_ADDRESS (of_nat n)))) = FD_ARRAY_SIZE
    \<and> terminals s' = terminals s \<and> active_terminal s' = active_terminal s \<and> eflags s' = eflags s"
proof -
  let ?ppid = "if n < NUM_TERMINALS then - 1 else global_pid s"
  let ?name = "pad_cmd (cmd_name c)" and ?arg = "pad_cmd (cmd_arg c)"
  have len: "length (current_fds s) = 8" using assms(3) by (simp add: pcbs_ok_def current_fds_def)
  have i: "2 \<le> i" "i < 8" "\<not> fd_used (current_fds s) i" using assms(5) by (simp_all add: next_fd_def)
  obtain t r u where u: "sys_open e (Some ?name) (take_pid n s) = (of_nat i, t)" "(of_nat i :: u32) \<noteq> - 1"
    "read_file e (of_nat i) (exec_header_addr e) 4 t = Some (r, u)" "rd32 u (exec_header_addr e) = ELF_HEADER"
    "fds_frame (take_pid n s) u" "mmu u = mmu s" "length (current_fds u) = 8"
    "fd_used (current_fds u) = (fd_used (current_fds s))(i := True)"
    using open_for_exec [OF assms(1) len assms(10,5)] by blast
  define l where "l = load_program e (of_nat n) (of_nat i) ?name u"
  note lp = load_program_facts [OF assms(1) u(7) i(1,2), of "of_nat n" ?name, folded l_def]
  have fr: "fds_frame (take_pid n s) l" using u(5) lp(1) by (rule fds_frame_trans)
  have p: "length (args (pcbs l a)) = 128" "length (fd_array (pcbs l a)) = 8" for a
  proof -
    have "args (forget_fds (pcbs l a)) = args (forget_fds (pcbs s a))" "length (fd_array (pcbs l a)) = length (fd_array (pcbs s a))"
      using fr by (simp_all add: fds_frame_def)
    then show "length (args (pcbs l a)) = 128" "length (fd_array (pcbs l a)) = 8"
      using assms(3) by (simp_all add: pcbs_ok_def forget_fds_def)
  qed
  have tk: "unat (current_task l) < length (tasks l)" "eflags l = eflags s" "current_task l = current_task s"
    "CURRENT_PCB_ADDRESS l = CURRENT_PCB_ADDRESS s" "pid_availability l = (pid_availability s)[n := UNAVAILABLE]"
    using fr wf_kernelD(3,4) [OF assms(2)] by (simp_all add: fds_frame_def take_pid_def CURRENT_PCB_ADDRESS_def)
  obtain s' where s': "start_process (of_nat n) ?ppid ?arg l =
      Some (Iret (rd32 l (PROGRAM_START_ADDRESS + ENTRY_POINT_LOCATION)) USER_CS (eflags l OR ENABLE_INTERRUPTS) VIRTUAL_STACK_START USER_DS, s')"
    "started_process (of_nat n) ?ppid ?arg l s'" "other_processes (of_nat n) l s'"
    "length (fd_array (pcbs s' (PCB_ADDRESS (of_nat n)))) = 8" "\<forall>x. rd32 s' x = rd32 l x"
    using start_process_facts [OF strncpy_args [OF p(1) assms(9) cmd_arg_no_nul] tk(1) p(2), of "of_nat n" "?ppid"] by blast
  have "command_empty (Some c) = Some False" using assms(6,7) by (cases c) (simp_all add: command_empty_def)
  moreover have "parse_command c = Some (?name, ?arg)" using assms(6,8,9) by (simp add: parse_command_eq)
  ultimately have "sys_execute e (Some c) s = start_process (of_nat n) ?ppid ?arg l"
    using exec_steps(2) [OF assms(4) _ _ u(1,2,3)] u(4) by (simp add: l_def)
  moreover have "\<forall>x. mmu s' x = (if VIRTUAL_BEGIN \<le> x \<and> x < VIRTUAL_END then user_page (of_nat n) x else mmu s x)"
    using s'(3) lp(2) u(6) by (simp add: other_processes_def)
  moreover have "pid_availability s' = (pid_availability s)[n := UNAVAILABLE]" "current_task s' = current_task s"
    using s'(3) tk by (simp_all add: other_processes_def)
  moreover have "fd_used (fd_array (pcbs s' (CURRENT_PCB_ADDRESS s))) = fd_used (current_fds s)"
    if "CURRENT_PCB_ADDRESS s \<noteq> PCB_ADDRESS (of_nat n)"
  proof -
    have "fd_array (pcbs s' (CURRENT_PCB_ADDRESS s)) = current_fds l"
      using s'(3) that tk(4) by (simp add: other_processes_def current_fds_def)
    then show ?thesis using lp(3) u(8) i(3) by (simp add: fun_eq_iff)
  qed
  moreover have "length (fd_array (pcbs s' (PCB_ADDRESS (of_nat n)))) = FD_ARRAY_SIZE" by (rule s'(4))
  moreover have "terminals s' = terminals s" "active_terminal s' = active_terminal s" "eflags s' = eflags s"
    using s'(3) fr by (simp_all add: other_processes_def fds_frame_def take_pid_def)
  ultimately show ?thesis
    using s'(1,5) tk(2) started_process_frame [OF fr s'(2)] other_processes_wf [OF assms(2) fr s'(3)] by auto
qed


subsection \<open>Halting\<close>

definition close_all :: "kstate \<Rightarrow> kstate" where
  "close_all s = fold (\<lambda>i s. snd (sys_close (of_nat i) s)) [FIRST_FD..<FD_ARRAY_SIZE] s"

lemma fold_fds_frame: "(\<And>i t. fds_frame t (f i t)) \<Longrightarrow> fds_frame s (fold f xs s)"
proof (induction xs arbitrary: s)
  case (Cons x xs)
  then show ?case using fds_frame_trans by (metis fold_simps(2))
qed (simp add: fds_frame_refl)

lemma close_all_frame: "fds_frame s (close_all s)" "mmu (close_all s) = mmu s"
  unfolding close_all_def by (rule fold_fds_frame, rule fds_frame_close) (rule fold_keeps, simp)

lemma close_fds_used:
  assumes "set is \<subseteq> {2..<8}" and "length (current_fds s) = 8"
  shows "fd_used (current_fds (fold (\<lambda>i s. snd (sys_close (of_nat i) s)) is s)) = (\<lambda>i. fd_used (current_fds s) i \<and> i \<notin> set is)"
  using assms
proof (induction "is" arbitrary: s)
  case (Cons i "is")
  then show ?case using sys_close_fds [of i s] by (auto simp: fun_eq_iff)
qed simp

lemma close_all_used: "length (current_fds s) = 8 \<Longrightarrow> 2 \<le> i \<Longrightarrow> i < 8 \<Longrightarrow> \<not> fd_used (current_fds (close_all s)) i"
  using close_fds_used [of "[2..<8]" s] by (simp add: close_all_def del: upt_rec_numeral)

definition drop_pid :: "kstate \<Rightarrow> kstate" where
  "drop_pid s = s\<lparr>pid_availability := (pid_availability s)[unat (global_pid s) := AVAILABLE]\<rparr>"

lemma sys_halt_steps:
  assumes "length (pid_availability s) = 6" and "unat (global_pid s) < 6"
  shows "sys_halt e status s =
    (if parent_pid (pcbs s (CURRENT_PCB_ADDRESS s)) = - 1
     then do { (t, s') \<leftarrow> sys_execute e shell_name (reset_screen (drop_pid (close_all s)));
               case t of Return _ \<Rightarrow> Some (halt_to_parent e (CURRENT_PCB_ADDRESS s) status s') | _ \<Rightarrow> Some (t, s') }
     else Some (halt_to_parent e (CURRENT_PCB_ADDRESS s) status (drop_pid (close_all s))))"
proof -
  have f: "global_pid (close_all s) = global_pid s" "pid_availability (close_all s) = pid_availability s"
    "CURRENT_PCB_ADDRESS (close_all s) = CURRENT_PCB_ADDRESS s"
    using close_all_frame(1) [of s] by (simp_all add: fds_frame_def CURRENT_PCB_ADDRESS_def)
  have "parent_pid (forget_fds (pcbs (close_all s) a)) = parent_pid (forget_fds (pcbs s a))" for a
    using close_all_frame(1) [of s] by (simp add: fds_frame_def)
  then have p: "parent_pid (pcbs (close_all s) a) = parent_pid (pcbs s a)" for a by (simp add: forget_fds_def)
  have r: "remove_pid (global_pid s) (close_all s) = Some (drop_pid (close_all s))"
    using assms f by (simp add: remove_pid_def REMOVE_PID_def drop_pid_def)
  have "pcbs (drop_pid (close_all s)) = pcbs (close_all s)" by (simp add: drop_pid_def)
  then show ?thesis
    unfolding sys_halt_def Let_def close_all_def [symmetric] f(1,3) r bind.bind_lunit by (simp only: p)
qed

definition resumes_parent :: "pcb \<Rightarrow> kstate \<Rightarrow> bool" where
  "resumes_parent p s \<longleftrightarrow> global_pid s = parent_pid p \<and> tss_esp0 s = parent_esp0 p \<and> esp s = parent_esp p \<and> ebp s = parent_ebp p
     \<and> task_pcb (CURRENT_TASK s) = parent_pcb p \<and> task_pid (CURRENT_TASK s) = parent_pid p
     \<and> (\<forall>x. VIRTUAL_BEGIN \<le> x \<and> x < VIRTUAL_END \<longrightarrow> mmu s x = user_page (parent_pid p) x)"

lemma halt_to_parent_facts:
  assumes "paging_ok (pages e)" and "unat (current_task s) < length (tasks s)"
  shows "\<exists>s'. halt_to_parent e pcb status s = (Leave_ret (ucast status), s') \<and> resumes_parent (pcbs s pcb) s'
    \<and> pid_availability s' = pid_availability s \<and> pcbs s' = pcbs s \<and> terminals s' = terminals s
    \<and> (\<forall>x. \<not> (VIRTUAL_BEGIN \<le> x \<and> x < VIRTUAL_END) \<longrightarrow> mmu s' x = mmu s x)"
proof -
  let ?k = "kmodify (pages e) ((PID_OFFSET + parent_pid (pcbs s pcb)) * FOUR_M) (s\<lparr>global_pid := parent_pid (pcbs s pcb), tss_esp0 := parent_esp0 (pcbs s pcb)\<rparr>)"
  let ?s = "(upd_current_task (\<lambda>t. t\<lparr>task_pcb := parent_pcb (pcbs s pcb), task_pid := parent_pid (pcbs s pcb)\<rparr>) ?k)
      \<lparr>esp := parent_esp (pcbs s pcb), ebp := parent_ebp (pcbs s pcb)\<rparr>"
  have h: "halt_to_parent e pcb status s = (Leave_ret (ucast status), ?s)"
    unfolding halt_to_parent_def Let_def by simp
  have m: "mmu ?s x = (if VIRTUAL_BEGIN \<le> x \<and> x < VIRTUAL_END then user_page (parent_pid (pcbs s pcb)) x else mmu s x)" for x
    using kmodify_mmu [OF assms(1)] by (simp add: upd_current_task_def del: distrib_right_numeral)
  have "resumes_parent (pcbs s pcb) ?s"
    unfolding resumes_parent_def m using assms(2)
    by (simp add: upd_current_task_def CURRENT_TASK_def kmodify_def) (simp add: upd_task_def)
  then show ?thesis unfolding h using m
    by (intro exI [of _ ?s]) (simp add: upd_current_task_def kmodify_def)
qed


subsection \<open>A concrete program\<close>

definition ls_command :: "u8 list" where
  "ls_command = [0x6C, 0x73, 0x0A, 0]"

definition data_env :: env where
  "data_env = sample_env\<lparr>read_file := \<lambda>fd buf n s. Some (n, wr32 buf 0 s)\<rparr>"

lemma ls_command_facts:
  "0 \<in> set ls_command" "ls_command ! 0 \<noteq> 0" "length (cmd_name ls_command) \<le> MAX_CMD_SIZE"
  "length (cmd_arg ls_command) < MAX_ARG_SIZE" "length (cmd_arg ls_command) \<le> MAX_CMD_SIZE"
  by (simp_all add: ls_command_def cmd_name_def cmd_arg_def is_space_def name_char_def arg_char_def)

lemma sample_next: "next_pid sample_kernel 3" "next_fd sample_kernel 2" "pcbs_ok sample_kernel"
proof -
  show "next_pid sample_kernel 3" by (simp add: next_pid_def sample_kernel_def all_less_3)
  show "next_fd sample_kernel 2" using sample_fds(2) by (simp add: next_fd_def)
  show "pcbs_ok sample_kernel" by (simp add: pcbs_ok_def sample_pcb_def)
qed

lemma data_drivers_ok: "drivers_ok data_env"
  using sample_drivers_ok by (simp add: data_env_def drivers_ok_def driver_frame_wr32)

lemma sample_first_word:
  "mmu t = (\<lambda>a. a) \<Longrightarrow> first_word sample_env name t (\<lambda>w. w = ELF_HEADER)"
  "mmu t = (\<lambda>a. a) \<Longrightarrow> first_word data_env name t (\<lambda>w. w \<noteq> ELF_HEADER)"
proof -
  assume m: "mmu t = (\<lambda>a. a)"
  have rd: "rd32 (wr32 a v t') a = v" if "mmu t' = mmu t" for t' :: kstate and a v
    by (rule rd32_wr32 [of _ _ a]) (use that m in \<open>simp add: linear_def\<close>)
  show "first_word sample_env name t (\<lambda>w. w = ELF_HEADER)"
    using sys_open_mmu [OF sample_drivers_ok, of "Some name" t] rd by (auto simp: first_word_def sample_env_def)
  show "first_word data_env name t (\<lambda>w. w \<noteq> ELF_HEADER)"
    using sys_open_mmu [OF data_drivers_ok, of "Some name" t] rd by (auto simp: first_word_def data_env_def sample_env_def)
qed

lemma sample_take_pid_mmu: "mmu (take_pid n sample_kernel) = (\<lambda>a. a)"
  by (simp add: take_pid_def fun_eq_iff)

lemmas sample_exec = ls_command_facts(1-4) sample_first_word(1) [OF sample_take_pid_mmu]

subsection \<open>Properties\<close>

lemma exec_fails:
  assumes "next_pid s n" and "command_empty (Some c) = Some False" and "parse_command c = Some (name, arg)"
    and "sys_open e (Some name) (take_pid n s) = (- 1, take_pid n s)"
  shows "sys_execute e (Some c) s = Some (Return (- 1), s)"
  using exec_steps(1) [OF assms] exec_fail_pid [of "take_pid n s" n] give_back [OF assms(1)] assms(1)
  by (simp add: next_pid_def take_pid_def)

text \<open>The check of the header. When the file exists and is not executable, the call gives the process number back and
  changes nothing else of the kernel, but that the descriptor it opened for the check stays in use.\<close>

lemma exec_not_executable:
  assumes "drivers_ok e" and "length (current_fds s) = FD_ARRAY_SIZE" and "next_pid s n" and "next_fd s i"
    and "command_empty (Some c) = Some False" and "parse_command c = Some (name, arg)"
    and "first_word e name (take_pid n s) (\<lambda>w. w \<noteq> ELF_HEADER)"
  shows "\<exists>s'. sys_execute e (Some c) s = Some (Return (- 1), s') \<and> fds_frame s s' \<and> mmu s' = mmu s
    \<and> fd_used (current_fds s') = (fd_used (current_fds s))(i := True)"
proof -
  obtain t r u where u: "sys_open e (Some name) (take_pid n s) = (of_nat i, t)" "(of_nat i :: u32) \<noteq> - 1"
    "read_file e (of_nat i) (exec_header_addr e) 4 t = Some (r, u)" "rd32 u (exec_header_addr e) \<noteq> ELF_HEADER"
    "fds_frame (take_pid n s) u" "mmu u = mmu s" "fd_used (current_fds u) = (fd_used (current_fds s))(i := True)"
    using open_for_exec [OF assms(1,2,7,4)] by blast
  have av: "pid_availability u = (pid_availability s)[n := UNAVAILABLE]" using u(5) by (simp add: fds_frame_def take_pid_def)
  have n: "n < 6" "length (pid_availability s) = 6" "(pid_availability s)[n := AVAILABLE] = pid_availability s"
    using assms(3) unfolding next_pid_def by (auto intro: list_update_same_conv [THEN iffD2])
  have "sys_execute e (Some c) s = exec_fail (of_nat n) u" using exec_steps(2) [OF assms(3,5,6) u(1,2,3)] u(4) by simp
  also have "\<dots> = Some (Return (- 1), u\<lparr>pid_availability := pid_availability s\<rparr>)" using exec_fail_pid [of u n] n av by simp
  finally show ?thesis using u(5-7) by (simp add: current_fds_def fds_frame_def take_pid_def CURRENT_PCB_ADDRESS_def)
qed



text \<open>C4. A successful \<open>sys_execute\<close> enters user mode through \<open>iret\<close> with interrupts on, in a process
  with the lowest free number, at the address that the header of the loaded program names: the 4 MB user page is its own and nothing else is remapped, its PCB
  records the caller (process, stack pointers) and holds the arguments and the two terminal
  descriptors, its kernel stack is its own, the scheduler's task runs it, and the descriptor used to
  load the program is closed again.\<close>

theorem exec_builds_process:
  assumes "drivers_ok e" and "wf_kernel s" and "pcbs_ok s" and "next_pid s n" and "next_fd s i"
    and "0 \<in> set c" and "c ! 0 \<noteq> 0" and "length (cmd_name c) \<le> MAX_CMD_SIZE" and "length (cmd_arg c) < MAX_ARG_SIZE"
    and "first_word e (pad_cmd (cmd_name c)) (take_pid n s) (\<lambda>w. w = ELF_HEADER)"
  shows "\<exists>s'. sys_execute e (Some c) s = Some (Iret (rd32 s' (PROGRAM_START_ADDRESS + ENTRY_POINT_LOCATION)) USER_CS
        (eflags s OR ENABLE_INTERRUPTS) VIRTUAL_STACK_START USER_DS, s')
    \<and> started_process (of_nat n) (if n < NUM_TERMINALS then - 1 else global_pid s) (pad_cmd (cmd_arg c)) s s'
    \<and> pid_availability s' = (pid_availability s)[n := UNAVAILABLE]
    \<and> (\<forall>x. mmu s' x = (if VIRTUAL_BEGIN \<le> x \<and> x < VIRTUAL_END then user_page (of_nat n) x else mmu s x))
    \<and> wf_kernel s'
    \<and> (CURRENT_PCB_ADDRESS s \<noteq> PCB_ADDRESS (of_nat n) \<longrightarrow>
        fd_used (fd_array (pcbs s' (CURRENT_PCB_ADDRESS s))) = fd_used (current_fds s))"
  using exec_starts [OF assms] by blast


theorem exec_builds_process_witness:
  "\<exists>s'. sys_execute sample_env (Some ls_command) sample_kernel =
      Some (Iret (rd32 s' 0x08048018) USER_CS (eflags sample_kernel OR ENABLE_INTERRUPTS) VIRTUAL_STACK_START USER_DS, s')
    \<and> (\<forall>x. mmu s' x = (if VIRTUAL_BEGIN \<le> x \<and> x < VIRTUAL_END then user_page (of_nat 3) x else mmu sample_kernel x))"
  using exec_builds_process [OF sample_drivers_ok sample_kernel_wf sample_next(3,1,2) sample_exec] by auto

text \<open>What the running process, its system calls and its children that have ended leave of the kernel.\<close>

definition child_ran :: "kstate \<Rightarrow> kstate \<Rightarrow> bool" where
  "child_ran s s' \<longleftrightarrow> global_pid s' = global_pid s \<and> tasks s' = tasks s \<and> current_task s' = current_task s
     \<and> pid_availability s' = pid_availability s
     \<and> forget_fds (pcbs s' (CURRENT_PCB_ADDRESS s)) = forget_fds (pcbs s (CURRENT_PCB_ADDRESS s))
     \<and> length (fd_array (pcbs s' (CURRENT_PCB_ADDRESS s))) = length (fd_array (pcbs s (CURRENT_PCB_ADDRESS s)))"

lemma halt_resumes:
  assumes "paging_ok (pages e)" and "started_process (of_nat n) ppid as s s1" and "ppid \<noteq> - 1" and "n < 6"
    and "length (pid_availability s1) = 6" and "wf_kernel s1" and "length (fd_array (pcbs s1 (PCB_ADDRESS (of_nat n)))) = 8"
    and "child_ran s1 s2"
  shows "\<exists>s3. sys_halt e status s2 = Some (Leave_ret (ucast status), s3) \<and> global_pid s3 = ppid
    \<and> esp s3 = esp s \<and> ebp s3 = ebp s \<and> tss_esp0 s3 = tss_esp0 s
    \<and> task_pcb (CURRENT_TASK s3) = PCB_ADDRESS ppid \<and> task_pid (CURRENT_TASK s3) = ppid
    \<and> (\<forall>x. VIRTUAL_BEGIN \<le> x \<and> x < VIRTUAL_END \<longrightarrow> mmu s3 x = user_page ppid x)
    \<and> pid_availability s3 = (pid_availability s1)[n := AVAILABLE]
    \<and> (\<forall>i. FIRST_FD \<le> i \<and> i < FD_ARRAY_SIZE \<longrightarrow> \<not> fd_used (fd_array (pcbs s3 (PCB_ADDRESS (of_nat n)))) i)"
proof -
  let ?a = "PCB_ADDRESS (of_nat n)" and ?d = "drop_pid (close_all s2)"
  have g1: "global_pid s1 = of_nat n" using assms(2) by (simp add: started_process_def Let_def)
  have a: "CURRENT_PCB_ADDRESS s1 = ?a" "CURRENT_PCB_ADDRESS s2 = ?a" "global_pid s2 = of_nat n"
    using g1 assms(8) by (simp_all add: CURRENT_PCB_ADDRESS_def child_ran_def)
  have k: "pid_availability s2 = pid_availability s1" "tasks s2 = tasks s1" "current_task s2 = current_task s1"
    "length (fd_array (pcbs s2 ?a)) = 8" using assms(7,8) a(1) by (simp_all add: child_ran_def)
  have "forget_fds (pcbs ?d ?a) = forget_fds (pcbs s1 ?a)"
    using assms(8) close_all_frame(1) [of s2] a(1) by (simp add: child_ran_def fds_frame_def drop_pid_def)
  then have q: "f (forget_fds (pcbs ?d ?a)) = f (forget_fds (pcbs s1 ?a))" for f :: "pcb \<Rightarrow> u32" by simp
  have p: "parent_pid (pcbs ?d ?a) = ppid" "parent_pcb (pcbs ?d ?a) = PCB_ADDRESS ppid" "parent_esp (pcbs ?d ?a) = esp s"
    "parent_ebp (pcbs ?d ?a) = ebp s" "parent_esp0 (pcbs ?d ?a) = tss_esp0 s"
    using q [of parent_pid] q [of parent_pcb] q [of parent_esp] q [of parent_ebp] q [of parent_esp0] assms(2)
    by (simp_all add: forget_fds_def started_process_def Let_def)
  have "parent_pid (forget_fds (pcbs s2 ?a)) = parent_pid (forget_fds (pcbs s1 ?a))"
    using assms(8) a(1) by (simp add: child_ran_def)
  then have ps2: "parent_pid (pcbs s2 ?a) = ppid" using assms(2) by (simp add: forget_fds_def started_process_def Let_def)
  have h: "sys_halt e status s2 = Some (halt_to_parent e ?a status ?d)"
    using sys_halt_steps [of s2 e status] assms(3,4,5) k(1) a ps2 by (simp add: small_pid)
  have "unat (current_task ?d) < length (tasks ?d)"
    using close_all_frame(1) [of s2] k wf_kernelD(3,4) [OF assms(6)] by (simp add: fds_frame_def drop_pid_def)
  then obtain s3 where s3: "halt_to_parent e ?a status ?d = (Leave_ret (ucast status), s3)" "resumes_parent (pcbs ?d ?a) s3"
    "pid_availability s3 = pid_availability ?d" "pcbs s3 = pcbs ?d"
    using halt_to_parent_facts [OF assms(1), of ?d ?a status] by blast
  have av: "pid_availability ?d = (pid_availability s1)[n := AVAILABLE]"
    using close_all_frame(1) [of s2] k(1) a(3) assms(4) by (simp add: fds_frame_def drop_pid_def small_pid)
  have "current_fds (close_all s2) = fd_array (pcbs s3 ?a)"
    using s3(4) a(2) close_all_frame(1) [of s2] by (simp add: current_fds_def drop_pid_def fds_frame_def CURRENT_PCB_ADDRESS_def)
  moreover have "length (current_fds s2) = 8" using k(4) a(2) by (simp add: current_fds_def)
  ultimately have "\<not> fd_used (fd_array (pcbs s3 ?a)) i" if "2 \<le> i" "i < 8" for i using close_all_used [of s2 i] that by simp
  then show ?thesis using h s3(1,2,3) av p by (simp add: resumes_parent_def)
qed

text \<open>C1. \<open>sys_halt\<close> undoes \<open>sys_execute\<close>. A process number from 3 on is given to a program started by
  another process; when that program halts with a status, control goes back into the caller's
  \<open>sys_execute\<close> frame (its \<open>esp\<close> and \<open>ebp\<close>), which returns the status; the caller is the running
  process again with its kernel stack, its user page and its place in the scheduler's task, the
  process number is free, and the descriptors 2 to 7 of the ended process are closed.\<close>

theorem halt_returns_to_caller:
  assumes "drivers_ok e" and "wf_kernel s" and "pcbs_ok s" and "next_pid s n" and "next_fd s i"
    and "0 \<in> set c" and "c ! 0 \<noteq> 0" and "length (cmd_name c) \<le> MAX_CMD_SIZE" and "length (cmd_arg c) < MAX_ARG_SIZE"
    and "first_word e (pad_cmd (cmd_name c)) (take_pid n s) (\<lambda>w. w = ELF_HEADER)"
    and "NUM_TERMINALS \<le> n" and "unat (global_pid s) < NUM_PROCESSES"
    and "sys_execute e (Some c) s = Some (t, s1)" and "child_ran s1 s2"
  shows "\<exists>s3. sys_halt e status s2 = Some (Leave_ret (ucast status), s3) \<and> global_pid s3 = global_pid s
    \<and> esp s3 = esp s \<and> ebp s3 = ebp s \<and> tss_esp0 s3 = tss_esp0 s
    \<and> task_pcb (CURRENT_TASK s3) = CURRENT_PCB_ADDRESS s \<and> task_pid (CURRENT_TASK s3) = global_pid s
    \<and> (\<forall>x. VIRTUAL_BEGIN \<le> x \<and> x < VIRTUAL_END \<longrightarrow> mmu s3 x = user_page (global_pid s) x)
    \<and> pid_availability s3 = pid_availability s
    \<and> (\<forall>i. FIRST_FD \<le> i \<and> i < FD_ARRAY_SIZE \<longrightarrow> \<not> fd_used (fd_array (pcbs s3 (PCB_ADDRESS (of_nat n)))) i)"
proof -
  have n: "n < 6" "length (pid_availability s) = 6" "(pid_availability s)[n := AVAILABLE] = pid_availability s"
    using assms(4) unfolding next_pid_def by (auto intro: list_update_same_conv [THEN iffD2])
  have g: "global_pid s \<noteq> - 1" using assms(12) unat_minus_1 by auto
  have "started_process (of_nat n) (global_pid s) (pad_cmd (cmd_arg c)) s s1" "pid_availability s1 = (pid_availability s)[n := UNAVAILABLE]"
    "wf_kernel s1" "length (fd_array (pcbs s1 (PCB_ADDRESS (of_nat n)))) = 8"
    using exec_starts [OF assms(1-10)] assms(11,13) by auto
  then show ?thesis
    using halt_resumes [of e n "global_pid s" "pad_cmd (cmd_arg c)" s s1 s2 status] assms(1,14) g n
    by (simp add: drivers_ok_def CURRENT_PCB_ADDRESS_def)
qed


theorem halt_returns_to_caller_witness:
  "\<exists>t s1 s3. sys_execute sample_env (Some ls_command) sample_kernel = Some (t, s1)
    \<and> sys_halt sample_env 5 s1 = Some (Leave_ret (ucast (5 :: u8)), s3) \<and> global_pid s3 = global_pid sample_kernel
    \<and> pid_availability s3 = pid_availability sample_kernel"
proof -
  obtain t s1 where s1: "sys_execute sample_env (Some ls_command) sample_kernel = Some (t, s1)"
    using exec_starts [OF sample_drivers_ok sample_kernel_wf sample_next(3,1,2) sample_exec] by blast
  have p: "unat (global_pid sample_kernel) < NUM_PROCESSES" by simp
  have r: "child_ran s1 s1" by (simp add: child_ran_def)
  show ?thesis
    using halt_returns_to_caller [OF sample_drivers_ok sample_kernel_wf sample_next(3,1,2) sample_exec order_refl p s1 r, of 5] s1
    by blast
qed

subsection \<open>Restarting a shell\<close>

lemma reset_screen_process [simp]:
  "pcbs (reset_screen s) = pcbs s" "global_pid (reset_screen s) = global_pid s"
  by (simp_all add: reset_screen_def update_cursor_def Let_def clear_def cursor_outb_def outb_def)

lemma shell_facts:
  "0 \<in> set (the shell_name)" "the shell_name ! 0 \<noteq> 0" "length (cmd_name (the shell_name)) \<le> MAX_CMD_SIZE"
  "length (cmd_arg (the shell_name)) < MAX_ARG_SIZE" "Some (the shell_name) = shell_name" "cmd_arg (the shell_name) = []"
  by (simp_all add: shell_name_def cmd_name_def cmd_arg_def is_space_def name_char_def arg_char_def)

text \<open>C22. A base shell cannot be left: when a process without a parent (process numbers 0 to 2) halts,
  \<open>sys_halt\<close> clears the screen and starts \<open>shell\<close> anew in the same process number, again without a
  parent, and enters it in user mode; no process number is lost.\<close>

theorem halt_restarts_shell:
  assumes "drivers_ok e" and "wf_kernel s" and "pcbs_ok s" and "global_pid s = of_nat n" and "n < NUM_TERMINALS"
    and "parent_pid (pcbs s (CURRENT_PCB_ADDRESS s)) = - 1" and "\<forall>j\<le>n. pid_availability s ! j = UNAVAILABLE"
    and "first_word e (pad_cmd (cmd_name (the shell_name))) (take_pid n (reset_screen (drop_pid (close_all s)))) (\<lambda>w. w = ELF_HEADER)"
  shows "\<exists>s'. sys_halt e status s = Some (Iret (rd32 s' (PROGRAM_START_ADDRESS + ENTRY_POINT_LOCATION)) USER_CS
        (eflags s OR ENABLE_INTERRUPTS) VIRTUAL_STACK_START USER_DS, s')
    \<and> global_pid s' = of_nat n \<and> parent_pid (pcbs s' (CURRENT_PCB_ADDRESS s')) = - 1
    \<and> pid_availability s' = pid_availability s \<and> tss_esp0 s' = KERNEL_STACK_ADDRESS (of_nat n) \<and> wf_kernel s'"
proof -
  let ?d = "drop_pid (close_all s)" and ?r = "reset_screen (drop_pid (close_all s))"
  note fr = close_all_frame(1) [of s]
  have n: "n < 6" using assms(5) by simp
  have len6: "length (pid_availability s) = 6" using assms(2) by (simp add: wf_kernel_def)
  have d: "pid_availability ?r = (pid_availability s)[n := AVAILABLE]" "CURRENT_PCB_ADDRESS ?r = CURRENT_PCB_ADDRESS s"
    "current_fds ?r = current_fds (close_all s)" "eflags ?r = eflags s" "global_pid ?r = of_nat n"
    using fr assms(4) n by (simp_all add: fds_frame_def drop_pid_def small_pid CURRENT_PCB_ADDRESS_def current_fds_def)
  have len: "length (current_fds s) = 8" using assms(3) by (simp add: pcbs_ok_def current_fds_def)
  have pid: "next_pid ?r n" using d(1) n len6 assms(7) by (simp add: next_pid_def nth_updated)
  have fd: "next_fd ?r 2" using close_all_used [OF len, of 2] d(3) by (auto simp: next_fd_def)
  have wf: "wf_kernel ?r"
    using assms(2) fr by (simp add: wf_kernel_def fds_frame_def drop_pid_def)
  have ok: "pcbs_ok ?r"
  proof -
    have "args (forget_fds (pcbs (close_all s) a)) = args (forget_fds (pcbs s a))" for a using fr by (simp add: fds_frame_def)
    then show ?thesis using assms(3) fr by (simp add: pcbs_ok_def drop_pid_def fds_frame_def forget_fds_def)
  qed
  obtain s' where x: "sys_execute e shell_name ?r = Some (Iret (rd32 s' (PROGRAM_START_ADDRESS + ENTRY_POINT_LOCATION)) USER_CS
        (eflags s OR ENABLE_INTERRUPTS) VIRTUAL_STACK_START USER_DS, s')"
    "started_process (of_nat n) (- 1) (pad_cmd (cmd_arg (the shell_name))) ?r s'"
    "pid_availability s' = (pid_availability s)[n := UNAVAILABLE]" "wf_kernel s'"
    using exec_starts [OF assms(1) wf ok pid fd shell_facts(1-4) assms(8)] assms(5) unfolding shell_facts(5) d(1,4) by auto
  have "(pid_availability s)[n := UNAVAILABLE] = pid_availability s"
    using assms(7) by (metis list_update_id order_refl)
  then show ?thesis
    using sys_halt_steps [of s e status] len6 n assms(4,6) x
    by (simp add: small_pid started_process_def Let_def CURRENT_PCB_ADDRESS_def)
qed

theorem halt_restarts_shell_witness:
  "\<exists>s'. sys_halt sample_env 0 sample_kernel = Some (Iret (rd32 s' 0x08048018) USER_CS (eflags sample_kernel OR ENABLE_INTERRUPTS) VIRTUAL_STACK_START USER_DS, s')
    \<and> global_pid s' = of_nat 0 \<and> parent_pid (pcbs s' (CURRENT_PCB_ADDRESS s')) = - 1"
proof -
  have m: "mmu (take_pid 0 (reset_screen (drop_pid (close_all sample_kernel)))) = (\<lambda>a. a)"
    using close_all_frame(2) [of sample_kernel] by (simp add: take_pid_def drop_pid_def fun_eq_iff)
  have "global_pid sample_kernel = of_nat 0" "(0 :: nat) < NUM_TERMINALS"
    "parent_pid (pcbs sample_kernel (CURRENT_PCB_ADDRESS sample_kernel)) = - 1" "\<forall>j\<le>0. pid_availability sample_kernel ! j = UNAVAILABLE"
    by (simp_all add: sample_pcb_def) (simp add: sample_kernel_def)
  from halt_restarts_shell [OF sample_drivers_ok sample_kernel_wf sample_next(3) this sample_first_word(1) [OF m], of 0]
  show ?thesis by auto
qed

end
