(* ===== verification/Terminal_Irq.thy ===== *)
theory Terminal_Irq
  imports Exec
begin

text \<open>
  The keyboard interrupt: \<open>terminal_interrupt\<close> and \<open>ctrl_c\<close> of \<^verbatim>\<open>terminal.c\<close>. The handler
  reads a scancode, translates it and either runs a command (switch terminals, halt a process, clear
  the screen) or edits the line of the active terminal. \<open>sys_halt\<close> does not come back: the result
  says whether the handler returns.
\<close>

datatype irq_exit = Back | Gone transfer

abbreviation CTRL_L :: u8 where "CTRL_L \<equiv> 0xB3"
abbreviation CTRL_C :: u8 where "CTRL_C \<equiv> 0xBC"
abbreviation ALT_F1 :: u8 where "ALT_F1 \<equiv> 0xF1"
abbreviation ALT_F2 :: u8 where "ALT_F2 \<equiv> 0xF2"
abbreviation ALT_F3 :: u8 where "ALT_F3 \<equiv> 0xF3"

definition ctrl_c :: "env \<Rightarrow> kstate \<Rightarrow> (irq_exit \<times> kstate) option" where
  "ctrl_c e s =
     (let (flags, s) = cli_and_save s;
          current_terminal = pcb_terminal (pcbs s (CURRENT_PCB_ADDRESS s));
          s = upd_terminal current_terminal (\<lambda>t. t\<lparr>input_status := INPUT_ENDED\<rparr>) s;
          s = reset_buffer s;
          s = send_eoi KEYBOARD_IRQ s
      in do { (t, s) \<leftarrow> sys_halt e 0 s;
              case t of Return _ \<Rightarrow> Some (Back, restore_flags flags s) | _ \<Rightarrow> Some (Gone t, s) })"

definition terminal_interrupt :: "hardware \<Rightarrow> env \<Rightarrow> kstate \<Rightarrow> (irq_exit \<times> kstate) option" where
  "terminal_interrupt hw e s =
     (let (scancode, s) = keyboard_interrupt hw s
      in do { (ascii_data, kb) \<leftarrow> translate_scancode scancode (kbd s);
              let s = s\<lparr>kbd := kb\<rparr>;
              if ascii_data AND MSB_MASK \<noteq> 0 then
                if ascii_data = ALT_F1 then Some (Back, alt_f1 (pages e) s)
                else if ascii_data = ALT_F2 then Some (Back, alt_f2 (pages e) s)
                else if ascii_data = ALT_F3 then Some (Back, alt_f3 (pages e) s)
                else if ascii_data = CTRL_C then ctrl_c e s
                else if ascii_data = CTRL_L then do { s \<leftarrow> ctrl_l s; Some (Back, s) }
                else Some (Back, s)
              else do { s \<leftarrow> plain_key ascii_data s; Some (Back, s) } })"

subsection \<open>The keyboard driver's state\<close>

lemma kbd_more: "machine.more s = machine.more t \<Longrightarrow> kbd s = kbd (t :: kstate)"
  by (cases s, cases t, simp)

lemma upd_active_kbd [simp]: "kbd (upd_active f s) = kbd s"
  by (simp add: upd_active_def upd_terminal_def)

lemma put_cell_kbd [simp]: "kbd (put_cell base i c s) = kbd (s :: kstate)"
  by (rule kbd_more) simp

lemma putc_active_kbd [simp]: "kbd (putc_active c s) = kbd s"
proof -
  have cur: "kbd (update_cursor_active t) = kbd t" for t
    by (simp add: update_cursor_active_def Let_def cursor_outb_def outb_def)
  have "kbd (scroll_display_active t) = kbd t" for t
    by (simp add: scroll_display_active_def Let_def kbd_more [OF put_cells_fields(1)] kbd_more [OF move_rows_more(1)])
  moreover have "kbd (putc_active_draw c s) = kbd s" by (simp add: putc_active_draw_def Let_def)
  ultimately show ?thesis by (simp add: putc_active_def Let_def cur)
qed

lemma plain_key_kbd: "plain_key c s = Some s' \<Longrightarrow> kbd s' = kbd s"
  by (auto simp: plain_key_def Let_def aput_eq_Some bind_eq_Some_conv split: if_splits)

lemma key_event:
  assumes "wf_kernel s" and "holds_line line (ACTIVE_TERMINAL s)" and "kbd_rel (kbd s) ks" and "disciplined sc ks"
    and "hw (io s) KEYBOARD_PORT = sc" and "fst (spec_event sc ks) AND MSB_MASK = 0" and "fst (spec_event sc ks) \<noteq> NEWLINE"
  shows "\<exists>s'. terminal_interrupt hw e s = Some (Back, s') \<and> wf_kernel s'
    \<and> holds_line (edit_line (fst (spec_event sc ks)) line) (ACTIVE_TERMINAL s')
    \<and> kbd_rel (kbd s') (snd (spec_event sc ks)) \<and> active_terminal s' = active_terminal s"
proof -
  obtain kb where kb: "translate_scancode sc (kbd s) = Some (fst (spec_event sc ks), kb)" "kbd_rel kb (snd (spec_event sc ks))"
    using translate_refines [OF assms(3,4)] by blast
  let ?t = "s\<lparr>io := In KEYBOARD_PORT sc # io s, kbd := kb\<rparr>"
  have "wf_kernel ?t" by (rule wf_kernel_cong [OF assms(1)]) simp_all
  moreover have "holds_line line (ACTIVE_TERMINAL ?t)" using assms(2) by (simp add: ACTIVE_TERMINAL_def)
  ultimately obtain s' where s': "plain_key (fst (spec_event sc ks)) ?t = Some s'" "wf_kernel s'"
    "holds_line (edit_line (fst (spec_event sc ks)) line) (ACTIVE_TERMINAL s')" "same_kernel ?t s'"
    using plain_key_edits [of ?t line "fst (spec_event sc ks)"] assms(7) by blast
  have "terminal_interrupt hw e s = Some (Back, s')"
    using assms(5,6) kb(1) s'(1) by (simp add: terminal_interrupt_def keyboard_interrupt_def inb_def Let_def byte_round_trip)
  moreover have "kbd s' = kb" using plain_key_kbd [OF s'(1)] by simp
  moreover have "active_terminal s' = active_terminal s" using s'(4) by (simp add: same_kernel_def)
  ultimately show ?thesis using s' kb(2) by auto
qed

text \<open>The handler run on each of a stream of scancodes.\<close>

primrec type_keys :: "env \<Rightarrow> u8 list \<Rightarrow> kstate \<Rightarrow> kstate option" where
  "type_keys e [] s = Some s"
| "type_keys e (sc # scs) s =
     do { (x, s) \<leftarrow> terminal_interrupt (\<lambda>h p. sc) e s;
          case x of Back \<Rightarrow> type_keys e scs s | Gone _ \<Rightarrow> None }"

lemma type_keys_edits:
  assumes "wf_kernel s" and "holds_line line (ACTIVE_TERMINAL s)" and "kbd_rel (kbd s) ks" and "disciplined_run scs ks"
    and "\<forall>c \<in> set (fst (spec_run scs ks)). c AND MSB_MASK = 0 \<and> c \<noteq> NEWLINE"
  shows "\<exists>s'. type_keys e scs s = Some s' \<and> wf_kernel s'
    \<and> holds_line (fold edit_line (fst (spec_run scs ks)) line) (ACTIVE_TERMINAL s') \<and> active_terminal s' = active_terminal s"
  using assms
proof (induction scs arbitrary: s line ks)
  case (Cons sc scs)
  have r: "spec_run (sc # scs) ks = (fst (spec_event sc ks) # fst (spec_run scs (snd (spec_event sc ks))), snd (spec_run scs (snd (spec_event sc ks))))"
    by (simp add: split_beta)
  obtain s1 where s1: "terminal_interrupt (\<lambda>h p. sc) e s = Some (Back, s1)" "wf_kernel s1"
    "holds_line (edit_line (fst (spec_event sc ks)) line) (ACTIVE_TERMINAL s1)" "kbd_rel (kbd s1) (snd (spec_event sc ks))"
    "active_terminal s1 = active_terminal s"
    using key_event [OF Cons.prems(1-3), of sc "\<lambda>h p. sc" e] Cons.prems(4,5) unfolding r by auto
  show ?case using Cons.IH [OF s1(2,3,4)] Cons.prems(4,5) s1(1,5) unfolding r by simp
qed simp

text \<open>C17. From scancodes to the line. The keyboard handler, run on a stream of scancodes that stand for
  ordinary keys (with shift and caps lock, without commands and Enter), never leaves its tables and
  buffers, and the active terminal holds exactly the line that the typed characters edit: characters
  in order up to 127, backspace removing the last one.\<close>

theorem typing_edits_line:
  assumes "wf_kernel s" and "holds_line line (ACTIVE_TERMINAL s)" and "kbd_rel (kbd s) ks" and "disciplined_run scs ks"
    and "\<forall>c \<in> set (fst (spec_run scs ks)). c AND MSB_MASK = 0 \<and> c \<noteq> NEWLINE"
  shows "\<exists>s'. type_keys e scs s = Some s'
    \<and> holds_line (fold edit_line (fst (spec_run scs ks)) line) (ACTIVE_TERMINAL s') \<and> active_terminal s' = active_terminal s"
  using type_keys_edits [OF assms] by blast


theorem typing_edits_line_witness:
  "\<exists>s'. type_keys sample_env [0x2A, 0x1E, 0xAA, 0x1F, 0x0E, 0x20] sample_kernel = Some s'
    \<and> holds_line [0x41, 0x64] (ACTIVE_TERMINAL s')"
proof -
  let ?scs = "[0x2A, 0x1E, 0xAA, 0x1F, 0x0E, 0x20] :: u8 list"
  have h: "holds_line [] (ACTIVE_TERMINAL sample_kernel)" by (simp add: holds_line_def sample_terminal_def)
  have k: "kbd_rel (kbd sample_kernel) spec_start" using kbd_rel_start by (simp add: sample_kernel_def)
  have d: "disciplined_run ?scs spec_start"
    by (simp add: disciplined_def spec_event_def key_code_def spec_start_def shift_held_def Let_def)
  have r: "fst (spec_run ?scs spec_start) = [0, 0x41, 0, 0x73, 0x08, 0x64]"
    by (simp add: spec_event_def key_code_def spec_start_def spec_char_def spec_column_def shift_held_def Let_def scancode_lut_def)
  have f: "fold edit_line [0, 0x41, 0, 0x73, 0x08, 0x64] [] = [0x41, 0x64]" by (simp add: edit_line_def)
  have c: "\<forall>c \<in> set (fst (spec_run ?scs spec_start)). c AND MSB_MASK = 0 \<and> c \<noteq> NEWLINE" unfolding r by simp
  show ?thesis
    using typing_edits_line [OF sample_kernel_wf h k d c, of sample_env] unfolding r f by blast
qed


subsection \<open>\<open>ctrl_c\<close>\<close>

text \<open>The state in which \<open>ctrl_c\<close> calls \<open>sys_halt\<close>.\<close>

definition ctrl_c_prepared :: "kstate \<Rightarrow> kstate" where
  "ctrl_c_prepared s = send_eoi KEYBOARD_IRQ (reset_buffer
     (upd_terminal (pcb_terminal (pcbs s (CURRENT_PCB_ADDRESS s))) (\<lambda>t. t\<lparr>input_status := INPUT_ENDED\<rparr>) (cli s)))"

lemma send_eoi_more [simp]: "machine.more (send_eoi irq s) = machine.more s" "mmu (send_eoi irq s) = mmu s"
  by (simp_all add: send_eoi_def cli_and_save_def Let_def)

lemmas send_eoi_kfields [simp] = kfields_more [OF send_eoi_more(1)]

lemma reset_buffer_process [simp]: "pcbs (reset_buffer s) = pcbs s" "global_pid (reset_buffer s) = global_pid s"
  by (simp_all add: reset_buffer_def cli_and_save_def Let_def upd_active_def)

lemma ctrl_c_steps:
  "ctrl_c e s = do { (t, s') \<leftarrow> sys_halt e 0 (ctrl_c_prepared s);
     case t of Return _ \<Rightarrow> Some (Back, restore_flags (eflags s) s') | _ \<Rightarrow> Some (Gone t, s') }"
  by (simp add: ctrl_c_def ctrl_c_prepared_def cli_and_save_def CURRENT_PCB_ADDRESS_def)

lemma ctrl_c_prepared_fields:
  "pcbs (ctrl_c_prepared s) = pcbs s" "global_pid (ctrl_c_prepared s) = global_pid s"
  "pid_availability (ctrl_c_prepared s) = pid_availability s" "tasks (ctrl_c_prepared s) = tasks s"
  "current_task (ctrl_c_prepared s) = current_task s" "active_terminal (ctrl_c_prepared s) = active_terminal s"
  by (simp_all add: ctrl_c_prepared_def)

text \<open>C31. \<open>CTRL + C\<close> ends the process that happens to run. The handler halts the process of the task
  the scheduler interrupted, with status 0, whatever terminal is shown: the process number freed is
  the running one, control goes to its parent, and the processes of the other tasks, the one of the
  active terminal among them, keep their numbers; of the terminals it is the active one that loses
  its line.\<close>

theorem ctrl_c_halts_running:
  assumes "wf_kernel s" and "paging_ok (pages e)" and "unat (global_pid s) < NUM_PROCESSES"
    and "parent_pid (pcbs s (CURRENT_PCB_ADDRESS s)) \<noteq> - 1"
  shows "\<exists>s'. ctrl_c e s = Some (Gone (Leave_ret 0), s')
    \<and> pid_availability s' = (pid_availability s)[unat (global_pid s) := AVAILABLE]
    \<and> global_pid s' = parent_pid (pcbs s (CURRENT_PCB_ADDRESS s))
    \<and> task_pid (CURRENT_TASK s') = parent_pid (pcbs s (CURRENT_PCB_ADDRESS s))
    \<and> esp s' = parent_esp (pcbs s (CURRENT_PCB_ADDRESS s))
    \<and> buffer_index (terminals s' ! unat (active_terminal s)) = 0"
proof -
  let ?p = "ctrl_c_prepared s" and ?a = "CURRENT_PCB_ADDRESS s"
  note f = ctrl_c_prepared_fields [of s] and w = wf_kernelD(1-4) [OF assms(1)]
  let ?d = "drop_pid (close_all ?p)"
  have a: "CURRENT_PCB_ADDRESS ?p = ?a" by (simp add: CURRENT_PCB_ADDRESS_def f)
  have len: "length (pid_availability s) = 6" using assms(1) by (simp add: wf_kernel_def)
  have h: "sys_halt e 0 ?p = Some (halt_to_parent e ?a 0 ?d)"
    using sys_halt_steps [of ?p e 0] assms(3,4) len by (simp add: f a)
  have fr: "fds_frame ?p (close_all ?p)" by (rule close_all_frame)
  have dk: "pid_availability ?d = (pid_availability s)[unat (global_pid s) := AVAILABLE]" "tasks ?d = tasks s"
    "current_task ?d = current_task s" "terminals ?d = terminals ?p"
    using fr by (simp_all add: fds_frame_def drop_pid_def f)
  have "forget_fds (pcbs ?d ?a) = forget_fds (pcbs s ?a)" using fr by (simp add: fds_frame_def drop_pid_def f)
  then have q: "g (forget_fds (pcbs ?d ?a)) = g (forget_fds (pcbs s ?a))" for g :: "pcb \<Rightarrow> u32" by simp
  have p: "parent_pid (pcbs ?d ?a) = parent_pid (pcbs s ?a)" "parent_esp (pcbs ?d ?a) = parent_esp (pcbs s ?a)"
    using q [of parent_pid] q [of parent_esp] by (simp_all add: forget_fds_def)
  obtain s' where s': "halt_to_parent e ?a 0 ?d = (Leave_ret 0, s')" "resumes_parent (pcbs ?d ?a) s'"
    "pid_availability s' = pid_availability ?d" "terminals s' = terminals ?d"
    using halt_to_parent_facts [OF assms(2), of ?d ?a 0] w dk(2,3) by auto
  have c: "ctrl_c e s = Some (Gone (Leave_ret 0), s')"
    using h s'(1) by (simp add: ctrl_c_steps)
  have b: "buffer_index (terminals ?p ! unat (active_terminal s)) = 0"
    using w by (simp add: ctrl_c_prepared_def)
  show ?thesis using c s' dk p b by (simp add: resumes_parent_def)
qed


definition child_kernel :: kstate where
  "child_kernel = (upd_pcb (PCB_ADDRESS 3) (\<lambda>p. p\<lparr>parent_pid := 0\<rparr>) sample_kernel)\<lparr>global_pid := 3, active_terminal := 0, current_task := 1\<rparr>"

theorem ctrl_c_halts_running_witness:
  "\<exists>s'. ctrl_c sample_env child_kernel = Some (Gone (Leave_ret 0), s') \<and> global_pid s' = 0"
proof -
  have "wf_kernel child_kernel"
    using sample_kernel_wf by (simp add: child_kernel_def wf_kernel_def terminals_ok_def tasks_ok_def)
  moreover have "paging_ok (pages sample_env)" by (simp add: sample_env_def paging_ok_simple)
  moreover have p: "unat (global_pid child_kernel) < NUM_PROCESSES" "parent_pid (pcbs child_kernel (CURRENT_PCB_ADDRESS child_kernel)) = 0"
    by (simp_all add: child_kernel_def CURRENT_PCB_ADDRESS_def)
  ultimately show ?thesis using ctrl_c_halts_running [of child_kernel sample_env] by auto
qed

end
