(* ===== verification/Round_Robin.thy ===== *)
theory Round_Robin
  imports Tmnt_Prelude
begin

text \<open>
  The contract of a round-robin scheduler of \<open>n\<close> tasks: a tick saves the context of the current task,
  goes to the next one and continues in the context saved for it; a task that runs changes its own
  context only. Ticks and runs alternate (\<open>rounds\<close>); after \<open>n\<close> ticks the first task continues where
  it was stopped.
\<close>

inductive rounds :: "('s \<Rightarrow> 's option) \<Rightarrow> ('s \<Rightarrow> 's \<Rightarrow> bool) \<Rightarrow> nat \<Rightarrow> 's \<Rightarrow> 's \<Rightarrow> bool"
  for tick runs where
  first: "tick s = Some t \<Longrightarrow> rounds tick runs 1 s t"
| again: "rounds tick runs k s t \<Longrightarrow> runs t u \<Longrightarrow> tick u = Some v \<Longrightarrow> rounds tick runs (Suc k) s v"

inductive_cases rounds_SucE: "rounds tick runs (Suc k) s v"

lemma rounds_positive: "rounds tick runs k s t \<Longrightarrow> 0 < k"
  by (induction rule: rounds.induct) simp_all

locale round_robin =
  fixes tick :: "'s \<Rightarrow> 's option" and runs :: "'s \<Rightarrow> 's \<Rightarrow> bool" and current :: "'s \<Rightarrow> nat"
    and ctx :: "'s \<Rightarrow> 'c" and saved :: "'s \<Rightarrow> nat \<Rightarrow> 'c" and valid :: "'s \<Rightarrow> bool" and n :: nat
  assumes several: "1 < n"
    and current_bound: "valid s \<Longrightarrow> current s < n"
    and tick_total: "valid s \<Longrightarrow> \<exists>s'. tick s = Some s' \<and> valid s'"
    and tick_current: "valid s \<Longrightarrow> tick s = Some s' \<Longrightarrow> current s' = (current s + 1) mod n"
    and tick_saves: "valid s \<Longrightarrow> tick s = Some s' \<Longrightarrow> saved s' (current s) = ctx s"
    and tick_keeps: "valid s \<Longrightarrow> tick s = Some s' \<Longrightarrow> i < n \<Longrightarrow> i \<noteq> current s \<Longrightarrow> saved s' i = saved s i"
    and tick_resumes: "valid s \<Longrightarrow> tick s = Some s' \<Longrightarrow> ctx s' = saved s (current s')"
    and run_current: "valid s \<Longrightarrow> runs s s' \<Longrightarrow> valid s' \<and> current s' = current s"
    and run_keeps: "valid s \<Longrightarrow> runs s s' \<Longrightarrow> i < n \<Longrightarrow> i \<noteq> current s \<Longrightarrow> saved s' i = saved s i"
begin

lemma tick_valid: "valid s \<Longrightarrow> tick s = Some s' \<Longrightarrow> valid s'"
  using tick_total by fastforce

lemma ahead: "0 < k \<Longrightarrow> k < n \<Longrightarrow> c < n \<Longrightarrow> (c + k) mod n \<noteq> c"
  by (cases "c + k < n") (auto simp: not_less mod_if)

lemma rounds_invariant:
  assumes "rounds tick runs k s t" and "valid s" and "k < n"
  shows "valid t \<and> current t = (current s + k) mod n \<and> saved t (current s) = ctx s"
  using assms
proof (induction rule: rounds.induct)
  case (first s t)
  then show ?case using tick_valid tick_current tick_saves by simp
next
  case (again k s t u v)
  have t: "valid t" "current t = (current s + k) mod n" "saved t (current s) = ctx s" using again by simp_all
  have u: "valid u" "current u = current t" using run_current [OF t(1) again.hyps(2)] by simp_all
  have away: "current s \<noteq> current t"
    using ahead [of k "current s"] rounds_positive [OF again.hyps(1)] again.prems current_bound t(2) by auto
  have "saved v (current s) = saved u (current s)"
    using tick_keeps [OF u(1) again.hyps(3)] away u(2) current_bound [OF again.prems(1)] by simp
  also have "\<dots> = ctx s" using run_keeps [OF t(1) again.hyps(2)] away current_bound [OF again.prems(1)] t(3) by simp
  finally show ?case
    using tick_valid [OF u(1) again.hyps(3)] tick_current [OF u(1) again.hyps(3)] u(2) t(2) by (simp add: mod_Suc_eq)
qed

lemma full_round:
  assumes "rounds tick runs n s v" and "valid s"
  shows "current v = current s \<and> ctx v = ctx s"
proof -
  obtain k where k: "n = Suc k" using several by (cases n) simp_all
  obtain t u where r: "rounds tick runs k s t" "runs t u" "tick u = Some v"
    using assms(1) several unfolding k by (auto elim!: rounds_SucE)
  have t: "valid t" "current t = (current s + k) mod n" "saved t (current s) = ctx s"
    using rounds_invariant [OF r(1) assms(2)] k by simp_all
  have u: "valid u" "current u = current t" using run_current [OF t(1) r(2)] by simp_all
  have "current v = ((current s + k) mod n + 1) mod n" using tick_current [OF u(1) r(3)] u(2) t(2) by simp
  also have "\<dots> = (current s + n) mod n" unfolding mod_add_left_eq k by simp
  finally have c: "current v = current s" using current_bound [OF assms(2)] by simp
  have "current s \<noteq> current t"
    using ahead [of k "current s"] rounds_positive [OF r(1)] current_bound [OF assms(2)] t(2) k by auto
  then have "saved u (current s) = ctx s" using run_keeps [OF t(1) r(2)] current_bound [OF assms(2)] t(3) by simp
  then show ?thesis using tick_resumes [OF u(1) r(3)] c by simp
qed

text \<open>No task waits for more than \<open>n\<close> ticks.\<close>

lemma every_task_runs:
  assumes "rounds tick runs k s t" and "valid s" and "k < n"
  shows "current t = (current s + k) mod n"
  using rounds_invariant [OF assms] by simp

end

end
