(* ===== verification/Scheduler.thy ===== *)
theory Scheduler
  imports Exec Round_Robin
begin

text \<open>
  The scheduler: \<^verbatim>\<open>schedule\<close> of \<^verbatim>\<open>student-distrib/scheduling.c\<close>, called by the
  handler of the PIT interrupt. It saves the stack of the current task in its PCB, goes to the next of
  the three tasks, shows that task's terminal and memory, and continues on its stack (or starts a
  shell in it the first time).
\<close>

datatype sched_exit = Resumed | Left transfer   \<comment> \<open>on the next task's kernel stack, or out of \<open>sys_execute\<close>\<close>

definition save_context :: "kstate \<Rightarrow> kstate" where
  "save_context s =
     (let cur = unat (current_task s);
          (flags, s) = cli_and_save s;
          s = upd_task cur (\<lambda>t. t\<lparr>task_flags := flags\<rparr>) s;
          pcb = task_pcb (tasks s ! cur);
          s = upd_pcb pcb (\<lambda>p. p\<lparr>schedule_esp := esp s, schedule_ebp := ebp s\<rparr>) s
      in upd_pcb pcb (\<lambda>p. p\<lparr>schedule_esp0 := tss_esp0 s\<rparr>) s)"

definition show_task :: "paging \<Rightarrow> nat \<Rightarrow> nat \<Rightarrow> kstate \<Rightarrow> kstate" where
  "show_task pg cur nxt s =
     (let term = task_terminal (tasks s ! nxt);
          s = (if active (terminals s ! term) \<noteq> 0
               then kmap pg VIRTUAL_END VIDMEM (kmap pg VIDMEM VIDMEM s)
               else kmap pg VIRTUAL_END (video_mem (terminals s ! term))
                      (kmap pg VIDMEM (video_mem (terminals s ! term)) s));
          s = get_video_params (task_terminal (tasks s ! cur)) s;
          s = set_video_params (term_x (terminals s ! term)) (term_y (terminals s ! term)) s;
          s = kmodify pg ((PID_OFFSET + task_pid (tasks s ! nxt)) * FOUR_M) s
      in s\<lparr>mmu := flush_TLB pg (mmu s)\<rparr>)"

definition resume_task :: "nat \<Rightarrow> kstate \<Rightarrow> kstate" where
  "resume_task nxt s =
     (let s = s\<lparr>global_pid := task_pid (tasks s ! nxt)\<rparr>;
          s = s\<lparr>tss_esp0 := schedule_esp0 (pcbs s (task_pcb (tasks s ! nxt)))\<rparr>;
          s = update_cursor_active s;
          s = restore_flags (task_flags (tasks s ! nxt)) s;
          p = pcbs s (task_pcb (tasks s ! nxt))
      in s\<lparr>esp := schedule_esp p, ebp := schedule_ebp p\<rparr>)"

text \<open>\<open>PIT_IRQ\<close> is defined in \<^verbatim>\<open>pit_drivers.h\<close>, which is not part of the tree: it is the
  argument \<open>pit_irq\<close>.\<close>

definition schedule :: "env \<Rightarrow> u32 \<Rightarrow> kstate \<Rightarrow> (sched_exit \<times> kstate) option" where
  "schedule e pit_irq s =
     (let cur = unat (current_task s);
          s = save_context s;
          s = s\<lparr>current_task := (current_task s + 1) mod of_nat NUM_TASKS\<rparr>;
          nxt = unat (current_task s);
          s = show_task (pages e) cur nxt s
      in if started (tasks s ! nxt) = 0 then
           do { let s = upd_task nxt (\<lambda>t. t\<lparr>started := C_TRUE\<rparr>) s;
                let s = send_eoi pit_irq s;
                (t, s) \<leftarrow> sys_execute e shell_name s;
                case t of Return _ \<Rightarrow> Some (Resumed, resume_task nxt s) | _ \<Rightarrow> Some (Left t, s) }
         else Some (Resumed, resume_task nxt s))"


subsection \<open>One tick\<close>

lemma upd_task_more [simp]:
  "esp (upd_task i f s) = esp s" "ebp (upd_task i f s) = ebp s" "tss_esp0 (upd_task i f s) = tss_esp0 s"
  by (simp_all add: upd_task_def)

lemma upd_pcb_more [simp]:
  "esp (upd_pcb a f s) = esp s" "ebp (upd_pcb a f s) = ebp s"
  by (simp_all add: upd_pcb_def)

definition saved_pcb :: "kstate \<Rightarrow> pcb \<Rightarrow> pcb" where
  "saved_pcb s p = p\<lparr>schedule_esp := esp s, schedule_ebp := ebp s, schedule_esp0 := tss_esp0 s\<rparr>"

lemma save_context_fields:
  assumes "unat (current_task s) < length (tasks s)"
  shows "tasks (save_context s) = (tasks s)[unat (current_task s) := (CURRENT_TASK s)\<lparr>task_flags := eflags s\<rparr>]"
    "pcbs (save_context s) = (pcbs s)(task_pcb (CURRENT_TASK s) := saved_pcb s (pcbs s (task_pcb (CURRENT_TASK s))))"
    "terminals (save_context s) = terminals s" "active_terminal (save_context s) = active_terminal s"
    "current_task (save_context s) = current_task s" "mem (save_context s) = mem s" "mmu (save_context s) = mmu s"
    "pid_availability (save_context s) = pid_availability s" "screen_x (save_context s) = screen_x s"
    "screen_y (save_context s) = screen_y s"
  using assms
  by (simp_all add: save_context_def Let_def cli_and_save_def saved_pcb_def CURRENT_TASK_def)

lemma kmodify_maps:
  assumes "paging_ok pg" and "unat w + 4096 \<le> 0x8000000 \<or> unat w = 0x8400000"
  shows "maps (kmodify pg ((PID_OFFSET + pid) * FOUR_M) s) w q \<longleftrightarrow> maps s w q"
proof -
  have "mmu (kmodify pg ((PID_OFFSET + pid) * FOUR_M) s) (w + of_nat k) = mmu s (w + of_nat k)" if "k < 4096" for k
  proof -
    have "unat (w + of_nat k) = unat w + k" using assms(2) that by (intro unat_offset) auto
    then have "\<not> (VIRTUAL_BEGIN \<le> w + of_nat k \<and> w + of_nat k < VIRTUAL_END)"
      using assms(2) that by (auto simp: word_le_nat_alt word_less_nat_alt)
    then show ?thesis unfolding kmodify_mmu [OF assms(1)] by (rule if_not_P)
  qed
  then show ?thesis by (simp add: maps_def linear_def)
qed

definition display_page :: "u32 \<Rightarrow> bool" where
  "display_page w \<longleftrightarrow> w = VIDMEM \<or> w = VIRTUAL_END \<or> (\<exists>i<3. w = term_page i)"

lemma display_page_ok: "display_page w \<Longrightarrow> page w"
  "display_page w \<Longrightarrow> unat w + 4096 \<le> 0x8000000 \<or> unat w = 0x8400000"
  by (auto simp: display_page_def less_Suc_eq numeral_3_eq_3)

lemma show_task_fields [simp]:
  "tasks (show_task pg cur nxt s) = tasks s" "pcbs (show_task pg cur nxt s) = pcbs s"
  "current_task (show_task pg cur nxt s) = current_task s" "active_terminal (show_task pg cur nxt s) = active_terminal s"
  "pid_availability (show_task pg cur nxt s) = pid_availability s" "mem (show_task pg cur nxt s) = mem s"
  "terminals (show_task pg cur nxt s) = (terminals s)[task_terminal (tasks s ! cur) :=
     (terminals s ! task_terminal (tasks s ! cur))\<lparr>term_x := screen_x s, term_y := screen_y s\<rparr>]"
  by (simp_all add: show_task_def Let_def kmodify_def get_video_params_def set_video_params_def)

lemma show_task_mmu:
  assumes "paging_ok pg" and "term = task_terminal (tasks s ! nxt)"
  defines "shown \<equiv> if active (terminals s ! term) \<noteq> 0 then VIDMEM else video_mem (terminals s ! term)"
  shows "mmu (show_task pg cur nxt s) =
    mmu (kmodify pg ((PID_OFFSET + task_pid (tasks s ! nxt)) * FOUR_M) (kmap pg VIRTUAL_END shown (kmap pg VIDMEM shown s)))"
proof -
  have "flush_TLB pg m = m" for m using assms(1) unfolding paging_ok_def by blast
  then show ?thesis
    by (simp add: show_task_def Let_def kmodify_def shown_def get_video_params_def set_video_params_def assms(2))
qed

lemma show_task_maps:
  assumes "paging_ok pg" and "display_page w" and "term = task_terminal (tasks s ! nxt)" and "page (video_mem (terminals s ! term))"
  defines "shown \<equiv> if active (terminals s ! term) \<noteq> 0 then VIDMEM else video_mem (terminals s ! term)"
  shows "maps (show_task pg cur nxt s) w q \<longleftrightarrow> (if w = VIDMEM \<or> w = VIRTUAL_END then q = shown else maps s w q)"
proof -
  let ?k = "kmap pg VIRTUAL_END shown (kmap pg VIDMEM shown s)"
  have "maps (show_task pg cur nxt s) w q \<longleftrightarrow> maps (kmodify pg ((PID_OFFSET + task_pid (tasks s ! nxt)) * FOUR_M) ?k) w q"
    unfolding shown_def by (rule maps_cong) (rule show_task_mmu [OF assms(1,3)])
  also have "\<dots> \<longleftrightarrow> maps ?k w q" by (rule kmodify_maps [OF assms(1) display_page_ok(2) [OF assms(2)]])
  finally show ?thesis
    using display_page_ok(1) [OF assms(2)] assms(4) by (auto simp: kmap_maps [OF assms(1)] shown_def)
qed

lemma show_task_user:
  assumes "paging_ok pg" and "VIRTUAL_BEGIN \<le> x" and "x < VIRTUAL_END"
  shows "mmu (show_task pg cur nxt s) x = user_page (task_pid (tasks s ! nxt)) x"
  unfolding show_task_mmu [OF assms(1) refl] kmodify_mmu [OF assms(1)] using assms(2,3) by simp

lemma update_cursor_active_more [simp]:
  "terminals (update_cursor_active s) = terminals s" "active_terminal (update_cursor_active s) = active_terminal s"
  "tasks (update_cursor_active s) = tasks s" "current_task (update_cursor_active s) = current_task s"
  "pcbs (update_cursor_active s) = pcbs s" "global_pid (update_cursor_active s) = global_pid s"
  "tss_esp0 (update_cursor_active s) = tss_esp0 s" "pid_availability (update_cursor_active s) = pid_availability s"
  "mem (update_cursor_active s) = mem s" "mmu (update_cursor_active s) = mmu s"
  by (simp_all add: update_cursor_active_def Let_def cursor_outb_def outb_def)

lemma resume_task_fields:
  "global_pid (resume_task nxt s) = task_pid (tasks s ! nxt)"
  "tss_esp0 (resume_task nxt s) = schedule_esp0 (pcbs s (task_pcb (tasks s ! nxt)))"
  "esp (resume_task nxt s) = schedule_esp (pcbs s (task_pcb (tasks s ! nxt)))"
  "ebp (resume_task nxt s) = schedule_ebp (pcbs s (task_pcb (tasks s ! nxt)))"
  "eflags (resume_task nxt s) = task_flags (tasks s ! nxt)"
  "terminals (resume_task nxt s) = terminals s" "active_terminal (resume_task nxt s) = active_terminal s"
  "tasks (resume_task nxt s) = tasks s" "current_task (resume_task nxt s) = current_task s"
  "pcbs (resume_task nxt s) = pcbs s" "pid_availability (resume_task nxt s) = pid_availability s"
  "mem (resume_task nxt s) = mem s" "mmu (resume_task nxt s) = mmu s"
  by (simp_all add: resume_task_def Let_def)


subsection \<open>Round robin\<close>

definition next_task :: "kstate \<Rightarrow> nat" where
  "next_task s = (unat (current_task s) + 1) mod NUM_TASKS"

lemma next_task_word: "unat c < 3 \<Longrightarrow> unat ((c + 1) mod of_nat NUM_TASKS :: u32) = (unat c + 1) mod 3"
proof -
  assume "unat c < 3"
  then have "unat (c + 1) = unat c + 1" by (simp add: unat_word_ariths)
  then show ?thesis by (simp add: unat_mod)
qed

lemma next_task_facts: "wf_kernel s \<Longrightarrow> next_task s < 3" "wf_kernel s \<Longrightarrow> next_task s \<noteq> unat (current_task s)"
  using wf_kernelD(4) [of s] by (auto simp: next_task_def mod_if)

text \<open>All three tasks have been started, each in a PCB of its own, and the running process is the one
  of the current task.\<close>

definition sched_ready :: "kstate \<Rightarrow> bool" where
  "sched_ready s \<longleftrightarrow> wf_kernel s \<and> (\<forall>i<NUM_TASKS. started (tasks s ! i) \<noteq> 0)
     \<and> (\<forall>i<NUM_TASKS. \<forall>j<NUM_TASKS. i \<noteq> j \<longrightarrow> task_pcb (tasks s ! i) \<noteq> task_pcb (tasks s ! j))
     \<and> global_pid s = task_pid (CURRENT_TASK s)"

type_synonym cpu_context = "u32 \<times> u32 \<times> u32 \<times> u32 \<times> u32"

definition task_context :: "kstate \<Rightarrow> cpu_context" where
  "task_context s = (esp s, ebp s, eflags s, tss_esp0 s, global_pid s)"

definition saved_context :: "kstate \<Rightarrow> nat \<Rightarrow> cpu_context" where
  "saved_context s i = (let t = tasks s ! i; p = pcbs s (task_pcb t)
     in (schedule_esp p, schedule_ebp p, task_flags t, schedule_esp0 p, task_pid t))"

definition sched_tick :: "env \<Rightarrow> u32 \<Rightarrow> kstate \<Rightarrow> kstate option" where
  "sched_tick e pit_irq s = (case schedule e pit_irq s of Some (Resumed, s') \<Rightarrow> Some s' | _ \<Rightarrow> None)"

text \<open>A task runs: it may execute and halt processes, use its memory and its terminal; the other tasks
  and the PCBs of their processes stay.\<close>

definition task_ran :: "kstate \<Rightarrow> kstate \<Rightarrow> bool" where
  "task_ran s s' \<longleftrightarrow> sched_ready s' \<and> current_task s' = current_task s
     \<and> (\<forall>i<NUM_TASKS. i \<noteq> unat (current_task s) \<longrightarrow> tasks s' ! i = tasks s ! i
          \<and> pcbs s' (task_pcb (tasks s ! i)) = pcbs s (task_pcb (tasks s ! i)))"

definition switched :: "env \<Rightarrow> kstate \<Rightarrow> kstate" where
  "switched e s = resume_task (next_task s) (show_task (pages e) (unat (current_task s)) (next_task s)
     ((save_context s)\<lparr>current_task := (current_task s + 1) mod of_nat NUM_TASKS\<rparr>))"

lemma schedule_switched:
  assumes "wf_kernel s" and "started (tasks s ! next_task s) \<noteq> 0"
  shows "schedule e pit_irq s = Some (Resumed, switched e s)"
proof -
  note c = wf_kernelD(3,4) [OF assms(1)]
  have "started (tasks (save_context s) ! next_task s) \<noteq> 0"
    using assms(2) c next_task_facts [OF assms(1)] by (simp add: save_context_fields)
  moreover have "current_task (save_context s) = current_task s" using c by (simp add: save_context_fields)
  moreover have "unat ((current_task s + 1) mod of_nat NUM_TASKS) = next_task s"
    unfolding next_task_def by (rule next_task_word [OF c(2)])
  ultimately show ?thesis unfolding schedule_def switched_def Let_def by simp
qed

lemma switched_fields:
  assumes "wf_kernel s"
  shows "tasks (switched e s) = (tasks s)[unat (current_task s) := (CURRENT_TASK s)\<lparr>task_flags := eflags s\<rparr>]"
    "pcbs (switched e s) = (pcbs s)(task_pcb (CURRENT_TASK s) := saved_pcb s (pcbs s (task_pcb (CURRENT_TASK s))))"
    "unat (current_task (switched e s)) = next_task s" "active_terminal (switched e s) = active_terminal s"
    "pid_availability (switched e s) = pid_availability s" "mem (switched e s) = mem s"
    "terminals (switched e s) = (terminals s)[unat (current_task s) :=
       (terminals s ! unat (current_task s))\<lparr>term_x := screen_x s, term_y := screen_y s\<rparr>]"
proof -
  note c = wf_kernelD(3,4) [OF assms]
  note f = save_context_fields [of s, unfolded c(1), OF c(2)]
  show "tasks (switched e s) = (tasks s)[unat (current_task s) := (CURRENT_TASK s)\<lparr>task_flags := eflags s\<rparr>]"
    "pcbs (switched e s) = (pcbs s)(task_pcb (CURRENT_TASK s) := saved_pcb s (pcbs s (task_pcb (CURRENT_TASK s))))"
    "active_terminal (switched e s) = active_terminal s" "pid_availability (switched e s) = pid_availability s" "mem (switched e s) = mem s"
    by (simp_all add: switched_def resume_task_fields f)
  show "unat (current_task (switched e s)) = next_task s"
    unfolding next_task_def next_task_word [OF c(2), symmetric] by (simp add: switched_def resume_task_fields)
  have "task_terminal (tasks (save_context s) ! unat (current_task s)) = unat (current_task s)"
    using c wf_kernelD(5) [OF assms] by (simp add: f)
  then show "terminals (switched e s) = (terminals s)[unat (current_task s) :=
       (terminals s ! unat (current_task s))\<lparr>term_x := screen_x s, term_y := screen_y s\<rparr>]"
    by (simp add: switched_def resume_task_fields f)
qed

lemma switched_context:
  assumes "wf_kernel s" and "task_pcb (tasks s ! next_task s) \<noteq> task_pcb (CURRENT_TASK s)"
  shows "task_context (switched e s) = saved_context s (next_task s)"
proof -
  note c = wf_kernelD(3,4) [OF assms(1)]
  note f = save_context_fields [of s, unfolded c(1), OF c(2)]
  show ?thesis
    using next_task_facts [OF assms(1)] assms(2)
    by (simp add: task_context_def saved_context_def Let_def switched_def resume_task_fields f)
qed

lemma switched_wf:
  assumes "wf_kernel s"
  shows "wf_kernel (switched e s)"
proof -
  note w = switched_fields [OF assms, of e] and c = wf_kernelD [OF assms]
  have "task_terminal (tasks (switched e s) ! i) = i" if "i < 3" for i
    using assms that by (simp add: w nth_updated CURRENT_TASK_def wf_kernel_def tasks_ok_def)
  then show ?thesis
    using assms next_task_facts(1) [OF assms]
    by (auto simp: wf_kernel_def terminals_ok_def tasks_ok_def w nth_updated)
qed


lemma sched_ready_started: "sched_ready s \<Longrightarrow> started (tasks s ! next_task s) \<noteq> 0"
  "sched_ready s \<Longrightarrow> task_pcb (tasks s ! next_task s) \<noteq> task_pcb (CURRENT_TASK s)"
proof -
  assume r: "sched_ready s"
  then have wf: "wf_kernel s" by (simp only: sched_ready_def)
  show "started (tasks s ! next_task s) \<noteq> 0" "task_pcb (tasks s ! next_task s) \<noteq> task_pcb (CURRENT_TASK s)"
    using r next_task_facts [OF wf] wf_kernelD(4) [OF wf] unfolding sched_ready_def CURRENT_TASK_def by blast+
qed

lemma sched_tick_eq: "sched_ready s \<Longrightarrow> sched_tick e pit_irq s = Some (switched e s)"
  using schedule_switched sched_ready_started(1) by (simp add: sched_tick_def sched_ready_def)

lemma switched_ready:
  assumes "sched_ready s"
  shows "sched_ready (switched e s)"
proof -
  have wf: "wf_kernel s" using assms by (simp only: sched_ready_def)
  note w = switched_fields [OF wf, of e] and c = wf_kernelD(3,4) [OF wf]
  have same: "started (tasks (switched e s) ! i) = started (tasks s ! i)" "task_pcb (tasks (switched e s) ! i) = task_pcb (tasks s ! i)"
    "task_pid (tasks (switched e s) ! i) = task_pid (tasks s ! i)" if "i < 3" for i
    using that c by (simp_all add: w nth_updated CURRENT_TASK_def)
  have "task_context (switched e s) = saved_context s (next_task s)"
    by (rule switched_context [OF wf sched_ready_started(2) [OF assms]])
  then have "global_pid (switched e s) = task_pid (tasks s ! next_task s)"
    by (simp add: task_context_def saved_context_def Let_def)
  then have "global_pid (switched e s) = task_pid (CURRENT_TASK (switched e s))"
    using same(3) next_task_facts(1) [OF wf] by (simp add: CURRENT_TASK_def w)
  then show ?thesis using assms same switched_wf [OF wf] unfolding sched_ready_def by metis
qed

lemma switched_saves:
  assumes "sched_ready s"
  shows "saved_context (switched e s) (unat (current_task s)) = task_context s"
    "i < 3 \<Longrightarrow> i \<noteq> unat (current_task s) \<Longrightarrow> saved_context (switched e s) i = saved_context s i"
proof -
  have wf: "wf_kernel s" using assms by (simp only: sched_ready_def)
  note w = switched_fields [OF wf, of e] and c = wf_kernelD(3,4) [OF wf]
  show "saved_context (switched e s) (unat (current_task s)) = task_context s"
    using c assms by (simp add: saved_context_def task_context_def Let_def w saved_pcb_def sched_ready_def)
  show "i < 3 \<Longrightarrow> i \<noteq> unat (current_task s) \<Longrightarrow> saved_context (switched e s) i = saved_context s i"
  proof -
    assume i: "i < 3" "i \<noteq> unat (current_task s)"
    then have "task_pcb (tasks s ! i) \<noteq> task_pcb (CURRENT_TASK s)"
      using assms c(2) unfolding sched_ready_def CURRENT_TASK_def by blast
    then show ?thesis using i by (simp add: saved_context_def Let_def w)
  qed
qed

interpretation rr: round_robin "sched_tick e pit_irq" task_ran "\<lambda>s. unat (current_task s)"
  task_context saved_context sched_ready 3 for e pit_irq
proof (unfold_locales, goal_cases)
  case (2 s)
  then show ?case using wf_kernelD(4) [of s] by (simp add: sched_ready_def)
next
  case (3 s)
  then show ?case using sched_tick_eq switched_ready by simp
next
  case (4 s s')
  then show ?case using sched_tick_eq switched_fields(3) by (auto simp: sched_ready_def next_task_def)
next
  case (5 s s')
  then show ?case using sched_tick_eq switched_saves(1) by auto
next
  case (6 s s' i)
  then show ?case using sched_tick_eq switched_saves(2) by auto
next
  case (7 s s')
  then show ?case
    using sched_tick_eq switched_context [OF _ sched_ready_started(2)] switched_fields(3)
    by (auto simp: sched_ready_def)
next
  case (8 s s')
  then show ?case by (simp add: task_ran_def)
next
  case (9 s s' i)
  then show ?case by (simp add: task_ran_def saved_context_def Let_def)
qed simp


subsection \<open>Properties\<close>

lemma switched_displays:
  assumes "wf_kernel s" and "paging_ok (pages e)"
  shows "content_page (switched e s) = content_page s" "content (switched e s) = content s"
    "task_pages (switched e s)" "own_pages s \<Longrightarrow> own_pages (switched e s)"
    "VIRTUAL_BEGIN \<le> x \<Longrightarrow> x < VIRTUAL_END \<Longrightarrow> mmu (switched e s) x = user_page (task_pid (tasks s ! next_task s)) x"
proof -
  note w = switched_fields [OF assms(1), of e] and c = wf_kernelD [OF assms(1)]
  note f = save_context_fields [of s, unfolded c(3), OF c(4)] and n = next_task_facts [OF assms(1)]
  let ?s = "(save_context s)\<lparr>current_task := (current_task s + 1) mod of_nat NUM_TASKS\<rparr>"
  have tn: "task_terminal (tasks ?s ! next_task s) = next_task s"
    using n assms(1) by (simp add: f wf_kernel_def tasks_ok_def)
  have vm: "video_mem (terminals ?s ! next_task s) = term_page (next_task s)"
    "active (terminals ?s ! next_task s) \<noteq> 0 \<longleftrightarrow> next_task s = unat (active_terminal s)"
    using wf_video_mem [OF assms(1) n(1)] c(7) n(1) by (simp_all add: f)
  show cp: "content_page (switched e s) = content_page s" by (simp add: content_page_def fun_eq_iff w)
  then show "content (switched e s) = content s" by (simp add: content_def fun_eq_iff w)
  have m: "maps (switched e s) v q \<longleftrightarrow> (if v = VIDMEM \<or> v = VIRTUAL_END then q = content_page s (next_task s) else maps s v q)"
    if "display_page v" for v q
  proof -
    have "maps (switched e s) v q \<longleftrightarrow> maps (show_task (pages e) (unat (current_task s)) (next_task s) ?s) v q"
      by (rule maps_cong) (simp add: switched_def resume_task_fields)
    also have "\<dots> \<longleftrightarrow> (if v = VIDMEM \<or> v = VIRTUAL_END then q = content_page s (next_task s) else maps ?s v q)"
      using show_task_maps [OF assms(2) that tn [symmetric]] vm term_page_ok(1) [OF n(1)] by (simp add: content_page_def)
    also have "maps ?s v q \<longleftrightarrow> maps s v q" by (rule maps_cong) (simp add: f)
    finally show ?thesis .
  qed
  show "task_pages (switched e s)" by (simp add: task_pages_def m display_page_def cp w(3))
  have dp: "display_page (term_page i)" "term_page i \<noteq> VIDMEM" "term_page i \<noteq> VIRTUAL_END" if "i < 3" for i
    using that term_page_other [of i] by (auto simp: display_page_def)
  show "own_pages (switched e s)" if "own_pages s"
    using that wf_video_mem [OF assms(1)] wf_video_mem [OF switched_wf [OF assms(1)]]
    by (simp add: own_pages_def m dp cp)
  show "mmu (switched e s) x = user_page (task_pid (tasks s ! next_task s)) x" if "VIRTUAL_BEGIN \<le> x" "x < VIRTUAL_END"
    using show_task_user [OF assms(2) that, of "unat (current_task s)" "next_task s" ?s] n
    by (simp add: switched_def resume_task_fields f)
qed

text \<open>C2. One tick of the scheduler. The next task in the order 0, 1, 2 becomes current and continues
  with the stack pointers, flags, \<open>esp0\<close> and process number saved for it, while those of the task
  that was stopped are saved; the user page is the next process's; kernel and user video pages show
  the next task's terminal, active or not; no terminal's contents change and every terminal keeps its
  page.\<close>

theorem schedule_switches:
  assumes "sched_ready s" and "paging_ok (pages e)"
  shows "\<exists>s'. schedule e pit_irq s = Some (Resumed, s') \<and> sched_ready s'
    \<and> unat (current_task s') = (unat (current_task s) + 1) mod NUM_TASKS
    \<and> task_context s' = saved_context s (unat (current_task s'))
    \<and> saved_context s' (unat (current_task s)) = task_context s
    \<and> task_pages s' \<and> (own_pages s \<longrightarrow> own_pages s') \<and> content s' = content s
    \<and> (\<forall>x. VIRTUAL_BEGIN \<le> x \<and> x < VIRTUAL_END \<longrightarrow> mmu s' x = user_page (global_pid s') x)"
proof -
  have wf: "wf_kernel s" using assms(1) by (simp only: sched_ready_def)
  note ctx = switched_context [OF wf sched_ready_started(2) [OF assms(1)], of e]
  have "global_pid (switched e s) = task_pid (tasks s ! next_task s)"
    using ctx by (simp add: task_context_def saved_context_def Let_def)
  then show ?thesis
    using schedule_switched [OF wf sched_ready_started(1) [OF assms(1)], of e pit_irq] switched_ready [OF assms(1), of e] ctx
      switched_saves(1) [OF assms(1), of e] switched_fields(3) [OF wf, of e] switched_displays [OF wf assms(2)]
    by (simp add: next_task_def)
qed

lemma sample_sched_ready: "sched_ready sample_kernel"
proof -
  have "tasks sample_kernel ! i = sample_task i" if "i < 3" for i
    using that by (auto simp: less_Suc_eq numeral_3_eq_3 numeral_2_eq_2)
  then have "task_pcb (tasks sample_kernel ! i) \<noteq> task_pcb (tasks sample_kernel ! j)" if "i < 3" "j < 3" "i \<noteq> j" for i j
    using PCB_ADDRESS_inj [of i j] that by (simp add: sample_task_def)
  then show ?thesis
    using sample_kernel_wf by (simp add: sched_ready_def all_less_3 sample_task_def)
qed

theorem schedule_switches_witness:
  "\<exists>s'. schedule sample_env 0 sample_kernel = Some (Resumed, s') \<and> unat (current_task s') = 1 \<and> task_pages s'"
proof -
  have "paging_ok (pages sample_env)" by (simp add: sample_env_def paging_ok_simple)
  from schedule_switches [OF sample_sched_ready this, of 0] show ?thesis by fastforce
qed

text \<open>C9. The scheduler is fair and loses nothing. From a state with all three tasks started, ticks
  always succeed; after three ticks, whatever the other two tasks do in between, the first task is
  current again with the same stack pointers, flags, \<open>esp0\<close> and process number.\<close>

theorem scheduler_full_round:
  assumes "sched_ready s"
  shows "(\<exists>s'. sched_tick e pit_irq s = Some s' \<and> sched_ready s')
    \<and> (\<forall>v. rounds (sched_tick e pit_irq) task_ran 3 s v \<longrightarrow>
        current_task v = current_task s \<and> task_context v = task_context s)"
  using rr.tick_total [OF assms] rr.full_round [OF _ assms] by (auto simp: word_unat_eq_iff)

theorem scheduler_full_round_witness:
  "\<exists>v. rounds (sched_tick sample_env 0) task_ran 3 sample_kernel v \<and> task_context v = task_context sample_kernel"
proof -
  have refl: "sched_ready s \<Longrightarrow> task_ran s s" for s by (simp add: task_ran_def)
  have step: "\<exists>t. sched_tick sample_env 0 s = Some t \<and> sched_ready t" if "sched_ready s" for s
    using that rr.tick_total by blast
  obtain s1 where s1: "sched_tick sample_env 0 sample_kernel = Some s1" "sched_ready s1" using step sample_sched_ready by blast
  obtain s2 where s2: "sched_tick sample_env 0 s1 = Some s2" "sched_ready s2" using step s1(2) by blast
  obtain s3 where s3: "sched_tick sample_env 0 s2 = Some s3" using step s2(2) by blast
  let ?rounds = "rounds (sched_tick sample_env 0) task_ran"
  have "?rounds 1 sample_kernel s1" using s1(1) by (rule rounds.first)
  then have "?rounds (Suc 1) sample_kernel s2" using refl [OF s1(2)] s2(1) by (rule rounds.again)
  then have "?rounds (Suc (Suc 1)) sample_kernel s3" using refl [OF s2(2)] s3 by (rule rounds.again)
  then have r: "rounds (sched_tick sample_env 0) task_ran 3 sample_kernel s3" by (simp add: numeral_3_eq_3)
  then have "task_context s3 = task_context sample_kernel" using scheduler_full_round [OF sample_sched_ready, of sample_env 0] by blast
  then show ?thesis using r by blast
qed

end
