(* ===== verification/Boot_Info.thy ===== *)
theory Boot_Info
  imports Printing
begin

text \<open>
  The first part of \<open>entry\<close> of \<^verbatim>\<open>student-distrib/kernel.c\<close>: the information structure of the
  boot loader (\<^verbatim>\<open>multiboot.h\<close>) is printed, and the last module becomes the file system
  image. The structure is read from memory field by field, again after every line that was printed.
  The loops over modules and the memory map end when what they read says so: they are partial
  functions, and \<open>boot_info_printed\<close> shows that they return.
\<close>

abbreviation MULTIBOOT_BOOTLOADER_MAGIC :: u32 where "MULTIBOOT_BOOTLOADER_MAGIC \<equiv> 0x2BADB002"

subsection \<open>The structures of the boot loader\<close>

text \<open>The fields of \<open>multiboot_info_t\<close>, \<open>module_t\<close> and \<open>memory_map_t\<close>, by their offsets.\<close>

definition mbi_flags :: "u32 \<Rightarrow> kstate \<Rightarrow> u32" where "mbi_flags mbi s = rd32 s mbi"
definition mbi_mem_lower :: "u32 \<Rightarrow> kstate \<Rightarrow> u32" where "mbi_mem_lower mbi s = rd32 s (mbi + 4)"
definition mbi_mem_upper :: "u32 \<Rightarrow> kstate \<Rightarrow> u32" where "mbi_mem_upper mbi s = rd32 s (mbi + 8)"
definition mbi_boot_device :: "u32 \<Rightarrow> kstate \<Rightarrow> u32" where "mbi_boot_device mbi s = rd32 s (mbi + 12)"
definition mbi_cmdline :: "u32 \<Rightarrow> kstate \<Rightarrow> u32" where "mbi_cmdline mbi s = rd32 s (mbi + 16)"
definition mbi_mods_count :: "u32 \<Rightarrow> kstate \<Rightarrow> u32" where "mbi_mods_count mbi s = rd32 s (mbi + 20)"
definition mbi_mods_addr :: "u32 \<Rightarrow> kstate \<Rightarrow> u32" where "mbi_mods_addr mbi s = rd32 s (mbi + 24)"
definition mbi_elf_sec :: "u32 \<Rightarrow> u32" where "mbi_elf_sec mbi = mbi + 28"
definition mbi_mmap_length :: "u32 \<Rightarrow> kstate \<Rightarrow> u32" where "mbi_mmap_length mbi s = rd32 s (mbi + 44)"
definition mbi_mmap_addr :: "u32 \<Rightarrow> kstate \<Rightarrow> u32" where "mbi_mmap_addr mbi s = rd32 s (mbi + 48)"

definition mod_start :: "u32 \<Rightarrow> kstate \<Rightarrow> u32" where "mod_start m s = rd32 s m"
definition mod_end :: "u32 \<Rightarrow> kstate \<Rightarrow> u32" where "mod_end m s = rd32 s (m + 4)"

definition CHECK_FLAG :: "u32 \<Rightarrow> nat \<Rightarrow> bool" where
  "CHECK_FLAG flags b \<longleftrightarrow> flags AND push_bit b 1 \<noteq> 0"

text \<open>A string in memory is read up to its terminator; one without a terminator is never read to the
  end.\<close>

partial_function (option) cstring_from :: "u32 \<Rightarrow> kstate \<Rightarrow> u8 list option" where
  "cstring_from a s =
     (if rd8 s a = 0 then Some [0] else do { cs \<leftarrow> cstring_from (a + 1) s; Some (rd8 s a # cs) })"

definition cstr :: "string \<Rightarrow> u8 list" where
  "cstr t = map of_char t @ [0]"

definition nl :: string where "nl = [CHR 0x0A]"

subsection \<open>The lines that are printed\<close>

definition print_line :: "u8 \<Rightarrow> string \<Rightarrow> vararg list \<Rightarrow> kstate \<Rightarrow> kstate option" where
  "print_line junk fmt as s = map_option snd (printf junk (cstr fmt) as s)"

primrec module_bytes :: "u8 \<Rightarrow> u32 \<Rightarrow> nat list \<Rightarrow> kstate \<Rightarrow> kstate option" where
  "module_bytes junk m [] s = Some s"
| "module_bytes junk m (i # is) s =
     do { s \<leftarrow> print_line junk ''0x%x '' [Int_arg (scast (rd8 s (mod_start m s + of_nat i)))] s;
          module_bytes junk m is s }"

partial_function (option) mods_loop :: "u8 \<Rightarrow> u32 \<Rightarrow> u32 \<Rightarrow> u32 \<Rightarrow> u32 \<Rightarrow> kstate \<Rightarrow> (u32 \<times> kstate) option" where
  "mods_loop junk mbi mod_count m filesys_img s =
     (if mod_count < mbi_mods_count mbi s then
        let filesys_img = mod_start m s
        in do { s \<leftarrow> print_line junk (''Module %d loaded at address: 0x%#x'' @ nl) [Int_arg mod_count, Int_arg (mod_start m s)] s;
                s \<leftarrow> print_line junk (''Module %d ends at address: 0x%#x'' @ nl) [Int_arg mod_count, Int_arg (mod_end m s)] s;
                s \<leftarrow> print_line junk (''First few bytes of module:'' @ nl) [] s;
                s \<leftarrow> module_bytes junk m [0..<16] s;
                s \<leftarrow> print_line junk nl [] s;
                mods_loop junk mbi (mod_count + 1) (m + 16) filesys_img s }
      else Some (filesys_img, s))"

partial_function (option) mmap_loop :: "u8 \<Rightarrow> u32 \<Rightarrow> u32 \<Rightarrow> kstate \<Rightarrow> kstate option" where
  "mmap_loop junk mbi mmap s =
     (if mmap < mbi_mmap_addr mbi s + mbi_mmap_length mbi s then
        do { s \<leftarrow> print_line junk (''    size = 0x%x, base_addr = 0x%#x%#x'' @ nl @ ''    type = 0x%x,  length    = 0x%#x%#x'' @ nl)
               [Int_arg (rd32 s mmap), Int_arg (rd32 s (mmap + 8)), Int_arg (rd32 s (mmap + 4)), Int_arg (rd32 s (mmap + 20)),
                Int_arg (rd32 s (mmap + 16)), Int_arg (rd32 s (mmap + 12))] s;
             mmap_loop junk mbi (mmap + rd32 s mmap + 4) s }
      else Some s)"

definition when_flag :: "nat \<Rightarrow> u32 \<Rightarrow> (kstate \<Rightarrow> kstate option) \<Rightarrow> kstate \<Rightarrow> kstate option" where
  "when_flag b mbi f s = (if CHECK_FLAG (mbi_flags mbi s) b then f s else Some s)"

text \<open>The lines up to the modules.\<close>

definition print_header :: "u8 \<Rightarrow> u32 \<Rightarrow> kstate \<Rightarrow> kstate option" where
  "print_header junk mbi s =
     do { s \<leftarrow> print_line junk (''flags = 0x%#x'' @ nl) [Int_arg (mbi_flags mbi s)] s;
          s \<leftarrow> when_flag 0 mbi (\<lambda>s. print_line junk (''mem_lower = %uKB, mem_upper = %uKB'' @ nl)
                 [Int_arg (mbi_mem_lower mbi s), Int_arg (mbi_mem_upper mbi s)] s) s;
          s \<leftarrow> when_flag 1 mbi (\<lambda>s. print_line junk (''boot_device = 0x%#x'' @ nl) [Int_arg (mbi_boot_device mbi s)] s) s;
          when_flag 2 mbi (\<lambda>s. do { cs \<leftarrow> cstring_from (mbi_cmdline mbi s) s;
                 print_line junk (''cmdline = %s'' @ nl) [Str_arg cs] s }) s }"

text \<open>The lines after them.\<close>

definition print_rest :: "u8 \<Rightarrow> u32 \<Rightarrow> kstate \<Rightarrow> kstate option" where
  "print_rest junk mbi s =
     do { s \<leftarrow> when_flag 5 mbi (\<lambda>s. let elf_sec = mbi_elf_sec mbi in
                 print_line junk (''elf_sec: num = %u, size = 0x%#x, addr = 0x%#x, shndx = 0x%#x'' @ nl)
                   [Int_arg (rd32 s elf_sec), Int_arg (rd32 s (elf_sec + 4)), Int_arg (rd32 s (elf_sec + 8)),
                    Int_arg (rd32 s (elf_sec + 12))] s) s;
          when_flag 6 mbi (\<lambda>s. do {
                 s \<leftarrow> print_line junk (''mmap_addr = 0x%#x, mmap_length = 0x%x'' @ nl)
                   [Int_arg (mbi_mmap_addr mbi s), Int_arg (mbi_mmap_length mbi s)] s;
                 mmap_loop junk mbi (mbi_mmap_addr mbi s) s }) s }"

text \<open>The result says whether \<open>entry\<close> goes on, and has the file system image.\<close>

definition print_boot_info :: "u8 \<Rightarrow> u32 \<Rightarrow> u32 \<Rightarrow> kstate \<Rightarrow> (bool \<times> u32 \<times> kstate) option" where
  "print_boot_info junk mbi filesys_img s =
     do { s \<leftarrow> print_header junk mbi s;
          (filesys_img, s) \<leftarrow> (if CHECK_FLAG (mbi_flags mbi s) 3
             then mods_loop junk mbi 0 (mbi_mods_addr mbi s) filesys_img s else Some (filesys_img, s));
          if CHECK_FLAG (mbi_flags mbi s) 4 \<and> CHECK_FLAG (mbi_flags mbi s) 5
          then do { s \<leftarrow> print_line junk (''Both bits 4 and 5 are set.'' @ nl) [] s; Some (False, filesys_img, s) }
          else do { s \<leftarrow> print_rest junk mbi s; Some (True, filesys_img, s) } }"

subsection \<open>Printing leaves the structures alone\<close>

text \<open>The bytes are not on the screen at \<open>P\<close>.\<close>

definition off_screen :: "u32 \<Rightarrow> kstate \<Rightarrow> u32 \<Rightarrow> nat \<Rightarrow> bool" where
  "off_screen P s a n \<longleftrightarrow> (\<forall>k<n. \<not> within (mmu s (a + of_nat k)) P 4000)"

definition printed :: "u32 \<Rightarrow> kstate \<Rightarrow> kstate \<Rightarrow> bool" where
  "printed P s s' \<longleftrightarrow> boot_screen_ok P s' \<and> console_frame P s s'"

lemma printed_trans: "printed P s t \<Longrightarrow> printed P t u \<Longrightarrow> printed P s u"
  unfolding printed_def using console_frame_trans by blast

lemma printed_refl: "boot_screen_ok P s \<Longrightarrow> printed P s s"
  by (simp add: printed_def console_frame_refl)

lemma printed_mmu: "printed P s s' \<Longrightarrow> mmu s' = mmu s"
  unfolding printed_def using console_frame_fields(1) by blast

lemma printed_off_screen: "printed P s s' \<Longrightarrow> off_screen P s' a n = off_screen P s a n"
  by (simp add: off_screen_def printed_mmu)

lemma off_screen_part:
  assumes "off_screen P s a n" and "k + j \<le> n"
  shows "off_screen P s (a + of_nat k) j"
  unfolding off_screen_def
proof (intro allI impI)
  fix i assume "i < j"
  then have "k + i < n" using assms(2) by simp
  then have "\<not> within (mmu s (a + of_nat (k + i))) P 4000" using assms(1) unfolding off_screen_def by blast
  then show "\<not> within (mmu s (a + of_nat k + of_nat i)) P 4000" by (simp add: add.assoc)
qed

lemma rd32_printed:
  assumes "printed P s s'" and "off_screen P s a 4"
  shows "rd32 s' a = rd32 s a"
proof -
  have "\<not> within (mmu s (a + of_nat k)) P 4000" if "k < 4" for k using assms(2) that by (simp add: off_screen_def)
  then have "rd8 s' (a + of_nat k) = rd8 s (a + of_nat k)" if "k < 4" for k
    using that printed_mmu [OF assms(1)] assms(1) unfolding rd8_def printed_def console_frame_def by metis
  from this [of 0] this [of 1] this [of 2] this [of 3] show ?thesis by (simp add: rd32_def)
qed

lemma print_line_ok:
  assumes "boot_screen_ok P s" and "renders (map of_char fmt) as"
  shows "\<exists>s'. print_line junk fmt as s = Some s' \<and> printed P s s'"
proof -
  obtain cs where cs: "printf junk (cstr fmt) as s = Some (length fmt, fold putc cs s)" "0x08 \<notin> set cs"
    using printf_renders [OF assms(2), of junk s] by (auto simp: cstr_def)
  then show ?thesis
    using boot_console.put_all [OF assms(1) erasable_all_plain [OF cs(2)]]
    by (simp add: print_line_def printed_def)
qed

lemma print_line_next:
  assumes "printed P s t" and "renders (map of_char fmt) as"
  shows "\<exists>u. print_line junk fmt as t = Some u \<and> printed P s u"
  using print_line_ok [of P t fmt as junk] assms printed_trans by (metis printed_def)

lemma module_bytes_ok:
  assumes "printed P s t"
  shows "\<exists>u. module_bytes junk m is t = Some u \<and> printed P s u"
  using assms
proof (induction "is" arbitrary: t)
  case (Cons i "is")
  obtain u where u: "print_line junk ''0x%x '' [Int_arg (scast (rd8 t (mod_start m t + of_nat i)))] t = Some u" "printed P s u"
    using print_line_next [OF Cons.prems, of "''0x%x ''" "[Int_arg (scast (rd8 t (mod_start m t + of_nat i)))]" junk] by auto
  then show ?case using Cons.IH [OF u(2)] by simp
qed simp

subsection \<open>The loops return\<close>

text \<open>One module.\<close>

lemma mods_step:
  assumes "printed P s t" and "c < mbi_mods_count mbi t"
  shows "\<exists>u. mods_loop junk mbi c m img t = mods_loop junk mbi (c + 1) (m + 16) (mod_start m t) u \<and> printed P s u"
proof -
  obtain t1 where t1: "print_line junk (''Module %d loaded at address: 0x%#x'' @ nl) [Int_arg c, Int_arg (mod_start m t)] t = Some t1" "printed P s t1"
    using print_line_next [OF assms(1), of "''Module %d loaded at address: 0x%#x'' @ nl" "[Int_arg c, Int_arg (mod_start m t)]" junk]
    by (auto simp: nl_def)
  obtain t2 where t2: "print_line junk (''Module %d ends at address: 0x%#x'' @ nl) [Int_arg c, Int_arg (mod_end m t1)] t1 = Some t2" "printed P s t2"
    using print_line_next [OF t1(2), of "''Module %d ends at address: 0x%#x'' @ nl" "[Int_arg c, Int_arg (mod_end m t1)]" junk]
    by (auto simp: nl_def)
  obtain t3 where t3: "print_line junk (''First few bytes of module:'' @ nl) [] t2 = Some t3" "printed P s t3"
    using print_line_next [OF t2(2), of "''First few bytes of module:'' @ nl" "[]" junk] by (auto simp: nl_def)
  obtain t4 where t4: "module_bytes junk m [0..<16] t3 = Some t4" "printed P s t4"
    using module_bytes_ok [OF t3(2)] by blast
  obtain t5 where t5: "print_line junk nl [] t4 = Some t5" "printed P s t5"
    using print_line_next [OF t4(2), of nl "[]" junk] by (auto simp: nl_def)
  have "mods_loop junk mbi c m img t = mods_loop junk mbi (c + 1) (m + 16) (mod_start m t) t5"
    using assms(2) t1(1) t2(1) t3(1) t4(1) t5(1) by (subst mods_loop.simps) (simp add: Let_def del: upt_rec_numeral)
  then show ?thesis using t5(2) by blast
qed

text \<open>The information structure and the entries of the modules as they stand in memory are not on the
  screen.\<close>

definition mbi_ok :: "u32 \<Rightarrow> u32 \<Rightarrow> kstate \<Rightarrow> bool" where
  "mbi_ok P mbi s \<longleftrightarrow> off_screen P s mbi 52"

definition mods_ok :: "u32 \<Rightarrow> u32 \<Rightarrow> kstate \<Rightarrow> bool" where
  "mods_ok P mbi s \<longleftrightarrow> off_screen P s (mbi_mods_addr mbi s) (16 * unat (mbi_mods_count mbi s))"

lemma mbi_field:
  assumes "printed P s t" and "mbi_ok P mbi s" and "k + 4 \<le> 52"
  shows "rd32 t (mbi + of_nat k) = rd32 s (mbi + of_nat k)"
  using rd32_printed [OF assms(1)] off_screen_part [of P s mbi 52 k 4] assms(2,3) by (simp add: mbi_ok_def)

lemma mbi_same:
  assumes "printed P s t" and "mbi_ok P mbi s"
  shows "mbi_flags mbi t = mbi_flags mbi s" "mbi_mods_count mbi t = mbi_mods_count mbi s"
    "mbi_mods_addr mbi t = mbi_mods_addr mbi s" "mbi_mmap_addr mbi t = mbi_mmap_addr mbi s"
    "mbi_mmap_length mbi t = mbi_mmap_length mbi s" "mbi_cmdline mbi t = mbi_cmdline mbi s"
  using mbi_field [OF assms, of 0] mbi_field [OF assms, of 20] mbi_field [OF assms, of 24] mbi_field [OF assms, of 48]
    mbi_field [OF assms, of 44] mbi_field [OF assms, of 16]
  by (simp_all add: mbi_flags_def mbi_mods_count_def mbi_mods_addr_def mbi_mmap_addr_def mbi_mmap_length_def mbi_cmdline_def)

text \<open>The image is the start of the last module.\<close>

definition last_module :: "u32 \<Rightarrow> u32 \<Rightarrow> kstate \<Rightarrow> u32" where
  "last_module mbi img s =
     (if mbi_mods_count mbi s = 0 then img
      else mod_start (mbi_mods_addr mbi s + 16 * (mbi_mods_count mbi s - 1)) s)"

lemma mods_loop_ok:
  assumes "printed P s t" and "mbi_ok P mbi s" and "k \<le> unat (mbi_mods_count mbi s)" and "mods_ok P mbi s"
    and "k = 0 \<Longrightarrow> img = img0" and "0 < k \<Longrightarrow> img = mod_start (mbi_mods_addr mbi s + 16 * of_nat (k - 1)) s"
  shows "\<exists>u. mods_loop junk mbi (of_nat k) (mbi_mods_addr mbi s + 16 * of_nat k) img t = Some (last_module mbi img0 s, u)
    \<and> printed P s u"
  using assms(1,3,5-)
proof (induction "unat (mbi_mods_count mbi s) - k" arbitrary: k t img)
  case 0
  let ?n = "mbi_mods_count mbi s"
  have k: "k = unat ?n" using 0 by simp
  then have n: "of_nat k = ?n" by simp
  have "mods_loop junk mbi ?n m img t = Some (img, t)" for m
    by (subst mods_loop.simps) (simp add: mbi_same [OF 0(2) assms(2)])
  moreover have "img = last_module mbi img0 s"
    using 0(4,5) k n by (cases "k = 0") (auto simp: last_module_def of_nat_diff unat_eq_zero)
  ultimately show ?case unfolding n using 0(2) by auto
next
  case (Suc j)
  let ?m = "mbi_mods_addr mbi s" and ?n = "mbi_mods_count mbi s"
  have k: "k < unat ?n" using Suc by simp
  then have "(of_nat k :: u32) < ?n"
    using unat_u32_bound [of ?n] by (simp add: word_less_nat_alt unat_of_nat take_bit_nat_eq_self)
  then have "of_nat k < mbi_mods_count mbi t" by (simp add: mbi_same [OF Suc(3) assms(2)])
  from mods_step [OF Suc(3) this, of junk "?m + 16 * of_nat k" img] obtain u
    where u: "mods_loop junk mbi (of_nat k) (?m + 16 * of_nat k) img t =
        mods_loop junk mbi (of_nat k + 1) (?m + 16 * of_nat k + 16) (mod_start (?m + 16 * of_nat k) t) u" "printed P s u" by blast
  have "off_screen P s (?m + of_nat (16 * k)) 4"
    using off_screen_part [of P s ?m "16 * unat ?n" "16 * k" 4] assms(4) k by (simp add: mods_ok_def)
  then have img: "mod_start (?m + 16 * of_nat k) t = mod_start (?m + 16 * of_nat k) s"
    using rd32_printed [OF Suc(3)] by (simp add: mod_start_def)
  have "\<exists>v. mods_loop junk mbi (of_nat (k + 1)) (?m + 16 * of_nat (k + 1)) (mod_start (?m + 16 * of_nat k) t) u
      = Some (last_module mbi img0 s, v) \<and> printed P s v"
    by (rule Suc.hyps(1)) (use Suc.hyps(2) k u(2) img in simp_all)
  then show ?case unfolding u(1) by (simp add: algebra_simps)
qed

text \<open>The entries of the memory map, as the loop finds them: each is not on the screen, and the sizes lead
  to the end.\<close>

inductive mmap_chain :: "u32 \<Rightarrow> kstate \<Rightarrow> u32 \<Rightarrow> u32 \<Rightarrow> bool" for P s e where
  chain_end: "\<not> a < e \<Longrightarrow> mmap_chain P s e a"
| chain_entry: "a < e \<Longrightarrow> off_screen P s a 4 \<Longrightarrow> mmap_chain P s e (a + rd32 s a + 4) \<Longrightarrow> mmap_chain P s e a"

lemma mmap_loop_ok:
  assumes "mmap_chain P s (mbi_mmap_addr mbi s + mbi_mmap_length mbi s) a" and "mbi_ok P mbi s" and "printed P s t"
  shows "\<exists>u. mmap_loop junk mbi a t = Some u \<and> printed P s u"
  using assms(1,3)
proof (induction arbitrary: t rule: mmap_chain.induct)
  case (chain_end a)
  then show ?case by (subst mmap_loop.simps) (simp add: mbi_same [OF chain_end(2) assms(2)])
next
  case (chain_entry a)
  let ?f = "''    size = 0x%x, base_addr = 0x%#x%#x'' @ nl @ ''    type = 0x%x,  length    = 0x%#x%#x'' @ nl"
  let ?as = "[Int_arg (rd32 t a), Int_arg (rd32 t (a + 8)), Int_arg (rd32 t (a + 4)), Int_arg (rd32 t (a + 20)),
    Int_arg (rd32 t (a + 16)), Int_arg (rd32 t (a + 12))]"
  obtain u where u: "print_line junk ?f ?as t = Some u" "printed P s u"
    using print_line_next [OF chain_entry(5), of ?f ?as junk] by (auto simp: nl_def)
  have "rd32 u a = rd32 s a" by (rule rd32_printed [OF u(2) chain_entry(2)])
  then have "mmap_loop junk mbi a t = mmap_loop junk mbi (a + rd32 s a + 4) u"
    using chain_entry(1) u(1) by (subst mmap_loop.simps) (simp add: mbi_same [OF chain_entry(5) assms(2)])
  then show ?case using chain_entry(4) [OF u(2)] by simp
qed

text \<open>The command line: a string of \<open>n\<close> characters, none of them a backspace, not on the screen.\<close>

definition string_ok :: "u32 \<Rightarrow> kstate \<Rightarrow> u32 \<Rightarrow> nat \<Rightarrow> bool" where
  "string_ok P s a n \<longleftrightarrow> off_screen P s a (n + 1) \<and> rd8 s (a + of_nat n) = 0
     \<and> (\<forall>k<n. rd8 s (a + of_nat k) \<noteq> 0 \<and> rd8 s (a + of_nat k) \<noteq> 0x08)"

lemma cstring_from_ok:
  assumes "rd8 s (a + of_nat n) = 0" and "\<forall>k<n. rd8 s (a + of_nat k) \<noteq> 0 \<and> rd8 s (a + of_nat k) \<noteq> 0x08"
  shows "\<exists>cs. cstring_from a s = Some (cs @ [0]) \<and> 0 \<notin> set cs \<and> 0x08 \<notin> set cs"
  using assms
proof (induction n arbitrary: a)
  case 0
  then show ?case by (subst cstring_from.simps) simp
next
  case (Suc n)
  have "rd8 s (a + 1 + of_nat n) = 0" using Suc.prems(1) by (simp add: algebra_simps)
  moreover have "rd8 s (a + 1 + of_nat k) \<noteq> 0 \<and> rd8 s (a + 1 + of_nat k) \<noteq> 0x08" if "k < n" for k
    using Suc.prems(2) [rule_format, of "Suc k"] that by (simp add: algebra_simps)
  ultimately obtain cs where cs: "cstring_from (a + 1) s = Some (cs @ [0])" "0 \<notin> set cs" "0x08 \<notin> set cs"
    using Suc.IH [of "a + 1"] by blast
  have a: "rd8 s a \<noteq> 0" "rd8 s a \<noteq> 0x08" using Suc.prems(2) [rule_format, of 0] by simp_all
  then have "cstring_from a s = Some ((rd8 s a # cs) @ [0])" using cs(1) by (subst cstring_from.simps) simp
  then show ?case using a cs by (metis set_ConsD)
qed

lemma string_ok_printed:
  assumes "printed P s t" and "string_ok P s a n"
  shows "\<exists>cs. cstring_from a t = Some (cs @ [0]) \<and> 0 \<notin> set cs \<and> 0x08 \<notin> set cs"
proof -
  have "rd8 t (a + of_nat k) = rd8 s (a + of_nat k)" if "k < n + 1" for k
    using that assms printed_mmu [OF assms(1)]
    unfolding rd8_def printed_def console_frame_def string_ok_def off_screen_def by metis
  then show ?thesis using cstring_from_ok [of t a n] assms(2) by (simp add: string_ok_def)
qed

lemma when_flag_ok:
  assumes "printed P s t" and "CHECK_FLAG (mbi_flags mbi t) b \<Longrightarrow> \<exists>u. f t = Some u \<and> printed P s u"
  shows "\<exists>u. when_flag b mbi f t = Some u \<and> printed P s u"
  using assms by (auto simp: when_flag_def)

lemma print_header_ok:
  assumes "boot_screen_ok P s" and "mbi_ok P mbi s"
    and "CHECK_FLAG (mbi_flags mbi s) 2 \<Longrightarrow> string_ok P s (mbi_cmdline mbi s) n"
  shows "\<exists>u. print_header junk mbi s = Some u \<and> printed P s u"
proof -
  let ?f0 = "\<lambda>s. print_line junk (''mem_lower = %uKB, mem_upper = %uKB'' @ nl)
      [Int_arg (mbi_mem_lower mbi s), Int_arg (mbi_mem_upper mbi s)] s"
  let ?f1 = "\<lambda>s. print_line junk (''boot_device = 0x%#x'' @ nl) [Int_arg (mbi_boot_device mbi s)] s"
  let ?f2 = "\<lambda>s. do { cs \<leftarrow> cstring_from (mbi_cmdline mbi s) s; print_line junk (''cmdline = %s'' @ nl) [Str_arg cs] s }"
  obtain t where t: "print_line junk (''flags = 0x%#x'' @ nl) [Int_arg (mbi_flags mbi s)] s = Some t" "printed P s t"
    using print_line_ok [OF assms(1), of "''flags = 0x%#x'' @ nl" "[Int_arg (mbi_flags mbi s)]" junk] by (auto simp: nl_def)
  obtain t0 where t0: "when_flag 0 mbi ?f0 t = Some t0" "printed P s t0"
    using when_flag_ok [OF t(2), of mbi 0 ?f0] print_line_next [OF t(2)] by (auto simp: nl_def)
  obtain t1 where t1: "when_flag 1 mbi ?f1 t0 = Some t1" "printed P s t1"
    using when_flag_ok [OF t0(2), of mbi 1 ?f1] print_line_next [OF t0(2)] by (auto simp: nl_def)
  have "\<exists>u. ?f2 t1 = Some u \<and> printed P s u" if "CHECK_FLAG (mbi_flags mbi t1) 2"
  proof -
    have "string_ok P s (mbi_cmdline mbi t1) n"
      using that assms(3) by (simp add: mbi_same [OF t1(2) assms(2)])
    then obtain cs where cs: "cstring_from (mbi_cmdline mbi t1) t1 = Some (cs @ [0])" "0x08 \<notin> set cs"
      using string_ok_printed [OF t1(2)] by blast
    have "0x08 \<notin> set (takeWhile (\<lambda>c. c \<noteq> 0) (cs @ [0]))" using cs(2) by (auto dest: set_takeWhileD)
    then show ?thesis
      using cs(1) print_line_next [OF t1(2), of "''cmdline = %s'' @ nl" "[Str_arg (cs @ [0])]" junk] by (simp add: nl_def)
  qed
  then obtain u where "when_flag 2 mbi ?f2 t1 = Some u" "printed P s u"
    using when_flag_ok [OF t1(2), of mbi 2 ?f2] by auto
  then show ?thesis using t(1) t0(1) t1(1) by (simp add: print_header_def)
qed

lemma print_rest_ok:
  assumes "printed P s t" and "mbi_ok P mbi s"
    and "CHECK_FLAG (mbi_flags mbi s) 6 \<Longrightarrow>
      mmap_chain P s (mbi_mmap_addr mbi s + mbi_mmap_length mbi s) (mbi_mmap_addr mbi s)"
  shows "\<exists>u. print_rest junk mbi t = Some u \<and> printed P s u"
proof -
  let ?e = "mbi_elf_sec mbi"
  let ?f5 = "\<lambda>s. let elf_sec = ?e in print_line junk (''elf_sec: num = %u, size = 0x%#x, addr = 0x%#x, shndx = 0x%#x'' @ nl)
      [Int_arg (rd32 s elf_sec), Int_arg (rd32 s (elf_sec + 4)), Int_arg (rd32 s (elf_sec + 8)), Int_arg (rd32 s (elf_sec + 12))] s"
  let ?f6 = "\<lambda>s. do { s \<leftarrow> print_line junk (''mmap_addr = 0x%#x, mmap_length = 0x%x'' @ nl)
      [Int_arg (mbi_mmap_addr mbi s), Int_arg (mbi_mmap_length mbi s)] s; mmap_loop junk mbi (mbi_mmap_addr mbi s) s }"
  obtain t5 where t5: "when_flag 5 mbi ?f5 t = Some t5" "printed P s t5"
    using when_flag_ok [OF assms(1), of mbi 5 ?f5] print_line_next [OF assms(1)] by (auto simp: nl_def Let_def)
  have "\<exists>u. ?f6 t5 = Some u \<and> printed P s u" if "CHECK_FLAG (mbi_flags mbi t5) 6"
  proof -
    let ?as = "[Int_arg (mbi_mmap_addr mbi t5), Int_arg (mbi_mmap_length mbi t5)]"
    obtain v where v: "print_line junk (''mmap_addr = 0x%#x, mmap_length = 0x%x'' @ nl) ?as t5 = Some v" "printed P s v"
      using print_line_next [OF t5(2), of "''mmap_addr = 0x%#x, mmap_length = 0x%x'' @ nl" ?as junk] by (auto simp: nl_def)
    have "mmap_chain P s (mbi_mmap_addr mbi s + mbi_mmap_length mbi s) (mbi_mmap_addr mbi v)"
      using that assms(3) by (simp add: mbi_same [OF t5(2) assms(2)] mbi_same [OF v(2) assms(2)])
    then show ?thesis using mmap_loop_ok [OF _ assms(2) v(2)] v(1) by simp
  qed
  then obtain u where "when_flag 6 mbi ?f6 t5 = Some u" "printed P s u"
    using when_flag_ok [OF t5(2), of mbi 6 ?f6] by auto
  then show ?thesis using t5(1) by (simp add: print_rest_def)
qed

text \<open>What the boot loader leaves in memory, with a command line of \<open>n\<close> characters.\<close>

definition boot_info_ok :: "u32 \<Rightarrow> u32 \<Rightarrow> nat \<Rightarrow> kstate \<Rightarrow> bool" where
  "boot_info_ok P mbi n s \<longleftrightarrow> mbi_ok P mbi s
     \<and> (CHECK_FLAG (mbi_flags mbi s) 2 \<longrightarrow> string_ok P s (mbi_cmdline mbi s) n)
     \<and> (CHECK_FLAG (mbi_flags mbi s) 3 \<longrightarrow> mods_ok P mbi s)
     \<and> (CHECK_FLAG (mbi_flags mbi s) 6 \<longrightarrow>
          mmap_chain P s (mbi_mmap_addr mbi s + mbi_mmap_length mbi s) (mbi_mmap_addr mbi s))"

definition boot_image :: "u32 \<Rightarrow> u32 \<Rightarrow> kstate \<Rightarrow> u32" where
  "boot_image mbi img s = (if CHECK_FLAG (mbi_flags mbi s) 3 then last_module mbi img s else img)"

text \<open>The structures are the same after something was printed.\<close>

lemma mmap_chain_printed:
  assumes "mmap_chain P s e a" and "printed P s t"
  shows "mmap_chain P t e a"
  using assms(1)
proof induction
  case (chain_entry a)
  then show ?case
    using rd32_printed [OF assms(2) chain_entry(2)] printed_off_screen [OF assms(2)] by (metis mmap_chain.chain_entry)
qed (rule chain_end)

lemma rd8_printed:
  assumes "printed P s t" and "off_screen P s a n" and "k < n"
  shows "rd8 t (a + of_nat k) = rd8 s (a + of_nat k)"
  using assms(2,3) printed_mmu [OF assms(1)] assms(1)
  unfolding rd8_def printed_def console_frame_def off_screen_def by metis

lemma string_ok_same: "string_ok P s a n \<Longrightarrow> printed P s t \<Longrightarrow> string_ok P t a n"
  using rd8_printed [of P s t a "n + 1"] by (simp add: string_ok_def printed_off_screen)

lemma boot_info_same:
  assumes "boot_info_ok P mbi n s" and "printed P s t"
  shows "boot_info_ok P mbi n t" "boot_image mbi img t = boot_image mbi img s" "mbi_flags mbi t = mbi_flags mbi s"
proof -
  have mbi: "mbi_ok P mbi s" using assms(1) by (simp add: boot_info_ok_def)
  note m = mbi_same [OF assms(2) mbi]
  show "mbi_flags mbi t = mbi_flags mbi s" by (rule m(1))
  show "boot_info_ok P mbi n t"
    using assms(1) string_ok_same [OF _ assms(2)] mmap_chain_printed [OF _ assms(2)]
    by (simp add: boot_info_ok_def mbi_ok_def mods_ok_def m printed_off_screen [OF assms(2)])
  let ?c = "mbi_mods_count mbi s"
  have "mod_start (mbi_mods_addr mbi s + 16 * (?c - 1)) t = mod_start (mbi_mods_addr mbi s + 16 * (?c - 1)) s"
    if "mods_ok P mbi s" "?c \<noteq> 0"
  proof -
    have "0 < unat ?c" using that(2) by (simp add: unat_gt_0)
    then have c: "unat ?c = (unat ?c - 1) + 1" by simp
    have "off_screen P s (mbi_mods_addr mbi s + of_nat (16 * (unat ?c - 1))) 4"
      using that(1) c by (intro off_screen_part [of P s _ "16 * unat ?c"]) (simp_all add: mods_ok_def)
    moreover have "of_nat (16 * (unat ?c - 1)) = 16 * (?c - 1)"
      using \<open>0 < unat ?c\<close> by (simp add: of_nat_diff Suc_le_eq)
    ultimately show ?thesis using rd32_printed [OF assms(2)] by (simp only: mod_start_def)
  qed
  then show "boot_image mbi img t = boot_image mbi img s"
    using assms(1) by (simp add: boot_image_def last_module_def m boot_info_ok_def)
qed

lemma print_boot_info_ok:
  assumes "boot_screen_ok P s" and "boot_info_ok P mbi n s"
  shows "\<exists>s'. print_boot_info junk mbi img s =
      Some (\<not> (CHECK_FLAG (mbi_flags mbi s) 4 \<and> CHECK_FLAG (mbi_flags mbi s) 5), boot_image mbi img s, s')
    \<and> printed P s s'"
proof -
  have mbi: "mbi_ok P mbi s" using assms(2) by (simp add: boot_info_ok_def)
  obtain t where t: "print_header junk mbi s = Some t" "printed P s t"
    using print_header_ok [OF assms(1) mbi] assms(2) unfolding boot_info_ok_def by blast
  define mods where "mods = (if CHECK_FLAG (mbi_flags mbi t) 3
      then mods_loop junk mbi 0 (mbi_mods_addr mbi t) img t else Some (img, t))"
  obtain u where u: "mods = Some (boot_image mbi img s, u)" "printed P s u"
  proof (cases "CHECK_FLAG (mbi_flags mbi s) 3")
    case True
    then have "mods_ok P mbi s" using assms(2) by (simp add: boot_info_ok_def)
    from mods_loop_ok [OF t(2) mbi _ this, of 0 img img junk] True that show ?thesis
      by (auto simp: mods_def boot_image_def mbi_same [OF t(2) mbi])
  qed (use t(2) that in \<open>simp add: mods_def boot_image_def mbi_same [OF t(2) mbi]\<close>)
  obtain v where v: "print_line junk (''Both bits 4 and 5 are set.'' @ nl) [] u = Some v" "printed P s v"
    using print_line_next [OF u(2), of "''Both bits 4 and 5 are set.'' @ nl" "[]" junk] by (auto simp: nl_def)
  obtain w where w: "print_rest junk mbi u = Some w" "printed P s w"
    using print_rest_ok [OF u(2) mbi] assms(2) unfolding boot_info_ok_def by blast
  have "print_boot_info junk mbi img s = (case mods of None \<Rightarrow> None | Some (img, s) \<Rightarrow>
      if CHECK_FLAG (mbi_flags mbi s) 4 \<and> CHECK_FLAG (mbi_flags mbi s) 5
      then do { s \<leftarrow> print_line junk (''Both bits 4 and 5 are set.'' @ nl) [] s; Some (False, img, s) }
      else do { s \<leftarrow> print_rest junk mbi s; Some (True, img, s) })"
    by (simp add: print_boot_info_def t(1) mods_def [symmetric] split: option.split)
  then show ?thesis
    using u(1) v w by (auto simp: mbi_same [OF u(2) mbi])
qed

text \<open>C38. Printing what the boot loader passes ends, for every number of modules and every memory map whose
  sizes lead to its end, when the structures are not on the screen: the kernel goes on unless the flags
  4 and 5 are both set, the file system image is the start of the last module, and nothing but the
  screen and the cursor has changed.\<close>

theorem boot_info_printed:
  assumes "boot_screen_ok P s" and "boot_info_ok P mbi n s"
  shows "\<exists>s'. print_boot_info junk mbi img s =
      Some (\<not> (CHECK_FLAG (mbi_flags mbi s) 4 \<and> CHECK_FLAG (mbi_flags mbi s) 5),
        if CHECK_FLAG (mbi_flags mbi s) 3 \<and> mbi_mods_count mbi s \<noteq> 0
        then mod_start (mbi_mods_addr mbi s + 16 * (mbi_mods_count mbi s - 1)) s else img, s')
    \<and> boot_screen_ok P s' \<and> console_frame P s s'"
  using print_boot_info_ok [OF assms, of junk img] by (auto simp: boot_image_def last_module_def printed_def)

subsection \<open>A boot loader\<close>

text \<open>One module at 2 MB and a memory map of one entry.\<close>

definition sample_info :: "u32 \<Rightarrow> u8" where
  "sample_info a =
     (if a = 0x10000 then 0x48 else if a = 0x10014 then 1 else if a = 0x10019 then 1 else if a = 0x1001A then 1
      else if a = 0x1002C then 24 else if a = 0x10031 then 2 else if a = 0x10032 then 1
      else if a = 0x10102 then 0x20 else if a = 0x10200 then 20 else 0)"

definition sample_boot :: kstate where
  "sample_boot = sample_kernel\<lparr>mem := sample_info, scheduling_started := 0, pid_availability := replicate NUM_PROCESSES AVAILABLE\<rparr>"

lemma off_screen_below:
  assumes "\<And>x. mmu s x = x" and "unat a + n \<le> 0xB8000"
  shows "off_screen 0xB8000 s a n"
  unfolding off_screen_def assms(1)
proof (intro allI impI)
  fix k assume "k < n"
  then have "unat (a + of_nat k) = unat a + k" using assms(2) by (intro unat_offset) simp
  then have u: "unat (a + of_nat k) < 0xB8000" using \<open>k < n\<close> assms(2) by simp
  then have "unat (a + of_nat k - 0xB8000) = 2 ^ 32 - 0xB8000 + unat (a + of_nat k)"
    by (simp add: unat_sub_if')
  then show "\<not> within (a + of_nat k) 0xB8000 4000" by (simp add: within_def)
qed

lemma sample_boot_screen: "boot_screen_ok 0xB8000 sample_boot"
  by (simp add: boot_screen_ok_def sample_boot_def linear_def df_clear_def task_view_def view_of_def scr_ok_def IF_MASK_def DF_MASK_def)

lemma sample_boot_fields:
  "mbi_flags 0x10000 sample_boot = 0x48" "mbi_mods_count 0x10000 sample_boot = 1" "mbi_mods_addr 0x10000 sample_boot = 0x10100"
  "mbi_mmap_addr 0x10000 sample_boot = 0x10200" "mbi_mmap_length 0x10000 sample_boot = 24"
  "mod_start 0x10100 sample_boot = 0x200000" "rd32 sample_boot 0x10200 = 20" "mmu sample_boot x = x"
proof -
  have m: "mmu sample_boot a = a" "mem sample_boot a = sample_info a" for a by (simp_all add: sample_boot_def)
  then show "mmu sample_boot x = x" by simp
  have r: "rd32 sample_boot a = ucast (sample_info a) OR push_bit 8 (ucast (sample_info (a + 1)))
      OR push_bit 16 (ucast (sample_info (a + 2))) OR push_bit 24 (ucast (sample_info (a + 3)))" for a
    by (simp only: rd32_def rd8_def m)
  show "mbi_flags 0x10000 sample_boot = 0x48" "mbi_mods_count 0x10000 sample_boot = 1" "mbi_mods_addr 0x10000 sample_boot = 0x10100"
    "mbi_mmap_addr 0x10000 sample_boot = 0x10200" "mbi_mmap_length 0x10000 sample_boot = 24"
    "mod_start 0x10100 sample_boot = 0x200000" "rd32 sample_boot 0x10200 = 20"
    unfolding mbi_flags_def mbi_mods_count_def mbi_mods_addr_def mbi_mmap_addr_def mbi_mmap_length_def mod_start_def r
    by code_simp+
qed

lemma sample_boot_info: "boot_info_ok 0xB8000 0x10000 0 sample_boot"
proof -
  note off = off_screen_below [of sample_boot, OF sample_boot_fields(8)]
  have "mmap_chain 0xB8000 sample_boot (0x10200 + 24) 0x10218" by (rule chain_end) simp
  then have "mmap_chain 0xB8000 sample_boot (0x10200 + 24) 0x10200"
    by - (rule chain_entry, simp_all add: off sample_boot_fields(7))
  then show ?thesis
    by (simp add: boot_info_ok_def mbi_ok_def mods_ok_def off sample_boot_fields(1-5) CHECK_FLAG_def)
qed

theorem boot_info_printed_witness:
  "\<exists>s'. print_boot_info 0 0x10000 0 sample_boot = Some (True, 0x200000, s') \<and> console_frame 0xB8000 sample_boot s'"
  using boot_info_printed [OF sample_boot_screen sample_boot_info, of 0 0]
  by (simp add: sample_boot_fields(1-3,6) CHECK_FLAG_def) blast

end
