(* ===== verification/Descriptors.thy ===== *)
theory Descriptors
  imports Tmnt_Prelude
begin

text \<open>
  The descriptors of the x86 tables: \<^verbatim>\<open>student-distrib/x86_desc.h\<close> and the constant entries
  of \<^verbatim>\<open>x86_desc.S\<close>. The bit fields are words of their width; \<open>seg_val\<close> and \<open>idt_val\<close> are
  the two 32-bit words of the unions. What the processor takes from the words, by the IA-32 manual, is
  \<open>seg_base\<close>, \<open>seg_limit\<close>, \<open>seg_access\<close> and \<open>gate_offset\<close>.
\<close>

abbreviation KERNEL_CS :: u16 where "KERNEL_CS \<equiv> 0x0010"
abbreviation KERNEL_DS :: u16 where "KERNEL_DS \<equiv> 0x0018"
abbreviation KERNEL_TSS :: u16 where "KERNEL_TSS \<equiv> 0x0030"
abbreviation KERNEL_LDT :: u16 where "KERNEL_LDT \<equiv> 0x0038"

definition TSS_SIZE :: u32 where "TSS_SIZE = 104"
definition NUM_VEC :: nat where "NUM_VEC = 256"

subsection \<open>Segment descriptors\<close>

record seg_desc =
  seg_lim_15_00 :: u16
  base_15_00 :: u16
  base_23_16 :: u8
  seg_type :: "4 word"
  sys :: "1 word"
  dpl :: "2 word"
  present :: "1 word"
  seg_lim_19_16 :: "4 word"
  avail :: "1 word"
  reserved :: "1 word"
  opsize :: "1 word"
  granularity :: "1 word"
  base_31_24 :: u8

definition seg_val :: "seg_desc \<Rightarrow> u32 \<times> u32" where
  "seg_val d =
     (ucast (seg_lim_15_00 d) OR push_bit 16 (ucast (base_15_00 d)),
      ucast (base_23_16 d) OR push_bit 8 (ucast (seg_type d)) OR push_bit 12 (ucast (sys d))
        OR push_bit 13 (ucast (dpl d)) OR push_bit 15 (ucast (present d)) OR push_bit 16 (ucast (seg_lim_19_16 d))
        OR push_bit 20 (ucast (avail d)) OR push_bit 21 (ucast (reserved d)) OR push_bit 22 (ucast (opsize d))
        OR push_bit 23 (ucast (granularity d)) OR push_bit 24 (ucast (base_31_24 d)))"

definition SET_LDT_PARAMS :: "u32 \<Rightarrow> u32 \<Rightarrow> seg_desc \<Rightarrow> seg_desc" where
  "SET_LDT_PARAMS addr lim str = str\<lparr>
     base_31_24 := ucast (drop_bit 24 (addr AND 0xFF000000)),
     base_23_16 := ucast (drop_bit 16 (addr AND 0x00FF0000)),
     base_15_00 := ucast (addr AND 0x0000FFFF),
     seg_lim_19_16 := ucast (drop_bit 16 (lim AND 0x000F0000)),
     seg_lim_15_00 := ucast (lim AND 0x0000FFFF)\<rparr>"

definition SET_TSS_PARAMS :: "u32 \<Rightarrow> u32 \<Rightarrow> seg_desc \<Rightarrow> seg_desc" where
  "SET_TSS_PARAMS addr lim str = str\<lparr>
     base_31_24 := ucast (drop_bit 24 (addr AND 0xFF000000)),
     base_23_16 := ucast (drop_bit 16 (addr AND 0x00FF0000)),
     base_15_00 := ucast (addr AND 0x0000FFFF),
     seg_lim_19_16 := ucast (drop_bit 16 (lim AND 0x000F0000)),
     seg_lim_15_00 := ucast (lim AND 0x0000FFFF)\<rparr>"

subsection \<open>Interrupt descriptors\<close>

record idt_desc_t =
  offset_15_00 :: u16
  seg_selector :: u16
  reserved4 :: u8
  reserved3 :: "1 word"
  reserved2 :: "1 word"
  reserved1 :: "1 word"
  gate_size :: "1 word"      \<comment> \<open>\<open>size\<close>\<close>
  reserved0 :: "1 word"
  gate_dpl :: "2 word"       \<comment> \<open>\<open>dpl\<close>\<close>
  gate_present :: "1 word"   \<comment> \<open>\<open>present\<close>\<close>
  offset_31_16 :: u16

definition idt_val :: "idt_desc_t \<Rightarrow> u32 \<times> u32" where
  "idt_val d =
     (ucast (offset_15_00 d) OR push_bit 16 (ucast (seg_selector d)),
      ucast (reserved4 d) OR push_bit 8 (ucast (reserved3 d)) OR push_bit 9 (ucast (reserved2 d))
        OR push_bit 10 (ucast (reserved1 d)) OR push_bit 11 (ucast (gate_size d)) OR push_bit 12 (ucast (reserved0 d))
        OR push_bit 13 (ucast (gate_dpl d)) OR push_bit 15 (ucast (gate_present d))
        OR push_bit 16 (ucast (offset_31_16 d)))"

definition SET_IDT_ENTRY :: "u32 \<Rightarrow> idt_desc_t \<Rightarrow> idt_desc_t" where
  "SET_IDT_ENTRY handler str = str\<lparr>
     offset_31_16 := ucast (drop_bit 16 (handler AND 0xFFFF0000)),
     offset_15_00 := ucast (handler AND 0xFFFF)\<rparr>"

subsection \<open>The task state segment\<close>

text \<open>The fields of the packed structure \<open>tss_t\<close> with their sizes in bytes (the two bit fields at the
  end share one half word).\<close>

definition tss_t :: "(string \<times> nat) list" where
  "tss_t =
    [(''prev_task_link'', 2), (''prev_task_link_pad'', 2), (''esp0'', 4), (''ss0'', 2), (''ss0_pad'', 2),
     (''esp1'', 4), (''ss1'', 2), (''ss1_pad'', 2), (''esp2'', 4), (''ss2'', 2), (''ss2_pad'', 2), (''cr3'', 4),
     (''eip'', 4), (''eflags'', 4), (''eax'', 4), (''ecx'', 4), (''edx'', 4), (''ebx'', 4), (''esp'', 4),
     (''ebp'', 4), (''esi'', 4), (''edi'', 4), (''es'', 2), (''es_pad'', 2), (''cs'', 2), (''cs_pad'', 2),
     (''ss'', 2), (''ss_pad'', 2), (''ds'', 2), (''ds_pad'', 2), (''fs'', 2), (''fs_pad'', 2), (''gs'', 2),
     (''gs_pad'', 2), (''ldt_segment_selector'', 2), (''ldt_pad'', 2), (''debug_trap, io_pad'', 2),
     (''io_base_addr'', 2)]"

primrec field_offset :: "(string \<times> nat) list \<Rightarrow> string \<Rightarrow> nat option" where
  "field_offset [] f = None"
| "field_offset (x # xs) f = (if fst x = f then Some 0 else map_option (\<lambda>n. snd x + n) (field_offset xs f))"

text \<open>The layout is the one the processor reads: esp0, ss0, the LDT selector and the I/O base where
  the manual has them, in a segment of \<open>TSS_SIZE\<close> bytes.\<close>

lemma tss_layout:
  "sum_list (map snd tss_t) = unat TSS_SIZE"
  "field_offset tss_t ''esp0'' = Some 4" "field_offset tss_t ''ss0'' = Some 8" "field_offset tss_t ''cr3'' = Some 28"
  "field_offset tss_t ''ldt_segment_selector'' = Some 96" "field_offset tss_t ''io_base_addr'' = Some 102"
  by code_simp+

subsection \<open>The tables at boot\<close>

text \<open>The global descriptor table of \<^verbatim>\<open>x86_desc.S\<close>, each quad word as its two halves. The last two
  entries, \<open>tss_desc_ptr\<close> and \<open>ldt_desc_ptr\<close>, are filled in by \<open>entry\<close>.\<close>

definition gdt_image :: "(u32 \<times> u32) list" where
  "gdt_image = [(0, 0), (0, 0), (0x0000FFFF, 0x00CF9A00), (0x0000FFFF, 0x00CF9200),
     (0x0000FFFF, 0x00CFFA00), (0x0000FFFF, 0x00CFF200), (0, 0), (0, 0)]"

definition tss_size :: u32 where "tss_size = 104 - 1"
definition ldt_size :: u32 where "ldt_size = 4 * 8 - 1"

record tables =
  gdt :: "(u32 \<times> u32) list"
  ldtr :: u16
  task_register :: u16
  tss_ldt_segment_selector :: u16
  tss_ss0 :: u16

text \<open>The two descriptors are local variables; \<open>d\<close> stands for their uninitialised contents.\<close>

definition the_ldt_desc :: "u32 \<Rightarrow> seg_desc \<Rightarrow> seg_desc" where
  "the_ldt_desc ldt d =
     (let d = d\<lparr>granularity := 0, opsize := 1, reserved := 0, avail := 0, present := 1, dpl := 0, sys := 0, seg_type := 2\<rparr>
      in SET_LDT_PARAMS ldt ldt_size d)"

definition the_tss_desc :: "u32 \<Rightarrow> seg_desc \<Rightarrow> seg_desc" where
  "the_tss_desc tss d =
     (let d = d\<lparr>granularity := 0, opsize := 0, reserved := 0, avail := 0,
            seg_lim_19_16 := ucast (TSS_SIZE AND 0x000F0000), present := 1, dpl := 0, sys := 0, seg_type := 9,
            seg_lim_15_00 := ucast (TSS_SIZE AND 0x0000FFFF)\<rparr>
      in SET_TSS_PARAMS tss tss_size d)"

definition set_tables :: "u32 \<Rightarrow> u32 \<Rightarrow> seg_desc \<Rightarrow> seg_desc \<Rightarrow> tables \<Rightarrow> tables" where
  "set_tables ldt tss d d' T =
     (let T = T\<lparr>gdt := (gdt T)[7 := seg_val (the_ldt_desc ldt d)]\<rparr>;
          T = T\<lparr>ldtr := KERNEL_LDT\<rparr>;
          T = T\<lparr>gdt := (gdt T)[6 := seg_val (the_tss_desc tss d')]\<rparr>;
          T = T\<lparr>tss_ldt_segment_selector := KERNEL_LDT, tss_ss0 := KERNEL_DS\<rparr>
      in T\<lparr>task_register := KERNEL_TSS\<rparr>)"

subsection \<open>The processor's view\<close>

definition seg_base :: "u32 \<times> u32 \<Rightarrow> u32" where
  "seg_base v = drop_bit 16 (fst v) OR push_bit 16 (snd v AND 0xFF) OR (snd v AND 0xFF000000)"

definition seg_limit :: "u32 \<times> u32 \<Rightarrow> u32" where
  "seg_limit v = (fst v AND 0xFFFF) OR (snd v AND 0xF0000)"

text \<open>The bits between: present, privilege level, system bit and type; then granularity and size.\<close>

definition seg_access :: "u32 \<times> u32 \<Rightarrow> u32" where
  "seg_access v = drop_bit 8 (snd v) AND 0xFF"

definition seg_flags :: "u32 \<times> u32 \<Rightarrow> u32" where
  "seg_flags v = drop_bit 20 (snd v) AND 0xF"

definition gate_offset :: "u32 \<times> u32 \<Rightarrow> u32" where
  "gate_offset v = (fst v AND 0xFFFF) OR (snd v AND 0xFFFF0000)"

lemma word_masks:
  "(0xFF :: u32) = mask 8" "(0xFFFF :: u32) = mask 16" "(0xF :: u32) = mask 4" "(0x000FFFFF :: u32) = mask 20"
  "(0xFF000000 :: u32) = push_bit 24 (mask 8)" "(0xFFFF0000 :: u32) = push_bit 16 (mask 16)"
  "(0x00FF0000 :: u32) = push_bit 16 (mask 8)" "(0x000F0000 :: u32) = push_bit 16 (mask 4)"
  by (simp_all add: mask_eq_exp_minus_1)

lemma bit_masks:
  "bit (0xFF :: u32) n \<longleftrightarrow> n < 8" "bit (0xFFFF :: u32) n \<longleftrightarrow> n < 16" "bit (0xF :: u32) n \<longleftrightarrow> n < 4"
  "bit (0x000FFFFF :: u32) n \<longleftrightarrow> n < 20"
  "bit (0xFF000000 :: u32) n \<longleftrightarrow> 24 \<le> n \<and> n < 32" "bit (0xFFFF0000 :: u32) n \<longleftrightarrow> 16 \<le> n \<and> n < 32"
  "bit (0x00FF0000 :: u32) n \<longleftrightarrow> 16 \<le> n \<and> n < 24" "bit (0x000F0000 :: u32) n \<longleftrightarrow> 16 \<le> n \<and> n < 20"
  unfolding word_masks by (auto simp only: bit_push_bit_iff bit_mask_iff possible_bit_word) simp_all

lemma bit_short:
  "8 \<le> n \<Longrightarrow> \<not> bit (x :: u8) n" "16 \<le> n \<Longrightarrow> \<not> bit (y :: u16) n" "4 \<le> n \<Longrightarrow> \<not> bit (z :: 4 word) n"
  "2 \<le> n \<Longrightarrow> \<not> bit (u :: 2 word) n" "1 \<le> n \<Longrightarrow> \<not> bit (w :: 1 word) n"
  using bit_imp_le_length [of x n] bit_imp_le_length [of y n] bit_imp_le_length [of z n]
    bit_imp_le_length [of u n] bit_imp_le_length [of w n] by auto

text \<open>The bits of the fields in the two words.\<close>

lemma seg_val_bits:
  "n < 16 \<Longrightarrow> bit (fst (seg_val d)) n = bit (seg_lim_15_00 d) n"
  "16 \<le> n \<Longrightarrow> n < 32 \<Longrightarrow> bit (fst (seg_val d)) n = bit (base_15_00 d) (n - 16)"
  "n < 8 \<Longrightarrow> bit (snd (seg_val d)) n = bit (base_23_16 d) n"
  "16 \<le> n \<Longrightarrow> n < 20 \<Longrightarrow> bit (snd (seg_val d)) n = bit (seg_lim_19_16 d) (n - 16)"
  "24 \<le> n \<Longrightarrow> n < 32 \<Longrightarrow> bit (snd (seg_val d)) n = bit (base_31_24 d) (n - 24)"
  "8 \<le> n \<Longrightarrow> n < 12 \<Longrightarrow> bit (snd (seg_val d)) n = bit (seg_type d) (n - 8)"
  "bit (snd (seg_val d)) 12 = bit (sys d) 0"
  "13 \<le> n \<Longrightarrow> n < 15 \<Longrightarrow> bit (snd (seg_val d)) n = bit (dpl d) (n - 13)"
  "bit (snd (seg_val d)) 15 = bit (present d) 0"
  by (auto simp: seg_val_def bit_or_iff bit_push_bit_iff bit_ucast_iff bit_short)

lemma idt_val_bits:
  "n < 16 \<Longrightarrow> bit (fst (idt_val g)) n = bit (offset_15_00 g) n"
  "16 \<le> n \<Longrightarrow> n < 32 \<Longrightarrow> bit (snd (idt_val g)) n = bit (offset_31_16 g) (n - 16)"
  by (auto simp: idt_val_def bit_or_iff bit_push_bit_iff bit_ucast_iff bit_short)

lemma set_params_fields:
  "seg_lim_15_00 (SET_LDT_PARAMS addr lim d) = ucast (lim AND 0x0000FFFF)"
  "base_15_00 (SET_LDT_PARAMS addr lim d) = ucast (addr AND 0x0000FFFF)"
  "base_23_16 (SET_LDT_PARAMS addr lim d) = ucast (drop_bit 16 (addr AND 0x00FF0000))"
  "seg_lim_19_16 (SET_LDT_PARAMS addr lim d) = ucast (drop_bit 16 (lim AND 0x000F0000))"
  "base_31_24 (SET_LDT_PARAMS addr lim d) = ucast (drop_bit 24 (addr AND 0xFF000000))"
  by (simp_all only: SET_LDT_PARAMS_def) simp_all

lemma set_params_bits:
  defines "L addr lim d \<equiv> SET_LDT_PARAMS addr lim d"
  shows "n < 16 \<Longrightarrow> bit (seg_lim_15_00 (L addr lim d)) n = bit lim n"
    "n < 16 \<Longrightarrow> bit (base_15_00 (L addr lim d)) n = bit addr n"
    "n < 8 \<Longrightarrow> bit (base_23_16 (L addr lim d)) n = bit addr (n + 16)"
    "n < 4 \<Longrightarrow> bit (seg_lim_19_16 (L addr lim d)) n = bit lim (n + 16)"
    "n < 8 \<Longrightarrow> bit (base_31_24 (L addr lim d)) n = bit addr (n + 24)"
  unfolding L_def set_params_fields bit_ucast_iff bit_and_iff bit_drop_bit_eq comp_def bit_masks
  by (auto simp: add.commute)

lemma params_base:
  "seg_base (seg_val (SET_LDT_PARAMS addr lim d)) = addr"
proof (rule bit_word_eqI)
  fix n assume "n < LENGTH(32)"
  then consider "n < 16" | "16 \<le> n" "n < 24" | "24 \<le> n" "n < 32" by fastforce
  then show "bit (seg_base (seg_val (SET_LDT_PARAMS addr lim d))) n = bit addr n"
    unfolding seg_base_def bit_or_iff bit_and_iff bit_push_bit_iff bit_drop_bit_eq comp_def bit_masks
    by cases (auto simp: seg_val_bits set_params_bits dest: bit_imp_le_length)
qed

lemma params_limit:
  "seg_limit (seg_val (SET_LDT_PARAMS addr lim d)) = lim AND 0x000FFFFF"
proof (rule bit_word_eqI)
  fix n assume "n < LENGTH(32)"
  then consider "n < 16" | "16 \<le> n" "n < 20" | "20 \<le> n" "n < 32" by fastforce
  then show "bit (seg_limit (seg_val (SET_LDT_PARAMS addr lim d))) n = bit (lim AND 0x000FFFFF) n"
    unfolding seg_limit_def bit_or_iff bit_and_iff bit_masks
    by cases (auto simp: seg_val_bits set_params_bits)
qed

lemma set_idt_fields:
  "offset_15_00 (SET_IDT_ENTRY h g) = ucast (h AND 0xFFFF)"
  "offset_31_16 (SET_IDT_ENTRY h g) = ucast (drop_bit 16 (h AND 0xFFFF0000))"
  by (simp_all only: SET_IDT_ENTRY_def) simp_all

lemma set_idt_bits:
  "n < 16 \<Longrightarrow> bit (offset_15_00 (SET_IDT_ENTRY h g)) n = bit h n"
  "n < 16 \<Longrightarrow> bit (offset_31_16 (SET_IDT_ENTRY h g)) n = bit h (n + 16)"
  unfolding set_idt_fields bit_ucast_iff bit_and_iff bit_drop_bit_eq comp_def bit_masks by (auto simp: add.commute)

text \<open>Both macros set the same fields.\<close>

lemma set_tss_params: "SET_TSS_PARAMS = SET_LDT_PARAMS"
  by (simp add: fun_eq_iff SET_TSS_PARAMS_def SET_LDT_PARAMS_def)

lemma access_fields:
  "seg_access (seg_val d) = ucast (seg_type d) OR push_bit 4 (ucast (sys d)) OR push_bit 5 (ucast (dpl d))
     OR push_bit 7 (ucast (present d))"
proof (rule bit_word_eqI)
  fix n assume "n < LENGTH(32)"
  then consider "n < 4" | "n = 4" | "5 \<le> n" "n < 7" | "n = 7" | "8 \<le> n" "n < 32" by fastforce
  then show "bit (seg_access (seg_val d)) n = bit (ucast (seg_type d) OR push_bit 4 (ucast (sys d))
      OR push_bit 5 (ucast (dpl d)) OR push_bit 7 (ucast (present d)) :: u32) n"
    unfolding seg_access_def bit_and_iff bit_or_iff bit_push_bit_iff bit_drop_bit_eq comp_def bit_masks bit_ucast_iff
    by cases (auto simp: seg_val_bits bit_short)
qed

lemma params_access: "seg_access (seg_val (SET_LDT_PARAMS addr lim d)) = seg_access (seg_val d)"
  by (simp add: access_fields) (simp add: SET_LDT_PARAMS_def)

definition gdt_entry :: "u16 \<Rightarrow> tables \<Rightarrow> u32 \<times> u32" where
  "gdt_entry sel T = gdt T ! (unat sel div 8)"

text \<open>C37. The descriptors \<open>entry\<close> writes are the ones the processor needs: through the selectors of the
  kernel the task register finds an available 32-bit TSS of 104 bytes at the address of \<open>tss\<close>, the LDT
  register a table of 4 entries at the address of \<open>ldt\<close>, whatever the addresses are and whatever was
  in the local variables; the code and data segments of kernel and user cover all 4 GB with privilege
  levels 0 and 3; the TSS names the kernel's stack segment and LDT. An interrupt gate filled by
  \<open>SET_IDT_ENTRY\<close> leads to its handler.\<close>

theorem boot_descriptors:
  fixes ldt tss :: u32 and d d' :: seg_desc and T :: tables
  defines "T' \<equiv> set_tables ldt tss d d' (T\<lparr>gdt := gdt_image\<rparr>)"
  shows "(\<forall>h g. gate_offset (idt_val (SET_IDT_ENTRY h g)) = h)
    \<and> task_register T' = KERNEL_TSS \<and> seg_base (gdt_entry KERNEL_TSS T') = tss \<and> seg_limit (gdt_entry KERNEL_TSS T') = 103
    \<and> seg_access (gdt_entry KERNEL_TSS T') = 0x89
    \<and> ldtr T' = KERNEL_LDT \<and> seg_base (gdt_entry KERNEL_LDT T') = ldt \<and> seg_limit (gdt_entry KERNEL_LDT T') = 31
    \<and> seg_access (gdt_entry KERNEL_LDT T') = 0x82
    \<and> map (\<lambda>sel. (seg_base (gdt_entry sel T'), seg_limit (gdt_entry sel T'), seg_flags (gdt_entry sel T'),
         seg_access (gdt_entry sel T'))) [KERNEL_CS, KERNEL_DS, 0x0023, 0x002B]
       = [(0, 0xFFFFF, 0xC, 0x9A), (0, 0xFFFFF, 0xC, 0x92), (0, 0xFFFFF, 0xC, 0xFA), (0, 0xFFFFF, 0xC, 0xF2)]
    \<and> tss_ldt_segment_selector T' = KERNEL_LDT \<and> tss_ss0 T' = KERNEL_DS"
proof -
  have g: "gate_offset (idt_val (SET_IDT_ENTRY h g)) = h" for h g
  proof (rule bit_word_eqI)
    fix n assume "n < LENGTH(32)"
    then consider "n < 16" | "16 \<le> n" "n < 32" by fastforce
    then show "bit (gate_offset (idt_val (SET_IDT_ENTRY h g))) n = bit h n"
      unfolding gate_offset_def bit_or_iff bit_and_iff bit_masks
      by cases (auto simp: idt_val_bits set_idt_bits)
  qed
  have l: "gdt_entry KERNEL_LDT T' = seg_val (the_ldt_desc ldt d)" "gdt_entry KERNEL_TSS T' = seg_val (the_tss_desc tss d')"
    by (simp_all add: T'_def gdt_entry_def set_tables_def Let_def gdt_image_def)
  have "seg_base (gdt_entry KERNEL_LDT T') = ldt" "seg_limit (gdt_entry KERNEL_LDT T') = 31"
    "seg_base (gdt_entry KERNEL_TSS T') = tss" "seg_limit (gdt_entry KERNEL_TSS T') = 103"
    unfolding l the_ldt_desc_def the_tss_desc_def Let_def set_tss_params params_base params_limit
    by (simp_all add: ldt_size_def tss_size_def)
  moreover have "seg_access (gdt_entry KERNEL_LDT T') = 0x82" "seg_access (gdt_entry KERNEL_TSS T') = 0x89"
    unfolding l the_ldt_desc_def the_tss_desc_def Let_def set_tss_params params_access
    by (simp_all add: access_fields)
  moreover have "map (\<lambda>sel. (seg_base (gdt_entry sel T'), seg_limit (gdt_entry sel T'), seg_flags (gdt_entry sel T'),
         seg_access (gdt_entry sel T'))) [KERNEL_CS, KERNEL_DS, 0x0023, 0x002B]
       = [(0, 0xFFFFF, 0xC, 0x9A), (0, 0xFFFFF, 0xC, 0x92), (0, 0xFFFFF, 0xC, 0xFA), (0, 0xFFFFF, 0xC, 0xF2)]"
    by (simp add: T'_def gdt_entry_def set_tables_def Let_def gdt_image_def seg_base_def seg_limit_def seg_flags_def seg_access_def)
  ultimately show ?thesis using g by (simp add: T'_def set_tables_def Let_def)
qed

end
