(* ===== verification/Mouse.thy ===== *)
theory Mouse
  imports I8259 Printing
begin

text \<open>
  The PS/2 mouse: \<^verbatim>\<open>student-distrib/mouse.c\<close> and \<open>update_cursor_mouse\<close> of
  \<^verbatim>\<open>lib.c\<close>. The interrupt handler is a state machine that collects packets of four bytes; a
  complete packet moves a highlighted cell over the screen of the active terminal. The handler is
  shown to follow an abstract pointer on the 80 by 25 cells for every stream of packets, and the
  set-up to send the documented command sequence.
\<close>

abbreviation MOUSE_PORT :: u16 where "MOUSE_PORT \<equiv> 0x60"
abbreviation MOUSE_CMD :: u16 where "MOUSE_CMD \<equiv> 0x64"
abbreviation TOP_TWO_BIT_MASK :: u8 where "TOP_TWO_BIT_MASK \<equiv> 0xC0"
abbreviation MOUSE_SIGN_X :: u8 where "MOUSE_SIGN_X \<equiv> 0x10"
abbreviation MOUSE_SIGN_Y :: u8 where "MOUSE_SIGN_Y \<equiv> 0x20"
abbreviation MOUSE_BTN_L :: u8 where "MOUSE_BTN_L \<equiv> 0x01"
abbreviation MOUSE_BTN_R :: u8 where "MOUSE_BTN_R \<equiv> 0x02"
abbreviation MOUSE_BTN_M :: u8 where "MOUSE_BTN_M \<equiv> 0x04"

subsection \<open>The pointer on the screen\<close>

definition upd_mouse :: "(mouse \<Rightarrow> mouse) \<Rightarrow> kstate \<Rightarrow> kstate" where
  "upd_mouse f s = s\<lparr>mouse_dev := f (mouse_dev s)\<rparr>"

text \<open>The wait for \<open>mouse_input_status\<close>: its only caller runs inside the interrupt handler, where
  nothing else can clear the variable, so a non-zero status is a loop without end, \<open>None\<close>.\<close>

definition mouse_get_input :: "kstate \<Rightarrow> kstate option" where
  "mouse_get_input s =
     (if mouse_input_status (mouse_dev s) \<noteq> 0 then None
      else Some (upd_mouse (\<lambda>m. m\<lparr>
        mouse_in := \<lparr>in_x = packet_x m, in_y = packet_y m, in_z = packet_z m,
          in_sign_x = (packet_sign_x m \<noteq> 0), in_sign_y = (packet_sign_y m \<noteq> 0),
          in_btn_l = (packet_btn_l m \<noteq> 0), in_btn_m = (packet_btn_m m \<noteq> 0),
          in_btn_r = (packet_btn_r m \<noteq> 0)\<rparr>,
        mouse_input_status := 0xFF\<rparr>) s))"

definition mark_cell :: "u32 \<Rightarrow> u32 \<Rightarrow> u8 \<Rightarrow> 'a machine_scheme \<Rightarrow> 'a machine_scheme" where
  "mark_cell base i v s = wr8 (base + push_bit 1 i + 1) v s"

definition mouse_delta :: "u8 \<Rightarrow> bool \<Rightarrow> u32" where
  "mouse_delta b sign = sdiv32 (ucast b OR (if sign then 0xFFFFFF00 else 0)) 4"

definition clamp_coord :: "u32 \<Rightarrow> u32 \<Rightarrow> u32" where
  "clamp_coord n v = (if slt (n - 1) v then n - 1 else if slt v 0 then 0 else v)"

definition update_cursor_mouse :: "kstate \<Rightarrow> kstate option" where
  "update_cursor_mouse s =
     do { s \<leftarrow> mouse_get_input s;
          let s = mark_cell (video_mem (ACTIVE_TERMINAL s)) (NUM_COLS * mouse_y s + mouse_x s) ATTRIB s;
          let inp = mouse_in (mouse_dev s);
          let s = s\<lparr>mouse_x := mouse_x s + mouse_delta (in_x inp) (in_sign_x inp)\<rparr>;
          let s = s\<lparr>mouse_y := mouse_y s - mouse_delta (in_y inp) (in_sign_y inp)\<rparr>;
          let s = s\<lparr>mouse_x := clamp_coord NUM_COLS (mouse_x s)\<rparr>;
          let s = s\<lparr>mouse_y := clamp_coord NUM_ROWS (mouse_y s)\<rparr>;
          Some (mark_cell (video_mem (ACTIVE_TERMINAL s)) (NUM_COLS * mouse_y s + mouse_x s) ATTRIB_N s) }"

subsection \<open>The interrupt handler\<close>

text \<open>\<open>mouse_packets[i] = inb(MOUSE_PORT)\<close>.\<close>

definition mouse_store :: "hardware \<Rightarrow> nat \<Rightarrow> kstate \<Rightarrow> kstate option" where
  "mouse_store hw i s =
     (let (v, s) = inb hw MOUSE_PORT s
      in do { ps \<leftarrow> aput (mouse_packets (mouse_dev s)) i (ucast v);
              Some (upd_mouse (\<lambda>m. m\<lparr>mouse_packets := ps\<rparr>) s) })"

definition mouse_decode :: "mouse \<Rightarrow> mouse" where
  "mouse_decode m =
     (let p = mouse_packets m
      in m\<lparr>packet_sign_x := p ! 0 AND MOUSE_SIGN_X, packet_sign_y := p ! 0 AND MOUSE_SIGN_Y,
           packet_btn_l := p ! 0 AND MOUSE_BTN_L, packet_btn_m := p ! 0 AND MOUSE_BTN_M,
           packet_btn_r := p ! 0 AND MOUSE_BTN_R, packet_x := p ! 1, packet_y := p ! 2,
           packet_z := p ! 3, mouse_input_status := 0\<rparr>)"

definition mouse_interrupt :: "hardware \<Rightarrow> kstate \<Rightarrow> kstate option" where
  "mouse_interrupt hw s =
     (let cycle = mouse_cycle (mouse_dev s); step = upd_mouse (\<lambda>m. m\<lparr>mouse_cycle := mouse_cycle m + 1\<rparr>)
      in if cycle = 0xFF then Some (step s)
         else if cycle = 0 then do { s \<leftarrow> mouse_store hw 0 s; Some (step s) }
         else if cycle = 1 then do { s \<leftarrow> mouse_store hw 1 s; Some (step s) }
         else if cycle = 2 then do { s \<leftarrow> mouse_store hw 2 s; Some (step s) }
         else if cycle = 3 then
           do { s \<leftarrow> mouse_store hw 3 s;
                s \<leftarrow> (if mouse_packets (mouse_dev s) ! 0 AND TOP_TWO_BIT_MASK = 0
                       then update_cursor_mouse (upd_mouse mouse_decode s) else Some s);
                Some (upd_mouse (\<lambda>m. m\<lparr>mouse_cycle := 0\<rparr>) s) }
         else Some s)"

text \<open>The handler runs once per byte; the port then answers with that byte.\<close>

primrec mouse_bytes :: "u8 list \<Rightarrow> kstate \<Rightarrow> kstate option" where
  "mouse_bytes [] s = Some s"
| "mouse_bytes (b # bs) s = do { s \<leftarrow> mouse_interrupt (\<lambda>h p. b) s; mouse_bytes bs s }"

subsection \<open>Set-up\<close>

text \<open>The polling loop counts \<open>_time_out\<close> down from 100000.\<close>

primrec mouse_poll :: "hardware \<Rightarrow> u8 \<Rightarrow> nat \<Rightarrow> kstate \<Rightarrow> kstate" where
  "mouse_poll hw a_type 0 s = s"
| "mouse_poll hw a_type (Suc time_out) s =
     (let (v, s) = inb hw MOUSE_CMD s
      in if (if a_type = 0 then v AND 1 = 1 else v AND 2 = 0) then s else mouse_poll hw a_type time_out s)"

definition mouse_wait :: "hardware \<Rightarrow> u8 \<Rightarrow> kstate \<Rightarrow> kstate" where
  "mouse_wait hw a_type s = mouse_poll hw a_type 100000 s"

definition mouse_write :: "hardware \<Rightarrow> u8 \<Rightarrow> kstate \<Rightarrow> kstate" where
  "mouse_write hw a_write s =
     (let s = mouse_wait hw 1 s; s = outb 0xD4 MOUSE_CMD s; s = mouse_wait hw 1 s
      in outb a_write MOUSE_PORT s)"

definition mouse_read :: "hardware \<Rightarrow> kstate \<Rightarrow> u8 \<times> kstate" where
  "mouse_read hw s = (let s = mouse_wait hw 0 s; (v, s) = inb hw MOUSE_PORT s in (ucast v, s))"

text \<open>\<open>mouse_write\<close> followed by a \<open>mouse_read\<close> whose result is dropped.\<close>

definition mouse_command :: "hardware \<Rightarrow> u8 \<Rightarrow> kstate \<Rightarrow> kstate" where
  "mouse_command hw v s = snd (mouse_read hw (mouse_write hw v s))"

definition mouse_id_format :: "u8 list" where
  "mouse_id_format = map of_char ''Current MouseID: %x'' @ [0x0A, 0]"

definition mouse_enable :: "hardware \<Rightarrow> kstate \<Rightarrow> kstate" where
  "mouse_enable hw s =
     (let s = mouse_wait hw 1 s; s = outb 0xA8 MOUSE_CMD s;
          s = mouse_wait hw 1 s; s = outb 0x20 MOUSE_CMD s;
          s = mouse_wait hw 0 s;
          (v, s) = inb hw MOUSE_PORT s;
          status = ucast ((v OR 0x02) AND NOT 0x20);
          s = mouse_wait hw 1 s; s = outb 0x60 MOUSE_CMD s;
          s = mouse_wait hw 1 s
      in outb status MOUSE_PORT s)"

text \<open>Defaults, streaming, the sample rates 200, 100, 80 that enable the wheel, the rate 200, the
  request of the identity.\<close>

definition mouse_configure :: "hardware \<Rightarrow> kstate \<Rightarrow> kstate" where
  "mouse_configure hw s =
     fold (mouse_command hw) [0xF6, 0xF4, 0xF3, 0xC8, 0xF3, 0x64, 0xF3, 0x50, 0xF3, 0xC8, 0xF2] s"

definition mouse_init :: "hardware \<Rightarrow> u8 \<Rightarrow> kstate \<Rightarrow> kstate option" where
  "mouse_init hw junk s =
     (let s = mouse_configure hw (mouse_enable hw s);
          (mouse_id, s) = mouse_read hw s
      in do { (_, s) \<leftarrow> printf junk mouse_id_format [Int_arg (ucast mouse_id)] s;
              Some (enable_irq hw 0x0C s) })"

subsection \<open>Signed arithmetic of the pointer\<close>

text \<open>A movement is a 9-bit two's complement number: the sign bit is in the first byte of the packet.
  A quarter of it, rounded towards zero, moves the pointer; the screen's edges stop it.\<close>

definition delta9 :: "u8 \<Rightarrow> bool \<Rightarrow> int" where
  "delta9 b sign = uint b - (if sign then 256 else 0)"

definition clamp :: "nat \<Rightarrow> int \<Rightarrow> nat" where
  "clamp n v = nat (max 0 (min (int n - 1) v))"

lemma sint_word_of_int:
  assumes "- 2147483648 \<le> k" and "k < 2147483648"
  shows "sint (word_of_int k :: u32) = k"
  using assms by (simp add: sint_word_ariths(1) signed_of_int signed_take_bit_int_eq_self)

lemma extended_byte: "(ucast (b :: u8) OR (if sign then 0xFFFFFF00 else 0) :: u32) = word_of_int (delta9 b sign)"
proof -
  have u: "(ucast b :: u32) = word_of_int (uint b)" by (rule ucast_eq)
  have m: "(0xFFFFFF00 :: u32) = NOT (mask 8)" by (simp add: mask_eq_exp_minus_1)
  have "(ucast b :: u32) AND NOT (mask 8) = 0"
    by (rule bit_word_eqI) (auto simp: bit_simps dest: bit_imp_le_length)
  then have "(ucast b :: u32) OR 0xFFFFFF00 = ucast b + 0xFFFFFF00" unfolding m by (rule disjunctive_add_eq_or [symmetric])
  also have "\<dots> = word_of_int (uint b - 256)" unfolding of_int_diff u [symmetric] by simp
  finally show ?thesis by (cases sign) (simp_all only: delta9_def u if_True if_False or.right_neutral diff_zero)
qed

lemma delta9_bounds: "- 256 \<le> delta9 b sign" "delta9 b sign < 256"
proof -
  have "0 \<le> uint b" "uint b < 256" using unsigned_less [of b, where ?'a = int] by simp_all
  then show "- 256 \<le> delta9 b sign" "delta9 b sign < 256" 
    by (cases sign; simp add: delta9_def; linarith)+
qed

lemma sdiv4_bounds: "- 256 \<le> k \<Longrightarrow> k < 256 \<Longrightarrow> - 64 \<le> k sdiv 4 \<and> k sdiv 4 < (64 :: int)"
  by (auto simp: signed_divide_int_def sgn_if)

lemma mouse_delta_eq: "mouse_delta b sign = word_of_int (delta9 b sign sdiv 4)"
  using delta9_bounds [of b sign] by (simp add: mouse_delta_def sdiv32_def extended_byte sint_word_of_int)

lemma clamp_coord_eq:
  assumes "- 2147483648 \<le> k" and "k < 2147483648" and "0 < n" and "n < 2147483648"
  shows "clamp_coord (of_nat n) (word_of_int k) = of_nat (clamp n k)"
proof -
  have n: "sint ((of_nat n :: u32) - 1) = int n - 1"
    using assms sint_word_of_int [of "int n - 1"] by (simp add: of_int_of_nat_eq)
  have k: "sint (word_of_int k :: u32) = k" using assms(1,2) by (rule sint_word_of_int)
  consider "int n - 1 < k" | "k < 0" "k \<le> int n - 1" | "0 \<le> k" "k \<le> int n - 1" by linarith
  then show ?thesis
  proof cases
    case 1 then show ?thesis using assms(3) by (simp add: clamp_coord_def slt_def n k clamp_def of_nat_diff)
  next
    case 2 then show ?thesis by (simp add: clamp_coord_def slt_def n k clamp_def)
  next
    case 3 then show ?thesis by (simp add: clamp_coord_def slt_def n k clamp_def)
  qed
qed

subsection \<open>Marking cells\<close>

definition mark :: "nat \<Rightarrow> u8 \<Rightarrow> (u8 \<times> u8) list \<Rightarrow> (u8 \<times> u8) list" where
  "mark i v cs = cs[i := (fst (cs ! i), v)]"

lemma map_mark: "i < length cs \<Longrightarrow> map fst (mark i v cs) = map fst cs"
  "map snd (mark i v cs) = (map snd cs)[i := v]" "length (mark i v cs) = length cs"
  by (simp_all add: mark_def map_update list_update_same_conv)

lemma mark_cell_draws:
  assumes "linear s base P 4000" and "i < 2000"
  shows "draws P (mark i v) s (mark_cell base (of_nat i) v s)"
proof (rule drawsI)
  let ?m = "(mem s)(P + of_nat (2 * i + 1) := v)"
  have addr: "base + push_bit 1 (of_nat i) + 1 = base + of_nat (2 * i + 1)"
    by (simp add: push_bit_eq_mult)
  show "mark_cell base (of_nat i) v s = s\<lparr>mem := ?m\<rparr>"
    unfolding mark_cell_def addr using linearD [OF assms(1), of "2 * i + 1"] assms(2)
    by (simp add: wr8_def del: of_nat_add of_nat_mult of_nat_Suc)
  fix j :: nat assume j: "j < 2000"
  have ne: "2 * j \<noteq> 2 * i + 1" by presburger
  show "(?m (P + of_nat (2 * j)), ?m (P + of_nat (2 * j + 1))) = mark i v (screen_cells P (mem s)) ! j"
    using j assms(2) offset_eq_iff [of "2 * j" "2 * i + 1" P] offset_eq_iff [of "2 * j + 1" "2 * i + 1" P] ne
    by (auto simp: mark_def nth_updated nth_screen_cells simp del: of_nat_add of_nat_mult of_nat_Suc)
next
  let ?m = "(mem s)(P + of_nat (2 * i + 1) := v)"
  fix x assume "\<not> within x P 4000"
  then have "x \<noteq> P + of_nat (2 * i + 1)" using assms(2) within_offset0 [of "2 * i + 1" 4000 P] by auto
  then show "?m x = mem s x" by simp
qed (simp add: map_mark)

subsection \<open>The abstract pointer\<close>

text \<open>What a packet does to the pointer: nothing when one of the overflow bits is set.\<close>

definition move_pointer :: "u8 \<times> u8 \<times> u8 \<times> u8 \<Rightarrow> nat \<times> nat \<Rightarrow> nat \<times> nat" where
  "move_pointer = (\<lambda>(flags, dx, dy, dz) (x, y).
     if bit flags 6 \<or> bit flags 7 then (x, y)
     else (clamp 80 (int x + delta9 dx (bit flags 4) sdiv 4), clamp 25 (int y - delta9 dy (bit flags 5) sdiv 4)))"

text \<open>The handler on its own variables: the cycle, the packet and the pointer.\<close>

definition spec_byte :: "u8 \<Rightarrow> u8 \<times> u8 list \<times> nat \<times> nat \<Rightarrow> u8 \<times> u8 list \<times> nat \<times> nat" where
  "spec_byte b = (\<lambda>(c, p, q).
     if c = 0xFF then (0, p, q)
     else if c < 3 then (c + 1, p[unat c := b], q)
     else if c = 3 then (0, p[3 := b], move_pointer (p ! 0, p ! 1, p ! 2, b) q)
     else (c, p, q))"

definition mouse_view :: "kstate \<Rightarrow> u8 \<times> u8 list \<times> nat \<times> nat" where
  "mouse_view s = (mouse_cycle (mouse_dev s), mouse_packets (mouse_dev s), unat (mouse_x s), unat (mouse_y s))"

definition pointer_cell :: "kstate \<Rightarrow> nat" where
  "pointer_cell s = 80 * unat (mouse_y s) + unat (mouse_x s)"

definition mouse_inv :: "u32 \<Rightarrow> kstate \<Rightarrow> bool" where
  "mouse_inv P s \<longleftrightarrow> wf_kernel s \<and> linear s (video_mem (ACTIVE_TERMINAL s)) P 4000
     \<and> length (mouse_packets (mouse_dev s)) = 4 \<and> mouse_input_status (mouse_dev s) = 0xFF
     \<and> unat (mouse_x s) < 80 \<and> unat (mouse_y s) < 25"

text \<open>The cell under the pointer is the only one in reverse video.\<close>

definition highlighted :: "u32 \<Rightarrow> kstate \<Rightarrow> bool" where
  "highlighted P s \<longleftrightarrow>
     map snd (screen_cells P (mem s)) = (replicate 2000 ATTRIB)[pointer_cell s := ATTRIB_N]"

definition mouse_frame :: "u32 \<Rightarrow> kstate \<Rightarrow> kstate \<Rightarrow> bool" where
  "mouse_frame P s s' \<longleftrightarrow>
     s' = s\<lparr>mem := mem s', io := io s', mouse_x := mouse_x s', mouse_y := mouse_y s', mouse_dev := mouse_dev s'\<rparr>
     \<and> map fst (screen_cells P (mem s')) = map fst (screen_cells P (mem s))
     \<and> (\<forall>x. \<not> within x P 4000 \<longrightarrow> mem s' x = mem s x)"

lemma clamp_less: "0 < n \<Longrightarrow> clamp n k < n"
  by (auto simp: clamp_def)

lemma and_bits: "(b :: u8) AND MOUSE_SIGN_X \<noteq> 0 \<longleftrightarrow> bit b 4" "b AND MOUSE_SIGN_Y \<noteq> 0 \<longleftrightarrow> bit b 5"
  "b AND TOP_TWO_BIT_MASK = 0 \<longleftrightarrow> \<not> (bit b 6 \<or> bit b 7)"
proof -
  have e: "(0x10 :: u8) = 2 ^ 4" "(0x20 :: u8) = 2 ^ 5" "(0xC0 :: u8) = 2 ^ 6 OR 2 ^ 7" by simp_all
  show "b AND MOUSE_SIGN_X \<noteq> 0 \<longleftrightarrow> bit b 4" "b AND MOUSE_SIGN_Y \<noteq> 0 \<longleftrightarrow> bit b 5"
    "b AND TOP_TWO_BIT_MASK = 0 \<longleftrightarrow> \<not> (bit b 6 \<or> bit b 7)"
    unfolding e by (simp_all only: and_exp_eq_0_iff_not_bit bit.conj_disj_distrib or_eq_0_iff) auto
qed

subsection \<open>The handler follows the abstract pointer\<close>

lemma upd_mouse_fields [simp]:
  "mem (upd_mouse f s) = mem s" "mmu (upd_mouse f s) = mmu s" "io (upd_mouse f s) = io s"
  "mouse_x (upd_mouse f s) = mouse_x s" "mouse_y (upd_mouse f s) = mouse_y s"
  "mouse_dev (upd_mouse f s) = f (mouse_dev s)" "ACTIVE_TERMINAL (upd_mouse f s) = ACTIVE_TERMINAL s"
  "wf_kernel (upd_mouse f s) = wf_kernel s" "linear (upd_mouse f s) a q n = linear s a q n"
  by (simp_all add: upd_mouse_def ACTIVE_TERMINAL_def wf_kernel_def linear_def)

lemma mouse_frame_refl: "mouse_frame P s s"
  by (simp add: mouse_frame_def)

lemma mouse_frame_trans:
  assumes "mouse_frame P s t" and "mouse_frame P t u"
  shows "mouse_frame P s u"
proof -
  have "u = t\<lparr>mem := mem u, io := io u, mouse_x := mouse_x u, mouse_y := mouse_y u, mouse_dev := mouse_dev u\<rparr>"
    "t = s\<lparr>mem := mem t, io := io t, mouse_x := mouse_x t, mouse_y := mouse_y t, mouse_dev := mouse_dev t\<rparr>"
    using assms by (simp_all add: mouse_frame_def)
  then have "u = s\<lparr>mem := mem t, io := io t, mouse_x := mouse_x t, mouse_y := mouse_y t, mouse_dev := mouse_dev t\<rparr>
      \<lparr>mem := mem u, io := io u, mouse_x := mouse_x u, mouse_y := mouse_y u, mouse_dev := mouse_dev u\<rparr>" by simp
  then have "u = s\<lparr>mem := mem u, io := io u, mouse_x := mouse_x u, mouse_y := mouse_y u, mouse_dev := mouse_dev u\<rparr>" by simp
  then show ?thesis using assms by (simp add: mouse_frame_def)
qed

lemma mouse_frame_inv:
  assumes "mouse_frame P s s'"
  shows "wf_kernel s' = wf_kernel s" "ACTIVE_TERMINAL s' = ACTIVE_TERMINAL s" "linear s' a q n = linear s a q n"
proof -
  have s': "s' = s\<lparr>mem := mem s', io := io s', mouse_x := mouse_x s', mouse_y := mouse_y s', mouse_dev := mouse_dev s'\<rparr>"
    using assms by (simp add: mouse_frame_def)
  show "wf_kernel s' = wf_kernel s" "ACTIVE_TERMINAL s' = ACTIVE_TERMINAL s" "linear s' a q n = linear s a q n"
    by (subst s', simp add: wf_kernel_def ACTIVE_TERMINAL_def linear_def)+
qed

lemma clamp_screen:
  assumes "- 1000 \<le> k" and "k \<le> 1000"
  shows "clamp_coord NUM_COLS (word_of_int k) = of_nat (clamp 80 k)"
    and "clamp_coord NUM_ROWS (word_of_int k) = of_nat (clamp 25 k)"
  using clamp_coord_eq [of k 80] clamp_coord_eq [of k 25] assms by simp_all

lemma moved_coordinates:
  assumes "unat x < 80" and "unat y < 25"
  shows "clamp_coord NUM_COLS (x + mouse_delta b i) = of_nat (clamp 80 (int (unat x) + delta9 b i sdiv 4))"
    and "clamp_coord NUM_ROWS (y - mouse_delta b i) = of_nat (clamp 25 (int (unat y) - delta9 b i sdiv 4))"
proof -
  have d: "- 64 \<le> delta9 b i sdiv 4" "delta9 b i sdiv 4 < 64"
    using sdiv4_bounds [OF delta9_bounds] by simp_all
  have w: "x + mouse_delta b i = word_of_int (int (unat x) + delta9 b i sdiv 4)"
    "y - mouse_delta b i = word_of_int (int (unat y) - delta9 b i sdiv 4)"
    by (simp_all add: mouse_delta_eq)
  have r: "int (unat x) < 80" "int (unat y) < 25" "0 \<le> int (unat x)" "0 \<le> int (unat y)"
    using assms by linarith+
  show "clamp_coord NUM_COLS (x + mouse_delta b i) = of_nat (clamp 80 (int (unat x) + delta9 b i sdiv 4))"
    unfolding w by (rule clamp_screen; use d r in linarith)
  show "clamp_coord NUM_ROWS (y - mouse_delta b i) = of_nat (clamp 25 (int (unat y) - delta9 b i sdiv 4))"
    unfolding w by (rule clamp_screen; use d r in linarith)
qed

lemma update_cursor_mouse_draws:
  assumes "wf_kernel s" and "linear s (video_mem (ACTIVE_TERMINAL s)) P 4000"
    and "mouse_input_status (mouse_dev s) = 0" and "unat (mouse_x s) < 80" and "unat (mouse_y s) < 25"
  defines "m \<equiv> mouse_dev s"
  defines "x \<equiv> clamp 80 (int (unat (mouse_x s)) + delta9 (packet_x m) (packet_sign_x m \<noteq> 0) sdiv 4)"
    and "y \<equiv> clamp 25 (int (unat (mouse_y s)) - delta9 (packet_y m) (packet_sign_y m \<noteq> 0) sdiv 4)"
  obtains s' m' where "update_cursor_mouse s = Some s'"
    and "draws P (\<lambda>cs. mark (80 * y + x) ATTRIB_N (mark (pointer_cell s) ATTRIB cs))
      (s\<lparr>mouse_dev := m', mouse_x := of_nat x, mouse_y := of_nat y\<rparr>) s'"
    and "mouse_packets m' = mouse_packets m" and "mouse_cycle m' = mouse_cycle m" and "mouse_input_status m' = 0xFF"
proof -
  obtain s1 where s1: "mouse_get_input s = Some s1" and m1: "s1 = s\<lparr>mouse_dev := mouse_dev s1\<rparr>"
    and f: "mouse_packets (mouse_dev s1) = mouse_packets m" "mouse_cycle (mouse_dev s1) = mouse_cycle m"
      "mouse_input_status (mouse_dev s1) = 0xFF"
      "in_x (mouse_in (mouse_dev s1)) = packet_x m" "in_sign_x (mouse_in (mouse_dev s1)) = (packet_sign_x m \<noteq> 0)"
      "in_y (mouse_in (mouse_dev s1)) = packet_y m" "in_sign_y (mouse_in (mouse_dev s1)) = (packet_sign_y m \<noteq> 0)"
    using assms(3) by (simp add: mouse_get_input_def upd_mouse_def m_def)
  have xy: "x < 80" "y < 25" by (simp_all add: x_def y_def clamp_less)
  let ?b = "video_mem (ACTIVE_TERMINAL s)"
  let ?s1 = "s\<lparr>mouse_dev := mouse_dev s1, mouse_x := of_nat x, mouse_y := of_nat y\<rparr>"
  let ?s2 = "mark_cell ?b (of_nat (pointer_cell s)) ATTRIB ?s1"
  let ?s3 = "mark_cell ?b (of_nat (80 * y + x)) ATTRIB_N ?s2"
  have "linear ?s1 ?b P 4000" using assms(2) by (simp add: linear_def)
  then have d: "draws P (mark (pointer_cell s) ATTRIB) ?s1 ?s2"
    using assms(4,5) by (intro mark_cell_draws) (simp_all add: pointer_cell_def)
  moreover have "draws P (mark (80 * y + x) ATTRIB_N) ?s2 ?s3"
    using \<open>linear ?s1 ?b P 4000\<close> xy by (intro mark_cell_draws) (simp_all add: draws_keeps [OF d])
  ultimately have "draws P (\<lambda>cs. mark (80 * y + x) ATTRIB_N (mark (pointer_cell s) ATTRIB cs)) ?s1 ?s3"
    by (rule draws_trans)
  moreover have "update_cursor_mouse s = Some ?s3"
  proof -
    define M where "M = mouse_dev s1"
    have e: "mouse_get_input s = Some (s\<lparr>mouse_dev := M\<rparr>)" using s1 m1 by (simp add: M_def)
    note c = moved_coordinates [OF assms(4,5)]
    show ?thesis
      unfolding update_cursor_mouse_def e M_def [symmetric]
      by (simp add: mark_cell_def wr8_def ACTIVE_TERMINAL_def pointer_cell_def
          f [folded M_def] c x_def y_def)
  qed
  ultimately show ?thesis using that f by blast
qed

text \<open>What every run of the handler promises.\<close>

definition mouse_step_ok :: "u32 \<Rightarrow> u8 \<Rightarrow> kstate \<Rightarrow> kstate \<Rightarrow> bool" where
  "mouse_step_ok P b s s' \<longleftrightarrow> mouse_inv P s' \<and> mouse_frame P s s' \<and> mouse_view s' = spec_byte b (mouse_view s)
     \<and> (highlighted P s \<longrightarrow> highlighted P s')"

lemma mouse_store_eq:
  "mouse_inv P s \<Longrightarrow> i < 4 \<Longrightarrow> mouse_store hw i s = Some
     (s\<lparr>io := In MOUSE_PORT (hw (io s) MOUSE_PORT) # io s,
        mouse_dev := (mouse_dev s)\<lparr>mouse_packets := (mouse_packets (mouse_dev s))[i := hw (io s) MOUSE_PORT]\<rparr>\<rparr>)"
  by (simp add: mouse_store_def inb_def upd_mouse_def mouse_inv_def Let_def byte_round_trip)

text \<open>Steps that only record a byte.\<close>

lemma mouse_quiet:
  assumes "mouse_inv P s" and "length p = 4"
    and "spec_byte b (mouse_view s) = (c, p, unat (mouse_x s), unat (mouse_y s))"
  shows "mouse_step_ok P b s (s\<lparr>io := h, mouse_dev := (mouse_dev s)\<lparr>mouse_packets := p, mouse_cycle := c\<rparr>\<rparr>)"
  using assms by (simp add: mouse_step_ok_def mouse_inv_def mouse_frame_def mouse_view_def highlighted_def
      pointer_cell_def wf_kernel_def ACTIVE_TERMINAL_def linear_def)

lemma highlighted_move:
  assumes "i < 2000"
  shows "(replicate 2000 ATTRIB)[i := ATTRIB_N, i := ATTRIB, j := ATTRIB_N] = (replicate 2000 ATTRIB)[j := ATTRIB_N]"
proof -
  have "(replicate 2000 ATTRIB)[i := ATTRIB] = replicate 2000 ATTRIB"
    using assms by (metis list_update_id nth_replicate)
  then show ?thesis by simp
qed

lemma mouse_packet_step:
  fixes b :: u8 and h :: "io_event list"
  assumes inv: "mouse_inv P s" and c: "mouse_cycle (mouse_dev s) = 3"
    and b0: "\<not> (bit (mouse_packets (mouse_dev s) ! 0) 6 \<or> bit (mouse_packets (mouse_dev s) ! 0) 7)"
  defines "t \<equiv> s\<lparr>io := h, mouse_dev := (mouse_dev s)\<lparr>mouse_packets := (mouse_packets (mouse_dev s))[3 := b]\<rparr>\<rparr>"
  shows "\<exists>s'. update_cursor_mouse (upd_mouse mouse_decode t) = Some s'
    \<and> mouse_step_ok P b s (upd_mouse (\<lambda>m. m\<lparr>mouse_cycle := 0\<rparr>) s')"
proof -
  let ?p = "mouse_packets (mouse_dev s)"
  let ?d = "upd_mouse mouse_decode t"
  let ?q = "move_pointer (?p ! 0, ?p ! 1, ?p ! 2, b) (unat (mouse_x s), unat (mouse_y s))"
  have len: "length ?p = 4" and xy: "unat (mouse_x s) < 80" "unat (mouse_y s) < 25"
    using inv by (simp_all add: mouse_inv_def)
  have "wf_kernel ?d" "linear ?d (video_mem (ACTIVE_TERMINAL ?d)) P 4000" "mouse_input_status (mouse_dev ?d) = 0"
    "unat (mouse_x ?d) < 80" "unat (mouse_y ?d) < 25"
    using inv by (simp_all add: t_def mouse_inv_def wf_kernel_def ACTIVE_TERMINAL_def linear_def mouse_decode_def Let_def
        upd_mouse_def)
  note pre = this
  have dq: "clamp 80 (int (unat (mouse_x ?d)) + delta9 (packet_x (mouse_dev ?d)) (packet_sign_x (mouse_dev ?d) \<noteq> 0) sdiv 4) = fst ?q"
    "clamp 25 (int (unat (mouse_y ?d)) - delta9 (packet_y (mouse_dev ?d)) (packet_sign_y (mouse_dev ?d) \<noteq> 0) sdiv 4) = snd ?q"
    using len b0 by (simp_all add: t_def mouse_decode_def Let_def move_pointer_def and_bits)
  obtain s' m' where u: "update_cursor_mouse ?d = Some s'"
    and d: "draws P (\<lambda>cs. mark (80 * snd ?q + fst ?q) ATTRIB_N (mark (pointer_cell ?d) ATTRIB cs))
      (?d\<lparr>mouse_dev := m', mouse_x := of_nat (fst ?q), mouse_y := of_nat (snd ?q)\<rparr>) s'"
    and "mouse_packets m' = mouse_packets (mouse_dev ?d)" and i': "mouse_input_status m' = 0xFF"
    by (rule update_cursor_mouse_draws [OF pre, unfolded dq])
  then have m': "mouse_packets m' = ?p[3 := b]" by (simp add: t_def mouse_decode_def Let_def)
  have q: "fst ?q < 80" "snd ?q < 25" using b0 by (simp_all add: move_pointer_def clamp_less)
  have s': "s' = s\<lparr>io := h, mouse_dev := m', mouse_x := of_nat (fst ?q), mouse_y := of_nat (snd ?q), mem := mem s'\<rparr>"
    and cells: "screen_cells P (mem s') =
      mark (80 * snd ?q + fst ?q) ATTRIB_N (mark (pointer_cell s) ATTRIB (screen_cells P (mem s)))"
    and out: "\<forall>x. \<not> within x P 4000 \<longrightarrow> mem s' x = mem s x"
    using d by (simp_all add: draws_def t_def upd_mouse_def pointer_cell_def)
  have pos: "unat (mouse_x s') = fst ?q" "unat (mouse_y s') = snd ?q"
    using q by (subst s', simp add: unat_of_nat take_bit_nat_eq_self)+
  have keeps: "mouse_dev s' = m'" "io s' = h" by (subst s', simp)+
  let ?r = "upd_mouse (\<lambda>m. m\<lparr>mouse_cycle := 0\<rparr>) s'"
  have pc: "pointer_cell s < 2000" using xy by (simp add: pointer_cell_def)
  obtain M X Y where explicit: "s' = s\<lparr>io := h, mouse_dev := m', mouse_x := X, mouse_y := Y, mem := M\<rparr>"
    using s' by blast
  have fr: "mouse_frame P s ?r"
    unfolding mouse_frame_def upd_mouse_fields keeps
  proof (intro conjI)
    show "?r = s\<lparr>mem := mem s', io := h, mouse_x := mouse_x s', mouse_y := mouse_y s',
        mouse_dev := m'\<lparr>mouse_cycle := 0\<rparr>\<rparr>"
      by (simp add: explicit upd_mouse_def)
    show "map fst (screen_cells P (mem s')) = map fst (screen_cells P (mem s))"
      unfolding cells using pc q by (simp add: map_mark)
  qed (rule out)
  have "mouse_inv P ?r" using inv pos q m' i' len mouse_frame_inv [OF fr] by (simp add: mouse_inv_def keeps)
  moreover have "mouse_view ?r = spec_byte b (mouse_view s)"
    using c by (simp add: mouse_view_def spec_byte_def pos keeps m')
  moreover have "highlighted P ?r" if "highlighted P s"
    using that highlighted_move [OF pc] by (simp add: highlighted_def cells map_mark pointer_cell_def [of ?r] pos)
  ultimately show ?thesis using u fr by (auto simp: mouse_step_ok_def)
qed

lemma cycle_wrap: "(256 :: u8) = 0"
  by simp

lemma mouse_step:
  assumes inv: "mouse_inv P s" and b: "hw (io s) MOUSE_PORT = b"
  shows "\<exists>s'. mouse_interrupt hw s = Some s' \<and> mouse_step_ok P b s s'"
proof -
  let ?m = "mouse_dev s"
  let ?h = "In MOUSE_PORT b # io s"
  have len: "length (mouse_packets ?m) = 4" using inv by (simp add: mouse_inv_def)
  note quiet = mouse_quiet [OF inv]
  note spec = mouse_view_def spec_byte_def
  consider "mouse_cycle ?m = 0xFF" | "mouse_cycle ?m = 0" | "mouse_cycle ?m = 1" | "mouse_cycle ?m = 2"
    | (last) "mouse_cycle ?m = 3" | (other) "mouse_cycle ?m \<notin> {0xFF, 0, 1, 2, 3}" by blast
  then show ?thesis
  proof cases
    case 1
    then show ?thesis using quiet [of "mouse_packets ?m" b 0 "io s"] len
      by (simp add: mouse_interrupt_def spec upd_mouse_def cycle_wrap)
  next
    case 2
    then show ?thesis using quiet [of "(mouse_packets ?m)[0 := b]" b 1 ?h] len
      by (simp add: mouse_interrupt_def mouse_store_eq [OF inv] spec upd_mouse_def b)
  next
    case 3
    then show ?thesis using quiet [of "(mouse_packets ?m)[1 := b]" b 2 ?h] len
      by (simp add: mouse_interrupt_def mouse_store_eq [OF inv] spec upd_mouse_def b)
  next
    case 4
    then show ?thesis using quiet [of "(mouse_packets ?m)[2 := b]" b 3 ?h] len
      by (simp add: mouse_interrupt_def mouse_store_eq [OF inv] spec upd_mouse_def b)
  next
    case last
    then show ?thesis
      using quiet [of "(mouse_packets ?m)[3 := b]" b 0 ?h] mouse_packet_step [OF inv last, where b = b and h = ?h] len
      by (auto simp: mouse_interrupt_def mouse_store_eq [OF inv] spec upd_mouse_def b and_bits move_pointer_def)
  next
    case other
    moreover have "\<not> mouse_cycle ?m < 3"
    proof
      assume "mouse_cycle ?m < 3"
      then have "unat (mouse_cycle ?m) \<in> {0, 1, 2}" by (auto simp: word_less_nat_alt)
      then show False using other by (auto simp: word_unat_eq_iff)
    qed
    ultimately show ?thesis using quiet [of "mouse_packets ?m" b "mouse_cycle ?m" "io s"] len
      by (simp add: mouse_interrupt_def spec)
  qed
qed

lemma mouse_stream:
  assumes "mouse_inv P s"
  shows "\<exists>s'. mouse_bytes bs s = Some s' \<and> mouse_inv P s' \<and> mouse_frame P s s'
    \<and> mouse_view s' = fold spec_byte bs (mouse_view s) \<and> (highlighted P s \<longrightarrow> highlighted P s')"
  using assms
proof (induction bs arbitrary: s)
  case Nil
  then show ?case by (simp add: mouse_frame_refl)
next
  case (Cons b bs)
  from mouse_step [OF Cons.prems refl, of "\<lambda>h p. b"] obtain t
    where t: "mouse_interrupt (\<lambda>h p. b) s = Some t" "mouse_step_ok P b s t" by auto
  then show ?case
    using Cons.IH [of t] mouse_frame_trans [of P s t] by (auto simp: mouse_step_ok_def)
qed

definition packet_bytes :: "u8 \<times> u8 \<times> u8 \<times> u8 \<Rightarrow> u8 list" where
  "packet_bytes = (\<lambda>(flags, dx, dy, dz). [flags, dx, dy, dz])"

lemma spec_packets:
  "length p = 4 \<Longrightarrow> \<exists>p'. length p' = 4 \<and>
     fold spec_byte (concat (map packet_bytes ks)) (0, p, q) = (0, p', fold move_pointer ks q)"
proof (induction ks arbitrary: p q)
  case (Cons k ks)
  obtain b0 b1 b2 b3 where k: "k = (b0, b1, b2, b3)" by (cases k)
  have "fold spec_byte (packet_bytes k) (0, p, q) = (0, p[0 := b0, 1 := b1, 2 := b2, 3 := b3], move_pointer k q)"
    using Cons.prems by (simp add: packet_bytes_def spec_byte_def k word_less_nat_alt)
  then show ?case using Cons.IH [of "p[0 := b0, 1 := b1, 2 := b2, 3 := b3]" "move_pointer k q"] Cons.prems
    by simp
qed simp

text \<open>C32. The mouse handler implements the abstract pointer: from the state after boot, the first
  interrupt is dropped, and any sequence of four-byte packets then moves the pointer as the abstract
  moves do (a quarter of the signed 9-bit movements, stopped at the edges; packets with an overflow
  bit ignored). If the cell under the pointer was the only one in reverse video, that is so at the
  end; the characters on the screen and the memory outside it are unchanged.\<close>

theorem mouse_tracks_pointer:
  assumes "mouse_inv P s" and "mouse_cycle (mouse_dev s) = 0xFF"
  shows "\<exists>s'. mouse_bytes (b # concat (map packet_bytes ks)) s = Some s'
    \<and> (unat (mouse_x s'), unat (mouse_y s')) = fold move_pointer ks (unat (mouse_x s), unat (mouse_y s))
    \<and> mouse_frame P s s' \<and> (highlighted P s \<longrightarrow> highlighted P s')"
proof -
  have v: "spec_byte b (mouse_view s) = (0, mouse_packets (mouse_dev s), unat (mouse_x s), unat (mouse_y s))"
    using assms(2) by (simp add: mouse_view_def spec_byte_def)
  have "length (mouse_packets (mouse_dev s)) = 4" using assms(1) by (simp add: mouse_inv_def)
  from spec_packets [OF this, of ks "(unat (mouse_x s), unat (mouse_y s))"]
  show ?thesis
    using mouse_stream [OF assms(1), of "b # concat (map packet_bytes ks)"] by (auto simp: v) (auto simp: mouse_view_def)
qed

text \<open>C33. Whatever bytes arrive, complete packets or not, the handler returns, keeps the pointer on
  the screen and its buffer of four bytes in bounds, and has consumed its input: the status it leaves
  makes a call of \<open>mouse_get_input\<close> outside the handler wait.\<close>

theorem mouse_stays_on_screen:
  assumes "mouse_inv P s"
  shows "\<exists>s'. mouse_bytes bs s = Some s' \<and> unat (mouse_x s') < 80 \<and> unat (mouse_y s') < 25
    \<and> length (mouse_packets (mouse_dev s')) = 4 \<and> mouse_get_input s' = None
    \<and> (\<forall>x. \<not> within x P 4000 \<longrightarrow> mem s' x = mem s x)"
  using mouse_stream [OF assms, of bs] by (auto simp: mouse_inv_def mouse_get_input_def mouse_frame_def)

lemma sample_mouse_inv: "mouse_inv 0xB9000 sample_kernel"
proof -
  have "mouse_dev sample_kernel = sample_mouse" "mouse_x sample_kernel = 40" "mouse_y sample_kernel = 13"
    by (simp_all add: sample_kernel_def)
  then show ?thesis using sample_kernel_wf
    by (simp add: mouse_inv_def linear_def sample_terminal_def sample_mouse_def)
qed

theorem mouse_tracks_pointer_witness:
  "\<exists>s'. mouse_bytes [0xFA, 0x18, 0xF0, 0x28, 0] sample_kernel = Some s' \<and> unat (mouse_x s') = 36 \<and> unat (mouse_y s') = 3"
proof -
  have s: "mouse_cycle (mouse_dev sample_kernel) = 0xFF" "mouse_x sample_kernel = 40" "mouse_y sample_kernel = 13"
    by (simp_all add: sample_kernel_def sample_mouse_def)
  have "bit (0x18 :: u8) 4" "\<not> bit (0x18 :: u8) 5" "\<not> bit (0x18 :: u8) 6" "\<not> bit (0x18 :: u8) 7"
    by code_simp+
  then have "move_pointer (0x18, 0xF0, 0x28, 0) (40, 13) = (36, 3)"
    by (simp add: move_pointer_def delta9_def clamp_def signed_divide_int_def)
  then show ?thesis
    using mouse_tracks_pointer [OF sample_mouse_inv s(1), of "0xFA" "[(0x18, 0xF0, 0x28, 0)]"]
    by (auto simp: packet_bytes_def s(2,3))
qed

theorem mouse_stays_on_screen_witness:
  "\<exists>s'. mouse_bytes [1, 2, 3, 4, 5, 6] sample_kernel = Some s' \<and> unat (mouse_x s') < 80 \<and> mouse_get_input s' = None"
  using mouse_stays_on_screen [OF sample_mouse_inv, of "[1, 2, 3, 4, 5, 6]"] by blast

subsection \<open>The set-up sequence\<close>

text \<open>What the console writes to ports while it prints: the two ports of the cursor.\<close>

definition cursor_events :: "io_event list \<Rightarrow> bool" where
  "cursor_events es \<longleftrightarrow> (\<forall>e\<in>set es. \<exists>p v. e = Out p v \<and> (p = VGA_CURSOR_CONTROL \<or> p = VGA_CURSOR_DATA))"

lemma rep_movsl_io [simp]: "io (snd (snd (rep_movsl n d r st))) = io st"
  by (induction n arbitrary: d r st) (simp_all add: Let_def wr32_def)

lemma memcpy_io [simp]: "io (snd (memcpy d r n st)) = io st"
proof -
  have b: "io (memcpy_bottom k d r st) = io st" for k d r and st :: "'a machine_scheme"
    by (induction k arbitrary: d r st) simp_all
  have "io (memcpy_aligned n d r st) = io st" for n d r and st :: "'a machine_scheme"
    by (simp add: memcpy_aligned_def Let_def b case_prod_beta) (simp add: cld_def)
  then have "io (memcpy_top n d r st) = io st" for n d r and st :: "'a machine_scheme"
    by (induction n d r st rule: memcpy_top.induct) (subst memcpy_top.simps, simp)
  then show ?thesis by (simp add: memcpy_def)
qed

lemma move_rows_io [simp]: "io (move_rows base n s) = io s"
proof -
  have "io (fold (\<lambda>i s. snd (memcpy (f i) (g i) k s)) is s) = io s" for f g k "is" and s :: "'a machine_scheme"
    by (induction "is" arbitrary: s) simp_all
  then show ?thesis by (simp only: move_rows_def)
qed

lemma put_cells_io [simp]: "io (put_cells base lo hi c s) = io s"
proof -
  have "io (fold (\<lambda>i. put_cell b (of_nat i) c) is s) = io s" for b c "is" and s :: "'a machine_scheme"
    by (induction "is" arbitrary: s) (simp_all add: put_cell_def)
  then show ?thesis by (simp only: put_cells_def)
qed

lemma scroll_display_io [simp]: "io (scroll_display s) = io s"
  by (simp add: scroll_display_def Let_def)

lemma putc_io: "\<exists>es. io (putc c s) = es @ io s \<and> cursor_events es"
proof -
  have "io (putc_draw c s) = io s" by (simp add: putc_draw_def put_cell_def Let_def)
  moreover have "\<exists>es. io (update_cursor t) = es @ io s \<and> cursor_events es" if "io t = io s" for t
    by (rule exI [of _ "[Out VGA_CURSOR_DATA _, Out VGA_CURSOR_CONTROL _, Out VGA_CURSOR_DATA _, Out VGA_CURSOR_CONTROL _]"])
      (simp add: update_cursor_def cursor_outb_def Let_def cursor_events_def that)
  moreover have "cursor_events []" by (simp add: cursor_events_def)
  ultimately show ?thesis by (simp add: putc_def Let_def)
qed

lemma puts_io: "\<exists>es. io (fold putc cs s) = es @ io s \<and> cursor_events es"
proof (induction cs arbitrary: s)
  case Nil
  show ?case by (rule exI [of _ "[]"]) (simp add: cursor_events_def)
next
  case (Cons c cs)
  obtain es fs where "io (putc c s) = es @ io s" "cursor_events es"
    "io (fold putc cs (putc c s)) = fs @ io (putc c s)" "cursor_events fs"
    using putc_io [of c s] Cons.IH [of "putc c s"] by blast
  then show ?case by (intro exI [of _ "fs @ es"]) (auto simp: cursor_events_def)
qed

text \<open>The bytes written to the two ports of the mouse controller, in order.\<close>

fun mouse_outs :: "io_event list \<Rightarrow> (u16 \<times> u8) list" where
  "mouse_outs [] = []"
| "mouse_outs (Out p v # h) = mouse_outs h @ (if p = MOUSE_PORT \<or> p = MOUSE_CMD then [(p, v)] else [])"
| "mouse_outs (_ # h) = mouse_outs h"

lemma cursor_events_quiet:
  "cursor_events es \<Longrightarrow> mouse_outs (es @ h) = mouse_outs h"
  "cursor_events es \<Longrightarrow> pic_data_port p \<Longrightarrow> pic_chip (es @ h) p = pic_chip h p"
  by (induction es) (auto simp: cursor_events_def pic_data_port_def)

lemma printing_quiet [simp]:
  "mouse_outs (io (fold putc cs s)) = mouse_outs (io s)"
  "pic_data_port p \<Longrightarrow> pic_chip (io (fold putc cs s)) p = pic_chip (io s) p"
  using puts_io [of cs s] by (auto simp: cursor_events_quiet)

lemma mouse_wait_quiet [simp]:
  "mouse_outs (io (mouse_wait hw a s)) = mouse_outs (io s)"
  "pic_chip (io (mouse_wait hw a s)) p = pic_chip (io s) p"
proof -
  have "mouse_outs (io (mouse_poll hw a n s)) = mouse_outs (io s)
      \<and> pic_chip (io (mouse_poll hw a n s)) p = pic_chip (io s) p" for n
    by (induction n arbitrary: s) (simp_all add: inb_def Let_def)
  then show "mouse_outs (io (mouse_wait hw a s)) = mouse_outs (io s)"
    "pic_chip (io (mouse_wait hw a s)) p = pic_chip (io s) p" by (simp_all add: mouse_wait_def)
qed

lemma mouse_read_quiet [simp]:
  "mouse_outs (io (snd (mouse_read hw s))) = mouse_outs (io s)"
  "pic_chip (io (snd (mouse_read hw s))) p = pic_chip (io s) p"
  by (simp_all add: mouse_read_def inb_def Let_def)

lemma mouse_command_outs [simp]:
  "mouse_outs (io (mouse_command hw v s)) = mouse_outs (io s) @ [(MOUSE_CMD, 0xD4), (MOUSE_PORT, v)]"
  "pic_data_port p \<Longrightarrow> pic_chip (io (mouse_command hw v s)) p = pic_chip (io s) p"
  by (auto simp: mouse_command_def mouse_write_def Let_def pic_data_port_def)

lemma mouse_enable_outs:
  "\<exists>v. mouse_outs (io (mouse_enable hw s)) = mouse_outs (io s)
      @ [(0x64, 0xA8), (0x64, 0x20), (0x64, 0x60), (0x60, (v OR 0x02) AND NOT 0x20)]"
  "pic_data_port p \<Longrightarrow> pic_chip (io (mouse_enable hw s)) p = pic_chip (io s) p"
proof -
  have "(ucast ((ucast (b :: u8) OR 2) AND NOT 0x20 :: u32) :: u8) = (b OR 2) AND NOT 0x20" for b
    by (rule bit_word_eqI) (auto simp: bit_simps)
  then show "\<exists>v. mouse_outs (io (mouse_enable hw s)) = mouse_outs (io s)
      @ [(0x64, 0xA8), (0x64, 0x20), (0x64, 0x60), (0x60, (v OR 0x02) AND NOT 0x20)]"
    by (auto simp: mouse_enable_def Let_def inb_def)
  show "pic_data_port p \<Longrightarrow> pic_chip (io (mouse_enable hw s)) p = pic_chip (io s) p"
    by (auto simp: mouse_enable_def Let_def inb_def pic_data_port_def)
qed

lemma mouse_commands_frame [simp]:
  "machine.more (mouse_wait hw a s) = machine.more s" "mem (mouse_wait hw a s) = mem s"
  "mmu (mouse_wait hw a s) = mmu s" "eflags (mouse_wait hw a s) = eflags s"
  "machine.more (snd (mouse_read hw s)) = machine.more s" "mem (snd (mouse_read hw s)) = mem s"
  "mmu (snd (mouse_read hw s)) = mmu s" "eflags (snd (mouse_read hw s)) = eflags s"
  "machine.more (mouse_command hw v s) = machine.more s" "mem (mouse_command hw v s) = mem s"
  "mmu (mouse_command hw v s) = mmu s" "eflags (mouse_command hw v s) = eflags s"
proof -
  have "machine.more (mouse_poll hw a n s) = machine.more s \<and> mem (mouse_poll hw a n s) = mem s
      \<and> mmu (mouse_poll hw a n s) = mmu s \<and> eflags (mouse_poll hw a n s) = eflags s" for a n and s :: kstate
    by (induction n arbitrary: s) (simp_all add: inb_def Let_def)
  then have w: "machine.more (mouse_wait hw a s) = machine.more s" "mem (mouse_wait hw a s) = mem s"
    "mmu (mouse_wait hw a s) = mmu s" "eflags (mouse_wait hw a s) = eflags s" for a and s :: kstate
    by (simp_all add: mouse_wait_def)
  then show "machine.more (mouse_wait hw a s) = machine.more s" "mem (mouse_wait hw a s) = mem s"
    "mmu (mouse_wait hw a s) = mmu s" "eflags (mouse_wait hw a s) = eflags s"
    "machine.more (snd (mouse_read hw s)) = machine.more s" "mem (snd (mouse_read hw s)) = mem s"
    "mmu (snd (mouse_read hw s)) = mmu s" "eflags (snd (mouse_read hw s)) = eflags s"
    "machine.more (mouse_command hw v s) = machine.more s" "mem (mouse_command hw v s) = mem s"
    "mmu (mouse_command hw v s) = mmu s" "eflags (mouse_command hw v s) = eflags s"
    by (simp_all add: mouse_read_def mouse_command_def mouse_write_def inb_def Let_def)
qed

text \<open>\<open>mouse_init\<close> talks to the device, prints a line and opens line 12.\<close>

definition mouse_talk :: "hardware \<Rightarrow> kstate \<Rightarrow> kstate" where
  "mouse_talk hw s = snd (mouse_read hw (mouse_configure hw (mouse_enable hw s)))"

lemma mouse_talk_frame:
  "machine.more (mouse_talk hw s) = machine.more s" "mem (mouse_talk hw s) = mem s"
  "mmu (mouse_talk hw s) = mmu s" "eflags (mouse_talk hw s) = eflags s"
  "pic_data_port p \<Longrightarrow> pic_chip (io (mouse_talk hw s)) p = pic_chip (io s) p"
  by (simp_all add: mouse_talk_def mouse_configure_def mouse_enable_outs)
    (simp_all add: mouse_enable_def inb_def Let_def)

lemma mouse_init_steps:
  "\<exists>cs. mouse_init hw junk s = Some (enable_irq hw (of_nat 12) (fold putc cs (mouse_talk hw s))) \<and> 0x08 \<notin> set cs"
proof -
  define f :: "u8 list" where "f = map of_char ''Current MouseID: %x'' @ [0x0A]"
  have "renders f [Int_arg v]" for v by (simp add: f_def)
  moreover have "mouse_id_format = f @ [0]" by (simp add: mouse_id_format_def f_def)
  ultimately obtain cs where cs: "printf junk mouse_id_format [Int_arg (ucast (fst (mouse_read hw (mouse_configure hw (mouse_enable hw s)))))]
      (mouse_talk hw s) = Some (length f, fold putc cs (mouse_talk hw s))" "0x08 \<notin> set cs"
    using printf_renders [of f] by metis
  then have "mouse_init hw junk s = Some (enable_irq hw (of_nat 12) (fold putc cs (mouse_talk hw s)))"
    by (simp add: mouse_init_def Let_def case_prod_beta mouse_talk_def)
  then show ?thesis using cs(2) by blast
qed

lemma mouse_init_lines:
  assumes "pic_reads_back hw" and "pic_ready s"
  defines "t cs \<equiv> enable_irq hw (of_nat 12) (fold putc cs (mouse_talk hw s))"
  shows "pic_ready (t cs)" and "i < 16 \<Longrightarrow> irq_masked (t cs) i = (irq_masked s i \<and> i \<noteq> 12)"
proof -
  let ?u = "fold putc cs (mouse_talk hw s)"
  have "pic_ready ?u" using assms(2) by (simp add: pic_ready_def mouse_talk_frame(5) pic_data_port_def)
  moreover have "irq_masked ?u j = irq_masked s j" for j
    by (simp add: irq_masked_def mouse_talk_frame(5) pic_data_port_def)
  ultimately show "pic_ready (t cs)" "i < 16 \<Longrightarrow> irq_masked (t cs) i = (irq_masked s i \<and> i \<noteq> 12)"
    using enable_irq_masked(1) [OF assms(1), of ?u 12] enable_irq_masked(2) [OF assms(1), of ?u 12 0] by (simp_all add: t_def)
qed

text \<open>\<open>mouse_init\<close> always returns, whatever the device answers. It writes to the controller the
  documented sequence: the auxiliary device enabled, the status byte read and written back with
  interrupt 12 enabled and the clock not disabled, defaults, streaming, the sample rates 200, 100, 80
  that turn the wheel on, the rate 200 and the request of the identity. Afterwards the interrupt line
  12 is open and no other line has changed.\<close>

theorem mouse_init_protocol:
  assumes "pic_reads_back hw" and "pic_ready s"
  shows "\<exists>s' v. mouse_init hw junk s = Some s'
    \<and> mouse_outs (io s') = mouse_outs (io s)
        @ [(0x64, 0xA8), (0x64, 0x20), (0x64, 0x60), (0x60, (v OR 0x02) AND NOT 0x20)]
        @ concat (map (\<lambda>c. [(0x64, 0xD4), (0x60, c)])
            [0xF6, 0xF4, 0xF3, 200, 0xF3, 100, 0xF3, 80, 0xF3, 200, 0xF2])
    \<and> (\<forall>i. i < 16 \<longrightarrow> irq_masked s' i = (irq_masked s i \<and> i \<noteq> 12))"
proof -
  obtain v where v: "mouse_outs (io (mouse_enable hw s)) = mouse_outs (io s)
      @ [(0x64, 0xA8), (0x64, 0x20), (0x64, 0x60), (0x60, (v OR 0x02) AND NOT 0x20)]"
    using mouse_enable_outs(1) by blast
  obtain cs where i: "mouse_init hw junk s = Some (enable_irq hw (of_nat 12) (fold putc cs (mouse_talk hw s)))"
    using mouse_init_steps by blast
  have "mouse_outs (io (enable_irq hw (of_nat 12) t)) = mouse_outs (io t)" for t :: kstate
    by (simp only: enable_irq_io) simp
  then show ?thesis
    using i v mouse_init_lines(2) [OF assms] by (intro exI [of _ "enable_irq hw (of_nat 12) (fold putc cs (mouse_talk hw s))"] exI [of _ v])
      (simp add: mouse_talk_def mouse_configure_def)
qed

theorem mouse_init_protocol_witness:
  "\<exists>s'. mouse_init (readback_hw (\<lambda>h p. 0)) 0 (i8259_init (readback_hw (\<lambda>h p. 0)) sample_kernel) = Some s'
    \<and> \<not> irq_masked s' 12 \<and> irq_masked s' 13"
proof -
  note i = i8259_init_masks [OF pic_reads_back_readback_hw, of _ "\<lambda>h p. 0" sample_kernel]
  from mouse_init_protocol [OF pic_reads_back_readback_hw i(1) [of 0], of "\<lambda>h p. 0" 0] obtain s'
    where "mouse_init (readback_hw (\<lambda>h p. 0)) 0 (i8259_init (readback_hw (\<lambda>h p. 0)) sample_kernel) = Some s'"
      "\<not> irq_masked s' 12" "irq_masked s' 13 = irq_masked (i8259_init (readback_hw (\<lambda>h p. 0)) sample_kernel) 13"
    by auto
  then show ?thesis using i(2) [of 13] by simp
qed

end
