(* ===== verification/Rtc.thy ===== *)
theory Rtc
  imports I8259 Kernel_State
begin

text \<open>
  The real-time clock, \<^verbatim>\<open>student-distrib/rtc.c\<close>. Every clock interrupt raises the flag
  \<open>rtc_interrupt_occurred\<close> of the tasks whose virtual period divides the counter of interrupts. The
  frequency of the hardware and the default frequency are constants of \<^verbatim>\<open>rtc_drivers.h\<close>,
  which is not among the source files: they are the arguments \<open>max_hz\<close> and \<open>initial\<close>.
\<close>

abbreviation RTC_PORT :: u16 where "RTC_PORT \<equiv> 0x70"
abbreviation RTC_REGISTER_B :: u8 where "RTC_REGISTER_B \<equiv> 0x8B"
abbreviation RTC_REGISTER_C :: u8 where "RTC_REGISTER_C \<equiv> 0x8C"
abbreviation RTC_INIT :: u8 where "RTC_INIT \<equiv> 0x44"

subsection \<open>The operations\<close>

definition rtc_init :: "hardware \<Rightarrow> 'a machine_scheme \<Rightarrow> 'a machine_scheme" where
  "rtc_init hw s =
     (let (flags, s) = cli_and_save s;
          s = outb RTC_REGISTER_B RTC_PORT s;
          s = outb RTC_INIT (RTC_PORT + 1) s;
          s = enable_irq hw 8 s
      in restore_flags flags s)"

text \<open>The body of the loop. A null PCB pointer and a division by zero have no defined result.\<close>

definition rtc_frequency :: "u32 \<Rightarrow> nat \<Rightarrow> kstate \<Rightarrow> u32 option" where
  "rtc_frequency initial i s =
     (if \<not> slt (pcb_all_started s) (of_nat NUM_TASKS - 1) then
        if task_pcb (tasks s ! i) = 0 then None
        else let f = rtc_freq (pcbs s (task_pcb (tasks s ! i))) in Some (if f = 0 then initial else f)
      else Some initial)"

definition rtc_task :: "u32 \<Rightarrow> u32 \<Rightarrow> nat \<Rightarrow> kstate \<Rightarrow> kstate option" where
  "rtc_task max_hz initial i s =
     do { f \<leftarrow> rtc_frequency initial i s;
          let s = s\<lparr>virtual_frequency := f\<rparr>;
          if f = 0 then None
          else let mod_val = sdiv32 max_hz f
            in if mod_val = 0 then None
               else if smod32 (rtc_virtual_interrupt_counter s) mod_val = 0 then
                 let pcb = task_pcb (tasks s ! i)
                 in if pcb = 0 then None
                    else Some (upd_pcb pcb (\<lambda>p. p\<lparr>rtc_interrupt_occurred := 1\<rparr>) s)
               else Some s }"

primrec rtc_loop :: "u32 \<Rightarrow> u32 \<Rightarrow> nat list \<Rightarrow> kstate \<Rightarrow> kstate option" where
  "rtc_loop max_hz initial [] s = Some s"
| "rtc_loop max_hz initial (i # is) s =
     do { s \<leftarrow> rtc_task max_hz initial i s; rtc_loop max_hz initial is s }"

definition rtc_interrupt :: "hardware \<Rightarrow> u32 \<Rightarrow> u32 \<Rightarrow> kstate \<Rightarrow> kstate option" where
  "rtc_interrupt hw max_hz initial s =
     (let (flags, s) = cli_and_save s;
          s = outb RTC_REGISTER_C RTC_PORT s;
          (_, s) = inb hw (RTC_PORT + 1) s
      in do { s \<leftarrow> rtc_loop max_hz initial [0..<NUM_TASKS] s; Some (restore_flags flags s) })"

subsection \<open>Which tasks are due\<close>

text \<open>The frequency of a task: its own once the shells have started and it asked for one, the default
  before. A task is due when its period in hardware ticks divides the counter.\<close>

definition task_frequency :: "u32 \<Rightarrow> kstate \<Rightarrow> nat \<Rightarrow> nat" where
  "task_frequency initial s i =
     (let f = unat (rtc_freq (pcbs s (task_pcb (tasks s ! i))))
      in if sint (pcb_all_started s) < 2 \<or> f = 0 then unat initial else f)"

definition rtc_due :: "u32 \<Rightarrow> u32 \<Rightarrow> kstate \<Rightarrow> nat \<Rightarrow> bool" where
  "rtc_due max_hz initial s i \<longleftrightarrow>
     unat (rtc_virtual_interrupt_counter s) mod (unat max_hz div task_frequency initial s i) = 0"

definition rtc_ready :: "u32 \<Rightarrow> u32 \<Rightarrow> kstate \<Rightarrow> bool" where
  "rtc_ready max_hz initial s \<longleftrightarrow> 0 < unat initial \<and> unat max_hz < 2 ^ 31
     \<and> unat (rtc_virtual_interrupt_counter s) < 2 ^ 31
     \<and> (\<forall>i<NUM_TASKS. task_pcb (tasks s ! i) \<noteq> 0 \<and> task_frequency initial s i < 2 ^ 31)"

definition ring :: "kstate \<Rightarrow> (nat \<Rightarrow> bool) \<Rightarrow> nat list \<Rightarrow> u32 \<Rightarrow> pcb" where
  "ring s due ks a = (if \<exists>i\<in>set ks. task_pcb (tasks s ! i) = a \<and> due i
     then (pcbs s a)\<lparr>rtc_interrupt_occurred := 1\<rparr> else pcbs s a)"

lemma rtc_frequency_eq:
  "task_pcb (tasks s ! i) \<noteq> 0 \<Longrightarrow>
     rtc_frequency initial i s = Some (of_nat (task_frequency initial s i))"
  by (auto simp: rtc_frequency_def task_frequency_def slt_def Let_def unat_eq_0)

lemma rtc_task_eq:
  assumes ready: "rtc_ready max_hz initial s" and i: "i < NUM_TASKS"
  shows "rtc_task max_hz initial i s =
    (if task_frequency initial s i \<le> unat max_hz
     then Some (s\<lparr>virtual_frequency := of_nat (task_frequency initial s i),
                  pcbs := ring s (rtc_due max_hz initial s) [i]\<rparr>)
     else None)"
proof -
  let ?f = "task_frequency initial s i"
  have r: "task_pcb (tasks s ! i) \<noteq> 0" "?f < 2147483648" "unat max_hz < 2147483648"
    "unat (rtc_virtual_interrupt_counter s) < 2147483648"
    using ready i by (simp_all add: rtc_ready_def)
  have pos: "0 < ?f" using ready by (simp add: rtc_ready_def task_frequency_def Let_def)
  have f: "unat (of_nat ?f :: u32) = ?f" using r by (simp add: unat_of_nat take_bit_nat_eq_self)
  define q where "q = unat max_hz div ?f"
  have q: "q < 2147483648"
    using r le_less_trans [OF div_le_dividend [of "unat max_hz" ?f]] by (simp add: q_def)
  have uq: "unat (of_nat q :: u32) = q" using q by (simp add: unat_of_nat take_bit_nat_eq_self)
  have d: "sdiv32 max_hz (of_nat ?f) = of_nat q" using r f by (simp add: sdiv32_unat q_def)
  have z: "(of_nat q :: u32) = 0 \<longleftrightarrow> \<not> ?f \<le> unat max_hz"
    using uq pos by (metis div_eq_0_iff gr_implies_not0 not_le q_def unat_0 unat_eq_0)
  have m: "smod32 (rtc_virtual_interrupt_counter s) (of_nat q) = 0 \<longleftrightarrow> rtc_due max_hz initial s i"
  proof -
    have "unat (rtc_virtual_interrupt_counter s) mod q < 4294967296"
      by (rule le_less_trans [OF mod_less_eq_dividend]) simp
    then show ?thesis using r(4) q uq
      by (auto simp: smod32_unat rtc_due_def q_def [symmetric] word_of_nat_eq_0_iff dest: dvd_imp_le)
  qed
  have nz: "(of_nat ?f :: u32) \<noteq> 0" using f pos by (metis unat_0 less_numeral_extra(3))
  show ?thesis
    unfolding rtc_task_def rtc_frequency_eq [OF r(1)] using nz r(1)
    by (auto simp: d m z ring_def upd_pcb_def Let_def fun_eq_iff intro!: kstate.fold_congs(8))
qed

lemma ring_ready:
  fixes v :: u32 and due :: "nat \<Rightarrow> bool" and k :: nat
  assumes "rtc_ready max_hz initial s"
  defines "t \<equiv> s\<lparr>virtual_frequency := v, pcbs := ring s due [k]\<rparr>"
  shows "rtc_ready max_hz initial t" "rtc_due max_hz initial t = rtc_due max_hz initial s"
    "task_frequency initial t = task_frequency initial s"
proof -
  show f: "task_frequency initial t = task_frequency initial s"
    by (rule ext) (simp add: task_frequency_def t_def ring_def Let_def)
  show "rtc_ready max_hz initial t"
    using assms(1) unfolding rtc_ready_def f by (simp add: t_def)
  show "rtc_due max_hz initial t = rtc_due max_hz initial s"
    by (rule ext) (simp add: rtc_due_def f, simp add: t_def)
qed

lemma rtc_loop_eq:
  assumes "rtc_ready max_hz initial s" and "set ks \<subseteq> {..<NUM_TASKS}"
  shows "if \<forall>i\<in>set ks. task_frequency initial s i \<le> unat max_hz
    then \<exists>v. rtc_loop max_hz initial ks s =
      Some (s\<lparr>virtual_frequency := v, pcbs := ring s (rtc_due max_hz initial s) ks\<rparr>)
    else rtc_loop max_hz initial ks s = None"
  using assms
proof (induction ks arbitrary: s)
  case Nil
  have "ring s due [] = pcbs s" for due by (rule ext) (simp add: ring_def)
  moreover have "\<exists>v. s = s\<lparr>virtual_frequency := v\<rparr>" by (rule exI [of _ "virtual_frequency s"]) simp
  ultimately show ?case by simp
next
  case (Cons i ks)
  define v where "v = (of_nat (task_frequency initial s i) :: u32)"
  define due where "due = rtc_due max_hz initial s"
  define t where "t = s\<lparr>virtual_frequency := v, pcbs := ring s due [i]\<rparr>"
  have step: "rtc_task max_hz initial i s = (if task_frequency initial s i \<le> unat max_hz then Some t else None)"
    using Cons.prems rtc_task_eq [of max_hz initial s i] by (simp add: t_def v_def due_def)
  note r = ring_ready [OF Cons.prems(1), where v = v and due = due and k = i, folded t_def]
  have "pcbs (t\<lparr>virtual_frequency := w, pcbs := ring t due ks\<rparr>) = ring s due (i # ks)" for w
    by (rule ext) (auto simp: ring_def t_def)
  then have "t\<lparr>virtual_frequency := w, pcbs := ring t due ks\<rparr> =
      s\<lparr>virtual_frequency := w, pcbs := ring s due (i # ks)\<rparr>" for w by (simp add: t_def)
  then show ?case using Cons.IH [OF r(1)] Cons.prems(2) step
    by (auto simp: r(2,3) due_def [symmetric])
qed

text \<open>C34. A clock interrupt raises the flag of exactly the tasks that are due: those for which the
  counter is a multiple of the hardware frequency divided by the task's frequency. It acknowledges the
  clock by reading register C and changes nothing else; the interrupt flag comes out as it went in.
  With a task frequency above the hardware frequency the period is zero and the interrupt ends in a
  division by zero.\<close>

theorem rtc_interrupt_rings:
  assumes "unat (rtc_virtual_interrupt_counter s) < 2 ^ 31" and "0 < unat initial" and "unat max_hz < 2 ^ 31"
    and "\<forall>i<NUM_TASKS. task_pcb (tasks s ! i) \<noteq> 0 \<and> task_frequency initial s i < 2 ^ 31"
  shows "if \<forall>i<NUM_TASKS. task_frequency initial s i \<le> unat max_hz
    then \<exists>v. rtc_interrupt hw max_hz initial s = Some (s\<lparr>
        io := In 0x71 (hw (Out 0x70 0x8C # io s) 0x71) # Out 0x70 0x8C # io s,
        virtual_frequency := v,
        pcbs := (\<lambda>a. if \<exists>i<NUM_TASKS. task_pcb (tasks s ! i) = a \<and> rtc_due max_hz initial s i
          then (pcbs s a)\<lparr>rtc_interrupt_occurred := 1\<rparr> else pcbs s a)\<rparr>)
    else rtc_interrupt hw max_hz initial s = None"
proof -
  let ?h = "In 0x71 (hw (Out 0x70 0x8C # io s) 0x71) # Out 0x70 0x8C # io s"
  define t where "t = s\<lparr>eflags := eflags s AND NOT IF_MASK, io := ?h\<rparr>"
  have e: "rtc_interrupt hw max_hz initial s =
      do { u \<leftarrow> rtc_loop max_hz initial [0..<NUM_TASKS] t; Some (restore_flags (eflags s) u) }"
    by (simp add: rtc_interrupt_def cli_and_save_def cli_def outb_def inb_def Let_def t_def
        del: upt_rec_numeral rtc_loop.simps)
  have f: "task_frequency initial t = task_frequency initial s" "rtc_due max_hz initial t = rtc_due max_hz initial s"
    by (simp_all add: fun_eq_iff task_frequency_def rtc_due_def t_def)
  have "rtc_ready max_hz initial t" using assms unfolding rtc_ready_def f by (simp add: t_def)
  moreover have sub: "set [0..<NUM_TASKS] \<subseteq> {..<NUM_TASKS}" by (auto simp del: upt_rec_numeral)
  ultimately have loop: "if \<forall>i\<in>set [0..<NUM_TASKS]. task_frequency initial s i \<le> unat max_hz
    then \<exists>v. rtc_loop max_hz initial [0..<NUM_TASKS] t =
      Some (t\<lparr>virtual_frequency := v, pcbs := ring t (rtc_due max_hz initial s) [0..<NUM_TASKS]\<rparr>)
    else rtc_loop max_hz initial [0..<NUM_TASKS] t = None"
    using rtc_loop_eq [of max_hz initial t "[0..<NUM_TASKS]"] unfolding f by blast
  have r: "ring t due [0..<NUM_TASKS] = (\<lambda>a. if \<exists>i<NUM_TASKS. task_pcb (tasks s ! i) = a \<and> due i
      then (pcbs s a)\<lparr>rtc_interrupt_occurred := 1\<rparr> else pcbs s a)" for due
    by (rule ext) (auto simp: ring_def t_def simp del: upt_rec_numeral)
  show ?thesis
  proof (cases "\<forall>i<NUM_TASKS. task_frequency initial s i \<le> unat max_hz")
    case True
    then obtain v where "rtc_loop max_hz initial [0..<NUM_TASKS] t =
        Some (t\<lparr>virtual_frequency := v, pcbs := ring t (rtc_due max_hz initial s) [0..<NUM_TASKS]\<rparr>)"
      using loop by (auto simp del: upt_rec_numeral rtc_loop.simps)
    then show ?thesis using True unfolding e r by (auto simp: restore_flags_def t_def)
  next
    case False
    then have "rtc_loop max_hz initial [0..<NUM_TASKS] t = None"
      using loop by (auto simp del: upt_rec_numeral rtc_loop.simps split: if_splits)
    then show ?thesis using False unfolding e by auto
  qed
qed

theorem rtc_interrupt_rings_witness:
  "\<exists>s'. rtc_interrupt (\<lambda>h p. 0) 1024 2 sample_kernel = Some s' \<and> rtc_interrupt_occurred (pcbs s' 0x7FE000) = 1"
proof -
  have t: "task_pcb (tasks sample_kernel ! 0) = 0x7FE000" "task_pcb (tasks sample_kernel ! 1) = 0x7FC000"
    "task_pcb (tasks sample_kernel ! 2) = 0x7FA000"
    by (simp_all add: sample_task_def PCB_ADDRESS_def KERNEL_STACK_ADDRESS_def)
  have p: "\<forall>i<NUM_TASKS. task_pcb (tasks sample_kernel ! i) \<noteq> 0"
    unfolding all_less_3 t by simp
  have c: "rtc_virtual_interrupt_counter sample_kernel = 0" by (simp add: sample_kernel_def)
  have f: "task_frequency 2 sample_kernel i = 2" for i
    by (simp add: task_frequency_def sample_pcb_def)
  have "rtc_due 1024 2 sample_kernel 0" by (simp add: rtc_due_def c)
  then show ?thesis
    using rtc_interrupt_rings [of sample_kernel 2 1024 "\<lambda>h p. 0"] p t(1) unfolding f c by force
qed

text \<open>\<open>rtc_init\<close> opens line 8 and no other; the interrupt flag comes out as it went in.\<close>

lemma rtc_init_masks:
  assumes "pic_reads_back hw" and "pic_ready s"
  shows "pic_ready (rtc_init hw s)" and "eflags (rtc_init hw s) = eflags s"
    and "i < 16 \<Longrightarrow> irq_masked (rtc_init hw s) i \<longleftrightarrow> irq_masked s i \<and> i \<noteq> 8"
proof -
  define t where "t = outb RTC_INIT (RTC_PORT + 1) (outb RTC_REGISTER_B RTC_PORT (cli s))"
  have t: "pic_ready t" "irq_masked t i = irq_masked s i"
    using assms(2) by (simp_all add: t_def pic_ready_def irq_masked_def)
  have e: "rtc_init hw s = restore_flags (eflags s) (enable_irq hw (of_nat 8) t)"
    by (simp add: rtc_init_def cli_and_save_def Let_def t_def)
  show "pic_ready (rtc_init hw s)" "eflags (rtc_init hw s) = eflags s"
    using enable_irq_masked(2) [OF assms(1) t(1), of 8 0] by (simp_all add: e pic_ready_def)
  show "i < 16 \<Longrightarrow> irq_masked (rtc_init hw s) i \<longleftrightarrow> irq_masked s i \<and> i \<noteq> 8"
  proof -
    assume "i < 16"
    moreover have "irq_masked (restore_flags f u) i = irq_masked u i" for f and u :: "'a machine_scheme"
      by (simp add: irq_masked_def)
    ultimately show ?thesis
      unfolding e using enable_irq_masked(1) [OF assms(1) t(1), of 8 i] t(2) by simp
  qed
qed

end
