(* ===== verification/Vga.thy ===== *)
theory Vga
  imports Machine
begin

text \<open>
  The registers of the VGA: the routines of \<^verbatim>\<open>student-distrib/modex.c\<close> that load the tables of
  a video mode. The display adapter is hardware: \<open>vga_step\<close> is the documented effect of a port
  access on its registers, and \<open>vga_of\<close> the registers a port history leaves. The routines are shown
  to leave every table entry in its register.
\<close>

subsection \<open>Port macros\<close>

definition set_write_mask :: "u16 \<Rightarrow> 'a machine_scheme \<Rightarrow> 'a machine_scheme" where
  "set_write_mask mask_hi_bits s = outw ((mask_hi_bits AND 0xFF00) OR 0x02) 0x3C4 s"

definition rep_outsw :: "u16 \<Rightarrow> u16 list \<Rightarrow> 'a machine_scheme \<Rightarrow> 'a machine_scheme" where
  "rep_outsw port source s = fold (\<lambda>w. outw w port) source s"

definition rep_outsb :: "u16 \<Rightarrow> u8 list \<Rightarrow> 'a machine_scheme \<Rightarrow> 'a machine_scheme" where
  "rep_outsb port source s = fold (\<lambda>b. outb b port) source s"

subsection \<open>The tables\<close>

definition mode_X_seq :: "u16 list" where
  "mode_X_seq = [0x0100, 0x2101, 0x0F02, 0x0003, 0x0604]"

definition mode_X_CRTC :: "u16 list" where
  "mode_X_CRTC =
    [0x5F00, 0x4F01, 0x5002, 0x8203, 0x5404, 0x8005, 0xBF06, 0x1F07,
     0x0008, 0x4109, 0x000A, 0x000B, 0x000C, 0x000D, 0x000E, 0x000F,
     0x9C10, 0x8E11, 0x8F12, 0x2813, 0x0014, 0x9615, 0xB916, 0xE317,
     0xFF18]"

definition mode_X_attr :: "u8 list" where
  "mode_X_attr =
    [0x00, 0x00, 0x01, 0x01, 0x02, 0x02, 0x03, 0x03,
     0x04, 0x04, 0x05, 0x05, 0x06, 0x06, 0x07, 0x07,
     0x08, 0x08, 0x09, 0x09, 0x0A, 0x0A, 0x0B, 0x0B,
     0x0C, 0x0C, 0x0D, 0x0D, 0x0E, 0x0E, 0x0F, 0x0F,
     0x10, 0x41, 0x11, 0x00, 0x12, 0x0F, 0x13, 0x00,
     0x14, 0x00, 0x15, 0x00]"

definition mode_X_graphics :: "u16 list" where
  "mode_X_graphics = [0x0000, 0x0001, 0x0002, 0x0003, 0x0004, 0x4005, 0x0506, 0x0F07, 0xFF08]"

definition text_seq :: "u16 list" where
  "text_seq = [0x0100, 0x2001, 0x0302, 0x0003, 0x0204]"

definition text_CRTC :: "u16 list" where
  "text_CRTC =
    [0x5F00, 0x4F01, 0x5002, 0x8203, 0x5504, 0x8105, 0xBF06, 0x1F07,
     0x0008, 0x4F09, 0x0D0A, 0x0E0B, 0x000C, 0x000D, 0x000E, 0x000F,
     0x9C10, 0x8E11, 0x8F12, 0x2813, 0x1F14, 0x9615, 0xB916, 0xA317,
     0xFF18]"

definition text_attr :: "u8 list" where
  "text_attr =
    [0x00, 0x00, 0x01, 0x01, 0x02, 0x02, 0x03, 0x03,
     0x04, 0x04, 0x05, 0x05, 0x06, 0x06, 0x07, 0x07,
     0x08, 0x08, 0x09, 0x09, 0x0A, 0x0A, 0x0B, 0x0B,
     0x0C, 0x0C, 0x0D, 0x0D, 0x0E, 0x0E, 0x0F, 0x0F,
     0x10, 0x0C, 0x11, 0x00, 0x12, 0x0F, 0x13, 0x08,
     0x14, 0x00, 0x15, 0x00]"

definition text_graphics :: "u16 list" where
  "text_graphics = [0x0000, 0x0001, 0x0002, 0x0003, 0x0004, 0x1005, 0x0E06, 0x0007, 0xFF08]"

subsection \<open>Loading the registers\<close>

definition VGA_blank :: "hardware \<Rightarrow> u32 \<Rightarrow> 'a machine_scheme \<Rightarrow> 'a machine_scheme" where
  "VGA_blank hw blank_bit s =
     (let blank_bit = push_bit 5 (blank_bit AND 1);
          s = outb 0x01 0x3C4 s;
          (al, s) = inb hw 0x3C5 s;
          s = outb (ucast ((al AND 0xDF) OR blank_bit)) 0x3C5 s;
          (_, s) = inb hw 0x3DA s
      in outb 0x20 0x3C0 s)"

text \<open>The delay loop between the table and the two writes counts a local variable.\<close>

definition set_seq_regs_and_reset :: "u16 list \<Rightarrow> u8 \<Rightarrow> 'a machine_scheme \<Rightarrow> 'a machine_scheme" where
  "set_seq_regs_and_reset table val s =
     (let s = rep_outsw 0x3C4 table s;
          s = outb val 0x3C2 s
      in outw 0x0300 0x3C4 s)"

definition set_CRTC_registers :: "u16 list \<Rightarrow> 'a machine_scheme \<Rightarrow> 'a machine_scheme" where
  "set_CRTC_registers table s = rep_outsw 0x3D4 table (outw 0x0011 0x3D4 s)"

definition set_attr_registers :: "hardware \<Rightarrow> u8 list \<Rightarrow> 'a machine_scheme \<Rightarrow> 'a machine_scheme" where
  "set_attr_registers hw table s =
     (let (_, s) = inb hw 0x3DA s in rep_outsb 0x3C0 table s)"

definition set_graphics_registers :: "u16 list \<Rightarrow> 'a machine_scheme \<Rightarrow> 'a machine_scheme" where
  "set_graphics_registers table s = rep_outsw 0x3CE table s"

definition palette_mode_x :: "(u8 \<times> u8 \<times> u8) list" where
  "palette_mode_x =
    [(0x00, 0x00, 0x00), (0xFF, 0xFF, 0x00),
     (0xFF, 0xFF, 0xFF), (0x00, 0x00, 0xFF),
     (0x99, 0x00, 0xFF), (0xFF, 0x00, 0x0),
     (0x88, 0x53, 0x0), (0x00, 0xA4, 0x00),
     (0x00, 0x2A, 0x00), (0x00, 0x2A, 0x15),
     (0x00, 0x2A, 0x2A), (0x00, 0x2A, 0x3F),
     (0x00, 0x3F, 0x00), (0x00, 0x3F, 0x15),
     (0x00, 0x3F, 0x2A), (0x00, 0x3F, 0x3F),
     (0x15, 0x00, 0x00), (0x15, 0x00, 0x15),
     (0x15, 0x00, 0x2A), (0x15, 0x00, 0x3F),
     (0x15, 0x15, 0x00), (0x15, 0x15, 0x15),
     (0x15, 0x15, 0x2A), (0x15, 0x15, 0x3F),
     (0x15, 0x2A, 0x00), (0x15, 0x2A, 0x15),
     (0x15, 0x2A, 0x2A), (0x15, 0x2A, 0x3F),
     (0x15, 0x3F, 0x00), (0x15, 0x3F, 0x15),
     (0x15, 0x3F, 0x2A), (0x15, 0x3F, 0x3F),
     (0x2A, 0x00, 0x00), (0x2A, 0x00, 0x15),
     (0x2A, 0x00, 0x2A), (0x2A, 0x00, 0x3F),
     (0x2A, 0x15, 0x00), (0x2A, 0x15, 0x15),
     (0x2A, 0x15, 0x2A), (0x2A, 0x15, 0x3F),
     (0x2A, 0x2A, 0x00), (0x2A, 0x2A, 0x15),
     (0x2A, 0x2A, 0x2A), (0x2A, 0x2A, 0x3F),
     (0x2A, 0x3F, 0x00), (0x2A, 0x3F, 0x15),
     (0x2A, 0x3F, 0x2A), (0x2A, 0x3F, 0x3F),
     (0x3F, 0x00, 0x00), (0x3F, 0x00, 0x15),
     (0x3F, 0x00, 0x2A), (0x3F, 0x00, 0x3F),
     (0x3F, 0x15, 0x00), (0x3F, 0x15, 0x15),
     (0x3F, 0x15, 0x2A), (0x3F, 0x15, 0x3F),
     (0x3F, 0x2A, 0x00), (0x3F, 0x2A, 0x15),
     (0x3F, 0x2A, 0x2A), (0x3F, 0x2A, 0x3F),
     (0x3F, 0x3F, 0x00), (0x3F, 0x3F, 0x15),
     (0x3F, 0x3F, 0x2A), (0x3F, 0x3F, 0x3F)]"

definition palette_text :: "(u8 \<times> u8 \<times> u8) list" where
  "palette_text =
    [(0x00, 0x00, 0x00), (0x00, 0x00, 0x2A),
     (0x00, 0x2A, 0x00), (0x00, 0x2A, 0x2A),
     (0x2A, 0x00, 0x00), (0x2A, 0x00, 0x2A),
     (0x2A, 0x15, 0x00), (0x2A, 0x2A, 0x2A),
     (0x15, 0x15, 0x15), (0x15, 0x15, 0x3F),
     (0x15, 0x3F, 0x15), (0x15, 0x3F, 0x3F),
     (0x3F, 0x15, 0x15), (0x3F, 0x15, 0x3F),
     (0x3F, 0x3F, 0x15), (0x3F, 0x3F, 0x3F),
     (0x00, 0x00, 0x00), (0x05, 0x05, 0x05),
     (0x08, 0x08, 0x08), (0x0B, 0x0B, 0x0B),
     (0x0E, 0x0E, 0x0E), (0x11, 0x11, 0x11),
     (0x14, 0x14, 0x14), (0x18, 0x18, 0x18),
     (0x1C, 0x1C, 0x1C), (0x20, 0x20, 0x20),
     (0x24, 0x24, 0x24), (0x28, 0x28, 0x28),
     (0x2D, 0x2D, 0x2D), (0x32, 0x32, 0x32),
     (0x38, 0x38, 0x38), (0x3F, 0x3F, 0x3F)]"

definition palette_bytes :: "(u8 \<times> u8 \<times> u8) list \<Rightarrow> u8 list" where
  "palette_bytes p = concat (map (\<lambda>(r, g, b). [r, g, b]) p)"

definition fill_palette_mode_x :: "'a machine_scheme \<Rightarrow> 'a machine_scheme" where
  "fill_palette_mode_x s = rep_outsb 0x3C9 (palette_bytes palette_mode_x) (outb 0 0x3C8 s)"

definition fill_palette_text :: "'a machine_scheme \<Rightarrow> 'a machine_scheme" where
  "fill_palette_text s = rep_outsb 0x3C9 (palette_bytes palette_text) (outb 0 0x3C8 s)"

text \<open>The four calls both mode changes make.\<close>

definition load_tables ::
  "hardware \<Rightarrow> u16 list \<Rightarrow> u8 \<Rightarrow> u16 list \<Rightarrow> u8 list \<Rightarrow> u16 list \<Rightarrow> 'a machine_scheme \<Rightarrow> 'a machine_scheme" where
  "load_tables hw sq val ct at gt s =
     (let s = set_seq_regs_and_reset sq val s;
          s = set_CRTC_registers ct s;
          s = set_attr_registers hw at s
      in set_graphics_registers gt s)"

subsection \<open>The adapter\<close>

record vga_regs =
  seq_index :: u8
  seq :: "u8 \<Rightarrow> u8"
  crtc_index :: u8
  crtc :: "u8 \<Rightarrow> u8"
  gfx_index :: u8
  gfx :: "u8 \<Rightarrow> u8"
  attr_flip :: bool       \<comment> \<open>the next write to 0x3C0 is an index\<close>
  attr_index :: u8
  attr :: "u8 \<Rightarrow> u8"
  misc :: u8
  dac_pos :: nat          \<comment> \<open>three bytes per colour\<close>
  dac :: "nat \<Rightarrow> u8"

text \<open>Bit 7 of register 0x11 of the CRT controller protects its registers 0 to 7. The palette keeps
  six bits of a byte.\<close>

definition vga_out :: "u16 \<Rightarrow> u8 \<Rightarrow> vga_regs \<Rightarrow> vga_regs" where
  "vga_out p v r =
     (if p = 0x3C4 then r\<lparr>seq_index := v\<rparr>
      else if p = 0x3C5 then r\<lparr>seq := (seq r)(seq_index r := v)\<rparr>
      else if p = 0x3D4 then r\<lparr>crtc_index := v\<rparr>
      else if p = 0x3D5 then
        if crtc_index r < 8 \<and> bit (crtc r 0x11) 7 then r else r\<lparr>crtc := (crtc r)(crtc_index r := v)\<rparr>
      else if p = 0x3CE then r\<lparr>gfx_index := v\<rparr>
      else if p = 0x3CF then r\<lparr>gfx := (gfx r)(gfx_index r := v)\<rparr>
      else if p = 0x3C0 then
        if attr_flip r then r\<lparr>attr_index := v, attr_flip := False\<rparr>
        else r\<lparr>attr := (attr r)(attr_index r := v), attr_flip := True\<rparr>
      else if p = 0x3C2 then r\<lparr>misc := v\<rparr>
      else if p = 0x3C8 then r\<lparr>dac_pos := 3 * unat v\<rparr>
      else if p = 0x3C9 then r\<lparr>dac := (dac r)(dac_pos r := v AND 0x3F), dac_pos := (dac_pos r + 1) mod 768\<rparr>
      else r)"

text \<open>A word written to a port is a byte to it and a byte to the next port; reading 0x3DA makes the
  next write to the attribute controller an index.\<close>

fun vga_step :: "io_event \<Rightarrow> vga_regs \<Rightarrow> vga_regs" where
  "vga_step (Out p v) r = vga_out p v r"
| "vga_step (OutW p w) r = vga_out (p + 1) (ucast (drop_bit 8 w)) (vga_out p (ucast w) r)"
| "vga_step (In p v) r = (if p = 0x3DA then r\<lparr>attr_flip := True\<rparr> else r)"

definition vga_of :: "vga_regs \<Rightarrow> io_event list \<Rightarrow> vga_regs" where
  "vga_of r h = foldr vga_step h r"

text \<open>The data port of the sequencer reads back the register its index selects.\<close>

definition vga_reads_back :: "vga_regs \<Rightarrow> hardware \<Rightarrow> bool" where
  "vga_reads_back r hw \<longleftrightarrow> (\<forall>h. hw h 0x3C5 = seq (vga_of r h) (seq_index (vga_of r h)))"

definition vga_hw :: "vga_regs \<Rightarrow> hardware" where
  "vga_hw r h p = (if p = 0x3C5 then seq (vga_of r h) (seq_index (vga_of r h)) else 0)"

lemma vga_reads_back_hw: "vga_reads_back r (vga_hw r)"
  by (simp add: vga_reads_back_def vga_hw_def)

subsection \<open>What the routines leave in the registers\<close>

definition put_pairs :: "(u8 \<times> u8) list \<Rightarrow> (u8 \<Rightarrow> u8) \<Rightarrow> u8 \<Rightarrow> u8" where
  "put_pairs ps f = fold (\<lambda>(i, v) g. g(i := v)) ps f"

text \<open>The entries of a table of words: the register in the low byte, its value in the high byte.\<close>

definition entries :: "u16 list \<Rightarrow> (u8 \<times> u8) list" where
  "entries t = map (\<lambda>w. (ucast w, ucast (drop_bit 8 w))) t"

fun byte_entries :: "u8 list \<Rightarrow> (u8 \<times> u8) list" where
  "byte_entries (i # v # t) = (i, v) # byte_entries t"
| "byte_entries _ = []"

lemma put_pairs_append: "put_pairs (ps @ qs) f = put_pairs qs (put_pairs ps f)"
  by (simp add: put_pairs_def)

lemma put_pairs_simps [simp]: "put_pairs [] f = f" "put_pairs ((i, v) # ps) f = put_pairs ps (f(i := v))"
  by (simp_all add: put_pairs_def)

lemma put_pairs_other: "i \<notin> fst ` set ps \<Longrightarrow> put_pairs ps f i = f i"
  by (induction ps arbitrary: f) auto

lemma put_pairs_lookup: "distinct (map fst ps) \<Longrightarrow> (i, v) \<in> set ps \<Longrightarrow> put_pairs ps f i = v"
  by (induction ps arbitrary: f) (auto simp: put_pairs_other)

lemma vga_of_Cons [simp]: "vga_of r (e # h) = vga_step e (vga_of r h)"
  by (simp add: vga_of_def)

lemma outw_frame [simp]:
  "mem (outw d p s) = mem s" "mmu (outw d p s) = mmu s" "eflags (outw d p s) = eflags s"
  "machine.more (outw d p s) = machine.more s" "io (outw d p s) = OutW p d # io s"
  by (simp_all add: outw_def)

lemma inb_frame [simp]:
  "mem (snd (inb hw p s)) = mem s" "mmu (snd (inb hw p s)) = mmu s" "eflags (snd (inb hw p s)) = eflags s"
  "machine.more (snd (inb hw p s)) = machine.more s" "io (snd (inb hw p s)) = In p (hw (io s) p) # io s"
  "fst (inb hw p s) = ucast (hw (io s) p)"
  by (simp_all add: inb_def Let_def)

lemma rep_frame [simp]:
  "mem (rep_outsw p t s) = mem s" "mmu (rep_outsw p t s) = mmu s" "machine.more (rep_outsw p t s) = machine.more s"
  "mem (rep_outsb p bs s) = mem s" "mmu (rep_outsb p bs s) = mmu s" "machine.more (rep_outsb p bs s) = machine.more s"
  "eflags (rep_outsw p t s) = eflags s" "eflags (rep_outsb p bs s) = eflags s"
proof -
  have "mem (rep_outsw p t s) = mem s \<and> mmu (rep_outsw p t s) = mmu s \<and> machine.more (rep_outsw p t s) = machine.more s
      \<and> eflags (rep_outsw p t s) = eflags s"
    unfolding rep_outsw_def by (induction t arbitrary: s) simp_all
  moreover have "mem (rep_outsb p bs s) = mem s \<and> mmu (rep_outsb p bs s) = mmu s
      \<and> machine.more (rep_outsb p bs s) = machine.more s \<and> eflags (rep_outsb p bs s) = eflags s"
    unfolding rep_outsb_def by (induction bs arbitrary: s) simp_all
  ultimately show "mem (rep_outsw p t s) = mem s" "mmu (rep_outsw p t s) = mmu s"
    "machine.more (rep_outsw p t s) = machine.more s"
    "mem (rep_outsb p bs s) = mem s" "mmu (rep_outsb p bs s) = mmu s" "machine.more (rep_outsb p bs s) = machine.more s"
    "eflags (rep_outsw p t s) = eflags s" "eflags (rep_outsb p bs s) = eflags s"
    by blast+
qed

lemma vga_of_rep [simp]:
  "vga_of r (io (rep_outsw p t s)) = fold (\<lambda>w. vga_step (OutW p w)) t (vga_of r (io s))"
  "vga_of r (io (rep_outsb p bs s)) = fold (vga_out p) bs (vga_of r (io s))"
proof -
  show "vga_of r (io (rep_outsw p t s)) = fold (\<lambda>w. vga_step (OutW p w)) t (vga_of r (io s))"
    unfolding rep_outsw_def by (induction t arbitrary: s) (simp_all del: vga_step.simps)
  show "vga_of r (io (rep_outsb p bs s)) = fold (vga_out p) bs (vga_of r (io s))"
    unfolding rep_outsb_def by (induction bs arbitrary: s) simp_all
qed

lemma seq_load:
  "\<exists>i. fold (\<lambda>w. vga_step (OutW 0x3C4 w)) t r = r\<lparr>seq := put_pairs (entries t) (seq r), seq_index := i\<rparr>"
proof (induction t arbitrary: r)
  case Nil
  show ?case by (rule exI [of _ "seq_index r"]) (simp add: entries_def)
next
  case (Cons w t)
  show ?case using Cons.IH [of "vga_step (OutW 0x3C4 w) r"] by (simp add: entries_def vga_out_def fun_upd_def)
qed

lemma gfx_load:
  "\<exists>i. fold (\<lambda>w. vga_step (OutW 0x3CE w)) t r = r\<lparr>gfx := put_pairs (entries t) (gfx r), gfx_index := i\<rparr>"
proof (induction t arbitrary: r)
  case Nil
  show ?case by (rule exI [of _ "gfx_index r"]) (simp add: entries_def)
next
  case (Cons w t)
  show ?case using Cons.IH [of "vga_step (OutW 0x3CE w) r"] by (simp add: entries_def vga_out_def fun_upd_def)
qed

text \<open>The CRT controller takes a table when protection is off and is not turned on before the last of
  the protected registers.\<close>

definition crtc_loadable :: "bool \<Rightarrow> (u8 \<times> u8) list \<Rightarrow> bool" where
  "crtc_loadable prot ps \<longleftrightarrow> fst (fold (\<lambda>(i, v) (ok, prot).
     (ok \<and> \<not> (i < 8 \<and> prot), if i = 0x11 then bit v 7 else prot)) ps (True, prot))"

lemma crtc_load:
  assumes "crtc_loadable (bit (crtc r 0x11) 7) (entries t)"
  shows "\<exists>i. fold (\<lambda>w. vga_step (OutW 0x3D4 w)) t r = r\<lparr>crtc := put_pairs (entries t) (crtc r), crtc_index := i\<rparr>"
proof -
  have mono: "fst (fold (\<lambda>(i, v) (ok, prot). (ok \<and> \<not> (i < 8 \<and> prot), if i = 0x11 then bit v 7 else prot)) ps (ok, prot)) \<Longrightarrow> ok"
    for ps :: "(u8 \<times> u8) list" and ok prot by (induction ps arbitrary: ok prot) (auto split: if_splits)
  show ?thesis using assms
  proof (induction t arbitrary: r)
    case Nil
    show ?case by (rule exI [of _ "crtc_index r"]) (simp add: entries_def)
  next
    case (Cons w t)
    then have "\<not> (ucast w < (8 :: u8) \<and> bit (crtc r 0x11) 7)"
      using mono by (force simp: crtc_loadable_def entries_def)
    moreover from this Cons.prems have "crtc_loadable
        (bit (((crtc r)(ucast w := ucast (drop_bit 8 w))) 0x11) 7) (entries t)"
      by (auto simp: crtc_loadable_def entries_def split: if_splits)
    ultimately show ?case
      using Cons.IH [of "r\<lparr>crtc_index := ucast w, crtc := (crtc r)(ucast w := ucast (drop_bit 8 w))\<rparr>"]
      by (auto simp: entries_def vga_out_def fun_upd_def)
  qed
qed

lemma attr_load:
  assumes "attr_flip r" and "even (length t)"
  shows "\<exists>i. fold (vga_out 0x3C0) t r =
    r\<lparr>attr_flip := True, attr := put_pairs (byte_entries t) (attr r), attr_index := i\<rparr>"
  using assms
proof (induction t arbitrary: r rule: byte_entries.induct)
  case (1 i v t)
  then show ?case using "1.IH" [of "vga_out 0x3C0 v (vga_out 0x3C0 i r)"] by (simp add: vga_out_def fun_upd_def)
next
  case "2_1"
  then show ?case by (cases r) auto
qed simp

lemma dac_load:
  assumes "dac_pos r + length bs \<le> 768"
  shows "\<exists>n. fold (vga_out 0x3C9) bs r = r\<lparr>dac_pos := n, dac := \<lambda>k.
    if dac_pos r \<le> k \<and> k < dac_pos r + length bs then bs ! (k - dac_pos r) AND 0x3F else dac r k\<rparr>"
  using assms
proof (induction bs arbitrary: r)
  case Nil
  have "(\<lambda>k. if dac_pos r \<le> k \<and> k < dac_pos r + length [] then [] ! (k - dac_pos r) AND 0x3F else dac r k) = dac r"
    by (rule ext) auto
  then show ?case by (intro exI [of _ "dac_pos r"]) simp
next
  case (Cons b bs)
  define r1 where "r1 = r\<lparr>dac := (dac r)(dac_pos r := b AND 0x3F), dac_pos := (dac_pos r + 1) mod 768\<rparr>"
  have s: "vga_out 0x3C9 b r = r1" by (simp add: vga_out_def r1_def)
  show ?case
  proof (cases bs)
    case Nil
    have "dac r1 = (\<lambda>k. if dac_pos r \<le> k \<and> k < dac_pos r + 1 then [b] ! (k - dac_pos r) AND 0x3F else dac r k)"
      by (auto simp: r1_def fun_eq_iff)
    then show ?thesis using s unfolding Nil by (intro exI [of _ "dac_pos r1"]) (simp add: r1_def)
  next
    case (Cons c cs)
    then have p: "dac_pos r1 = dac_pos r + 1" using Cons.prems by (simp add: r1_def)
    obtain n where n: "fold (vga_out 0x3C9) bs r1 = r1\<lparr>dac_pos := n, dac := \<lambda>k.
        if dac_pos r1 \<le> k \<and> k < dac_pos r1 + length bs then bs ! (k - dac_pos r1) AND 0x3F else dac r1 k\<rparr>"
      using Cons.IH [of r1] Cons.prems p by auto
    have "(\<lambda>k. if dac_pos r1 \<le> k \<and> k < dac_pos r1 + length bs then bs ! (k - dac_pos r1) AND 0x3F else dac r1 k)
      = (\<lambda>k. if dac_pos r \<le> k \<and> k < dac_pos r + length (b # bs) then (b # bs) ! (k - dac_pos r) AND 0x3F else dac r k)"
      unfolding p by (rule ext) (auto simp: r1_def nth_Cons' not_less_eq_eq Suc_diff_le)
    then show ?thesis using n s by (intro exI [of _ n]) (simp add: r1_def)
  qed
qed

lemma vga_seq_regs:
  "vga_of r (io (set_seq_regs_and_reset sq val s)) = (let R = vga_of r (io s) in
     R\<lparr>seq := put_pairs (entries sq @ [(0, 3)]) (seq R), seq_index := 0, misc := val\<rparr>)"
proof -
  define R where "R = vga_of r (io s)"
  obtain i where i: "fold (\<lambda>w. vga_step (OutW 0x3C4 w)) sq R = R\<lparr>seq := put_pairs (entries sq) (seq R), seq_index := i\<rparr>"
    using seq_load by blast
  have "vga_of r (io (set_seq_regs_and_reset sq val s)) =
      vga_step (OutW 0x3C4 0x0300) (vga_out 0x3C2 val (R\<lparr>seq := put_pairs (entries sq) (seq R), seq_index := i\<rparr>))"
    by (simp add: set_seq_regs_and_reset_def Let_def R_def i [unfolded R_def] del: vga_step.simps(2))
  moreover have "(768 :: u8) = 0" by simp
  ultimately show ?thesis by (simp add: R_def [symmetric] vga_out_def put_pairs_append Let_def)
qed

lemma vga_crtc_regs:
  assumes "crtc_loadable False (entries ct)"
  shows "\<exists>j. vga_of r (io (set_CRTC_registers ct s)) = (let R = vga_of r (io s) in
     R\<lparr>crtc := put_pairs ((0x11, 0) # entries ct) (crtc R), crtc_index := j\<rparr>)"
proof -
  define R where "R = vga_of r (io s)"
  let ?c = "R\<lparr>crtc := (crtc R)(0x11 := 0), crtc_index := 0x11\<rparr>"
  have c: "vga_step (OutW 0x3D4 0x0011) R = ?c" by (simp add: vga_out_def)
  obtain j where "fold (\<lambda>w. vga_step (OutW 0x3D4 w)) ct ?c = ?c\<lparr>crtc := put_pairs (entries ct) (crtc ?c), crtc_index := j\<rparr>"
    using crtc_load [of ?c ct] assms by auto
  then show ?thesis
    by (simp only: set_CRTC_registers_def vga_of_rep outw_frame vga_of_Cons R_def [symmetric] c Let_def) auto
qed

lemma vga_attr_regs:
  assumes "even (length at)"
  shows "\<exists>k. vga_of r (io (set_attr_registers hw at s)) = (let R = vga_of r (io s) in
     R\<lparr>attr_flip := True, attr := put_pairs (byte_entries at) (attr R), attr_index := k\<rparr>)"
  using attr_load [of "(vga_of r (io s))\<lparr>attr_flip := True\<rparr>" at] assms
  by (simp add: set_attr_registers_def case_prod_beta Let_def)

lemma vga_gfx_regs:
  "\<exists>l. vga_of r (io (set_graphics_registers gt s)) = (let R = vga_of r (io s) in
     R\<lparr>gfx := put_pairs (entries gt) (gfx R), gfx_index := l\<rparr>)"
  using gfx_load [of gt "vga_of r (io s)"] by (simp add: set_graphics_registers_def Let_def del: vga_step.simps)

lemma load_tables_vga:
  assumes "crtc_loadable False (entries ct)" and "even (length at)"
  shows "\<exists>j k l. vga_of r (io (load_tables hw sq val ct at gt s)) = (let R = vga_of r (io s) in R\<lparr>
      seq := put_pairs (entries sq @ [(0, 3)]) (seq R), seq_index := 0, misc := val,
      crtc := put_pairs ((0x11, 0) # entries ct) (crtc R), crtc_index := j,
      attr_flip := True, attr := put_pairs (byte_entries at) (attr R), attr_index := k,
      gfx := put_pairs (entries gt) (gfx R), gfx_index := l\<rparr>)"
proof -
  let ?s1 = "set_seq_regs_and_reset sq val s"
  let ?s2 = "set_CRTC_registers ct ?s1"
  let ?s3 = "set_attr_registers hw at ?s2"
  obtain j k l where "vga_of r (io ?s2) = (let R = vga_of r (io ?s1) in
        R\<lparr>crtc := put_pairs ((0x11, 0) # entries ct) (crtc R), crtc_index := j\<rparr>)"
      "vga_of r (io ?s3) = (let R = vga_of r (io ?s2) in
        R\<lparr>attr_flip := True, attr := put_pairs (byte_entries at) (attr R), attr_index := k\<rparr>)"
      "vga_of r (io (set_graphics_registers gt ?s3)) = (let R = vga_of r (io ?s3) in
        R\<lparr>gfx := put_pairs (entries gt) (gfx R), gfx_index := l\<rparr>)"
    using vga_crtc_regs [OF assms(1), of r ?s1] vga_attr_regs [OF assms(2), of r hw ?s2] vga_gfx_regs [of r gt ?s3]
    by metis
  then show ?thesis
    by (intro exI [of _ j] exI [of _ k] exI [of _ l]) (simp add: load_tables_def Let_def vga_seq_regs)
qed

lemma table_facts:
  "crtc_loadable False (entries text_CRTC)" "crtc_loadable False (entries mode_X_CRTC)"
  "even (length text_attr)" "even (length mode_X_attr)"
  "distinct (map fst (entries text_CRTC))" "distinct (map fst (entries mode_X_CRTC))"
  "distinct (map fst (byte_entries text_attr))" "distinct (map fst (byte_entries mode_X_attr))"
  "distinct (map fst (entries text_graphics))" "distinct (map fst (entries mode_X_graphics))"
  by code_simp+

end
