(* ===== verification/Modex.thy ===== *)
theory Modex
  imports Vga Font_Data Paging Console
begin

text \<open>
  Mode X graphics, the rest of \<^verbatim>\<open>student-distrib/modex.c\<close>: entering the mode, drawing the
  start-up picture into the four planes of video memory, and the return to text mode with its font.
  Video memory belongs to the display adapter: a byte stored in the 64 KB window at 0xA0000 goes to
  every plane the map mask (register 2 of the sequencer) selects. The adapter's registers are those
  the port history leaves (theory Vga).
\<close>

abbreviation MEM_IMAGE :: u32 where "MEM_IMAGE \<equiv> 0xA0000"

definition SCREEN_SIZE :: nat where "SCREEN_SIZE = 80 * 200 * 4 + 1"
definition BUILD_BUF_SIZE :: nat where "BUILD_BUF_SIZE = SCREEN_SIZE + 20000"
definition BUILD_BASE_INIT :: nat where "BUILD_BASE_INIT = (BUILD_BUF_SIZE - SCREEN_SIZE) div 2"
definition MEM_FENCE_WIDTH :: nat where "MEM_FENCE_WIDTH = 256"
definition MEM_FENCE_MAGIC :: u8 where "MEM_FENCE_MAGIC = 0xF3"
definition IMAGE_SIZE :: nat where "IMAGE_SIZE = 320 * 200"
definition PLANE_SIZE :: nat where "PLANE_SIZE = 16000"

subsection \<open>State\<close>

record video =
  kern :: kstate
  vga0 :: vga_regs                    \<comment> \<open>the registers before the first port access\<close>
  planes :: "nat \<Rightarrow> u32 \<Rightarrow> u8"        \<comment> \<open>the four planes, by physical address\<close>
  build :: "u8 list"
  img3_off :: nat
  img3 :: nat                         \<comment> \<open>an index into \<open>build\<close>\<close>
  show_x :: u32
  show_y :: u32
  target_img :: u16

definition on_kern :: "(kstate \<Rightarrow> kstate) \<Rightarrow> video \<Rightarrow> video" where
  "on_kern f v = v\<lparr>kern := f (kern v)\<rparr>"

definition vga :: "video \<Rightarrow> vga_regs" where
  "vga v = vga_of (vga0 v) (io (kern v))"

definition vstore :: "u32 \<Rightarrow> u8 \<Rightarrow> video \<Rightarrow> video" where
  "vstore a b v =
     (let pa = mmu (kern v) a
      in if MEM_IMAGE \<le> pa \<and> pa < 0xB0000
         then v\<lparr>planes := \<lambda>p x. if x = pa \<and> p < 4 \<and> bit (seq (vga v) 2) p then b else planes v p x\<rparr>
         else on_kern (wr8 a b) v)"

subsection \<open>Drawing\<close>

definition vstores :: "u32 \<Rightarrow> u8 list \<Rightarrow> video \<Rightarrow> video" where
  "vstores a bs v = fold (\<lambda>i. vstore (a + of_nat i) (bs ! i)) [0..<length bs] v"

text \<open>\<open>memset\<close> on the window: one store per byte.\<close>

definition clear_screens :: "video \<Rightarrow> video" where
  "clear_screens v = vstores MEM_IMAGE (replicate 65536 3) (on_kern cld (on_kern (set_write_mask 0x0F00) v))"

definition copy_image :: "u8 list \<Rightarrow> nat \<Rightarrow> u16 \<Rightarrow> video \<Rightarrow> video option" where
  "copy_image img i scr_addr v =
     (if i + PLANE_SIZE \<le> length img
      then Some (vstores (MEM_IMAGE + ucast scr_addr) (take PLANE_SIZE (drop i img)) (on_kern cld v))
      else None)"

function fill_range :: "nat \<Rightarrow> nat \<Rightarrow> u8 \<Rightarrow> u8 list \<Rightarrow> u8 list option" where
  "fill_range i hi c buf =
     (if i < hi then do { buf \<leftarrow> aput buf i c; fill_range (i + 1) hi c buf } else Some buf)"
  by pat_completeness auto
termination
  by (relation "measure (\<lambda>(i, hi, c, buf). hi - i)") auto

declare fill_range.simps [simp del]

text \<open>The seven loops that paint the picture, in row-major order.\<close>

definition paint :: "u8 list \<Rightarrow> u8 list option" where
  "paint buf =
     do { buf \<leftarrow> fill_range 0 IMAGE_SIZE 7 buf;
          buf \<leftarrow> fill_range 0 (320 * 3) 1 buf;
          buf \<leftarrow> fill_range (320 * 3) 16000 1 buf;
          buf \<leftarrow> fill_range 16000 32000 4 buf;
          buf \<leftarrow> fill_range 32000 48000 5 buf;
          buf \<leftarrow> fill_range 48000 (64000 - 320 * 3) 3 buf;
          fill_range (64000 - 320 * 3) 64000 7 buf }"

function gather :: "nat \<Rightarrow> u8 list \<Rightarrow> nat \<Rightarrow> u8 list \<Rightarrow> (nat \<times> u8 list) option" where
  "gather plane img bufferIndex buffer =
     (if plane < IMAGE_SIZE then
        do { c \<leftarrow> aget img plane;
             buffer \<leftarrow> aput buffer bufferIndex c;
             gather (plane + 4) img (bufferIndex + 1) buffer }
      else Some (bufferIndex, buffer))"
  by pat_completeness auto
termination
  by (relation "measure (\<lambda>(plane, img, b, buffer). IMAGE_SIZE - plane)") auto

declare gather.simps [simp del]

definition separate_planes :: "u8 list \<Rightarrow> u8 list \<Rightarrow> u8 list option" where
  "separate_planes img buffer =
     do { (i, buffer) \<leftarrow> gather 3 img 0 buffer;
          (i, buffer) \<leftarrow> gather 2 img i buffer;
          (i, buffer) \<leftarrow> gather 1 img i buffer;
          (i, buffer) \<leftarrow> gather 0 img i buffer;
          Some buffer }"

primrec show_planes :: "nat list \<Rightarrow> u8 list \<Rightarrow> video \<Rightarrow> video option" where
  "show_planes [] buffer v = Some v"
| "show_planes (i # is) buffer v =
     do { v \<leftarrow> copy_image buffer (PLANE_SIZE * i) (ucast MEM_IMAGE)
             (on_kern (set_write_mask (push_bit (i + 8) 1)) v);
          show_planes is buffer v }"

subsection \<open>Entering mode X\<close>

primrec set_fence :: "nat list \<Rightarrow> u8 list \<Rightarrow> u8 list option" where
  "set_fence [] b = Some b"
| "set_fence (i # is) b =
     do { b \<leftarrow> aput b i MEM_FENCE_MAGIC;
          b \<leftarrow> aput b (BUILD_BUF_SIZE + MEM_FENCE_WIDTH + i) MEM_FENCE_MAGIC;
          set_fence is b }"

definition map_pages :: "paging \<Rightarrow> u32 \<Rightarrow> nat \<Rightarrow> kstate \<Rightarrow> kstate" where
  "map_pages pg a n s = fold (\<lambda>i. kmap pg (a + of_nat i * FOUR_K) (a + of_nat i * FOUR_K)) [0..<n] s"

text \<open>The two local arrays are uninitialised; \<open>junk\<close> stands for their bytes.\<close>

definition set_mode_X :: "paging \<Rightarrow> hardware \<Rightarrow> u8 \<Rightarrow> video \<Rightarrow> (u32 \<times> video) option" where
  "set_mode_X pg hw junk v =
     (let v = on_kern (map_pages pg MEM_IMAGE 64) v;
          v = v\<lparr>show_x := 0, show_y := 0, img3_off := BUILD_BASE_INIT, img3 := BUILD_BASE_INIT + MEM_FENCE_WIDTH\<rparr>
      in do { b \<leftarrow> set_fence [0..<MEM_FENCE_WIDTH] (build v);
              let v = v\<lparr>build := b, target_img := 0\<rparr>;
              let v = on_kern (VGA_blank hw 1) v;
              let v = on_kern (load_tables hw mode_X_seq 0x63 mode_X_CRTC mode_X_attr mode_X_graphics) v;
              let v = on_kern fill_palette_mode_x v;
              let v = clear_screens v;
              let v = on_kern (VGA_blank hw 0) v;
              img \<leftarrow> paint (replicate IMAGE_SIZE junk);
              buffer \<leftarrow> separate_planes img (replicate IMAGE_SIZE junk);
              v \<leftarrow> show_planes [0, 1, 2, 3] buffer v;
              Some (0, v) })"

subsection \<open>Back to text mode\<close>

definition write_font :: "video \<Rightarrow> video" where
  "write_font v = fold (\<lambda>i. vstores (MEM_IMAGE + 32 * of_nat i) (font_data ! i)) [0..<256] v"

definition write_font_data :: "video \<Rightarrow> video" where
  "write_font_data v =
     (let v = on_kern (rep_outsw 0x3C4 [0x0402, 0x0704]) v;
          v = on_kern (rep_outsw 0x3CE [0x0005, 0x0406, 0x0204]) v;
          v = write_font v;
          v = on_kern (rep_outsw 0x3C4 [0x0302, 0x0304]) v
      in on_kern (rep_outsw 0x3CE [0x1005, 0x0E06, 0x0004]) v)"

definition clear_text :: "kstate \<Rightarrow> kstate" where
  "clear_text s = fold (\<lambda>i. wr32 (BASE_VIDEO_MEM + 4 * of_nat i) 0x07200720) [0..<8192] s"

definition set_text_mode_3 :: "paging \<Rightarrow> hardware \<Rightarrow> u32 \<Rightarrow> video \<Rightarrow> video" where
  "set_text_mode_3 pg hw clear_scr v =
     (let v = on_kern (VGA_blank hw 1) v;
          v = on_kern (load_tables hw text_seq 0x67 text_CRTC text_attr text_graphics) v;
          v = on_kern fill_palette_text v;
          v = (if clear_scr \<noteq> 0 then on_kern clear_text v else v);
          v = write_font_data v;
          v = on_kern (VGA_blank hw 0) v
      in on_kern (map_pages pg BASE_VIDEO_MEM 4) v)"

text \<open>The two checks of the fence print a message at the first broken byte.\<close>

definition fence_ok :: "nat \<Rightarrow> u8 list \<Rightarrow> bool" where
  "fence_ok lo b \<longleftrightarrow> list_all (\<lambda>x. x = MEM_FENCE_MAGIC) (take MEM_FENCE_WIDTH (drop lo b))"

definition fence_message :: "char list \<Rightarrow> bool \<Rightarrow> video \<Rightarrow> video option" where
  "fence_message msg ok v =
     (if ok then Some v else map_option (\<lambda>(_, s). v\<lparr>kern := s\<rparr>) (puts (map of_char msg @ [0]) 0 (kern v)))"

definition clear_mode_X :: "paging \<Rightarrow> hardware \<Rightarrow> video \<Rightarrow> video option" where
  "clear_mode_X pg hw v =
     (let v = set_text_mode_3 pg hw 1 v
      in do { v \<leftarrow> fence_message ''lower build fence was broken'' (fence_ok 0 (build v)) v;
              fence_message ''upper build fence was broken''
                (fence_ok (BUILD_BUF_SIZE + MEM_FENCE_WIDTH) (build v)) v })"

subsection \<open>Stores in the window\<close>

lemma on_kern_fields [simp]:
  "kern (on_kern f v) = f (kern v)" "planes (on_kern f v) = planes v" "build (on_kern f v) = build v"
  "vga0 (on_kern f v) = vga0 v"
  by (simp_all add: on_kern_def)

lemma vga_planes [simp]: "vga (v\<lparr>planes := p\<rparr>) = vga v"
  by (simp add: vga_def)

definition window :: "u32 \<Rightarrow> nat \<Rightarrow> bool" where
  "window w n \<longleftrightarrow> 0xA0000 \<le> unat w \<and> unat w + n \<le> 0xB0000"

definition plane_put :: "u32 \<Rightarrow> u8 list \<Rightarrow> u8 \<Rightarrow> (nat \<Rightarrow> u32 \<Rightarrow> u8) \<Rightarrow> nat \<Rightarrow> u32 \<Rightarrow> u8" where
  "plane_put w bs sel pl p x =
     (if p < 4 \<and> bit sel p \<and> within x w (length bs) then bs ! unat (x - w) else pl p x)"

lemma window_store:
  assumes "window w n" and "i < n"
  shows "MEM_IMAGE \<le> w + of_nat i" "w + of_nat i < 0xB0000"
proof -
  have "unat (w + of_nat i) = unat w + i"
    using assms by (intro unat_offset) (simp add: window_def)
  then show "MEM_IMAGE \<le> w + of_nat i" "w + of_nat i < 0xB0000"
    using assms by (simp_all add: window_def word_le_nat_alt word_less_nat_alt del: of_nat_add)
qed

lemma vstores_planes:
  assumes lin: "linear (kern v) a w (length bs)" and win: "window w (length bs)"
  shows "vstores a bs v = v\<lparr>planes := plane_put w bs (seq (vga v) 2) (planes v)\<rparr>"
proof -
  have len: "length bs \<le> 65536" using win by (simp add: window_def)
  have "fold (\<lambda>i. vstore (a + of_nat i) (bs ! i)) [0..<n] v =
      v\<lparr>planes := plane_put w (take n bs) (seq (vga v) 2) (planes v)\<rparr>" if "n \<le> length bs" for n
    using that
  proof (induction n)
    case 0
    have "plane_put w [] (seq (vga v) 2) (planes v) = planes v"
      by (simp add: fun_eq_iff plane_put_def within_def)
    then show ?case by simp
  next
    case (Suc n)
    let ?v = "v\<lparr>planes := plane_put w (take n bs) (seq (vga v) 2) (planes v)\<rparr>"
    have m: "mmu (kern ?v) (a + of_nat n) = w + of_nat n"
      using lin Suc.prems by (simp add: linear_def)
    have n: "n < 2 ^ 32" using Suc.prems len by simp
    have u: "unat (w + of_nat n - w) = n" using n by (simp add: unat_of_nat take_bit_nat_eq_self)
    have "vstore (a + of_nat n) (bs ! n) ?v = v\<lparr>planes := plane_put w (take (Suc n) bs) (seq (vga v) 2) (planes v)\<rparr>"
      unfolding vstore_def Let_def m using window_store [OF win, of n] Suc.prems u
      by (auto simp: fun_eq_iff plane_put_def within_Suc [OF n] min_def within_def less_Suc_eq
          intro!: video.fold_congs(3))
    then show ?case using Suc by (simp add: on_kern_def)
  qed
  from this [of "length bs"] show ?thesis by (simp add: vstores_def)
qed

subsection \<open>The picture\<close>

lemma fill_range_nth:
  assumes "hi \<le> length buf"
  shows "\<exists>b. fill_range i hi c buf = Some b \<and> length b = length buf
    \<and> (\<forall>n<length buf. b ! n = (if i \<le> n \<and> n < hi then c else buf ! n))"
  using assms
proof (induction i hi c buf rule: fill_range.induct)
  case (1 i hi c buf)
  show ?case
  proof (cases "i < hi")
    case True
    then obtain b where "fill_range (i + 1) hi c (buf[i := c]) = Some b" "length b = length buf"
      "\<forall>n<length buf. b ! n = (if i + 1 \<le> n \<and> n < hi then c else (buf[i := c]) ! n)"
      using "1.IH" [of "buf[i := c]"] "1.prems" by auto
    then show ?thesis
      using True "1.prems" by (auto simp: fill_range.simps [of i] nth_updated)
  next
    case False
    then show ?thesis by (auto simp: fill_range.simps [of i])
  qed
qed

text \<open>The five bands of the picture.\<close>

definition band :: "nat \<Rightarrow> u8" where
  "band n = (if n < 16000 then 1 else if n < 32000 then 4 else if n < 48000 then 5 else if n < 63040 then 3 else 7)"

lemma paint_band:
  assumes "length buf = IMAGE_SIZE"
  shows "\<exists>img. paint buf = Some img \<and> length img = IMAGE_SIZE \<and> (\<forall>n<IMAGE_SIZE. img ! n = band n)"
proof -
  have le: "16000 \<le> IMAGE_SIZE" "32000 \<le> IMAGE_SIZE" "48000 \<le> IMAGE_SIZE" "63040 \<le> IMAGE_SIZE" "64000 = IMAGE_SIZE"
    "320 * 3 \<le> IMAGE_SIZE" "64000 - 320 * 3 \<le> IMAGE_SIZE"
    by (simp_all add: IMAGE_SIZE_def)
  obtain b1 where b1: "fill_range 0 IMAGE_SIZE 7 buf = Some b1" "length b1 = IMAGE_SIZE"
    using fill_range_nth [of IMAGE_SIZE buf 0 7] assms by auto
  obtain b2 where b2: "fill_range 0 (320 * 3) 1 b1 = Some b2" "length b2 = IMAGE_SIZE"
      "\<forall>n<IMAGE_SIZE. b2 ! n = (if n < 320 * 3 then 1 else b1 ! n)"
    using fill_range_nth [of "320 * 3" b1 0 1] b1 le by auto
  obtain b3 where b3: "fill_range (320 * 3) 16000 1 b2 = Some b3" "length b3 = IMAGE_SIZE"
      "\<forall>n<IMAGE_SIZE. b3 ! n = (if 320 * 3 \<le> n \<and> n < 16000 then 1 else b2 ! n)"
    using fill_range_nth [of 16000 b2 "320 * 3" 1] b2 le by auto
  obtain b4 where b4: "fill_range 16000 32000 4 b3 = Some b4" "length b4 = IMAGE_SIZE"
      "\<forall>n<IMAGE_SIZE. b4 ! n = (if 16000 \<le> n \<and> n < 32000 then 4 else b3 ! n)"
    using fill_range_nth [of 32000 b3 16000 4] b3 le by auto
  obtain b5 where b5: "fill_range 32000 48000 5 b4 = Some b5" "length b5 = IMAGE_SIZE"
      "\<forall>n<IMAGE_SIZE. b5 ! n = (if 32000 \<le> n \<and> n < 48000 then 5 else b4 ! n)"
    using fill_range_nth [of 48000 b4 32000 5] b4 le by auto
  obtain b6 where b6: "fill_range 48000 (64000 - 320 * 3) 3 b5 = Some b6" "length b6 = IMAGE_SIZE"
      "\<forall>n<IMAGE_SIZE. b6 ! n = (if 48000 \<le> n \<and> n < 64000 - 320 * 3 then 3 else b5 ! n)"
    using fill_range_nth [of "64000 - 320 * 3" b5 48000 3] b5 le by auto
  obtain b7 where b7: "fill_range (64000 - 320 * 3) 64000 7 b6 = Some b7" "length b7 = IMAGE_SIZE"
      "\<forall>n<IMAGE_SIZE. b7 ! n = (if 64000 - 320 * 3 \<le> n \<and> n < 64000 then 7 else b6 ! n)"
    using fill_range_nth [of 64000 b6 "64000 - 320 * 3" 7] b6 le by auto
  have "paint buf = Some b7" by (simp only: paint_def b1 b2 b3 b4 b5 b6 b7 Option.bind.simps)
  moreover have "\<forall>n<IMAGE_SIZE. b7 ! n = band n"
    using b2(3) b3(3) b4(3) b5(3) b6(3) b7(3) by (simp add: band_def le(5) [symmetric])
  ultimately show ?thesis using b7(2) by blast
qed

lemma gather_nth:
  assumes "length img = IMAGE_SIZE" and "r < 4" and "k \<le> PLANE_SIZE" and "b0 + PLANE_SIZE \<le> length buf"
  shows "\<exists>b. gather (r + 4 * k) img (b0 + k) buf = Some (b0 + PLANE_SIZE, b) \<and> length b = length buf
    \<and> (\<forall>n<length buf. b ! n = (if b0 + k \<le> n \<and> n < b0 + PLANE_SIZE then img ! (r + 4 * (n - b0)) else buf ! n))"
  using assms(3,4)
proof (induction "PLANE_SIZE - k" arbitrary: k buf)
  case 0
  then have "k = PLANE_SIZE" by simp
  moreover have "\<not> r + 4 * PLANE_SIZE < IMAGE_SIZE" by (simp add: PLANE_SIZE_def IMAGE_SIZE_def)
  ultimately show ?case by (auto simp: gather.simps)
next
  case (Suc m)
  then have k: "k < PLANE_SIZE" by simp
  then have i: "r + 4 * k < IMAGE_SIZE" using assms(2) by (simp add: PLANE_SIZE_def IMAGE_SIZE_def)
  let ?c = "img ! (r + 4 * k)"
  have "m = PLANE_SIZE - (k + 1)" using Suc.hyps(2) by simp
  then obtain b where b: "gather (r + 4 * (k + 1)) img (b0 + (k + 1)) (buf[b0 + k := ?c]) = Some (b0 + PLANE_SIZE, b)"
    "length b = length buf" "\<forall>n<length buf. b ! n = (if b0 + (k + 1) \<le> n \<and> n < b0 + PLANE_SIZE
       then img ! (r + 4 * (n - b0)) else (buf[b0 + k := ?c]) ! n)"
    using Suc.hyps(1) [of "k + 1" "buf[b0 + k := ?c]"] k Suc.prems by auto
  have "gather (r + 4 * k) img (b0 + k) buf = Some (b0 + PLANE_SIZE, b)"
    using b(1) i k Suc.prems assms(1) by (subst gather.simps) (simp add: algebra_simps)
  moreover have "\<forall>n<length buf. b ! n = (if b0 + k \<le> n \<and> n < b0 + PLANE_SIZE then img ! (r + 4 * (n - b0)) else buf ! n)"
    using b(3) k Suc.prems by (auto simp: nth_updated not_less_eq_eq le_antisym)
  ultimately show ?case using b(2) by blast
qed

lemma separate_planes_nth:
  assumes "length img = IMAGE_SIZE" and "length buf = IMAGE_SIZE"
  shows "\<exists>b. separate_planes img buf = Some b \<and> length b = IMAGE_SIZE
    \<and> (\<forall>i<4. \<forall>k<PLANE_SIZE. b ! (PLANE_SIZE * i + k) = img ! (4 * k + (3 - i)))"
proof -
  have size: "IMAGE_SIZE = 4 * PLANE_SIZE" by (simp add: IMAGE_SIZE_def PLANE_SIZE_def)
  note g = gather_nth [OF assms(1), where k = 0, simplified]
  obtain b0 where b0: "gather 3 img 0 buf = Some (PLANE_SIZE, b0)" "length b0 = IMAGE_SIZE"
      "\<forall>n<IMAGE_SIZE. b0 ! n = (if n < PLANE_SIZE then img ! (3 + 4 * n) else buf ! n)"
    using g [of 3 0 buf] assms(2) size by auto
  obtain b1 where b1: "gather 2 img PLANE_SIZE b0 = Some (PLANE_SIZE + PLANE_SIZE, b1)" "length b1 = IMAGE_SIZE"
      "\<forall>n<IMAGE_SIZE. b1 ! n = (if PLANE_SIZE \<le> n \<and> n < PLANE_SIZE + PLANE_SIZE then img ! (2 + 4 * (n - PLANE_SIZE)) else b0 ! n)"
    using g [of 2 PLANE_SIZE b0] b0(2) size by auto
  obtain b2 where b2: "gather 1 img (PLANE_SIZE + PLANE_SIZE) b1 = Some (3 * PLANE_SIZE, b2)" "length b2 = IMAGE_SIZE"
      "\<forall>n<IMAGE_SIZE. b2 ! n = (if 2 * PLANE_SIZE \<le> n \<and> n < 3 * PLANE_SIZE then img ! (1 + 4 * (n - 2 * PLANE_SIZE)) else b1 ! n)"
    using g [of 1 "2 * PLANE_SIZE" b1] b1(2) size by (auto simp: mult_2)
  obtain b3 where b3: "gather 0 img (3 * PLANE_SIZE) b2 = Some (4 * PLANE_SIZE, b3)" "length b3 = IMAGE_SIZE"
      "\<forall>n<IMAGE_SIZE. b3 ! n = (if 3 * PLANE_SIZE \<le> n \<and> n < 4 * PLANE_SIZE then img ! (4 * (n - 3 * PLANE_SIZE)) else b2 ! n)"
    using g [of 0 "3 * PLANE_SIZE" b2] b2(2) size by auto
  have "separate_planes img buf = Some b3"
    by (simp only: separate_planes_def b0 b1 b2 b3 Option.bind.simps prod.case)
  moreover have "b3 ! (PLANE_SIZE * i + k) = img ! (4 * k + (3 - i))" if "i < 4" "k < PLANE_SIZE" for i k
  proof -
    have "i \<in> {0, 1, 2, 3}" using that(1) by auto
    then show ?thesis using that(2) b0(3) b1(3) b2(3) b3(3) size by (auto simp: algebra_simps)
  qed
  ultimately show ?thesis using b3(2) by blast
qed

subsection \<open>The pages of video memory\<close>

lemma map_pages_fields [simp]:
  "mem (map_pages pg a n s) = mem s" "io (map_pages pg a n s) = io s" "eflags (map_pages pg a n s) = eflags s"
  unfolding map_pages_def by (induction n) simp_all

lemma page_addr:
  assumes "page a" and "unat a + 4096 * n \<le> 2 ^ 32" and "i < n"
  shows "unat (a + of_nat i * FOUR_K) = unat a + 4096 * i" and "page (a + of_nat i * FOUR_K)"
proof -
  have "a + of_nat i * FOUR_K = a + of_nat (4096 * i)" by (simp add: mult.commute)
  moreover have "unat a + 4096 * i < 2 ^ 32" using assms(2,3) by simp
  ultimately show u: "unat (a + of_nat i * FOUR_K) = unat a + 4096 * i" by (simp only: unat_offset)
  show "page (a + of_nat i * FOUR_K)" using assms(1) by (simp only: page_def u) simp
qed

lemma map_pages_maps:
  assumes "paging_ok pg" and "page a" and "0x1000 \<le> unat a" and "unat a + 4096 * n \<le> 0x400000" and "i < n"
  shows "maps (map_pages pg a n s) (a + of_nat i * FOUR_K) (a + of_nat i * FOUR_K)"
  using assms(4,5)
proof (induction n)
  case (Suc n)
  let ?p = "\<lambda>j. a + of_nat j * FOUR_K"
  have fit: "unat a + 4096 * Suc n \<le> 2 ^ 32" using Suc.prems by simp
  note addr = page_addr [OF assms(2) fit]
  have reg: "paged_region (?p n)"
    using addr(1) [of n] Suc.prems assms(3) by (simp add: paged_region_def word_le_nat_alt word_less_nat_alt)
  have "?p i = ?p n \<longleftrightarrow> i = n"
  proof
    assume "?p i = ?p n"
    then have "unat (?p i) = unat (?p n)" by simp
    then show "i = n" using addr(1) [of i] addr(1) [of n] Suc.prems by simp
  qed simp
  moreover have "map_pages pg a (Suc n) s = kmap pg (?p n) (?p n) (map_pages pg a n s)"
    by (simp add: map_pages_def)
  moreover have "page (?p n)" "page (?p i)" using addr(2) Suc.prems by simp_all
  ultimately show ?case
    using kmap_maps [OF assms(1) _ reg, of "?p n" "?p i" "map_pages pg a n s" "?p i"] Suc
    by (auto simp: less_Suc_eq)
qed simp

lemma linear_pages:
  assumes "\<forall>i<n. maps s (a + of_nat i * FOUR_K) (a + of_nat i * FOUR_K)"
  shows "linear s a a (4096 * n)"
  unfolding linear_def
proof (intro allI impI)
  fix k assume "k < 4096 * n"
  then have d: "k div 4096 < n" by (simp add: less_mult_imp_div_less mult.commute)
  have k: "a + of_nat k = a + of_nat (k div 4096) * FOUR_K + of_nat (k mod 4096)"
  proof -
    have "(of_nat k :: u32) = of_nat (k div 4096 * 4096 + k mod 4096)" by simp
    then show ?thesis by (simp only: of_nat_add of_nat_mult) simp
  qed
  show "mmu s (a + of_nat k) = a + of_nat k"
    unfolding k using assms d by (simp add: maps_def linear_def)
qed

lemma window_mapped:
  assumes "paging_ok pg"
  shows "linear (map_pages pg MEM_IMAGE 64 s) MEM_IMAGE MEM_IMAGE 262144"
  using linear_pages [of 64 "map_pages pg MEM_IMAGE 64 s" MEM_IMAGE] map_pages_maps [OF assms, of MEM_IMAGE 64]
  by (simp add: page_def)

subsection \<open>Registers along the way\<close>

lemma vga_on_kern: "vga (on_kern f v) = vga_of (vga0 v) (io (f (kern v)))"
  by (simp add: vga_def on_kern_def)

lemma VGA_blank_vga:
  assumes "vga_reads_back (vga0 v) hw"
  shows "vga (on_kern (VGA_blank hw b) v) = (vga v)\<lparr>seq_index := 1,
     seq := (seq (vga v))(1 := ucast ((ucast (seq (vga v) 1) AND 0xDF) OR push_bit 5 (b AND 1) :: u32)),
     attr_flip := False, attr_index := 0x20\<rparr>"
proof -
  have "hw (Out 0x3C4 1 # h) 0x3C5 = seq (vga_of (vga0 v) h) 1" for h
    using assms by (simp add: vga_reads_back_def vga_out_def)
  then show ?thesis
    by (simp add: vga_on_kern VGA_blank_def Let_def case_prod_beta vga_out_def) (simp add: vga_def)
qed

lemma set_write_mask_vga:
  "vga (on_kern (set_write_mask 0x0F00) v) = (vga v)\<lparr>seq_index := 2, seq := (seq (vga v))(2 := 0x0F)\<rparr>"
  "i < 4 \<Longrightarrow> vga (on_kern (set_write_mask (push_bit (i + 8) 1)) v) =
     (vga v)\<lparr>seq_index := 2, seq := (seq (vga v))(2 := push_bit i 1)\<rparr>"
proof -
  have w: "vga (on_kern (set_write_mask m) v) = (vga v)\<lparr>seq_index := ucast ((m AND 0xFF00) OR 2),
      seq := (seq (vga v))(ucast ((m AND 0xFF00) OR 2) := ucast (drop_bit 8 ((m AND 0xFF00) OR 2)))\<rparr>" for m
    by (simp add: vga_on_kern set_write_mask_def vga_out_def) (simp add: vga_def)
  have n: "(3842 :: u8) = 2" "(258 :: u8) = 2" "(514 :: u8) = 2" "(1026 :: u8) = 2" "(2050 :: u8) = 2" by simp_all
  show "vga (on_kern (set_write_mask 0x0F00) v) = (vga v)\<lparr>seq_index := 2, seq := (seq (vga v))(2 := 0x0F)\<rparr>"
    unfolding w by (simp add: n)
  assume "i < 4"
  then have "i = 0 \<or> i = 1 \<or> i = 2 \<or> i = 3" by auto
  then show "vga (on_kern (set_write_mask (push_bit (i + 8) 1)) v) =
     (vga v)\<lparr>seq_index := 2, seq := (seq (vga v))(2 := push_bit i 1)\<rparr>"
    unfolding w by (elim disjE) (simp_all add: n)
qed

lemma machine_steps [simp]:
  "mmu (VGA_blank hw b s) = mmu s" "mem (VGA_blank hw b s) = mem s"
  "mmu (load_tables hw sq val ct at gt s) = mmu s" "mem (load_tables hw sq val ct at gt s) = mem s"
  "mmu (fill_palette_mode_x s) = mmu s" "mmu (fill_palette_text s) = mmu s" "mem (fill_palette_text s) = mem s"
  "mmu (set_write_mask m s) = mmu s" "io (cld s) = io s"
  by (simp_all add: VGA_blank_def load_tables_def set_seq_regs_and_reset_def set_CRTC_registers_def
      set_attr_registers_def set_graphics_registers_def fill_palette_mode_x_def fill_palette_text_def
      set_write_mask_def case_prod_beta Let_def) (simp add: cld_def)

lemma vga_cld [simp]: "vga (on_kern cld v) = vga v"
  by (simp add: vga_on_kern) (simp add: vga_def)

lemma palette_length: "length (palette_bytes palette_mode_x) = 192" "length (palette_bytes palette_text) = 96"
  by (simp_all add: palette_bytes_def palette_mode_x_def palette_text_def)

lemma fill_palette_vga:
  "\<exists>n. vga (on_kern fill_palette_mode_x v) = (vga v)\<lparr>dac_pos := n,
     dac := \<lambda>k. if k < 192 then palette_bytes palette_mode_x ! k AND 0x3F else dac (vga v) k\<rparr>"
  "\<exists>n. vga (on_kern fill_palette_text v) = (vga v)\<lparr>dac_pos := n,
     dac := \<lambda>k. if k < 96 then palette_bytes palette_text ! k AND 0x3F else dac (vga v) k\<rparr>"
  using dac_load [of "(vga v)\<lparr>dac_pos := 0\<rparr>" "palette_bytes palette_mode_x"]
    dac_load [of "(vga v)\<lparr>dac_pos := 0\<rparr>" "palette_bytes palette_text"]
  by (simp_all add: palette_length vga_on_kern fill_palette_mode_x_def fill_palette_text_def vga_out_def cong: if_cong)
    (simp_all add: vga_def)

text \<open>Registers that differ in the map mask of the sequencer only.\<close>

definition same_mode :: "vga_regs \<Rightarrow> vga_regs \<Rightarrow> bool" where
  "same_mode R R' \<longleftrightarrow> R' = R\<lparr>seq := seq R', seq_index := seq_index R'\<rparr> \<and> (\<forall>r. r \<noteq> 2 \<longrightarrow> seq R' r = seq R r)"

lemma same_mode_trans: "same_mode R S \<Longrightarrow> same_mode S T \<Longrightarrow> same_mode R T"
  unfolding same_mode_def by (metis (no_types, lifting) vga_regs.surjective vga_regs.update_convs(1,2))

lemma same_mode_fields:
  assumes "same_mode R R'"
  shows "crtc R' = crtc R" "attr R' = attr R" "gfx R' = gfx R" "dac R' = dac R" "misc R' = misc R"
    "attr_index R' = attr_index R" "r \<noteq> 2 \<Longrightarrow> seq R' r = seq R r"
proof -
  have R': "R' = R\<lparr>seq := seq R', seq_index := seq_index R'\<rparr>" using assms by (simp add: same_mode_def)
  show "crtc R' = crtc R" "attr R' = attr R" "gfx R' = gfx R" "dac R' = dac R" "misc R' = misc R"
    "attr_index R' = attr_index R" by (subst R', simp)+
  show "r \<noteq> 2 \<Longrightarrow> seq R' r = seq R r" using assms by (simp add: same_mode_def)
qed

text \<open>What drawing leaves alone.\<close>

definition draw_frame :: "video \<Rightarrow> video \<Rightarrow> bool" where
  "draw_frame v v' \<longleftrightarrow> mmu (kern v') = mmu (kern v) \<and> mem (kern v') = mem (kern v) \<and> build v' = build v
     \<and> vga0 v' = vga0 v \<and> same_mode (vga v) (vga v')"

lemma draw_frame_trans: "draw_frame u v \<Longrightarrow> draw_frame v w \<Longrightarrow> draw_frame u w"
  unfolding draw_frame_def using same_mode_trans by metis

lemma show_plane:
  assumes "linear (kern v) MEM_IMAGE MEM_IMAGE 65536" and "length buffer = IMAGE_SIZE" and "i < 4"
  shows "\<exists>v'. copy_image buffer (PLANE_SIZE * i) (ucast MEM_IMAGE) (on_kern (set_write_mask (push_bit (i + 8) 1)) v) = Some v'
    \<and> planes v' = plane_put MEM_IMAGE (take PLANE_SIZE (drop (PLANE_SIZE * i) buffer)) (push_bit i 1) (planes v)
    \<and> draw_frame v v'"
proof -
  let ?w = "on_kern cld (on_kern (set_write_mask (push_bit (i + 8) 1)) v)"
  let ?b = "take PLANE_SIZE (drop (PLANE_SIZE * i) buffer)"
  have fit: "PLANE_SIZE * i + PLANE_SIZE \<le> length buffer"
    using assms(2,3) by (simp add: PLANE_SIZE_def IMAGE_SIZE_def)
  have "length ?b = PLANE_SIZE" using fit by simp
  then have "linear (kern ?w) MEM_IMAGE MEM_IMAGE (length ?b)" "window MEM_IMAGE (length ?b)"
    using assms(1) by (simp_all add: linear_def window_def PLANE_SIZE_def)
  then have v': "vstores MEM_IMAGE ?b ?w = ?w\<lparr>planes := plane_put MEM_IMAGE ?b (push_bit i 1) (planes v)\<rparr>"
    unfolding vstores_planes [OF \<open>linear (kern ?w) MEM_IMAGE MEM_IMAGE (length ?b)\<close> \<open>window MEM_IMAGE (length ?b)\<close>]
      vga_cld set_write_mask_vga(2) [OF assms(3)] by simp
  have "draw_frame v (?w\<lparr>planes := plane_put MEM_IMAGE ?b (push_bit i 1) (planes v)\<rparr>)"
    using set_write_mask_vga(2) [OF assms(3), of v]
    by (simp add: draw_frame_def same_mode_def set_write_mask_def)
  then show ?thesis using fit v' by (simp add: copy_image_def)
qed

lemma show_planes_eq:
  assumes "linear (kern v) MEM_IMAGE MEM_IMAGE 65536" and "length buffer = IMAGE_SIZE" and "set is \<subseteq> {..<4}"
  shows "\<exists>v'. show_planes is buffer v = Some v' \<and> (is \<noteq> [] \<longrightarrow> draw_frame v v')
    \<and> (\<forall>p x. planes v' p x = (if p \<in> set is \<and> within x MEM_IMAGE PLANE_SIZE
          then buffer ! (PLANE_SIZE * p + unat (x - MEM_IMAGE)) else planes v p x))"
  using assms(1,3)
proof (induction "is" arbitrary: v)
  case Nil
  then show ?case by simp
next
  case (Cons i "is")
  let ?b = "take PLANE_SIZE (drop (PLANE_SIZE * i) buffer)"
  obtain u where u: "copy_image buffer (PLANE_SIZE * i) (ucast MEM_IMAGE)
        (on_kern (set_write_mask (push_bit (i + 8) 1)) v) = Some u"
      "planes u = plane_put MEM_IMAGE ?b (push_bit i 1) (planes v)" "draw_frame v u"
    using show_plane [OF Cons.prems(1) assms(2), of i] Cons.prems(2) by auto
  then have "linear (kern u) MEM_IMAGE MEM_IMAGE 65536" using Cons.prems(1) by (simp add: draw_frame_def linear_def)
  then obtain w where w: "show_planes is buffer u = Some w" "is \<noteq> [] \<longrightarrow> draw_frame u w"
      "\<forall>p x. planes w p x = (if p \<in> set is \<and> within x MEM_IMAGE PLANE_SIZE
          then buffer ! (PLANE_SIZE * p + unat (x - MEM_IMAGE)) else planes u p x)"
    using Cons.IH [of u] Cons.prems(2) by auto
  have fit: "PLANE_SIZE * i + PLANE_SIZE \<le> length buffer"
    using assms(2) Cons.prems(2) by (auto simp: PLANE_SIZE_def IMAGE_SIZE_def)
  have "bit (push_bit i 1 :: u8) p \<longleftrightarrow> p = i" if "p < 4" for p
    using that Cons.prems(2) by (auto simp: bit_simps)
  then have "planes u p x = (if p = i \<and> within x MEM_IMAGE PLANE_SIZE
      then buffer ! (PLANE_SIZE * i + unat (x - MEM_IMAGE)) else planes v p x)" for p x
    using fit Cons.prems(2) by (auto simp: u(2) plane_put_def within_def)
  then have "\<forall>p x. planes w p x = (if p \<in> set (i # is) \<and> within x MEM_IMAGE PLANE_SIZE
      then buffer ! (PLANE_SIZE * p + unat (x - MEM_IMAGE)) else planes v p x)"
    using w(3) by auto
  moreover have "draw_frame v w"
    using u(3) w(1,2) draw_frame_trans by (cases "is") auto
  ultimately show ?case using u(1) w(1) by auto
qed

subsection \<open>The fence\<close>

lemma set_fence_nth:
  assumes "length b = BUILD_BUF_SIZE + 2 * MEM_FENCE_WIDTH" and "set is \<subseteq> {..<MEM_FENCE_WIDTH}"
  shows "\<exists>b'. set_fence is b = Some b' \<and> length b' = length b \<and> (\<forall>n<length b. b' ! n =
     (if n \<in> set is \<or> (\<exists>i\<in>set is. n = BUILD_BUF_SIZE + MEM_FENCE_WIDTH + i) then MEM_FENCE_MAGIC else b ! n))"
  using assms
proof (induction "is" arbitrary: b)
  case (Cons i "is")
  let ?j = "BUILD_BUF_SIZE + MEM_FENCE_WIDTH + i"
  let ?b = "b[i := MEM_FENCE_MAGIC, ?j := MEM_FENCE_MAGIC]"
  have i: "i < length b" "?j < length b" using Cons.prems by auto
  obtain b' where b': "set_fence is ?b = Some b'" "length b' = length b" "\<forall>n<length b. b' ! n =
     (if n \<in> set is \<or> (\<exists>k\<in>set is. n = BUILD_BUF_SIZE + MEM_FENCE_WIDTH + k) then MEM_FENCE_MAGIC else ?b ! n)"
    using Cons.IH [of ?b] Cons.prems by auto
  have "set_fence (i # is) b = Some b'" using b'(1) i by simp
  moreover have "\<forall>n<length b. b' ! n = (if n \<in> set (i # is) \<or> (\<exists>k\<in>set (i # is). n = BUILD_BUF_SIZE + MEM_FENCE_WIDTH + k)
      then MEM_FENCE_MAGIC else b ! n)"
    using b'(3) i by (auto simp: nth_updated)
  ultimately show ?case using b'(2) by blast
qed simp

lemma fence_set:
  assumes "length b = BUILD_BUF_SIZE + 2 * MEM_FENCE_WIDTH"
  shows "\<exists>b'. set_fence [0..<MEM_FENCE_WIDTH] b = Some b' \<and> length b' = length b
    \<and> fence_ok 0 b' \<and> fence_ok (BUILD_BUF_SIZE + MEM_FENCE_WIDTH) b'"
proof -
  have "set [0..<MEM_FENCE_WIDTH] \<subseteq> {..<MEM_FENCE_WIDTH}" by auto
  from set_fence_nth [OF assms this] obtain b' where b': "set_fence [0..<MEM_FENCE_WIDTH] b = Some b'" "length b' = length b"
    "\<forall>n<length b. b' ! n = (if n \<in> set [0..<MEM_FENCE_WIDTH] \<or> (\<exists>k\<in>set [0..<MEM_FENCE_WIDTH].
       n = BUILD_BUF_SIZE + MEM_FENCE_WIDTH + k) then MEM_FENCE_MAGIC else b ! n)" by blast
  have "b' ! n = MEM_FENCE_MAGIC" if "n < MEM_FENCE_WIDTH" for n
    using b'(3) that assms by simp
  moreover have "b' ! (BUILD_BUF_SIZE + MEM_FENCE_WIDTH + n) = MEM_FENCE_MAGIC" if "n < MEM_FENCE_WIDTH" for n
    using b'(3) that assms by simp
  ultimately show ?thesis using b' assms by (auto simp: fence_ok_def list_all_length)
qed

subsection \<open>Mode X\<close>

text \<open>The registers of a mode: every entry of its tables is in the register it names, and the display
  is enabled.\<close>

definition mode_regs :: "u8 \<Rightarrow> u16 list \<Rightarrow> u8 list \<Rightarrow> u16 list \<Rightarrow> vga_regs \<Rightarrow> bool" where
  "mode_regs val ct at gt R \<longleftrightarrow> misc R = val \<and> attr_index R = 0x20
     \<and> list_all (\<lambda>(r, x). crtc R r = x) (entries ct) \<and> list_all (\<lambda>(r, x). attr R r = x) (byte_entries at)
     \<and> list_all (\<lambda>(r, x). gfx R r = x) (entries gt)"

lemma put_pairs_all: "distinct (map fst ps) \<Longrightarrow> list_all (\<lambda>(r, x). put_pairs ps f r = x) ps"
  by (auto simp: list_all_iff put_pairs_lookup)

lemma band_group:
  assumes "p < 4" and "q < 4"
  shows "band (4 * k + p) = band (4 * k + q)"
proof -
  have "4 * k + r < 16000 \<longleftrightarrow> k < 4000" "4 * k + r < 32000 \<longleftrightarrow> k < 8000"
    "4 * k + r < 48000 \<longleftrightarrow> k < 12000" "4 * k + r < 63040 \<longleftrightarrow> k < 15760" if "r < 4" for r
    using that by linarith+
  then show ?thesis using assms by (simp add: band_def)
qed

definition mode_X_ready :: "video \<Rightarrow> bool" where
  "mode_X_ready v \<longleftrightarrow> linear (kern v) MEM_IMAGE MEM_IMAGE 262144 \<and> length (build v) = BUILD_BUF_SIZE + 2 * MEM_FENCE_WIDTH
     \<and> fence_ok 0 (build v) \<and> fence_ok (BUILD_BUF_SIZE + MEM_FENCE_WIDTH) (build v)"

lemma seq_mode_X:
  "put_pairs (entries mode_X_seq @ [(0, 3)]) f 0 = 3" "put_pairs (entries mode_X_seq @ [(0, 3)]) f 1 = 0x21"
  "put_pairs (entries mode_X_seq @ [(0, 3)]) f 3 = 0" "put_pairs (entries mode_X_seq @ [(0, 3)]) f 4 = 6"
  by (simp_all add: entries_def mode_X_seq_def)

lemma bit_mask_low: "p < 4 \<Longrightarrow> bit (0x0F :: u8) p"
proof -
  have "(0x0F :: u8) = mask 4" by (simp add: mask_eq_exp_minus_1)
  then show "p < 4 \<Longrightarrow> bit (0x0F :: u8) p" by (simp only: bit_mask_iff) simp
qed

lemma clear_screens_eq:
  assumes "linear (kern v) MEM_IMAGE MEM_IMAGE 65536"
  shows "clear_screens v = (on_kern cld (on_kern (set_write_mask 0x0F00) v))
    \<lparr>planes := plane_put MEM_IMAGE (replicate 65536 3) 0x0F (planes v)\<rparr>"
proof -
  let ?w = "on_kern cld (on_kern (set_write_mask 0x0F00) v)"
  have "linear (kern ?w) MEM_IMAGE MEM_IMAGE (length (replicate 65536 (3 :: u8)))" "window MEM_IMAGE (length (replicate 65536 (3 :: u8)))"
    using assms by (simp_all add: linear_def window_def)
  from vstores_planes [OF this] show ?thesis by (simp add: clear_screens_def set_write_mask_vga)
qed

lemma tables_loaded:
  fixes hw :: hardware and sq gt :: "u16 list" and val :: u8 and v :: video
  assumes "crtc_loadable False (entries ct)" and "even (length at)"
    and "distinct (map fst (entries ct))" and "distinct (map fst (byte_entries at))"
  defines "R \<equiv> vga (on_kern (load_tables hw sq val ct at gt) v)"
  shows "misc R = val" "seq R = put_pairs (entries sq @ [(0, 3)]) (seq (vga v))"
    "list_all (\<lambda>(r, x). crtc R r = x) (entries ct)" "list_all (\<lambda>(r, x). attr R r = x) (byte_entries at)"
    "gfx R = put_pairs (entries gt) (gfx (vga v))"
proof -
  obtain j k l where "R = (vga v)\<lparr>
      seq := put_pairs (entries sq @ [(0, 3)]) (seq (vga v)), seq_index := 0, misc := val,
      crtc := put_pairs ((0x11, 0) # entries ct) (crtc (vga v)), crtc_index := j,
      attr_flip := True, attr := put_pairs (byte_entries at) (attr (vga v)), attr_index := k,
      gfx := put_pairs (entries gt) (gfx (vga v)), gfx_index := l\<rparr>"
    using load_tables_vga [OF assms(1,2), of "vga0 v" hw sq val gt "kern v"]
    unfolding R_def vga_on_kern vga_def [symmetric] Let_def by blast
  then show "misc R = val" "seq R = put_pairs (entries sq @ [(0, 3)]) (seq (vga v))"
    "list_all (\<lambda>(r, x). crtc R r = x) (entries ct)" "list_all (\<lambda>(r, x). attr R r = x) (byte_entries at)"
    "gfx R = put_pairs (entries gt) (gfx (vga v))"
    using put_pairs_all [OF assms(3)] put_pairs_all [OF assms(4)] by simp_all
qed

lemma palette_keeps:
  defines "R v \<equiv> vga (on_kern fill_palette_mode_x v)" and "T v \<equiv> vga (on_kern fill_palette_text v)"
  shows "misc (R v) = misc (vga v)" "seq (R v) = seq (vga v)" "crtc (R v) = crtc (vga v)"
    "attr (R v) = attr (vga v)" "gfx (R v) = gfx (vga v)"
    "misc (T v) = misc (vga v)" "seq (T v) = seq (vga v)" "crtc (T v) = crtc (vga v)"
    "attr (T v) = attr (vga v)" "gfx (T v) = gfx (vga v)" "k < 96 \<Longrightarrow> dac (T v) k = palette_bytes palette_text ! k AND 0x3F"
  using fill_palette_vga(1) [of v] fill_palette_vga(2) [of v] unfolding R_def T_def by auto

text \<open>The bytes of the planes behind a cleared screen and the four copies.\<close>

lemma picture_bytes:
  assumes "\<forall>n<IMAGE_SIZE. img ! n = band n" and "\<forall>i<4. \<forall>k<PLANE_SIZE. buf ! (PLANE_SIZE * i + k) = img ! (4 * k + (3 - i))"
    and "\<forall>p x. planes v' p x = (if p \<in> set [0, 1, 2, 3] \<and> within x MEM_IMAGE PLANE_SIZE
          then buf ! (PLANE_SIZE * p + unat (x - MEM_IMAGE)) else plane_put MEM_IMAGE (replicate 65536 3) 0x0F f p x)"
    and p: "p < 4" and k: "k < 65536"
  shows "planes v' p (MEM_IMAGE + of_nat k) = (if k < PLANE_SIZE then band (4 * k + p) else 3)"
proof -
  have u: "unat (MEM_IMAGE + of_nat k - MEM_IMAGE) = k" using k by (simp add: unat_of_nat take_bit_nat_eq_self)
  have "plane_put MEM_IMAGE (replicate 65536 3) 0x0F f p (MEM_IMAGE + of_nat k) = 3"
    using p k u bit_mask_low [OF p] by (simp add: plane_put_def within_def)
  moreover have "img ! (4 * k + (3 - p)) = band (4 * k + p)" if "k < PLANE_SIZE"
    using assms(1) that p band_group [of "3 - p" p k] by (simp add: IMAGE_SIZE_def PLANE_SIZE_def)
  ultimately show ?thesis using assms(2,3) p u by (auto simp: within_def)
qed

lemma set_mode_X_result:
  assumes pg: "paging_ok pg" and hw: "vga_reads_back (vga0 v) hw"
    and len: "length (build v) = BUILD_BUF_SIZE + 2 * MEM_FENCE_WIDTH"
  shows "\<exists>v'. set_mode_X pg hw junk v = Some (0, v') \<and> mode_X_ready v' \<and> vga0 v' = vga0 v
    \<and> mode_regs 0x63 mode_X_CRTC mode_X_attr mode_X_graphics (vga v') \<and> map (seq (vga v')) [0, 1, 3, 4] = [3, 1, 0, 6]
    \<and> (\<forall>p<4. \<forall>k<65536. planes v' p (MEM_IMAGE + of_nat k) = (if k < PLANE_SIZE then band (4 * k + p) else 3))"
proof -
  obtain b where b: "set_fence [0..<MEM_FENCE_WIDTH] (build v) = Some b" "length b = length (build v)"
      "fence_ok 0 b" "fence_ok (BUILD_BUF_SIZE + MEM_FENCE_WIDTH) b"
    using fence_set [OF len] by blast
  define v0 where "v0 = (on_kern (map_pages pg MEM_IMAGE 64) v)\<lparr>show_x := 0, show_y := 0, img3_off := BUILD_BASE_INIT,
      img3 := BUILD_BASE_INIT + MEM_FENCE_WIDTH, build := b, target_img := 0\<rparr>"
  define v1 where "v1 = on_kern fill_palette_mode_x (on_kern (load_tables hw mode_X_seq 0x63 mode_X_CRTC mode_X_attr
      mode_X_graphics) (on_kern (VGA_blank hw 1) v0))"
  define v2 where "v2 = on_kern (VGA_blank hw 0) (clear_screens v1)"
  obtain img where img: "paint (replicate IMAGE_SIZE junk) = Some img" "length img = IMAGE_SIZE" "\<forall>n<IMAGE_SIZE. img ! n = band n"
    using paint_band [of "replicate IMAGE_SIZE junk"] by auto
  obtain buf where buf: "separate_planes img (replicate IMAGE_SIZE junk) = Some buf" "length buf = IMAGE_SIZE"
      "\<forall>i<4. \<forall>k<PLANE_SIZE. buf ! (PLANE_SIZE * i + k) = img ! (4 * k + (3 - i))"
    using separate_planes_nth [OF img(2), of "replicate IMAGE_SIZE junk"] by auto
  have e: "set_mode_X pg hw junk v = do { v \<leftarrow> show_planes [0, 1, 2, 3] buf v2; Some (0, v) }"
    using b(1) img(1) buf(1) by (simp add: set_mode_X_def Let_def v2_def v1_def v0_def)
  have lin0: "linear (kern v0) MEM_IMAGE MEM_IMAGE 262144" using window_mapped [OF pg] by (simp add: v0_def on_kern_def)
  have lin1: "linear (kern v1) MEM_IMAGE MEM_IMAGE 262144" using lin0 by (simp add: v1_def linear_def)
  define R where "R = vga v1"
  have R: "misc R = 0x63" "seq R = put_pairs (entries mode_X_seq @ [(0, 3)]) (seq (vga (on_kern (VGA_blank hw 1) v0)))"
      "list_all (\<lambda>(r, x). crtc R r = x) (entries mode_X_CRTC)" "list_all (\<lambda>(r, x). attr R r = x) (byte_entries mode_X_attr)"
      "list_all (\<lambda>(r, x). gfx R r = x) (entries mode_X_graphics)"
    unfolding R_def v1_def palette_keeps tables_loaded [OF table_facts(2,4,6,8)]
    using tables_loaded [OF table_facts(2,4,6,8)] put_pairs_all [OF table_facts(10)] by simp_all
  define w where "w = on_kern cld (on_kern (set_write_mask 0x0F00) v1)"
  have cs: "clear_screens v1 = w\<lparr>planes := plane_put MEM_IMAGE (replicate 65536 3) 0x0F (planes v1)\<rparr>"
    and vw: "vga w = R\<lparr>seq_index := 2, seq := (seq R)(2 := 0x0F)\<rparr>"
    using clear_screens_eq [of v1] lin1 by (simp_all add: w_def linear_def set_write_mask_vga R_def)
  have hw2: "vga_reads_back (vga0 (clear_screens v1)) hw"
    using hw by (simp add: cs) (simp add: w_def v1_def v0_def)
  have lin2: "linear (kern v2) MEM_IMAGE MEM_IMAGE 262144" "linear (kern v2) MEM_IMAGE MEM_IMAGE 65536"
    using lin1 by (simp_all add: v2_def cs w_def linear_def)
  have st2: "build v2 = b" "vga0 v2 = vga0 v"
    by (simp_all add: v2_def cs) (simp_all add: w_def v1_def v0_def)
  obtain v' where v': "show_planes [0, 1, 2, 3] buf v2 = Some v'" "draw_frame v2 v'"
      "\<forall>p x. planes v' p x = (if p \<in> set [0, 1, 2, 3] \<and> within x MEM_IMAGE PLANE_SIZE
          then buf ! (PLANE_SIZE * p + unat (x - MEM_IMAGE)) else planes v2 p x)"
    using show_planes_eq [OF lin2(2) buf(2), of "[0, 1, 2, 3]"] by auto
  have vga2: "vga v2 = (vga w)\<lparr>seq_index := 1, seq := (seq (vga w))(1 := 1), attr_flip := False, attr_index := 0x20\<rparr>"
    unfolding v2_def VGA_blank_vga [OF hw2] by (simp add: cs vw R(2) seq_mode_X)
  note sm = same_mode_fields [of "vga v2" "vga v'"]
  have same: "same_mode (vga v2) (vga v')" using v'(2) by (simp add: draw_frame_def)
  have "mode_regs 0x63 mode_X_CRTC mode_X_attr mode_X_graphics (vga v')"
    using R by (simp add: mode_regs_def sm [OF same] vga2 vw)
  moreover have "map (seq (vga v')) [0, 1, 3, 4] = [3, 1, 0, 6]"
    by (simp add: sm [OF same] vga2 vw R(2) seq_mode_X)
  moreover have "mode_X_ready v'" "vga0 v' = vga0 v"
    using v'(2) lin2(1) b len st2 by (simp_all add: mode_X_ready_def draw_frame_def linear_def)
  moreover have "planes v2 = plane_put MEM_IMAGE (replicate 65536 3) 0x0F (planes v1)" by (simp add: v2_def cs)
  note picture_bytes [OF img(3) buf(3) v'(3) [unfolded this]]
  moreover have "set_mode_X pg hw junk v = Some (0, v')" unfolding e v'(1) by simp
  ultimately show ?thesis by (intro exI [of _ v'] conjI allI impI) simp_all
qed

text \<open>C35. \<open>set_mode_X\<close> shows its picture: with the page tables and an adapter that reads back its
  sequencer register it returns 0, every byte of the four planes holds the colour of its pixel (five
  horizontal bands; the planes are copied in reverse order, which these bands do not show), the rest
  of video memory the colour 3, every entry of the mode X tables is in its register and the display is
  on, no array is accessed out of bounds, and the fences around the build buffer hold their pattern.\<close>

theorem mode_X_picture:
  assumes "paging_ok pg" and "vga_reads_back (vga0 v) hw"
    and "length (build v) = BUILD_BUF_SIZE + 2 * MEM_FENCE_WIDTH"
  shows "\<exists>v'. set_mode_X pg hw junk v = Some (0, v')
    \<and> (\<forall>p<4. \<forall>k<65536. planes v' p (MEM_IMAGE + of_nat k) = (if k < PLANE_SIZE then band (4 * k + p) else 3))
    \<and> mode_regs 0x63 mode_X_CRTC mode_X_attr mode_X_graphics (vga v') \<and> map (seq (vga v')) [0, 1, 3, 4] = [3, 1, 0, 6]
    \<and> fence_ok 0 (build v') \<and> fence_ok (BUILD_BUF_SIZE + MEM_FENCE_WIDTH) (build v')"
  using set_mode_X_result [OF assms, of junk] unfolding mode_X_ready_def
  by (elim exE conjE, intro exI conjI) assumption+

text \<open>A machine with whole fences around its build buffer.\<close>

definition sample_regs :: vga_regs where
  "sample_regs = \<lparr>seq_index = 0, seq = \<lambda>_. 0, crtc_index = 0, crtc = \<lambda>_. 0, gfx_index = 0, gfx = \<lambda>_. 0,
     attr_flip = True, attr_index = 0, attr = \<lambda>_. 0, misc = 0, dac_pos = 0, dac = \<lambda>_. 0\<rparr>"

definition sample_video :: video where
  "sample_video = \<lparr>kern = sample_kernel, vga0 = sample_regs, planes = \<lambda>_ _. 0,
     build = replicate (BUILD_BUF_SIZE + 2 * MEM_FENCE_WIDTH) MEM_FENCE_MAGIC, img3_off = 0, img3 = 0,
     show_x = 0, show_y = 0, target_img = 0\<rparr>"

theorem mode_X_picture_witness:
  "\<exists>v'. set_mode_X simple_paging (vga_hw sample_regs) 0 sample_video = Some (0, v')
     \<and> planes v' 0 MEM_IMAGE = 1 \<and> planes v' 2 (MEM_IMAGE + 4000) = 4 \<and> planes v' 3 (MEM_IMAGE + 15999) = 7
     \<and> planes v' 3 (MEM_IMAGE + 16000) = 3 \<and> crtc (vga v') 0x13 = 0x28 \<and> fence_ok 0 (build v')"
proof -
  have "vga_reads_back (vga0 sample_video) (vga_hw sample_regs)" by (simp add: sample_video_def vga_reads_back_hw)
  moreover have "length (build sample_video) = BUILD_BUF_SIZE + 2 * MEM_FENCE_WIDTH" by (simp add: sample_video_def)
  ultimately obtain v' where v': "set_mode_X simple_paging (vga_hw sample_regs) 0 sample_video = Some (0, v')"
    "\<forall>p<4. \<forall>k<65536. planes v' p (MEM_IMAGE + of_nat k) = (if k < PLANE_SIZE then band (4 * k + p) else 3)"
    "mode_regs 0x63 mode_X_CRTC mode_X_attr mode_X_graphics (vga v')" "fence_ok 0 (build v')"
    using mode_X_picture [OF paging_ok_simple, of sample_video "vga_hw sample_regs" 0] by blast
  have "planes v' 0 MEM_IMAGE = 1" "planes v' 2 (MEM_IMAGE + 4000) = 4" "planes v' 3 (MEM_IMAGE + 15999) = 7"
    "planes v' 3 (MEM_IMAGE + 16000) = 3"
    using v'(2) [rule_format, of 0 0] v'(2) [rule_format, of 2 4000] v'(2) [rule_format, of 3 15999]
      v'(2) [rule_format, of 3 16000] by (simp_all add: PLANE_SIZE_def band_def)
  moreover have "crtc (vga v') 0x13 = 0x28"
  proof -
    have n: "(10259 :: u8) = 0x13" by simp
    show ?thesis using v'(3) by (simp add: mode_regs_def entries_def mode_X_CRTC_def n)
  qed
  ultimately show ?thesis using v'(1,4) by blast
qed

text \<open>The planes hold a picture in reverse order within each group of four pixels: plane \<open>i\<close> gets the
  pixels of plane \<open>3 - i\<close>.\<close>

lemma planes_reversed:
  assumes "length img = IMAGE_SIZE" and "length buf = IMAGE_SIZE" and "linear (kern v) MEM_IMAGE MEM_IMAGE 65536"
  shows "\<exists>b v'. separate_planes img buf = Some b \<and> show_planes [0, 1, 2, 3] b v = Some v'
    \<and> (\<forall>p<4. \<forall>k<PLANE_SIZE. planes v' p (MEM_IMAGE + of_nat k) = img ! (4 * k + (3 - p)))"
proof -
  obtain b where b: "separate_planes img buf = Some b" "length b = IMAGE_SIZE"
      "\<forall>i<4. \<forall>k<PLANE_SIZE. b ! (PLANE_SIZE * i + k) = img ! (4 * k + (3 - i))"
    using separate_planes_nth [OF assms(1,2)] by blast
  obtain v' where v': "show_planes [0, 1, 2, 3] b v = Some v'"
      "\<forall>p x. planes v' p x = (if p \<in> set [0, 1, 2, 3] \<and> within x MEM_IMAGE PLANE_SIZE
          then b ! (PLANE_SIZE * p + unat (x - MEM_IMAGE)) else planes v p x)"
    using show_planes_eq [OF assms(3) b(2), of "[0, 1, 2, 3]"] by auto
  have "unat (MEM_IMAGE + of_nat k - MEM_IMAGE) = k" if "k < PLANE_SIZE" for k
    using that by (simp add: unat_of_nat take_bit_nat_eq_self PLANE_SIZE_def)
  then have "planes v' p (MEM_IMAGE + of_nat k) = img ! (4 * k + (3 - p))" if "p < 4" "k < PLANE_SIZE" for p k
    using that v'(2) b(3) by (auto simp: within_def)
  then show ?thesis using b(1) v'(1) by blast
qed

subsection \<open>Text mode\<close>

text \<open>The text screens after clearing: blanks with the normal attribute.\<close>

definition blank_text :: "nat \<Rightarrow> (u32 \<Rightarrow> u8) \<Rightarrow> u32 \<Rightarrow> u8" where
  "blank_text n m x = (if within x BASE_VIDEO_MEM n then if even (unat (x - BASE_VIDEO_MEM)) then 0x20 else 0x07 else m x)"

lemma blank_text_step:
  assumes "n < 32768" and "even n"
  shows "(blank_text n m)(BASE_VIDEO_MEM + of_nat n := 0x20, BASE_VIDEO_MEM + of_nat (n + 1) := 0x07) = blank_text (n + 2) m"
proof -
  have u: "unat (BASE_VIDEO_MEM + of_nat k - BASE_VIDEO_MEM) = k" if "k < 40000" for k
    using that by (simp add: unat_of_nat take_bit_nat_eq_self)
  show ?thesis
    using assms within_Suc [of n _ BASE_VIDEO_MEM] within_Suc [of "Suc n" _ BASE_VIDEO_MEM] u [of n] u [of "n + 1"]
    by (auto simp: fun_eq_iff blank_text_def)
qed

lemma wr32_blank:
  assumes "linear s BASE_VIDEO_MEM BASE_VIDEO_MEM 32768" and "n < 8192"
  shows "wr32 (BASE_VIDEO_MEM + 4 * of_nat n) 0x07200720 (s\<lparr>mem := blank_text (4 * n) m\<rparr>) = s\<lparr>mem := blank_text (4 * (n + 1)) m\<rparr>"
proof -
  let ?a = "BASE_VIDEO_MEM + 4 * of_nat n"
  have a: "?a = BASE_VIDEO_MEM + of_nat (4 * n)" "?a + 1 = BASE_VIDEO_MEM + of_nat (4 * n + 1)"
    "?a + 2 = BASE_VIDEO_MEM + of_nat (4 * n + 2)" "?a + 3 = BASE_VIDEO_MEM + of_nat (4 * n + 2 + 1)"
    by simp_all
  have t: "mmu s (BASE_VIDEO_MEM + of_nat k) = BASE_VIDEO_MEM + of_nat k" if "k < 32768" for k
    using assms(1) that by (simp add: linear_def)
  note m = t [of "4 * n"] t [of "4 * n + 1"] t [of "4 * n + 2"] t [of "4 * n + 2 + 1"]
  have "wr32 ?a 0x07200720 (s\<lparr>mem := blank_text (4 * n) m\<rparr>) = s\<lparr>mem := (blank_text (4 * n) m)
      (BASE_VIDEO_MEM + of_nat (4 * n) := 0x20, BASE_VIDEO_MEM + of_nat (4 * n + 1) := 0x07,
       BASE_VIDEO_MEM + of_nat (4 * n + 2) := 0x20, BASE_VIDEO_MEM + of_nat (4 * n + 2 + 1) := 0x07)\<rparr>"
  proof -
    have b: "(ucast (0x07200720 :: u32) :: u8) = 0x20" "(ucast (drop_bit 8 (0x07200720 :: u32)) :: u8) = 0x07"
      "(ucast (drop_bit 16 (0x07200720 :: u32)) :: u8) = 0x20" "(ucast (drop_bit 24 (0x07200720 :: u32)) :: u8) = 0x07"
      by simp_all
    show ?thesis
      unfolding wr32_def a(2-4) b unfolding a(1)
      using m assms(2) by (simp add: wr8_def del: of_nat_add of_nat_mult of_nat_Suc)
  qed
  also have "\<dots> = s\<lparr>mem := blank_text (4 * n + 2 + 2) m\<rparr>"
    using blank_text_step [of "4 * n" m] blank_text_step [of "4 * n + 2" m] assms(2) by simp
  finally show ?thesis by (simp add: algebra_simps numeral_eq_Suc)
qed

lemma clear_text_eq:
  assumes "linear s BASE_VIDEO_MEM BASE_VIDEO_MEM 32768"
  shows "clear_text s = s\<lparr>mem := blank_text 32768 (mem s)\<rparr>"
proof -
  have "fold (\<lambda>i. wr32 (BASE_VIDEO_MEM + 4 * of_nat i) 0x07200720) [0..<n] s = s\<lparr>mem := blank_text (4 * n) (mem s)\<rparr>"
    if "n \<le> 8192" for n
    using that
  proof (induction n)
    case 0
    have "blank_text 0 (mem s) = mem s" by (simp add: fun_eq_iff blank_text_def within_def)
    then show ?case by simp
  next
    case (Suc n)
    then show ?case using wr32_blank [OF assms, of n "mem s"] by simp
  qed
  from this [of 8192] show ?thesis by (simp add: clear_text_def del: upt_rec_numeral)
qed

lemma linear_part:
  assumes "linear s MEM_IMAGE MEM_IMAGE 262144" and "k + n \<le> 262144"
  shows "linear s (MEM_IMAGE + of_nat k) (MEM_IMAGE + of_nat k) n"
  unfolding linear_def
proof (intro allI impI)
  fix i assume "i < n"
  then have "k + i < 262144" using assms(2) by simp
  then have "mmu s (MEM_IMAGE + of_nat (k + i)) = MEM_IMAGE + of_nat (k + i)"
    using assms(1) unfolding linear_def by blast
  then show "mmu s (MEM_IMAGE + of_nat k + of_nat i) = MEM_IMAGE + of_nat k + of_nat i"
    by (simp only: of_nat_add add.assoc)
qed

lemma within_at:
  assumes "k < 100000" and "a < 100000" and "n \<le> 65536"
  shows "within ((P :: u32) + of_nat k) (P + of_nat a) n \<longleftrightarrow> a \<le> k \<and> k < a + n"
proof
  assume w: "within (P + of_nat k) (P + of_nat a) n"
  define d where "d = unat (P + of_nat k - (P + of_nat a))"
  have "d < n" using w by (simp add: within_def d_def)
  moreover have "(of_nat k :: u32) = of_nat (a + d)" by (simp add: d_def)
  ultimately have "k = a + d"
    using assms by (simp add: word_of_nat_eq_iff take_bit_nat_eq_self del: of_nat_add)
  then show "a \<le> k \<and> k < a + n" using \<open>d < n\<close> by simp
next
  assume "a \<le> k \<and> k < a + n"
  moreover from this have "P + of_nat k - (P + of_nat a) = (of_nat (k - a) :: u32)" by (simp add: of_nat_diff)
  ultimately show "within (P + of_nat k) (P + of_nat a) n"
    unfolding within_def using assms(1) by (simp add: unat_of_nat take_bit_nat_eq_self less_diff_conv2 del: of_nat_diff)
qed

text \<open>The font goes to plane 2.\<close>

definition font_plane :: "nat \<Rightarrow> video \<Rightarrow> video \<Rightarrow> bool" where
  "font_plane n v v' \<longleftrightarrow> v' = v\<lparr>planes := planes v'\<rparr>
     \<and> (\<forall>c<n. \<forall>j<16. planes v' 2 (MEM_IMAGE + of_nat (32 * c + j)) = font_data ! c ! j)"

lemma font_step:
  assumes "font_plane n v u" and "n < 256" and "linear (kern v) MEM_IMAGE MEM_IMAGE 262144" and "seq (vga v) 2 = 4"
  shows "font_plane (Suc n) v (vstores (MEM_IMAGE + 32 * of_nat n) (font_data ! n) u)"
proof -
  have u: "u = v\<lparr>planes := planes u\<rparr>" using assms(1) by (simp add: font_plane_def)
  have k: "kern u = kern v" "vga u = vga v" by (subst u, simp)+
  let ?a = "MEM_IMAGE + of_nat (32 * n)"
  have len: "length (font_data ! n) = 16" using font_data_shape(2) [OF assms(2)] .
  have "linear (kern u) ?a ?a (length (font_data ! n))"
    unfolding k len using assms(2) by (intro linear_part [OF assms(3)]) simp
  moreover have "window ?a (length (font_data ! n))"
    using assms(2) unat_offset [of MEM_IMAGE "32 * n"] by (simp add: window_def len del: of_nat_mult)
  ultimately have s: "vstores ?a (font_data ! n) u = u\<lparr>planes := plane_put ?a (font_data ! n) 4 (planes u)\<rparr>"
    using vstores_planes [of u ?a ?a "font_data ! n"] by (simp add: k assms(4))
  have "plane_put ?a (font_data ! n) 4 (planes u) 2 (MEM_IMAGE + of_nat (32 * c + j)) = font_data ! c ! j"
    if c: "c < Suc n" and j: "j < 16" for c j
  proof -
    have "within (MEM_IMAGE + of_nat (32 * c + j)) ?a 16 \<longleftrightarrow> c = n"
      using within_at [of "32 * c + j" "32 * n" 16 MEM_IMAGE] c j assms(2) by auto
    moreover have "unat (MEM_IMAGE + of_nat (32 * n + j) - ?a) = j" using j by (simp add: unat_of_nat take_bit_nat_eq_self)
    moreover have "c \<noteq> n \<Longrightarrow> planes u 2 (MEM_IMAGE + of_nat (32 * c + j)) = font_data ! c ! j"
      using assms(1) c j by (simp add: font_plane_def)
    moreover have "bit (4 :: u8) 2" by (simp add: bit_numeral_rec)
    ultimately show ?thesis by (cases "c = n") (simp_all add: plane_put_def len del: of_nat_add of_nat_mult)
  qed
  moreover have "MEM_IMAGE + 32 * of_nat n = ?a" by simp
  moreover have "u\<lparr>planes := q\<rparr> = v\<lparr>planes := q\<rparr>" for q by (subst u) simp
  ultimately show ?thesis using s by (simp add: font_plane_def del: of_nat_mult of_nat_add)
qed

lemma write_font_plane:
  assumes "linear (kern v) MEM_IMAGE MEM_IMAGE 262144" and "seq (vga v) 2 = 4"
  shows "font_plane 256 v (write_font v)"
proof -
  have "font_plane n v (fold (\<lambda>i. vstores (MEM_IMAGE + 32 * of_nat i) (font_data ! i)) [0..<n] v)" if "n \<le> 256" for n
    using that
  proof (induction n)
    case 0
    then show ?case by (simp add: font_plane_def)
  next
    case (Suc n)
    then show ?case using font_step [OF _ _ assms, of n] by simp
  qed
  from this [of 256] show ?thesis by (simp add: write_font_def del: upt_rec_numeral)
qed

lemma outsw_vga:
  "\<exists>i. vga (on_kern (rep_outsw 0x3C4 t) v) = (vga v)\<lparr>seq := put_pairs (entries t) (seq (vga v)), seq_index := i\<rparr>"
  "\<exists>i. vga (on_kern (rep_outsw 0x3CE t) v) = (vga v)\<lparr>gfx := put_pairs (entries t) (gfx (vga v)), gfx_index := i\<rparr>"
  using seq_load [of t "vga v"] gfx_load [of t "vga v"]
  unfolding vga_on_kern vga_of_rep vga_def [symmetric] by simp_all

text \<open>What loading the font changes: plane 2 and, of the registers, the memory mode of the sequencer.\<close>

lemma write_font_data_result:
  assumes "linear (kern v) MEM_IMAGE MEM_IMAGE 262144"
  shows "\<exists>v'. write_font_data v = v' \<and> mem (kern v') = mem (kern v) \<and> mmu (kern v') = mmu (kern v)
    \<and> build v' = build v \<and> vga0 v' = vga0 v
    \<and> (\<forall>c<256. \<forall>j<16. planes v' 2 (MEM_IMAGE + of_nat (32 * c + j)) = font_data ! c ! j)
    \<and> (\<exists>i j. vga v' = (vga v)\<lparr>seq := (seq (vga v))(2 := 3, 4 := 3), seq_index := i,
         gfx := (gfx (vga v))(5 := 0x10, 6 := 0x0E, 4 := 0), gfx_index := j\<rparr>)"
proof -
  define v1 where "v1 = on_kern (rep_outsw 0x3CE [0x0005, 0x0406, 0x0204]) (on_kern (rep_outsw 0x3C4 [0x0402, 0x0704]) v)"
  define v2 where "v2 = write_font v1"
  define v3 where "v3 = on_kern (rep_outsw 0x3CE [0x1005, 0x0E06, 0x0004]) (on_kern (rep_outsw 0x3C4 [0x0302, 0x0304]) v2)"
  have e: "write_font_data v = v3" by (simp add: write_font_data_def Let_def v3_def v2_def v1_def)
  have n: "(1026 :: u8) = 2" "(1796 :: u8) = 4" "(1030 :: u8) = 6" "(516 :: u8) = 4" "(770 :: u8) = 2" "(772 :: u8) = 4"
    "(4101 :: u8) = 5" "(3590 :: u8) = 6" by simp_all
  obtain i1 j1 where vga1: "vga v1 = (vga v)\<lparr>seq := (seq (vga v))(2 := 4, 4 := 7), seq_index := i1,
      gfx := (gfx (vga v))(5 := 0, 6 := 4, 4 := 2), gfx_index := j1\<rparr>"
    using outsw_vga(1) [of "[0x0402, 0x0704]" v] outsw_vga(2) [of "[0x0005, 0x0406, 0x0204]" "on_kern (rep_outsw 0x3C4 [0x0402, 0x0704]) v"]
    by (auto simp: v1_def entries_def n)
  have "linear (kern v1) MEM_IMAGE MEM_IMAGE 262144" using assms by (simp add: v1_def linear_def)
  then have f: "font_plane 256 v1 v2" unfolding v2_def by (rule write_font_plane) (simp add: vga1)
  then obtain q where q: "v2 = v1\<lparr>planes := q\<rparr>" by (auto simp: font_plane_def)
  define u where "u = on_kern (rep_outsw 0x3C4 [0x0302, 0x0304]) v2"
  obtain i where i: "vga u = (vga v1)\<lparr>seq := (seq (vga v))(2 := 3, 4 := 3), seq_index := i\<rparr>"
    using outsw_vga(1) [of "[0x0302, 0x0304]" v2] by (auto simp: u_def entries_def n q vga1 fun_upd_twist)
  obtain j where j: "vga v3 = (vga u)\<lparr>gfx := (gfx (vga v))(5 := 0x10, 6 := 0x0E, 4 := 0), gfx_index := j\<rparr>"
    using outsw_vga(2) [of "[0x1005, 0x0E06, 0x0004]" u] by (auto simp: v3_def u_def [symmetric] entries_def n i vga1 fun_upd_twist)
  have "\<exists>i j. vga v3 = (vga v)\<lparr>seq := (seq (vga v))(2 := 3, 4 := 3), seq_index := i,
         gfx := (gfx (vga v))(5 := 0x10, 6 := 0x0E, 4 := 0), gfx_index := j\<rparr>"
    by (intro exI [of _ i] exI [of _ j]) (simp add: j i vga1)
  moreover have "mem (kern v3) = mem (kern v)" "mmu (kern v3) = mmu (kern v)" "build v3 = build v" "vga0 v3 = vga0 v"
    by (simp_all add: v3_def q v1_def)
  moreover have "\<forall>c<256. \<forall>j<16. planes v3 2 (MEM_IMAGE + of_nat (32 * c + j)) = font_data ! c ! j"
    using f by (simp add: font_plane_def v3_def)
  ultimately show ?thesis using e by blast
qed


lemma text_pages:
  assumes "linear s MEM_IMAGE MEM_IMAGE 262144"
  shows "linear s BASE_VIDEO_MEM BASE_VIDEO_MEM 32768"
  using linear_part [OF assms, of 98304 32768] by simp

lemma seq_text:
  "put_pairs (entries text_seq @ [(0, 3)]) f = f(1 := 0x20, 2 := 3, 3 := 0, 4 := 2, 0 := 3)"
proof -
  have "(256 :: u8) = 0" "(8193 :: u8) = 1" "(770 :: u8) = 2" "(516 :: u8) = 4" by simp_all
  then show ?thesis by (simp add: entries_def text_seq_def fun_eq_iff)
qed

lemma gfx_text: "(put_pairs (entries text_graphics) f)(5 := 0x10, 6 := 0x0E, 4 := 0) = put_pairs (entries text_graphics) f"
  by (rule ext) (simp add: entries_def text_graphics_def)

text \<open>The registers once the tables, the palette and the font are loaded and the display is on again.\<close>

lemma set_text_mode_3_result:
  assumes lin: "linear (kern v) MEM_IMAGE MEM_IMAGE 262144" and hw: "vga_reads_back (vga0 v) hw"
  shows "\<exists>v'. set_text_mode_3 pg hw 1 v = v' \<and> build v' = build v \<and> mem (kern v') = blank_text 32768 (mem (kern v))
    \<and> mode_regs 0x67 text_CRTC text_attr text_graphics (vga v') \<and> map (seq (vga v')) [0, 1, 2, 3, 4] = [3, 0, 3, 0, 3]
    \<and> (\<forall>k<96. dac (vga v') k = palette_bytes palette_text ! k AND 0x3F)
    \<and> (\<forall>c<256. \<forall>j<16. planes v' 2 (MEM_IMAGE + of_nat (32 * c + j)) = font_data ! c ! j)"
proof -
  define v0 where "v0 = on_kern (load_tables hw text_seq 0x67 text_CRTC text_attr text_graphics) (on_kern (VGA_blank hw 1) v)"
  define v1 where "v1 = on_kern fill_palette_text v0"
  define v2 where "v2 = on_kern clear_text v1"
  define v4 where "v4 = on_kern (VGA_blank hw 0) (write_font_data v2)"
  have e: "set_text_mode_3 pg hw 1 v = on_kern (map_pages pg BASE_VIDEO_MEM 4) v4"
    by (simp add: set_text_mode_3_def Let_def v4_def v2_def v1_def v0_def)
  have lin1: "linear (kern v1) MEM_IMAGE MEM_IMAGE 262144" using lin by (simp add: v1_def v0_def linear_def)
  have k2: "kern v2 = (kern v1)\<lparr>mem := blank_text 32768 (mem (kern v))\<rparr>"
    using clear_text_eq [OF text_pages [OF lin1]] by (simp add: v2_def v1_def v0_def)
  have lin2: "linear (kern v2) MEM_IMAGE MEM_IMAGE 262144" using lin1 by (simp add: k2 linear_def)
  have vga2: "vga v2 = vga v1" "vga0 v2 = vga0 v" "build v2 = build v"
    using k2 by (simp_all add: vga_def) (simp_all add: v2_def v1_def v0_def)
  obtain v3 i j where v3: "write_font_data v2 = v3" "mem (kern v3) = mem (kern v2)" "build v3 = build v2" "vga0 v3 = vga0 v2"
      "\<forall>c<256. \<forall>j<16. planes v3 2 (MEM_IMAGE + of_nat (32 * c + j)) = font_data ! c ! j"
      "vga v3 = (vga v2)\<lparr>seq := (seq (vga v2))(2 := 3, 4 := 3), seq_index := i,
         gfx := (gfx (vga v2))(5 := 0x10, 6 := 0x0E, 4 := 0), gfx_index := j\<rparr>"
    using write_font_data_result [OF lin2] by blast
  define R where "R = vga v1"
  note T = tables_loaded [OF table_facts(1,3,5,7), of hw text_seq "0x67" text_graphics "on_kern (VGA_blank hw 1) v", folded v0_def]
  have R: "misc R = 0x67" "seq R = (seq (vga (on_kern (VGA_blank hw 1) v)))(1 := 0x20, 2 := 3, 3 := 0, 4 := 2, 0 := 3)"
      "list_all (\<lambda>(r, x). crtc R r = x) (entries text_CRTC)" "list_all (\<lambda>(r, x). attr R r = x) (byte_entries text_attr)"
      "list_all (\<lambda>(r, x). ((gfx R)(5 := 0x10, 6 := 0x0E, 4 := 0)) r = x) (entries text_graphics)"
      "\<forall>k<96. dac R k = palette_bytes palette_text ! k AND 0x3F"
    unfolding R_def v1_def palette_keeps T(1-2,5) gfx_text seq_text
    using T(3,4) put_pairs_all [OF table_facts(9)] palette_keeps by (simp_all del: fun_upd_apply)
  have hw3: "vga_reads_back (vga0 (write_font_data v2)) hw" using hw by (simp add: v3 vga2)
  have vga4: "vga v4 = (vga v3)\<lparr>seq_index := 1, seq := (seq (vga v3))(1 := 0), attr_flip := False, attr_index := 0x20\<rparr>"
    unfolding v4_def VGA_blank_vga [OF hw3] by (simp add: v3(1)) (simp add: v3(6) vga2(1) R_def [symmetric] R(2))
  have v': "vga (on_kern (map_pages pg BASE_VIDEO_MEM 4) v4) = vga v4"
    by (simp add: vga_on_kern) (simp add: vga_def)
  have "mode_regs 0x67 text_CRTC text_attr text_graphics (vga v4)"
    using R by (simp add: mode_regs_def vga4 v3(6) vga2(1) R_def [symmetric] del: fun_upd_apply)
  moreover have "map (seq (vga v4)) [0, 1, 2, 3, 4] = [3, 0, 3, 0, 3]"
    by (simp add: vga4 v3(6) vga2(1) R_def [symmetric] R(2))
  moreover have "\<forall>k<96. dac (vga v4) k = palette_bytes palette_text ! k AND 0x3F"
    using R(6) by (simp add: vga4 v3(6) vga2(1) R_def [symmetric])
  moreover have "mem (kern v4) = blank_text 32768 (mem (kern v))" "build v4 = build v" "planes v4 = planes v3"
    by (simp_all add: v4_def v3(1) v3(2) v3(3) vga2) (simp add: k2)
  ultimately show ?thesis unfolding e using v3(5) v' by simp
qed

lemma clear_mode_X_steps:
  assumes "mode_X_ready v" and "vga_reads_back (vga0 v) hw"
  shows "clear_mode_X pg hw v = Some (set_text_mode_3 pg hw 1 v)"
proof -
  have lin: "linear (kern v) MEM_IMAGE MEM_IMAGE 262144"
    and fence: "fence_ok 0 (build v)" "fence_ok (BUILD_BUF_SIZE + MEM_FENCE_WIDTH) (build v)"
    using assms(1) by (simp_all add: mode_X_ready_def)
  have "build (set_text_mode_3 pg hw 1 v) = build v"
    using set_text_mode_3_result [OF lin assms(2), of pg] by blast
  then show ?thesis using fence by (simp add: clear_mode_X_def Let_def fence_message_def)
qed

text \<open>C36. The way back to text mode: \<open>clear_mode_X\<close>, called in mode X, leaves every entry of the text
  tables in its register (but the memory mode of the sequencer, which loading the font sets to 3), the
  display on, the text palette, the sixteen bytes of each of the 256 characters of the font in plane 2,
  all eight text screens blank, no other byte of memory changed, and it prints nothing: the fences are
  whole.\<close>

theorem text_mode_restored:
  assumes "mode_X_ready v" and "vga_reads_back (vga0 v) hw"
  shows "\<exists>v'. clear_mode_X pg hw v = Some v' \<and> mem (kern v') = blank_text 32768 (mem (kern v))
    \<and> mode_regs 0x67 text_CRTC text_attr text_graphics (vga v') \<and> map (seq (vga v')) [0, 1, 2, 3, 4] = [3, 0, 3, 0, 3]
    \<and> (\<forall>k<96. dac (vga v') k = palette_bytes palette_text ! k AND 0x3F)
    \<and> (\<forall>c<256. \<forall>j<16. planes v' 2 (MEM_IMAGE + of_nat (32 * c + j)) = font_data ! c ! j)"
proof -
  have "linear (kern v) MEM_IMAGE MEM_IMAGE 262144" using assms(1) by (simp add: mode_X_ready_def)
  from set_text_mode_3_result [OF this assms(2), of pg] show ?thesis
    unfolding clear_mode_X_steps [OF assms] by (elim exE conjE, intro exI [of _ "set_text_mode_3 pg hw 1 v"] conjI) simp_all
qed

theorem text_mode_restored_witness:
  "\<exists>v'. clear_mode_X simple_paging (vga_hw sample_regs) sample_video = Some v'
     \<and> mem (kern v') 0xB8000 = 0x20 \<and> mem (kern v') 0xB8001 = 0x07 \<and> crtc (vga v') 0x14 = 0x1F
     \<and> seq (vga v') 4 = 3 \<and> dac (vga v') 5 = 0x2A \<and> planes v' 2 (MEM_IMAGE + 34) = 0x7E"
proof -
  have "linear sample_kernel MEM_IMAGE MEM_IMAGE 262144" by (simp add: linear_def)
  then have "mode_X_ready sample_video" by (simp add: mode_X_ready_def sample_video_def fence_ok_def list_all_iff)
  moreover have "vga_reads_back (vga0 sample_video) (vga_hw sample_regs)" by (simp add: sample_video_def vga_reads_back_hw)
  ultimately obtain v' where v': "clear_mode_X simple_paging (vga_hw sample_regs) sample_video = Some v'"
    "mem (kern v') = blank_text 32768 (mem (kern sample_video))"
    "mode_regs 0x67 text_CRTC text_attr text_graphics (vga v')" "map (seq (vga v')) [0, 1, 2, 3, 4] = [3, 0, 3, 0, 3]"
    "\<forall>k<96. dac (vga v') k = palette_bytes palette_text ! k AND 0x3F"
    "\<forall>c<256. \<forall>j<16. planes v' 2 (MEM_IMAGE + of_nat (32 * c + j)) = font_data ! c ! j"
    by (rule text_mode_restored [of sample_video "vga_hw sample_regs" simple_paging, THEN exE]) (elim conjE, rule)
  have "mem (kern v') 0xB8000 = 0x20" "mem (kern v') 0xB8001 = 0x07"
    by (simp_all add: v'(2) blank_text_def within_def)
  moreover have "crtc (vga v') 0x14 = 0x1F"
  proof -
    have n: "(7956 :: u8) = 0x14" by simp
    show ?thesis using v'(3) by (simp add: mode_regs_def entries_def text_CRTC_def n)
  qed
  moreover have "dac (vga v') 5 = 0x2A" using v'(5) by (simp add: palette_bytes_def palette_text_def)
  moreover have "font_data ! 1 ! 2 = 0x7E" by code_simp
  then have "planes v' 2 (MEM_IMAGE + 34) = 0x7E" using v'(6) [rule_format, of 1 2] by simp
  ultimately show ?thesis using v'(1,4) by auto
qed

end
