(* ===== verification/Boot.thy ===== *)
theory Boot
  imports Boot_Info Descriptors Mouse Rtc Modex Exec
begin

text \<open>
  Booting: \<open>entry\<close> of \<^verbatim>\<open>student-distrib/kernel.c\<close> after the boot information, and
  \<open>start_scheduler\<close> of \<^verbatim>\<open>scheduling.c\<close>. The functions of \<^verbatim>\<open>handlers\<close>,
  \<^verbatim>\<open>paging\<close>, \<^verbatim>\<open>pit_drivers\<close> and \<^verbatim>\<open>jank_malloc\<close> that they call are
  not among the source files: they are the fields of \<open>boot_env\<close>, and \<open>boot_env_ok\<close> is what the kernel relies on.
\<close>

subsection \<open>State\<close>

record boot =
  vid :: video
  tabs :: tables
  idt :: "(u32 \<times> u32) list"
  idt_loaded :: bool
  filesys_img :: u32

record boot_env =
  drivers :: env
  fill_idt :: "(u32 \<times> u32) list \<Rightarrow> (u32 \<times> u32) list"
  paging_init :: "(u32 \<Rightarrow> u32) \<Rightarrow> u32 \<Rightarrow> u32"
  test_malloc :: "kstate \<Rightarrow> kstate"
  test_free :: "kstate \<Rightarrow> kstate"
  init_pit :: "kstate \<Rightarrow> kstate"
  play_turtles :: "video \<Rightarrow> video"
  ldt_addr :: u32              \<comment> \<open>where the linker puts \<open>ldt\<close> and \<open>tss\<close>\<close>
  tss_addr :: u32

abbreviation bkern :: "boot \<Rightarrow> kstate" where "bkern b \<equiv> kern (vid b)"

definition on_boot :: "(kstate \<Rightarrow> kstate) \<Rightarrow> boot \<Rightarrow> boot" where
  "on_boot f b = b\<lparr>vid := on_kern f (vid b)\<rparr>"

text \<open>How control leaves: \<open>entry\<close> returns to the loader, the processor enters a program, or it idles in
  the loop at the end of \<open>entry\<close>.\<close>

datatype boot_end = Entry_returns | Enters transfer | Idle

subsection \<open>\<open>start_scheduler\<close>\<close>

definition init_tasks :: "kstate \<Rightarrow> kstate" where
  "init_tasks s = fold (\<lambda>i. upd_task i (\<lambda>t. t\<lparr>started := (if i = 0 then 1 else 0), task_terminal := i\<rparr>)) [0..<NUM_TASKS] s"

definition start_scheduler :: "boot_env \<Rightarrow> hardware \<Rightarrow> u8 \<Rightarrow> video \<Rightarrow> (boot_end \<times> video) option" where
  "start_scheduler be hw junk v =
     (let pg = pages (drivers be);
          v = on_kern cli v;
          v = on_kern init_tasks v;
          v = on_kern (\<lambda>s. s\<lparr>current_task := 0\<rparr>) v;
          v = on_kern (init_pit be) v
      in do { (_, v) \<leftarrow> set_mode_X pg hw junk v;
              let v = play_turtles be v;
              v \<leftarrow> clear_mode_X pg hw v;
              let v = on_kern (\<lambda>s. snd (terminal_open hw pg s)) v;
              let v = on_kern (\<lambda>s. s\<lparr>scheduling_started := C_TRUE\<rparr>) v;
              (t, s) \<leftarrow> sys_execute (drivers be) shell_name (kern v);
              let v = v\<lparr>kern := s\<rparr>;
              Some (case t of Return _ \<Rightarrow> (Idle, on_kern sti v) | _ \<Rightarrow> (Enters t, v)) })"

subsection \<open>\<open>entry\<close>\<close>

text \<open>The descriptors, the interrupt table, paging and the devices.\<close>

definition boot_descriptor_tables :: "boot_env \<Rightarrow> seg_desc \<Rightarrow> seg_desc \<Rightarrow> boot \<Rightarrow> boot" where
  "boot_descriptor_tables be d d' b =
     (let b = b\<lparr>tabs := set_tables (ldt_addr be) (tss_addr be) d d' (tabs b)\<rparr>;
          b = on_boot (\<lambda>s. s\<lparr>tss_esp0 := 0x800000\<rparr>) b;
          b = b\<lparr>idt := fill_idt be (idt b)\<rparr>
      in b\<lparr>idt_loaded := True\<rparr>)"

definition boot_devices :: "boot_env \<Rightarrow> hardware \<Rightarrow> u8 \<Rightarrow> boot \<Rightarrow> boot option" where
  "boot_devices be hw junk b =
     (let b = on_boot (\<lambda>s. s\<lparr>mmu := paging_init be (mmu s)\<rparr>) b;
          b = on_boot (i8259_init hw) b
      in do { s \<leftarrow> mouse_init hw junk (bkern b);
              let b = on_boot (\<lambda>_. s) b;
              let b = on_boot (rtc_init hw) b;
              let b = on_boot (test_malloc be) b;
              Some (on_boot (test_free be) b) })"

definition entry :: "boot_env \<Rightarrow> hardware \<Rightarrow> u8 \<Rightarrow> seg_desc \<Rightarrow> seg_desc \<Rightarrow> u32 \<Rightarrow> u32 \<Rightarrow> boot \<Rightarrow> (boot_end \<times> boot) option" where
  "entry be hw junk d d' magic addr b =
     (let b = on_boot clear b
      in if magic \<noteq> MULTIBOOT_BOOTLOADER_MAGIC
         then do { s \<leftarrow> print_line junk (''Invalid magic number: 0x%#x'' @ nl) [Int_arg magic] (bkern b);
                   Some (Entry_returns, on_boot (\<lambda>_. s) b) }
         else do {
           (go, img, s) \<leftarrow> print_boot_info junk addr (filesys_img b) (bkern b);
           let b = (on_boot (\<lambda>_. s) b)\<lparr>filesys_img := img\<rparr>;
           if \<not> go then Some (Entry_returns, b)
           else do {
             b \<leftarrow> boot_devices be hw junk (boot_descriptor_tables be d d' b);
             (r, v) \<leftarrow> start_scheduler be hw junk (vid b);
             Some (r, b\<lparr>vid := v\<rparr>) } })"

subsection \<open>What the steps leave alone\<close>

text \<open>The kernel's variables, but for the console.\<close>

definition vars_same :: "kstate \<Rightarrow> kstate \<Rightarrow> bool" where
  "vars_same s s' \<longleftrightarrow> s' = s\<lparr>mem := mem s', mmu := mmu s', io := io s', eflags := eflags s', esp := esp s', ebp := ebp s',
       terminals := terminals s', screen_x := screen_x s', screen_y := screen_y s', cursor_x := cursor_x s',
       cursor_y := cursor_y s'\<rparr>
     \<and> length (terminals s') = length (terminals s)"

lemma vars_same_trans:
  assumes "vars_same s t" and "vars_same t u"
  shows "vars_same s u"
proof -
  have t: "t = s\<lparr>mem := mem t, mmu := mmu t, io := io t, eflags := eflags t, esp := esp t, ebp := ebp t,
       terminals := terminals t, screen_x := screen_x t, screen_y := screen_y t, cursor_x := cursor_x t,
       cursor_y := cursor_y t\<rparr>"
    and u: "u = t\<lparr>mem := mem u, mmu := mmu u, io := io u, eflags := eflags u, esp := esp u, ebp := ebp u,
       terminals := terminals u, screen_x := screen_x u, screen_y := screen_y u, cursor_x := cursor_x u,
       cursor_y := cursor_y u\<rparr>"
    using assms by (simp_all add: vars_same_def)
  have "u = s\<lparr>mem := mem u, mmu := mmu u, io := io u, eflags := eflags u, esp := esp u, ebp := ebp u,
       terminals := terminals u, screen_x := screen_x u, screen_y := screen_y u, cursor_x := cursor_x u,
       cursor_y := cursor_y u\<rparr>"
    by (subst u, subst t) simp
  then show ?thesis using assms by (simp add: vars_same_def)
qed

lemma vars_same_fields:
  assumes "vars_same s s'"
  shows "active_terminal s' = active_terminal s" "tasks s' = tasks s" "current_task s' = current_task s"
    "pcbs s' = pcbs s" "global_pid s' = global_pid s" "pid_availability s' = pid_availability s"
    "scheduling_started s' = scheduling_started s" "tss_esp0 s' = tss_esp0 s" "length (terminals s') = length (terminals s)"
proof -
  have s': "s' = s\<lparr>mem := mem s', mmu := mmu s', io := io s', eflags := eflags s', esp := esp s', ebp := ebp s',
       terminals := terminals s', screen_x := screen_x s', screen_y := screen_y s', cursor_x := cursor_x s',
       cursor_y := cursor_y s'\<rparr>" using assms by (simp add: vars_same_def)
  show "active_terminal s' = active_terminal s" "tasks s' = tasks s" "current_task s' = current_task s"
    "pcbs s' = pcbs s" "global_pid s' = global_pid s" "pid_availability s' = pid_availability s"
    "scheduling_started s' = scheduling_started s" "tss_esp0 s' = tss_esp0 s"
    by (subst s', simp)+
  show "length (terminals s') = length (terminals s)" using assms by (simp add: vars_same_def)
qed

lemma vars_same_more: "machine.more s' = machine.more s \<Longrightarrow> vars_same s (s' :: kstate)"
  by (cases s, cases s') (simp add: vars_same_def)

lemma vars_same_console:
  assumes "console_frame P s s'"
  shows "vars_same s s'"
proof -
  have s': "s' = s\<lparr>mem := mem s', io := io s', terminals := terminals s', screen_x := screen_x s',
            screen_y := screen_y s', cursor_x := cursor_x s', cursor_y := cursor_y s'\<rparr>"
    using assms by (simp add: console_frame_def)
  have "length (terminals s') = length (terminals s)"
    using console_frame_fields(10) [OF assms] by (metis length_map)
  moreover have "mmu s' = mmu s" "eflags s' = eflags s" "esp s' = esp s" "ebp s' = ebp s" by (subst s', simp)+
  moreover have "s\<lparr>mmu := mmu s, eflags := eflags s, esp := esp s, ebp := ebp s\<rparr> = s" by simp
  ultimately show ?thesis using s' unfolding vars_same_def by (cases s, cases s') simp
qed


definition pic_same :: "kstate \<Rightarrow> kstate \<Rightarrow> bool" where
  "pic_same s s' \<longleftrightarrow> (\<forall>p. pic_data_port p \<longrightarrow> pic_chip (io s') p = pic_chip (io s) p)"

text \<open>The 4 MB of the kernel, from 4 MB on.\<close>

definition kernel_addr :: "u32 \<Rightarrow> bool" where
  "kernel_addr x \<longleftrightarrow> 0x400000 \<le> x \<and> x < 0x800000"

definition quiet :: "kstate \<Rightarrow> kstate \<Rightarrow> bool" where
  "quiet s s' \<longleftrightarrow> vars_same s s' \<and> pic_same s s' \<and> (\<forall>x. kernel_addr x \<longrightarrow> mmu s' x = mmu s x)"

lemma quiet_trans [trans]: "quiet s t \<Longrightarrow> quiet t u \<Longrightarrow> quiet s u"
  unfolding quiet_def pic_same_def using vars_same_trans by metis

lemma quiet_refl [simp]: "quiet s s"
  by (simp add: quiet_def pic_same_def vars_same_more)

lemma quietI:
  assumes "machine.more s' = machine.more s" and "mmu s' = mmu s"
    and "\<And>p. pic_data_port p \<Longrightarrow> pic_chip (io s') p = pic_chip (io s) p"
  shows "quiet s (s' :: kstate)"
  using assms by (simp add: quiet_def pic_same_def vars_same_more)

text \<open>The lines of the interrupt controllers that are open.\<close>

definition lines_open :: "kstate \<Rightarrow> nat set \<Rightarrow> bool" where
  "lines_open s L \<longleftrightarrow> pic_ready s \<and> (\<forall>i<16. irq_masked s i \<longleftrightarrow> i \<notin> L)"

lemma lines_quiet:
  assumes "lines_open s L" and "pic_same s s'"
  shows "lines_open s' L"
proof -
  have "pic_chip (io s') 0x21 = pic_chip (io s) 0x21" "pic_chip (io s') 0xA1 = pic_chip (io s) 0xA1"
    using assms(2) by (simp_all add: pic_same_def pic_data_port_def)
  then have "pic_ready s' = pic_ready s" "irq_masked s' i = irq_masked s i" for i
    by (simp_all add: pic_ready_def irq_masked_def)
  then show ?thesis using assms(1) by (simp add: lines_open_def)
qed

lemma quiet_fold: "(\<And>x t. quiet t (f x t)) \<Longrightarrow> quiet s (fold f xs s)"
  by (induction xs arbitrary: s) (auto intro: quiet_trans)

lemma quiet_rep [simp]:
  fixes s :: kstate
  shows "quiet s (rep_outsw p t s)" "p \<in> {0x3C0, 0x3C9} \<Longrightarrow> quiet s (rep_outsb p bs s)"
  unfolding rep_outsw_def rep_outsb_def
  by (rule quiet_fold, rule quietI, auto simp: pic_data_port_def)+

lemma quiet_out [simp]:
  fixes s :: kstate
  shows "quiet s (outw d p s)" "p \<in> {0x3C4, 0x3C5, 0x3C0, 0x3C2, 0x3C8} \<Longrightarrow> quiet s (outb b p s)"
    "quiet s (snd (inb hw p s))" "quiet s (cld s)" "quiet s (wr8 a b s)" "quiet s (cli s)"
  by (rule quietI; auto simp: pic_data_port_def cld_def)+


lemma quiet_vga [simp]:
  fixes s :: kstate
  shows "quiet s (VGA_blank hw b s)" "quiet s (load_tables hw sq val ct at gt s)"
    "quiet s (fill_palette_mode_x s)" "quiet s (fill_palette_text s)" "quiet s (set_write_mask m s)"
proof -
  have "quiet s (outb 1 0x3C4 s)" "quiet t (snd (inb hw p t))" "p \<in> {0x3C5, 0x3C0} \<Longrightarrow> quiet t (outb c p t)" for t :: kstate and p c
    by auto
  then show "quiet s (VGA_blank hw b s)"
    unfolding VGA_blank_def Let_def case_prod_beta by (meson insertI1 insertI2 quiet_trans)
  have o: "quiet s (rep_outsw p t s)" "quiet s (outw d p s)" "quiet s (outb c 0x3C2 s)" "quiet s (rep_outsb 0x3C0 bs s)"
    "quiet s (snd (inb hw p s))" for s :: kstate and p t d c bs by simp_all
  have "quiet s (set_seq_regs_and_reset sq val s)" "quiet s (set_CRTC_registers ct s)" "quiet s (set_attr_registers hw at s)"
    "quiet s (set_graphics_registers gt s)" for s :: kstate
    unfolding set_seq_regs_and_reset_def set_CRTC_registers_def set_attr_registers_def set_graphics_registers_def Let_def case_prod_beta
    using o quiet_trans by meson+
  then show "quiet s (load_tables hw sq val ct at gt s)"
    unfolding load_tables_def Let_def using quiet_trans by meson
  show "quiet s (fill_palette_mode_x s)" "quiet s (fill_palette_text s)"
    unfolding fill_palette_mode_x_def fill_palette_text_def
    by (rule quiet_trans [of _ "outb 0 0x3C8 s"]; simp)+
  show "quiet s (set_write_mask m s)" by (simp add: set_write_mask_def)
qed

lemma quiet_kmap:
  assumes "paging_ok pg" and "page v" and "v < 0x400000" and "0x1000 \<le> v" and "page p"
  shows "quiet s (kmap pg v p s)"
proof -
  have "mmu (kmap pg v p s) x = mmu s x" if "kernel_addr x" for x
  proof -
    define w :: u32 where "w = of_nat (4096 * (unat x div 4096))"
    have x: "w + of_nat (unat x mod 4096) = x"
      unfolding w_def of_nat_add [symmetric] by (simp only: mult_div_mod_eq) simp
    have "4096 * (unat x div 4096) \<le> unat x" by simp
    from le_less_trans [OF this] have w: "unat w = 4096 * (unat x div 4096)"
      unfolding w_def unat_of_nat by (intro mod_less) simp
    have "0x400000 \<le> unat x" using that by (simp add: kernel_addr_def word_le_nat_alt)
    then have "1024 \<le> unat x div 4096" by simp
    then have "w \<noteq> v" using w assms(3) by (auto simp: word_less_nat_alt)
    moreover have "page w" by (simp add: page_def w)
    moreover have "paged_region v" using assms(3,4) by (simp add: paged_region_def)
    ultimately have "map_virt_to_phys pg v p (mmu s) (w + of_nat (unat x mod 4096)) = mmu s (w + of_nat (unat x mod 4096))"
      using assms(1,2,5) unfolding paging_ok_def by (metis mod_less_divisor zero_less_numeral)
    then show ?thesis by (simp add: kmap_def x)
  qed
  then show ?thesis by (simp add: quiet_def pic_same_def vars_same_more)
qed


lemma quiet_map_pages:
  assumes "paging_ok pg" and "page a" and "0x1000 \<le> unat a" and "unat a + 4096 * n \<le> 0x400000"
  shows "quiet s (map_pages pg a n s)"
  using assms(4)
proof (induction n)
  case 0
  then show ?case by (simp add: map_pages_def)
next
  case (Suc n)
  let ?p = "a + of_nat n * FOUR_K"
  have fit: "unat a + 4096 * Suc n \<le> 2 ^ 32" using Suc.prems by simp
  have p: "unat ?p = unat a + 4096 * n" "page ?p" using page_addr [OF assms(2) fit, of n] by simp_all
  have "quiet (map_pages pg a n s) (kmap pg ?p ?p (map_pages pg a n s))"
    using p Suc.prems assms(3) by (intro quiet_kmap [OF assms(1)]) (simp_all add: word_less_nat_alt word_le_nat_alt)
  then show ?case using Suc quiet_trans [of s "map_pages pg a n s"] by (simp add: map_pages_def)
qed

text \<open>Steps on the video state.\<close>

definition vquiet :: "video \<Rightarrow> video \<Rightarrow> bool" where
  "vquiet v v' \<longleftrightarrow> quiet (kern v) (kern v')"

lemma vquiet_trans [trans]: "vquiet u v \<Longrightarrow> vquiet v w \<Longrightarrow> vquiet u w"
  unfolding vquiet_def by (rule quiet_trans)

lemma vquiet_on_kern: "quiet (kern v) (f (kern v)) \<Longrightarrow> vquiet v (on_kern f v)"
  by (simp add: vquiet_def)

lemma vquiet_vstores: "vquiet v (vstores a bs v)"
proof -
  have "vquiet u (vstore a b u)" for a b u
    by (simp add: vquiet_def vstore_def Let_def)
  then have "vquiet u (fold (\<lambda>i. vstore (a + of_nat i) (bs ! i)) is u)" for "is" u
    by (induction "is" arbitrary: u) (simp_all add: vquiet_def quiet_trans, meson quiet_trans)
  then show ?thesis by (simp add: vstores_def)
qed

lemma vquiet_show_planes: "show_planes is buf v = Some v' \<Longrightarrow> vquiet v v'"
proof (induction "is" arbitrary: v)
  case (Cons i "is")
  let ?w = "on_kern (set_write_mask (push_bit (i + 8) 1)) v"
  obtain u where u: "copy_image buf (PLANE_SIZE * i) (ucast MEM_IMAGE) ?w = Some u" "show_planes is buf u = Some v'"
    using Cons.prems by (auto simp: bind_eq_Some_conv)
  have "vquiet v ?w" "vquiet ?w (on_kern cld ?w)" by (simp_all add: vquiet_on_kern)
  moreover have "vquiet (on_kern cld ?w) u"
    using u(1) vquiet_vstores by (auto simp: copy_image_def split: if_splits)
  ultimately show ?case using Cons.IH [OF u(2)] vquiet_trans by blast
qed (simp add: vquiet_def)


lemma set_mode_X_quiet:
  assumes "paging_ok pg" and "set_mode_X pg hw junk v = Some (r, v')"
  shows "vquiet v v'"
proof -
  define v0 where "v0 = (on_kern (map_pages pg MEM_IMAGE 64) v)\<lparr>show_x := 0, show_y := 0, img3_off := BUILD_BASE_INIT,
      img3 := BUILD_BASE_INIT + MEM_FENCE_WIDTH\<rparr>"
  obtain b img buf where b: "set_fence [0..<MEM_FENCE_WIDTH] (build v0) = Some b"
      "paint (replicate IMAGE_SIZE junk) = Some img" "separate_planes img (replicate IMAGE_SIZE junk) = Some buf"
      "show_planes [0, 1, 2, 3] buf (on_kern (VGA_blank hw 0) (clear_screens (on_kern fill_palette_mode_x
         (on_kern (load_tables hw mode_X_seq 0x63 mode_X_CRTC mode_X_attr mode_X_graphics)
         (on_kern (VGA_blank hw 1) (v0\<lparr>build := b, target_img := 0\<rparr>)))))) = Some v'"
    using assms(2) unfolding set_mode_X_def Let_def v0_def [symmetric]
    by (auto simp: bind_eq_Some_conv simp del: show_planes.simps)
  define v1 where "v1 = on_kern (VGA_blank hw 1) (v0\<lparr>build := b, target_img := 0\<rparr>)"
  define v2 where "v2 = on_kern (load_tables hw mode_X_seq 0x63 mode_X_CRTC mode_X_attr mode_X_graphics) v1"
  define v3 where "v3 = on_kern fill_palette_mode_x v2"
  define v4 where "v4 = on_kern cld (on_kern (set_write_mask 0x0F00) v3)"
  have "vquiet v v0"
    using quiet_map_pages [OF assms(1), of MEM_IMAGE 64 "kern v"] by (simp add: vquiet_def v0_def page_def)
  also have "vquiet v0 v1" by (simp add: vquiet_def v1_def)
  also have "vquiet v1 v2" by (simp add: vquiet_def v2_def)
  also have "vquiet v2 v3" by (simp add: vquiet_def v3_def)
  also have "vquiet v3 v4" unfolding v4_def by (rule vquiet_trans [of _ "on_kern (set_write_mask 0x0F00) v3"]) (simp_all add: vquiet_def)
  also have "vquiet v4 (clear_screens v3)" unfolding clear_screens_def v4_def [symmetric] by (rule vquiet_vstores)
  also have "vquiet (clear_screens v3) (on_kern (VGA_blank hw 0) (clear_screens v3))" by (simp add: vquiet_on_kern)
  also have "vquiet (on_kern (VGA_blank hw 0) (clear_screens v3)) v'"
    using vquiet_show_planes b(4) unfolding v1_def [symmetric] v2_def [symmetric] v3_def [symmetric] by blast
  finally show ?thesis .
qed

lemma vquiet_fold: "(\<And>x t. vquiet t (f x t)) \<Longrightarrow> vquiet v (fold f xs v)"
  by (induction xs arbitrary: v) (simp add: vquiet_def, auto intro: vquiet_trans)

lemma set_text_mode_3_quiet:
  assumes "paging_ok pg"
  shows "vquiet v (set_text_mode_3 pg hw 1 v)"
proof -
  define v1 where "v1 = on_kern (VGA_blank hw 1) v"
  define v2 where "v2 = on_kern (load_tables hw text_seq 0x67 text_CRTC text_attr text_graphics) v1"
  define v3 where "v3 = on_kern fill_palette_text v2"
  define v4 where "v4 = on_kern clear_text v3"
  have t: "quiet s (clear_text s)" for s
    unfolding clear_text_def by (rule quiet_fold, rule quietI) (simp_all add: wr32_def)
  have f: "vquiet u (write_font u)" for u
    unfolding write_font_def by (rule vquiet_fold) (rule vquiet_vstores)
  have o: "vquiet u (on_kern (rep_outsw p tb) u)" for u p tb by (simp add: vquiet_on_kern)
  have "vquiet v v1" "vquiet v1 v2" "vquiet v2 v3" "vquiet v3 v4"
    by (simp_all add: vquiet_def v1_def v2_def v3_def v4_def t)
  then have "vquiet v v4" using vquiet_trans by blast
  moreover have "vquiet v4 (write_font_data v4)"
    unfolding write_font_data_def Let_def using o f vquiet_trans by meson
  moreover have "vquiet (write_font_data v4) (on_kern (VGA_blank hw 0) (write_font_data v4))" by (simp add: vquiet_on_kern)
  moreover have "vquiet u (on_kern (map_pages pg BASE_VIDEO_MEM 4) u)" for u
    using quiet_map_pages [OF assms, of BASE_VIDEO_MEM 4 "kern u"] by (simp add: vquiet_def page_def)
  moreover have "set_text_mode_3 pg hw 1 v = on_kern (map_pages pg BASE_VIDEO_MEM 4) (on_kern (VGA_blank hw 0) (write_font_data v4))"
    by (simp add: set_text_mode_3_def Let_def v4_def v3_def v2_def v1_def)
  ultimately show ?thesis using vquiet_trans by metis
qed


subsection \<open>Opening the terminals\<close>

lemma open_terminal_procs [simp]:
  "pcbs (open_terminal pg i s) = pcbs s" "global_pid (open_terminal pg i s) = global_pid s"
  "tss_esp0 (open_terminal pg i s) = tss_esp0 s" "io (open_terminal pg i s) = io s"
  by (simp_all add: open_terminal_def Let_def upd_terminal_def kmap_def)

lemma open_loop_procs [simp]:
  fixes s :: kstate and pg :: paging and "is" :: "nat list"
  defines "t \<equiv> fold (open_terminal pg) is s"
  shows "pcbs t = pcbs s" "global_pid t = global_pid s" "tss_esp0 t = tss_esp0 s" "io t = io s"
    "tasks t = tasks s" "current_task t = current_task s" "pid_availability t = pid_availability s"
  unfolding t_def by (rule fold_keeps, simp)+

lemma terminal_reset_procs:
  "pcbs (terminal_reset hw s) = pcbs s" "global_pid (terminal_reset hw s) = global_pid s" "tss_esp0 (terminal_reset hw s) = tss_esp0 s"
  by (simp_all add: terminal_reset_def reset_buffer_def reset_screen_def update_cursor_def cursor_outb_def clear_def
      cli_and_save_def Let_def upd_active_def upd_terminal_def outb_def)

lemma open_terminal_mmu:
  assumes "paging_ok pg" and "i < 3" and "kernel_addr x"
  shows "mmu (open_terminal pg i s) x = mmu s x"
proof -
  have "mmu (open_terminal pg i s) = mmu (kmap pg (term_page i) (term_page i) s)"
    by (simp add: open_terminal_def Let_def term_page_def kmap_def upd_terminal_def)
  moreover have "i = 0 \<or> i = 1 \<or> i = 2" using assms(2) by auto
  then have "quiet s (kmap pg (term_page i) (term_page i) s)"
    by (elim disjE) (simp_all add: quiet_kmap [OF assms(1)] page_def)
  ultimately show ?thesis using assms(3) by (simp add: quiet_def)
qed

lemma terminal_reset_io: "io (terminal_reset hw s) = io (reset_screen (keyboard_init hw (cli s)))"
  by (simp add: terminal_reset_def reset_buffer_def cli_and_save_def Let_def upd_active_def)

lemma reset_screen_pic:
  "pic_data_port p \<Longrightarrow> pic_chip (io (reset_screen s)) p = pic_chip (io s) p"
  by (auto simp: reset_screen_def update_cursor_def cursor_outb_def clear_def Let_def pic_data_port_def)

lemma lines_enable:
  assumes "pic_reads_back hw" and "lines_open s L" and "irq < 16"
  shows "lines_open (enable_irq hw (of_nat irq) s) (insert irq L)"
  using enable_irq_masked(1) [OF assms(1) _ assms(3), of s] enable_irq_masked(2) [OF assms(1) _ assms(3), of s 0] assms(2)
  by (auto simp: lines_open_def)

lemma terminal_open_frame:
  assumes "length (terminals s) = 3" and "paging_ok pg" and "pic_reads_back hw" and "lines_open s L"
  defines "s' \<equiv> snd (terminal_open hw pg s)"
  shows "pcbs s' = pcbs s" "global_pid s' = global_pid s" "tss_esp0 s' = tss_esp0 s" "pid_availability s' = pid_availability s"
    and "kernel_addr x \<Longrightarrow> mmu s' x = mmu s x" and "lines_open s' (insert 1 L)"
proof -
  define t where "t = fold (open_terminal pg) [0..<3] (terminal_reset hw s)"
  define u where "u = t\<lparr>s_input_buffer := replicate INPUT_BUFFER_SIZE NEWLINE, active_terminal := 0\<rparr>"
  have s': "s' = restore_flags (eflags s) ((kmap pg 0xB9000 BASE_VIDEO_MEM (kmap pg BASE_VIDEO_MEM BASE_VIDEO_MEM u))\<lparr>screen_x := 0, screen_y := 0\<rparr>)"
    unfolding s'_def terminal_open_steps [OF assms(1,2)] u_def t_def by simp
  show "pcbs s' = pcbs s" "global_pid s' = global_pid s" "tss_esp0 s' = tss_esp0 s" "pid_availability s' = pid_availability s"
    by (simp_all add: s' u_def t_def terminal_reset_procs kmap_def del: upt_rec_numeral)
  show "mmu s' x = mmu s x" if "kernel_addr x"
  proof -
    have "quiet v (kmap pg 0xB9000 BASE_VIDEO_MEM (kmap pg BASE_VIDEO_MEM BASE_VIDEO_MEM v))" for v
      by (rule quiet_trans [of _ "kmap pg BASE_VIDEO_MEM BASE_VIDEO_MEM v"]; rule quiet_kmap [OF assms(2)]) (simp_all add: page_def)
    then have "mmu s' x = mmu u x" using that by (simp add: s' quiet_def)
    moreover have "mmu (fold (open_terminal pg) is v) x = mmu v x" if "set is \<subseteq> {..<3}" for "is" v
      using that \<open>kernel_addr x\<close> by (induction "is" arbitrary: v) (simp_all add: open_terminal_mmu [OF assms(2)])
    ultimately show ?thesis by (simp add: u_def t_def lessThan_atLeast0)
  qed
  have "pic_same (restore_flags (eflags (cli s)) (enable_irq hw (of_nat 1) (cli (cli s)))) s'"
    using reset_screen_pic
    by (simp add: pic_same_def s' u_def t_def terminal_reset_io keyboard_init_def cli_and_save_def Let_def kmap_def del: upt_rec_numeral)
  moreover have "lines_open (cli (cli s)) L" using assms(4) lines_quiet by (simp add: pic_same_def)
  then have "lines_open (enable_irq hw (of_nat 1) (cli (cli s))) (insert 1 L)" by (rule lines_enable [OF assms(3)]) simp
  then have "lines_open (restore_flags (eflags (cli s)) (enable_irq hw (of_nat 1) (cli (cli s)))) (insert 1 L)"
    by (rule lines_quiet) (simp add: pic_same_def)
  ultimately show "lines_open s' (insert 1 L)" using lines_quiet by blast
qed


subsection \<open>Executing a program keeps the set-up\<close>

text \<open>What booting has set up: the masks of the interrupt controllers and the scheduler. The drivers leave both alone,
  and so does \<open>sys_execute\<close>.\<close>

definition setup_kept :: "kstate \<Rightarrow> kstate \<Rightarrow> bool" where
  "setup_kept s s' \<longleftrightarrow> pic_same s s' \<and> scheduling_started s' = scheduling_started s"

definition drivers_keep_setup :: "env \<Rightarrow> bool" where
  "drivers_keep_setup e \<longleftrightarrow> (\<forall>f s. setup_kept s (snd (open_file e f s))) \<and> (\<forall>f s. setup_kept s (snd (open_directory e f s)))
     \<and> (\<forall>f s. setup_kept s (snd (open_rtc e f s)))
     \<and> (\<forall>fd buf n s r s'. read_file e fd buf n s = Some (r, s') \<longrightarrow> setup_kept s s')
     \<and> (\<forall>i k buf n s. setup_kept s (snd (read_data e i k buf n s)))"

lemma setup_kept_trans: "setup_kept s t \<Longrightarrow> setup_kept t u \<Longrightarrow> setup_kept s u"
  by (simp add: setup_kept_def pic_same_def)

lemma setup_kept_io: "io s' = io s \<Longrightarrow> scheduling_started s' = scheduling_started s \<Longrightarrow> setup_kept s s'"
  by (simp add: setup_kept_def pic_same_def)

lemma setup_kept_upd: "setup_kept s (upd_fd i f s)" "setup_kept s (snd (sys_close fd s))" "setup_kept s (kmodify pg p s)"
  "setup_kept s (s\<lparr>pid_availability := a\<rparr>)"
  by (rule setup_kept_io; simp add: upd_fd_def upd_pcb_def sys_close_def kmodify_def)+

lemma sys_open_setup:
  assumes "drivers_keep_setup e"
  shows "setup_kept s (snd (sys_open e f s))"
proof -
  have "setup_kept t (open_type e ft f i t)" for ft i t
  proof -
    have d: "setup_kept t (snd (open_file e f t))" "setup_kept t (snd (open_directory e f t))" "setup_kept t (snd (open_rtc e f t))"
      using assms by (simp_all add: drivers_keep_setup_def)
    show ?thesis
      using d [THEN setup_kept_trans [OF _ setup_kept_upd(1)]] setup_kept_io [of t t] by (simp add: open_type_def split_beta)
  qed
  then have "setup_kept s (open_type e ft f i (upd_fd i g s))" for ft i g using setup_kept_trans [OF setup_kept_upd(1)] by blast
  then show ?thesis
    using setup_kept_io [of s s] by (simp add: sys_open_def split_beta split: option.split)
qed

lemma load_program_setup:
  assumes "drivers_keep_setup e"
  shows "setup_kept s (load_program e pid fd name s)"
proof -
  have "setup_kept t (snd (read_data e i k buf n t))" for i k buf n t using assms by (simp add: drivers_keep_setup_def)
  then show ?thesis
    using setup_kept_upd(2,3) setup_kept_trans unfolding load_program_def Let_def split_beta by meson
qed

lemma start_process_setup: "start_process pid ppid arg s = Some (t, s') \<Longrightarrow> setup_kept s s'"
  by (auto simp: start_process_def Let_def bind_eq_Some_conv upd_current_task_def upd_task_def upd_pcb_def intro!: setup_kept_io)

lemma sys_execute_setup:
  assumes "drivers_keep_setup e" and "sys_execute e (Some c) s = Some (Iret a b f d g, s')"
  shows "setup_kept s s'"
proof -
  obtain pid av name arg where p: "FIRST_AVAILABLE_PID (pid_availability s) = Some (pid, av)" "parse_command c = Some (name, arg)"
    "NOT pid \<noteq> 0" "command_empty (Some c) = Some False"
    using assms(2) by (auto simp: sys_execute_def Let_def exec_fail_def bind_eq_Some_conv split: if_splits)
  let ?s = "s\<lparr>pid_availability := av\<rparr>"
  let ?o = "sys_open e (Some name) ?s"
  obtain r u where u: "fst ?o \<noteq> - 1" "read_file e (fst ?o) (exec_header_addr e) 4 (snd ?o) = Some (r, u)"
    "start_process pid (if pid < of_nat NUM_TERMINALS then - 1 else global_pid s) arg (load_program e pid (fst ?o) name u)
      = Some (Iret a b f d g, s')"
    using assms(2) p by (auto simp: sys_execute_def Let_def exec_fail_def bind_eq_Some_conv split_beta split: if_splits)
  have "setup_kept s ?s" by (rule setup_kept_upd(4))
  moreover have "setup_kept ?s (snd ?o)" by (rule sys_open_setup [OF assms(1)])
  moreover have "setup_kept (snd ?o) u" using assms(1) u(2) unfolding drivers_keep_setup_def by blast
  moreover have "setup_kept u (load_program e pid (fst ?o) name u)" by (rule load_program_setup [OF assms(1)])
  ultimately show ?thesis using start_process_setup [OF u(3)] setup_kept_trans by blast
qed


subsection \<open>The code outside the tree\<close>

text \<open>What booting relies on: paging maps the first 8 MB to themselves; the allocator's tests, the timer's
  set-up and the start-up animation leave the kernel's variables, its memory map and the interrupt lines
  alone, but that the timer opens line 0, and the animation leaves the build buffer alone; the file
  system has an executable \<open>shell\<close>, and its drivers leave the interrupt lines and the scheduler's flag alone.\<close>

definition boot_env_ok :: "boot_env \<Rightarrow> bool" where
  "boot_env_ok be \<longleftrightarrow> drivers_ok (drivers be) \<and> drivers_keep_setup (drivers be)
     \<and> (\<forall>m x. x < 0x800000 \<longrightarrow> paging_init be m x = x)
     \<and> (\<forall>s. quiet s (test_malloc be s)) \<and> (\<forall>s. quiet s (test_free be s))
     \<and> (\<forall>s. vars_same s (init_pit be s) \<and> (\<forall>x. kernel_addr x \<longrightarrow> mmu (init_pit be s) x = mmu s x)
          \<and> (\<forall>L. lines_open s L \<longrightarrow> lines_open (init_pit be s) (insert 0 L)))
     \<and> (\<forall>v. vquiet v (play_turtles be v) \<and> mmu (kern (play_turtles be v)) = mmu (kern v)
          \<and> build (play_turtles be v) = build v \<and> vga0 (play_turtles be v) = vga0 v)
     \<and> (\<forall>t. (\<forall>x. kernel_addr x \<longrightarrow> mmu t x = x) \<longrightarrow>
          first_word (drivers be) (pad_cmd (cmd_name (the shell_name))) t (\<lambda>w. w = ELF_HEADER))"

lemma boot_env_okD:
  assumes "boot_env_ok be"
  shows "drivers_ok (drivers be)" "paging_ok (pages (drivers be))" "x < 0x800000 \<Longrightarrow> paging_init be m x = x"
    "quiet s (test_malloc be s)" "quiet s (test_free be s)" "vars_same s (init_pit be s)"
    "kernel_addr x \<Longrightarrow> mmu (init_pit be s) x = mmu s x" "lines_open s L \<Longrightarrow> lines_open (init_pit be s) (insert 0 L)"
    "vquiet v (play_turtles be v)" "mmu (kern (play_turtles be v)) = mmu (kern v)"
    "build (play_turtles be v) = build v" "vga0 (play_turtles be v) = vga0 v"
    "(\<And>x. kernel_addr x \<Longrightarrow> mmu t x = x) \<Longrightarrow>
       first_word (drivers be) (pad_cmd (cmd_name (the shell_name))) t (\<lambda>w. w = ELF_HEADER)"
    "drivers_keep_setup (drivers be)"
proof -
  have "paging_ok (pages e)" if "drivers_ok e" for e using that by (simp add: drivers_ok_def)
  then show "drivers_ok (drivers be)" "paging_ok (pages (drivers be))" "x < 0x800000 \<Longrightarrow> paging_init be m x = x"
    "quiet s (test_malloc be s)" "quiet s (test_free be s)" "vars_same s (init_pit be s)"
    "kernel_addr x \<Longrightarrow> mmu (init_pit be s) x = mmu s x" "lines_open s L \<Longrightarrow> lines_open (init_pit be s) (insert 0 L)"
    "vquiet v (play_turtles be v)" "mmu (kern (play_turtles be v)) = mmu (kern v)"
    "build (play_turtles be v) = build v" "vga0 (play_turtles be v) = vga0 v"
    "(\<And>x. kernel_addr x \<Longrightarrow> mmu t x = x) \<Longrightarrow>
       first_word (drivers be) (pad_cmd (cmd_name (the shell_name))) t (\<lambda>w. w = ELF_HEADER)"
    "drivers_keep_setup (drivers be)"
    using assms by (simp_all add: boot_env_ok_def)
qed

text \<open>The kernel's variables as the loader leaves them: arrays of their sizes, no process, a free
  descriptor in the PCB that the process number 0 selects.\<close>

definition fresh_kernel :: "kstate \<Rightarrow> bool" where
  "fresh_kernel s \<longleftrightarrow> length (terminals s) = NUM_TERMINALS \<and> active_terminal s = 0 \<and> length (tasks s) = NUM_TASKS
     \<and> pid_availability s = replicate NUM_PROCESSES AVAILABLE \<and> pcbs_ok s \<and> (\<exists>i. next_fd s i)"

lemma fresh_same:
  assumes "fresh_kernel s" and "vars_same s s'"
  shows "fresh_kernel s'"
  using assms(1) by (simp add: fresh_kernel_def pcbs_ok_def next_fd_def current_fds_def CURRENT_PCB_ADDRESS_def
      vars_same_fields [OF assms(2)])

lemma init_tasks_ok:
  assumes "length (tasks s) = 3"
  shows "tasks_ok (tasks (init_tasks s)) 0"
proof -
  have "tasks (init_tasks s) = (tasks s)[0 := (tasks s ! 0)\<lparr>started := 1, task_terminal := 0\<rparr>,
      1 := (tasks s ! 1)\<lparr>started := 0, task_terminal := 1\<rparr>, 2 := (tasks s ! 2)\<lparr>started := 0, task_terminal := 2\<rparr>]"
    using assms by (simp add: init_tasks_def upt_rec numeral_2_eq_2)
  then show ?thesis using assms by (simp add: tasks_ok_def all_less_3)
qed

lemma init_tasks_fields:
  "terminals (init_tasks s) = terminals s" "active_terminal (init_tasks s) = active_terminal s" "pcbs (init_tasks s) = pcbs s"
  "global_pid (init_tasks s) = global_pid s" "pid_availability (init_tasks s) = pid_availability s" "io (init_tasks s) = io s"
  "mmu (init_tasks s) = mmu s" "tss_esp0 (init_tasks s) = tss_esp0 s"
  by (simp_all add: init_tasks_def upt_rec upd_task_def)


subsection \<open>The scheduler starts\<close>

text \<open>The kernel's memory is mapped to itself, as the code and the stacks need it.\<close>

definition kernel_mapped :: "kstate \<Rightarrow> bool" where
  "kernel_mapped s \<longleftrightarrow> (\<forall>x. kernel_addr x \<longrightarrow> mmu s x = x)"

text \<open>The state in which \<open>start_scheduler\<close> executes the shell.\<close>

definition ready_to_run :: "nat set \<Rightarrow> kstate \<Rightarrow> bool" where
  "ready_to_run L s \<longleftrightarrow> wf_kernel s \<and> active_terminal s = 0 \<and> current_task s = 0 \<and> scheduling_started s = C_TRUE
     \<and> pid_availability s = replicate NUM_PROCESSES AVAILABLE \<and> own_pages s \<and> maps s VIDMEM VIDMEM
     \<and> lines_open s L \<and> kernel_mapped s"

lemma before_scheduler:
  assumes "boot_env_ok be" and "fresh_kernel (kern v)" and "lines_open (kern v) L" and "kernel_mapped (kern v)"
  defines "w \<equiv> on_kern (init_pit be) (on_kern (\<lambda>s. s\<lparr>current_task := 0\<rparr>) (on_kern init_tasks (on_kern cli v)))"
  shows "fresh_kernel (kern w)" "tasks_ok (tasks (kern w)) 0" "current_task (kern w) = 0" "lines_open (kern w) (insert 0 L)"
    "kernel_mapped (kern w)" "build w = build v" "vga0 w = vga0 v" "tss_esp0 (kern w) = tss_esp0 (kern v)"
proof -
  define t where "t = (init_tasks (cli (kern v)))\<lparr>current_task := 0\<rparr>"
  have w: "kern w = init_pit be t" by (simp add: w_def t_def)
  note D = boot_env_okD [OF assms(1)]
  note same = vars_same_fields [OF D(6) [of t]]
  have ti: "tasks_ok (tasks (init_tasks (cli (kern v)))) 0" using assms(2) by (intro init_tasks_ok) (simp add: fresh_kernel_def)
  then have l: "length (tasks (init_tasks (cli (kern v)))) = 3" by (simp add: tasks_ok_def)
  have "fresh_kernel t"
    using assms(2) l by (simp add: fresh_kernel_def t_def init_tasks_fields pcbs_ok_def next_fd_def current_fds_def CURRENT_PCB_ADDRESS_def)
  then show "fresh_kernel (kern w)" unfolding w by (rule fresh_same) (rule D(6))
  show "tasks_ok (tasks (kern w)) 0" "current_task (kern w) = 0" "tss_esp0 (kern w) = tss_esp0 (kern v)"
    using ti by (simp_all add: w same) (simp_all add: t_def init_tasks_fields)
  have "lines_open t L" using assms(3) by (rule lines_quiet) (simp add: pic_same_def t_def init_tasks_fields)
  then show "lines_open (kern w) (insert 0 L)" unfolding w by (rule D(8))
  show "kernel_mapped (kern w)"
    using assms(4) by (simp add: kernel_mapped_def w D(7)) (simp add: t_def init_tasks_fields)
  show "build w = build v" "vga0 w = vga0 v" by (simp_all add: w_def)
qed

lemma modes_shown:
  assumes "boot_env_ok be" and "vga_reads_back (vga0 v) hw" and "length (build v) = BUILD_BUF_SIZE + 2 * MEM_FENCE_WIDTH"
  shows "\<exists>r v1 v2. set_mode_X (pages (drivers be)) hw junk v = Some (r, v1)
    \<and> clear_mode_X (pages (drivers be)) hw (play_turtles be v1) = Some v2 \<and> vquiet v v2"
proof -
  note D = boot_env_okD [OF assms(1)]
  obtain v1 where v1: "set_mode_X (pages (drivers be)) hw junk v = Some (0, v1)" "mode_X_ready v1" "vga0 v1 = vga0 v"
    using set_mode_X_result [OF D(2) assms(2,3), of junk] by blast
  let ?w = "play_turtles be v1"
  have w: "mode_X_ready ?w" "vga_reads_back (vga0 ?w) hw"
    using v1(2,3) assms(2) D(10-12) [of v1] by (simp_all add: mode_X_ready_def linear_def)
  have "vquiet v v1" by (rule set_mode_X_quiet [OF D(2) v1(1)])
  also have "vquiet v1 ?w" by (rule D(9))
  also have "vquiet ?w (set_text_mode_3 (pages (drivers be)) hw 1 ?w)" by (rule set_text_mode_3_quiet [OF D(2)])
  finally show ?thesis using v1(1) clear_mode_X_steps [OF w] by blast
qed

lemma terminals_ready:
  assumes "boot_env_ok be" and "pic_reads_back hw" and "fresh_kernel s" and "tasks_ok (tasks s) 0" and "current_task s = 0"
    and "lines_open s L" and "kernel_mapped s"
  defines "s' \<equiv> (snd (terminal_open hw (pages (drivers be)) s))\<lparr>scheduling_started := C_TRUE\<rparr>"
  shows "ready_to_run (insert 1 L) s'" "pcbs_ok s'" "\<exists>i. next_fd s' i" "tss_esp0 s' = tss_esp0 s" "eflags s' = eflags s"
proof -
  note D = boot_env_okD [OF assms(1)]
  have f: "length (terminals s) = 3" "active_terminal s = 0" "pid_availability s = replicate 6 AVAILABLE"
    using assms(3) by (simp_all add: fresh_kernel_def)
  define t where "t = snd (terminal_open hw (pages (drivers be)) s)"
  have o: "wf_kernel t" "active_terminal t = 0" "own_pages t" "maps t VIDMEM (content_page t 0)" "eflags t = eflags s"
    using terminal_open_result [of s "pages (drivers be)" hw "fst (terminal_open hw (pages (drivers be)) s)" t]
      f assms(4,5) D(2) by (auto simp: t_def wf_kernel_def)
  note fr = terminal_open_frame [OF f(1) D(2) assms(2,6), folded t_def]
  have ct: "current_task t = 0"
    using terminal_open_steps [OF f(1) D(2), of hw] assms(5) by (simp add: t_def del: upt_rec_numeral)
  have m: "maps (t\<lparr>scheduling_started := n\<rparr>) w q = maps t w q" "content_page (t\<lparr>scheduling_started := n\<rparr>) i = content_page t i" for n w q i
    by (simp_all add: maps_def linear_def content_page_def)
  have "wf_kernel s'" by (rule wf_kernel_cong [OF o(1)]) (simp_all add: s'_def t_def [symmetric])
  moreover have "own_pages s'" using o(3) by (simp add: s'_def t_def [symmetric] own_pages_def m)
  moreover have "maps s' VIDMEM VIDMEM" using o(2,4) by (simp add: s'_def t_def [symmetric] m content_page_def)
  moreover have "lines_open s' (insert 1 L)" using fr(6) by (rule lines_quiet) (simp add: s'_def t_def pic_same_def)
  moreover have "kernel_mapped s'" using assms(7) fr(5) by (simp add: s'_def t_def [symmetric] kernel_mapped_def)
  ultimately show "ready_to_run (insert 1 L) s'"
    using o(2) ct fr(4) f(3) by (simp add: ready_to_run_def) (simp add: s'_def t_def [symmetric])
  show "pcbs_ok s'" "\<exists>i. next_fd s' i" "tss_esp0 s' = tss_esp0 s" "eflags s' = eflags s"
    using assms(3) o(5) by (simp_all add: s'_def t_def [symmetric] fresh_kernel_def pcbs_ok_def next_fd_def current_fds_def
        CURRENT_PCB_ADDRESS_def fr)
qed


text \<open>The first shell runs: process 0 without a parent in its own page, on the screen and in the scheduler's task, with
  the interrupt lines \<open>L\<close> open and no other.\<close>

definition shell_running :: "nat set \<Rightarrow> kstate \<Rightarrow> bool" where
  "shell_running L s \<longleftrightarrow> wf_kernel s \<and> active_terminal s = 0 \<and> current_task s = 0 \<and> scheduling_started s = C_TRUE
     \<and> lines_open s L \<and> kernel_mapped s \<and> own_pages s \<and> maps s VIDMEM VIDMEM
     \<and> pid_availability s = UNAVAILABLE # replicate 5 AVAILABLE
     \<and> global_pid s = 0 \<and> tss_esp0 s = KERNEL_STACK_ADDRESS 0
     \<and> task_pcb (CURRENT_TASK s) = PCB_ADDRESS 0 \<and> task_pid (CURRENT_TASK s) = 0
     \<and> (\<forall>x. VIRTUAL_BEGIN \<le> x \<and> x < VIRTUAL_END \<longrightarrow> mmu s x = user_page 0 x)
     \<and> (let p = pcbs s (PCB_ADDRESS 0) in
          parent_pid p = - 1 \<and> parent_esp0 p = 0x800000 \<and> pcb_terminal p = 0 \<and> args p = pad_cmd []
        \<and> file_ops (fd_array p ! 0) = std_in_fops \<and> fd_in_use (fd_array p ! 0)
        \<and> file_ops (fd_array p ! 1) = std_out_fops \<and> fd_in_use (fd_array p ! 1))"

text \<open>The context that \<open>iret\<close> enters: the address that the program's header names, with interrupts on.\<close>

definition enters_program :: "kstate \<Rightarrow> boot_end" where
  "enters_program s = Enters (Iret (rd32 s (PROGRAM_START_ADDRESS + ENTRY_POINT_LOCATION)) USER_CS
     (eflags s OR ENABLE_INTERRUPTS) VIRTUAL_STACK_START USER_DS)"

text \<open>The pages of the terminals and the kernel's memory lie outside the user page.\<close>

lemma maps_outside_user:
  assumes "\<And>x. \<not> (VIRTUAL_BEGIN \<le> x \<and> x < VIRTUAL_END) \<Longrightarrow> mmu s' x = mmu s x" and "unat w + 4096 \<le> 0x8000000"
  shows "maps s' w q = maps s w q"
proof -
  have "mmu s' (w + of_nat i) = mmu s (w + of_nat i)" if "i < 4096" for i
  proof (rule assms(1))
    have "unat (w + of_nat i) = unat w + i" using unat_offset [of w i] assms(2) that by simp
    then show "\<not> (VIRTUAL_BEGIN \<le> w + of_nat i \<and> w + of_nat i < VIRTUAL_END)"
      using assms(2) that by (simp add: word_le_nat_alt)
  qed
  then show ?thesis by (simp add: maps_def linear_def)
qed

lemma shell_starts:
  assumes "boot_env_ok be" and "ready_to_run L s" and "pcbs_ok s" and "next_fd s i" and "tss_esp0 s = 0x800000"
  shows "\<exists>t s'. sys_execute (drivers be) shell_name s = Some (t, s') \<and> Enters t = enters_program s' \<and> shell_running L s'"
proof -
  note D = boot_env_okD [OF assms(1)]
  have r: "wf_kernel s" "pid_availability s = replicate 6 AVAILABLE" "kernel_mapped s" "active_terminal s = 0" "current_task s = 0"
    "scheduling_started s = C_TRUE" "own_pages s" "maps s VIDMEM VIDMEM" "lines_open s L"
    using assms(2) by (simp_all add: ready_to_run_def)
  have "next_pid s 0" using r(2) by (simp add: next_pid_def)
  moreover have "first_word (drivers be) (pad_cmd (cmd_name (the shell_name))) (take_pid 0 s) (\<lambda>w. w = ELF_HEADER)"
    using r(3) by (intro D(13)) (simp add: take_pid_def kernel_mapped_def)
  ultimately obtain s' where x: "sys_execute (drivers be) (Some (the shell_name)) s =
      Some (Iret (rd32 s' (PROGRAM_START_ADDRESS + ENTRY_POINT_LOCATION)) USER_CS (eflags s OR ENABLE_INTERRUPTS) VIRTUAL_STACK_START USER_DS, s')"
    "started_process (of_nat 0) (- 1) (pad_cmd (cmd_arg (the shell_name))) s s'"
    "pid_availability s' = (pid_availability s)[0 := UNAVAILABLE]" "wf_kernel s'"
    "\<forall>x. mmu s' x = (if VIRTUAL_BEGIN \<le> x \<and> x < VIRTUAL_END then user_page (of_nat 0) x else mmu s x)"
    "terminals s' = terminals s" "active_terminal s' = active_terminal s" "eflags s' = eflags s" "current_task s' = current_task s"
    using exec_starts [OF D(1) r(1) assms(3) _ assms(4) shell_facts(1-4), of 0] by auto
  have av: "(replicate 6 AVAILABLE)[0 := UNAVAILABLE] = UNAVAILABLE # replicate 5 AVAILABLE" by (simp add: numeral_eq_Suc)
  have k: "setup_kept s s'" by (rule sys_execute_setup [OF D(14) x(1)])
  have tt: "task_terminal (CURRENT_TASK s) = 0" using r(1,5) by (simp add: wf_kernel_def tasks_ok_def CURRENT_TASK_def)
  have out: "mmu s' x = mmu s x" if "\<not> (VIRTUAL_BEGIN \<le> x \<and> x < VIRTUAL_END)" for x using x(5) [rule_format, of x] unfolding if_not_P [OF that] .
  have mo: "maps s' w q = maps s w q" if "unat w + 4096 \<le> 0x8000000" for w q
    by (rule maps_outside_user [OF _ that]) (rule out)
  have "kernel_mapped s'"
    using r(3) out by (auto simp: kernel_mapped_def kernel_addr_def word_le_nat_alt word_less_nat_alt)
  moreover have "maps s' VIDMEM VIDMEM" using mo [of VIDMEM VIDMEM] r(8) by simp
  moreover have "own_pages s'"
    unfolding own_pages_def
  proof (intro allI impI)
    fix i :: nat assume "i < 3"
    then have "i = 0 \<or> i = 1 \<or> i = 2" by linarith
    then have "unat (term_page i) + 4096 \<le> 0x8000000" by (elim disjE) (simp_all add: term_page_def)
    note mo [OF this]
    moreover have "video_mem (terminals s ! i) = term_page i"
      using r(1) \<open>i < 3\<close> by (simp add: wf_kernel_def terminals_ok_def term_page_def)
    ultimately show "maps s' (video_mem (terminals s' ! i)) (content_page s' i)"
      using r(7) [unfolded own_pages_def, rule_format, OF \<open>i < 3\<close>] x(6,7)
      by (simp only: content_page_def)
  qed
  moreover have "lines_open s' L" using r(9) k lines_quiet by (simp add: setup_kept_def)
  ultimately have "shell_running L s'"
    using x r(2,4-6) k tt assms(5) av unfolding shell_facts(6)
    by (simp add: shell_running_def started_process_def Let_def setup_kept_def)
  then show ?thesis using x(1,8) unfolding shell_facts(5) by (auto simp: enters_program_def)
qed

lemma start_scheduler_ok:
  assumes "boot_env_ok be" and "pic_reads_back hw" and "vga_reads_back (vga0 v) hw"
    and "length (build v) = BUILD_BUF_SIZE + 2 * MEM_FENCE_WIDTH"
    and "fresh_kernel (kern v)" and "lines_open (kern v) L" and "kernel_mapped (kern v)" and "tss_esp0 (kern v) = 0x800000"
  shows "\<exists>v'. start_scheduler be hw junk v = Some (enters_program (kern v'), v') \<and> shell_running (insert 1 (insert 0 L)) (kern v')"
proof -
  define w where "w = on_kern (init_pit be) (on_kern (\<lambda>s. s\<lparr>current_task := 0\<rparr>) (on_kern init_tasks (on_kern cli v)))"
  note b = before_scheduler [OF assms(1,5-7), folded w_def]
  obtain r0 v1 v2 where m: "set_mode_X (pages (drivers be)) hw junk w = Some (r0, v1)"
    "clear_mode_X (pages (drivers be)) hw (play_turtles be v1) = Some v2" "vquiet w v2"
    using modes_shown [OF assms(1), of w hw junk] assms(3,4) b(6,7) by auto
  have same: "vars_same (kern w) (kern v2)" and pic: "pic_same (kern w) (kern v2)" and km: "kernel_mapped (kern v2)"
    using m(3) b(5) by (simp_all add: vquiet_def quiet_def kernel_mapped_def)
  note f = vars_same_fields [OF same]
  define s where "s = (snd (terminal_open hw (pages (drivers be)) (kern v2)))\<lparr>scheduling_started := C_TRUE\<rparr>"
  have t: "tasks_ok (tasks (kern v2)) 0" "current_task (kern v2) = 0" using b(2,3) by (simp_all add: f)
  note r = terminals_ready [OF assms(1,2) fresh_same [OF b(1) same] t lines_quiet [OF b(4) pic] km, folded s_def]
  obtain i where i: "next_fd s i" using r(3) by blast
  have "tss_esp0 s = 0x800000" using r(4) f(8) b(8) assms(8) by simp
  then obtain t s' where x: "sys_execute (drivers be) shell_name s = Some (t, s')" "Enters t = enters_program s'"
    "shell_running (insert 1 (insert 0 L)) s'"
    using shell_starts [OF assms(1) r(1,2) i] by blast
  define v3 where "v3 = on_kern (\<lambda>s. s\<lparr>scheduling_started := C_TRUE\<rparr>)
      (on_kern (\<lambda>s. snd (terminal_open hw (pages (drivers be)) s)) v2)"
  obtain eip cs fl sp ss where t: "t = Iret eip cs fl sp ss" using x(2) by (auto simp: enters_program_def)
  have "start_scheduler be hw junk v = Some (Enters t, v3\<lparr>kern := s'\<rparr>)"
    using m(1,2) x(1)
    by (simp add: start_scheduler_def Let_def w_def [symmetric] s_def [symmetric]) (simp add: t v3_def)
  then show ?thesis using x(2,3) by (intro exI [of _ "v3\<lparr>kern := s'\<rparr>"]) simp
qed


subsection \<open>The devices\<close>

lemma init_more [simp]:
  "machine.more (i8259_init hw s) = machine.more s" "mem (i8259_init hw s) = mem s" "mmu (i8259_init hw s) = mmu s"
  "machine.more (rtc_init hw s) = machine.more s" "mmu (rtc_init hw s) = mmu s"
  by (simp_all add: i8259_init_def rtc_init_def cli_and_save_def Let_def)

lemma i8259_init_df: "df_clear (i8259_init hw s) = df_clear s"
proof -
  have "eflags (i8259_init hw s) = (eflags s AND NOT IF_MASK) OR IF_MASK" by (simp add: i8259_init_def Let_def)
  moreover have "((e AND NOT IF_MASK) OR IF_MASK) AND DF_MASK = e AND DF_MASK" for e
  proof -
    have "IF_MASK AND DF_MASK = 0" by (simp add: IF_MASK_def DF_MASK_def)
    moreover have "e AND NOT IF_MASK AND DF_MASK = e AND DF_MASK" for e
      by (rule bit_word_eqI) (auto simp: bit_simps IF_MASK_def DF_MASK_def)
    ultimately show ?thesis by (simp add: bit.conj_disj_distrib2 and.assoc)
  qed
  ultimately show ?thesis by (simp add: df_clear_def)
qed

lemma on_boot_fields [simp]:
  "bkern (on_boot f b) = f (bkern b)" "build (vid (on_boot f b)) = build (vid b)" "vga0 (vid (on_boot f b)) = vga0 (vid b)"
  "tabs (on_boot f b) = tabs b" "idt (on_boot f b) = idt b" "idt_loaded (on_boot f b) = idt_loaded b"
  "filesys_img (on_boot f b) = filesys_img b"
  by (simp_all add: on_boot_def)

text \<open>What the steps before the scheduler leave of the machine around the kernel.\<close>

definition boot_same :: "boot \<Rightarrow> boot \<Rightarrow> bool" where
  "boot_same b b' \<longleftrightarrow> build (vid b') = build (vid b) \<and> vga0 (vid b') = vga0 (vid b) \<and> tabs b' = tabs b
     \<and> filesys_img b' = filesys_img b \<and> vars_same (bkern b) (bkern b')"

lemma boot_devices_ok:
  assumes "boot_env_ok be" and "pic_reads_back hw" and "df_clear (bkern b)" and "scr_ok (task_view 0xB8000 (bkern b))"
    and "scheduling_started (bkern b) = 0"
  shows "\<exists>b'. boot_devices be hw junk b = Some b' \<and> boot_same b b' \<and> lines_open (bkern b') {2, 8, 12} \<and> kernel_mapped (bkern b')"
proof -
  note D = boot_env_okD [OF assms(1)]
  define s1 where "s1 = (bkern b)\<lparr>mmu := paging_init be (mmu (bkern b))\<rparr>"
  define s2 where "s2 = i8259_init hw s1"
  obtain cs where cs: "mouse_init hw junk s2 = Some (enable_irq hw (of_nat 12) (fold putc cs (mouse_talk hw s2)))" "0x08 \<notin> set cs"
    using mouse_init_steps by blast
  define s3 where "s3 = enable_irq hw (of_nat 12) (fold putc cs (mouse_talk hw s2))"
  define s4 where "s4 = rtc_init hw s3"
  define s5 where "s5 = test_free be (test_malloc be s4)"
  have e: "boot_devices be hw junk b = Some (on_boot (\<lambda>_. s5) b)"
    using cs(1) by (simp add: boot_devices_def Let_def on_boot_def on_kern_def s1_def s2_def s3_def s4_def s5_def)
  have more2: "machine.more (mouse_talk hw s2) = machine.more (bkern b)" "mem (mouse_talk hw s2) = mem (bkern b)"
    "mmu (mouse_talk hw s2) = paging_init be (mmu (bkern b))" "df_clear (mouse_talk hw s2)"
    using assms(3) i8259_init_df [of hw s1] by (simp_all add: mouse_talk_frame s2_def s1_def df_clear_def)
  note k2 = kfields_more [OF more2(1)]
  have id: "mmu (mouse_talk hw s2) x = x" if "x < 0x800000" for x using that by (simp add: more2(3) D(3))
  have "linear (mouse_talk hw s2) VIDEO 0xB8000 4000"
    unfolding linear_def
  proof (intro allI impI)
    fix i :: nat assume "i < 4000"
    then have "unat ((0xB8000 :: u32) + of_nat i) = 0xB8000 + i" using unat_offset [of "0xB8000" i] by simp
    then have "(0xB8000 :: u32) + of_nat i < 0x800000" using \<open>i < 4000\<close> by (simp add: word_less_nat_alt)
    then show "mmu (mouse_talk hw s2) (VIDEO + of_nat i) = 0xB8000 + of_nat i" by (simp add: id)
  qed
  then have "boot_screen_ok 0xB8000 (mouse_talk hw s2)"
    using assms(4,5) more2 k2 by (simp add: boot_screen_ok_def task_view_def)
  from boot_console.put_all(3) [OF this erasable_all_plain [OF cs(2)]]
  have p: "console_frame 0xB8000 (mouse_talk hw s2) (fold putc cs (mouse_talk hw s2))" .
  have "vars_same (bkern b) (mouse_talk hw s2)" by (rule vars_same_more) (rule more2(1))
  then have "vars_same (bkern b) (fold putc cs (mouse_talk hw s2))" by (rule vars_same_trans) (rule vars_same_console [OF p])
  then have "vars_same (bkern b) s4"
    by (rule vars_same_trans) (rule vars_same_more, simp add: s4_def s3_def)
  moreover have q: "quiet s4 s5" unfolding s5_def using D(4,5) quiet_trans by blast
  ultimately have "vars_same (bkern b) s5" using vars_same_trans unfolding quiet_def by blast
  moreover have "lines_open s5 {2, 8, 12}"
  proof -
    have i2: "pic_ready s2" "\<forall>i<16. irq_masked s2 i \<longleftrightarrow> i \<noteq> 2"
      using i8259_init_masks(1) [OF assms(2), of 0 s1] i8259_init_masks(2) [OF assms(2), of _ s1] by (simp_all add: s2_def)
    note m = mouse_init_lines [OF assms(2) i2(1), where cs = cs, folded s3_def]
    note r = rtc_init_masks [OF assms(2) m(1), folded s4_def]
    have "lines_open s4 {2, 8, 12}" using i2(2) m(2) r by (auto simp: lines_open_def)
    then show ?thesis using lines_quiet q unfolding quiet_def by blast
  qed
  moreover have "kernel_mapped s5"
  proof -
    have "mmu s4 = mmu (mouse_talk hw s2)" using console_frame_fields(1) [OF p] by (simp add: s4_def s3_def)
    then show ?thesis using q id by (simp add: kernel_mapped_def quiet_def kernel_addr_def)
  qed
  ultimately show ?thesis using e by (simp add: boot_same_def)
qed


subsection \<open>Booting\<close>

text \<open>What the loader hands over: the processor without paging, zeroed variables, the information
  structure off the screen, and the image of the descriptor table.\<close>

definition loaded :: "u32 \<Rightarrow> nat \<Rightarrow> boot \<Rightarrow> bool" where
  "loaded addr n b \<longleftrightarrow> boot_screen_ok 0xB8000 (bkern b) \<and> fresh_kernel (bkern b)
     \<and> boot_info_ok 0xB8000 addr n (bkern b)
     \<and> length (build (vid b)) = BUILD_BUF_SIZE + 2 * MEM_FENCE_WIDTH \<and> gdt (tabs b) = gdt_image"

lemma clear_boot:
  assumes "boot_screen_ok P s"
  shows "boot_screen_ok P (clear s)" "vars_same s (clear s)" "printed P s (clear s)"
proof -
  have l: "linear s VIDEO P 4000" "scr_ok (task_view P s)" "df_clear s" "scheduling_started s = 0"
    using assms by (simp_all add: boot_screen_ok_def)
  have d: "draws P (\<lambda>cs. replicate 2000 (0x20, ATTRIB) @ drop 2000 cs) s (clear s)"
    using put_cells_draws [OF l(1), of 2000 0 "0x20"] by (simp add: clear_def)
  note c = draws_console_frame [OF d]
  show "vars_same s (clear s)" by (rule vars_same_console [OF c])
  have "scr_ok (task_view P (clear s))"
    using l(2) draws_fields [OF d] by (simp add: scr_ok_def task_view_def view_of_def)
  then show "boot_screen_ok P (clear s)"
    using l console_frame_linear [OF c] console_frame_fields(9) [OF c] by (simp add: boot_screen_ok_def)
  then show "printed P s (clear s)" using c by (simp add: printed_def)
qed

lemma entry_runs:
  assumes "boot_env_ok be" and "pic_reads_back hw" and "vga_reads_back (vga0 (vid b)) hw" and "loaded addr n b"
    and "\<not> (CHECK_FLAG (mbi_flags addr (bkern b)) 4 \<and> CHECK_FLAG (mbi_flags addr (bkern b)) 5)"
  shows "\<exists>b'. entry be hw junk d d' MULTIBOOT_BOOTLOADER_MAGIC addr b = Some (enters_program (bkern b'), b')
    \<and> shell_running {0, 1, 2, 8, 12} (bkern b')
    \<and> tabs b' = set_tables (ldt_addr be) (tss_addr be) d d' (tabs b)
    \<and> filesys_img b' = boot_image addr (filesys_img b) (bkern b)"
proof -
  have b: "boot_screen_ok 0xB8000 (bkern b)" "fresh_kernel (bkern b)" "boot_info_ok 0xB8000 addr n (bkern b)"
    "length (build (vid b)) = BUILD_BUF_SIZE + 2 * MEM_FENCE_WIDTH" using assms(4) by (simp_all add: loaded_def)
  note c = clear_boot [OF b(1)] and i = boot_info_same [OF b(3) clear_boot(3) [OF b(1)]]
  obtain s1 where s1: "print_boot_info junk addr (filesys_img b) (clear (bkern b)) =
      Some (True, boot_image addr (filesys_img b) (bkern b), s1)" "printed 0xB8000 (clear (bkern b)) s1"
    using print_boot_info_ok [OF c(1) i(1), of junk "filesys_img b"] assms(5) by (auto simp: i(2,3))
  define b1 where "b1 = (on_boot (\<lambda>_. s1) (on_boot clear b))\<lparr>filesys_img := boot_image addr (filesys_img b) (bkern b)\<rparr>"
  define b2 where "b2 = boot_descriptor_tables be d d' b1"
  have k2: "bkern b2 = s1\<lparr>tss_esp0 := 0x800000\<rparr>" "vga0 (vid b2) = vga0 (vid b)" "build (vid b2) = build (vid b)"
    "tabs b2 = set_tables (ldt_addr be) (tss_addr be) d d' (tabs b)"
    "filesys_img b2 = boot_image addr (filesys_img b) (bkern b)"
    by (simp_all add: b2_def b1_def boot_descriptor_tables_def Let_def on_boot_def)
  have ok1: "boot_screen_ok 0xB8000 s1" "vars_same (bkern b) s1"
    using s1(2) vars_same_trans [OF c(2)] vars_same_console unfolding printed_def by blast+
  have "fresh_kernel s1" by (rule fresh_same [OF b(2) ok1(2)])
  then have fresh2: "fresh_kernel (bkern b2)"
    by (simp add: k2 fresh_kernel_def pcbs_ok_def next_fd_def current_fds_def CURRENT_PCB_ADDRESS_def)
  obtain b3 where b3: "boot_devices be hw junk b2 = Some b3" "boot_same b2 b3" "lines_open (bkern b3) {2, 8, 12}" "kernel_mapped (bkern b3)"
    using boot_devices_ok [OF assms(1,2), of b2 junk] ok1(1)
    by (auto simp: k2 boot_screen_ok_def df_clear_def task_view_def)
  have same: "vars_same (bkern b2) (bkern b3)" "vga0 (vid b3) = vga0 (vid b)" "build (vid b3) = build (vid b)"
    "tabs b3 = tabs b2" "filesys_img b3 = filesys_img b2"
    using b3(2) k2(2,3) by (simp_all add: boot_same_def)
  have "tss_esp0 (bkern b3) = 0x800000" using vars_same_fields(8) [OF same(1)] by (simp add: k2)
  then obtain v' where v': "start_scheduler be hw junk (vid b3) = Some (enters_program (kern v'), v')"
    "shell_running (insert 1 (insert 0 {2, 8, 12})) (kern v')"
    using start_scheduler_ok [OF assms(1,2) _ _ fresh_same [OF fresh2 same(1)] b3(3,4), of junk] assms(3) b(4) same(2,3) by auto
  have "entry be hw junk d d' MULTIBOOT_BOOTLOADER_MAGIC addr b = Some (enters_program (kern v'), b3\<lparr>vid := v'\<rparr>)"
    using s1(1) b3(1) v'(1) by (simp add: entry_def Let_def b1_def [symmetric] b2_def [symmetric])
  moreover have "insert 1 (insert 0 {2, 8, 12}) = {0, 1, 2, 8, 12 :: nat}" by auto
  ultimately show ?thesis
    using v'(2) same(4,5) k2(4,5) by (intro exI [of _ "b3\<lparr>vid := v'\<rparr>"]) auto
qed


text \<open>A kernel that was not loaded by a Multiboot loader says so and goes back to it: nothing but the
  screen has changed.\<close>

lemma wrong_magic_returns:
  assumes "boot_screen_ok 0xB8000 (bkern b)" and "magic \<noteq> MULTIBOOT_BOOTLOADER_MAGIC"
  shows "\<exists>s. entry be hw junk d d' magic addr b = Some (Entry_returns, on_boot (\<lambda>_. s) b) \<and> console_frame 0xB8000 (bkern b) s"
proof -
  note c = clear_boot [OF assms(1)]
  obtain s where s: "print_line junk (''Invalid magic number: 0x%#x'' @ nl) [Int_arg magic] (clear (bkern b)) = Some s"
    "printed 0xB8000 (clear (bkern b)) s"
    using print_line_ok [OF c(1), of "''Invalid magic number: 0x%#x'' @ nl" "[Int_arg magic]" junk]
    by (auto simp: renders_simps nl_def)
  have "printed 0xB8000 (bkern b) s" using c(3) s(2) by (rule printed_trans)
  moreover have "entry be hw junk d d' magic addr b = Some (Entry_returns, on_boot (\<lambda>_. s) b)"
    using s(1) assms(2) by (simp add: entry_def on_boot_def on_kern_def)
  ultimately show ?thesis by (auto simp: printed_def)
qed

text \<open>C5. The kernel boots. Loaded by a Multiboot loader with an information structure that lies off
  the screen, \<open>entry\<close> ends by entering user mode: it prints the information, sets the descriptor
  tables, the interrupt controllers, the mouse and the clock, shows its pictures and comes back to
  text mode, opens the terminals and executes the shell. In the state in which the shell is entered the
  lines of the timer, the keyboard, the second controller, the clock and the mouse are open and no other,
  the kernel's memory maps to itself, the kernel's state is well formed with terminal 0 active and the
  scheduler started, process 0 is the shell without a parent in its own 4 MB page, with its own kernel
  stack in the task state segment and the boot stack recorded, control goes to the address that the
  header of the loaded program names, and the file system is the last module that was loaded.\<close>

theorem kernel_boots:
  assumes "boot_env_ok be" and "pic_reads_back hw" and "vga_reads_back (vga0 (vid b)) hw" and "loaded addr n b"
    and "\<not> (CHECK_FLAG (mbi_flags addr (bkern b)) 4 \<and> CHECK_FLAG (mbi_flags addr (bkern b)) 5)"
  shows "\<exists>b'. entry be hw junk d d' MULTIBOOT_BOOTLOADER_MAGIC addr b = Some (enters_program (bkern b'), b')
    \<and> shell_running {0, 1, 2, 8, 12} (bkern b')
    \<and> tabs b' = set_tables (ldt_addr be) (tss_addr be) d d' (tabs b)
    \<and> filesys_img b' = boot_image addr (filesys_img b) (bkern b)"
  using assms by (rule entry_runs)

text \<open>A machine with the drivers of the concrete runs, a timer that opens its line, and one module.\<close>

definition sample_hw :: hardware where
  "sample_hw = readback_hw (vga_hw sample_regs)"

definition sample_boot_env :: boot_env where
  "sample_boot_env = \<lparr>drivers = sample_env, fill_idt = \<lambda>t. t, paging_init = \<lambda>m x. x, test_malloc = \<lambda>s. s, test_free = \<lambda>s. s,
     init_pit = enable_irq sample_hw (of_nat 0), play_turtles = \<lambda>v. v, ldt_addr = 0x401000, tss_addr = 0x402000\<rparr>"

definition sample_loaded :: boot where
  "sample_loaded = \<lparr>vid = sample_video\<lparr>kern := sample_boot\<rparr>,
     tabs = \<lparr>gdt = gdt_image, ldtr = 0, task_register = 0, tss_ldt_segment_selector = 0, tss_ss0 = 0\<rparr>,
     idt = [], idt_loaded = False, filesys_img = 0\<rparr>"

lemma sample_hw_ok: "pic_reads_back sample_hw" "vga_reads_back (vga0 (vid sample_loaded)) sample_hw"
  by (simp_all add: sample_hw_def pic_reads_back_readback_hw vga_reads_back_def vga_hw_def readback_hw_def pic_data_port_def
      sample_loaded_def sample_video_def)

lemma shell_first_word:
  assumes "\<And>x. kernel_addr x \<Longrightarrow> mmu t x = x"
  shows "first_word sample_env name t (\<lambda>w. w = ELF_HEADER)"
proof -
  have k: "kernel_addr 0x7FDF00" "kernel_addr 0x7FDF01" "kernel_addr 0x7FDF02" "kernel_addr 0x7FDF03"
    by (simp_all add: kernel_addr_def)
  have "linear t' 0x7FDF00 0x7FDF00 4" if "mmu t' = mmu t" for t' :: kstate
    using k [THEN assms] that by (auto simp: linear_def less_Suc_eq numeral_eq_Suc)
  then have "rd32 (wr32 0x7FDF00 v t') 0x7FDF00 = v" if "mmu t' = mmu t" for t' :: kstate and v
    using that rd32_wr32 by blast
  then show ?thesis
    using sys_open_mmu [OF sample_drivers_ok, of "Some name" t] by (auto simp: first_word_def sample_env_def)
qed

lemma sample_keep_setup: "drivers_keep_setup sample_env"
  by (auto simp: drivers_keep_setup_def sample_env_def wr32_def wr8_def intro!: setup_kept_io)

lemma sample_boot_env_ok: "boot_env_ok sample_boot_env"
proof -
  have "lines_open (enable_irq sample_hw (of_nat 0) s) (insert 0 L)" if "lines_open s L" for s L
    using that enable_irq_masked [OF sample_hw_ok(1), of s 0] enable_irq_masked(2) [OF sample_hw_ok(1), of s 0 0]
    by (auto simp: lines_open_def)
  moreover have "vars_same s (enable_irq sample_hw (of_nat 0) s)" for s by (rule vars_same_more) simp
  ultimately show ?thesis
    using sample_drivers_ok sample_keep_setup shell_first_word
    by (simp add: boot_env_ok_def sample_boot_env_def vquiet_def)
qed

lemma sample_loaded_ok: "loaded 0x10000 0 sample_loaded"
proof -
  have "current_fds sample_boot = current_fds sample_kernel"
    by (simp add: current_fds_def CURRENT_PCB_ADDRESS_def sample_boot_def)
  then have "next_fd sample_boot 2" using sample_fds(2) by (simp add: next_fd_def)
  moreover have "pcbs_ok sample_boot" by (simp add: pcbs_ok_def sample_boot_def sample_pcb_def)
  ultimately have "fresh_kernel sample_boot"
    unfolding fresh_kernel_def by (auto simp: sample_boot_def)
  then show ?thesis
    using sample_boot_screen sample_boot_info by (simp add: loaded_def sample_loaded_def sample_video_def)
qed

theorem kernel_boots_witness:
  "\<forall>d. \<exists>b'. entry sample_boot_env sample_hw 0 d d MULTIBOOT_BOOTLOADER_MAGIC 0x10000 sample_loaded =
       Some (enters_program (bkern b'), b')
     \<and> filesys_img b' = 0x200000 \<and> pid_availability (bkern b') = [UNAVAILABLE, 0, 0, 0, 0, 0]
     \<and> \<not> irq_masked (bkern b') 8 \<and> irq_masked (bkern b') 9"
proof
  fix d
  have k: "bkern sample_loaded = sample_boot" by (simp add: sample_loaded_def)
  have "\<not> (CHECK_FLAG (mbi_flags 0x10000 (bkern sample_loaded)) 4 \<and> CHECK_FLAG (mbi_flags 0x10000 (bkern sample_loaded)) 5)"
    by (simp add: k sample_boot_fields(1) CHECK_FLAG_def)
  from kernel_boots [OF sample_boot_env_ok sample_hw_ok sample_loaded_ok this, of 0 d d]
  obtain b' where b': "entry sample_boot_env sample_hw 0 d d MULTIBOOT_BOOTLOADER_MAGIC 0x10000 sample_loaded = Some (enters_program (bkern b'), b')"
    "shell_running {0, 1, 2, 8, 12} (bkern b')" "filesys_img b' = boot_image 0x10000 (filesys_img sample_loaded) (bkern sample_loaded)"
    by blast
  have "filesys_img b' = 0x200000"
    unfolding b'(3) k by (simp add: boot_image_def last_module_def sample_boot_fields(1-3,6) CHECK_FLAG_def)
  moreover have "pid_availability (bkern b') = [UNAVAILABLE, 0, 0, 0, 0, 0]" "\<not> irq_masked (bkern b') 8" "irq_masked (bkern b') 9"
    using b'(2) by (simp_all add: shell_running_def lines_open_def numeral_eq_Suc)
  ultimately show "\<exists>b'. entry sample_boot_env sample_hw 0 d d MULTIBOOT_BOOTLOADER_MAGIC 0x10000 sample_loaded =
       Some (enters_program (bkern b'), b')
     \<and> filesys_img b' = 0x200000 \<and> pid_availability (bkern b') = [UNAVAILABLE, 0, 0, 0, 0, 0]
     \<and> \<not> irq_masked (bkern b') 8 \<and> irq_masked (bkern b') 9"
    using b'(1) by blast
qed

end
