(* ===== verification/Blink.thy ===== *)
theory Blink
  imports Tmnt_Prelude
begin

text \<open>
  The blinking characters of \<^verbatim>\<open>fish/\<close>: the list of \<^verbatim>\<open>fish/blink.S\<close> (add, remove, find and
  synchronise a blinking character, and the routine that runs on every clock tick) over the allocator of
  \<^verbatim>\<open>fish/fish.c\<close>, a static array whose free elements are those with location 0.

  A pointer to an element of \<open>blink_array\<close> is its index and NULL is \<open>None\<close>. The list may be circular, so its
  loops are partial functions; a dereference of NULL is also \<open>None\<close>. The list is shown to implement a plain list
  of blinking characters as long as none is at location 0, and to break when one is.
\<close>

subsection \<open>The structure, the array and the video memory\<close>

record blink =
  location :: u16
  on_char :: u8
  off_char :: u8
  on_length :: u16
  off_length :: u16
  countdown :: u16
  status :: u16
  next_blink :: "nat option"

record blinker =
  blink_array :: "blink list"
  mp1_list_head :: "nat option"
  vmem :: "nat \<Rightarrow> u8"   \<comment> \<open>the byte at \<open>vmem_base_addr\<close> plus an offset\<close>

definition BLINKS :: nat where "BLINKS = 80 * 25"

definition zero_blink :: blink where
  "zero_blink = \<lparr>location = 0, on_char = 0, off_char = 0, on_length = 0, off_length = 0, countdown = 0, status = 0, next_blink = None\<rparr>"

definition get_blink :: "nat \<Rightarrow> blinker \<Rightarrow> blink option" where
  "get_blink i s = aget (blink_array s) i"

definition put_blink :: "nat \<Rightarrow> blink \<Rightarrow> blinker \<Rightarrow> blinker option" where
  "put_blink i b s = do { a \<leftarrow> aput (blink_array s) i b; Some (s\<lparr>blink_array := a\<rparr>) }"

function mp1_malloc_loop :: "nat \<Rightarrow> blinker \<Rightarrow> nat option option" where
  "mp1_malloc_loop i s =
     (if i < BLINKS
      then do { b \<leftarrow> get_blink i s; if location b = 0 then Some (Some i) else mp1_malloc_loop (i + 1) s }
      else Some None)"
  by pat_completeness auto
termination
  by (relation "measure (\<lambda>(i, s). BLINKS - i)") auto

declare mp1_malloc_loop.simps [simp del]

definition mp1_malloc :: "blinker \<Rightarrow> nat option option" where
  "mp1_malloc s = mp1_malloc_loop 0 s"

text \<open>\<open>tmnt_memset\<close> with zeroes over the whole structure.\<close>

definition mp1_free :: "nat \<Rightarrow> blinker \<Rightarrow> blinker option" where
  "mp1_free i s = put_blink i zero_blink s"

subsection \<open>\<^verbatim>\<open>blink.S\<close>\<close>

definition mp1_poke :: "u8 \<Rightarrow> nat \<Rightarrow> blinker \<Rightarrow> blinker" where
  "mp1_poke c off s = s\<lparr>vmem := (vmem s)(off := c)\<rparr>"

text \<open>The body of \<open>tasklet_loop\<close>. The countdown is compared as a signed number.\<close>

definition tasklet_blink :: "nat \<Rightarrow> blinker \<Rightarrow> blinker option" where
  "tasklet_blink i s =
     do { b \<leftarrow> get_blink i s;
          let b = b\<lparr>countdown := countdown b - 1\<rparr>;
          if 0 < sint (countdown b) then put_blink i b s
          else if status b AND 1 \<noteq> 0
          then put_blink i (b\<lparr>countdown := off_length b, status := status b XOR 1\<rparr>) (mp1_poke (off_char b) (2 * unat (location b)) s)
          else put_blink i (b\<lparr>countdown := on_length b, status := status b XOR 1\<rparr>) (mp1_poke (on_char b) (2 * unat (location b)) s) }"

partial_function (option) tasklet_loop :: "nat option \<Rightarrow> blinker \<Rightarrow> blinker option" where
  "tasklet_loop p s =
     (case p of None \<Rightarrow> Some s
      | Some i \<Rightarrow> do { s \<leftarrow> tasklet_blink i s; b \<leftarrow> get_blink i s; tasklet_loop (next_blink b) s })"

definition mp1_rtc_tasklet :: "blinker \<Rightarrow> blinker option" where
  "mp1_rtc_tasklet s = tasklet_loop (mp1_list_head s) s"

partial_function (option) find_loop :: "u16 \<Rightarrow> nat option \<Rightarrow> blinker \<Rightarrow> nat option option" where
  "find_loop ax p s =
     (case p of None \<Rightarrow> Some None
      | Some i \<Rightarrow> do { b \<leftarrow> get_blink i s; if location b = ax then Some (Some i) else find_loop ax (next_blink b) s })"

definition mp1_find_helper :: "u16 \<Rightarrow> blinker \<Rightarrow> nat option option" where
  "mp1_find_helper ax s = find_loop ax (mp1_list_head s) s"

definition mp1_ioctl_add :: "blink \<Rightarrow> blinker \<Rightarrow> (u32 \<times> blinker) option" where
  "mp1_ioctl_add u s =
     (if of_nat BLINKS \<le> location u then Some (- 1, s)
      else do { let b = u\<lparr>status := 1, countdown := on_length u\<rparr>;
                p \<leftarrow> mp1_malloc s;
                (case p of None \<Rightarrow> Some (- 1, s)
                 | Some i \<Rightarrow> do { s \<leftarrow> put_blink i b s;
                                  s \<leftarrow> put_blink i (b\<lparr>next_blink := mp1_list_head s\<rparr>) s;
                                  let s = s\<lparr>mp1_list_head := Some i\<rparr>;
                                  Some (0, mp1_poke (on_char b) (2 * unat (location b)) s) }) })"

text \<open>The address in \<open>edx\<close> of the loop \<open>remove_find_prev\<close>: of the head or of the field of an element.\<close>

datatype link = Head | Next nat

fun link_get :: "link \<Rightarrow> blinker \<Rightarrow> nat option option" where
  "link_get Head s = Some (mp1_list_head s)"
| "link_get (Next i) s = do { b \<leftarrow> get_blink i s; Some (next_blink b) }"

fun link_set :: "link \<Rightarrow> nat option \<Rightarrow> blinker \<Rightarrow> blinker option" where
  "link_set Head p s = Some (s\<lparr>mp1_list_head := p\<rparr>)"
| "link_set (Next i) p s = do { b \<leftarrow> get_blink i s; put_blink i (b\<lparr>next_blink := p\<rparr>) s }"

partial_function (option) remove_find_prev :: "nat \<Rightarrow> link \<Rightarrow> blinker \<Rightarrow> link option" where
  "remove_find_prev i edx s =
     do { p \<leftarrow> link_get edx s;
          (if p = Some i then Some edx
           else case p of None \<Rightarrow> None | Some j \<Rightarrow> remove_find_prev i (Next j) s) }"

definition mp1_ioctl_remove :: "u32 \<Rightarrow> blinker \<Rightarrow> (u32 \<times> blinker) option" where
  "mp1_ioctl_remove arg s =
     do { p \<leftarrow> mp1_find_helper (ucast arg) s;
          (case p of None \<Rightarrow> Some (- 1, s)
           | Some i \<Rightarrow> do { edx \<leftarrow> remove_find_prev i Head s;
                            b \<leftarrow> get_blink i s;
                            s \<leftarrow> link_set edx (next_blink b) s;
                            s \<leftarrow> mp1_free i s;
                            Some (0, s) }) }"

text \<open>The conditional move of \<open>sync_copy_loop\<close> is the one on less: it looks at the sign of the tested byte.\<close>

definition mp1_ioctl_sync :: "u32 \<Rightarrow> blinker \<Rightarrow> (u32 \<times> blinker) option" where
  "mp1_ioctl_sync arg s =
     do { p \<leftarrow> mp1_find_helper (ucast (drop_bit 16 arg)) s;
          (case p of None \<Rightarrow> Some (- 1, s)
           | Some esi \<Rightarrow>
               do { p \<leftarrow> mp1_find_helper (ucast (arg AND 0xFFFF)) s;
                    (case p of None \<Rightarrow> Some (- 1, s)
                     | Some edi \<Rightarrow>
                         do { a \<leftarrow> get_blink esi s;
                              b \<leftarrow> get_blink edi s;
                              let b = b\<lparr>on_length := on_length a, off_length := off_length a, countdown := countdown a, status := status a\<rparr>;
                              s \<leftarrow> put_blink edi b s;
                              let cl = (if bit (ucast (status b) AND 1 :: u8) 7 then on_char b else off_char b);
                              Some (0, mp1_poke cl (2 * unat (location b)) s) }) }) }"

definition mp1_ioctl_find :: "blink \<Rightarrow> blinker \<Rightarrow> (u32 \<times> blink) option" where
  "mp1_ioctl_find u s =
     do { p \<leftarrow> mp1_find_helper (location u) s;
          (case p of None \<Rightarrow> Some (- 1, u) | Some i \<Rightarrow> do { b \<leftarrow> get_blink i s; Some (0, b) }) }"

text \<open>The argument of \<open>mp1_ioctl\<close> is a pointer to a structure or a number; the command is the index into the
  table of jump targets. The structure comes back, since \<open>RTC_FIND\<close> stores into it.\<close>

datatype ioctl_arg = Struct blink | Num u32

definition RTC_ADD :: u32 where "RTC_ADD = 0"
definition RTC_REMOVE :: u32 where "RTC_REMOVE = 1"
definition RTC_FIND :: u32 where "RTC_FIND = 2"
definition RTC_SYNC :: u32 where "RTC_SYNC = 3"

definition mp1_ioctl :: "ioctl_arg \<Rightarrow> u32 \<Rightarrow> blinker \<Rightarrow> (u32 \<times> ioctl_arg \<times> blinker) option" where
  "mp1_ioctl arg cmd s =
     (case arg of
        Struct u \<Rightarrow> if cmd = RTC_ADD then do { (r, s) \<leftarrow> mp1_ioctl_add u s; Some (r, arg, s) }
                    else if cmd = RTC_FIND then do { (r, u) \<leftarrow> mp1_ioctl_find u s; Some (r, Struct u, s) }
                    else None
      | Num n \<Rightarrow> if cmd = RTC_REMOVE then do { (r, s) \<leftarrow> mp1_ioctl_remove n s; Some (r, arg, s) }
                 else if cmd = RTC_SYNC then do { (r, s) \<leftarrow> mp1_ioctl_sync n s; Some (r, arg, s) }
                 else None)"

subsection \<open>The list in the array\<close>

primrec chain :: "blink list \<Rightarrow> nat option \<Rightarrow> nat list \<Rightarrow> bool" where
  "chain a p [] \<longleftrightarrow> p = None"
| "chain a p (i # ps) \<longleftrightarrow> p = Some i \<and> i < length a \<and> chain a (next_blink (a ! i)) ps"

lemma chain_bounded: "chain a p ps \<Longrightarrow> i \<in> set ps \<Longrightarrow> i < length a"
  by (induction ps arbitrary: p) auto

lemma chain_unique: "chain a p ps \<Longrightarrow> chain a p qs \<Longrightarrow> ps = qs"
proof (induction ps arbitrary: p qs)
  case Nil
  then show ?case by (cases qs) auto
next
  case (Cons i ps)
  then show ?case by (cases qs) auto
qed

lemma chain_append: "chain a p (xs @ i # ys) \<Longrightarrow> chain a (Some i) (i # ys)"
  by (induction xs arbitrary: p) auto

lemma chain_distinct: "chain a p ps \<Longrightarrow> distinct ps"
proof (induction ps arbitrary: p)
  case (Cons i ps)
  have "i \<notin> set ps"
  proof
    assume "i \<in> set ps"
    then obtain xs ys where ps: "ps = xs @ i # ys" by (metis split_list)
    have "chain a (Some i) (i # ps)" "chain a (Some i) (i # ys)"
      using Cons.prems chain_append [of a p "i # xs" i ys] ps by auto
    then have "i # ps = i # ys" by (rule chain_unique)
    then show False using ps by simp
  qed
  then show ?case using Cons by auto
qed simp

lemma chain_update: "i \<notin> set ps \<Longrightarrow> chain (a[i := b]) p ps \<longleftrightarrow> chain a p ps"
  by (induction ps arbitrary: p) auto

lemma chain_same_next: "next_blink b = next_blink (a ! i) \<Longrightarrow> chain (a[i := b]) p ps \<longleftrightarrow> chain a p ps"
proof (induction ps arbitrary: p)
  case (Cons j ps)
  have "next_blink (a[i := b] ! j) = next_blink (a ! j)" if "j < length a"
    using that Cons.prems by (cases "i = j") simp_all
  then show ?case using Cons.IH [OF Cons.prems] by (cases "j < length a") simp_all
qed simp

lemma nth_update_outside: "i \<notin> set ps \<Longrightarrow> x \<in> set ps \<Longrightarrow> a[i := b] ! x = a ! x"
  by (metis nth_list_update_neq)

text \<open>The blinking characters of a list, without their links.\<close>

definition plain :: "blink \<Rightarrow> blink" where
  "plain b = b\<lparr>next_blink := None\<rparr>"

definition items :: "blinker \<Rightarrow> nat list \<Rightarrow> blink list" where
  "items s ps = map (\<lambda>i. plain (blink_array s ! i)) ps"

definition wf_blinker :: "blinker \<Rightarrow> nat list \<Rightarrow> bool" where
  "wf_blinker s ps \<longleftrightarrow> length (blink_array s) = BLINKS \<and> chain (blink_array s) (mp1_list_head s) ps
     \<and> (\<forall>i<BLINKS. location (blink_array s ! i) \<noteq> 0 \<longleftrightarrow> i \<in> set ps)"

definition holds_blinks :: "blinker \<Rightarrow> blink list \<Rightarrow> bool" where
  "holds_blinks s xs \<longleftrightarrow> (\<exists>ps. wf_blinker s ps \<and> xs = items s ps)"

lemma wf_blinkerD:
  assumes "wf_blinker s ps"
  shows "length (blink_array s) = BLINKS" "chain (blink_array s) (mp1_list_head s) ps" "distinct ps"
    "i \<in> set ps \<Longrightarrow> i < BLINKS" "i < BLINKS \<Longrightarrow> location (blink_array s ! i) \<noteq> 0 \<longleftrightarrow> i \<in> set ps"
  using assms chain_distinct [of _ _ ps] chain_bounded [of "blink_array s" _ ps i] by (auto simp: wf_blinker_def)

lemma get_blink_Some [simp]: "i < length (blink_array s) \<Longrightarrow> get_blink i s = Some (blink_array s ! i)"
  by (simp add: get_blink_def)

lemma put_blink_Some [simp]: "i < length (blink_array s) \<Longrightarrow> put_blink i b s = Some (s\<lparr>blink_array := (blink_array s)[i := b]\<rparr>)"
  by (simp add: put_blink_def)

lemma plain_simps [simp]: "location (plain b) = location b" "on_char (plain b) = on_char b" "off_char (plain b) = off_char b"
  "on_length (plain b) = on_length b" "off_length (plain b) = off_length b" "countdown (plain b) = countdown b"
  "status (plain b) = status b" "plain (plain b) = plain b" "next_blink (plain b) = None"
  by (simp_all add: plain_def)

lemma wf_blinker_length: "wf_blinker s ps \<Longrightarrow> length ps \<le> BLINKS"
proof -
  assume w: "wf_blinker s ps"
  have "set ps \<subseteq> {..<BLINKS}" using wf_blinkerD(4) [OF w] by auto
  then have "card (set ps) \<le> BLINKS" using card_mono [of "{..<BLINKS}" "set ps"] by simp
  then show ?thesis using distinct_card [OF wf_blinkerD(3) [OF w]] by simp
qed

subsection \<open>The allocator\<close>

lemma malloc_loop_free:
  assumes "length (blink_array s) = BLINKS" and "k \<le> i" and "i < BLINKS" and "location (blink_array s ! i) = 0"
    and "\<And>j. k \<le> j \<Longrightarrow> j < i \<Longrightarrow> location (blink_array s ! j) \<noteq> 0"
  shows "mp1_malloc_loop k s = Some (Some i)"
  using assms(2,5)
proof (induction "i - k" arbitrary: k)
  case 0
  then show ?case using assms(1,3,4) by (simp add: mp1_malloc_loop.simps)
next
  case (Suc d)
  then have "k < i" "location (blink_array s ! k) \<noteq> 0" by auto
  then show ?case
    using Suc.hyps(1) [of "k + 1"] Suc.hyps(2) Suc.prems assms(1,3) by (subst mp1_malloc_loop.simps) auto
qed

lemma malloc_loop_full:
  assumes "length (blink_array s) = BLINKS" and "\<And>j. j < BLINKS \<Longrightarrow> location (blink_array s ! j) \<noteq> 0"
  shows "mp1_malloc_loop k s = Some None"
proof (induction "BLINKS - k" arbitrary: k)
  case 0
  then show ?case by (simp add: mp1_malloc_loop.simps)
next
  case (Suc d)
  then show ?case using assms Suc.hyps(1) [of "k + 1"] by (subst mp1_malloc_loop.simps) auto
qed

text \<open>The allocator only looks at locations.\<close>

lemma malloc_loop_same:
  assumes "length (blink_array t) = BLINKS" and "length (blink_array s) = BLINKS"
    and "\<And>j. j < BLINKS \<Longrightarrow> location (blink_array t ! j) = location (blink_array s ! j)"
  shows "mp1_malloc_loop k t = mp1_malloc_loop k s"
proof (induction "BLINKS - k" arbitrary: k)
  case 0
  then show ?case by (simp add: mp1_malloc_loop.simps)
next
  case (Suc d)
  then have k: "k < BLINKS" "mp1_malloc_loop (k + 1) t = mp1_malloc_loop (k + 1) s" using Suc.hyps(1) [of "k + 1"] by simp_all
  show ?case
    using k assms(1,2) assms(3) [OF k(1)] by (subst mp1_malloc_loop.simps, subst (2) mp1_malloc_loop.simps) simp
qed

lemma malloc_cases:
  assumes "wf_blinker s ps"
  shows "length ps = BLINKS \<Longrightarrow> mp1_malloc s = Some None"
    "length ps < BLINKS \<Longrightarrow> \<exists>i. mp1_malloc s = Some (Some i) \<and> i < BLINKS \<and> i \<notin> set ps"
proof -
  note w = wf_blinkerD [OF assms]
  have sub: "set ps \<subseteq> {..<BLINKS}" using w(4) by blast
  have card: "card (set ps) = length ps" by (rule distinct_card [OF w(3)])
  show "mp1_malloc s = Some None" if "length ps = BLINKS"
  proof -
    have e: "set ps = {..<BLINKS}" using card_subset_eq [OF finite_lessThan sub] card that by simp
    have "location (blink_array s ! j) \<noteq> 0" if "j < BLINKS" for j using w(5) [OF that] that e by blast
    then show ?thesis unfolding mp1_malloc_def by (rule malloc_loop_full [OF w(1)])
  qed
  show "\<exists>i. mp1_malloc s = Some (Some i) \<and> i < BLINKS \<and> i \<notin> set ps" if "length ps < BLINKS"
  proof -
    have "set ps \<noteq> {..<BLINKS}" using card that by (metis card_lessThan less_irrefl)
    then have ex: "\<exists>i. i < BLINKS \<and> i \<notin> set ps" using sub by blast
    define i where "i = (LEAST i. i < BLINKS \<and> i \<notin> set ps)"
    have i: "i < BLINKS \<and> i \<notin> set ps" unfolding i_def by (rule LeastI_ex [OF ex])
    have l: "location (blink_array s ! i) = 0" using w(5) [of i] i by blast
    have "location (blink_array s ! j) \<noteq> 0" if "j < i" for j
    proof -
      have "j < BLINKS" using that i by simp
      moreover have "\<not> (j < BLINKS \<and> j \<notin> set ps)" using that unfolding i_def by (rule not_less_Least)
      ultimately show ?thesis using w(5) [of j] by blast
    qed
    then have "mp1_malloc_loop 0 s = Some (Some i)" using malloc_loop_free [OF w(1), of 0 i] i l by blast
    then show ?thesis using i unfolding mp1_malloc_def by blast
  qed
qed

subsection \<open>The operations on the list of blinking characters\<close>

text \<open>The abstract operations: one tick of a blinking character, and removal of the first at a location.\<close>

definition tick :: "blink \<Rightarrow> blink" where
  "tick b = (let c = countdown b - 1 in
     if 0 < sint c then b\<lparr>countdown := c\<rparr>
     else b\<lparr>countdown := if status b AND 1 \<noteq> 0 then off_length b else on_length b, status := status b XOR 1\<rparr>)"

definition draw_tick :: "blink \<Rightarrow> (nat \<Rightarrow> u8) \<Rightarrow> nat \<Rightarrow> u8" where
  "draw_tick b v = (if 0 < sint (countdown b - 1) then v
     else v(2 * unat (location b) := if status b AND 1 \<noteq> 0 then off_char b else on_char b))"

definition started :: "blink \<Rightarrow> blink" where
  "started u = plain (u\<lparr>status := 1, countdown := on_length u\<rparr>)"

fun remove_at :: "u16 \<Rightarrow> blink list \<Rightarrow> blink list" where
  "remove_at l [] = []"
| "remove_at l (b # bs) = (if location b = l then bs else b # remove_at l bs)"

fun change_at :: "u16 \<Rightarrow> (blink \<Rightarrow> blink) \<Rightarrow> blink list \<Rightarrow> blink list" where
  "change_at l f [] = []"
| "change_at l f (b # bs) = (if location b = l then f b # bs else b # change_at l f bs)"

definition timed_as :: "blink \<Rightarrow> blink \<Rightarrow> blink" where
  "timed_as a b = b\<lparr>on_length := on_length a, off_length := off_length a, countdown := countdown a, status := status a\<rparr>"

lemma tick_simps [simp]: "location (tick b) = location b" "next_blink (tick b) = next_blink b" "plain (tick b) = tick (plain b)"
  "on_char (tick b) = on_char b" "off_char (tick b) = off_char b" "on_length (tick b) = on_length b" "off_length (tick b) = off_length b"
  by (simp_all add: tick_def plain_def Let_def)

lemma draw_tick_plain [simp]: "draw_tick (plain b) = draw_tick b"
  by (simp add: draw_tick_def fun_eq_iff)

lemma tasklet_blink_tick:
  assumes "i < length (blink_array s)"
  shows "tasklet_blink i s = Some (s\<lparr>blink_array := (blink_array s)[i := tick (blink_array s ! i)],
    vmem := draw_tick (blink_array s ! i) (vmem s)\<rparr>)"
  using assms by (simp add: tasklet_blink_def tick_def draw_tick_def mp1_poke_def Let_def)

lemma tasklet_loop_ticks:
  assumes "chain (blink_array s) p ps"
  shows "tasklet_loop p s = Some (s\<lparr>blink_array := fold (\<lambda>i a. a[i := tick (a ! i)]) ps (blink_array s),
    vmem := fold draw_tick (map (\<lambda>i. blink_array s ! i) ps) (vmem s)\<rparr>)"
  using assms
proof (induction ps arbitrary: p s)
  case Nil
  then show ?case by (simp add: tasklet_loop.simps)
next
  case (Cons i ps)
  let ?a = "(blink_array s)[i := tick (blink_array s ! i)]"
  let ?s = "s\<lparr>blink_array := ?a, vmem := draw_tick (blink_array s ! i) (vmem s)\<rparr>"
  have i: "p = Some i" "i < length (blink_array s)" "chain (blink_array s) (next_blink (blink_array s ! i)) ps"
    using Cons.prems by simp_all
  have "i \<notin> set ps" using chain_distinct [OF Cons.prems] by simp
  then have m: "map (\<lambda>j. ?a ! j) ps = map (\<lambda>j. blink_array s ! j) ps" by (simp add: nth_update_outside)
  have "chain (blink_array ?s) (next_blink (blink_array s ! i)) ps" using i(3) by (simp add: chain_same_next)
  from Cons.IH [OF this] m have "tasklet_loop (next_blink (blink_array s ! i)) ?s
    = Some (s\<lparr>blink_array := fold (\<lambda>i a. a[i := tick (a ! i)]) (i # ps) (blink_array s),
        vmem := fold draw_tick (map (\<lambda>i. blink_array s ! i) (i # ps)) (vmem s)\<rparr>)" by simp
  moreover have "tasklet_loop p s = tasklet_loop (next_blink (blink_array s ! i)) ?s"
    unfolding i(1) using i(2) by (subst tasklet_loop.simps) (simp add: tasklet_blink_tick)
  ultimately show ?case by simp
qed

lemma ticked_length: "length (fold (\<lambda>i a. a[i := tick (a ! i)]) ps a) = length a"
  by (induction ps arbitrary: a) simp_all

lemma ticked_nth:
  assumes "distinct ps" and "j < length a"
  shows "fold (\<lambda>i a. a[i := tick (a ! i)]) ps a ! j = (if j \<in> set ps then tick (a ! j) else a ! j)"
  using assms
proof (induction ps arbitrary: a)
  case (Cons i ps)
  then show ?case using Cons.IH [of "a[i := tick (a ! i)]"] by (cases "i = j") simp_all
qed simp

lemma chain_same_nexts:
  assumes "length b = length a" and "\<And>j. j < length a \<Longrightarrow> next_blink (b ! j) = next_blink (a ! j)"
  shows "chain b p ps \<longleftrightarrow> chain a p ps"
proof (induction ps arbitrary: p)
  case (Cons i ps)
  then show ?case using assms(1) assms(2) [of i] by (cases "i < length a") simp_all
qed simp

lemma tasklet_list:
  assumes "holds_blinks s xs"
  shows "\<exists>s'. mp1_rtc_tasklet s = Some s' \<and> holds_blinks s' (map tick xs) \<and> vmem s' = fold draw_tick xs (vmem s)"
proof -
  obtain ps where w: "wf_blinker s ps" and xs: "xs = items s ps" using assms by (auto simp: holds_blinks_def)
  note d = wf_blinkerD [OF w]
  let ?f = "fold (\<lambda>i a. a[i := tick (a ! i)]) ps (blink_array s)"
  let ?s = "s\<lparr>blink_array := ?f, vmem := fold draw_tick (map (\<lambda>i. blink_array s ! i) ps) (vmem s)\<rparr>"
  have b: "\<And>i. i \<in> set ps \<Longrightarrow> i < length (blink_array s)" using d(4,1) by simp
  note f = ticked_length [of ps "blink_array s"] ticked_nth [OF d(3), of _ "blink_array s"]
  have run: "mp1_rtc_tasklet s = Some ?s" unfolding mp1_rtc_tasklet_def by (rule tasklet_loop_ticks [OF d(2)])
  have "chain ?f (mp1_list_head s) ps" using chain_same_nexts [OF f(1)] f(2) d(2) by simp
  then have w': "wf_blinker ?s ps" using f w by (simp add: wf_blinker_def)
  have it: "items ?s ps = map tick xs" using f(2) b by (simp add: items_def xs)
  have "fold draw_tick (map (\<lambda>i. blink_array s ! i) ps) v = fold draw_tick xs v" for v
    unfolding xs items_def by (induction ps arbitrary: v) simp_all
  then show ?thesis using run w' it by (auto simp: holds_blinks_def)
qed

lemma find_loop_first:
  assumes "chain (blink_array s) p ps"
  shows "find_loop l p s = Some (List.find (\<lambda>i. location (blink_array s ! i) = l) ps)"
  using assms
proof (induction ps arbitrary: p)
  case (Cons i ps)
  then show ?case by (subst find_loop.simps) simp
qed (simp add: find_loop.simps)

lemma find_items: "List.find (\<lambda>b. location b = l) (items s ps) = map_option (\<lambda>i. plain (blink_array s ! i)) (List.find (\<lambda>i. location (blink_array s ! i) = l) ps)"
  by (induction ps) (auto simp: items_def)

lemma items_keep: "(\<And>i. i \<in> set ps \<Longrightarrow> plain (blink_array s' ! i) = plain (blink_array s ! i)) \<Longrightarrow> items s' ps = items s ps"
  by (simp add: items_def)

lemma add_list:
  assumes "holds_blinks s xs" and "location u \<noteq> 0" and "unat (location u) < BLINKS" and "length xs < BLINKS"
  shows "\<exists>s'. mp1_ioctl_add u s = Some (0, s') \<and> holds_blinks s' (started u # xs) \<and> vmem s' = (vmem s)(2 * unat (location u) := on_char u)"
proof -
  obtain ps where w: "wf_blinker s ps" and xs: "xs = items s ps" using assms(1) by (auto simp: holds_blinks_def)
  note d = wf_blinkerD [OF w]
  obtain i where i: "mp1_malloc s = Some (Some i)" "i < BLINKS" "i \<notin> set ps"
    using malloc_cases(2) [OF w] assms(4) by (auto simp: xs items_def)
  let ?b = "u\<lparr>status := 1, countdown := on_length u, next_blink := mp1_list_head s\<rparr>"
  let ?s = "s\<lparr>blink_array := (blink_array s)[i := ?b], mp1_list_head := Some i, vmem := (vmem s)(2 * unat (location u) := on_char u)\<rparr>"
  have "\<not> of_nat BLINKS \<le> location u" using assms(3) by (simp add: word_le_nat_alt BLINKS_def)
  then have "mp1_ioctl_add u s = Some (0, ?s)" using i d(1) by (simp add: mp1_ioctl_add_def mp1_poke_def Let_def)
  moreover have "wf_blinker ?s (i # ps)"
    using w i assms(2) d(1) by (auto simp: wf_blinker_def chain_update nth_list_update)
  moreover have "items ?s (i # ps) = started u # xs"
    using i d(1) by (simp add: items_def xs started_def plain_def nth_update_outside)
  ultimately show ?thesis by (auto simp: holds_blinks_def)
qed

lemma add_refused:
  assumes "holds_blinks s xs" and "BLINKS \<le> unat (location u) \<or> length xs = BLINKS"
  shows "mp1_ioctl_add u s = Some (- 1, s)"
proof (cases "of_nat BLINKS \<le> location u")
  case False
  obtain ps where w: "wf_blinker s ps" and xs: "xs = items s ps" using assms(1) by (auto simp: holds_blinks_def)
  have "length ps = BLINKS" using assms(2) False xs by (simp add: word_le_nat_alt BLINKS_def items_def)
  then show ?thesis using False malloc_cases(1) [OF w] by (simp add: mp1_ioctl_add_def Let_def)
qed (simp add: mp1_ioctl_add_def)

lemma find_split: "List.find P ps = Some i \<Longrightarrow> \<exists>xs ys. ps = xs @ i # ys \<and> P i \<and> (\<forall>j\<in>set xs. \<not> P j)"
proof (induction ps)
  case (Cons j ps)
  show ?case
  proof (cases "P j")
    case True
    then show ?thesis using Cons.prems by (intro exI [of _ "[]"] exI [of _ ps]) simp
  next
    case False
    then obtain xs ys where "ps = xs @ i # ys" "P i" "\<forall>k\<in>set xs. \<not> P k" using Cons by auto
    then show ?thesis using False by (intro exI [of _ "j # xs"] exI [of _ ys]) simp
  qed
qed simp

lemma find_prev_last:
  assumes "link_get e s = Some p" and "chain (blink_array s) p (xs @ i # ys)" and "i \<notin> set xs"
  shows "remove_find_prev i e s = Some (if xs = [] then e else Next (last xs))"
  using assms
proof (induction xs arbitrary: e p)
  case Nil
  then show ?case by (simp add: remove_find_prev.simps)
next
  case (Cons j xs)
  have "remove_find_prev i (Next j) s = Some (if xs = [] then Next j else Next (last xs))"
    using Cons.prems by (intro Cons.IH [of "Next j" "next_blink (blink_array s ! j)"]) simp_all
  then show ?case using Cons.prems by (subst remove_find_prev.simps) auto
qed

lemma chain_unlink:
  assumes "chain a p (xs @ c # i # ys)" and "c \<notin> set xs" and "c \<notin> set ys"
  shows "chain (a[c := (a ! c)\<lparr>next_blink := next_blink (a ! i)\<rparr>]) p (xs @ c # ys)"
  using assms
proof (induction xs arbitrary: p)
  case Nil
  then show ?case by (simp add: chain_update)
next
  case (Cons j xs)
  then show ?case by simp
qed

lemma remove_at_items:
  assumes "location (blink_array s ! i) = l" and "\<And>j. j \<in> set xs \<Longrightarrow> location (blink_array s ! j) \<noteq> l"
  shows "remove_at l (items s (xs @ i # ys)) = items s (xs @ ys)"
  using assms by (induction xs) (simp_all add: items_def)

text \<open>Freeing an element that the list no longer contains.\<close>

lemma free_unlinked:
  assumes "wf_blinker s (as @ i # bs)" and "length (blink_array t) = BLINKS" and "chain (blink_array t) (mp1_list_head t) (as @ bs)"
    and "\<And>j. j < BLINKS \<Longrightarrow> plain (blink_array t ! j) = plain (blink_array s ! j)"
  shows "\<exists>t'. mp1_free i t = Some t' \<and> vmem t' = vmem t \<and> holds_blinks t' (items s (as @ bs))"
proof -
  note d = wf_blinkerD [OF assms(1)]
  have out: "i \<notin> set (as @ bs)" "i < BLINKS" using d(3) d(4) [of i] by simp_all
  let ?t = "t\<lparr>blink_array := (blink_array t)[i := zero_blink]\<rparr>"
  have l: "location (blink_array t ! j) = location (blink_array s ! j)" if "j < BLINKS" for j
    using arg_cong [OF assms(4) [OF that], of location] by simp
  have "location ((blink_array t)[i := zero_blink] ! j) \<noteq> 0 \<longleftrightarrow> j \<in> set (as @ bs)" if "j < BLINKS" for j
    using d(5) [OF that] l [OF that] that out assms(2) by (cases "j = i") (auto simp: zero_blink_def)
  then have "wf_blinker ?t (as @ bs)" using assms(2,3) out(1) by (simp add: wf_blinker_def chain_update)
  moreover have "items ?t (as @ bs) = items s (as @ bs)"
  proof (rule items_keep)
    fix j assume j: "j \<in> set (as @ bs)"
    then have "j < BLINKS" using d(4) [of j] by auto
    then show "plain (blink_array ?t ! j) = plain (blink_array s ! j)" by (simp add: nth_update_outside [OF out(1) j] assms(4))
  qed
  ultimately show ?thesis using out(2) assms(2) by (auto simp: mp1_free_def holds_blinks_def)
qed

lemma unlink_first:
  assumes "wf_blinker s (as @ i # bs)"
  shows "\<exists>t. link_set (if as = [] then Head else Next (last as)) (next_blink (blink_array s ! i)) s = Some t
    \<and> length (blink_array t) = BLINKS \<and> chain (blink_array t) (mp1_list_head t) (as @ bs) \<and> vmem t = vmem s
    \<and> (\<forall>j<BLINKS. plain (blink_array t ! j) = plain (blink_array s ! j))"
proof (cases as rule: rev_cases)
  case Nil
  then show ?thesis using wf_blinkerD(1,2) [OF assms] by simp
next
  case (snoc cs c)
  note d = wf_blinkerD [OF assms]
  let ?a = "blink_array s" and ?b = "(blink_array s ! c)\<lparr>next_blink := next_blink (blink_array s ! i)\<rparr>"
  have c: "c < BLINKS" using d(4) [of c] snoc by simp
  have "chain (?a[c := ?b]) (mp1_list_head s) (cs @ c # bs)" using d(2,3) snoc by (intro chain_unlink) simp_all
  moreover have "plain (?a[c := ?b] ! j) = plain (?a ! j)" if "j < BLINKS" for j
    using that d(1) by (cases "j = c") (simp_all add: plain_def)
  ultimately show ?thesis using snoc c d(1) by simp
qed

lemma find_helper_items:
  assumes "wf_blinker s ps"
  shows "mp1_find_helper l s = Some (List.find (\<lambda>i. location (blink_array s ! i) = l) ps)"
  unfolding mp1_find_helper_def by (rule find_loop_first [OF wf_blinkerD(2) [OF assms]])

lemma remove_list:
  assumes "holds_blinks s xs"
  shows "(\<forall>b\<in>set xs. location b \<noteq> ucast arg) \<Longrightarrow> mp1_ioctl_remove arg s = Some (- 1, s)"
    "b \<in> set xs \<Longrightarrow> location b = ucast arg \<Longrightarrow>
      \<exists>s'. mp1_ioctl_remove arg s = Some (0, s') \<and> holds_blinks s' (remove_at (ucast arg) xs) \<and> vmem s' = vmem s"
proof -
  obtain ps where w: "wf_blinker s ps" and xs: "xs = items s ps" using assms by (auto simp: holds_blinks_def)
  let ?P = "\<lambda>i. location (blink_array s ! i) = (ucast arg :: u16)"
  note h = find_helper_items [OF w, of "ucast arg"]
  show "mp1_ioctl_remove arg s = Some (- 1, s)" if "\<forall>b\<in>set xs. location b \<noteq> ucast arg"
  proof -
    have "List.find ?P ps = None" using that by (auto simp: find_None_iff xs items_def)
    then show ?thesis using h by (simp add: mp1_ioctl_remove_def)
  qed
  assume b: "b \<in> set xs" "location b = ucast arg"
  then obtain i where i: "List.find ?P ps = Some i" by (cases "List.find ?P ps") (auto simp: find_None_iff xs items_def)
  then obtain as bs where ps: "ps = as @ i # bs" "?P i" "\<forall>j\<in>set as. \<not> ?P j" using find_split [OF i] by blast
  note w = w [unfolded ps(1)]
  note d = wf_blinkerD [OF w]
  have prev: "remove_find_prev i Head s = Some (if as = [] then Head else Next (last as))"
    using d(2,3) by (intro find_prev_last [of _ _ "mp1_list_head s" as i bs]) simp_all
  obtain t where t: "link_set (if as = [] then Head else Next (last as)) (next_blink (blink_array s ! i)) s = Some t"
    "length (blink_array t) = BLINKS" "chain (blink_array t) (mp1_list_head t) (as @ bs)" "vmem t = vmem s"
    "\<And>j. j < BLINKS \<Longrightarrow> plain (blink_array t ! j) = plain (blink_array s ! j)"
    using unlink_first [OF w] by blast
  obtain t' where t': "mp1_free i t = Some t'" "vmem t' = vmem t" "holds_blinks t' (items s (as @ bs))"
    using free_unlinked [OF w t(2,3,5)] by blast
  have "i < length (blink_array s)" using d(1) d(4) [of i] by simp
  then have "mp1_ioctl_remove arg s = Some (0, t')" using h i prev t(1) t'(1) by (simp add: mp1_ioctl_remove_def)
  moreover have "remove_at (ucast arg) xs = items s (as @ bs)" unfolding xs ps(1) using ps(2,3) by (intro remove_at_items) blast+
  ultimately show "\<exists>s'. mp1_ioctl_remove arg s = Some (0, s') \<and> holds_blinks s' (remove_at (ucast arg) xs) \<and> vmem s' = vmem s"
    using t(4) t'(2,3) by simp
qed

lemma change_at_items:
  assumes "location (blink_array s ! i) = l" and "\<forall>j\<in>set as. location (blink_array s ! j) \<noteq> l"
  shows "change_at l f (items s (as @ i # bs)) = items s as @ f (plain (blink_array s ! i)) # items s bs"
  using assms by (induction as) (simp_all add: items_def)

text \<open>The conditional move never takes place: the tested byte is 0 or 1.\<close>

lemma sync_char: "(if bit (ucast (st :: u16) AND 1 :: u8) 7 then c else d) = d"
  by (simp add: bit_simps)

lemma sync_list:
  assumes "holds_blinks s xs"
  shows "List.find (\<lambda>b. location b = ucast (drop_bit 16 arg)) xs = None \<or> List.find (\<lambda>b. location b = ucast (arg AND 0xFFFF)) xs = None
      \<Longrightarrow> mp1_ioctl_sync arg s = Some (- 1, s)"
    "List.find (\<lambda>b. location b = ucast (drop_bit 16 arg)) xs = Some a \<Longrightarrow> List.find (\<lambda>b. location b = ucast (arg AND 0xFFFF)) xs = Some b
      \<Longrightarrow> \<exists>s'. mp1_ioctl_sync arg s = Some (0, s') \<and> holds_blinks s' (change_at (location b) (timed_as a) xs)
            \<and> vmem s' = (vmem s)(2 * unat (location b) := off_char b)"
proof -
  obtain ps where w: "wf_blinker s ps" and xs: "xs = items s ps" using assms by (auto simp: holds_blinks_def)
  note d = wf_blinkerD [OF w]
  let ?P = "\<lambda>l i. location (blink_array s ! i) = (l :: u16)"
  note h = find_helper_items [OF w] and f = find_items [of _ s ps]
  show "mp1_ioctl_sync arg s = Some (- 1, s)"
    if "List.find (\<lambda>b. location b = ucast (drop_bit 16 arg)) xs = None \<or> List.find (\<lambda>b. location b = ucast (arg AND 0xFFFF)) xs = None"
    using that h by (auto simp: mp1_ioctl_sync_def xs f split: option.splits)
  assume a: "List.find (\<lambda>b. location b = ucast (drop_bit 16 arg)) xs = Some a"
    and b: "List.find (\<lambda>b. location b = ucast (arg AND 0xFFFF)) xs = Some b"
  obtain j where j: "List.find (?P (ucast (drop_bit 16 arg))) ps = Some j" "a = plain (blink_array s ! j)" using a by (auto simp: xs f)
  obtain i where i: "List.find (?P (ucast (arg AND 0xFFFF))) ps = Some i" "b = plain (blink_array s ! i)" using b by (auto simp: xs f)
  obtain as bs where ps: "ps = as @ i # bs" "?P (ucast (arg AND 0xFFFF)) i" "\<forall>k\<in>set as. \<not> ?P (ucast (arg AND 0xFFFF)) k"
    using find_split [OF i(1)] by blast
  have jm: "j \<in> set ps" using find_split [OF j(1)] by auto
  let ?b = "timed_as (blink_array s ! j) (blink_array s ! i)"
  let ?s = "s\<lparr>blink_array := (blink_array s)[i := ?b], vmem := (vmem s)(2 * unat (location b) := off_char b)\<rparr>"
  have ij: "i < length (blink_array s)" "j < length (blink_array s)" using d(1) d(4) [of i] d(4) [OF jm] ps(1) by simp_all
  have run: "mp1_ioctl_sync arg s = Some (0, ?s)"
    using h [of "ucast (drop_bit 16 arg)"] h [of "ucast (arg AND 0xFFFF)"] i j ij
    by (simp only: mp1_ioctl_sync_def) (simp add: sync_char mp1_poke_def timed_as_def Let_def)
  have out: "i \<notin> set as" "i \<notin> set bs" using d(3) ps(1) by simp_all
  have "wf_blinker ?s ps"
    using w ij(1) by (auto simp: wf_blinker_def timed_as_def chain_same_next nth_list_update)
  moreover have "items ?s ps = change_at (location b) (timed_as a) xs"
    unfolding xs ps(1) i(2) plain_simps ps(2) change_at_items [OF ps(2,3)] using ij out
    by (simp add: items_def nth_update_outside j(2)) (simp add: timed_as_def plain_def)
  ultimately show "\<exists>s'. mp1_ioctl_sync arg s = Some (0, s') \<and> holds_blinks s' (change_at (location b) (timed_as a) xs)
            \<and> vmem s' = (vmem s)(2 * unat (location b) := off_char b)"
    using run by (auto simp: holds_blinks_def)
qed

lemma find_list:
  assumes "holds_blinks s xs"
  shows "List.find (\<lambda>b. location b = location u) xs = None \<Longrightarrow> mp1_ioctl_find u s = Some (- 1, u)"
    "List.find (\<lambda>b. location b = location u) xs = Some b \<Longrightarrow> \<exists>c. mp1_ioctl_find u s = Some (0, c) \<and> plain c = b"
proof -
  obtain ps where w: "wf_blinker s ps" and xs: "xs = items s ps" using assms by (auto simp: holds_blinks_def)
  note d = wf_blinkerD [OF w] and h = find_helper_items [OF w, of "location u"] and f = find_items [of "location u" s ps]
  show "mp1_ioctl_find u s = Some (- 1, u)" if "List.find (\<lambda>b. location b = location u) xs = None"
    using that h by (simp add: mp1_ioctl_find_def xs f)
  assume "List.find (\<lambda>b. location b = location u) xs = Some b"
  then obtain i where i: "List.find (\<lambda>i. location (blink_array s ! i) = location u) ps = Some i" "b = plain (blink_array s ! i)"
    by (auto simp: xs f)
  then have "i \<in> set ps" using find_split [OF i(1)] by auto
  then have "i < length (blink_array s)" using d(1) d(4) [of i] by simp
  then show "\<exists>c. mp1_ioctl_find u s = Some (0, c) \<and> plain c = b" using h i by (simp add: mp1_ioctl_find_def)
qed

text \<open>The structure that \<open>RTC_FIND\<close> copies back: the first character of the list at the location asked for, with
  its pointer; the caller's own structure when there is none.\<close>

definition finds :: "blink \<Rightarrow> blink list \<Rightarrow> blinker \<Rightarrow> bool" where
  "finds u xs s \<longleftrightarrow> (case List.find (\<lambda>b. location b = location u) xs of
       None \<Rightarrow> mp1_ioctl (Struct u) RTC_FIND s = Some (- 1, Struct u, s)
     | Some b \<Rightarrow> \<exists>c. mp1_ioctl (Struct u) RTC_FIND s = Some (0, Struct c, s) \<and> plain c = b)"

lemma finds_list: "holds_blinks s xs \<Longrightarrow> finds u xs s"
  using find_list [of s xs u] by (auto simp: finds_def mp1_ioctl_def RTC_FIND_def RTC_ADD_def split: option.splits)

text \<open>The array and the list at the start of \<open>main\<close>: \<open>tmnt_memset\<close> has cleared it and the head is NULL.\<close>

definition cleared :: "(nat \<Rightarrow> u8) \<Rightarrow> blinker" where
  "cleared v = \<lparr>blink_array = replicate BLINKS zero_blink, mp1_list_head = None, vmem = v\<rparr>"

lemma holds_cleared: "holds_blinks (cleared v) []"
  unfolding holds_blinks_def by (rule exI [of _ "[]"]) (simp add: wf_blinker_def cleared_def items_def zero_blink_def)

subsection \<open>The list as a service\<close>

text \<open>What a program can ask for, and the answer of the routines and of a plain list with a picture.\<close>

datatype request = Add blink | Remove u32 | Find blink | Sync u32 | Clock

definition serve :: "request \<Rightarrow> blinker \<Rightarrow> (u32 \<times> blinker) option" where
  "serve r s =
     (case r of
        Add u \<Rightarrow> map_option (\<lambda>(x, _, s). (x, s)) (mp1_ioctl (Struct u) RTC_ADD s)
      | Remove n \<Rightarrow> map_option (\<lambda>(x, _, s). (x, s)) (mp1_ioctl (Num n) RTC_REMOVE s)
      | Find u \<Rightarrow> map_option (\<lambda>(x, _, s). (x, s)) (mp1_ioctl (Struct u) RTC_FIND s)
      | Sync n \<Rightarrow> map_option (\<lambda>(x, _, s). (x, s)) (mp1_ioctl (Num n) RTC_SYNC s)
      | Clock \<Rightarrow> map_option (\<lambda>s. (0, s)) (mp1_rtc_tasklet s))"

type_synonym picture = "nat \<Rightarrow> u8"

fun answer :: "request \<Rightarrow> blink list \<times> picture \<Rightarrow> u32 \<times> blink list \<times> picture" where
  "answer (Add u) (xs, v) =
     (if BLINKS \<le> unat (location u) \<or> length xs = BLINKS then (- 1, xs, v)
      else (0, started u # xs, v(2 * unat (location u) := on_char u)))"
| "answer (Remove n) (xs, v) =
     (if \<forall>b\<in>set xs. location b \<noteq> ucast n then (- 1, xs, v) else (0, remove_at (ucast n) xs, v))"
| "answer (Find u) (xs, v) = (if List.find (\<lambda>b. location b = location u) xs = None then - 1 else 0, xs, v)"
| "answer (Sync n) (xs, v) =
     (case (List.find (\<lambda>b. location b = ucast (drop_bit 16 n)) xs, List.find (\<lambda>b. location b = ucast (n AND 0xFFFF)) xs) of
        (Some a, Some b) \<Rightarrow> (0, change_at (location b) (timed_as a) xs, v(2 * unat (location b) := off_char b))
      | _ \<Rightarrow> (- 1, xs, v))"
| "answer Clock (xs, v) = (0, map tick xs, fold draw_tick xs v)"

definition sound :: "request \<Rightarrow> bool" where
  "sound r \<longleftrightarrow> (case r of Add u \<Rightarrow> location u \<noteq> 0 | _ \<Rightarrow> True)"

definition pictured :: "blinker \<Rightarrow> blink list \<times> picture \<Rightarrow> bool" where
  "pictured s x \<longleftrightarrow> holds_blinks s (fst x) \<and> vmem s = snd x"

lemma holds_length: "holds_blinks s xs \<Longrightarrow> length xs \<le> BLINKS"
  using wf_blinker_length by (auto simp: holds_blinks_def items_def)

lemma serve_answer:
  assumes "pictured s x" and "sound r"
  shows "\<exists>s'. serve r s = Some (fst (answer r x), s') \<and> pictured s' (snd (answer r x))"
proof -
  obtain xs where x: "x = (xs, vmem s)" and h: "holds_blinks s xs" using assms(1) by (cases x) (simp add: pictured_def)
  have cmds: "RTC_ADD \<noteq> RTC_FIND" "RTC_REMOVE \<noteq> RTC_SYNC" by (simp_all add: RTC_ADD_def RTC_FIND_def RTC_REMOVE_def RTC_SYNC_def)
  note io = serve_def mp1_ioctl_def cmds cmds [symmetric]
  show ?thesis
  proof (cases r)
    case (Add u)
    show ?thesis
    proof (cases "BLINKS \<le> unat (location u) \<or> length xs = BLINKS")
      case True
      then have "mp1_ioctl_add u s = Some (- 1, s)" by (rule add_refused [OF h])
      then show ?thesis using True h by (simp add: Add x pictured_def io)
    next
      case False
      then obtain s' where "mp1_ioctl_add u s = Some (0, s')" "holds_blinks s' (started u # xs)"
        "vmem s' = (vmem s)(2 * unat (location u) := on_char u)"
        using add_list [OF h, of u] assms(2) holds_length [OF h] by (auto simp: Add sound_def)
      then show ?thesis using False by (simp add: Add x pictured_def io)
    qed
  next
    case (Remove n)
    show ?thesis
    proof (cases "\<forall>b\<in>set xs. location b \<noteq> ucast n")
      case True
      then show ?thesis using remove_list(1) [OF h True] h by (simp add: Remove x pictured_def io)
    next
      case False
      then obtain b where "b \<in> set xs" "location b = ucast n" by blast
      from remove_list(2) [OF h this] show ?thesis using False by (auto simp: Remove x pictured_def io)
    qed
  next
    case (Find u)
    then show ?thesis
      using find_list [OF h, of u] h by (cases "List.find (\<lambda>b. location b = location u) xs") (auto simp: x pictured_def io)
  next
    case (Sync n)
    let ?a = "List.find (\<lambda>b. location b = ucast (drop_bit 16 n)) xs" and ?b = "List.find (\<lambda>b. location b = ucast (n AND 0xFFFF)) xs"
    show ?thesis
    proof (cases "?a = None \<or> ?b = None")
      case True
      then show ?thesis using sync_list(1) [OF h True] h by (auto simp: Sync x pictured_def io split: option.splits)
    next
      case False
      then obtain a b where ab: "?a = Some a" "?b = Some b" by auto
      from sync_list(2) [OF h ab] show ?thesis using ab by (auto simp: Sync x pictured_def io)
    qed
  next
    case Clock
    then show ?thesis using tasklet_list [OF h] by (auto simp: x pictured_def io)
  qed
qed

text \<open>The contract of a service and what its clients get: any sequence of sound requests.\<close>

primrec serve_all :: "('r \<Rightarrow> 's \<Rightarrow> ('a \<times> 's) option) \<Rightarrow> 'r list \<Rightarrow> 's \<Rightarrow> ('a list \<times> 's) option" where
  "serve_all f [] s = Some ([], s)"
| "serve_all f (r # rs) s = do { (a, s) \<leftarrow> f r s; (as, s) \<leftarrow> serve_all f rs s; Some (a # as, s) }"

primrec answer_all :: "('r \<Rightarrow> 'x \<Rightarrow> 'a \<times> 'x) \<Rightarrow> 'r list \<Rightarrow> 'x \<Rightarrow> 'a list \<times> 'x" where
  "answer_all g [] x = ([], x)"
| "answer_all g (r # rs) x = (let (a, x) = g r x; (as, x) = answer_all g rs x in (a # as, x))"

locale service =
  fixes serve :: "'r \<Rightarrow> 's \<Rightarrow> ('a \<times> 's) option"
    and answer :: "'r \<Rightarrow> 'x \<Rightarrow> 'a \<times> 'x"
    and rel :: "'s \<Rightarrow> 'x \<Rightarrow> bool"
    and allowed :: "'r \<Rightarrow> bool"
  assumes step: "rel s x \<Longrightarrow> allowed r \<Longrightarrow> \<exists>s'. serve r s = Some (fst (answer r x), s') \<and> rel s' (snd (answer r x))"
begin

lemma sequence:
  assumes "rel s x" and "\<forall>r\<in>set rs. allowed r"
  shows "\<exists>s'. serve_all serve rs s = Some (fst (answer_all answer rs x), s') \<and> rel s' (snd (answer_all answer rs x))"
  using assms
proof (induction rs arbitrary: s x)
  case (Cons r rs)
  obtain s1 where s1: "serve r s = Some (fst (answer r x), s1)" "rel s1 (snd (answer r x))"
    using step [OF Cons.prems(1), of r] Cons.prems(2) by auto
  obtain s2 where "serve_all serve rs s1 = Some (fst (answer_all answer rs (snd (answer r x))), s2)"
    "rel s2 (snd (answer_all answer rs (snd (answer r x))))"
    using Cons.IH [OF s1(2)] Cons.prems(2) by auto
  then show ?case using s1(1) by (auto simp: split_beta Let_def)
qed simp

end

interpretation blink_service: service serve answer pictured sound
  by unfold_locales (rule serve_answer)

text \<open>C13. The list of blinking characters. From the cleared array on, every sequence of requests (add, remove, find,
  synchronise, clock ticks) in which no character is added at location 0 ends, and gives the answers and the
  picture of a plain list: an addition goes to the front and shows its character, up to one for every cell, and is
  refused beyond the screen; a removal takes out the first character at the location and frees its element; a find, at any point, copies back the first
  character at the location, and leaves the caller's structure alone when there is none; a clock
  tick advances every character of the list exactly once. The chain of pointers in the array stays free of cycles and
  its elements are exactly those the allocator takes as used.\<close>

theorem blink_list_refines:
  assumes "\<forall>r\<in>set rs. sound r"
  shows "\<exists>s'. serve_all serve rs (cleared v) = Some (fst (answer_all answer rs ([], v)), s')
    \<and> holds_blinks s' (fst (snd (answer_all answer rs ([], v)))) \<and> vmem s' = snd (snd (answer_all answer rs ([], v)))
    \<and> (\<forall>u. finds u (fst (snd (answer_all answer rs ([], v)))) s')"
proof -
  have "pictured (cleared v) ([], v)" using holds_cleared by (simp add: pictured_def) (simp add: cleared_def)
  from blink_service.sequence [OF this assms] show ?thesis using finds_list by (auto simp: pictured_def)
qed

theorem blink_list_refines_witness:
  "\<exists>s'. serve_all serve [Add (zero_blink\<lparr>location := 5, on_char := 0x41, on_length := 1\<rparr>), Clock, Remove 5, Remove 5] (cleared (\<lambda>_. 0x20))
      = Some ([0, 0, 0, - 1], s') \<and> holds_blinks s' [] \<and> vmem s' 10 = 0"
proof -
  let ?rs = "[Add (zero_blink\<lparr>location := 5, on_char := 0x41, on_length := 1\<rparr>), Clock, Remove 5, Remove 5]"
  have e: "answer_all answer ?rs ([], \<lambda>_. 0x20) = ([0, 0, 0, - 1], [], (\<lambda>_. 0x20)(10 := 0))"
    by (simp add: started_def zero_blink_def plain_def tick_def draw_tick_def BLINKS_def fun_eq_iff)
  have "\<forall>r\<in>set ?rs. sound r" by (simp add: sound_def)
  from blink_list_refines [OF this, of "\<lambda>_. 0x20", unfolded e] show ?thesis by (auto simp del: serve_all.simps)
qed

subsection \<open>Location 0\<close>

lemma tasklet_loop_circle:
  assumes "tasklet_loop p s = Some s'"
  shows "\<not> (p = Some i \<and> i < length (blink_array s) \<and> next_blink (blink_array s ! i) = Some i)"
proof (rule tasklet_loop.raw_induct [OF _ assms])
  fix f p and s s' :: blinker
  assume IH: "\<And>p s s'. f p s = Some s' \<Longrightarrow> \<not> (p = Some i \<and> i < length (blink_array s) \<and> next_blink (blink_array s ! i) = Some i)"
    and run: "(case p of None \<Rightarrow> Some s
      | Some i \<Rightarrow> do { s \<leftarrow> tasklet_blink i s; b \<leftarrow> get_blink i s; f (next_blink b) s }) = Some s'"
  show "\<not> (p = Some i \<and> i < length (blink_array s) \<and> next_blink (blink_array s ! i) = Some i)"
  proof
    assume c: "p = Some i \<and> i < length (blink_array s) \<and> next_blink (blink_array s ! i) = Some i"
    let ?s = "s\<lparr>blink_array := (blink_array s)[i := tick (blink_array s ! i)], vmem := draw_tick (blink_array s ! i) (vmem s)\<rparr>"
    have "f (Some i) ?s = Some s'" using run c by (simp add: tasklet_blink_tick)
    from IH [OF this] show False using c by simp
  qed
qed

text \<open>A character at location 0 breaks the list. It is accepted like any other, but its element still counts as
  free, so the next addition takes the same element and links it to itself: from then on the routine of the clock
  interrupt does not return.\<close>

theorem location_zero_loops:
  assumes "holds_blinks s xs" and "length xs < BLINKS" and "location u = 0" and "unat (location w) < BLINKS"
  shows "\<exists>s1 s2. mp1_ioctl_add u s = Some (0, s1) \<and> mp1_ioctl_add w s1 = Some (0, s2) \<and> mp1_rtc_tasklet s2 = None"
proof -
  obtain ps where wf: "wf_blinker s ps" and xs: "xs = items s ps" using assms(1) by (auto simp: holds_blinks_def)
  note d = wf_blinkerD [OF wf]
  obtain i where i: "mp1_malloc s = Some (Some i)" "i < BLINKS" "i \<notin> set ps"
    using malloc_cases(2) [OF wf] assms(2) by (auto simp: xs items_def)
  let ?add = "\<lambda>b p t. t\<lparr>blink_array := (blink_array t)[i := b\<lparr>status := 1, countdown := on_length b, next_blink := p\<rparr>],
    mp1_list_head := Some i, vmem := (vmem t)(2 * unat (location b) := on_char b)\<rparr>"
  define s1 where "s1 = ?add u (mp1_list_head s) s"
  have fits: "\<not> of_nat BLINKS \<le> location u" "\<not> of_nat BLINKS \<le> location w"
    using assms(3,4) by (simp_all add: word_le_nat_alt BLINKS_def)
  have a1: "mp1_ioctl_add u s = Some (0, s1)"
    using fits(1) i d(1) by (simp add: mp1_ioctl_add_def mp1_poke_def s1_def Let_def)
  have "location (blink_array s1 ! j) = location (blink_array s ! j)" if "j < BLINKS" for j
    using that d(1) d(5) [OF i(2)] i(3) assms(3) by (cases "i = j") (simp_all add: s1_def)
  then have m: "mp1_malloc s1 = mp1_malloc s"
    unfolding mp1_malloc_def using d(1) by (intro malloc_loop_same) (simp_all add: s1_def)
  define s2 where "s2 = ?add w (Some i) s1"
  have a2: "mp1_ioctl_add w s1 = Some (0, s2)"
    using fits(2) i d(1) m by (simp add: mp1_ioctl_add_def mp1_poke_def s2_def s1_def Let_def)
  have "mp1_list_head s2 = Some i" "next_blink (blink_array s2 ! i) = Some i" "i < length (blink_array s2)"
    using i(2) d(1) by (simp_all add: s2_def s1_def)
  then have "mp1_rtc_tasklet s2 = None"
    unfolding mp1_rtc_tasklet_def using tasklet_loop_circle by (cases "tasklet_loop (mp1_list_head s2) s2") auto
  then show ?thesis using a1 a2 by blast
qed

theorem location_zero_loops_witness:
  "\<exists>s1 s2. mp1_ioctl_add zero_blink (cleared (\<lambda>_. 0)) = Some (0, s1) \<and> mp1_ioctl_add (zero_blink\<lparr>location := 7\<rparr>) s1 = Some (0, s2)
     \<and> mp1_rtc_tasklet s2 = None"
  using location_zero_loops [OF holds_cleared, of zero_blink "zero_blink\<lparr>location := 7\<rparr>" "\<lambda>_. 0"] by (simp add: BLINKS_def zero_blink_def)

end
