(* ===== verification/Blink_Clock.thy ===== *)
theory Blink_Clock
  imports Blink
begin

text \<open>
  What the blinking characters of \<^verbatim>\<open>fish/blink.S\<close> look like over time: a character is shown for its
  on-length and its alternative for its off-length, again and again.
\<close>

subsection \<open>One character\<close>

definition lit_char :: "blink \<Rightarrow> u8" where
  "lit_char b = (if status b AND 1 \<noteq> 0 then on_char b else off_char b)"

definition steady :: "blink \<Rightarrow> bool" where
  "steady u \<longleftrightarrow> 0 < unat (on_length u) \<and> unat (on_length u) < 2 ^ 15 \<and> 0 < unat (off_length u) \<and> unat (off_length u) < 2 ^ 15"

abbreviation period :: "blink \<Rightarrow> nat" where
  "period u \<equiv> unat (on_length u) + unat (off_length u)"

definition lit_at :: "blink \<Rightarrow> nat \<Rightarrow> bool" where
  "lit_at u n \<longleftrightarrow> n mod period u < unat (on_length u)"

text \<open>The character \<open>n\<close> ticks after it was added.\<close>

definition blink_at :: "blink \<Rightarrow> nat \<Rightarrow> blink" where
  "blink_at u n = (started u)\<lparr>
     countdown := of_nat ((if lit_at u n then unat (on_length u) else period u) - n mod period u),
     status := if lit_at u n then 1 else 0\<rparr>"

lemma sint_small: "k < 2 ^ 15 \<Longrightarrow> sint (of_nat k :: u16) = int k"
proof -
  assume k: "k < 2 ^ 15"
  then have "uint (of_nat k :: u16) = int k" by (simp add: uint_nat unat_of_nat take_bit_nat_eq_self)
  moreover have "signed_take_bit 15 (int k) = int k" using k by (intro signed_take_bit_int_eq_self) simp_all
  ultimately show ?thesis by (simp add: sint_uint)
qed

lemma counts_down:
  assumes "0 < k" and "k < 2 ^ 15"
  shows "(of_nat k - 1 :: u16) = of_nat (k - 1)" "0 < sint (of_nat k - 1 :: u16) \<longleftrightarrow> 1 < k"
proof -
  show e: "(of_nat k - 1 :: u16) = of_nat (k - 1)" using assms(1) by (simp add: of_nat_diff)
  show "0 < sint (of_nat k - 1 :: u16) \<longleftrightarrow> 1 < k" unfolding e using sint_small [of "k - 1"] assms by simp
qed

lemma mod_period_Suc: "(n + 1) mod T = (if n mod T + 1 = T then 0 else n mod T + 1)" for T :: nat
  by (simp add: mod_Suc)

lemma blink_at_tick:
  assumes "steady u"
  shows "tick (blink_at u n) = blink_at u (n + 1)"
proof -
  let ?on = "unat (on_length u)" and ?T = "period u" and ?m = "n mod period u"
  define k where "k = (if lit_at u n then ?on else ?T) - ?m"
  have T: "0 < ?T" "?m < ?T" using assms by (simp_all add: steady_def)
  have k: "0 < k" "k < 2 ^ 15" using assms T(2) by (auto simp: k_def lit_at_def steady_def)
  have b: "countdown (blink_at u n) = of_nat k" "status (blink_at u n) = (if lit_at u n then 1 else 0)"
    by (simp_all add: blink_at_def k_def)
  have S: "(n + 1) mod ?T = (if ?m + 1 = ?T then 0 else ?m + 1)" by (rule mod_period_Suc)
  show ?thesis
  proof (cases "1 < k")
    case True
    have l: "lit_at u (n + 1) = lit_at u n" "(n + 1) mod ?T = ?m + 1" using True S T by (auto simp: lit_at_def k_def split: if_splits)
    then have "k - 1 = (if lit_at u (n + 1) then ?on else ?T) - (n + 1) mod ?T" by (simp add: k_def)
    then have "blink_at u (n + 1) = (started u)\<lparr>countdown := of_nat (k - 1), status := if lit_at u n then 1 else 0\<rparr>"
      by (simp only: blink_at_def l(1))
    moreover have "tick (blink_at u n) = (blink_at u n)\<lparr>countdown := of_nat (k - 1)\<rparr>"
      unfolding tick_def Let_def b using counts_down [OF k] True by simp
    ultimately show ?thesis by (simp add: blink_at_def)
  next
    case False
    then have k1: "k = 1" using k by simp
    have l: "lit_at u (n + 1) = (\<not> lit_at u n)"
      "(if lit_at u (n + 1) then ?on else ?T) - (n + 1) mod ?T = (if lit_at u n then unat (off_length u) else ?on)"
      using k1 S T assms by (auto simp: lit_at_def k_def steady_def split: if_splits)
    have "tick (blink_at u n) = (blink_at u n)\<lparr>countdown := if lit_at u n then off_length u else on_length u, status := if lit_at u n then 0 else 1\<rparr>"
      unfolding tick_def Let_def b using counts_down [OF k] False by (simp add: blink_at_def started_def)
    also have "\<dots> = blink_at u (n + 1)"
      unfolding blink_at_def [of u "n + 1"] l(2) unfolding l(1) by (simp add: blink_at_def)
    finally show ?thesis .
  qed
qed

lemma blink_at_0: "steady u \<Longrightarrow> blink_at u 0 = started u"
  by (simp add: blink_at_def lit_at_def steady_def started_def plain_def)

lemma blink_after: "steady u \<Longrightarrow> (tick ^^ n) (started u) = blink_at u n"
  by (induction n) (simp_all add: blink_at_0 blink_at_tick)

lemma lit_blink_at: "lit_char (blink_at u n) = (if lit_at u n then on_char u else off_char u)"
  by (simp add: lit_char_def blink_at_def started_def)

subsection \<open>The picture\<close>

text \<open>The picture is the one of the list, and no two characters share a cell.\<close>

definition up_to_date :: "blink list \<Rightarrow> picture \<Rightarrow> bool" where
  "up_to_date xs v \<longleftrightarrow> distinct (map location xs) \<and> (\<forall>b\<in>set xs. v (2 * unat (location b)) = lit_char b)"

lemma draw_other: "a \<noteq> 2 * unat (location b) \<Longrightarrow> draw_tick b v a = v a"
  by (simp add: draw_tick_def)

lemma draw_all_other: "(\<And>b. b \<in> set xs \<Longrightarrow> a \<noteq> 2 * unat (location b)) \<Longrightarrow> fold draw_tick xs v a = v a"
  by (induction xs arbitrary: v) (simp_all add: draw_other)

lemma draw_own:
  assumes "v (2 * unat (location b)) = lit_char b"
  shows "draw_tick b v (2 * unat (location b)) = lit_char (tick b)"
proof -
  have "(status b XOR 1) AND 1 = 0 \<longleftrightarrow> status b AND 1 \<noteq> 0"
    using even_xor_iff [of "status b" 1] by (simp add: and_one_eq odd_iff_mod_2_eq_one even_iff_mod_2_eq_zero)
  then show ?thesis using assms by (auto simp: draw_tick_def lit_char_def tick_def Let_def)
qed

lemma draws_up_to_date:
  assumes "up_to_date xs v"
  shows "up_to_date (map tick xs) (fold draw_tick xs v)"
  unfolding up_to_date_def
proof (intro conjI ballI)
  show "distinct (map location (map tick xs))" using assms by (simp add: up_to_date_def comp_def)
  fix c assume "c \<in> set (map tick xs)"
  then obtain b where b: "b \<in> set xs" "c = tick b" by auto
  have "fold draw_tick xs v (2 * unat (location b)) = lit_char (tick b)"
    using assms b(1)
  proof (induction xs arbitrary: v)
    case (Cons d xs)
    have dx: "distinct (map location xs)" "location d \<notin> location ` set xs" using Cons.prems(1) by (simp_all add: up_to_date_def)
    show ?case
    proof (cases "b = d")
      case True
      have "fold draw_tick xs (draw_tick d v) (2 * unat (location d)) = draw_tick d v (2 * unat (location d))"
        using dx(2) by (intro draw_all_other) (auto simp: word_unat_eq_iff [symmetric] image_iff)
      then show ?thesis using True draw_own [of v d] Cons.prems(1) by (simp add: up_to_date_def)
    next
      case False
      have "draw_tick d v (2 * unat (location e)) = v (2 * unat (location e))" if "e \<in> set xs" for e
        using dx(2) that by (intro draw_other) (auto simp: word_unat_eq_iff [symmetric] image_iff)
      then have "up_to_date xs (draw_tick d v)" using Cons.prems(1) by (simp add: up_to_date_def)
      then show ?thesis using Cons.IH Cons.prems(2) False by simp
    qed
  qed simp
  then show "fold draw_tick xs v (2 * unat (location c)) = lit_char c" using b(2) by simp
qed

lemma clock_answers:
  "fst (answer_all answer (replicate n Clock) (xs, v)) = replicate n 0 \<and> fst (snd (answer_all answer (replicate n Clock) (xs, v))) = map (tick ^^ n) xs"
proof (induction n arbitrary: xs v)
  case (Suc n)
  from Suc [of "map tick xs" "fold draw_tick xs v"] show ?case by (simp add: split_beta Let_def funpow_swap1)
qed simp

lemma clock_up_to_date:
  assumes "up_to_date xs v" and "answer_all answer (replicate n Clock) (xs, v) = (r, ys, w)"
  shows "up_to_date ys w" "\<And>a. (\<And>b. b \<in> set xs \<Longrightarrow> a \<noteq> 2 * unat (location b)) \<Longrightarrow> w a = v a"
proof -
  have "up_to_date ys w \<and> (\<forall>a. (\<forall>b\<in>set xs. a \<noteq> 2 * unat (location b)) \<longrightarrow> w a = v a)"
    using assms
  proof (induction n arbitrary: xs v r)
    case (Suc n)
    obtain r' where r': "answer_all answer (replicate n Clock) (map tick xs, fold draw_tick xs v) = (r', ys, w)"
      using Suc.prems(2) by (auto simp: split_beta Let_def prod_eq_iff)
    show ?case using Suc.IH [OF draws_up_to_date [OF Suc.prems(1)] r'] draw_all_other [of xs _ v] by auto
  qed auto
  then show "up_to_date ys w" "\<And>a. (\<And>b. b \<in> set xs \<Longrightarrow> a \<noteq> 2 * unat (location b)) \<Longrightarrow> w a = v a" by blast+
qed

definition on_screen :: "blink list \<Rightarrow> bool" where
  "on_screen us \<longleftrightarrow> distinct (map location us) \<and> (\<forall>u\<in>set us. 0 < unat (location u) \<and> unat (location u) < BLINKS)"

lemma on_screen_length: "on_screen us \<Longrightarrow> length us < BLINKS"
proof -
  assume a: "on_screen us"
  have d: "distinct (map (\<lambda>u. unat (location u)) us)"
    using a by (simp add: on_screen_def distinct_map inj_on_def word_unat_eq_iff)
  have "(\<lambda>u. unat (location u)) ` set us \<subseteq> {1..<BLINKS}" using a by (auto simp: on_screen_def)
  then have "card (set (map (\<lambda>u. unat (location u)) us)) \<le> card {1..<BLINKS}" by (intro card_mono) simp_all
  then show ?thesis unfolding distinct_card [OF d] by (simp add: BLINKS_def)
qed

lemma add_answers:
  assumes "on_screen us" and "up_to_date xs v" and "\<And>u b. u \<in> set us \<Longrightarrow> b \<in> set xs \<Longrightarrow> location u \<noteq> location b"
    and "length us + length xs < BLINKS"
  shows "\<exists>w. answer_all answer (map Add us) (xs, v) = (replicate (length us) 0, rev (map started us) @ xs, w)
    \<and> up_to_date (rev (map started us) @ xs) w \<and> (\<forall>a. (\<forall>u\<in>set us. a \<noteq> 2 * unat (location u)) \<longrightarrow> w a = v a)"
  using assms
proof (induction us arbitrary: xs v)
  case (Cons u us)
  let ?v = "v(2 * unat (location u) := on_char u)"
  have a: "answer (Add u) (xs, v) = (0, started u # xs, ?v)"
    using Cons.prems(1,4) by (auto simp: on_screen_def)
  have os: "on_screen us" "\<forall>c\<in>set us. location c \<noteq> location u" using Cons.prems(1) by (auto simp: on_screen_def image_iff)
  have l: "location (started b) = location b" "lit_char (started b) = on_char b" for b by (simp_all add: started_def lit_char_def)
  have "\<forall>b\<in>set xs. location u \<noteq> location b" using Cons.prems(3) [of u] by simp
  then have up: "up_to_date (started u # xs) ?v"
    using Cons.prems(2) by (auto simp: up_to_date_def l word_unat_eq_iff [symmetric])
  have away: "location c \<noteq> location b" if "c \<in> set us" "b \<in> set (started u # xs)" for c b
    using that os(2) Cons.prems(3) [of c b] by (auto simp: l)
  have len: "length us + length (started u # xs) < BLINKS" using Cons.prems(4) by simp
  obtain w where w: "answer_all answer (map Add us) (started u # xs, ?v) = (replicate (length us) 0, rev (map started us) @ started u # xs, w)"
    "up_to_date (rev (map started us) @ started u # xs) w" "\<And>a. (\<forall>u\<in>set us. a \<noteq> 2 * unat (location u)) \<Longrightarrow> w a = ?v a"
    using Cons.IH [OF os(1) up away len] by blast
  show ?case using a w by auto
qed (simp add: up_to_date_def)

lemma answer_all_append:
  "answer_all g (rs @ qs) x = (let (as, x) = answer_all g rs x; (bs, x) = answer_all g qs x in (as @ bs, x))"
  by (induction rs arbitrary: x) (simp_all add: split_beta Let_def)

lemma blinks_over_time:
  assumes "on_screen us" and "\<forall>u\<in>set us. steady u"
  shows "\<exists>s'. serve_all serve (map Add us @ replicate n Clock) (cleared v) = Some (replicate (length us + n) 0, s')
    \<and> (\<forall>u\<in>set us. vmem s' (2 * unat (location u)) =
         (if n mod (unat (on_length u) + unat (off_length u)) < unat (on_length u) then on_char u else off_char u))
    \<and> (\<forall>a. (\<forall>u\<in>set us. a \<noteq> 2 * unat (location u)) \<longrightarrow> vmem s' a = v a)"
proof -
  let ?rs = "map Add us @ replicate n Clock"
  have len: "length us + length [] < BLINKS" using on_screen_length [OF assms(1)] by simp
  have e: "up_to_date [] v" by (simp add: up_to_date_def)
  obtain w where w: "answer_all answer (map Add us) ([], v) = (replicate (length us) 0, rev (map started us), w)"
    "up_to_date (rev (map started us)) w" "\<And>a. (\<forall>u\<in>set us. a \<noteq> 2 * unat (location u)) \<Longrightarrow> w a = v a"
    using add_answers [OF assms(1) e _ len] by auto
  obtain ys z where z: "answer_all answer (replicate n Clock) (rev (map started us), w) = (replicate n 0, ys, z)" "ys = map (tick ^^ n) (rev (map started us))"
    using clock_answers [of n "rev (map started us)" w] by (metis prod.collapse)
  note c = clock_up_to_date [OF w(2) z(1)]
  have all: "answer_all answer ?rs ([], v) = (replicate (length us + n) 0, ys, z)"
    by (simp add: answer_all_append w(1) z(1) replicate_add)
  have "location u \<noteq> 0" if "u \<in> set us" for u using assms(1) that by (auto simp: on_screen_def dest: bspec)
  then have "\<forall>r\<in>set ?rs. sound r" by (auto simp: sound_def)
  moreover have "pictured (cleared v) ([], v)" using holds_cleared by (simp add: pictured_def) (simp add: cleared_def)
  ultimately obtain s' where s': "serve_all serve ?rs (cleared v) = Some (replicate (length us + n) 0, s')" "vmem s' = z"
    using blink_service.sequence [of "cleared v" "([], v)" ?rs] all by (auto simp: pictured_def)
  have "z (2 * unat (location u)) = (if lit_at u n then on_char u else off_char u)" if "u \<in> set us" for u
  proof -
    have "blink_at u n \<in> set ys" using that assms(2) by (auto simp: z(2) blink_after [symmetric])
    moreover have "location (blink_at u n) = location u" by (simp add: blink_at_def started_def)
    ultimately show ?thesis using c(1) lit_blink_at [of u n] by (auto simp: up_to_date_def)
  qed
  moreover have "z a = v a" if out: "\<forall>u\<in>set us. a \<noteq> 2 * unat (location u)" for a
  proof -
    have "a \<noteq> 2 * unat (location b)" if "b \<in> set (rev (map started us))" for b using that out by (auto simp: started_def)
    then show ?thesis using c(2) [of a] w(3) [OF out] by simp
  qed
  ultimately show ?thesis using s' by (auto simp: lit_at_def)
qed

text \<open>Blinking. When characters at different cells, none of them cell 0, are added to the empty list, with lengths
  from 1 to 32767, then after any number of clock ticks every one of them is shown as its on-character in the first
  part of its period and as its off-character in the rest, the parts being as long as its two lengths say, and no
  other byte of the video memory has changed. All the calls succeed.\<close>

theorem blinking_characters:
  assumes "on_screen us" and "\<forall>u\<in>set us. steady u"
  shows "\<exists>s'. serve_all serve (map Add us @ replicate n Clock) (cleared v) = Some (replicate (length us + n) 0, s')
    \<and> (\<forall>u\<in>set us. vmem s' (2 * unat (location u)) =
         (if n mod (unat (on_length u) + unat (off_length u)) < unat (on_length u) then on_char u else off_char u))
    \<and> (\<forall>a. (\<forall>u\<in>set us. a \<noteq> 2 * unat (location u)) \<longrightarrow> vmem s' a = v a)"
  by (rule blinks_over_time [OF assms])

theorem blinking_characters_witness:
  "\<exists>s'. serve_all serve (map Add [\<lparr>location = 540, on_char = 0x49, off_char = 0x4D, on_length = 7, off_length = 6, countdown = 0, status = 0, next_blink = None\<rparr>]
       @ replicate 20 Clock) (cleared (\<lambda>_. 0)) = Some (replicate 21 0, s') \<and> vmem s' 1080 = 0x4D \<and> vmem s' 1082 = 0"
proof -
  let ?u = "\<lparr>location = 540, on_char = 0x49, off_char = 0x4D, on_length = 7, off_length = 6, countdown = 0, status = 0, next_blink = None\<rparr>"
  have "on_screen [?u]" "\<forall>u\<in>set [?u]. steady u" by (simp_all add: on_screen_def steady_def BLINKS_def)
  from blinking_characters [OF this, of 20 "\<lambda>_. 0"] show ?thesis by (auto simp del: serve_all.simps append.simps)
qed

end
