(* ===== verification/User_Lib.thy ===== *)
theory User_Lib
  imports Strings
begin

text \<open>
  The string routines of user programs: \<^verbatim>\<open>syscalls/tmntsupport.c\<close> (\<^verbatim>\<open>fish/tmntsupport.c\<close>
  repeats its first part). As in \<open>Strings\<close>, a \<open>uint8_t*\<close> is an array object and an offset into it, and a
  loop that runs off its array is \<open>None\<close>. Bytes are unsigned here, unlike the \<open>char\<close>s of the kernel.
\<close>

subsection \<open>The routines\<close>

function tmnt_strlen_loop :: "u8 list \<Rightarrow> nat \<Rightarrow> nat \<Rightarrow> nat option" where
  "tmnt_strlen_loop a s len =
     do { c \<leftarrow> aget a s; if 0 \<noteq> c then tmnt_strlen_loop a (s + 1) (len + 1) else Some len }"
  by pat_completeness auto
termination
  by (relation "measure (\<lambda>(a, s, len). length a - s)") (auto simp: aget_eq_Some)

definition tmnt_strlen :: "u8 list \<Rightarrow> nat \<Rightarrow> nat option" where
  "tmnt_strlen a s = tmnt_strlen_loop a s 0"

text \<open>\<open>tmnt_strcpy\<close> between two arrays, and within one array, where source and destination may overlap.\<close>

function tmnt_strcpy :: "u8 list \<Rightarrow> nat \<Rightarrow> u8 list \<Rightarrow> nat \<Rightarrow> u8 list option" where
  "tmnt_strcpy a dst b src =
     do { c \<leftarrow> aget b src;
          a \<leftarrow> aput a dst c;
          if 0 \<noteq> c then tmnt_strcpy a (dst + 1) b (src + 1) else Some a }"
  by pat_completeness auto
termination
  by (relation "measure (\<lambda>(a, dst, b, src). length b - src)") (auto simp: aget_eq_Some)

function tmnt_strcpy_within :: "u8 list \<Rightarrow> nat \<Rightarrow> nat \<Rightarrow> u8 list option" where
  "tmnt_strcpy_within a dst src =
     do { c \<leftarrow> aget a src;
          a \<leftarrow> aput a dst c;
          if 0 \<noteq> c then tmnt_strcpy_within a (dst + 1) (src + 1) else Some a }"
  by pat_completeness auto
termination
  by (relation "measure (\<lambda>(a, dst, src). length a - src)") (auto simp: aget_eq_Some aput_eq_Some)

function tmnt_strcmp :: "u8 list \<Rightarrow> nat \<Rightarrow> u8 list \<Rightarrow> nat \<Rightarrow> int option" where
  "tmnt_strcmp a s1 b s2 =
     do { x \<leftarrow> aget a s1;
          y \<leftarrow> aget b s2;
          if x = y then if x = 0 then Some 0 else tmnt_strcmp a (s1 + 1) b (s2 + 1)
          else Some (uint x - uint y) }"
  by pat_completeness auto
termination
  by (relation "measure (\<lambda>(a, s1, b, s2). length a - s1)") (auto simp: aget_eq_Some)

function tmnt_strncmp_loop :: "u8 list \<Rightarrow> nat \<Rightarrow> u8 list \<Rightarrow> nat \<Rightarrow> nat \<Rightarrow> int option" where
  "tmnt_strncmp_loop a s1 b s2 n =
     do { x \<leftarrow> aget a s1;
          y \<leftarrow> aget b s2;
          if x = y then if x = 0 \<or> n - 1 = 0 then Some 0 else tmnt_strncmp_loop a (s1 + 1) b (s2 + 1) (n - 1)
          else Some (uint x - uint y) }"
  by pat_completeness auto
termination
  by (relation "measure (\<lambda>(a, s1, b, s2, n). length a - s1)") (auto simp: aget_eq_Some)

definition tmnt_strncmp :: "u8 list \<Rightarrow> nat \<Rightarrow> u8 list \<Rightarrow> nat \<Rightarrow> nat \<Rightarrow> int option" where
  "tmnt_strncmp a s1 b s2 n = (if 0 = n then Some 0 else tmnt_strncmp_loop a s1 b s2 n)"

function tmnt_strrev_loop :: "u8 list \<Rightarrow> nat \<Rightarrow> int \<Rightarrow> int \<Rightarrow> u8 list option" where
  "tmnt_strrev_loop a s beg en =
     (if beg < en then
        do { tmp \<leftarrow> aget a (s + nat en);
             c \<leftarrow> aget a (s + nat beg);
             a \<leftarrow> aput a (s + nat en) c;
             a \<leftarrow> aput a (s + nat beg) tmp;
             tmnt_strrev_loop a s (beg + 1) (en - 1) }
      else Some a)"
  by pat_completeness auto
termination
  by (relation "measure (\<lambda>(a, s, beg, en). nat (en - beg))") auto

definition tmnt_strrev :: "u8 list \<Rightarrow> nat \<Rightarrow> u8 list option" where
  "tmnt_strrev a s =
     do { len \<leftarrow> tmnt_strlen a s;
          let en = int len - 1;
          if en \<le> 0 then Some a else tmnt_strrev_loop a s 0 en }"

function tmnt_itoa_loop :: "u32 \<Rightarrow> u32 \<Rightarrow> u8 list \<Rightarrow> nat \<Rightarrow> (u8 list \<times> nat) option" where
  "tmnt_itoa_loop newval radix buf newbuf =
     (if newval > 0 then
        if radix = 0 then None
        else do { d \<leftarrow> aget itoa_lookup (unat (newval mod radix));
                  buf \<leftarrow> aput buf newbuf d;
                  tmnt_itoa_loop (newval div radix) radix buf (newbuf + 1) }
      else Some (buf, newbuf))"
  by pat_completeness auto
termination
  by (relation "measure (\<lambda>(newval, radix, buf, newbuf). length buf - newbuf)") (auto simp: aput_eq_Some)

definition tmnt_itoa :: "u32 \<Rightarrow> u8 list \<Rightarrow> nat \<Rightarrow> u32 \<Rightarrow> u8 list option" where
  "tmnt_itoa value buf p radix =
     (if value = 0 then
        do { buf \<leftarrow> aput buf p (of_char CHR ''0''); aput buf (p + 1) 0 }
      else
        do { (buf, newbuf) \<leftarrow> tmnt_itoa_loop value radix buf p;
             buf \<leftarrow> aput buf newbuf 0;
             tmnt_strrev buf p })"

declare tmnt_strlen_loop.simps [simp del] tmnt_strcpy.simps [simp del] tmnt_strcpy_within.simps [simp del]
  tmnt_strcmp.simps [simp del] tmnt_strncmp_loop.simps [simp del] tmnt_strrev_loop.simps [simp del] tmnt_itoa_loop.simps [simp del]

subsection \<open>Agreement with the kernel's routines\<close>

lemma tmnt_strlen_loop_eq: "tmnt_strlen_loop a (p + len) len = strlen_loop a p len"
proof (induction a p len rule: strlen_loop.induct)
  case (1 a p len)
  then show ?case
    by (subst tmnt_strlen_loop.simps, subst strlen_loop.simps) (auto simp: aget_def)
qed

lemma tmnt_strlen_eq: "tmnt_strlen = strlen"
  using tmnt_strlen_loop_eq [of _ _ 0] by (simp add: fun_eq_iff tmnt_strlen_def strlen_def)

lemma tmnt_strrev_loop_eq: "tmnt_strrev_loop a p b e = strrev_loop a p b e"
proof (induction a p b e rule: strrev_loop.induct)
  case (1 a p b e)
  then show ?case
    by (subst tmnt_strrev_loop.simps, subst strrev_loop.simps) (auto simp: aget_def aput_def)
qed

lemma tmnt_strrev_eq: "tmnt_strrev = strrev"
proof (intro ext)
  fix a p
  have "strrev_loop a p 0 e = Some a" if "e \<le> 0" for e using that by (simp add: strrev_loop.simps)
  then show "tmnt_strrev a p = strrev a p"
    by (cases "strlen a p") (simp_all add: tmnt_strrev_def strrev_def tmnt_strlen_eq tmnt_strrev_loop_eq Let_def)
qed

lemma tmnt_itoa_loop_eq: "tmnt_itoa_loop v r buf i = itoa_loop v r buf i"
proof (induction v r buf i rule: itoa_loop.induct)
  case (1 v r buf i)
  then show ?case
    by (subst tmnt_itoa_loop.simps, subst itoa_loop.simps) (auto simp: aget_def aput_def)
qed

lemma tmnt_itoa_eq: "tmnt_itoa = itoa"
  by (simp add: fun_eq_iff tmnt_itoa_def itoa_def tmnt_itoa_loop_eq tmnt_strrev_eq)

subsection \<open>Copying\<close>

text \<open>The bytes \<open>xs\<close> stand in the array \<open>a\<close> from offset \<open>i\<close> on.\<close>

definition holds_at :: "'a list \<Rightarrow> nat \<Rightarrow> 'a list \<Rightarrow> bool" where
  "holds_at a i xs \<longleftrightarrow> i + length xs \<le> length a \<and> take (length xs) (drop i a) = xs"

definition overwrite :: "'a list \<Rightarrow> nat \<Rightarrow> 'a list \<Rightarrow> 'a list" where
  "overwrite a i xs = take i a @ xs @ drop (i + length xs) a"

lemma holds_at_append [simp]: "holds_at (p @ xs @ q) (length p) xs"
  by (simp add: holds_at_def)

lemma holds_at_Cons: "holds_at a i (x # xs) \<longleftrightarrow> i < length a \<and> a ! i = x \<and> holds_at a (i + 1) xs"
  by (auto simp: holds_at_def Cons_nth_drop_Suc [symmetric])

lemma holds_at_Nil [simp]: "holds_at a i [] \<longleftrightarrow> i \<le> length a"
  by (simp add: holds_at_def)

lemma overwrite_Nil [simp]: "overwrite a i [] = a"
  by (simp add: overwrite_def)

lemma overwrite_length [simp]: "i + length xs \<le> length a \<Longrightarrow> length (overwrite a i xs) = length a"
  by (simp add: overwrite_def)

lemma overwrite_Cons: "i + length xs < length a \<Longrightarrow> overwrite (a[i := x]) (i + 1) xs = overwrite a i (x # xs)"
  by (simp add: overwrite_def take_Suc_conv_app_nth)

lemma tmnt_strcpy_copies:
  assumes "holds_at b src (xs @ [0])" and "0 \<notin> set xs" and "dst + length xs < length a"
  shows "tmnt_strcpy a dst b src = Some (overwrite a dst (xs @ [0]))"
  using assms
proof (induction xs arbitrary: a dst src)
  case Nil
  then show ?case by (subst tmnt_strcpy.simps) (simp add: holds_at_Cons overwrite_def upd_conv_take_nth_drop)
next
  case (Cons x xs)
  then have "tmnt_strcpy a dst b src = tmnt_strcpy (a[dst := x]) (dst + 1) b (src + 1)"
    by (subst tmnt_strcpy.simps) (simp add: holds_at_Cons)
  also have "\<dots> = Some (overwrite (a[dst := x]) (dst + 1) (xs @ [0]))"
    using Cons.prems by (intro Cons.IH) (simp_all add: holds_at_Cons)
  finally show ?case using Cons.prems overwrite_Cons [of dst "xs @ [0]" a x] by simp
qed

lemma holds_at_update: "holds_at a i xs \<Longrightarrow> j < i \<Longrightarrow> holds_at (a[j := x]) i xs"
  by (simp add: holds_at_def)

text \<open>Copying down within one array is safe where source and destination overlap.\<close>

lemma tmnt_strcpy_within_copies:
  assumes "holds_at a src (xs @ [0])" and "0 \<notin> set xs" and "dst < src"
  shows "tmnt_strcpy_within a dst src = Some (overwrite a dst (xs @ [0]))"
  using assms
proof (induction xs arbitrary: a dst src)
  case Nil
  then show ?case by (subst tmnt_strcpy_within.simps) (simp add: holds_at_Cons overwrite_def upd_conv_take_nth_drop)
next
  case (Cons x xs)
  then have h: "holds_at (a[dst := x]) (src + 1) (xs @ [0])"
    by (intro holds_at_update) (simp_all add: holds_at_Cons)
  then have len: "dst + length (xs @ [0]) < length a" using Cons.prems(3) by (simp add: holds_at_def)
  have "tmnt_strcpy_within a dst src = tmnt_strcpy_within (a[dst := x]) (dst + 1) (src + 1)"
    using Cons.prems by (subst tmnt_strcpy_within.simps) (simp add: holds_at_Cons)
  also have "\<dots> = Some (overwrite (a[dst := x]) (dst + 1) (xs @ [0]))"
    using Cons.prems h by (intro Cons.IH) simp_all
  finally show ?case using overwrite_Cons [OF len, of x] by simp
qed

subsection \<open>Comparing\<close>

text \<open>The difference that decides the order of two strings, as the bytes are compared with their NULs.\<close>

fun byte_order :: "u8 list \<Rightarrow> u8 list \<Rightarrow> int" where
  "byte_order [] [] = 0"
| "byte_order [] (y # ys) = - uint y"
| "byte_order (x # xs) [] = uint x"
| "byte_order (x # xs) (y # ys) = (if x = y then byte_order xs ys else uint x - uint y)"

lemma tmnt_strcmp_order:
  assumes "holds_at a i (xs @ [0])" and "holds_at b j (ys @ [0])" and "0 \<notin> set xs" and "0 \<notin> set ys"
  shows "tmnt_strcmp a i b j = Some (byte_order xs ys)"
  using assms
proof (induction xs ys arbitrary: i j rule: byte_order.induct)
  case (4 x xs y ys)
  then show ?case by (subst tmnt_strcmp.simps) (auto simp: holds_at_Cons)
qed (subst tmnt_strcmp.simps, auto simp: holds_at_Cons)+

lemma tmnt_strncmp_order:
  assumes "holds_at a i (xs @ [0])" and "holds_at b j (ys @ [0])" and "0 \<notin> set xs" and "0 \<notin> set ys"
  shows "tmnt_strncmp a i b j n = Some (byte_order (take n xs) (take n ys))"
proof (cases "n = 0")
  case True
  then show ?thesis by (simp add: tmnt_strncmp_def)
next
  case False
  then show ?thesis
    unfolding tmnt_strncmp_def using assms
  proof (induction xs ys arbitrary: i j n rule: byte_order.induct)
    case (4 x xs y ys)
    then have "tmnt_strncmp_loop a (i + 1) b (j + 1) (n - 1) = Some (byte_order (take (n - 1) xs) (take (n - 1) ys))"
      if "x = y" "n - 1 \<noteq> 0"
      using that by (auto simp: holds_at_Cons)
    then show ?case using 4(2-)
      by (subst tmnt_strncmp_loop.simps) (auto simp: holds_at_Cons take_Cons')
  qed (subst tmnt_strncmp_loop.simps, auto simp: holds_at_Cons take_Cons')+
qed

lemma uint_inject: "uint x = uint (y :: u8) \<longleftrightarrow> x = y" "uint (x :: u8) = 0 \<longleftrightarrow> x = 0" "0 < uint (x :: u8) \<longleftrightarrow> x \<noteq> 0"
proof -
  show "uint x = uint (y :: u8) \<longleftrightarrow> x = y" by (simp add: word_uint_eq_iff)
  show "uint (x :: u8) = 0 \<longleftrightarrow> x = 0" by (rule uint_0_iff)
  then show "0 < uint (x :: u8) \<longleftrightarrow> x \<noteq> 0" using uint_ge_0 [of x] by linarith
qed

lemma byte_order_0: "0 \<notin> set xs \<Longrightarrow> 0 \<notin> set ys \<Longrightarrow> byte_order xs ys = 0 \<longleftrightarrow> xs = ys"
  by (induction xs ys rule: byte_order.induct) (auto simp: uint_inject)

lemma byte_order_less:
  "0 \<notin> set xs \<Longrightarrow> 0 \<notin> set ys \<Longrightarrow> byte_order xs ys < 0 \<longleftrightarrow> (xs, ys) \<in> lexord {(x, y). x < y}"
  by (induction xs ys rule: byte_order.induct) (auto simp: uint_inject word_less_def)

text \<open>The comparison of user programs. On two NUL-terminated strings \<open>tmnt_strcmp\<close> returns, and
  its result is zero exactly for equal strings and negative exactly where the first comes before the
  second in the dictionary order of unsigned bytes; \<open>tmnt_strncmp\<close> does so for the first \<open>n\<close> bytes of
  each, wherever the strings stand in their arrays.\<close>

theorem tmnt_compare_correct:
  assumes "holds_at a i (xs @ [0])" and "holds_at b j (ys @ [0])" and "0 \<notin> set xs" and "0 \<notin> set ys"
  shows "\<exists>r q. tmnt_strcmp a i b j = Some r \<and> (r = 0 \<longleftrightarrow> xs = ys) \<and> (r < 0 \<longleftrightarrow> (xs, ys) \<in> lexord {(x, y). x < y})
    \<and> tmnt_strncmp a i b j n = Some q \<and> (q = 0 \<longleftrightarrow> take n xs = take n ys)
    \<and> (q < 0 \<longleftrightarrow> (take n xs, take n ys) \<in> lexord {(x, y). x < y})"
proof -
  have "0 \<notin> set (take n xs)" "0 \<notin> set (take n ys)" using assms(3,4) by (meson in_set_takeD)+
  then show ?thesis
    using assms by (simp add: tmnt_strcmp_order tmnt_strncmp_order byte_order_0 byte_order_less)
qed

theorem tmnt_compare_correct_witness:
  "\<exists>r q. tmnt_strcmp [7, 0x61, 0x62, 0] 1 [0x61, 0xE4, 0, 9] 0 = Some r \<and> r < 0
     \<and> tmnt_strncmp [7, 0x61, 0x62, 0] 1 [0x61, 0xE4, 0, 9] 0 1 = Some q \<and> q = 0"
proof -
  have "holds_at [7, 0x61, 0x62, 0] 1 ([0x61, 0x62] @ [0 :: u8])" "holds_at [0x61, 0xE4, 0, 9] 0 ([0x61, 0xE4] @ [0 :: u8])"
    by (simp_all add: holds_at_Cons)
  from tmnt_compare_correct [OF this, of 1] show ?thesis by auto
qed

end
