(* ===== verification/User_Os.thy ===== *)
theory User_Os
  imports User_Lib
begin

text \<open>
  User programs: the small programs of \<^verbatim>\<open>syscalls/\<close> over the system call library
  \<^verbatim>\<open>tmntsyscall.h\<close>. The machine behind the library is the argument \<open>os\<close>, a record of the
  calls over a state of any type; theory \<open>User_Kernel\<close> puts the kernel there.

  A buffer is a local array of the program. A call that fills a buffer gives the bytes it stores there;
  a call that takes a buffer gets its bytes. Every call returns \<open>-1\<close> on failure and a number that is not
  negative on success, as \<^verbatim>\<open>tmntsyscall.h\<close> says. \<open>None\<close> is a call that does not come back or an
  access outside an array. The contents of a local array before its first use are an argument.
\<close>

subsection \<open>The system call library\<close>

record 's os =
  os_execute :: "u8 list \<Rightarrow> 's \<Rightarrow> (u32 \<times> 's) option"
  os_read :: "u32 \<Rightarrow> nat \<Rightarrow> 's \<Rightarrow> (u32 \<times> u8 list \<times> 's) option"
  os_write :: "u32 \<Rightarrow> u8 list \<Rightarrow> 's \<Rightarrow> (u32 \<times> 's) option"
  os_open :: "u8 list \<Rightarrow> 's \<Rightarrow> (u32 \<times> 's) option"
  os_close :: "u32 \<Rightarrow> 's \<Rightarrow> (u32 \<times> 's) option"
  os_getargs :: "nat \<Rightarrow> 's \<Rightarrow> (u32 \<times> u8 list \<times> 's) option"
  os_vidmap :: "u32 \<Rightarrow> 's \<Rightarrow> (u32 \<times> 's) option"
  os_set_handler :: "u32 \<Rightarrow> u32 \<Rightarrow> 's \<Rightarrow> (u32 \<times> 's) option"
  os_sigreturn :: "'s \<Rightarrow> (u32 \<times> 's) option"
  os_call :: "u32 \<Rightarrow> 's \<Rightarrow> (u32 \<times> 's) option"   \<comment> \<open>the interrupt with this number in \<open>eax\<close>\<close>

definition store_at :: "u8 list \<Rightarrow> nat \<Rightarrow> u8 list \<Rightarrow> u8 list option" where
  "store_at a i xs = (if i + length xs \<le> length a then Some (overwrite a i xs) else None)"

definition bytes_at :: "u8 list \<Rightarrow> nat \<Rightarrow> nat \<Rightarrow> u8 list option" where
  "bytes_at a i n = (if i + n \<le> length a then Some (take n (drop i a)) else None)"

definition string_at :: "u8 list \<Rightarrow> nat \<Rightarrow> u8 list option" where
  "string_at a i = do { n \<leftarrow> tmnt_strlen a i; bytes_at a i n }"

definition tmnt_read :: "'s os \<Rightarrow> u32 \<Rightarrow> u8 list \<Rightarrow> nat \<Rightarrow> nat \<Rightarrow> 's \<Rightarrow> (u32 \<times> u8 list \<times> 's) option" where
  "tmnt_read os fd buf i n s = do { (r, bs, s) \<leftarrow> os_read os fd n s; buf \<leftarrow> store_at buf i bs; Some (r, buf, s) }"

definition tmnt_write :: "'s os \<Rightarrow> u32 \<Rightarrow> u8 list \<Rightarrow> nat \<Rightarrow> nat \<Rightarrow> 's \<Rightarrow> (u32 \<times> 's) option" where
  "tmnt_write os fd buf i n s = do { bs \<leftarrow> bytes_at buf i n; os_write os fd bs s }"

definition tmnt_open :: "'s os \<Rightarrow> u8 list \<Rightarrow> 's \<Rightarrow> (u32 \<times> 's) option" where
  "tmnt_open os name s = do { n \<leftarrow> string_at name 0; os_open os n s }"

definition tmnt_execute :: "'s os \<Rightarrow> u8 list \<Rightarrow> 's \<Rightarrow> (u32 \<times> 's) option" where
  "tmnt_execute os command s = do { c \<leftarrow> string_at command 0; os_execute os c s }"

definition tmnt_getargs :: "'s os \<Rightarrow> u8 list \<Rightarrow> nat \<Rightarrow> 's \<Rightarrow> (u32 \<times> u8 list \<times> 's) option" where
  "tmnt_getargs os buf n s = do { (r, bs, s) \<leftarrow> os_getargs os n s; buf \<leftarrow> store_at buf 0 bs; Some (r, buf, s) }"

definition tmnt_fdputs :: "'s os \<Rightarrow> u32 \<Rightarrow> u8 list \<Rightarrow> nat \<Rightarrow> 's \<Rightarrow> 's option" where
  "tmnt_fdputs os fd a i s =
     do { n \<leftarrow> tmnt_strlen a i; (_, s) \<leftarrow> tmnt_write os fd a i n s; Some s }"

text \<open>String literals, with their NUL, and the literals that end in a newline.\<close>

definition lit :: "string \<Rightarrow> u8 list" where
  "lit str = map of_char str @ [0]"

definition lit_nl :: "string \<Rightarrow> u8 list" where
  "lit_nl str = map of_char str @ [0x0A, 0]"

text \<open>The messages of the programs: a literal to descriptor 1, then a result.\<close>

definition say :: "'s os \<Rightarrow> u8 list \<Rightarrow> 's \<Rightarrow> 's option" where
  "say os l s = tmnt_fdputs os 1 l 0 s"

definition quit :: "'s os \<Rightarrow> u8 list \<Rightarrow> u32 \<Rightarrow> 's \<Rightarrow> (u32 \<times> 's) option" where
  "quit os l r s = do { s \<leftarrow> say os l s; Some (r, s) }"

subsection \<open>\<^verbatim>\<open>tmnttestprint.c\<close>, \<^verbatim>\<open>tmnthello.c\<close>\<close>

definition testprint_main :: "'s os \<Rightarrow> 's \<Rightarrow> (u32 \<times> 's) option" where
  "testprint_main os s = quit os (lit_nl ''Hello, if this ran, the program was correct. Yay!'') 0 s"

definition hello_main :: "'s os \<Rightarrow> u8 list \<Rightarrow> 's \<Rightarrow> (u32 \<times> 's) option" where
  "hello_main os buf s =
     do { s \<leftarrow> say os (lit ''Hi, what's your name? '') s;
          (cnt, buf, s) \<leftarrow> tmnt_read os 0 buf 0 (1024 - 1) s;
          if - 1 = cnt then quit os (lit_nl ''Can't read name from keyboard.'') 3 s
          else do { buf \<leftarrow> aput buf (unat cnt) 0;
                    s \<leftarrow> say os (lit ''Hello, '') s;
                    s \<leftarrow> say os buf s;
                    Some (0, s) } }"

subsection \<open>\<^verbatim>\<open>tmntcat.c\<close>, \<^verbatim>\<open>tmntls.c\<close>\<close>

partial_function (option) cat_loop :: "'s os \<Rightarrow> u32 \<Rightarrow> u8 list \<Rightarrow> 's \<Rightarrow> (u32 \<times> 's) option" where
  "cat_loop os fd buf s =
     do { (cnt, buf, s) \<leftarrow> tmnt_read os fd buf 0 1024 s;
          if 0 = cnt then Some (0, s)
          else if - 1 = cnt then quit os (lit_nl ''file read failed'') 3 s
          else do { (r, s) \<leftarrow> tmnt_write os 1 buf 0 (unat cnt) s;
                    if - 1 = r then Some (3, s) else cat_loop os fd buf s } }"

definition cat_main :: "'s os \<Rightarrow> u8 list \<Rightarrow> 's \<Rightarrow> (u32 \<times> 's) option" where
  "cat_main os buf s =
     do { (r, buf, s) \<leftarrow> tmnt_getargs os buf 1024 s;
          if 0 \<noteq> r then quit os (lit_nl ''could not read arguments'') 3 s
          else do { (fd, s) \<leftarrow> tmnt_open os buf s;
                    if - 1 = fd then quit os (lit_nl ''file not found'') 2 s
                    else cat_loop os fd buf s } }"

partial_function (option) ls_loop :: "'s os \<Rightarrow> u32 \<Rightarrow> u8 list \<Rightarrow> 's \<Rightarrow> (u32 \<times> 's) option" where
  "ls_loop os fd buf s =
     do { (cnt, buf, s) \<leftarrow> tmnt_read os fd buf 0 (33 - 1) s;
          if 0 = cnt then Some (0, s)
          else if - 1 = cnt then quit os (lit_nl ''directory entry read failed'') 3 s
          else do { buf \<leftarrow> aput buf (unat cnt) 0x0A;
                    (r, s) \<leftarrow> tmnt_write os 1 buf 0 (unat cnt + 1) s;
                    if - 1 = r then Some (3, s) else ls_loop os fd buf s } }"

definition ls_main :: "'s os \<Rightarrow> u8 list \<Rightarrow> 's \<Rightarrow> (u32 \<times> 's) option" where
  "ls_main os buf s =
     do { (fd, s) \<leftarrow> tmnt_open os (lit ''.'') s;
          if - 1 = fd then quit os (lit_nl ''directory open failed'') 2 s
          else ls_loop os fd buf s }"

subsection \<open>\<^verbatim>\<open>tmntcounter.c\<close>\<close>

function counter_loop :: "'s os \<Rightarrow> nat \<Rightarrow> nat \<Rightarrow> u8 list \<Rightarrow> 's \<Rightarrow> (u32 \<times> 's) option" where
  "counter_loop os i mx buf s =
     (if i < mx
      then do { buf \<leftarrow> tmnt_itoa (of_nat (i + 1)) buf 0 10;
                s \<leftarrow> say os buf s;
                s \<leftarrow> say os (lit_nl '''') s;
                counter_loop os (i + 1) mx buf s }
      else Some (0, s))"
  by pat_completeness auto
termination
  by (relation "measure (\<lambda>(os, i, mx, buf, s). mx - i)") auto

declare counter_loop.simps [simp del]

definition counter_max :: "u8 \<Rightarrow> nat" where
  "counter_max c =
     (if c = of_char CHR ''0'' then 100 else if c = of_char CHR ''1'' then 10000
      else if c = of_char CHR ''2'' then 100000 else 0)"

definition counter_main :: "'s os \<Rightarrow> u8 list \<Rightarrow> 's \<Rightarrow> (u32 \<times> 's) option" where
  "counter_main os buf s =
     do { s \<leftarrow> say os (lit_nl ''Enter the Test Number: (0): 100, (1): 10000, (2): 100000'') s;
          (cnt, buf, s) \<leftarrow> tmnt_read os 0 buf 0 (1024 - 1) s;
          if - 1 = cnt then quit os (lit_nl ''Can't read the number from keyboard.'') 3 s
          else do { buf \<leftarrow> aput buf (unat cnt) 0;
                    n \<leftarrow> tmnt_strlen buf 0;
                    c \<leftarrow> aget buf 0;
                    if 2 < n \<or> n = 2 \<and> (c < of_char CHR ''0'' \<or> of_char CHR ''2'' < c)
                    then quit os (lit_nl ''Wrong Choice!'') 0 s
                    else counter_loop os 0 (counter_max c) buf s } }"

subsection \<open>\<^verbatim>\<open>tmntshell.c\<close>\<close>

text \<open>One turn of the shell: \<open>Inl\<close> the result of \<open>main\<close>, or \<open>Inr\<close> the buffer and the state of the next.\<close>

definition shell_turn :: "'s os \<Rightarrow> u8 list \<Rightarrow> 's \<Rightarrow> ((u32 \<times> 's) + (u8 list \<times> 's)) option" where
  "shell_turn os buf s =
     do { s \<leftarrow> say os (lit ''TMNT> '') s;
          (cnt, buf, s) \<leftarrow> tmnt_read os 0 buf 0 (1024 - 1) s;
          if - 1 = cnt then map_option Inl (quit os (lit_nl ''read from keyboard failed'') 3 s)
          else do { nl \<leftarrow> (if 0 < unat cnt then map_option (\<lambda>c. c = 0x0A) (aget buf (unat cnt - 1)) else Some False);
                    buf \<leftarrow> aput buf (if nl then unat cnt - 1 else unat cnt) 0;
                    r \<leftarrow> tmnt_strcmp buf 0 (lit ''exit'') 0;
                    if 0 = r then Some (Inl (0, s))
                    else do { c \<leftarrow> aget buf 0;
                              if 0 = c then Some (Inr (buf, s))
                              else do { (rval, s) \<leftarrow> tmnt_execute os buf s;
                                        s \<leftarrow> (if - 1 = rval then say os (lit_nl ''no such command'') s
                                              else if 256 = rval then say os (lit_nl ''program terminated by exception'') s
                                              else if 0 \<noteq> rval then say os (lit_nl ''program terminated abnormally'') s
                                              else Some s);
                                        Some (Inr (buf, s)) } } } }"

partial_function (option) shell_loop :: "'s os \<Rightarrow> u8 list \<Rightarrow> 's \<Rightarrow> (u32 \<times> 's) option" where
  "shell_loop os buf s =
     do { x \<leftarrow> shell_turn os buf s;
          (case x of Inl r \<Rightarrow> Some r | Inr (buf, s) \<Rightarrow> shell_loop os buf s) }"

definition shell_main :: "'s os \<Rightarrow> u8 list \<Rightarrow> 's \<Rightarrow> (u32 \<times> 's) option" where
  "shell_main os buf s = do { s \<leftarrow> say os (lit_nl ''Starting TMNT Shell'') s; shell_loop os buf s }"

end
