(* ===== verification/User_Files.thy ===== *)
theory User_Files
  imports User_Os
begin

text \<open>
  What user programs rely on, as two interfaces: \<open>console_os\<close>, where descriptor 1 shows what is written
  to it, and \<open>file_os\<close>, which adds the descriptors of files and directories. The programs that print, copy
  or list are shown correct once, for every machine behind the interface.
\<close>

subsection \<open>Small counts\<close>

lemma small_count: "k \<le> 1025 \<Longrightarrow> unat (of_nat k :: u32) = k" "k \<le> 1025 \<Longrightarrow> (of_nat k :: u32) \<noteq> - 1"
  "k \<le> 1025 \<Longrightarrow> (of_nat k :: u32) = 0 \<longleftrightarrow> k = 0"
proof -
  have u: "unat (of_nat k :: u32) = k" if "k \<le> 1025" for k
    using that by (simp add: unat_of_nat take_bit_nat_eq_self)
  show "unat (of_nat k :: u32) = k" if "k \<le> 1025" using that by (rule u)
  show "(of_nat k :: u32) \<noteq> - 1" if "k \<le> 1025"
  proof
    assume "(of_nat k :: u32) = - 1"
    then have "unat (of_nat k :: u32) = 4294967295" by (simp add: unat_minus_1)
    then show False using u [OF that] that by simp
  qed
  show "(of_nat k :: u32) = 0 \<longleftrightarrow> k = 0" if "k \<le> 1025"
    using u [OF that] by (simp only: word_unat_eq_iff unat_0)
qed

subsection \<open>Arrays\<close>

lemma string_at_holds:
  assumes "holds_at a i (xs @ [0])" and "0 \<notin> set xs"
  shows "tmnt_strlen a i = Some (length xs)" "string_at a i = Some xs" "bytes_at a i (length xs) = Some xs"
proof -
  have a: "take i a @ xs @ 0 # drop (i + length xs + 1) a = a" "length (take i a) = i"
  proof -
    have l: "i + length xs + 1 \<le> length a" "take (length xs + 1) (drop i a) = xs @ [0]"
      using assms(1) by (simp_all add: holds_at_def)
    have "a = take i a @ take (length xs + 1) (drop i a) @ drop (length xs + 1) (drop i a)"
      by (simp only: append_take_drop_id)
    then show "take i a @ xs @ 0 # drop (i + length xs + 1) a = a" unfolding l(2) by (simp add: ac_simps)
    show "length (take i a) = i" using l(1) by simp
  qed
  then show n: "tmnt_strlen a i = Some (length xs)"
    using strlen_nul [OF assms(2), of "take i a" "drop (i + length xs + 1) a"] by (simp add: tmnt_strlen_eq)
  show b: "bytes_at a i (length xs) = Some xs"
  proof -
    have "take (length xs) (drop i a) = take (length xs) (take (length xs + 1) (drop i a))" by simp
    also have "\<dots> = xs" using assms(1) by (simp add: holds_at_def)
    finally show ?thesis using assms(1) by (simp add: bytes_at_def holds_at_def)
  qed
  show "string_at a i = Some xs" using n b by (simp add: string_at_def)
qed

lemma holds_at_lit: "holds_at (lit str) 0 (map of_char str @ [0])" "holds_at (lit_nl str) 0 ((map of_char str @ [0x0A]) @ [0])"
  by (simp_all add: holds_at_def lit_def lit_nl_def)

lemma store_at_Some [simp]: "i + length xs \<le> length a \<Longrightarrow> store_at a i xs = Some (overwrite a i xs)"
  by (simp add: store_at_def)

lemma overwrite_0_take: "length bs \<le> length a \<Longrightarrow> take (length bs) (overwrite a 0 bs) = bs"
  by (simp add: overwrite_def)

lemma holds_at_overwrite: "i + length xs \<le> length a \<Longrightarrow> holds_at (overwrite a i xs) i xs"
  by (simp add: holds_at_def overwrite_def)

subsection \<open>The console\<close>

text \<open>The numbers from \<open>i\<close> up to before \<open>n\<close>, in decimal, one to a line.\<close>

definition count_lines :: "nat \<Rightarrow> nat \<Rightarrow> u8 list" where
  "count_lines i n = concat (map (\<lambda>k. map digit_char (rev (digits_rev 10 k)) @ [0x0A]) [i..<n])"

lemma count_lines_end: "count_lines i i = []"
  by (simp add: count_lines_def)

lemma count_lines_Cons: "i < n \<Longrightarrow> count_lines i n = (map digit_char (rev (digits_rev 10 i)) @ [0x0A]) @ count_lines (i + 1) n"
  by (simp add: count_lines_def upt_conv_Cons)

locale console_os =
  fixes os :: "'s os"
    and good :: "'s \<Rightarrow> bool"
    and shown :: "'s \<Rightarrow> 'o"
    and emit :: "u8 list \<Rightarrow> 'o \<Rightarrow> 'o"
    and frame :: "'s \<Rightarrow> 's \<Rightarrow> bool"
  assumes emit_Nil: "emit [] v = v"
    and emit_append: "emit (xs @ ys) v = emit ys (emit xs v)"
    and write_out: "good s \<Longrightarrow> 0x08 \<notin> set bs \<Longrightarrow> length bs \<le> 1025 \<Longrightarrow>
      \<exists>s'. os_write os 1 bs s = Some (of_nat (length bs), s') \<and> good s' \<and> frame s s' \<and> shown s' = emit bs (shown s)"
    and frame_refl: "frame s s"
    and frame_trans: "frame s t \<Longrightarrow> frame t u \<Longrightarrow> frame s u"
begin

text \<open>The program has written \<open>xs\<close> and the machine is fine.\<close>

definition puts_out :: "'s \<Rightarrow> u8 list \<Rightarrow> 's \<Rightarrow> bool" where
  "puts_out s xs s' \<longleftrightarrow> good s' \<and> frame s s' \<and> shown s' = emit xs (shown s)"

lemma puts_out_Nil: "good s \<Longrightarrow> puts_out s [] s"
  by (simp add: puts_out_def frame_refl emit_Nil)

lemma puts_out_append: "puts_out s xs t \<Longrightarrow> puts_out t ys u \<Longrightarrow> puts_out s (xs @ ys) u"
  using frame_trans by (auto simp: puts_out_def emit_append)

lemma puts_out_good: "puts_out s xs t \<Longrightarrow> good t"
  by (simp add: puts_out_def)

lemma fdputs_out:
  assumes "good s" and "holds_at a i (xs @ [0])" and "0 \<notin> set xs" and "0x08 \<notin> set xs" and "length xs \<le> 1025"
  shows "\<exists>s'. tmnt_fdputs os 1 a i s = Some s' \<and> puts_out s xs s'"
  using write_out [OF assms(1,4,5)] string_at_holds [OF assms(2,3)]
  by (auto simp: tmnt_fdputs_def tmnt_write_def puts_out_def)

lemma say_out:
  assumes "good s" and "holds_at a 0 (xs @ [0])" and "0 \<notin> set xs" and "0x08 \<notin> set xs" and "length xs \<le> 1025"
  shows "\<exists>s'. say os a s = Some s' \<and> puts_out s xs s'"
  unfolding say_def by (rule fdputs_out [OF assms])

lemma write_array_out:
  assumes "good s" and "bytes_at a i n = Some bs" and "0x08 \<notin> set bs" and "length bs \<le> 1025"
  shows "\<exists>s'. tmnt_write os 1 a i n s = Some (of_nat (length bs), s') \<and> puts_out s bs s'"
  using write_out [OF assms(1,3,4)] assms(2) by (auto simp: tmnt_write_def puts_out_def)

text \<open>\<^verbatim>\<open>tmntcounter.c\<close> prints the numbers up to its limit, one to a line.\<close>

lemma counter_loop_out:
  assumes "good s" and "33 < length buf" and "length buf \<le> 1024" and "mx < 2 ^ 32" and "i \<le> mx"
  shows "\<exists>s'. counter_loop os i mx buf s = Some (0, s')
    \<and> puts_out s (count_lines (i + 1) (mx + 1)) s'"
  using assms
proof (induction "mx - i" arbitrary: i buf s)
  case 0
  then show ?case by (simp add: counter_loop.simps puts_out_Nil count_lines_end)
next
  case (Suc d)
  let ?v = "of_nat (i + 1) :: u32" and ?xs = "map digit_char (rev (digits_rev 10 (i + 1)))"
  have i: "i < mx" and d: "d = mx - (i + 1)" using Suc.hyps(2) by simp_all
  have v: "unat ?v = i + 1"
    using i Suc.prems(4) by (simp add: unat_of_nat take_bit_nat_eq_self del: of_nat_Suc of_nat_add)
  then have vn: "?v \<noteq> 0" by (metis Suc_eq_plus1 nat.simps(3) unat_0)
  have len: "length ?xs \<le> 32" using length_digits_u32 [of "10 :: u32" ?v] v by simp
  have xs: "0 \<notin> set ?xs" "0x08 \<notin> set ?xs"
  proof -
    have d: "d < 10" if "d \<in> set (digits_rev 10 (i + 1))" for d using digits_rev_less [of 10 d "i + 1"] that by simp
    show "0 \<notin> set ?xs" "0x08 \<notin> set ?xs" using d digit_char_plain(2,3) by fastforce+
  qed
  define buf' where "buf' = overwrite buf 0 (?xs @ [0])"
  have buf': "tmnt_itoa ?v buf 0 10 = Some buf'"
    using itoa_digits [of 10 ?v 0 buf] vn v len Suc.prems(2)
    by (simp add: tmnt_itoa_eq buf'_def overwrite_def del: of_nat_Suc of_nat_add)
  have h: "holds_at buf' 0 (?xs @ [0])"
    unfolding buf'_def using len Suc.prems(2) by (intro holds_at_overwrite) simp
  obtain s1 where s1: "say os buf' s = Some s1" "puts_out s ?xs s1"
    using say_out [OF Suc.prems(1) h xs] len by auto
  obtain s2 where s2: "say os (lit_nl '''') s1 = Some s2" "puts_out s1 [0x0A] s2"
    using say_out [OF puts_out_good [OF s1(2)] holds_at_lit(2) [of "''''"]] by auto
  have l': "length buf' = length buf" using len Suc.prems(2) by (simp add: buf'_def)
  obtain s3 where s3: "counter_loop os (i + 1) mx buf' s2 = Some (0, s3)"
    "puts_out s2 (count_lines (i + 1 + 1) (mx + 1)) s3"
    using Suc.hyps(1) [OF d puts_out_good [OF s2(2)], of buf'] Suc.prems i l' by auto
  have "counter_loop os i mx buf s = Some (0, s3)"
    using i buf' s1(1) s2(1) s3(1) by (subst counter_loop.simps) simp
  moreover have "puts_out s ((?xs @ [0x0A]) @ count_lines (i + 1 + 1) (mx + 1)) s3"
    by (rule puts_out_append [OF puts_out_append [OF s1(2) s2(2)] s3(2)])
  ultimately show ?case using count_lines_Cons [of "i + 1" "mx + 1"] i by auto
qed

end

subsection \<open>Files and directories\<close>

text \<open>\<open>rest s fd\<close> is what is left to read of the file that is open as \<open>fd\<close>, \<open>dir s fd\<close> the names left to
  read of a directory; \<open>room s\<close> is the number of free descriptors.\<close>

locale file_os = console_os os good shown emit frame
  for os :: "'s os" and good shown and emit :: "u8 list \<Rightarrow> 'o \<Rightarrow> 'o" and frame +
  fixes rest :: "'s \<Rightarrow> u32 \<Rightarrow> u8 list option"
    and dir :: "'s \<Rightarrow> u32 \<Rightarrow> u8 list list option"
    and room :: "'s \<Rightarrow> nat"
    and args :: "'s \<Rightarrow> u8 list"
    and content :: "u8 list \<Rightarrow> u8 list option"
    and entries :: "u8 list list"
  assumes frame_files: "frame s s' \<Longrightarrow> rest s' = rest s \<and> dir s' = dir s \<and> room s' = room s"
    and getargs_os: "good s \<Longrightarrow> args s \<noteq> [] \<Longrightarrow>
      \<exists>s'. os_getargs os 1024 s = Some (0, args s @ [0], s') \<and> good s' \<and> shown s' = shown s
        \<and> rest s' = rest s \<and> dir s' = dir s \<and> room s' = room s"
    and args_plain: "good s \<Longrightarrow> 0 \<notin> set (args s) \<and> length (args s) < 1024"
    and read_file_os: "good s \<Longrightarrow> rest s fd = Some bs \<Longrightarrow> 0 < n \<Longrightarrow> n \<le> 1024 \<Longrightarrow>
      \<exists>s'. os_read os fd n s = Some (of_nat (length (take n bs)), take n bs, s') \<and> good s' \<and> shown s' = shown s
        \<and> rest s' = (rest s)(fd \<mapsto> drop n bs) \<and> dir s' = dir s \<and> room s' = room s"
    and read_dir_os: "good s \<Longrightarrow> dir s fd = Some (name # ns) \<Longrightarrow>
      \<exists>s'. os_read os fd 32 s = Some (of_nat (length name), name, s') \<and> good s' \<and> shown s' = shown s
        \<and> dir s' = (dir s)(fd \<mapsto> ns) \<and> rest s' = rest s \<and> room s' = room s"
    and end_dir_os: "good s \<Longrightarrow> dir s fd = Some [] \<Longrightarrow>
      \<exists>s'. os_read os fd 32 s = Some (0, [], s') \<and> good s' \<and> shown s' = shown s"
    and open_file_os: "good s \<Longrightarrow> 0 < room s \<Longrightarrow> content name = Some bs \<Longrightarrow>
      \<exists>fd s'. os_open os name s = Some (fd, s') \<and> fd \<noteq> - 1 \<and> good s' \<and> shown s' = shown s \<and> rest s fd = None
        \<and> dir s fd = None \<and> rest s' = (rest s)(fd \<mapsto> bs) \<and> dir s' = dir s \<and> room s' = room s - 1"
    and open_dir_os: "good s \<Longrightarrow> 0 < room s \<Longrightarrow>
      \<exists>fd s'. os_open os [0x2E] s = Some (fd, s') \<and> fd \<noteq> - 1 \<and> good s' \<and> shown s' = shown s \<and> rest s fd = None
        \<and> dir s fd = None \<and> dir s' = (dir s)(fd \<mapsto> entries) \<and> rest s' = rest s \<and> room s' = room s - 1"
    and close_file_os: "good s \<Longrightarrow> rest s fd = Some bs \<Longrightarrow>
      \<exists>s'. os_close os fd s = Some (0, s') \<and> good s' \<and> shown s' = shown s \<and> rest s' = (rest s)(fd := None)
        \<and> dir s' = dir s \<and> room s' = room s + 1"
    and entry_names: "name \<in> set entries \<Longrightarrow> name \<noteq> [] \<and> length name \<le> 32 \<and> 0 \<notin> set name \<and> 0x08 \<notin> set name"
begin

lemma puts_out_files: "puts_out s xs s' \<Longrightarrow> rest s' = rest s \<and> dir s' = dir s \<and> room s' = room s"
  using frame_files by (simp add: puts_out_def)

lemma read_array:
  assumes "good s" and "rest s fd = Some bs" and "0 < n" and "n \<le> 1024" and "i + n \<le> length buf"
  shows "\<exists>s'. tmnt_read os fd buf i n s = Some (of_nat (length (take n bs)), overwrite buf i (take n bs), s')
    \<and> good s' \<and> shown s' = shown s \<and> rest s' = (rest s)(fd \<mapsto> drop n bs) \<and> dir s' = dir s \<and> room s' = room s"
  using read_file_os [OF assms(1-4)] assms(5) by (auto simp: tmnt_read_def)

text \<open>\<^verbatim>\<open>tmntcat.c\<close> shows the whole file.\<close>

lemma cat_loop_out:
  assumes "good s" and "rest s fd = Some bs" and "0x08 \<notin> set bs" and "length buf = 1024"
  shows "\<exists>s'. cat_loop os fd buf s = Some (0, s') \<and> good s' \<and> shown s' = emit bs (shown s)"
  using assms
proof (induction "length bs" arbitrary: bs s buf rule: less_induct)
  case less
  let ?t = "take 1024 bs" and ?c = "of_nat (length (take 1024 bs)) :: u32"
  let ?buf = "overwrite buf 0 ?t"
  obtain s1 where s1: "tmnt_read os fd buf 0 1024 s = Some (?c, ?buf, s1)" "good s1" "shown s1 = shown s"
    "rest s1 fd = Some (drop 1024 bs)"
    using read_array [OF less.prems(1,2), of 1024 0 buf] less.prems(4) by auto
  have c: "?c = 0 \<longleftrightarrow> bs = []" "?c \<noteq> - 1" "unat ?c = length ?t" using small_count [of "length ?t"] by (auto simp: min_def)
  show ?case
  proof (cases "bs = []")
    case True
    then show ?thesis using s1 c(1) by (subst cat_loop.simps) (auto simp: emit_Nil)
  next
    case False
    have nb: "0x08 \<notin> set ?t" "0x08 \<notin> set (drop 1024 bs)" using less.prems(3) by (meson in_set_takeD in_set_dropD)+
    have "bytes_at ?buf 0 (length ?t) = Some ?t" using less.prems(4) by (simp add: bytes_at_def overwrite_def min_def)
    moreover have "length ?t \<le> 1025" by (simp add: min_def)
    ultimately
    obtain s2 where s2: "tmnt_write os 1 ?buf 0 (length ?t) s1 = Some (?c, s2)" "puts_out s1 ?t s2"
      using write_array_out [OF s1(2) _ nb(1)] by blast
    have g: "good s2" "rest s2 fd = Some (drop 1024 bs)" "shown s2 = emit ?t (shown s)"
      using s2(2) puts_out_files [OF s2(2)] s1(3,4) by (simp_all add: puts_out_def)
    obtain s3 where s3: "cat_loop os fd ?buf s2 = Some (0, s3)" "good s3" "shown s3 = emit (drop 1024 bs) (shown s2)"
      using less.hyps [OF _ g(1,2) nb(2), of ?buf] less.prems(4) False by auto
    have "shown s3 = emit bs (shown s)" unfolding s3(3) g(3) emit_append [symmetric] by simp
    moreover have "cat_loop os fd buf s = Some (0, s3)"
      using s1(1) c False s2(1) s3(1) by (subst cat_loop.simps) auto
    ultimately show ?thesis using s3(2) by blast
  qed
qed

lemma get_arguments:
  assumes "good s" and "args s \<noteq> []" and "length buf = 1024"
  shows "\<exists>s'. tmnt_getargs os buf 1024 s = Some (0, overwrite buf 0 (args s @ [0]), s') \<and> good s' \<and> shown s' = shown s
    \<and> rest s' = rest s \<and> dir s' = dir s \<and> room s' = room s \<and> string_at (overwrite buf 0 (args s @ [0])) 0 = Some (args s)"
proof -
  have a: "0 \<notin> set (args s)" "length (args s) < 1024" using args_plain [OF assms(1)] by simp_all
  have "holds_at (overwrite buf 0 (args s @ [0])) 0 (args s @ [0])"
    using a(2) assms(3) by (intro holds_at_overwrite) simp
  then show ?thesis
    using getargs_os [OF assms(1,2)] string_at_holds(2) a assms(3) by (auto simp: tmnt_getargs_def)
qed

lemma cat_main_out:
  assumes "good s" and "0 < room s" and "args s \<noteq> []" and "length buf = 1024"
  shows "content (args s) = Some bs \<Longrightarrow> 0x08 \<notin> set bs \<Longrightarrow>
      \<exists>s'. cat_main os buf s = Some (0, s') \<and> good s' \<and> shown s' = emit bs (shown s)"
    and "(\<And>t. good t \<Longrightarrow> os_open os (args s) t = Some (- 1, t)) \<Longrightarrow>
      \<exists>s'. cat_main os buf s = Some (2, s') \<and> good s' \<and> shown s' = emit (map of_char ''file not found'' @ [0x0A]) (shown s)"
proof -
  let ?buf = "overwrite buf 0 (args s @ [0])"
  obtain s1 where s1: "tmnt_getargs os buf 1024 s = Some (0, ?buf, s1)" "good s1" "shown s1 = shown s" "0 < room s1"
    "string_at ?buf 0 = Some (args s)"
    using get_arguments [OF assms(1,3,4)] assms(2) by auto
  have len: "length ?buf = 1024" using args_plain [OF assms(1)] assms(4) by simp
  show "\<exists>s'. cat_main os buf s = Some (0, s') \<and> good s' \<and> shown s' = emit bs (shown s)"
    if c: "content (args s) = Some bs" and plain: "0x08 \<notin> set bs"
  proof -
    obtain fd s2 where s2: "os_open os (args s) s1 = Some (fd, s2)" "fd \<noteq> - 1" "good s2" "shown s2 = shown s" "rest s2 fd = Some bs"
      using open_file_os [OF s1(2,4) c] s1(3) by auto
    then show ?thesis
      using s1(1,5) cat_loop_out [OF s2(3,5) plain len] by (auto simp: cat_main_def tmnt_open_def)
  qed
  show "\<exists>s'. cat_main os buf s = Some (2, s') \<and> good s' \<and> shown s' = emit (map of_char ''file not found'' @ [0x0A]) (shown s)"
    if "\<And>t. good t \<Longrightarrow> os_open os (args s) t = Some (- 1, t)"
  proof -
    obtain s2 where "say os (lit_nl ''file not found'') s1 = Some s2" "puts_out s1 (map of_char ''file not found'' @ [0x0A]) s2"
      using say_out [OF s1(2) holds_at_lit(2) [of "''file not found''"]] by auto
    then show ?thesis
      using s1(1,3,5) that [OF s1(2)] by (auto simp: cat_main_def tmnt_open_def quit_def puts_out_def)
  qed
qed

text \<open>\<^verbatim>\<open>tmntls.c\<close> shows the names of the directory, one to a line.\<close>

lemma read_name:
  assumes "good s" and "dir s fd = Some (n # ns)" and "length n \<le> 32" and "length buf = 33"
  shows "\<exists>s'. tmnt_read os fd buf 0 32 s = Some (of_nat (length n), overwrite buf 0 n, s')
    \<and> good s' \<and> shown s' = shown s \<and> dir s' = (dir s)(fd \<mapsto> ns) \<and> rest s' = rest s \<and> room s' = room s"
  using read_dir_os [OF assms(1,2)] assms(3,4) by (auto simp: tmnt_read_def)

lemma read_no_name:
  assumes "good s" and "dir s fd = Some []" and "length buf = 33"
  shows "\<exists>s'. tmnt_read os fd buf 0 32 s = Some (0, buf, s') \<and> good s' \<and> shown s' = shown s"
  using end_dir_os [OF assms(1,2)] assms(3) by (auto simp: tmnt_read_def)

lemma ls_loop_out:
  assumes "good s" and "dir s fd = Some ns" and "set ns \<subseteq> set entries" and "length buf = 33"
  shows "\<exists>s'. ls_loop os fd buf s = Some (0, s') \<and> good s' \<and> shown s' = emit (concat (map (\<lambda>n. n @ [0x0A]) ns)) (shown s)"
  using assms
proof (induction ns arbitrary: s buf)
  case Nil
  then show ?case using read_no_name [of s fd buf] by (subst ls_loop.simps) (auto simp: emit_Nil)
next
  case (Cons n ns)
  have n: "n \<noteq> []" "length n \<le> 32" "0x08 \<notin> set n" using entry_names [of n] Cons.prems(3) by auto
  let ?c = "of_nat (length n) :: u32"
  obtain s1 where s1: "tmnt_read os fd buf 0 32 s = Some (?c, overwrite buf 0 n, s1)" "good s1" "shown s1 = shown s"
    "dir s1 fd = Some ns"
    using read_name [OF Cons.prems(1,2) n(2) Cons.prems(4)] by auto
  let ?buf = "(overwrite buf 0 n)[length n := 0x0A]"
  have c: "?c \<noteq> 0" "?c \<noteq> - 1" "unat ?c = length n" using small_count [of "length n"] n(1,2) by simp_all
  have len: "length (overwrite buf 0 n) = 33" using n(2) Cons.prems(4) by simp
  have "take (length n + 1) ?buf = n @ [0x0A]"
    using n(2) Cons.prems(4) by (simp add: overwrite_def take_Suc_conv_app_nth list_update_append)
  then have "bytes_at ?buf 0 (length n + 1) = Some (n @ [0x0A])"
    using len n(2) by (simp add: bytes_at_def)
  from write_array_out [OF s1(2) this] n
  obtain s2 where s2: "tmnt_write os 1 ?buf 0 (length n + 1) s1 = Some (of_nat (length n + 1), s2)" "puts_out s1 (n @ [0x0A]) s2"
    by auto
  have g: "good s2" "dir s2 fd = Some ns" "shown s2 = emit (n @ [0x0A]) (shown s)"
    using s2(2) puts_out_files [OF s2(2)] s1(3,4) by (simp_all add: puts_out_def)
  obtain s3 where s3: "ls_loop os fd ?buf s2 = Some (0, s3)" "good s3"
    "shown s3 = emit (concat (map (\<lambda>n. n @ [0x0A]) ns)) (shown s2)"
    using Cons.IH [OF g(1,2), of ?buf] Cons.prems(3) len by auto
  have "(of_nat (length n + 1) :: u32) \<noteq> - 1" using small_count(2) [of "length n + 1"] n(2) by simp
  then have "ls_loop os fd buf s = Some (0, s3)"
    using s1(1) c s2(1) s3(1) len n(2) by (subst ls_loop.simps) auto
  moreover have "shown s3 = emit (concat (map (\<lambda>n. n @ [0x0A]) (n # ns))) (shown s)"
    unfolding s3(3) g(3) emit_append [symmetric] by simp
  ultimately show ?case using s3(2) by blast
qed

lemma ls_main_out:
  assumes "good s" and "0 < room s" and "length buf = 33"
  shows "\<exists>s'. ls_main os buf s = Some (0, s') \<and> good s' \<and> shown s' = emit (concat (map (\<lambda>n. n @ [0x0A]) entries)) (shown s)"
proof -
  obtain fd s1 where s1: "os_open os [0x2E] s = Some (fd, s1)" "fd \<noteq> - 1" "good s1" "shown s1 = shown s" "dir s1 fd = Some entries"
    using open_dir_os [OF assms(1,2)] by auto
  have "string_at (lit ''.'') 0 = Some [0x2E]" by code_simp
  then show ?thesis
    using s1 ls_loop_out [OF s1(3,5) _ assms(3)] by (auto simp: ls_main_def tmnt_open_def)
qed

end

end
