(* ===== verification/Fish.thy ===== *)
theory Fish
  imports Blink_Clock User_Files
begin

text \<open>
  \<^verbatim>\<open>fish/fish.c\<close>: the program that shows two text files as the two frames of an animation. It adds a
  blinking character for every cell that is not blank in both files, and runs the clock routine on every tick. The
  program is shown to display the first file and the second in turn.

  The byte arrays of \<open>tmnt_memset\<close> and \<open>tmnt_memcpy\<close> are lists; the structures they clear and copy in the program
  are records, so their uses are the record with zeroes and the copy of a record.
\<close>

subsection \<open>The program\<close>

abbreviation WAIT :: nat where "WAIT \<equiv> 100"

primrec tmnt_memset :: "nat \<Rightarrow> u8 list \<Rightarrow> nat \<Rightarrow> u8 \<Rightarrow> u8 list option" where
  "tmnt_memset 0 mem i c = Some mem"
| "tmnt_memset (Suc n) mem i c = do { mem \<leftarrow> aput mem i c; tmnt_memset n mem (i + 1) c }"

primrec tmnt_memcpy :: "nat \<Rightarrow> u8 list \<Rightarrow> nat \<Rightarrow> u8 list \<Rightarrow> nat \<Rightarrow> (u32 \<times> u8 list) option" where
  "tmnt_memcpy 0 d i s j = Some (0, d)"
| "tmnt_memcpy (Suc n) d i s j = do { c \<leftarrow> aget s j; d \<leftarrow> aput d i c; tmnt_memcpy n d (i + 1) s (j + 1) }"

lemma tmnt_memset_fills: "i + n \<le> length mem \<Longrightarrow> tmnt_memset n mem i c = Some (overwrite mem i (replicate n c))"
proof (induction n arbitrary: mem i)
  case (Suc n)
  then show ?case using Suc.IH [of "i + 1" "mem[i := c]"] overwrite_Cons [of i "replicate n c" mem c] by simp
qed simp

lemma tmnt_memcpy_copies:
  "i + n \<le> length d \<Longrightarrow> j + n \<le> length s \<Longrightarrow> tmnt_memcpy n d i s j = Some (0, overwrite d i (take n (drop j s)))"
proof (induction n arbitrary: d i j)
  case (Suc n)
  have "take (Suc n) (drop j s) = s ! j # take n (drop (Suc j) s)" using Suc.prems by (simp add: Cons_nth_drop_Suc [symmetric])
  then show ?case
    using Suc.IH [of "i + 1" "d[i := s ! j]" "j + 1"] overwrite_Cons [of i "take n (drop (Suc j) s)" d "s ! j"] Suc.prems by simp
qed simp

text \<open>\<open>vp\<close> is the address of \<open>vmem_base_addr\<close>, \<open>base\<close> what a call that succeeds stores there.\<close>

definition mp1_set_video_mode :: "'s os \<Rightarrow> u32 \<Rightarrow> u32 \<Rightarrow> 's \<Rightarrow> (u32 \<times> 's) option" where
  "mp1_set_video_mode os vp base s = do { (r, s) \<leftarrow> os_vidmap os vp s; Some (if r = - 1 then 0 else base, s) }"

text \<open>One of the two reads of the inner loop: the new character and flag.\<close>

definition frame_char :: "'s os \<Rightarrow> u32 \<Rightarrow> u8 \<Rightarrow> bool \<Rightarrow> 's \<Rightarrow> (u8 \<times> bool \<times> 's) option" where
  "frame_char os fd c eof s =
     (if c \<noteq> 0x0A
      then do { (num_bytes, buf, s) \<leftarrow> tmnt_read os fd [c] 0 1 s;
                c \<leftarrow> aget buf 0;
                if num_bytes = 0 then Some (0x0A, True, s) else Some (c, eof, s) }
      else Some (c, eof, s))"

definition blank :: "u8 \<Rightarrow> bool" where
  "blank c \<longleftrightarrow> c = 0x20 \<or> c = 0x0A"

definition frame_blink :: "blink \<Rightarrow> nat \<Rightarrow> nat \<Rightarrow> u8 \<Rightarrow> u8 \<Rightarrow> blink" where
  "frame_blink b row col c0 c1 = b\<lparr>on_char := if c0 = 0x0A then 0x20 else c0, off_char := if c1 = 0x0A then 0x20 else c1,
     location := of_nat (row * 80 + col + 40)\<rparr>"

text \<open>The inner loop, one row: the two flags at its end. \<open>b\<close> is the variable \<open>blink_struct\<close>.\<close>

partial_function (option) frame_cols ::
  "'s os \<Rightarrow> u32 \<Rightarrow> u32 \<Rightarrow> nat \<Rightarrow> nat \<Rightarrow> blink \<Rightarrow> u8 \<Rightarrow> u8 \<Rightarrow> bool \<Rightarrow> bool \<Rightarrow> blinker \<Rightarrow> 's \<Rightarrow> (bool \<times> bool \<times> blink \<times> blinker \<times> 's) option" where
  "frame_cols os fd0 fd1 row col b c0 c1 eof0 eof1 t s =
     do { (c0, eof0, s) \<leftarrow> frame_char os fd0 c0 eof0 s;
          (c1, eof1, s) \<leftarrow> frame_char os fd1 c1 eof1 s;
          if c0 = 0x0A \<and> c1 = 0x0A then Some (eof0, eof1, b, t, s)
          else if \<not> blank c0 \<or> \<not> blank c1
          then do { (_, _, t) \<leftarrow> mp1_ioctl (Struct (frame_blink b row col c0 c1)) RTC_ADD t;
                    frame_cols os fd0 fd1 row (col + 1) (frame_blink b row col c0 c1) c0 c1 eof0 eof1 t s }
          else frame_cols os fd0 fd1 row (col + 1) b c0 c1 eof0 eof1 t s }"

definition frame_end :: "'s os \<Rightarrow> u32 \<Rightarrow> bool \<Rightarrow> 's \<Rightarrow> (u8 \<times> 's) option" where
  "frame_end os fd eof s = (if eof then do { (_, s) \<leftarrow> os_close os fd s; Some (0x0A, s) } else Some (0x30, s))"

partial_function (option) frame_rows ::
  "'s os \<Rightarrow> u32 \<Rightarrow> u32 \<Rightarrow> nat \<Rightarrow> blink \<Rightarrow> u8 \<Rightarrow> u8 \<Rightarrow> bool \<Rightarrow> bool \<Rightarrow> blinker \<Rightarrow> 's \<Rightarrow> (blinker \<times> 's) option" where
  "frame_rows os fd0 fd1 row b c0 c1 eof0 eof1 t s =
     (if \<not> eof0 \<or> \<not> eof1
      then do { (eof0, eof1, b, t, s) \<leftarrow> frame_cols os fd0 fd1 row 0 b c0 c1 eof0 eof1 t s;
                (c0, s) \<leftarrow> frame_end os fd0 eof0 s;
                (c1, s) \<leftarrow> frame_end os fd1 eof1 s;
                frame_rows os fd0 fd1 (row + 1) b c0 c1 eof0 eof1 t s }
      else Some (t, s))"

text \<open>\<open>Inl\<close> the status of the call of \<open>tmnt_halt\<close>. The fields of the local structure before their first assignment
  are the argument \<open>junk\<close>.\<close>

definition add_frames :: "'s os \<Rightarrow> blink \<Rightarrow> u8 list \<Rightarrow> u8 list \<Rightarrow> blinker \<Rightarrow> 's \<Rightarrow> ((u32 \<times> 's) + (blinker \<times> 's)) option" where
  "add_frames os junk f0 f1 t s =
     do { let b = junk\<lparr>on_length := 15, off_length := 15\<rparr>;
          (fd0, s) \<leftarrow> tmnt_open os f0 s;
          if slt fd0 0 then Some (Inl (- 1, s))
          else do { (fd1, s) \<leftarrow> tmnt_open os f1 s;
                    if slt fd1 0 then Some (Inl (- 1, s))
                    else map_option Inr (frame_rows os fd0 fd1 0 b 0x30 0x30 False False t s) } }"

text \<open>The loops \<open>for (i = 0; i < WAIT; i++)\<close> of \<open>main\<close>.\<close>

primrec wait_ticks :: "'s os \<Rightarrow> u32 \<Rightarrow> nat \<Rightarrow> u8 list \<Rightarrow> blinker \<Rightarrow> 's \<Rightarrow> (u8 list \<times> blinker \<times> 's) option" where
  "wait_ticks os rtc_fd 0 garbage t s = Some (garbage, t, s)"
| "wait_ticks os rtc_fd (Suc n) garbage t s =
     do { (_, garbage, s) \<leftarrow> tmnt_read os rtc_fd garbage 0 4 s;
          t \<leftarrow> mp1_rtc_tasklet t;
          wait_ticks os rtc_fd n garbage t s }"

definition fish_main :: "'s os \<Rightarrow> u32 \<Rightarrow> u32 \<Rightarrow> blink \<Rightarrow> blink \<Rightarrow> u8 list \<Rightarrow> blinker \<Rightarrow> 's \<Rightarrow> (u32 \<times> blinker \<times> 's) option" where
  "fish_main os vp base junk0 junk1 garbage t s =
     do { let t = t\<lparr>blink_array := replicate BLINKS zero_blink\<rparr>;
          (p, s) \<leftarrow> mp1_set_video_mode os vp base s;
          if p = 0 then Some (- 1, t, s)
          else do {
            (rtc_fd, s) \<leftarrow> tmnt_open os (lit ''rtc'') s;
            x \<leftarrow> add_frames os junk0 (lit ''frame0.txt'') (lit ''frame1.txt'') t s;
            (case x of
               Inl (r, s) \<Rightarrow> Some (r, t, s)
             | Inr (t, s) \<Rightarrow> do {
                 (_, s) \<leftarrow> tmnt_write os rtc_fd [32, 0, 0, 0] 0 4 s;
                 (garbage, t, s) \<leftarrow> wait_ticks os rtc_fd WAIT garbage t s;
                 let b = junk1\<lparr>on_char := of_char CHR ''I'', off_char := of_char CHR ''M'', on_length := 7, off_length := 6,
                   location := 6 * 80 + 60\<rparr>;
                 (_, _, t) \<leftarrow> mp1_ioctl (Struct b) RTC_ADD t;
                 (garbage, t, s) \<leftarrow> wait_ticks os rtc_fd WAIT garbage t s;
                 (_, _, t) \<leftarrow> mp1_ioctl (Num (push_bit 16 40 OR (6 * 80 + 60))) RTC_SYNC t;
                 (garbage, t, s) \<leftarrow> wait_ticks os rtc_fd WAIT garbage t s;
                 (_, _, t) \<leftarrow> mp1_ioctl (Num (6 * 80 + 60)) RTC_REMOVE t;
                 (garbage, t, s) \<leftarrow> wait_ticks os rtc_fd WAIT garbage t s;
                 (_, s) \<leftarrow> os_close os rtc_fd s;
                 Some (0, t, s) }) } }"

subsection \<open>The two texts as a picture\<close>

abbreviation EOL :: u8 where "EOL \<equiv> 0x0A"

definition first_char :: "u8 list \<Rightarrow> u8" where
  "first_char l = (case l of [] \<Rightarrow> EOL | c # _ \<Rightarrow> c)"

function row_cells :: "blink \<Rightarrow> nat \<Rightarrow> nat \<Rightarrow> u8 list \<Rightarrow> u8 list \<Rightarrow> blink list" where
  "row_cells b row col l0 l1 =
     (if l0 = [] \<and> l1 = [] then []
      else (if \<not> blank (first_char l0) \<or> \<not> blank (first_char l1) then [frame_blink b row col (first_char l0) (first_char l1)] else [])
        @ row_cells b row (col + 1) (tl l0) (tl l1))"
  by pat_completeness auto
termination
  by (relation "measure (\<lambda>(b, row, col, l0, l1). length l0 + length l1)") (auto simp: neq_Nil_conv)

function rows_of :: "u8 list \<Rightarrow> u8 list list" where
  "rows_of x = takeWhile (\<lambda>c. c \<noteq> EOL) x # (if EOL \<in> set x then rows_of (tl (dropWhile (\<lambda>c. c \<noteq> EOL) x)) else [])"
  by pat_completeness auto
termination
proof (relation "measure length")
  fix x :: "u8 list"
  assume "EOL \<in> set x"
  then have "0 < length x" by auto
  then show "(tl (dropWhile (\<lambda>c. c \<noteq> EOL) x), x) \<in> measure length"
    using length_dropWhile_le [of "\<lambda>c. c \<noteq> EOL" x] by (simp add: less_eq_Suc_le del: length_greater_0_conv)
qed simp

definition first_row :: "u8 list list \<Rightarrow> u8 list" where
  "first_row A = (case A of [] \<Rightarrow> [] | l # _ \<Rightarrow> l)"

function frame_cells :: "blink \<Rightarrow> nat \<Rightarrow> u8 list list \<Rightarrow> u8 list list \<Rightarrow> blink list" where
  "frame_cells b row A B =
     (if A = [] \<and> B = [] then [] else row_cells b row 0 (first_row A) (first_row B) @ frame_cells b (row + 1) (tl A) (tl B))"
  by pat_completeness auto
termination
  by (relation "measure (\<lambda>(b, row, A, B). length A + length B)") (auto simp: neq_Nil_conv)

declare row_cells.simps [simp del] rows_of.simps [simp del] frame_cells.simps [simp del]

subsection \<open>One row\<close>

text \<open>A reader: its last character \<open>c\<close>, a newline once the line has ended, and what is left of its file.\<close>

definition line_left :: "u8 \<Rightarrow> u8 list \<Rightarrow> u8 list" where
  "line_left c x = (if c = EOL then [] else takeWhile (\<lambda>c. c \<noteq> EOL) x)"

definition file_ends :: "u8 \<Rightarrow> u8 list \<Rightarrow> bool" where
  "file_ends c x \<longleftrightarrow> c \<noteq> EOL \<and> EOL \<notin> set x"

definition after_line :: "u8 \<Rightarrow> u8 list \<Rightarrow> u8 list" where
  "after_line c x = (if c = EOL then x else tl (dropWhile (\<lambda>c. c \<noteq> EOL) x))"

definition next_char :: "u8 \<Rightarrow> u8 list \<Rightarrow> u8" where
  "next_char c x = (if c = EOL then EOL else first_char x)"

definition char_left :: "u8 \<Rightarrow> u8 list \<Rightarrow> u8 list" where
  "char_left c x = (if c = EOL then x else tl x)"

lemma reader_step:
  "first_char (line_left c x) = next_char c x"
  "line_left (next_char c x) (char_left c x) = tl (line_left c x)"
  "(c \<noteq> EOL \<and> x = []) \<or> file_ends (next_char c x) (char_left c x) \<longleftrightarrow> file_ends c x"
  "after_line (next_char c x) (char_left c x) = after_line c x"
  "next_char c x = EOL \<longleftrightarrow> line_left c x = []"
  by (cases x; auto simp: line_left_def file_ends_def after_line_def next_char_def char_left_def first_char_def)+

lemma reader_end:
  assumes "next_char c x = EOL"
  shows "after_line c x = char_left c x" "file_ends c x \<longleftrightarrow> c \<noteq> EOL \<and> x = []"
  using assms by (cases x; auto simp: file_ends_def after_line_def next_char_def char_left_def first_char_def)+

lemma frame_blink_again: "frame_blink (frame_blink b r k x y) = frame_blink b"
  by (simp add: frame_blink_def fun_eq_iff)

lemma row_cells_cong: "frame_blink b = frame_blink b' \<Longrightarrow> row_cells b r k l0 l1 = row_cells b' r k l0 l1"
  by (induction b r k l0 l1 rule: row_cells.induct) (simp add: row_cells.simps)

lemma cells_cong: "frame_blink b = frame_blink b' \<Longrightarrow> frame_cells b r A B = frame_cells b' r A B"
proof (induction b r A B rule: frame_cells.induct)
  case (1 b r A B)
  then show ?case using row_cells_cong [OF 1(2)] by (subst frame_cells.simps, subst (2) frame_cells.simps) auto
qed

lemma serve_all_append:
  "serve_all f (rs @ qs) s = do { (bs, t) \<leftarrow> serve_all f rs s; (cs, u) \<leftarrow> serve_all f qs t; Some (bs @ cs, u) }"
proof (induction rs arbitrary: s)
  case Nil
  then show ?case by (cases "serve_all f qs s") auto
next
  case (Cons r rs)
  show ?case
  proof (cases "f r s")
    case (Some p)
    obtain a s1 where p: "p = (a, s1)" by force
    show ?thesis
    proof (cases "serve_all f rs s1")
      case (Some x)
      obtain bs t where "x = (bs, t)" by force
      then show ?thesis using Some Cons [of s1] \<open>f r s = Some p\<close> p by (cases "serve_all f qs t") auto
    qed (use Cons [of s1] \<open>f r s = Some p\<close> p in simp)
  qed simp
qed

text \<open>The interface adds to files that a descriptor which is closed stays so, and is refused by \<open>close\<close>.\<close>

locale closing_os = file_os os good shown emit frame rest dir room args content entries
  for os :: "'s os" and good shown and emit :: "u8 list \<Rightarrow> 'o \<Rightarrow> 'o" and frame rest dir room args content entries +
  fixes closed :: "'s \<Rightarrow> u32 \<Rightarrow> bool"
  assumes read_closed: "good s \<Longrightarrow> rest s fd = Some bs \<Longrightarrow> n \<le> 1024 \<Longrightarrow> os_read os fd n s = Some (r, xs, s') \<Longrightarrow> closed s' = closed s"
    and close_file_closed: "good s \<Longrightarrow> rest s fd = Some bs \<Longrightarrow> os_close os fd s = Some (r, s') \<Longrightarrow> closed s' = (closed s)(fd := True)"
    and close_closed: "good s \<Longrightarrow> closed s fd \<Longrightarrow> os_close os fd s = Some (- 1, s)"
    and open_number: "good s \<Longrightarrow> rest s fd = Some bs \<Longrightarrow> \<not> slt fd 0"
begin

lemma frame_char_out:
  assumes "good s" and "c \<noteq> EOL \<Longrightarrow> rest s fd = Some x"
  shows "\<exists>s'. frame_char os fd c eof s = Some (next_char c x, eof \<or> (c \<noteq> EOL \<and> x = []), s') \<and> good s' \<and> shown s' = shown s
    \<and> rest s' = (if c = EOL then rest s else (rest s)(fd \<mapsto> char_left c x)) \<and> closed s' = closed s"
proof (cases "c = EOL")
  case True
  then show ?thesis using assms(1) by (simp add: frame_char_def next_char_def)
next
  case False
  obtain s' where s': "os_read os fd 1 s = Some (of_nat (length (take 1 x)), take 1 x, s')" "good s'" "shown s' = shown s"
    "rest s' = (rest s)(fd \<mapsto> drop 1 x)"
    using read_file_os [OF assms(1) assms(2) [OF False], of 1] by auto
  have "closed s' = closed s" by (rule read_closed [OF assms(1) assms(2) [OF False] _ s'(1)]) simp
  then show ?thesis
    using False s' by (cases x) (auto simp: frame_char_def tmnt_read_def overwrite_def next_char_def char_left_def first_char_def)
qed

lemma frame_cols_out:
  assumes "good s" and "fd0 \<noteq> fd1" and "c0 \<noteq> EOL \<Longrightarrow> rest s fd0 = Some x0" and "c1 \<noteq> EOL \<Longrightarrow> rest s fd1 = Some x1"
    and "serve_all serve (map Add (row_cells b row col (line_left c0 x0) (line_left c1 x1))) t = Some (rs, t')"
  shows "\<exists>b' s'. frame_cols os fd0 fd1 row col b c0 c1 eof0 eof1 t s = Some (eof0 \<or> file_ends c0 x0, eof1 \<or> file_ends c1 x1, b', t', s')
    \<and> frame_blink b' = frame_blink b \<and> good s' \<and> shown s' = shown s \<and> closed s' = closed s
    \<and> rest s' = (\<lambda>fd. if fd = fd0 \<and> c0 \<noteq> EOL then Some (after_line c0 x0)
        else if fd = fd1 \<and> c1 \<noteq> EOL then Some (after_line c1 x1) else rest s fd)"
  using assms
proof (induction "length (line_left c0 x0) + length (line_left c1 x1)" arbitrary: s c0 c1 x0 x1 b col eof0 eof1 t rs rule: less_induct)
  case less
  let ?d0 = "next_char c0 x0" and ?d1 = "next_char c1 x1" and ?y0 = "char_left c0 x0" and ?y1 = "char_left c1 x1"
  let ?e0 = "eof0 \<or> (c0 \<noteq> EOL \<and> x0 = [])" and ?e1 = "eof1 \<or> (c1 \<noteq> EOL \<and> x1 = [])"
  obtain s1 where s1: "frame_char os fd0 c0 eof0 s = Some (?d0, ?e0, s1)" "good s1" "shown s1 = shown s"
    "rest s1 = (if c0 = EOL then rest s else (rest s)(fd0 \<mapsto> ?y0))" "closed s1 = closed s"
    using frame_char_out [OF less.prems(1,3)] by blast
  have r1: "rest s1 fd1 = Some x1" if "c1 \<noteq> EOL" using less.prems(2,4) s1(4) that by simp
  obtain s2 where s2: "frame_char os fd1 c1 eof1 s1 = Some (?d1, ?e1, s2)" "good s2" "shown s2 = shown s"
    "rest s2 = (if c1 = EOL then rest s1 else (rest s1)(fd1 \<mapsto> ?y1))" "closed s2 = closed s"
    using frame_char_out [OF s1(2), of c1 fd1 x1 eof1] r1 s1(3,5) by auto
  have re: "rest s2 = (\<lambda>fd. if fd = fd0 \<and> c0 \<noteq> EOL then Some ?y0 else if fd = fd1 \<and> c1 \<noteq> EOL then Some ?y1 else rest s fd)"
    using s1(4) s2(4) less.prems(2) by (auto simp: fun_eq_iff)
  show ?case
  proof (cases "?d0 = EOL \<and> ?d1 = EOL")
    case True
    then have "row_cells b row col (line_left c0 x0) (line_left c1 x1) = []" using reader_step(5) by (simp add: row_cells.simps)
    then have "t' = t" using less.prems(5) by simp
    then show ?thesis
      using True s1(1) s2(1,2,3,5) reader_end [of c0 x0] reader_end [of c1 x1] re by (subst frame_cols.simps) auto
  next
    case False
    let ?u = "frame_blink b row col ?d0 ?d1" and ?draw = "\<not> blank ?d0 \<or> \<not> blank ?d1"
    let ?tail = "row_cells b row (col + 1) (tl (line_left c0 x0)) (tl (line_left c1 x1))"
    have ne: "\<not> (line_left c0 x0 = [] \<and> line_left c1 x1 = [])" using False reader_step(5) by blast
    have c: "row_cells b row col (line_left c0 x0) (line_left c1 x1) = (if ?draw then [?u] else []) @ ?tail"
      by (subst row_cells.simps) (simp only: ne if_False reader_step(1))
    define b1 where "b1 = (if ?draw then ?u else b)"
    have fb: "frame_blink b1 = frame_blink b" by (simp add: b1_def frame_blink_again)
    obtain t1 rs1 where t1: "if ?draw then \<exists>r a. mp1_ioctl (Struct ?u) RTC_ADD t = Some (r, a, t1) else t1 = t"
      and tt: "serve_all serve (map Add ?tail) t1 = Some (rs1, t')"
      using less.prems(5) unfolding c by (cases ?draw) (auto simp: serve_def bind_eq_Some_conv split: if_splits)
    have len: "length (line_left ?d0 ?y0) + length (line_left ?d1 ?y1) < length (line_left c0 x0) + length (line_left c1 x1)"
      using ne unfolding reader_step(2) by (cases "line_left c0 x0"; cases "line_left c1 x1") auto
    have tl1: "serve_all serve (map Add (row_cells b1 row (col + 1) (line_left ?d0 ?y0) (line_left ?d1 ?y1))) t1 = Some (rs1, t')"
      using tt row_cells_cong [OF fb] by (simp add: reader_step(2))
    have d: "?d0 \<noteq> EOL \<Longrightarrow> rest s2 fd0 = Some ?y0" "?d1 \<noteq> EOL \<Longrightarrow> rest s2 fd1 = Some ?y1"
      using re less.prems(2) by (auto simp: next_char_def)
    obtain b' s' where s': "frame_cols os fd0 fd1 row (col + 1) b1 ?d0 ?d1 ?e0 ?e1 t1 s2
        = Some (?e0 \<or> file_ends ?d0 ?y0, ?e1 \<or> file_ends ?d1 ?y1, b', t', s')"
      "frame_blink b' = frame_blink b" "good s'" "shown s' = shown s" "closed s' = closed s"
      "rest s' = (\<lambda>fd. if fd = fd0 \<and> ?d0 \<noteq> EOL then Some (after_line c0 x0)
        else if fd = fd1 \<and> ?d1 \<noteq> EOL then Some (after_line c1 x1) else rest s2 fd)"
      using less.hyps [OF len s2(2) less.prems(2) d tl1, of ?e0 ?e1] fb s2(3,5) unfolding reader_step(4) by auto
    have "frame_cols os fd0 fd1 row col b c0 c1 eof0 eof1 t s = frame_cols os fd0 fd1 row (col + 1) b1 ?d0 ?d1 ?e0 ?e1 t1 s2"
      using False s1(1) s2(1) t1 by (subst frame_cols.simps) (auto simp: b1_def)
    moreover have "?e0 \<or> file_ends ?d0 ?y0 \<longleftrightarrow> eof0 \<or> file_ends c0 x0" "?e1 \<or> file_ends ?d1 ?y1 \<longleftrightarrow> eof1 \<or> file_ends c1 x1"
      using reader_step(3) [of c0 x0] reader_step(3) [of c1 x1] by blast+
    moreover have "rest s' = (\<lambda>fd. if fd = fd0 \<and> c0 \<noteq> EOL then Some (after_line c0 x0)
        else if fd = fd1 \<and> c1 \<noteq> EOL then Some (after_line c1 x1) else rest s fd)"
      unfolding s'(6) re using reader_end(1) [of c0 x0] reader_end(1) [of c1 x1] less.prems(2) by (auto simp: next_char_def fun_eq_iff)
    ultimately show ?thesis using s' by auto
  qed
qed

subsection \<open>All rows\<close>

text \<open>A reader at the start of a row: its file has more rows, or it is closed.\<close>

definition at_row :: "'s \<Rightarrow> u32 \<Rightarrow> u8 \<Rightarrow> bool \<Rightarrow> u8 list \<Rightarrow> u8 list list \<Rightarrow> bool" where
  "at_row s fd c eof x A \<longleftrightarrow>
     (if eof then c = EOL \<and> closed s fd \<and> A = [] else c \<noteq> EOL \<and> rest s fd = Some x \<and> A = rows_of x)"

lemma at_row_line:
  assumes "at_row s fd c eof x A"
  shows "line_left c x = first_row A" "c \<noteq> EOL \<Longrightarrow> rest s fd = Some x"
    "\<not> eof \<Longrightarrow> tl A = (if EOL \<in> set x then rows_of (after_line c x) else [])" "\<not> eof \<Longrightarrow> A \<noteq> []" "eof \<Longrightarrow> A = []"
  using assms rows_of.simps [of x] by (auto simp: at_row_def line_left_def first_row_def after_line_def split: if_splits)

lemma next_row:
  assumes "at_row s fd c eof x A"
  shows "tl A = (if eof \<or> file_ends c x then [] else rows_of (after_line c x))"
  using assms at_row_line(3,5) [OF assms] by (cases eof) (auto simp: at_row_def file_ends_def)

lemma frame_end_out:
  assumes "good s" and "eof' \<Longrightarrow> rest s fd = Some y \<or> closed s fd"
  shows "\<exists>s'. frame_end os fd eof' s = Some (if eof' then EOL else 0x30, s') \<and> good s' \<and> shown s' = shown s
    \<and> (eof' \<longrightarrow> closed s' fd) \<and> (\<forall>g. g \<noteq> fd \<longrightarrow> rest s' g = rest s g) \<and> (\<not> eof' \<longrightarrow> rest s' fd = rest s fd) \<and> (\<forall>g. closed s g \<longrightarrow> closed s' g)"
proof (cases "eof' \<and> \<not> closed s fd")
  case True
  then have r: "rest s fd = Some y" using assms(2) by blast
  obtain s' where s': "os_close os fd s = Some (0, s')" "good s'" "shown s' = shown s" "rest s' = (rest s)(fd := None)"
    using close_file_os [OF assms(1) r] by auto
  then show ?thesis using True close_file_closed [OF assms(1) r s'(1)] by (simp add: frame_end_def)
next
  case False
  then show ?thesis using close_closed [OF assms(1), of fd] assms(1) by (auto simp: frame_end_def)
qed

lemma frame_rows_out:
  assumes "good s" and "fd0 \<noteq> fd1" and "at_row s fd0 c0 eof0 x0 A" and "at_row s fd1 c1 eof1 x1 B"
    and "serve_all serve (map Add (frame_cells b row A B)) t = Some (rs, t')"
  shows "\<exists>s'. frame_rows os fd0 fd1 row b c0 c1 eof0 eof1 t s = Some (t', s') \<and> good s' \<and> shown s' = shown s
    \<and> closed s' fd0 \<and> closed s' fd1"
  using assms
proof (induction "length A + length B" arbitrary: s c0 c1 x0 x1 eof0 eof1 A B b row t rs rule: less_induct)
  case less
  note a = at_row_line [OF less.prems(3)] and d = at_row_line [OF less.prems(4)]
  show ?case
  proof (cases "eof0 \<and> eof1")
    case True
    then have "A = []" "B = []" "closed s fd0" "closed s fd1" using less.prems(3,4) by (auto simp: at_row_def)
    then show ?thesis using True less.prems(1,5) by (subst frame_rows.simps) (simp add: frame_cells.simps)
  next
    case False
    let ?e0 = "eof0 \<or> file_ends c0 x0" and ?e1 = "eof1 \<or> file_ends c1 x1"
    have ne: "\<not> (A = [] \<and> B = [])" using False a(4) d(4) by blast
    have c: "frame_cells b row A B = row_cells b row 0 (first_row A) (first_row B) @ frame_cells b (row + 1) (tl A) (tl B)"
      by (subst frame_cells.simps) (simp only: ne if_False)
    obtain rs1 t1 rs2 where t1: "serve_all serve (map Add (row_cells b row 0 (line_left c0 x0) (line_left c1 x1))) t = Some (rs1, t1)"
      and t2: "serve_all serve (map Add (frame_cells b (row + 1) (tl A) (tl B))) t1 = Some (rs2, t')"
      using less.prems(5) unfolding c map_append a(1) d(1) serve_all_append by (auto simp: bind_eq_Some_conv)
    obtain b1 s1 where s1: "frame_cols os fd0 fd1 row 0 b c0 c1 eof0 eof1 t s = Some (?e0, ?e1, b1, t1, s1)"
      "frame_blink b1 = frame_blink b" "good s1" "shown s1 = shown s" "closed s1 = closed s"
      "rest s1 = (\<lambda>fd. if fd = fd0 \<and> c0 \<noteq> EOL then Some (after_line c0 x0)
        else if fd = fd1 \<and> c1 \<noteq> EOL then Some (after_line c1 x1) else rest s fd)"
      using frame_cols_out [OF less.prems(1,2) a(2) d(2) t1] by blast
    have r1: "?e0 \<Longrightarrow> rest s1 fd0 = Some (after_line c0 x0) \<or> closed s1 fd0" "?e1 \<Longrightarrow> rest s1 fd1 = Some (after_line c1 x1) \<or> closed s1 fd1"
      using s1(5,6) less.prems(2,3,4) by (auto simp: at_row_def split: if_splits)
    obtain s2 where s2: "frame_end os fd0 ?e0 s1 = Some (if ?e0 then EOL else 0x30, s2)" "good s2" "shown s2 = shown s1"
      "?e0 \<longrightarrow> closed s2 fd0" "\<forall>g. g \<noteq> fd0 \<longrightarrow> rest s2 g = rest s1 g" "\<not> ?e0 \<longrightarrow> rest s2 fd0 = rest s1 fd0" "\<forall>g. closed s1 g \<longrightarrow> closed s2 g"
      using frame_end_out [OF s1(3) r1(1)] by blast
    have r2: "?e1 \<Longrightarrow> rest s2 fd1 = Some (after_line c1 x1) \<or> closed s2 fd1" using r1(2) s2(5,7) less.prems(2) by auto
    obtain s3 where s3: "frame_end os fd1 ?e1 s2 = Some (if ?e1 then EOL else 0x30, s3)" "good s3" "shown s3 = shown s2"
      "?e1 \<longrightarrow> closed s3 fd1" "\<forall>g. g \<noteq> fd1 \<longrightarrow> rest s3 g = rest s2 g" "\<not> ?e1 \<longrightarrow> rest s3 fd1 = rest s2 fd1" "\<forall>g. closed s2 g \<longrightarrow> closed s3 g"
      using frame_end_out [OF s2(2) r2] by blast
    have n0: "at_row s3 fd0 (if ?e0 then EOL else 0x30) ?e0 (after_line c0 x0) (tl A)"
      using next_row [OF less.prems(3)] s2(4,6) s3(5,7) s1(6) less.prems(2,3) by (auto simp: at_row_def)
    have n1: "at_row s3 fd1 (if ?e1 then EOL else 0x30) ?e1 (after_line c1 x1) (tl B)"
      using next_row [OF less.prems(4)] s2(5) s3(4,6) s1(6) less.prems(2,4) by (auto simp: at_row_def)
    have len: "length (tl A) + length (tl B) < length A + length B" using ne by (cases A; cases B) auto
    have t3: "serve_all serve (map Add (frame_cells b1 (row + 1) (tl A) (tl B))) t1 = Some (rs2, t')"
      using t2 cells_cong [OF s1(2)] by simp
    obtain s' where "frame_rows os fd0 fd1 (row + 1) b1 (if ?e0 then EOL else 0x30) (if ?e1 then EOL else 0x30) ?e0 ?e1 t1 s3 = Some (t', s')"
      "good s'" "shown s' = shown s3" "closed s' fd0" "closed s' fd1"
      using less.hyps [OF len s3(2) less.prems(2) n0 n1 t3] by blast
    then show ?thesis
      using False s1(1,4) s2(1,3) s3(1,3) by (subst frame_rows.simps) auto
  qed
qed

text \<open>The whole of \<open>add_frames\<close>.\<close>

lemma add_frames_out:
  assumes "good s" and "2 \<le> room s" and "content n0 = Some x0" and "content n1 = Some x1"
    and "string_at f0 0 = Some n0" and "string_at f1 0 = Some n1"
    and "serve_all serve (map Add (frame_cells (junk\<lparr>on_length := 15, off_length := 15\<rparr>) 0 (rows_of x0) (rows_of x1))) t = Some (rs, t')"
  shows "\<exists>s'. add_frames os junk f0 f1 t s = Some (Inr (t', s')) \<and> good s' \<and> shown s' = shown s"
proof -
  obtain fd0 s1 where s1: "os_open os n0 s = Some (fd0, s1)" "good s1" "shown s1 = shown s" "rest s1 fd0 = Some x0" "room s1 = room s - 1"
    using open_file_os [OF assms(1) _ assms(3)] assms(2) by auto
  have room: "0 < room s1" using s1(5) assms(2) by simp
  obtain fd1 s2 where s2: "os_open os n1 s1 = Some (fd1, s2)" "good s2" "shown s2 = shown s1" "rest s1 fd1 = None" "rest s2 = (rest s1)(fd1 \<mapsto> x1)"
    using open_file_os [OF s1(2) room assms(4)] by auto
  have ne: "fd0 \<noteq> fd1" using s1(4) s2(4) by auto
  then have r: "at_row s2 fd0 0x30 False x0 (rows_of x0)" "at_row s2 fd1 0x30 False x1 (rows_of x1)"
    using s1(4) s2(5) by (simp_all add: at_row_def)
  obtain s3 where s3: "frame_rows os fd0 fd1 0 (junk\<lparr>on_length := 15, off_length := 15\<rparr>) 0x30 0x30 False False t s2 = Some (t', s3)"
    "good s3" "shown s3 = shown s2"
    using frame_rows_out [OF s2(2) ne r assms(7)] by blast
  have "\<not> slt fd0 0" "\<not> slt fd1 0" using open_number [OF s1(2,4)] open_number [OF s2(2), of fd1 x1] s2(5) by simp_all
  then show ?thesis using assms(5,6) s1(1,3) s2(1,3) s3 by (simp add: add_frames_def tmnt_open_def)
qed

end

subsection \<open>Where the cells are\<close>

definition fits :: "u8 list list \<Rightarrow> bool" where
  "fits A \<longleftrightarrow> length A \<le> 25 \<and> (\<forall>l\<in>set A. length l \<le> 40)"

definition line_char :: "u8 list \<Rightarrow> nat \<Rightarrow> u8" where
  "line_char l j = (if j < length l then l ! j else EOL)"

definition text_char :: "u8 list list \<Rightarrow> nat \<Rightarrow> nat \<Rightarrow> u8" where
  "text_char A r j = (if r < length A then line_char (A ! r) j else EOL)"

lemma line_char_simps: "line_char l 0 = first_char l" "line_char l (Suc j) = line_char (tl l) j" "line_char [] j = EOL"
  by (cases l; simp add: line_char_def first_char_def)+

lemma text_char_simps: "text_char A 0 j = line_char (first_row A) j" "text_char A (Suc r) j = text_char (tl A) r j"
  by (cases A; simp add: text_char_def first_row_def line_char_def)+

lemma blank_EOL [simp]: "blank EOL"
  by (simp add: blank_def)

lemma row_cells_mem:
  "\<not> blank (line_char l0 j) \<or> \<not> blank (line_char l1 j) \<Longrightarrow> frame_blink b r (k + j) (line_char l0 j) (line_char l1 j) \<in> set (row_cells b r k l0 l1)"
proof (induction j arbitrary: k l0 l1)
  case 0
  then have "\<not> (l0 = [] \<and> l1 = [])" by (auto simp: line_char_def)
  then show ?case using 0 by (subst row_cells.simps) (auto simp: line_char_simps)
next
  case (Suc j)
  then have "\<not> (l0 = [] \<and> l1 = [])" by (auto simp: line_char_simps)
  then show ?case using Suc.IH [of "tl l0" "tl l1" "k + 1"] Suc.prems by (subst row_cells.simps) (auto simp: line_char_simps)
qed

lemma cells_mem:
  "\<not> blank (text_char A i j) \<or> \<not> blank (text_char B i j) \<Longrightarrow> frame_blink b (r + i) j (text_char A i j) (text_char B i j) \<in> set (frame_cells b r A B)"
proof (induction i arbitrary: r A B)
  case 0
  then have "\<not> (A = [] \<and> B = [])" by (auto simp: text_char_def)
  then show ?case
    using row_cells_mem [of "first_row A" j "first_row B" b r 0] 0 by (subst frame_cells.simps) (auto simp: text_char_simps)
next
  case (Suc i)
  then have "\<not> (A = [] \<and> B = [])" by (auto simp: text_char_def)
  then show ?case using Suc.IH [of "tl A" "tl B" "r + 1"] Suc.prems by (subst frame_cells.simps) (auto simp: text_char_simps)
qed

lemma row_cells_only:
  "u \<in> set (row_cells b r k l0 l1) \<Longrightarrow>
   \<exists>j. u = frame_blink b r (k + j) (line_char l0 j) (line_char l1 j) \<and> (\<not> blank (line_char l0 j) \<or> \<not> blank (line_char l1 j))"
proof (induction b r k l0 l1 rule: row_cells.induct)
  case (1 b r k l0 l1)
  then have ne: "\<not> (l0 = [] \<and> l1 = [])" by (auto simp: row_cells.simps)
  consider "u = frame_blink b r k (first_char l0) (first_char l1)" "\<not> blank (first_char l0) \<or> \<not> blank (first_char l1)"
    | "u \<in> set (row_cells b r (k + 1) (tl l0) (tl l1))"
    using 1(2) ne by (subst (asm) row_cells.simps) (auto split: if_splits)
  then show ?case
  proof cases
    case 1
    then show ?thesis by (intro exI [of _ 0]) (simp add: line_char_simps)
  next
    case 2
    then obtain j where "u = frame_blink b r (k + 1 + j) (line_char (tl l0) j) (line_char (tl l1) j)"
      "\<not> blank (line_char (tl l0) j) \<or> \<not> blank (line_char (tl l1) j)" using 1(1) [OF ne] by blast
    then show ?thesis by (intro exI [of _ "Suc j"]) (simp add: line_char_simps)
  qed
qed

lemma cells_only:
  "u \<in> set (frame_cells b r A B) \<Longrightarrow>
   \<exists>i j. u = frame_blink b (r + i) j (text_char A i j) (text_char B i j) \<and> (\<not> blank (text_char A i j) \<or> \<not> blank (text_char B i j))"
proof (induction b r A B rule: frame_cells.induct)
  case (1 b r A B)
  then have ne: "\<not> (A = [] \<and> B = [])" by (auto simp: frame_cells.simps)
  consider "u \<in> set (row_cells b r 0 (first_row A) (first_row B))" | "u \<in> set (frame_cells b (r + 1) (tl A) (tl B))"
    using 1(2) ne by (subst (asm) frame_cells.simps) auto
  then show ?case
  proof cases
    case 1
    from row_cells_only [OF this] show ?thesis by - (rule exI [of _ 0], simp add: text_char_simps)
  next
    case 2
    then obtain i j where "u = frame_blink b (r + 1 + i) j (text_char (tl A) i j) (text_char (tl B) i j)"
      "\<not> blank (text_char (tl A) i j) \<or> \<not> blank (text_char (tl B) i j)" using 1(1) [OF ne] by blast
    then show ?thesis by (intro exI [of _ "Suc i"] exI [of _ j]) (auto simp: text_char_simps)
  qed
qed

text \<open>The locations go up in the order in which the cells are added.\<close>

abbreviation place :: "blink \<Rightarrow> nat" where
  "place u \<equiv> unat (location u)"

lemma place_blink: "r * 80 + k + 40 < BLINKS \<Longrightarrow> place (frame_blink b r k x y) = r * 80 + k + 40"
  by (simp add: frame_blink_def BLINKS_def unat_of_nat take_bit_nat_eq_self del: of_nat_add of_nat_mult)

lemma row_cells_sorted:
  assumes "r * 80 + k + 40 + max (length l0) (length l1) \<le> BLINKS"
  shows "sorted_wrt (<) (map place (row_cells b r k l0 l1))
    \<and> (\<forall>u\<in>set (row_cells b r k l0 l1). r * 80 + k + 40 \<le> place u \<and> place u < r * 80 + k + 40 + max (length l0) (length l1))"
  using assms
proof (induction b r k l0 l1 rule: row_cells.induct)
  case (1 b r k l0 l1)
  show ?case
  proof (cases "l0 = [] \<and> l1 = []")
    case True
    then show ?thesis by (simp add: row_cells.simps)
  next
    case False
    let ?m = "max (length l0) (length l1)" and ?n = "max (length (tl l0)) (length (tl l1))"
    have m: "?m = ?n + 1" using False by (cases l0; cases l1) auto
    then have "r * 80 + (k + 1) + 40 + ?n \<le> BLINKS" using 1(2) by simp
    note IH = 1(1) [OF False this]
    have p: "place (frame_blink b r k (first_char l0) (first_char l1)) = r * 80 + k + 40" using m 1(2) by (intro place_blink) simp
    show ?thesis using IH False m p by (subst (1 2) row_cells.simps) fastforce
  qed
qed

lemma cells_sorted:
  assumes "r + length A \<le> 25" and "r + length B \<le> 25" and "\<forall>l\<in>set A. length l \<le> 40" and "\<forall>l\<in>set B. length l \<le> 40"
  shows "sorted_wrt (<) (map place (frame_cells b r A B)) \<and> (\<forall>u\<in>set (frame_cells b r A B). r * 80 + 40 \<le> place u \<and> place u < BLINKS)"
  using assms
proof (induction b r A B rule: frame_cells.induct)
  case (1 b r A B)
  show ?case
  proof (cases "A = [] \<and> B = []")
    case True
    then show ?thesis by (simp add: frame_cells.simps)
  next
    case False
    have t: "set (tl A) \<subseteq> set A" "set (tl B) \<subseteq> set B" by (cases A; auto) (cases B; auto)
    have "r + 1 + length (tl A) \<le> 25" "r + 1 + length (tl B) \<le> 25" using 1(2,3) False by (cases A; cases B; auto)+
    then have IH: "sorted_wrt (<) (map place (frame_cells b (r + 1) (tl A) (tl B)))"
      "\<forall>u\<in>set (frame_cells b (r + 1) (tl A) (tl B)). (r + 1) * 80 + 40 \<le> place u \<and> place u < BLINKS"
      using 1(1) [OF False] 1(4,5) t by blast+
    have l: "max (length (first_row A)) (length (first_row B)) \<le> 40" "r < 25"
      using 1(2-5) False by (cases A; cases B; auto simp: first_row_def)+
    then have "r * 80 + 0 + 40 + max (length (first_row A)) (length (first_row B)) \<le> BLINKS" unfolding BLINKS_def by linarith
    from row_cells_sorted [OF this, of b]
    have R: "sorted_wrt (<) (map place (row_cells b r 0 (first_row A) (first_row B)))"
      "\<forall>u\<in>set (row_cells b r 0 (first_row A) (first_row B)). r * 80 + 40 \<le> place u \<and> place u < r * 80 + 80"
      using l by auto
    have c: "frame_cells b r A B = row_cells b r 0 (first_row A) (first_row B) @ frame_cells b (r + 1) (tl A) (tl B)"
      by (subst frame_cells.simps) (simp only: False if_False)
    have "r * 80 + 80 \<le> BLINKS" using l(2) by (simp add: BLINKS_def)
    then show ?thesis unfolding c using IH R by (fastforce simp: sorted_wrt_append)
  qed
qed

lemma cells_on_screen:
  assumes "fits A" and "fits B"
  shows "on_screen (frame_cells b 0 A B)"
proof -
  have s: "sorted_wrt (<) (map place (frame_cells b 0 A B))" "\<forall>u\<in>set (frame_cells b 0 A B). 0 * 80 + 40 \<le> place u \<and> place u < BLINKS"
    using cells_sorted [of 0 A B b] assms by (auto simp: fits_def)
  have "distinct (map unat (map location (frame_cells b 0 A B)))" using strict_sorted_iff [THEN iffD1, OF s(1)] by (simp add: comp_def)
  then have "distinct (map location (frame_cells b 0 A B))" by (simp only: distinct_map)
  then show ?thesis using s(2) by (auto simp: on_screen_def)
qed

text \<open>The animation: \<open>n\<close> clock ticks after the cells were added, every cell that is blank in both texts is as it
  was, and every other shows the first text in the first half of the 30 ticks and the second in the second half.\<close>

definition visible :: "u8 \<Rightarrow> u8" where
  "visible c = (if c = EOL then 0x20 else c)"

definition frame_cell :: "nat \<Rightarrow> u8 \<Rightarrow> u8 \<Rightarrow> u8 \<Rightarrow> u8" where
  "frame_cell n c0 c1 old = (if blank c0 \<and> blank c1 then old else if n mod 30 < 15 then visible c0 else visible c1)"

lemma text_char_fits:
  assumes "fits A" and "\<not> blank (text_char A i j)"
  shows "i < 25" "j < 40"
proof -
  have i: "i < length A" "\<not> blank (line_char (A ! i) j)" using assms(2) by (auto simp: text_char_def split: if_splits)
  then show "i < 25" using assms(1) by (simp add: fits_def)
  have "j < length (A ! i)" using i(2) by (auto simp: line_char_def split: if_splits)
  moreover have "length (A ! i) \<le> 40" using assms(1) nth_mem [OF i(1)] by (auto simp: fits_def)
  ultimately show "j < 40" by simp
qed

lemma cells_animate:
  assumes "fits A" and "fits B" and "on_length b = 15" and "off_length b = 15"
  shows "\<exists>t'. serve_all serve (map Add (frame_cells b 0 A B) @ replicate n Clock) (cleared v) = Some (replicate (length (frame_cells b 0 A B) + n) 0, t')
    \<and> (\<forall>r<25. \<forall>k<40. vmem t' (2 * (r * 80 + k + 40)) = frame_cell n (text_char A r k) (text_char B r k) (v (2 * (r * 80 + k + 40))))"
proof -
  let ?us = "frame_cells b 0 A B"
  have on: "on_screen ?us" by (rule cells_on_screen [OF assms(1,2)])
  have lens: "on_length u = 15 \<and> off_length u = 15" if "u \<in> set ?us" for u
    using cells_only [OF that] assms(3,4) by (auto simp: frame_blink_def)
  then have "\<forall>u\<in>set ?us. steady u" by (simp add: steady_def)
  then obtain t' where t': "serve_all serve (map Add ?us @ replicate n Clock) (cleared v) = Some (replicate (length ?us + n) 0, t')"
    "\<forall>u\<in>set ?us. vmem t' (2 * place u) =
       (if n mod (unat (on_length u) + unat (off_length u)) < unat (on_length u) then on_char u else off_char u)"
    "\<forall>a. (\<forall>u\<in>set ?us. a \<noteq> 2 * place u) \<longrightarrow> vmem t' a = v a"
    using blinks_over_time [OF on, of n v] by blast
  have lit: "vmem t' (2 * place u) = (if n mod 30 < 15 then on_char u else off_char u)" if "u \<in> set ?us" for u
    using bspec [OF t'(2) that] lens [OF that] by simp
  have "vmem t' (2 * (r * 80 + k + 40)) = frame_cell n (text_char A r k) (text_char B r k) (v (2 * (r * 80 + k + 40)))" if rk: "r < 25" "k < 40" for r k
  proof (cases "blank (text_char A r k) \<and> blank (text_char B r k)")
    case False
    let ?u = "frame_blink b r k (text_char A r k) (text_char B r k)"
    have "?u \<in> set ?us" using cells_mem [of A r k B b 0] False by auto
    moreover have "place ?u = r * 80 + k + 40" using rk by (intro place_blink) (simp add: BLINKS_def)
    ultimately show ?thesis using lit [of ?u] False by (auto simp: frame_cell_def frame_blink_def visible_def)
  next
    case True
    have "2 * (r * 80 + k + 40) \<noteq> 2 * place u" if u: "u \<in> set ?us" for u
    proof
      assume eq: "2 * (r * 80 + k + 40) = 2 * place u"
      obtain i j where ij: "u = frame_blink b i j (text_char A i j) (text_char B i j)" "\<not> blank (text_char A i j) \<or> \<not> blank (text_char B i j)"
        using cells_only [OF u] by auto
      have f: "i < 25" "j < 40" using text_char_fits [OF assms(1)] text_char_fits [OF assms(2)] ij(2) by blast+
      have "place u = i * 80 + j + 40" unfolding ij(1) using f by (intro place_blink) (simp add: BLINKS_def)
      then have e: "i * 80 + j = r * 80 + k" using eq by simp
      have "i = r" using e f rk by linarith
      then have "i = r \<and> j = k" using e by linarith
      then show False using ij(2) True by blast
    qed
    then have "vmem t' (2 * (r * 80 + k + 40)) = v (2 * (r * 80 + k + 40))" using t'(3) by blast
    then show ?thesis using True by (simp only: frame_cell_def simp_thms if_True)
  qed
  then show ?thesis using t'(1) by blast
qed

end
