(* ===== verification/Grep.thy ===== *)
theory Grep
  imports User_Files
begin

text \<open>
  \<^verbatim>\<open>syscalls/tmntgrep.c\<close>: the program that searches the files of the directory for a string.
  It reads a file in pieces of at most 1024 bytes into one buffer, cuts the buffer into lines, and moves
  a line that the end of the buffer cuts down to its beginning. The theorem says that it shows the lines
  that contain the string and no other.
\<close>

subsection \<open>The program\<close>

abbreviation BUFSIZE :: nat where "BUFSIZE \<equiv> 1024"
abbreviation SBUFSIZE :: nat where "SBUFSIZE \<equiv> 33"
abbreviation NL :: u8 where "NL \<equiv> 0x0A"

function grep_line_end :: "u8 list \<Rightarrow> nat \<Rightarrow> nat \<Rightarrow> nat option" where
  "grep_line_end data lst line_end =
     (if line_end < lst
      then do { c \<leftarrow> aget data line_end;
                if NL \<noteq> c then grep_line_end data lst (line_end + 1) else Some line_end }
      else Some line_end)"
  by pat_completeness auto
termination
  by (relation "measure (\<lambda>(data, lst, line_end). lst - line_end)") auto

definition grep_show :: "'s os \<Rightarrow> u8 list \<Rightarrow> u8 list \<Rightarrow> nat \<Rightarrow> 's \<Rightarrow> 's option" where
  "grep_show os fname data line_start t =
     do { t \<leftarrow> tmnt_fdputs os 1 fname 0 t;
          t \<leftarrow> tmnt_fdputs os 1 (lit '':'') 0 t;
          t \<leftarrow> tmnt_fdputs os 1 data line_start t;
          tmnt_fdputs os 1 (lit_nl '''') 0 t }"

function grep_search :: "'s os \<Rightarrow> u8 list \<Rightarrow> nat \<Rightarrow> u8 list \<Rightarrow> u8 list \<Rightarrow> nat \<Rightarrow> nat \<Rightarrow> nat \<Rightarrow> 's \<Rightarrow> 's option" where
  "grep_search os s s_len fname data line_start line_end check t =
     (if check < line_end
      then do { c0 \<leftarrow> aget s 0;
                c \<leftarrow> aget data check;
                hit \<leftarrow> (if c0 = c then map_option (\<lambda>r. 0 = r) (tmnt_strncmp data check s 0 s_len) else Some False);
                if hit then grep_show os fname data line_start t
                else grep_search os s s_len fname data line_start line_end (check + 1) t }
      else Some t)"
  by pat_completeness auto
termination
  by (relation "measure (\<lambda>(os, s, s_len, fname, data, line_start, line_end, check, t). line_end - check)") auto

declare grep_line_end.simps [simp del] grep_search.simps [simp del]

text \<open>The inner loop, over the lines of the buffer: it gives the new \<open>last\<close>.\<close>

partial_function (option) grep_lines ::
  "'s os \<Rightarrow> u8 list \<Rightarrow> nat \<Rightarrow> u8 list \<Rightarrow> u32 \<Rightarrow> nat \<Rightarrow> u8 list \<Rightarrow> nat \<Rightarrow> 's \<Rightarrow> (nat \<times> u8 list \<times> 's) option" where
  "grep_lines os s s_len fname cnt lst data line_start t =
     do { line_end \<leftarrow> grep_line_end data lst line_start;
          c \<leftarrow> aget data line_end;
          data \<leftarrow> aput data line_end 0;
          if NL \<noteq> c \<and> 0 \<noteq> cnt \<and> line_start \<noteq> 0
          then do { data \<leftarrow> tmnt_strcpy_within data 0 line_start; Some (lst - line_start, data, t) }
          else do { t \<leftarrow> grep_search os s s_len fname data line_start line_end line_start t;
                    if lst \<le> line_end + 1 then Some (0, data, t)
                    else grep_lines os s s_len fname cnt lst data (line_end + 1) t } }"

text \<open>The outer loop, up to the end of the file: \<open>Inl\<close> an early result of \<open>do_one_file\<close>.\<close>

partial_function (option) grep_read ::
  "'s os \<Rightarrow> u8 list \<Rightarrow> nat \<Rightarrow> u8 list \<Rightarrow> u32 \<Rightarrow> u8 list \<Rightarrow> nat \<Rightarrow> 's \<Rightarrow> ((u32 \<times> 's) + 's) option" where
  "grep_read os s s_len fname fd data lst t =
     do { (cnt, data, t) \<leftarrow> tmnt_read os fd data lst (BUFSIZE - lst) t;
          if - 1 = cnt then map_option Inl (quit os (lit_nl ''file read failed'') (- 1) t)
          else do { (lst, data, t) \<leftarrow> grep_lines os s s_len fname cnt (lst + unat cnt) data 0 t;
                    if 0 = cnt then Some (Inr t) else grep_read os s s_len fname fd data lst t } }"

definition do_one_file :: "'s os \<Rightarrow> u8 list \<Rightarrow> u8 list \<Rightarrow> u8 list \<Rightarrow> 's \<Rightarrow> (u32 \<times> 's) option" where
  "do_one_file os s fname data t =
     do { s_len \<leftarrow> tmnt_strlen s 0;
          (fd, t) \<leftarrow> tmnt_open os fname t;
          if - 1 = fd then quit os (lit_nl ''file open failed'') (- 1) t
          else do { x \<leftarrow> grep_read os s s_len fname fd data 0 t;
                    (case x of Inl r \<Rightarrow> Some r
                     | Inr t \<Rightarrow> do { (r, t) \<leftarrow> os_close os fd t;
                                     if - 1 = r then quit os (lit_nl ''file close failed'') (- 1) t else Some (0, t) }) } }"

text \<open>The loop over the directory. The contents of the array \<open>data\<close> before each call are an argument.\<close>

partial_function (option) grep_files :: "'s os \<Rightarrow> (nat \<Rightarrow> u8 list) \<Rightarrow> nat \<Rightarrow> u8 list \<Rightarrow> u32 \<Rightarrow> u8 list \<Rightarrow> 's \<Rightarrow> (u32 \<times> 's) option" where
  "grep_files os junk k search fd buf t =
     do { (cnt, buf, t) \<leftarrow> tmnt_read os fd buf 0 (SBUFSIZE - 1) t;
          if 0 = cnt then Some (0, t)
          else if - 1 = cnt then quit os (lit_nl ''directory entry read failed'') 3 t
          else do { c \<leftarrow> aget buf 0;
                    if of_char CHR ''.'' = c then grep_files os junk k search fd buf t
                    else do { buf \<leftarrow> aput buf (unat cnt) 0;
                              (r, t) \<leftarrow> do_one_file os search buf (junk k) t;
                              if 0 \<noteq> r then Some (3, t) else grep_files os junk (k + 1) search fd buf t } } }"

definition grep_main :: "'s os \<Rightarrow> (nat \<Rightarrow> u8 list) \<Rightarrow> u8 list \<Rightarrow> u8 list \<Rightarrow> 's \<Rightarrow> (u32 \<times> 's) option" where
  "grep_main os junk buf search t =
     do { (r, search, t) \<leftarrow> tmnt_getargs os search BUFSIZE t;
          if 0 \<noteq> r then quit os (lit_nl ''could not read argument'') 3 t
          else do { (fd, t) \<leftarrow> tmnt_open os (lit ''.'') t;
                    if - 1 = fd then quit os (lit_nl ''directory open failed'') 2 t
                    else grep_files os junk 0 search fd buf t } }"

subsection \<open>What it should show\<close>

function lines_of :: "u8 list \<Rightarrow> u8 list list" where
  "lines_of xs =
     (if xs = [] then [] else let l = takeWhile (\<lambda>c. c \<noteq> NL) xs in l # lines_of (drop (length l + 1) xs))"
  by pat_completeness auto
termination
  by (relation "measure length") auto

declare lines_of.simps [simp del]

definition contains :: "'a list \<Rightarrow> 'a list \<Rightarrow> bool" where
  "contains s l \<longleftrightarrow> list_ex (\<lambda>i. take (length s) (drop i l) = s) [0..<length l]"

definition grep_out :: "u8 list \<Rightarrow> u8 list \<Rightarrow> u8 list \<Rightarrow> u8 list" where
  "grep_out s fname text = concat (map (\<lambda>l. if contains s l then fname @ [0x3A] @ l @ [NL] else []) (lines_of text))"

lemma lines_of_simps:
  "lines_of [] = []" "NL \<notin> set l \<Longrightarrow> lines_of (l @ NL # r) = l # lines_of r" "NL \<notin> set l \<Longrightarrow> l \<noteq> [] \<Longrightarrow> lines_of l = [l]"
proof -
  have t: "takeWhile (\<lambda>c. c \<noteq> NL) (l @ NL # r) = l" if "NL \<notin> set l" for l r using that by (induction l) auto
  have t': "takeWhile (\<lambda>c. c \<noteq> NL) l = l" if "NL \<notin> set l" for l using that by (simp add: takeWhile_eq_all_conv) metis
  show nil: "lines_of [] = []" by (simp add: lines_of.simps)
  show "lines_of (l @ NL # r) = l # lines_of r" if "NL \<notin> set l" using t [OF that] by (subst lines_of.simps) (simp add: Let_def)
  show "lines_of l = [l]" if "NL \<notin> set l" "l \<noteq> []" 
    using that(2) nil unfolding lines_of.simps [of l] t' [OF that(1)] by (simp add: Let_def)
qed

lemma contains_iff: "s \<noteq> [] \<Longrightarrow> contains s l \<longleftrightarrow> (\<exists>p q. l = p @ s @ q)"
proof
  assume "s \<noteq> []" "contains s l"
  then obtain i where "i < length l" "take (length s) (drop i l) = s" by (auto simp: contains_def list_ex_iff)
  then have "l = take i l @ s @ drop (length s) (drop i l)" by (metis append_take_drop_id)
  then show "\<exists>p q. l = p @ s @ q" by blast
next
  assume "s \<noteq> []" "\<exists>p q. l = p @ s @ q"
  then obtain p q where "l = p @ s @ q" by blast
  with \<open>s \<noteq> []\<close> show "contains s l" by (auto simp: contains_def list_ex_iff intro!: bexI [of _ "length p"])
qed

lemma grep_out_simps:
  "grep_out s f [] = []" 
  "NL \<notin> set l \<Longrightarrow> grep_out s f (l @ NL # r) = (if contains s l then f @ [0x3A] @ l @ [NL] else []) @ grep_out s f r"
  "NL \<notin> set l \<Longrightarrow> grep_out s f l = (if contains s l then f @ [0x3A] @ l @ [NL] else [])"
proof -
  have "\<not> contains s []" by (simp add: contains_def)
  then show "NL \<notin> set l \<Longrightarrow> grep_out s f l = (if contains s l then f @ [0x3A] @ l @ [NL] else [])"
    by (cases "l = []") (simp_all add: grep_out_def lines_of_simps)
qed (simp_all add: grep_out_def lines_of_simps)

subsection \<open>Lines of the buffer\<close>

lemma grep_line_end_found:
  assumes "holds_at data i (l @ [NL])" and "NL \<notin> set l" and "i + length l < lst"
  shows "grep_line_end data lst i = Some (i + length l)"
  using assms
proof (induction l arbitrary: i)
  case Nil
  then show ?case by (subst grep_line_end.simps) (simp add: holds_at_Cons)
next
  case (Cons c l)
  then have "grep_line_end data lst (i + 1) = Some (i + 1 + length l)" by (intro Cons.IH) (simp_all add: holds_at_Cons)
  then show ?case using Cons.prems by (subst grep_line_end.simps) (simp add: holds_at_Cons)
qed

lemma grep_line_end_none:
  assumes "holds_at data i l" and "NL \<notin> set l" and "lst = i + length l"
  shows "grep_line_end data lst i = Some lst"
  using assms
proof (induction l arbitrary: i)
  case Nil
  then show ?case by (subst grep_line_end.simps) simp
next
  case (Cons c l)
  then have "grep_line_end data lst (i + 1) = Some lst" by (intro Cons.IH) (simp_all add: holds_at_Cons)
  then show ?case using Cons.prems by (subst grep_line_end.simps) (simp add: holds_at_Cons)
qed

lemma holds_at_drop: "holds_at a i xs \<Longrightarrow> k \<le> length xs \<Longrightarrow> holds_at a (i + k) (drop k xs)"
proof (induction k arbitrary: i xs)
  case (Suc k)
  then obtain x ys where "xs = x # ys" by (cases xs) auto
  then show ?case using Suc.prems Suc.IH [of "i + 1" ys] by (simp add: holds_at_Cons)
qed simp

text \<open>A search hits at \<open>check\<close> exactly where the string begins in the line.\<close>

lemma search_hit:
  assumes "holds_at data i (l @ [0])" and "0 \<notin> set l" and "holds_at sa 0 (s @ [0])" and "0 \<notin> set s" and "s \<noteq> []" and "k < length l"
  shows "\<exists>c0 c. aget sa 0 = Some c0 \<and> aget data (i + k) = Some c
    \<and> (if c0 = c then map_option (\<lambda>r. 0 = r) (tmnt_strncmp data (i + k) sa 0 (length s)) else Some False)
        = Some (take (length s) (drop k l) = s)"
proof -
  have h: "holds_at data (i + k) (drop k l @ [0])" using holds_at_drop [OF assms(1), of k] assms(6) by simp
  have z: "0 \<notin> set (drop k l)" using assms(2) by (meson in_set_dropD)
  have "tmnt_strncmp data (i + k) sa 0 (length s) = Some (byte_order (take (length s) (drop k l)) (take (length s) s))"
    by (rule tmnt_strncmp_order [OF h assms(3) z assms(4)])
  then have n: "map_option (\<lambda>r. 0 = r) (tmnt_strncmp data (i + k) sa 0 (length s)) = Some (take (length s) (drop k l) = s)"
    using byte_order_0 [of "take (length s) (drop k l)" s] z assms(4) by (auto dest: in_set_takeD)
  obtain x xs where s: "s = x # xs" using assms(5) by (cases s) auto
  have d: "drop k l = l ! k # drop (k + 1) l" using assms(6) by (simp add: Cons_nth_drop_Suc)
  have "aget sa 0 = Some x" using assms(3) s by (simp add: holds_at_Cons)
  moreover have "aget data (i + k) = Some (l ! k)" using h d by (simp add: holds_at_Cons)
  moreover have "x \<noteq> l ! k \<Longrightarrow> take (length s) (drop k l) \<noteq> s" using s d by simp
  ultimately show ?thesis using n by auto
qed

context console_os
begin

lemma grep_show_out:
  assumes "good t" and "holds_at data i (l @ [0])" and "0 \<notin> set l" and "0x08 \<notin> set l" and "length l \<le> 1024"
    and "holds_at fa 0 (f @ [0])" and "0 \<notin> set f" and "0x08 \<notin> set f" and "length f \<le> 1024"
  shows "\<exists>t'. grep_show os fa data i t = Some t' \<and> puts_out t (f @ [0x3A] @ l @ [NL]) t'"
proof -
  obtain t1 where t1: "tmnt_fdputs os 1 fa 0 t = Some t1" "puts_out t f t1"
    using fdputs_out [OF assms(1,6-8)] assms(9) by auto
  obtain t2 where t2: "tmnt_fdputs os 1 (lit '':'') 0 t1 = Some t2" "puts_out t1 [0x3A] t2"
    using fdputs_out [OF puts_out_good [OF t1(2)] holds_at_lit(1) [of "'':''"]] by auto
  obtain t3 where t3: "tmnt_fdputs os 1 data i t2 = Some t3" "puts_out t2 l t3"
    using fdputs_out [OF puts_out_good [OF t2(2)] assms(2-4)] assms(5) by auto
  obtain t4 where t4: "tmnt_fdputs os 1 (lit_nl '''') 0 t3 = Some t4" "puts_out t3 [NL] t4"
    using fdputs_out [OF puts_out_good [OF t3(2)] holds_at_lit(2) [of "''''"]] by auto
  have "puts_out t (((f @ [0x3A]) @ l) @ [NL]) t4"
    by (intro puts_out_append [OF puts_out_append [OF puts_out_append [OF t1(2) t2(2)] t3(2)] t4(2)])
  then show ?thesis using t1(1) t2(1) t3(1) t4(1) by (simp add: grep_show_def)
qed

lemma grep_search_out:
  assumes "good t" and "holds_at data i (l @ [0])" and "0 \<notin> set l" and "0x08 \<notin> set l" and "length l \<le> 1024"
    and "holds_at fa 0 (f @ [0])" and "0 \<notin> set f" and "0x08 \<notin> set f" and "length f \<le> 1024"
    and "holds_at sa 0 (s @ [0])" and "0 \<notin> set s" and "s \<noteq> []" and "k \<le> length l"
    and "\<forall>j<k. take (length s) (drop j l) \<noteq> s"
  shows "\<exists>t'. grep_search os sa (length s) fa data i (i + length l) (i + k) t = Some t'
    \<and> puts_out t (if contains s l then f @ [0x3A] @ l @ [NL] else []) t'"
  using assms(13,14)
proof (induction "length l - k" arbitrary: k)
  case 0
  then have "\<not> contains s l" by (auto simp: contains_def list_ex_iff)
  moreover have "k = length l" using 0 by simp
  ultimately show ?case using puts_out_Nil [OF assms(1)] by (subst grep_search.simps) simp
next
  case (Suc d)
  then have k: "k < length l" by simp
  note hit = search_hit [OF assms(2,3,10,11,12) k]
  show ?case
  proof (cases "take (length s) (drop k l) = s")
    case True
    then have "contains s l" using k by (auto simp: contains_def list_ex_iff intro!: bexI [of _ k])
    then show ?thesis
      using True hit k grep_show_out [OF assms(1-9)] by (subst grep_search.simps) auto
  next
    case False
    then have "\<forall>j<k + 1. take (length s) (drop j l) \<noteq> s" using Suc.prems(2) by (simp add: less_Suc_eq)
    then have "\<exists>t'. grep_search os sa (length s) fa data i (i + length l) (i + (k + 1)) t = Some t'
        \<and> puts_out t (if contains s l then f @ [0x3A] @ l @ [NL] else []) t'"
      using Suc.hyps k by (intro Suc.hyps(1)) simp_all
    then show ?thesis using False hit k by (subst grep_search.simps) auto
  qed
qed

end

subsection \<open>The buffer between two reads\<close>

text \<open>Text that the program can handle: no NUL and no backspace, lines shorter than the buffer.\<close>

definition grep_text :: "u8 list \<Rightarrow> bool" where
  "grep_text bs \<longleftrightarrow> 0 \<notin> set bs \<and> 0x08 \<notin> set bs \<and> (\<forall>l\<in>set (lines_of bs). length l < BUFSIZE)"

definition grep_args :: "u8 list \<Rightarrow> u8 list \<Rightarrow> u8 list \<Rightarrow> u8 list \<Rightarrow> bool" where
  "grep_args sa s fa f \<longleftrightarrow> holds_at fa 0 (f @ [0]) \<and> 0 \<notin> set f \<and> 0x08 \<notin> set f \<and> length f \<le> BUFSIZE
     \<and> holds_at sa 0 (s @ [0]) \<and> 0 \<notin> set s \<and> s \<noteq> []"

text \<open>The buffer holds the unfinished line \<open>p\<close>; its last byte, past what a read fills, is no newline.\<close>

definition pending :: "u8 list \<Rightarrow> u8 list \<Rightarrow> bool" where
  "pending data p \<longleftrightarrow> length data = BUFSIZE + 1 \<and> holds_at data 0 p \<and> NL \<notin> set p \<and> length p < BUFSIZE \<and> data ! BUFSIZE \<noteq> NL"

lemma grep_text_append: "grep_text (l @ NL # r) \<Longrightarrow> NL \<notin> set l \<Longrightarrow> grep_text r \<and> length l < BUFSIZE"
  by (auto simp: grep_text_def lines_of_simps)

lemma first_line_long: "NL \<notin> set l \<Longrightarrow> l \<noteq> [] \<Longrightarrow> \<exists>m\<in>set (lines_of (l @ r)). length l \<le> length m"
proof -
  assume l: "NL \<notin> set l" "l \<noteq> []"
  then have "takeWhile (\<lambda>c. c \<noteq> NL) (l @ r) = l @ takeWhile (\<lambda>c. c \<noteq> NL) r" by (auto intro: takeWhile_append2)
  then have "length l \<le> length (takeWhile (\<lambda>c. c \<noteq> NL) (l @ r))" by simp
  moreover have "takeWhile (\<lambda>c. c \<noteq> NL) (l @ r) \<in> set (lines_of (l @ r))"
    using l(2) by (subst lines_of.simps) (simp add: Let_def)
  ultimately show ?thesis by blast
qed

lemma holds_at_end:
  assumes "holds_at data i (l @ x # r)"
  shows "holds_at (data[i + length l := y]) i (l @ [y])" "holds_at (data[i + length l := y]) (i + length l + 1) r"
    "i + length l < length data" "data ! (i + length l) = x"
proof -
  have d: "holds_at data (i + length l) (x # r)" using holds_at_drop [OF assms, of "length l"] by simp
  then show lt: "i + length l < length data" and "data ! (i + length l) = x" by (simp_all add: holds_at_Cons)
  show "holds_at (data[i + length l := y]) (i + length l + 1) r"
    using d by (simp add: holds_at_Cons) (simp add: holds_at_def)
  have "take (length l) (drop i data) = take (length l) (take (length (l @ x # r)) (drop i data))" by simp
  also have "\<dots> = l" using assms by (simp only: holds_at_def) simp
  finally show "holds_at (data[i + length l := y]) i (l @ [y])"
    using lt by (simp add: holds_at_def take_Suc_conv_app_nth drop_update_swap)
qed

context console_os
begin

lemma grep_line_out:
  assumes "good t" and "grep_args sa s fa f" and "holds_at data i (l @ [0])" and "0 \<notin> set l" and "0x08 \<notin> set l" and "length l \<le> 1024"
  shows "\<exists>t'. grep_search os sa (length s) fa data i (i + length l) i t = Some t'
    \<and> puts_out t (if contains s l then f @ [0x3A] @ l @ [NL] else []) t'"
  using grep_search_out [OF assms(1,3-6), of fa f sa s 0] assms(2) by (simp add: grep_args_def)

text \<open>At the end of the file the rest of the buffer is a line.\<close>

lemma grep_lines_rest:
  assumes "good t" and "grep_args sa s fa f" and "holds_at data i p" and "NL \<notin> set p" and "0 \<notin> set p" and "0x08 \<notin> set p"
    and "length data = 1025" and "i + length p \<le> 1024" and "data ! (i + length p) = NL \<or> cnt = 0 \<or> i = 0"
  shows "\<exists>t'. grep_lines os sa (length s) fa cnt (i + length p) data i t = Some (0, data[i + length p := 0], t')
    \<and> puts_out t (grep_out s f p) t'"
proof -
  have "holds_at data i (p @ [data ! (i + length p)])"
    using assms(3,7,8) by (simp add: holds_at_def take_Suc_conv_app_nth)
  then have "holds_at (data[i + length p := 0]) i (p @ [0])" using holds_at_end(1) [of data i p] by simp
  from grep_line_out [OF assms(1,2) this assms(5,6)] assms(8)
  obtain t' where "grep_search os sa (length s) fa (data[i + length p := 0]) i (i + length p) i t = Some t'"
    "puts_out t (if contains s p then f @ [0x3A] @ p @ [NL] else []) t'" by auto
  then show ?thesis
    using grep_line_end_none [OF assms(3,4) refl] assms(7-9) grep_out_simps(3) [OF assms(4), of s f]
    by (subst grep_lines.simps) auto
qed

text \<open>A whole line is searched and passed.\<close>

lemma grep_lines_line:
  assumes "good t" and "grep_args sa s fa f" and "holds_at data i (l @ NL # r)" and "NL \<notin> set l" and "0 \<notin> set l" and "0x08 \<notin> set l"
    and "length l < BUFSIZE"
  shows "\<exists>t1. puts_out t (if contains s l then f @ [0x3A] @ l @ [NL] else []) t1
    \<and> grep_lines os sa (length s) fa cnt (i + length (l @ NL # r)) data i t =
      (if r = [] then Some (0, data[i + length l := 0], t1)
       else grep_lines os sa (length s) fa cnt ((i + length l + 1) + length r) (data[i + length l := 0]) (i + length l + 1) t1)"
proof -
  let ?data = "data[i + length l := 0]"
  note h = holds_at_end(1) [OF assms(3), of 0] and h' = holds_at_end(3,4) [OF assms(3)]
  obtain t1 where t1: "grep_search os sa (length s) fa ?data i (i + length l) i t = Some t1"
    "puts_out t (if contains s l then f @ [0x3A] @ l @ [NL] else []) t1"
    using grep_line_out [OF assms(1,2) h assms(5,6)] assms(7) by auto
  have "data[i + length l := NL] = data" using h'(2) list_update_id by metis
  then have e: "grep_line_end data (i + length (l @ NL # r)) i = Some (i + length l)"
    using holds_at_end(1) [OF assms(3), of NL] h' assms(4) by (intro grep_line_end_found) simp_all
  have "grep_lines os sa (length s) fa cnt (i + length (l @ NL # r)) data i t =
      (if r = [] then Some (0, ?data, t1)
       else grep_lines os sa (length s) fa cnt ((i + length l + 1) + length r) ?data (i + length l + 1) t1)"
    using e h' t1(1) by (subst grep_lines.simps) (simp add: ac_simps)
  then show ?thesis using t1(2) by blast
qed

text \<open>The beginning of a line that the read has cut is moved to the front of the buffer.\<close>

lemma grep_lines_cut:
  assumes "holds_at data i p" and "NL \<notin> set p" and "0 \<notin> set p" and "length data = 1025" and "data ! 1024 \<noteq> NL" and "i + length p \<le> 1024"
    and "cnt \<noteq> 0" and "i \<noteq> 0" and "data ! (i + length p) \<noteq> NL"
  shows "\<exists>data'. grep_lines os sa s_len fa cnt (i + length p) data i t = Some (length p, data', t) \<and> pending data' p"
proof -
  let ?data = "data[i + length p := 0]"
  have "holds_at data i (p @ [data ! (i + length p)])" using assms(1,4,6) by (simp add: holds_at_def take_Suc_conv_app_nth)
  then have "holds_at ?data i (p @ [0])" using holds_at_end(1) [of data i p] by simp
  then have c: "tmnt_strcpy_within ?data 0 i = Some (overwrite ?data 0 (p @ [0]))"
    using assms(3,8) by (intro tmnt_strcpy_within_copies) auto
  have "grep_lines os sa s_len fa cnt (i + length p) data i t = Some (length p, overwrite ?data 0 (p @ [0]), t)"
    using grep_line_end_none [OF assms(1,2) refl] assms(4-9) c by (subst grep_lines.simps) simp
  moreover have "overwrite ?data 0 (p @ [0]) ! 1024 = ?data ! 1024" using assms(4,6,8) by (simp add: overwrite_def nth_append)
  moreover have "holds_at (overwrite ?data 0 (p @ [0])) 0 p" using assms(4,6,8) by (simp add: holds_at_def overwrite_def)
  moreover have "?data ! 1024 \<noteq> NL" using assms(4,5) by (simp add: nth_updated)
  ultimately show ?thesis using assms(2,4,6,8) by (auto simp: pending_def)
qed

text \<open>The buffer after a read: its lines are searched, and \<open>p\<close>, the cut line at its end, waits for the next read.\<close>

lemma grep_lines_out:
  assumes "good t" and "grep_args sa s fa f" and "cnt \<noteq> 0" and "length data = 1025" and "data ! 1024 \<noteq> NL"
    and "holds_at data i todo" and "todo \<noteq> []" and "i + length todo \<le> 1024" and "grep_text (todo @ later)"
    and "i + length todo < 1024 \<Longrightarrow> later = []"
  shows "\<exists>p data' t' out. grep_lines os sa (length s) fa cnt (i + length todo) data i t = Some (length p, data', t')
    \<and> puts_out t out t' \<and> grep_out s f (todo @ later) = out @ grep_out s f (p @ later) \<and> pending data' p \<and> grep_text (p @ later)"
  using assms
proof (induction "length todo" arbitrary: todo i data t rule: less_induct)
  case less
  note tx = less.prems(9)
  have plain: "0 \<notin> set todo" "0x08 \<notin> set todo" using tx by (simp_all add: grep_text_def)
  consider (line) l r where "todo = l @ NL # r" "NL \<notin> set l" | (cut) "NL \<notin> set todo" "i \<noteq> 0" "data ! (i + length todo) \<noteq> NL"
    | (rest) "NL \<notin> set todo" "data ! (i + length todo) = NL \<or> i = 0"
    by (meson split_list_first)
  then show ?case
  proof cases
    case line
    let ?data = "data[i + length l := 0]"
    have len: "length l < BUFSIZE" "grep_text (r @ later)" using grep_text_append [of l "r @ later"] tx line by simp_all
    obtain t1 where t1: "puts_out t (if contains s l then f @ [0x3A] @ l @ [NL] else []) t1"
      "grep_lines os sa (length s) fa cnt (i + length todo) data i t =
        (if r = [] then Some (0, ?data, t1) else grep_lines os sa (length s) fa cnt ((i + length l + 1) + length r) ?data (i + length l + 1) t1)"
      using grep_lines_line [OF less.prems(1,2) less.prems(6) [unfolded line(1)] line(2) _ _ len(1)] plain line(1) by auto
    have out: "grep_out s f (todo @ later) = (if contains s l then f @ [0x3A] @ l @ [NL] else []) @ grep_out s f (r @ later)"
      using grep_out_simps(2) [OF line(2), of s f "r @ later"] line(1) by simp
    have d: "?data ! 1024 \<noteq> NL" "length ?data = 1025" using less.prems(4,5,8) line(1) by simp_all
    show ?thesis
    proof (cases "r = []")
      case True
      moreover have "pending ?data []" using d by (simp add: pending_def)
      ultimately show ?thesis using t1 out len(2)
        by - (rule exI [of _ "[]"], rule exI [of _ ?data], rule exI [of _ t1], auto)
    next
      case False
      have "\<exists>p data' t' out. grep_lines os sa (length s) fa cnt ((i + length l + 1) + length r) ?data (i + length l + 1) t1 = Some (length p, data', t')
        \<and> puts_out t1 out t' \<and> grep_out s f (r @ later) = out @ grep_out s f (p @ later) \<and> pending data' p \<and> grep_text (p @ later)"
        using less.prems(3,8,10) line(1) holds_at_end(2) [OF less.prems(6) [unfolded line(1)], of 0] d False len(2) puts_out_good [OF t1(1)]
        by (intro less.hyps) (simp_all add: less.prems(2))
      then show ?thesis using t1 False puts_out_append [OF t1(1)] out by (metis append.assoc)
    qed
  next
    case cut
    then show ?thesis
      using grep_lines_cut [OF less.prems(6) cut(1) plain(1) less.prems(4,5,8,3) cut(2,3)] puts_out_Nil [OF less.prems(1)] tx by (metis append_Nil)
  next
    case rest
    have lt: "i + length todo < 1024"
    proof (cases "i + length todo = 1024")
      case True
      then have "i = 0" using rest(2) less.prems(5) by auto
      then show ?thesis using first_line_long [OF rest(1) less.prems(7), of later] tx True by (auto simp: grep_text_def)
    qed (use less.prems(8) in simp)
    let ?data = "data[i + length todo := 0]"
    obtain t' where "grep_lines os sa (length s) fa cnt (i + length todo) data i t = Some (0, ?data, t')" "puts_out t (grep_out s f todo) t'"
      using grep_lines_rest [OF less.prems(1,2,6) rest(1) plain less.prems(4,8), of cnt] rest(2) by auto
    moreover have "pending ?data []" using less.prems(4,5) lt by (simp add: pending_def)
    moreover have "grep_text []" by (simp add: grep_text_def lines_of_simps)
    ultimately show ?thesis
      using less.prems(10) [OF lt] by - (rule exI [of _ "[]"], rule exI [of _ ?data], rule exI [of _ t'], (auto simp: grep_out_simps))
  qed
qed

end

subsection \<open>A whole file, the whole directory\<close>

text \<open>What the program shows of a directory: the files whose names do not begin with a dot.\<close>

definition grep_all :: "(u8 list \<Rightarrow> u8 list option) \<Rightarrow> u8 list \<Rightarrow> u8 list list \<Rightarrow> u8 list" where
  "grep_all content s names = concat (map (\<lambda>f. grep_out s f (the (content f))) (filter (\<lambda>f. hd f \<noteq> 0x2E) names))"

definition grep_names :: "(u8 list \<Rightarrow> u8 list option) \<Rightarrow> u8 list list \<Rightarrow> bool" where
  "grep_names content names \<longleftrightarrow> (\<forall>f\<in>set names. hd f \<noteq> 0x2E \<longrightarrow> (\<exists>bs. content f = Some bs \<and> grep_text bs))"

context file_os
begin

lemma grep_read_out:
  assumes "good t" and "rest t fd = Some bs" and "grep_args sa s fa f" and "pending data p" and "grep_text (p @ bs)"
  shows "\<exists>t'. grep_read os sa (length s) fa fd data (length p) t = Some (Inr t') \<and> good t'
    \<and> shown t' = emit (grep_out s f (p @ bs)) (shown t) \<and> rest t' = (rest t)(fd \<mapsto> []) \<and> dir t' = dir t \<and> room t' = room t"
  using assms
proof (induction "length bs" arbitrary: bs p data t rule: less_induct)
  case less
  let ?n = "1024 - length p" and ?later = "drop (1024 - length p) bs"
  let ?b = "take ?n bs" and ?c = "of_nat (length (take (1024 - length p) bs)) :: u32"
  have p: "length data = 1025" "holds_at data 0 p" "NL \<notin> set p" "length p < 1024" "data ! 1024 \<noteq> NL"
    using less.prems(4) by (simp_all add: pending_def)
  have pl: "0 \<notin> set p" "0x08 \<notin> set p" using less.prems(5) by (simp_all add: grep_text_def)
  obtain t1 where t1: "tmnt_read os fd data (length p) ?n t = Some (?c, overwrite data (length p) ?b, t1)" "good t1"
    "shown t1 = shown t" "rest t1 = (rest t)(fd \<mapsto> ?later)" "dir t1 = dir t" "room t1 = room t"
    using read_array [OF less.prems(1,2), of ?n "length p" data] p(1,4) by auto
  have b: "length ?b \<le> 1024" "length p + length ?b \<le> 1024" using p(4) by auto
  have c: "?c = 0 \<longleftrightarrow> bs = []" "- 1 \<noteq> ?c" "unat ?c = length ?b"
    using small_count [of "length ?b"] b(1) p(4) by (auto simp: min_def split: if_splits)
  show ?case
  proof (cases "bs = []")
    case True
    obtain t2 where t2: "grep_lines os sa (length s) fa 0 (length p) data 0 t1 = Some (0, data[length p := 0], t2)"
      "puts_out t1 (grep_out s f p) t2"
      using grep_lines_rest [OF t1(2) less.prems(3) p(2,3) pl p(1), of 0] p(4) by auto
    then show ?thesis
      using t1 True puts_out_files [OF t2(2)] by (subst grep_read.simps) (auto simp: puts_out_def)
  next
    case False
    let ?data = "overwrite data (length p) ?b"
    have "holds_at ?data 0 (p @ ?b)"
      using p(2) b(2) p(1) by (simp add: holds_at_def overwrite_def) (simp add: min_def)
    moreover have "?data ! 1024 \<noteq> NL" using b(2) p(1,5) by (simp add: overwrite_def nth_append)
    moreover have "grep_text ((p @ ?b) @ ?later)" using less.prems(5) by simp
    moreover have "?later = []" if "length p + length ?b < 1024" using that by (auto simp: min_def split: if_splits)
    moreover have "p @ ?b \<noteq> []" using False p(4) by simp
    ultimately have "\<exists>p' data' t' out. grep_lines os sa (length s) fa ?c (0 + length (p @ ?b)) ?data 0 t1 = Some (length p', data', t')
      \<and> puts_out t1 out t' \<and> grep_out s f ((p @ ?b) @ ?later) = out @ grep_out s f (p' @ ?later) \<and> pending data' p' \<and> grep_text (p' @ ?later)"
      using b(2) p(1) c(1) False by (intro grep_lines_out [OF t1(2) less.prems(3)]) simp_all
    then obtain p' data' t2 out where t2: "grep_lines os sa (length s) fa ?c (length p + length ?b) ?data 0 t1 = Some (length p', data', t2)"
      "puts_out t1 out t2" "grep_out s f (p @ bs) = out @ grep_out s f (p' @ ?later)" "pending data' p'" "grep_text (p' @ ?later)"
      by auto
    have g: "good t2" "shown t2 = emit out (shown t)" "rest t2 = (rest t)(fd \<mapsto> ?later)" "dir t2 = dir t" "room t2 = room t"
      using t2(2) puts_out_files [OF t2(2)] t1(3-6) by (simp_all add: puts_out_def)
    have "0 < length bs" using False by simp
    then have "length ?later < length bs" using p(4) unfolding length_drop by linarith
    from less.hyps [OF this g(1) _ less.prems(3) t2(4,5)] g(3)
    obtain t3 where t3: "grep_read os sa (length s) fa fd data' (length p') t2 = Some (Inr t3)" "good t3"
      "shown t3 = emit (grep_out s f (p' @ ?later)) (shown t2)" "rest t3 = (rest t2)(fd \<mapsto> [])" "dir t3 = dir t2" "room t3 = room t2"
      by auto
    have "grep_read os sa (length s) fa fd data (length p) t = Some (Inr t3)"
      using t1(1) c False t2(1) t3(1) by (subst grep_read.simps) simp
    then show ?thesis using t3 g unfolding t2(3) emit_append by simp
  qed
qed

lemma do_one_file_out:
  assumes "good t" and "0 < room t" and "grep_args sa s fa f" and "content f = Some bs" and "grep_text bs"
    and "length data = 1025" and "data ! 1024 \<noteq> NL"
  shows "\<exists>t'. do_one_file os sa fa data t = Some (0, t') \<and> good t' \<and> shown t' = emit (grep_out s f bs) (shown t)
    \<and> rest t' = rest t \<and> dir t' = dir t \<and> room t' = room t"
proof -
  have n: "tmnt_strlen sa 0 = Some (length s)" "string_at fa 0 = Some f"
    using assms(3) string_at_holds by (auto simp: grep_args_def)
  obtain fd t1 where t1: "os_open os f t = Some (fd, t1)" "fd \<noteq> - 1" "good t1" "shown t1 = shown t" "rest t fd = None"
    "rest t1 = (rest t)(fd \<mapsto> bs)" "dir t1 = dir t" "room t1 = room t - 1"
    using open_file_os [OF assms(1,2,4)] by auto
  have "pending data []" using assms(6,7) by (simp add: pending_def)
  then obtain t2 where t2: "grep_read os sa (length s) fa fd data 0 t1 = Some (Inr t2)" "good t2"
    "shown t2 = emit (grep_out s f bs) (shown t)" "rest t2 = (rest t1)(fd \<mapsto> [])" "dir t2 = dir t"
    "room t2 = room t - 1"
    using grep_read_out [OF t1(3) _ assms(3), of fd bs data "[]"] assms(5) t1(4,6-8) by auto
  obtain t3 where t3: "os_close os fd t2 = Some (0, t3)" "good t3" "shown t3 = shown t2" "rest t3 = (rest t2)(fd := None)"
    "dir t3 = dir t2" "room t3 = room t2 + 1"
    using close_file_os [OF t2(2), of fd "[]"] t2(4) by auto
  have "rest t3 = rest t" using t3(4) t2(4) t1(5,6) by (auto simp: fun_eq_iff)
  moreover have "do_one_file os sa fa data t = Some (0, t3)"
    using n t1(1,2) t2(1) t3(1) by (simp add: do_one_file_def tmnt_open_def)
  ultimately show ?thesis using t3 t2(3,5,6) assms(2) by auto
qed

lemma grep_files_out:
  assumes "good t" and "0 < room t" and "dir t fd = Some ns" and "set ns \<subseteq> set entries" and "grep_names content ns"
    and "holds_at sa 0 (s @ [0])" and "0 \<notin> set s" and "s \<noteq> []" and "length buf = 33"
    and "\<And>k. length (junk k) = 1025 \<and> junk k ! 1024 \<noteq> NL"
  shows "\<exists>t'. grep_files os junk k sa fd buf t = Some (0, t') \<and> good t' \<and> shown t' = emit (grep_all content s ns) (shown t)"
  using assms(1-5,9)
proof (induction ns arbitrary: t k buf)
  case Nil
  then show ?case
    using read_no_name [of t fd buf] by (subst grep_files.simps) (auto simp: grep_all_def emit_Nil)
next
  case (Cons n ns)
  have n: "n \<noteq> []" "length n \<le> 32" "0 \<notin> set n" "0x08 \<notin> set n" using entry_names [of n] Cons.prems(4) by auto
  let ?c = "of_nat (length n) :: u32" and ?buf = "overwrite buf 0 n"
  obtain t1 where t1: "tmnt_read os fd buf 0 32 t = Some (?c, ?buf, t1)" "good t1" "shown t1 = shown t"
    "dir t1 fd = Some ns" "0 < room t1"
    using read_name [OF Cons.prems(1,3) n(2) Cons.prems(6)] Cons.prems(2) by auto
  have c: "?c \<noteq> 0" "?c \<noteq> - 1" "unat ?c = length n" using small_count [of "length n"] n(1,2) by simp_all
  have len: "length ?buf = 33" using n(2) Cons.prems(6) by simp
  have hd: "aget ?buf 0 = Some (hd n)" using n(1) by (cases n) (simp_all add: overwrite_def)
  have ns: "set ns \<subseteq> set entries" "grep_names content ns" using Cons.prems(4,5) by (simp_all add: grep_names_def)
  show ?case
  proof (cases "hd n = 0x2E")
    case True
    obtain t2 where "grep_files os junk k sa fd ?buf t1 = Some (0, t2)" "good t2" "shown t2 = emit (grep_all content s ns) (shown t1)"
      using Cons.IH [OF t1(2,5,4) ns len] by auto
    then show ?thesis
      using t1(1,3) c hd True by (subst grep_files.simps) (auto simp: grep_all_def)
  next
    case False
    then obtain bs where bs: "content n = Some bs" "grep_text bs" using Cons.prems(5) by (auto simp: grep_names_def)
    let ?buf0 = "?buf[length n := 0]"
    have "holds_at ?buf0 0 (n @ [0])"
      using n(2) Cons.prems(6) by (simp add: holds_at_def overwrite_def take_Suc_conv_app_nth list_update_append)
    then have "grep_args sa s ?buf0 n" using n assms(6-8) by (simp add: grep_args_def)
    from do_one_file_out [OF t1(2,5) this bs, of "junk k"] assms(10)
    obtain t2 where t2: "do_one_file os sa ?buf0 (junk k) t1 = Some (0, t2)" "good t2" "shown t2 = emit (grep_out s n bs) (shown t)"
      "dir t2 fd = Some ns" "0 < room t2"
      using t1(3-5) by auto
    obtain t3 where t3: "grep_files os junk (k + 1) sa fd ?buf0 t2 = Some (0, t3)" "good t3"
      "shown t3 = emit (grep_all content s ns) (shown t2)"
      using Cons.IH [OF t2(2,5,4) ns, of ?buf0 "k + 1"] len by auto
    have "grep_files os junk k sa fd buf t = Some (0, t3)"
      using t1(1) c hd False t2(1) t3(1) len n(2) by (subst grep_files.simps) auto
    moreover have "grep_all content s (n # ns) = grep_out s n bs @ grep_all content s ns"
      using False bs(1) by (simp add: grep_all_def)
    ultimately show ?thesis using t3(2,3) t2(3) by (auto simp: emit_append)
  qed
qed

lemma grep_main_out:
  assumes "good t" and "args t \<noteq> []" and "2 \<le> room t"
    and "grep_names content entries" and "length buf = 33" and "length search = 1024"
    and "\<And>k. length (junk k) = 1025 \<and> junk k ! 1024 \<noteq> NL"
  shows "\<exists>t'. grep_main os junk buf search t = Some (0, t') \<and> good t' \<and> shown t' = emit (grep_all content (args t) entries) (shown t)"
proof -
  let ?sa = "overwrite search 0 (args t @ [0])"
  obtain t1 where t1: "tmnt_getargs os search 1024 t = Some (0, ?sa, t1)" "good t1" "shown t1 = shown t" "2 \<le> room t1" "dir t1 = dir t"
    using get_arguments [OF assms(1,2,6)] assms(3) by auto
  obtain fd t2 where t2: "os_open os [0x2E] t1 = Some (fd, t2)" "fd \<noteq> - 1" "good t2" "shown t2 = shown t" "dir t fd = None"
    "dir t2 = (dir t)(fd \<mapsto> entries)" "room t2 = room t1 - 1"
    using open_dir_os [OF t1(2)] t1(3-5) by auto
  have r: "0 < room t2" using t1(4) t2(7) by simp
  have a: "0 \<notin> set (args t)" "length (args t) < 1024" using args_plain [OF assms(1)] by simp_all
  then have h: "holds_at ?sa 0 (args t @ [0])" using assms(6) by (intro holds_at_overwrite) simp
  have "string_at (lit ''.'') 0 = Some [0x2E]" by code_simp
  then show ?thesis
    using grep_files_out [OF t2(3) r _ _ assms(4) h a(1) assms(2,5,7), of fd] t1(1) t2
    by (auto simp: grep_main_def tmnt_open_def)
qed

end

end
