(* ===== verification/Screen_Write.thy ===== *)
theory Screen_Write
  imports Syscall_Files
begin

text \<open>
  The \<open>write\<close> system call on descriptor 1: what a program writes appears on the screen of its task, for
  \<open>terminal_write\<close> of \<^verbatim>\<open>terminal.c\<close> behind \<open>sys_write\<close> of \<^verbatim>\<open>sys_call.c\<close>.
\<close>

text \<open>The buffer of a program holds \<open>bs\<close> at \<open>a\<close>, off the screen at \<open>P\<close>.\<close>

definition buffer_holds :: "u32 \<Rightarrow> kstate \<Rightarrow> u32 \<Rightarrow> u8 list \<Rightarrow> bool" where
  "buffer_holds P s a bs \<longleftrightarrow> (\<forall>i<length bs. rd8 s (a + of_nat i) = bs ! i \<and> \<not> within (mmu s (a + of_nat i)) P 4000)"

lemma buffer_holds_Cons:
  assumes "buffer_holds P s a (b # bs)"
  shows "rd8 s a = b" "buffer_holds P s (a + 1) bs"
proof -
  have h: "rd8 s (a + of_nat i) = (b # bs) ! i" "\<not> within (mmu s (a + of_nat i)) P 4000" if "i < length (b # bs)" for i
    using assms that by (simp_all add: buffer_holds_def)
  show "rd8 s a = b" using h(1) [of 0] by simp
  show "buffer_holds P s (a + 1) bs"
    unfolding buffer_holds_def using h [of "Suc i" for i] by (auto simp: ac_simps)
qed

lemma buffer_holds_frame: "buffer_holds P s a bs \<Longrightarrow> console_frame P s s' \<Longrightarrow> buffer_holds P s' a bs"
  by (simp add: buffer_holds_def rd8_def console_frame_fields(1)) (simp add: console_frame_def)

lemma write_loop_puts:
  assumes "task_screen_ok P s" and "buffer_holds P s a bs" and "0x08 \<notin> set bs"
  shows "write_loop (length bs) a s = fold putc bs s"
  using assms
proof (induction bs arbitrary: a s)
  case (Cons b bs)
  note b = buffer_holds_Cons [OF Cons.prems(2)]
  have e: "erasable b (task_view P s)" using Cons.prems(3) by (simp add: erasable_def)
  note p = putc_refines [OF Cons.prems(1) e]
  show ?case
    using Cons.IH [OF p(2) buffer_holds_frame [OF b(2) p(3)]] Cons.prems(3) b(1) by simp
qed simp

lemma console_frame_flags:
  assumes "console_frame P (s\<lparr>eflags := f\<rparr>) t"
  shows "console_frame P s (t\<lparr>eflags := eflags s\<rparr>)"
proof -
  have t: "t = s\<lparr>eflags := f, mem := mem t, io := io t, terminals := terminals t, screen_x := screen_x t,
      screen_y := screen_y t, cursor_x := cursor_x t, cursor_y := cursor_y t\<rparr>"
    using assms by (simp add: console_frame_def)
  have "t\<lparr>eflags := eflags s\<rparr> = s\<lparr>mem := mem t, io := io t, terminals := terminals t, screen_x := screen_x t,
      screen_y := screen_y t, cursor_x := cursor_x t, cursor_y := cursor_y t\<rparr>"
    by (subst t) simp
  then show ?thesis using assms by (simp add: console_frame_def)
qed

lemma terminal_write_fold:
  assumes "task_screen_ok P s" and "buffer_holds P s a bs" and "0x08 \<notin> set bs" and "a \<noteq> 0" and "length bs < 2 ^ 31"
  shows "terminal_write a (of_nat (length bs)) s = (of_nat (length bs), (fold putc bs (cli s))\<lparr>eflags := eflags s\<rparr>)"
    "task_screen_ok P (cli s)" "df_clear s"
proof -
  have n: "unat (of_nat (length bs) :: u32) = length bs" using assms(5) by (simp add: unat_of_nat take_bit_nat_eq_self)
  then have pos: "\<not> slt (of_nat (length bs)) 0" using assms(5) by (simp add: slt_unat)
  let ?c = "cli s"
  have df: "df_clear ?c" "df_clear s"
  proof -
    show "df_clear s" using assms(1) by (simp add: task_screen_ok_def)
    have "(eflags s AND NOT IF_MASK) AND DF_MASK = (eflags s AND DF_MASK) AND NOT IF_MASK" by (simp add: ac_simps)
    also have "\<dots> = 0" using \<open>df_clear s\<close> by (simp add: df_clear_def)
    finally show "df_clear ?c" by (simp add: df_clear_def)
  qed
  show "df_clear s" by (rule df(2))
  show c: "task_screen_ok P ?c"
    using assms(1) df(1) by (simp add: task_screen_ok_def task_view_def linear_def cli_def wf_kernel_def)
  have "buffer_holds P ?c a bs" using assms(2) by (simp add: buffer_holds_def rd8_def cli_def)
  from write_loop_puts [OF c this assms(3)]
  show "terminal_write a (of_nat (length bs)) s = (of_nat (length bs), (fold putc bs ?c)\<lparr>eflags := eflags s\<rparr>)"
    using assms(4) pos n by (simp add: terminal_write_def cli_and_save_def restore_flags_def)
qed

lemma terminal_write_shows:
  assumes "task_screen_ok P s" and "buffer_holds P s a bs" and "0x08 \<notin> set bs" and "a \<noteq> 0" and "length bs < 2 ^ 31"
  shows "\<exists>s'. terminal_write a (of_nat (length bs)) s = (of_nat (length bs), s')
    \<and> task_view P s' = fold spec_putc bs (task_view P s) \<and> task_screen_ok P s' \<and> console_frame P s s'"
proof -
  note w = terminal_write_fold [OF assms]
  define t where "t = fold putc bs (cli s)"
  note p = task_console.put_all [OF w(2) erasable_all_plain [OF assms(3)], folded t_def]
  have f: "console_frame P s (t\<lparr>eflags := eflags s\<rparr>)"
    using p(3) by (intro console_frame_flags [where f = "eflags s AND NOT IF_MASK"]) (simp add: cli_def)
  have "task_view P (t\<lparr>eflags := eflags s\<rparr>) = fold spec_putc bs (task_view P s)"
    using p(2) by (simp add: task_view_def cli_def)
  moreover have "task_screen_ok P (t\<lparr>eflags := eflags s\<rparr>)"
    using p(1) w(3) by (simp add: task_screen_ok_def task_view_def linear_def wf_kernel_def df_clear_def)
  ultimately show ?thesis using w(1) f by (simp add: t_def)
qed

lemma write_call_shows:
  assumes "task_screen_ok P s" and "fd_in_use (current_fds s ! 1)" and "file_ops (current_fds s ! 1) = std_out_fops"
    and "buffer_holds P s a bs" and "0x08 \<notin> set bs" and "a \<noteq> 0" and "length bs < 2 ^ 31"
  shows "\<exists>s'. sys_write e 1 a (of_nat (length bs)) s = Some (of_nat (length bs), s')
    \<and> task_view P s' = fold spec_putc bs (task_view P s) \<and> task_screen_ok P s' \<and> console_frame P s s'"
proof -
  have "unat (of_nat (length bs) :: u32) = length bs" using assms(7) by (simp add: unat_of_nat take_bit_nat_eq_self)
  then have "\<not> slt (of_nat (length bs)) 0" using assms(7) by (simp add: slt_unat)
  then have "sys_write e 1 a (of_nat (length bs)) s = Some (terminal_write a (of_nat (length bs)) s)"
    using assms(2,3,6) by (simp add: sys_write_def fd_in_use_def)
  then show ?thesis using terminal_write_shows [OF assms(1,4-7)] by auto
qed

text \<open>What a process writes to descriptor 1 is shown: \<open>sys_write\<close> returns the number of bytes, and the
  screen of the task is the one that putting the bytes one after the other gives, with its wrapping and
  scrolling; nothing but the screen, the cursor and their bookkeeping has changed, interrupts are as they were.\<close>

theorem sys_write_shows:
  assumes "task_screen_ok P s" and "fd_in_use (current_fds s ! 1)" and "file_ops (current_fds s ! 1) = std_out_fops"
    and "buffer_holds P s a bs" and "0x08 \<notin> set bs" and "a \<noteq> 0" and "length bs < 2 ^ 31"
  shows "\<exists>s'. sys_write e 1 a (of_nat (length bs)) s = Some (of_nat (length bs), s')
    \<and> task_view P s' = fold spec_putc bs (task_view P s) \<and> task_screen_ok P s' \<and> console_frame P s s'"
  using assms by (rule write_call_shows)

text \<open>A process of the concrete kernel with its terminal open, and a buffer with the text \<open>Hi\<close>.\<close>

definition writer_pcb :: pcb where
  "writer_pcb = sample_pcb\<lparr>fd_array := (replicate FD_ARRAY_SIZE empty_fd)
     [0 := empty_fd\<lparr>file_ops := std_in_fops, fd_flags := FD_IN_USE\<rparr>, 1 := empty_fd\<lparr>file_ops := std_out_fops, fd_flags := FD_IN_USE\<rparr>]\<rparr>"

definition writer_kernel :: kstate where
  "writer_kernel = sample_kernel\<lparr>mem := (\<lambda>a. if a = 0x8048000 then 0x48 else if a = 0x8048001 then 0x69 else 0), pcbs := \<lambda>_. writer_pcb\<rparr>"

lemma writer_kernel_facts:
  "task_screen_ok VIDEO writer_kernel" "fd_in_use (current_fds writer_kernel ! 1)" "file_ops (current_fds writer_kernel ! 1) = std_out_fops"
  "buffer_holds VIDEO writer_kernel 0x8048000 [0x48, 0x69]" "length (current_fds writer_kernel) = 8"
proof -
  have "wf_kernel writer_kernel" by (rule wf_kernel_cong [OF sample_kernel_wf]) (simp_all add: writer_kernel_def)
  moreover have "df_clear writer_kernel" by (simp add: writer_kernel_def df_clear_def IF_MASK_def DF_MASK_def)
  ultimately show "task_screen_ok VIDEO writer_kernel"
    by (simp add: task_screen_ok_def writer_kernel_def linear_def task_view_def view_of_def scr_ok_def)
  show "fd_in_use (current_fds writer_kernel ! 1)" "file_ops (current_fds writer_kernel ! 1) = std_out_fops"
    "length (current_fds writer_kernel) = 8"
    by (simp_all add: current_fds_def writer_kernel_def writer_pcb_def fd_in_use_def)
  show "buffer_holds VIDEO writer_kernel 0x8048000 [0x48, 0x69]"
    by (auto simp: buffer_holds_def writer_kernel_def rd8_def within_def less_Suc_eq)
qed

theorem sys_write_shows_witness:
  "\<exists>s'. sys_write sample_env 1 0x8048000 2 writer_kernel = Some (2, s')
     \<and> cells (task_view VIDEO s') ! 0 = (0x48, ATTRIB) \<and> cells (task_view VIDEO s') ! 1 = (0x69, ATTRIB) \<and> scr_x (task_view VIDEO s') = 2"
proof -
  obtain s' where s': "sys_write sample_env 1 0x8048000 2 writer_kernel = Some (2, s')"
    "task_view VIDEO s' = fold spec_putc [0x48, 0x69] (task_view VIDEO writer_kernel)"
    using sys_write_shows [OF writer_kernel_facts(1-4), of sample_env] by auto
  have "scr_x (task_view VIDEO writer_kernel) = 0" "scr_y (task_view VIDEO writer_kernel) = 0"
    "length (cells (task_view VIDEO writer_kernel)) = 2000"
    by (simp_all add: writer_kernel_def task_view_def view_of_def)
  then show ?thesis using s' by (simp add: spec_putc_def spec_draw_def Let_def)
qed

end
