(* ===== verification/User_Kernel.thy ===== *)
theory User_Kernel
  imports Grep Screen_Write
begin

text \<open>
  User programs on the kernel: the machine behind the system call library is the kernel's model. The
  wrappers of \<^verbatim>\<open>syscalls/tmntsyscall.S\<close> put the arguments into registers and raise interrupt
  0x80; the buffers of a call lie at the address \<open>ubuf\<close> in the page of the process. The kernel is shown to
  be a console for its programs, and with a file system driver behind it the interface of \<open>file_os\<close>, so the
  theorems on programs hold on the kernel.
\<close>

subsection \<open>The system calls as a program sees them\<close>

text \<open>The handler of interrupt 0x80 and the file system are not among the source files. \<open>waits\<close> gives the interrupts
  that arrive while a call waits in a state, \<open>child\<close> runs a program that was started up to its halt.\<close>

record user_env =
  kenv :: env
  waits :: "kstate \<Rightarrow> (kstate \<Rightarrow> kstate) list"
  child :: "kstate \<Rightarrow> (u8 \<times> kstate) option"
  dispatch :: "u32 \<Rightarrow> kstate \<Rightarrow> (u32 \<times> kstate) option"
  ubuf :: u32

definition mem_bytes :: "kstate \<Rightarrow> u32 \<Rightarrow> nat \<Rightarrow> u8 list" where
  "mem_bytes s a n = map (\<lambda>i. rd8 s (a + of_nat i)) [0..<n]"

definition kernel_execute :: "user_env \<Rightarrow> u8 list \<Rightarrow> kstate \<Rightarrow> (u32 \<times> kstate) option" where
  "kernel_execute u c s =
     do { (t, s) \<leftarrow> sys_execute (kenv u) (Some (c @ [0])) s;
          (case t of
             Return r \<Rightarrow> Some (r, s)
           | Iret _ _ _ _ _ \<Rightarrow> do { (status, s) \<leftarrow> child u s;
                                   (t, s) \<leftarrow> sys_halt (kenv u) status s;
                                   (case t of Leave_ret v \<Rightarrow> Some (v, s) | _ \<Rightarrow> None) }
           | Leave_ret _ \<Rightarrow> None) }"

definition kernel_read :: "user_env \<Rightarrow> u32 \<Rightarrow> nat \<Rightarrow> kstate \<Rightarrow> (u32 \<times> u8 list \<times> kstate) option" where
  "kernel_read u fd n s =
     do { (r, s') \<leftarrow> sys_read (kenv u) (waits u s) fd (ubuf u) (of_nat n) s;
          Some (r, mem_bytes s' (ubuf u) (if slt r 0 then 0 else unat r), s') }"

definition kernel_write :: "user_env \<Rightarrow> u32 \<Rightarrow> u8 list \<Rightarrow> kstate \<Rightarrow> (u32 \<times> kstate) option" where
  "kernel_write u fd bs s = sys_write (kenv u) fd (ubuf u) (of_nat (length bs)) (store_bytes bs (ubuf u) s)"

definition kernel_getargs :: "user_env \<Rightarrow> nat \<Rightarrow> kstate \<Rightarrow> (u32 \<times> u8 list \<times> kstate) option" where
  "kernel_getargs u n s =
     do { (r, s') \<leftarrow> sys_getargs (ubuf u) (of_nat n) s;
          let bs = mem_bytes s' (ubuf u) n;
          Some (r, if r \<noteq> 0 then [] else if 0 \<in> set bs then takeWhile (\<lambda>c. c \<noteq> 0) bs @ [0] else bs, s') }"

definition kernel_os :: "user_env \<Rightarrow> kstate os" where
  "kernel_os u = \<lparr>os_execute = kernel_execute u, os_read = kernel_read u, os_write = kernel_write u,
     os_open = \<lambda>name s. Some (sys_open (kenv u) (Some (name @ [0])) s), os_close = \<lambda>fd s. Some (sys_close fd s),
     os_getargs = kernel_getargs u, os_vidmap = \<lambda>p s. Some (sys_vidmap p s),
     os_set_handler = \<lambda>n h s. Some (sys_set_handler n h s), os_sigreturn = \<lambda>s. Some (sys_sigreturn s), os_call = dispatch u\<rparr>"

subsection \<open>A process that can run\<close>

text \<open>The screen of its task is at \<open>P\<close>, its buffer at the physical address \<open>q\<close>, descriptor 1 is its
  terminal, and its arguments end.\<close>

definition user_ok :: "user_env \<Rightarrow> u32 \<Rightarrow> u32 \<Rightarrow> kstate \<Rightarrow> bool" where
  "user_ok u P q s \<longleftrightarrow> task_screen_ok P s \<and> linear s (ubuf u) q 1100 \<and> (\<forall>k<1100. \<not> within (q + of_nat k) P 4000)
     \<and> VIRTUAL_BEGIN \<le> ubuf u \<and> ubuf u \<le> VIRTUAL_END \<and> length (current_fds s) = FD_ARRAY_SIZE
     \<and> fd_in_use (current_fds s ! 1) \<and> file_ops (current_fds s ! 1) = std_out_fops
     \<and> 0 \<in> set (args (pcbs s (CURRENT_PCB_ADDRESS s))) \<and> length (args (pcbs s (CURRENT_PCB_ADDRESS s))) = MAX_ARG_SIZE"

definition same_process :: "kstate \<Rightarrow> kstate \<Rightarrow> bool" where
  "same_process s s' \<longleftrightarrow> pcbs s' = pcbs s \<and> global_pid s' = global_pid s"

lemma same_process_fds: "same_process s s' \<Longrightarrow> current_fds s' = current_fds s"
  by (simp add: same_process_def current_fds_def CURRENT_PCB_ADDRESS_def)

lemma store_bytes_mem:
  assumes "linear s a q n" and "length bs \<le> n" and "\<And>k. k < n \<Longrightarrow> x \<noteq> q + of_nat k"
  shows "mem (store_bytes bs a s) x = mem s x"
  using assms(2)
proof (induction bs rule: rev_induct)
  case (snoc b bs)
  then have "mmu s (a + of_nat (length bs)) = q + of_nat (length bs)" using assms(1) by (intro linearD) auto
  moreover have "q + of_nat (length bs) \<noteq> x" using assms(3) [of "length bs"] snoc.prems by auto
  ultimately show ?case using snoc by (simp add: store_bytes_snoc wr8_def)
qed simp

lemma screen_cells_cong: "(\<And>x. within x P 4000 \<Longrightarrow> m' x = m x) \<Longrightarrow> screen_cells P m' = screen_cells P m"
  by (rule nth_equalityI) (simp_all add: nth_screen_cells within_def unat_of_nat take_bit_nat_eq_self del: of_nat_mult of_nat_add of_nat_Suc)

lemma user_ok_store:
  assumes "user_ok u P q s" and "length bs \<le> 1100"
  shows "user_ok u P q (store_bytes bs (ubuf u) s)" "task_view P (store_bytes bs (ubuf u) s) = task_view P s"
    "same_process s (store_bytes bs (ubuf u) s)" "i < length bs \<Longrightarrow> rd8 (store_bytes bs (ubuf u) s) (ubuf u + of_nat i) = bs ! i"
proof -
  let ?s = "store_bytes bs (ubuf u) s"
  have lin: "linear s (ubuf u) q 1100" and off: "\<forall>k<1100. \<not> within (q + of_nat k) P 4000" using assms(1) by (simp_all add: user_ok_def)
  note k = kfields_more [OF store_bytes_fields(2) [of bs "ubuf u" s]]
  have "mem ?s x = mem s x" if "within x P 4000" for x
    using off that by (intro store_bytes_mem [OF lin assms(2)]) metis
  then have c: "screen_cells P (mem ?s) = screen_cells P (mem s)" by (intro screen_cells_cong) simp
  then show v: "task_view P ?s = task_view P s" by (simp add: task_view_def view_of_def k)
  show p: "same_process s ?s" by (simp add: same_process_def k)
  have "wf_kernel ?s" by (rule wf_kernel_cong [of s]) (use assms(1) in \<open>simp_all add: user_ok_def task_screen_ok_def k\<close>)
  then show "user_ok u P q ?s"
    using assms(1) v same_process_fds [OF p]
    by (simp add: user_ok_def task_screen_ok_def df_clear_def linear_def k CURRENT_PCB_ADDRESS_def)
  show "rd8 ?s (ubuf u + of_nat i) = bs ! i" if "i < length bs"
    using rd8_store_bytes [of s "ubuf u" q bs i] lin assms(2) that by (simp add: linear_def)
qed

lemma user_ok_same:
  assumes "user_ok u P q s" and "task_screen_ok P s'" and "same_process s s'" and "mmu s' = mmu s"
  shows "user_ok u P q s'"
  using assms same_process_fds [OF assms(3)] by (simp add: user_ok_def linear_def same_process_def CURRENT_PCB_ADDRESS_def)

interpretation kernel_console: console_os "kernel_os u" "user_ok u P q" "task_view P" "\<lambda>bs. fold spec_putc bs" same_process for u P q
proof (unfold_locales, goal_cases)
  case (3 s bs)
  let ?s = "store_bytes bs (ubuf u) s"
  note o = user_ok_store [OF 3(1), of bs]
  have ok: "user_ok u P q ?s" using o(1) 3(3) by simp
  have f: "fd_in_use (current_fds ?s ! 1)" "file_ops (current_fds ?s ! 1) = std_out_fops" "task_screen_ok P ?s" "ubuf u \<noteq> 0"
    using ok by (auto simp: user_ok_def)
  have lin: "linear ?s (ubuf u) q 1100" and off: "\<forall>k<1100. \<not> within (q + of_nat k) P 4000" using ok by (simp_all add: user_ok_def)
  have "mmu ?s (ubuf u + of_nat i) = q + of_nat i" if "i < length bs" for i
    using lin that 3(3) by (simp add: linear_def)
  then have "buffer_holds P ?s (ubuf u) bs" using o(4) off 3(3) by (auto simp: buffer_holds_def)
  from write_call_shows [OF f(3,1,2) this 3(2) f(4), of "kenv u"] 3(3)
  obtain s' where s': "sys_write (kenv u) 1 (ubuf u) (of_nat (length bs)) ?s = Some (of_nat (length bs), s')"
    "task_view P s' = fold spec_putc bs (task_view P ?s)" "task_screen_ok P s'" "console_frame P ?s s'" by auto
  have p: "same_process ?s s'" using console_frame_fields [OF s'(4)] by (simp add: same_process_def)
  then have "user_ok u P q s'" by (rule user_ok_same [OF ok s'(3)]) (rule console_frame_fields(1) [OF s'(4)])
  moreover have "same_process s s'" using p o(3) 3(3) by (simp add: same_process_def)
  ultimately show ?case using s'(1,2) o(2) 3(3) by (simp add: kernel_os_def kernel_write_def)
qed (simp_all add: same_process_def)

subsection \<open>Files\<close>

text \<open>What the driver of the clock may change: its own variables, the fields of the PCBs that it keeps there, and
  ports.\<close>

definition forget_rtc :: "pcb \<Rightarrow> pcb" where
  "forget_rtc p = p\<lparr>rtc_freq := 0, rtc_interrupt_occurred := 0\<rparr>"

definition rtc_frame :: "kstate \<Rightarrow> kstate \<Rightarrow> bool" where
  "rtc_frame s s' \<longleftrightarrow> (\<forall>a. forget_rtc (pcbs s' a) = forget_rtc (pcbs s a))
     \<and> s' = s\<lparr>pcbs := pcbs s', io := io s', virtual_frequency := virtual_frequency s',
              rtc_virtual_interrupt_counter := rtc_virtual_interrupt_counter s'\<rparr>"

lemma rtc_frame_fields:
  assumes "rtc_frame s s'"
  shows "mem s' = mem s" "mmu s' = mmu s" "eflags s' = eflags s" "terminals s' = terminals s" "tasks s' = tasks s"
    "active_terminal s' = active_terminal s" "current_task s' = current_task s" "pid_availability s' = pid_availability s"
    "screen_x s' = screen_x s" "screen_y s' = screen_y s" "global_pid s' = global_pid s"
proof -
  obtain p i v c where s': "s' = s\<lparr>pcbs := p, io := i, virtual_frequency := v, rtc_virtual_interrupt_counter := c\<rparr>"
    using assms unfolding rtc_frame_def by blast
  show "mem s' = mem s" "mmu s' = mmu s" "eflags s' = eflags s" "terminals s' = terminals s" "tasks s' = tasks s"
    "active_terminal s' = active_terminal s" "current_task s' = current_task s" "pid_availability s' = pid_availability s"
    "screen_x s' = screen_x s" "screen_y s' = screen_y s" "global_pid s' = global_pid s"
    by (simp_all add: s')
qed

lemma rtc_frame_process:
  assumes "rtc_frame s s'"
  shows "fd_array (pcbs s' a) = fd_array (pcbs s a)" "args (pcbs s' a) = args (pcbs s a)" "current_fds s' = current_fds s"
proof -
  have "forget_rtc (pcbs s' a) = forget_rtc (pcbs s a)" for a using assms by (simp add: rtc_frame_def)
  then have f: "fd_array (forget_rtc (pcbs s' a)) = fd_array (forget_rtc (pcbs s a))" "args (forget_rtc (pcbs s' a)) = args (forget_rtc (pcbs s a))" for a
    by simp_all
  then show "fd_array (pcbs s' a) = fd_array (pcbs s a)" "args (pcbs s' a) = args (pcbs s a)" by (simp_all add: forget_rtc_def)
  show "current_fds s' = current_fds s"
    using f rtc_frame_fields [OF assms] by (simp add: current_fds_def CURRENT_PCB_ADDRESS_def forget_rtc_def)
qed

text \<open>A file system: the inode of each file, the bytes of each inode, the names under which the directory lists the
  clock, the names of the directory. The driver reads a file from the position of the descriptor on and advances it;
  reading the directory gives one name, and at its end 0, where the driver may do what it likes with that
  descriptor (it may close it). A clock is read as an empty file.\<close>

record disk =
  dfiles :: "u8 list \<Rightarrow> u32 option"
  ddata :: "u32 \<Rightarrow> u8 list"
  ddevs :: "u8 list list"
  dnames :: "u8 list list"

definition advance :: "u32 \<Rightarrow> u32 \<Rightarrow> u32 \<Rightarrow> u8 list \<Rightarrow> kstate \<Rightarrow> kstate" where
  "advance fd n buf bs s = upd_fd (unat fd) (\<lambda>d. d\<lparr>position := position d + n\<rparr>) (store_bytes bs buf s)"

definition device_driver :: "env \<Rightarrow> u8 list \<Rightarrow> bool" where
  "device_driver e f \<longleftrightarrow> (\<forall>s. read_dentry_by_name e (Some (f @ [0])) s = (0, FILETYPE_RTC))
     \<and> (\<forall>s. rtc_frame s (snd (open_rtc e (Some (f @ [0])) s)))
     \<and> (\<forall>fd buf n s. \<exists>s'. read_rtc e fd buf n s = Some (0, s') \<and> rtc_frame s s')"

definition file_driver :: "env \<Rightarrow> disk \<Rightarrow> bool" where
  "file_driver e k \<longleftrightarrow>
     (\<forall>f i s. dfiles k f = Some i \<longrightarrow> read_dentry_by_name e (Some (f @ [0])) s = (0, FILETYPE_FILE) \<and> open_file e (Some (f @ [0])) s = (i, s))
   \<and> (\<forall>f\<in>set (ddevs k). dfiles k f = None \<and> device_driver e f)
   \<and> (\<forall>f s. f \<noteq> [0x2E] \<and> dfiles k f = None \<and> f \<notin> set (ddevs k) \<longrightarrow> fst (read_dentry_by_name e (Some (f @ [0])) s) = - 1)
   \<and> (\<forall>s. read_dentry_by_name e (Some [0x2E, 0]) s = (0, FILETYPE_DIRECTORY)) \<and> (\<forall>s. open_directory e (Some [0x2E, 0]) s = (0, s))
   \<and> (\<forall>fd buf n s. read_file e fd buf n s =
        (let d = current_fds s ! unat fd; bs = take (unat n) (drop (unat (position d)) (ddata k (inode d)))
         in Some (of_nat (length bs), advance fd (of_nat (length bs)) buf bs s)))
   \<and> (\<forall>fd buf s. let pos = unat (position (current_fds s ! unat fd))
        in if pos < length (dnames k)
           then read_directory e fd buf 32 s = Some (of_nat (length (dnames k ! pos)), advance fd 1 buf (dnames k ! pos) s)
           else \<exists>f. read_directory e fd buf 32 s = Some (0, upd_fd (unat fd) f s))
   \<and> (\<forall>i. length (ddata k i) < 2 ^ 31) \<and> length (dnames k) < 2 ^ 31
   \<and> (\<forall>f\<in>set (dnames k). f \<noteq> [] \<and> length f \<le> 32 \<and> 0 \<notin> set f \<and> 0x08 \<notin> set f)"

definition open_as :: "kstate \<Rightarrow> u32 \<Rightarrow> fops \<Rightarrow> bool" where
  "open_as s fd ops \<longleftrightarrow> 2 \<le> unat fd \<and> unat fd < 8 \<and> fd_in_use (current_fds s ! unat fd) \<and> file_ops (current_fds s ! unat fd) = ops"

definition fd_rest :: "disk \<Rightarrow> fd_entry \<Rightarrow> u8 list option" where
  "fd_rest k d = (if fd_in_use d \<and> file_ops d = file_fops then Some (drop (unat (position d)) (ddata k (inode d)))
     else if fd_in_use d \<and> file_ops d = rtc_fops \<and> ddevs k \<noteq> [] then Some [] else None)"

definition fd_dir :: "disk \<Rightarrow> fd_entry \<Rightarrow> u8 list list option" where
  "fd_dir k d = (if fd_in_use d \<and> file_ops d = directory_fops then Some (drop (unat (position d)) (dnames k)) else None)"

definition kernel_rest :: "disk \<Rightarrow> kstate \<Rightarrow> u32 \<Rightarrow> u8 list option" where
  "kernel_rest k s fd = (if 2 \<le> unat fd \<and> unat fd < 8 then fd_rest k (current_fds s ! unat fd) else None)"

definition kernel_dir :: "disk \<Rightarrow> kstate \<Rightarrow> u32 \<Rightarrow> u8 list list option" where
  "kernel_dir k s fd = (if 2 \<le> unat fd \<and> unat fd < 8 then fd_dir k (current_fds s ! unat fd) else None)"

definition kernel_room :: "kstate \<Rightarrow> nat" where
  "kernel_room s = card {i. 2 \<le> i \<and> i < 8 \<and> \<not> fd_in_use (current_fds s ! i)}"

definition kernel_args :: "kstate \<Rightarrow> u8 list" where
  "kernel_args s = takeWhile (\<lambda>c. c \<noteq> 0) (args (pcbs s (CURRENT_PCB_ADDRESS s)))"

definition kernel_content :: "disk \<Rightarrow> u8 list \<Rightarrow> u8 list option" where
  "kernel_content k f = (if f \<in> set (ddevs k) then Some [] else map_option (ddata k) (dfiles k f))"

lemma kernel_restD:
  assumes "kernel_rest k s fd = Some bs"
  obtains "open_as s fd file_fops" "bs = drop (unat (position (current_fds s ! unat fd))) (ddata k (inode (current_fds s ! unat fd)))"
  | "open_as s fd rtc_fops" "bs = []" "ddevs k \<noteq> []"
  using assms by (auto simp: kernel_rest_def fd_rest_def open_as_def split: if_splits)

lemma kernel_rest_open:
  assumes "kernel_rest k s fd = Some bs"
  shows "\<exists>ops. open_as s fd ops" "kernel_dir k s fd = None"
  using assms by (auto simp: kernel_rest_def fd_rest_def kernel_dir_def fd_dir_def open_as_def split: if_splits)

lemma kernel_dirD:
  assumes "kernel_dir k s fd = Some ns"
  shows "open_as s fd directory_fops" "ns = drop (unat (position (current_fds s ! unat fd))) (dnames k)" "kernel_rest k s fd = None"
  using assms by (auto simp: kernel_dir_def fd_dir_def kernel_rest_def fd_rest_def open_as_def split: if_splits)

lemma kernel_files_cong:
  assumes "current_fds s' = current_fds s"
  shows "kernel_rest k s' = kernel_rest k s" "kernel_dir k s' = kernel_dir k s" "kernel_room s' = kernel_room s"
  using assms by (simp_all add: fun_eq_iff kernel_rest_def kernel_dir_def kernel_room_def)

lemma user_ok_rtc:
  assumes "user_ok u P q s" and "rtc_frame s s'"
  shows "user_ok u P q s'" "task_view P s' = task_view P s" "open_as s' fd ops = open_as s fd ops"
proof -
  note f = rtc_frame_fields [OF assms(2)] and p = rtc_frame_process [OF assms(2)]
  have c: "CURRENT_PCB_ADDRESS s' = CURRENT_PCB_ADDRESS s" by (simp add: CURRENT_PCB_ADDRESS_def f)
  show v: "task_view P s' = task_view P s" by (simp add: task_view_def f)
  have "wf_kernel s' = wf_kernel s" by (simp add: wf_kernel_def f)
  then show "user_ok u P q s'"
    using assms(1) v by (simp add: user_ok_def task_screen_ok_def linear_def df_clear_def f p c)
  show "open_as s' fd ops = open_as s fd ops" by (simp add: open_as_def p)
qed

lemma user_ok_upd_fd:
  assumes "user_ok u P q s" and "2 \<le> i"
  shows "user_ok u P q (upd_fd i f s)" "task_view P (upd_fd i f s) = task_view P s"
proof -
  have v: "task_view P (upd_fd i f s) = task_view P s" by (simp add: upd_fd_def task_view_def upd_pcb_def)
  then show "task_view P (upd_fd i f s) = task_view P s" .
  have "wf_kernel (upd_fd i f s) = wf_kernel s" by (simp add: wf_kernel_def upd_fd_def upd_pcb_def)
  then have "task_screen_ok P (upd_fd i f s)"
    using assms(1) v by (simp add: user_ok_def task_screen_ok_def linear_def df_clear_def upd_fd_def)
  then show "user_ok u P q (upd_fd i f s)"
    using assms by (simp add: user_ok_def linear_def) (simp add: upd_fd_def CURRENT_PCB_ADDRESS_def)
qed

lemma user_ok_advance:
  assumes "user_ok u P q s" and "2 \<le> unat fd" and "length bs \<le> 1100"
  shows "user_ok u P q (advance fd n (ubuf u) bs s)" "task_view P (advance fd n (ubuf u) bs s) = task_view P s"
    "mem_bytes (advance fd n (ubuf u) bs s) (ubuf u) (length bs) = bs"
    "current_fds (advance fd n (ubuf u) bs s) = (current_fds s)[unat fd := (current_fds s ! unat fd)\<lparr>position := position (current_fds s ! unat fd) + n\<rparr>]"
proof -
  note o = user_ok_store [OF assms(1,3)]
  show "user_ok u P q (advance fd n (ubuf u) bs s)" "task_view P (advance fd n (ubuf u) bs s) = task_view P s"
    using user_ok_upd_fd [OF o(1) assms(2)] o(2) by (simp_all add: advance_def)
  show "mem_bytes (advance fd n (ubuf u) bs s) (ubuf u) (length bs) = bs"
    using o(4) by (intro nth_equalityI) (simp_all add: mem_bytes_def advance_def rd8_def upd_fd_def)
  show "current_fds (advance fd n (ubuf u) bs s) = (current_fds s)[unat fd := (current_fds s ! unat fd)\<lparr>position := position (current_fds s ! unat fd) + n\<rparr>]"
    using same_process_fds [OF o(3)] by (simp add: advance_def)
qed

text \<open>Descriptors after one of them has changed.\<close>

lemma open_as_upd:
  assumes "current_fds s' = (current_fds s)[i := d]" and "i < 8" and "length (current_fds s) = 8"
  shows "open_as s' fd ops \<longleftrightarrow> (if unat fd = i then 2 \<le> i \<and> fd_in_use d \<and> file_ops d = ops else open_as s fd ops)"
  using assms by (auto simp: open_as_def)

lemma unat_fd: "i < 8 \<Longrightarrow> unat (fd :: u32) = i \<longleftrightarrow> fd = of_nat i"
  using small_fd(1) [of i] by (auto simp: word_unat_eq_iff)

lemma kernel_rest_upd:
  assumes "current_fds s' = (current_fds s)[i := d]" and "2 \<le> i" and "i < 8" and "length (current_fds s) = 8"
  shows "kernel_rest k s' = (kernel_rest k s)(of_nat i := fd_rest k d)" "kernel_dir k s' = (kernel_dir k s)(of_nat i := fd_dir k d)"
proof -
  have "kernel_rest k s' fd = ((kernel_rest k s)(of_nat i := fd_rest k d)) fd \<and> kernel_dir k s' fd = ((kernel_dir k s)(of_nat i := fd_dir k d)) fd" for fd
  proof (cases "unat fd = i")
    case True
    then have fd: "fd = of_nat i" using unat_fd [OF assms(3)] by simp
    have "current_fds s' ! unat fd = d" using True assms by simp
    then show ?thesis using True assms(2,3) by (simp add: kernel_rest_def kernel_dir_def fd)
  next
    case False
    then have fd: "fd \<noteq> of_nat i" using small_fd(1) [OF assms(3)] by auto
    have "current_fds s' ! unat fd = current_fds s ! unat fd" using False assms(1) by simp
    then show ?thesis using fd by (simp add: kernel_rest_def kernel_dir_def)
  qed
  then show "kernel_rest k s' = (kernel_rest k s)(of_nat i := fd_rest k d)" "kernel_dir k s' = (kernel_dir k s)(of_nat i := fd_dir k d)"
    by (intro ext, blast)+
qed

lemma kernel_room_upd:
  assumes "current_fds s' = (current_fds s)[i := d]" and "2 \<le> i" and "i < 8" and "length (current_fds s) = 8"
  shows "fd_in_use d = fd_in_use (current_fds s ! i) \<Longrightarrow> kernel_room s' = kernel_room s"
    "fd_in_use d \<Longrightarrow> \<not> fd_in_use (current_fds s ! i) \<Longrightarrow> kernel_room s' = kernel_room s - 1"
    "\<not> fd_in_use d \<Longrightarrow> fd_in_use (current_fds s ! i) \<Longrightarrow> kernel_room s' = kernel_room s + 1"
proof -
  let ?F = "{j. 2 \<le> j \<and> j < 8 \<and> \<not> fd_in_use (current_fds s ! j)}"
  have fin: "finite ?F" by simp
  have n: "fd_in_use (current_fds s' ! j) \<longleftrightarrow> (if j = i then fd_in_use d else fd_in_use (current_fds s ! j))" if "j < 8" for j
    using assms that by (simp add: nth_list_update)
  show "fd_in_use d = fd_in_use (current_fds s ! i) \<Longrightarrow> kernel_room s' = kernel_room s"
    unfolding kernel_room_def by (rule arg_cong [where f = card]) (auto simp: n split: if_splits)
  assume d: "fd_in_use d" "\<not> fd_in_use (current_fds s ! i)"
  then have "{j. 2 \<le> j \<and> j < 8 \<and> \<not> fd_in_use (current_fds s' ! j)} = ?F - {i}" by (auto simp: n split: if_splits)
  then show "kernel_room s' = kernel_room s - 1" unfolding kernel_room_def using d assms(2,3) by (simp add: card_Diff_singleton)
next
  let ?F = "{j. 2 \<le> j \<and> j < 8 \<and> \<not> fd_in_use (current_fds s ! j)}"
  have n: "fd_in_use (current_fds s' ! j) \<longleftrightarrow> (if j = i then fd_in_use d else fd_in_use (current_fds s ! j))" if "j < 8" for j
    using assms that by (simp add: nth_list_update)
  assume d: "\<not> fd_in_use d" "fd_in_use (current_fds s ! i)"
  then have "{j. 2 \<le> j \<and> j < 8 \<and> \<not> fd_in_use (current_fds s' ! j)} = insert i ?F" using assms(2,3) by (auto simp: n split: if_splits)
  then show "kernel_room s' = kernel_room s + 1" unfolding kernel_room_def using d by simp
qed

lemma free_fd_free: "free_fd fds k = Some i \<Longrightarrow> \<not> fd_in_use (fds ! i)"
proof (induction fds k rule: free_fd.induct)
  case (1 fds k)
  from 1(2) show ?case by (subst (asm) free_fd.simps) (auto split: if_splits dest!: 1(1))
qed

lemma room_free_fd:
  assumes "0 < kernel_room s"
  shows "\<exists>i. free_fd (current_fds s) 2 = Some i \<and> 2 \<le> i \<and> i < 8 \<and> \<not> fd_in_use (current_fds s ! i)"
proof (cases "free_fd (current_fds s) 2")
  case None
  have "{i. 2 \<le> i \<and> i < 8 \<and> \<not> fd_in_use (current_fds s ! i)} \<noteq> {}"
  proof
    assume e: "{i. 2 \<le> i \<and> i < 8 \<and> \<not> fd_in_use (current_fds s ! i)} = {}"
    have "kernel_room s = 0" unfolding kernel_room_def e by simp
    then show False using assms by simp
  qed
  then obtain j where j: "2 \<le> j" "j < 8" "\<not> fd_in_use (current_fds s ! j)" by auto
  define Q where "Q j \<longleftrightarrow> 2 \<le> j \<and> \<not> fd_in_use (current_fds s ! j)" for j
  define m where "m = (LEAST j. Q j)"
  have "Q j" using j by (simp add: Q_def)
  then have "Q m" "m \<le> j" unfolding m_def by (rule LeastI, rule Least_le)
  moreover have "\<not> Q i" if "i < m" for i using that unfolding m_def by (rule not_less_Least)
  ultimately have m: "2 \<le> m" "\<not> fd_in_use (current_fds s ! m)" "m \<le> j" "\<And>i. 2 \<le> i \<Longrightarrow> i < m \<Longrightarrow> fd_in_use (current_fds s ! i)"
    unfolding Q_def by blast+
  have "free_fd (current_fds s) 2 = Some m" using m j(2) by (intro free_fd_Some) auto
  then show ?thesis using None by simp
next
  case (Some i)
  then show ?thesis using free_fd_bound [OF Some] free_fd_free [OF Some] by simp
qed

subsection \<open>The kernel offers files\<close>

lemma open_asD:
  assumes "open_as s fd ops"
  shows "2 \<le> unat fd" "unat fd < 8" "fd_in_use (current_fds s ! unat fd)" "file_ops (current_fds s ! unat fd) = ops" "of_nat (unat fd) = fd"
  using assms by (simp_all add: open_as_def)

lemma sys_read_open:
  assumes "open_as s fd ops" and "n < 2 ^ 31" and "buf \<noteq> 0"
  shows "sys_read e irqs fd buf (of_nat n) s = fops_read e irqs ops fd buf (of_nat n) s"
proof -
  note o = open_asD [OF assms(1)]
  have "\<not> (slt fd (of_nat FIRST_FD) \<or> slt (of_nat FD_ARRAY_SIZE - 1) fd)" unfolding fd_range using o(1,2) by simp
  moreover have "unat (of_nat n :: u32) = n" using assms(2) by (simp add: unat_of_nat take_bit_nat_eq_self)
  then have "\<not> slt (of_nat n) 0" using assms(2) by (simp add: slt_unat)
  ultimately show ?thesis using o(3,4) assms(3) by (simp add: sys_read_def fd_in_use_def)
qed

lemma position_advance:
  assumes "pos + len < 2 ^ 32" and "unat (p :: u32) = pos"
  shows "unat (p + of_nat len) = pos + len"
  using unat_offset [of p len] assms by simp

lemma kernel_read_bytes:
  assumes "user_ok u P q s" and "length bs \<le> 1024" and "2 \<le> unat fd"
    and "sys_read (kenv u) (waits u s) fd (ubuf u) (of_nat n) s = Some (of_nat (length bs), advance fd m (ubuf u) bs s)"
  shows "kernel_read u fd n s = Some (of_nat (length bs), bs, advance fd m (ubuf u) bs s)"
proof -
  have l: "unat (of_nat (length bs) :: u32) = length bs" using assms(2) small_count(1) [of "length bs"] by simp
  then have "\<not> slt (of_nat (length bs)) 0" using assms(2) by (simp add: slt_unat)
  then show ?thesis using assms(4) l user_ok_advance(3) [OF assms(1,3), of bs] assms(2) by (simp add: kernel_read_def)
qed

lemma kernel_read_file:
  assumes "file_driver (kenv u) k" and "user_ok u P q s" and "open_as s fd file_fops" and "n \<le> 1024"
    and "bs = drop (unat (position (current_fds s ! unat fd))) (ddata k (inode (current_fds s ! unat fd)))"
  shows "kernel_read u fd n s = Some (of_nat (length (take n bs)), take n bs, advance fd (of_nat (length (take n bs))) (ubuf u) (take n bs) s)"
    "kernel_rest k (advance fd (of_nat (length (take n bs))) (ubuf u) (take n bs) s) = (kernel_rest k s)(fd \<mapsto> drop n bs)"
    "kernel_dir k (advance fd (of_nat (length (take n bs))) (ubuf u) (take n bs) s) = kernel_dir k s"
    "kernel_room (advance fd (of_nat (length (take n bs))) (ubuf u) (take n bs) s) = kernel_room s"
proof -
  let ?d = "current_fds s ! unat fd"
  note o = assms(3) and bs = assms(5)
  note f = open_asD [OF o]
  have ub: "ubuf u \<noteq> 0" "length (current_fds s) = 8" using assms(2) by (auto simp: user_ok_def)
  let ?t = "take n bs"
  let ?s = "advance fd (of_nat (length ?t)) (ubuf u) ?t s"
  have len: "length ?t \<le> 1024" using assms(4) by simp
  have un: "unat (of_nat n :: u32) = n" using assms(4) small_count(1) [of n] by simp
  have "read_file (kenv u) fd (ubuf u) (of_nat n) s = Some (of_nat (length ?t), ?s)"
    using assms(1) un by (simp add: file_driver_def Let_def bs)
  then have r: "sys_read (kenv u) (waits u s) fd (ubuf u) (of_nat n) s = Some (of_nat (length ?t), ?s)"
    using sys_read_open [OF o _ ub(1), of n] assms(4) by simp
  show "kernel_read u fd n s = Some (of_nat (length ?t), ?t, ?s)" by (rule kernel_read_bytes [OF assms(2) len f(1) r])
  let ?d' = "?d\<lparr>position := position ?d + of_nat (length ?t)\<rparr>"
  have c: "current_fds ?s = (current_fds s)[unat fd := ?d']"
    using user_ok_advance(4) [OF assms(2) f(1)] len by simp
  have d: "fd_in_use ?d'" "file_ops ?d' = file_fops" using f(3,4) by (simp_all add: fd_in_use_def)
  have "drop (unat (position ?d + of_nat (length ?t))) (ddata k (inode ?d)) = drop n bs"
  proof (cases "bs = []")
    case True
    then show ?thesis using bs by simp
  next
    case False
    have "length (ddata k (inode ?d)) < 2 ^ 31" using assms(1) by (simp add: file_driver_def)
    moreover have "unat (position ?d) + length bs = length (ddata k (inode ?d))" using False bs by simp
    ultimately have "unat (position ?d + of_nat (length ?t)) = unat (position ?d) + length ?t"
      by (intro position_advance) auto
    then show ?thesis unfolding bs by (simp add: add.commute min_def)
  qed
  then show "kernel_rest k ?s = (kernel_rest k s)(fd \<mapsto> drop n bs)"
    using kernel_rest_upd(1) [OF c f(1,2) ub(2), of k] d f(5) by (simp add: fd_rest_def)
  have "kernel_dir k s fd = None" using o by (simp add: kernel_dir_def fd_dir_def open_as_def)
  then show "kernel_dir k ?s = kernel_dir k s"
    using kernel_rest_upd(2) [OF c f(1,2) ub(2), of k] d f(5) by (auto simp: fun_eq_iff fd_dir_def)
  show "kernel_room ?s = kernel_room s" by (rule kernel_room_upd(1) [OF c f(1,2) ub(2)]) (simp add: fd_in_use_def)
qed

text \<open>A clock is read as an empty file.\<close>

lemma kernel_read_device:
  assumes "file_driver (kenv u) k" and "user_ok u P q s" and "open_as s fd rtc_fops" and "ddevs k \<noteq> []" and "n \<le> 1024"
  shows "\<exists>s'. kernel_read u fd n s = Some (0, [], s') \<and> rtc_frame s s'"
proof -
  obtain g where "g \<in> set (ddevs k)" using assms(4) by (cases "ddevs k") auto
  then have "device_driver (kenv u) g" using assms(1) by (simp add: file_driver_def)
  then obtain s' where r: "read_rtc (kenv u) fd (ubuf u) (of_nat n) s = Some (0, s')" "rtc_frame s s'"
    unfolding device_driver_def by blast
  have "ubuf u \<noteq> 0" using assms(2) by (auto simp: user_ok_def)
  then have "sys_read (kenv u) (waits u s) fd (ubuf u) (of_nat n) s = Some (0, s')"
    using sys_read_open [OF assms(3)] assms(5) r(1) by simp
  then show ?thesis using r(2) by (simp add: kernel_read_def mem_bytes_def)
qed

lemma kernel_reads:
  assumes "file_driver (kenv u) k" and "user_ok u P q s" and "kernel_rest k s fd = Some bs" and "n \<le> 1024"
  shows "\<exists>s'. kernel_read u fd n s = Some (of_nat (length (take n bs)), take n bs, s') \<and> user_ok u P q s' \<and> task_view P s' = task_view P s
    \<and> kernel_rest k s' = (kernel_rest k s)(fd \<mapsto> drop n bs) \<and> kernel_dir k s' = kernel_dir k s \<and> kernel_room s' = kernel_room s"
  using assms(3)
proof (cases rule: kernel_restD)
  case 1
  show ?thesis
    using kernel_read_file [OF assms(1,2) 1(1) assms(4) 1(2)] user_ok_advance(1,2) [OF assms(2) open_asD(1) [OF 1(1)], of "take n bs"] assms(4)
    by auto
next
  case 2
  obtain s' where s': "kernel_read u fd n s = Some (0, [], s')" "rtc_frame s s'"
    using kernel_read_device [OF assms(1,2) 2(1,3) assms(4)] by blast
  note c = kernel_files_cong [OF rtc_frame_process(3) [OF s'(2)]]
  have "kernel_rest k s' = (kernel_rest k s)(fd \<mapsto> drop n bs)" using c(1) assms(3) 2(2) by auto
  then show ?thesis using s'(1) user_ok_rtc(1,2) [OF assms(2) s'(2)] c(2,3) 2(2) by auto
qed

text \<open>The directory.\<close>

lemma read_directory_open:
  assumes "user_ok u P q s" and "kernel_dir k s fd = Some ns"
  shows "sys_read (kenv u) irqs fd (ubuf u) (of_nat 32) s = read_directory (kenv u) fd (ubuf u) 32 s"
proof -
  have "ubuf u \<noteq> 0" using assms(1) by (auto simp: user_ok_def)
  then show ?thesis using sys_read_open [OF kernel_dirD(1) [OF assms(2)], of 32] by simp
qed

lemma kernel_end_dir:
  assumes "file_driver (kenv u) k" and "user_ok u P q s" and "kernel_dir k s fd = Some []"
  shows "\<exists>s'. kernel_read u fd 32 s = Some (0, [], s') \<and> user_ok u P q s' \<and> task_view P s' = task_view P s"
proof -
  note o = kernel_dirD [OF assms(3)]
  have "\<not> unat (position (current_fds s ! unat fd)) < length (dnames k)" using o(2) by simp
  then obtain f where "read_directory (kenv u) fd (ubuf u) 32 s = Some (0, upd_fd (unat fd) f s)"
    using assms(1) unfolding file_driver_def Let_def by meson
  then have "kernel_read u fd 32 s = Some (0, [], upd_fd (unat fd) f s)"
    using read_directory_open [OF assms(2,3)] by (simp add: kernel_read_def mem_bytes_def)
  then show ?thesis using user_ok_upd_fd [OF assms(2) open_asD(1) [OF o(1)]] by blast
qed

lemma kernel_read_dir:
  assumes "file_driver (kenv u) k" and "user_ok u P q s" and "kernel_dir k s fd = Some (name # ns)"
  shows "\<exists>s'. kernel_read u fd 32 s = Some (of_nat (length name), name, s') \<and> user_ok u P q s' \<and> task_view P s' = task_view P s
    \<and> kernel_dir k s' = (kernel_dir k s)(fd \<mapsto> ns) \<and> kernel_rest k s' = kernel_rest k s \<and> kernel_room s' = kernel_room s"
proof -
  let ?d = "current_fds s ! unat fd"
  note o = kernel_dirD [OF assms(3)] and r = read_directory_open [OF assms(2,3)]
  note f = open_asD [OF o(1)]
  have ub: "ubuf u \<noteq> 0" "length (current_fds s) = 8" using assms(2) by (auto simp: user_ok_def)
  have lt: "unat (position ?d) < length (dnames k)"
  proof (rule ccontr)
    assume "\<not> unat (position ?d) < length (dnames k)"
    then show False using o(2) by simp
  qed
  have "dnames k ! unat (position ?d) # drop (Suc (unat (position ?d))) (dnames k) = name # ns"
    unfolding Cons_nth_drop_Suc [OF lt] using o(2) by simp
  with lt have pos: "dnames k ! unat (position ?d) = name" "drop (unat (position ?d) + 1) (dnames k) = ns"
    by simp_all
  have "name \<in> set (dnames k)" using lt pos(1) nth_mem by blast
  then have name: "length name \<le> 32" using assms(1) by (simp add: file_driver_def)
  let ?s = "advance fd 1 (ubuf u) name s" and ?d' = "?d\<lparr>position := position ?d + 1\<rparr>"
  have "read_directory (kenv u) fd (ubuf u) 32 s = Some (of_nat (length name), ?s)"
    using assms(1) lt pos(1) unfolding file_driver_def Let_def by meson
  then have k: "kernel_read u fd 32 s = Some (of_nat (length name), name, ?s)"
    using r name by (intro kernel_read_bytes [OF assms(2) _ f(1)]) simp_all
  have c: "current_fds ?s = (current_fds s)[unat fd := ?d']"
    using user_ok_advance(4) [OF assms(2) f(1)] name by simp
  have d: "fd_in_use ?d'" "file_ops ?d' = directory_fops" using f(3,4) by (simp_all add: fd_in_use_def)
  have "length (dnames k) < 2 ^ 31" using assms(1) by (simp add: file_driver_def)
  then have "unat (position ?d + of_nat 1) = unat (position ?d) + 1" using lt by (intro position_advance) auto
  then have "kernel_dir k ?s = (kernel_dir k s)(fd \<mapsto> ns)"
    using kernel_rest_upd(2) [OF c f(1,2) ub(2), of k] d f(5) pos(2) by (simp add: fd_dir_def)
  moreover have "kernel_rest k ?s = kernel_rest k s"
    using kernel_rest_upd(1) [OF c f(1,2) ub(2), of k] d f(5) o(3) by (auto simp: fun_eq_iff fd_rest_def)
  moreover have "kernel_room ?s = kernel_room s" by (rule kernel_room_upd(1) [OF c f(1,2) ub(2)]) (simp add: fd_in_use_def)
  ultimately show ?thesis using k user_ok_advance(1,2) [OF assms(2) f(1)] name by auto
qed

lemma sys_open_entry:
  assumes "read_dentry_by_name e f s = (0, ft)" and "free_fd (current_fds s) 2 = Some i"
  shows "sys_open e f s = (of_nat i, open_type e ft f i (upd_fd i (\<lambda>d. d\<lparr>fd_flags := fd_flags d OR FD_IN_USE\<rparr>) s))"
  using assms by (simp add: sys_open_def)

text \<open>Opening puts a fresh descriptor at the lowest free place.\<close>

lemma kernel_opens:
  assumes "current_fds s' = (current_fds s)[i := d]" and "length (current_fds s) = 8" and "2 \<le> i" and "i < 8"
    and "\<not> fd_in_use (current_fds s ! i)" and "fd_in_use d"
  shows "(of_nat i :: u32) \<noteq> - 1" "kernel_rest k s (of_nat i) = None" "kernel_dir k s (of_nat i) = None" "kernel_room s' = kernel_room s - 1"
    "kernel_rest k s' = (kernel_rest k s)(of_nat i := fd_rest k d)" "kernel_dir k s' = (kernel_dir k s)(of_nat i := fd_dir k d)"
proof -
  show "(of_nat i :: u32) \<noteq> - 1" using small_fd(2) [OF assms(4)] .
  show "kernel_rest k s (of_nat i) = None" "kernel_dir k s (of_nat i) = None"
    using assms(5) by (simp_all add: kernel_rest_def fd_rest_def kernel_dir_def fd_dir_def small_fd(1) [OF assms(4)])
  show "kernel_room s' = kernel_room s - 1" by (rule kernel_room_upd(2) [OF assms(1,3,4,2,6,5)])
  show "kernel_rest k s' = (kernel_rest k s)(of_nat i := fd_rest k d)" "kernel_dir k s' = (kernel_dir k s)(of_nat i := fd_dir k d)"
    by (rule kernel_rest_upd [OF assms(1,3,4,2)])+
qed

lemma upd_fd_twice: "length (current_fds s) = 8 \<Longrightarrow> i < 8 \<Longrightarrow> upd_fd i f (upd_fd i g s) = upd_fd i (\<lambda>_. f (g (current_fds s ! i))) s"
  by (simp add: upd_fd_def upd_pcb_def current_fds_def CURRENT_PCB_ADDRESS_def)

definition opened_fd :: "fd_entry \<Rightarrow> fd_entry" where
  "opened_fd = (\<lambda>d. d\<lparr>fd_flags := fd_flags d OR FD_IN_USE\<rparr>)"

lemma opened_fd_in_use: "fd_in_use (opened_fd d)"
  using fd_in_use_or [where e = d and f = "fd_flags d"] by (simp add: opened_fd_def)

text \<open>What a program that opens something gets: a descriptor that was free.\<close>

definition gets_fd :: "user_env \<Rightarrow> u32 \<Rightarrow> u32 \<Rightarrow> disk \<Rightarrow> u8 list option \<Rightarrow> u8 list list option \<Rightarrow> kstate \<Rightarrow> u32 \<Rightarrow> kstate \<Rightarrow> bool" where
  "gets_fd u P q k bs ns s fd s' \<longleftrightarrow> fd \<noteq> - 1 \<and> user_ok u P q s' \<and> task_view P s' = task_view P s
    \<and> kernel_rest k s fd = None \<and> kernel_dir k s fd = None \<and> kernel_rest k s' = (kernel_rest k s)(fd := bs)
    \<and> kernel_dir k s' = (kernel_dir k s)(fd := ns) \<and> kernel_room s' = kernel_room s - 1"

lemma gets_fdI:
  assumes "current_fds s' = (current_fds s)[i := d]" and "user_ok u P q s" and "user_ok u P q s'" and "task_view P s' = task_view P s"
    and "2 \<le> i" and "i < 8" and "\<not> fd_in_use (current_fds s ! i)" and "fd_in_use d"
  shows "gets_fd u P q k (fd_rest k d) (fd_dir k d) s (of_nat i) s'"
proof -
  have "length (current_fds s) = 8" using assms(2) by (simp add: user_ok_def)
  then show ?thesis using kernel_opens [OF assms(1) _ assms(5-8)] assms(3,4) by (simp add: gets_fd_def)
qed

lemma kernel_open_file:
  assumes "file_driver (kenv u) k" and "user_ok u P q s" and "0 < kernel_room s" and "dfiles k f = Some n"
  shows "\<exists>fd s'. sys_open (kenv u) (Some (f @ [0])) s = (fd, s') \<and> gets_fd u P q k (Some (ddata k n)) None s fd s'"
proof -
  obtain i where i: "free_fd (current_fds s) 2 = Some i" "2 \<le> i" "i < 8" "\<not> fd_in_use (current_fds s ! i)"
    using room_free_fd [OF assms(3)] by blast
  have len: "length (current_fds s) = 8" using assms(2) by (simp add: user_ok_def)
  let ?d = "(opened_fd (current_fds s ! i))\<lparr>inode := n, file_ops := file_fops, position := 0\<rparr>"
  have "read_dentry_by_name (kenv u) (Some (f @ [0])) s = (0, FILETYPE_FILE)" "\<And>t. open_file (kenv u) (Some (f @ [0])) t = (n, t)"
    using assms(1,4) by (auto simp: file_driver_def)
  then have s: "sys_open (kenv u) (Some (f @ [0])) s = (of_nat i, upd_fd i (\<lambda>_. ?d) s)"
    using sys_open_entry [OF _ i(1)] upd_fd_twice [OF len i(3)] by (simp add: open_type_def opened_fd_def)
  have d: "fd_in_use ?d" using opened_fd_in_use by (simp add: fd_in_use_def)
  have "gets_fd u P q k (fd_rest k ?d) (fd_dir k ?d) s (of_nat i) (upd_fd i (\<lambda>_. ?d) s)"
    by (rule gets_fdI [OF _ assms(2) user_ok_upd_fd [OF assms(2) i(2)] i(2-4) d]) simp
  moreover have "fd_rest k ?d = Some (ddata k n)" "fd_dir k ?d = None" using d by (simp_all add: fd_rest_def fd_dir_def)
  ultimately show ?thesis using s by auto
qed

lemma kernel_open_device:
  assumes "device_driver (kenv u) f" and "user_ok u P q s" and "0 < kernel_room s"
  shows "\<exists>fd s'. sys_open (kenv u) (Some (f @ [0])) s = (fd, s') \<and> open_as s' fd rtc_fops
    \<and> (\<forall>k. gets_fd u P q k (if ddevs k = [] then None else Some []) None s fd s')"
proof -
  obtain i where i: "free_fd (current_fds s) 2 = Some i" "2 \<le> i" "i < 8" "\<not> fd_in_use (current_fds s ! i)"
    using room_free_fd [OF assms(3)] by blast
  have len: "length (current_fds s) = 8" using assms(2) by (simp add: user_ok_def)
  let ?s1 = "upd_fd i opened_fd s"
  let ?s2 = "snd (open_rtc (kenv u) (Some (f @ [0])) ?s1)"
  let ?s3 = "upd_fd i (\<lambda>d. d\<lparr>file_ops := rtc_fops\<rparr>) ?s2"
  let ?d = "(opened_fd (current_fds s ! i))\<lparr>file_ops := rtc_fops\<rparr>"
  have o: "sys_open (kenv u) (Some (f @ [0])) s = (of_nat i, ?s3)"
    using assms(1) by (subst sys_open_entry [OF _ i(1)]) (auto simp: device_driver_def open_type_def opened_fd_def split_beta)
  have r: "rtc_frame ?s1 ?s2" using assms(1) by (simp add: device_driver_def)
  note k1 = user_ok_upd_fd [OF assms(2) i(2)]
  note k2 = user_ok_rtc(1,2) [OF k1(1) r]
  note k3 = user_ok_upd_fd [OF k2(1) i(2), of "\<lambda>d. d\<lparr>file_ops := rtc_fops\<rparr>"]
  have c: "current_fds ?s3 = (current_fds s)[i := ?d]" using rtc_frame_process(3) [OF r] len i(3) by simp
  have d: "fd_in_use ?d" using opened_fd_in_use by (simp add: fd_in_use_def)
  have "gets_fd u P q k (fd_rest k ?d) (fd_dir k ?d) s (of_nat i) ?s3" for k
    using k1(2) k2(2) k3 by (intro gets_fdI [OF c assms(2) _ _ i(2-4) d]) simp_all
  moreover have "fd_rest k ?d = (if ddevs k = [] then None else Some [])" "fd_dir k ?d = None" for k using d by (simp_all add: fd_rest_def fd_dir_def)
  moreover have "open_as ?s3 (of_nat i) rtc_fops" using i(2,3) len c d by (simp add: open_as_def small_fd(1))
  ultimately show ?thesis using o by auto
qed

lemma kernel_open_content:
  assumes "file_driver (kenv u) k" and "user_ok u P q s" and "0 < kernel_room s" and "kernel_content k f = Some bs"
  shows "\<exists>fd s'. sys_open (kenv u) (Some (f @ [0])) s = (fd, s') \<and> gets_fd u P q k (Some bs) None s fd s'"
proof (cases "f \<in> set (ddevs k)")
  case True
  then have d: "device_driver (kenv u) f" "ddevs k \<noteq> []" "bs = []" using assms(1,4) by (auto simp: file_driver_def kernel_content_def)
  obtain fd s' where s': "sys_open (kenv u) (Some (f @ [0])) s = (fd, s')"
    "\<And>k. gets_fd u P q k (if ddevs k = [] then None else Some []) None s fd s'"
    using kernel_open_device [OF d(1) assms(2,3)] by blast
  show ?thesis using s'(1) s'(2) [of k] d(2,3) by auto
next
  case False
  then show ?thesis using kernel_open_file [OF assms(1-3)] assms(4) by (auto simp: kernel_content_def)
qed

lemma kernel_open_dir:
  assumes "file_driver (kenv u) k" and "user_ok u P q s" and "0 < kernel_room s"
  shows "\<exists>fd s'. sys_open (kenv u) (Some [0x2E, 0]) s = (fd, s') \<and> gets_fd u P q k None (Some (dnames k)) s fd s'"
proof -
  obtain i where i: "free_fd (current_fds s) 2 = Some i" "2 \<le> i" "i < 8" "\<not> fd_in_use (current_fds s ! i)"
    using room_free_fd [OF assms(3)] by blast
  have len: "length (current_fds s) = 8" using assms(2) by (simp add: user_ok_def)
  let ?d = "(opened_fd (current_fds s ! i))\<lparr>file_ops := directory_fops, position := 0\<rparr>"
  have "read_dentry_by_name (kenv u) (Some [0x2E, 0]) s = (0, FILETYPE_DIRECTORY)" "\<And>t. open_directory (kenv u) (Some [0x2E, 0]) t = (0, t)"
    using assms(1) by (auto simp: file_driver_def)
  then have s: "sys_open (kenv u) (Some [0x2E, 0]) s = (of_nat i, upd_fd i (\<lambda>_. ?d) s)"
    using sys_open_entry [OF _ i(1)] upd_fd_twice [OF len i(3)] by (simp add: open_type_def opened_fd_def)
  have d: "fd_in_use ?d" using opened_fd_in_use by (simp add: fd_in_use_def)
  have "gets_fd u P q k (fd_rest k ?d) (fd_dir k ?d) s (of_nat i) (upd_fd i (\<lambda>_. ?d) s)"
    by (rule gets_fdI [OF _ assms(2) user_ok_upd_fd [OF assms(2) i(2)] i(2-4) d]) simp
  moreover have "fd_rest k ?d = None" "fd_dir k ?d = Some (dnames k)" using d by (simp_all add: fd_rest_def fd_dir_def)
  ultimately show ?thesis using s by auto
qed

lemma kernel_close_file:
  assumes "user_ok u P q s" and "kernel_rest k s fd = Some bs"
  shows "\<exists>s'. sys_close fd s = (0, s') \<and> user_ok u P q s' \<and> task_view P s' = task_view P s
    \<and> kernel_rest k s' = (kernel_rest k s)(fd := None) \<and> kernel_dir k s' = kernel_dir k s \<and> kernel_room s' = kernel_room s + 1"
proof -
  let ?d = "(current_fds s ! unat fd)\<lparr>fd_flags := fd_flags (current_fds s ! unat fd) AND NOT FD_IN_USE\<rparr>"
  let ?s = "upd_fd (unat fd) (\<lambda>d. d\<lparr>fd_flags := fd_flags d AND NOT FD_IN_USE\<rparr>) s"
  obtain ops where o: "open_as s fd ops" using kernel_rest_open(1) [OF assms(2)] by blast
  note f = open_asD [OF o]
  have len: "length (current_fds s) = 8" using assms(1) by (simp add: user_ok_def)
  have c: "current_fds ?s = (current_fds s)[unat fd := ?d]" by simp
  have nd: "\<not> fd_in_use ?d" by (rule fd_in_use_clear)
  have "sys_close fd s = (0, ?s)" using f(1-3) by (simp add: sys_close_eq)
  moreover have "kernel_rest k ?s = (kernel_rest k s)(fd := None)" using kernel_rest_upd(1) [OF c f(1,2) len, of k] nd f(5) by (simp add: fd_rest_def)
  moreover have "kernel_dir k ?s = kernel_dir k s"
    using kernel_rest_upd(2) [OF c f(1,2) len, of k] kernel_rest_open(2) [OF assms(2)] nd f(5) by (auto simp: fun_eq_iff fd_dir_def)
  moreover have "kernel_room ?s = kernel_room s + 1" by (rule kernel_room_upd(3) [OF c f(1,2) len nd f(3)])
  ultimately show ?thesis using user_ok_upd_fd [OF assms(1) f(1)] by auto
qed

lemma kernel_args_plain:
  assumes "user_ok u P q s"
  shows "\<exists>r. args (pcbs s (CURRENT_PCB_ADDRESS s)) = kernel_args s @ 0 # r" "0 \<notin> set (kernel_args s)" "length (kernel_args s) < 128"
proof -
  let ?a = "args (pcbs s (CURRENT_PCB_ADDRESS s))"
  have z: "0 \<in> set ?a" "length ?a = 128" using assms by (simp_all add: user_ok_def)
  then obtain cs r where a: "?a = cs @ 0 # r" "0 \<notin> set cs" by (meson split_list_first)
  then have "kernel_args s = cs" by (auto simp: kernel_args_def takeWhile_tail takeWhile_eq_all_conv)
  then show "\<exists>r. ?a = kernel_args s @ 0 # r" "0 \<notin> set (kernel_args s)" "length (kernel_args s) < 128"
    using a z(2) by auto
qed

lemma takeWhile_mem:
  assumes "length xs < n" and "\<And>i. i \<le> length xs \<Longrightarrow> f i = (xs @ [0]) ! i" and "0 \<notin> set xs"
  shows "0 \<in> set (map f [0..<n])" "takeWhile (\<lambda>c. c \<noteq> (0 :: u8)) (map f [0..<n]) = xs"
proof -
  have "[0..<length xs + 1] @ [length xs + 1..<n] = [0..<n]"
    using upt_add_eq_append [of 0 "length xs + 1" "n - (length xs + 1)"] assms(1) by simp
  then have "map f [0..<n] = map f [0..<length xs + 1] @ map f [length xs + 1..<n]" by (metis map_append)
  moreover have "map f [0..<length xs + 1] = xs @ [0]" using assms(2) by (intro nth_equalityI) (auto simp del: upt_Suc)
  ultimately have e: "map f [0..<n] = xs @ 0 # map f [length xs + 1..<n]" by simp
  show "0 \<in> set (map f [0..<n])" unfolding e by simp
  show "takeWhile (\<lambda>c. c \<noteq> 0) (map f [0..<n]) = xs" unfolding e using assms(3) by (auto simp: takeWhile_tail takeWhile_eq_all_conv)
qed

lemma kernel_getargs_store:
  assumes "user_ok u P q s" and "kernel_args s \<noteq> []"
  shows "kernel_getargs u 1024 s = Some (0, kernel_args s @ [0], store_bytes (kernel_args s @ [0]) (ubuf u) s)"
proof -
  let ?a = "kernel_args s"
  note a = kernel_args_plain [OF assms(1)]
  obtain r where r: "args (pcbs s (CURRENT_PCB_ADDRESS s)) = ?a @ 0 # r" using a(1) by blast
  have ub: "VIRTUAL_BEGIN \<le> ubuf u" "ubuf u \<le> VIRTUAL_END" using assms(1) by (simp_all add: user_ok_def)
  have n: "unat (of_nat 1024 :: u32) = 1024" "\<not> slt (of_nat 1024) 0" by (simp_all add: slt_unat)
  have t: "take 1024 (?a @ [0]) = ?a @ [0]" using a(3) by simp
  let ?s = "store_bytes (?a @ [0]) (ubuf u) s"
  have "?a ! 0 \<noteq> 0" using a(2) assms(2) by (metis length_greater_0_conv nth_mem)
  then have g: "sys_getargs (ubuf u) (of_nat 1024) s = Some (0, ?s)"
    using getargs_copies [OF r a(2), of 0 "ubuf u" 1024 s] r ub n t assms(2)
    by (simp add: sys_getargs_def nth_append linorder_not_less del: of_nat_numeral)
  note o = user_ok_store [OF assms(1), of "?a @ [0]"]
  have m: "0 \<in> set (mem_bytes ?s (ubuf u) 1024)" "takeWhile (\<lambda>c. c \<noteq> 0) (mem_bytes ?s (ubuf u) 1024) = ?a"
    unfolding mem_bytes_def using takeWhile_mem [of ?a 1024 "\<lambda>i. rd8 ?s (ubuf u + of_nat i)"] o(4) a(2,3) by simp_all
  show ?thesis using g m by (simp add: kernel_getargs_def Let_def)
qed

lemma kernel_getargs_ok:
  assumes "user_ok u P q s" and "kernel_args s \<noteq> []"
  shows "\<exists>s'. kernel_getargs u 1024 s = Some (0, kernel_args s @ [0], s') \<and> user_ok u P q s' \<and> task_view P s' = task_view P s
    \<and> kernel_rest k s' = kernel_rest k s \<and> kernel_dir k s' = kernel_dir k s \<and> kernel_room s' = kernel_room s"
proof -
  let ?a = "kernel_args s"
  let ?s = "store_bytes (?a @ [0]) (ubuf u) s"
  note a = kernel_args_plain [OF assms(1)] and o = user_ok_store [OF assms(1), of "?a @ [0]"]
  have "kernel_getargs u 1024 s = Some (0, ?a @ [0], ?s)" by (rule kernel_getargs_store [OF assms])
  moreover have "current_fds ?s = current_fds s" using same_process_fds o(3) a(3) by simp
  then have "kernel_rest k ?s = kernel_rest k s" "kernel_dir k ?s = kernel_dir k s" "kernel_room ?s = kernel_room s"
    by (rule kernel_files_cong)+
  ultimately show ?thesis using o(1,2) a(3) by auto
qed

text \<open>With a file system driver the kernel keeps the contract that the programs rely on.\<close>

lemma kernel_files:
  assumes "file_driver (kenv u) k"
  shows "file_os (kernel_os u) (user_ok u P q) (task_view P) (\<lambda>bs. fold spec_putc bs) same_process
    (kernel_rest k) (kernel_dir k) kernel_room kernel_args (kernel_content k) (dnames k)"
proof (unfold_locales, goal_cases)
  case (1 s s')
  then show ?case using kernel_files_cong [OF same_process_fds] by simp
next
  case (2 s)
  then show ?case using kernel_getargs_ok [of u P q s k] by (simp add: kernel_os_def)
next
  case (3 s)
  then show ?case using kernel_args_plain(2,3) [of u P q s] by simp
next
  case (4 s fd bs n)
  then show ?case using kernel_reads [OF assms, of P q s fd bs n] by (simp add: kernel_os_def)
next
  case (5 s fd name ns)
  then show ?case using kernel_read_dir [OF assms, of P q s fd name ns] by (simp add: kernel_os_def)
next
  case (6 s fd)
  then show ?case using kernel_end_dir [OF assms, of P q s fd] by (simp add: kernel_os_def)
next
  case (7 s name bs)
  then obtain fd s' where "sys_open (kenv u) (Some (name @ [0])) s = (fd, s')" "gets_fd u P q k (Some bs) None s fd s'"
    using kernel_open_content [OF assms, of P q s name bs] by auto
  then show ?case by (auto simp: kernel_os_def gets_fd_def)
next
  case (8 s)
  then obtain fd s' where "sys_open (kenv u) (Some [0x2E, 0]) s = (fd, s')" "gets_fd u P q k None (Some (dnames k)) s fd s'"
    using kernel_open_dir [OF assms, of P q s] by auto
  then show ?case by (auto simp: kernel_os_def gets_fd_def)
next
  case (9 s fd bs)
  then show ?case using kernel_close_file [of u P q s k fd bs] by (simp add: kernel_os_def)
next
  case (10 name)
  then show ?case using assms by (simp add: file_driver_def)
qed

end
