(* ===== verification/Programs.thy ===== *)
theory Programs
  imports User_Kernel
begin

text \<open>
  The programs \<^verbatim>\<open>cat\<close>, \<^verbatim>\<open>ls\<close> and \<^verbatim>\<open>grep\<close> of \<^verbatim>\<open>syscalls/\<close> running on the kernel: what they
  show on the screen, by the interface \<open>file_os\<close> that the kernel implements, and a concrete file system on
  which they run.
\<close>

subsection \<open>A concrete file system\<close>

definition disk_env :: "disk \<Rightarrow> env" where
  "disk_env k = sample_env\<lparr>
     read_dentry_by_name := \<lambda>f s. (case f of None \<Rightarrow> (- 1, 0)
       | Some c \<Rightarrow> if butlast c = [0x2E] then (0, FILETYPE_DIRECTORY)
                   else if butlast c \<in> set (ddevs k) then (0, FILETYPE_RTC)
                   else case dfiles k (butlast c) of None \<Rightarrow> (- 1, 0) | Some i \<Rightarrow> (0, FILETYPE_FILE)),
     open_file := \<lambda>f s. (the (dfiles k (butlast (the f))), s),
     open_directory := \<lambda>f s. (0, s),
     read_file := \<lambda>fd buf n s.
        (let d = current_fds s ! unat fd; bs = take (unat n) (drop (unat (position d)) (ddata k (inode d)))
         in Some (of_nat (length bs), advance fd (of_nat (length bs)) buf bs s)),
     read_directory := \<lambda>fd buf n s.
        (let d = current_fds s ! unat fd
         in if unat (position d) < length (dnames k)
            then let bs = take (unat n) (dnames k ! unat (position d)) in Some (of_nat (length bs), advance fd 1 buf bs s)
            else Some (0, upd_fd (unat fd) (\<lambda>d. d\<lparr>position := position d + 1, fd_flags := fd_flags d AND NOT FD_IN_USE\<rparr>) s))\<rparr>"

lemma disk_env_driver:
  assumes "dfiles k [0x2E] = None" and "\<And>f. f \<in> set (ddevs k) \<Longrightarrow> f \<noteq> [0x2E] \<and> dfiles k f = None" and "\<And>i. length (ddata k i) < 2 ^ 31" and "length (dnames k) < 2 ^ 31"
    and "\<And>f. f \<in> set (dnames k) \<Longrightarrow> f \<noteq> [] \<and> length f \<le> 32 \<and> 0 \<notin> set f \<and> 0x08 \<notin> set f"
  shows "file_driver (disk_env k) k"
  unfolding file_driver_def
proof (intro conjI)
  show "\<forall>f\<in>set (ddevs k). dfiles k f = None \<and> device_driver (disk_env k) f"
    using assms(2) by (auto simp: device_driver_def disk_env_def sample_env_def rtc_frame_def)
  show "\<forall>fd buf s. let pos = unat (position (current_fds s ! unat fd))
      in if pos < length (dnames k)
         then read_directory (disk_env k) fd buf 32 s = Some (of_nat (length (dnames k ! pos)), advance fd 1 buf (dnames k ! pos) s)
         else \<exists>f. read_directory (disk_env k) fd buf 32 s = Some (0, upd_fd (unat fd) f s)"
    using assms(5) [OF nth_mem] by (auto simp: disk_env_def Let_def)
qed (use assms in \<open>auto simp: disk_env_def\<close>)

text \<open>A directory with one file, the two lines \<open>ab\<close> and \<open>cb\<close>, and the clock, whose driver closes a directory that
  has been read to its end, and a process started with the argument \<open>b\<close>.\<close>

definition sample_disk :: disk where
  "sample_disk = \<lparr>dfiles = \<lambda>f. if f = [0x66] then Some 7 else None,
     ddata = \<lambda>i. if i = 7 then [0x61, 0x62, 0x0A, 0x63, 0x62] else [],
     ddevs = [map of_char ''rtc''], dnames = [[0x2E], [0x66], map of_char ''rtc'']\<rparr>"

definition sample_user :: user_env where
  "sample_user = \<lparr>kenv = disk_env sample_disk, waits = \<lambda>s. [], child = \<lambda>s. None, dispatch = \<lambda>n s. Some (- 1, s), ubuf = 0x8048000\<rparr>"

definition sample_process :: "u8 list \<Rightarrow> kstate" where
  "sample_process a = writer_kernel\<lparr>pcbs := \<lambda>_. writer_pcb\<lparr>args := take 127 a @ replicate (128 - length (take 127 a)) 0\<rparr>\<rparr>"

lemma sample_driver: "file_driver (kenv sample_user) sample_disk"
  unfolding sample_user_def by simp (rule disk_env_driver, auto simp: sample_disk_def)

interpretation sample_files: file_os "kernel_os sample_user" "user_ok sample_user P q" "task_view P" "\<lambda>bs. fold spec_putc bs"
  same_process "kernel_rest sample_disk" "kernel_dir sample_disk" kernel_room kernel_args "kernel_content sample_disk" "dnames sample_disk"
  for P q
  by (rule kernel_files [OF sample_driver])

lemma sample_process_ok:
  assumes "0 \<notin> set a" and "length a < 128"
  shows "user_ok sample_user VIDEO 0x8048000 (sample_process a)" "kernel_args (sample_process a) = a" "kernel_room (sample_process a) = 6"
proof -
  let ?s = "sample_process a"
  have pcb: "pcbs ?s x = writer_pcb\<lparr>args := a @ replicate (128 - length a) 0\<rparr>" for x
    using assms(2) by (simp add: sample_process_def)
  have fds: "current_fds ?s = current_fds writer_kernel"
    by (simp add: current_fds_def sample_process_def writer_kernel_def)
  have "task_screen_ok VIDEO ?s = task_screen_ok VIDEO writer_kernel"
    by (simp add: task_screen_ok_def sample_process_def wf_kernel_def linear_def df_clear_def task_view_def)
  moreover have "mmu ?s x = x" for x by (simp add: sample_process_def writer_kernel_def)
  moreover have "\<not> within (0x8048000 + of_nat k) VIDEO 4000" if "k < 1100" for k
  proof -
    have "(0x8048000 :: u32) + of_nat k - VIDEO = 0x7F90000 + of_nat k" by simp
    moreover have "unat ((0x7F90000 :: u32) + of_nat k) = 0x7F90000 + k" using that by (subst unat_offset) simp_all
    ultimately have "unat ((0x8048000 :: u32) + of_nat k - VIDEO) = 0x7F90000 + k" by (simp only:)
    then show ?thesis by (simp add: within_def)
  qed
  moreover have "0 \<in> set (a @ replicate (128 - length a) 0)" using assms(2) by simp
  ultimately show "user_ok sample_user VIDEO 0x8048000 ?s"
    using writer_kernel_facts(1,2,3,5) assms(2) by (simp add: user_ok_def linear_def sample_user_def fds pcb)
  show "kernel_args ?s = a"
    using assms by (cases "128 - length a") (auto simp: kernel_args_def pcb takeWhile_tail takeWhile_eq_all_conv)
  have "{i. 2 \<le> i \<and> i < 8 \<and> \<not> fd_in_use (current_fds ?s ! i)} = {2..<8}"
    unfolding fds
    by (auto simp: current_fds_def writer_kernel_def writer_pcb_def nth_list_update fd_in_use_def empty_fd_def less_Suc_eq numeral_eq_Suc)
  then show "kernel_room ?s = 6" unfolding kernel_room_def by simp
qed

subsection \<open>The programs on the kernel\<close>

lemma kernel_open_missing:
  assumes "file_driver (kenv u) k" and "f \<noteq> [0x2E]" and "kernel_content k f = None"
  shows "os_open (kernel_os u) f s = Some (- 1, s)"
proof -
  have "f \<notin> set (ddevs k)" "dfiles k f = None" using assms(3) by (simp_all add: kernel_content_def split: if_splits)
  then have "fst (read_dentry_by_name (kenv u) (Some (f @ [0])) s) = - 1" using assms(1,2) by (simp add: file_driver_def)
  then show ?thesis by (simp add: kernel_os_def sys_open_def split_beta)
qed

text \<open>C16. \<^verbatim>\<open>cat\<close> on the kernel. Started with the name of a file as its argument, with a descriptor free, the
  program puts the bytes of the file on the screen of its task, all of them and in order however the reads cut
  the file (none for the clock, which reads as empty), and ends with status 0; for a name that is not in the file system it puts its error message there and
  ends with status 2. \<^verbatim>\<open>ls\<close> puts there the names of the directory, each on a line.\<close>

theorem cat_and_ls_on_kernel:
  assumes "file_driver (kenv u) k" and "user_ok u P q s" and "0 < kernel_room s" and "kernel_args s \<noteq> []"
    and "length buf = 1024" and "length lbuf = 33"
  shows "(\<forall>bs. kernel_content k (kernel_args s) = Some bs \<and> 0x08 \<notin> set bs \<longrightarrow>
      (\<exists>s'. cat_main (kernel_os u) buf s = Some (0, s') \<and> user_ok u P q s' \<and> task_view P s' = fold spec_putc bs (task_view P s)))
    \<and> (kernel_content k (kernel_args s) = None \<and> kernel_args s \<noteq> [0x2E] \<longrightarrow>
      (\<exists>s'. cat_main (kernel_os u) buf s = Some (2, s') \<and> user_ok u P q s'
        \<and> task_view P s' = fold spec_putc (map of_char ''file not found'' @ [0x0A]) (task_view P s)))
    \<and> (\<exists>s'. ls_main (kernel_os u) lbuf s = Some (0, s') \<and> user_ok u P q s'
        \<and> task_view P s' = fold spec_putc (concat (map (\<lambda>n. n @ [0x0A]) (dnames k))) (task_view P s))"
proof (intro conjI allI impI)
  note K = kernel_files [OF assms(1), of P q]
  show "\<exists>s'. cat_main (kernel_os u) buf s = Some (0, s') \<and> user_ok u P q s' \<and> task_view P s' = fold spec_putc bs (task_view P s)"
    if "kernel_content k (kernel_args s) = Some bs \<and> 0x08 \<notin> set bs" for bs
    using file_os.cat_main_out(1) [OF K assms(2-5), of bs] that by simp
  show "\<exists>s'. cat_main (kernel_os u) buf s = Some (2, s') \<and> user_ok u P q s'
        \<and> task_view P s' = fold spec_putc (map of_char ''file not found'' @ [0x0A]) (task_view P s)"
    if "kernel_content k (kernel_args s) = None \<and> kernel_args s \<noteq> [0x2E]"
    using file_os.cat_main_out(2) [OF K assms(2-5)] kernel_open_missing [OF assms(1)] that by blast
  show "\<exists>s'. ls_main (kernel_os u) lbuf s = Some (0, s') \<and> user_ok u P q s'
        \<and> task_view P s' = fold spec_putc (concat (map (\<lambda>n. n @ [0x0A]) (dnames k))) (task_view P s)"
    by (rule file_os.ls_main_out [OF K assms(2,3,6)])
qed

theorem cat_and_ls_on_kernel_witness:
  "(\<exists>s'. cat_main (kernel_os sample_user) (replicate 1024 0) (sample_process [0x66]) = Some (0, s')
      \<and> task_view VIDEO s' = fold spec_putc [0x61, 0x62, 0x0A, 0x63, 0x62] (task_view VIDEO (sample_process [0x66])))
   \<and> (\<exists>s'. ls_main (kernel_os sample_user) (replicate 33 0) (sample_process [0x66]) = Some (0, s')
      \<and> task_view VIDEO s' = fold spec_putc [0x2E, 0x0A, 0x66, 0x0A, 0x72, 0x74, 0x63, 0x0A] (task_view VIDEO (sample_process [0x66])))"
proof -
  note p = sample_process_ok [of "[0x66]"]
  have c: "kernel_content sample_disk [0x66] = Some [0x61, 0x62, 0x0A, 0x63, 0x62]" "dnames sample_disk = [[0x2E], [0x66], [0x72, 0x74, 0x63]]"
    by (simp_all add: kernel_content_def sample_disk_def)
  show ?thesis
    using cat_and_ls_on_kernel [OF sample_driver p(1), of "replicate 1024 0" "replicate 33 0"] p(2,3) c by auto
qed

text \<open>C6. \<^verbatim>\<open>grep\<close> on the kernel. For a directory of text files, whose lines are shorter than the buffer and
  have no NUL and no backspace, and of entries for the clock, which reads as an empty file, the program searches every file whose name does not begin with a dot: for each line
  that contains its argument, and for no other, it puts the name of the file, a colon and the line on the screen
  of its task, in the order of the files and lines, wherever the reads of 1024 bytes cut the lines; it closes
  every file and ends with status 0. The one condition on the memory is that the byte behind the buffer of the
  uninitialised array is not a newline.\<close>

theorem grep_on_kernel:
  assumes "file_driver (kenv u) k" and "user_ok u P q s" and "kernel_args s \<noteq> []" and "2 \<le> kernel_room s"
    and "grep_names (kernel_content k) (dnames k)" and "length buf = SBUFSIZE" and "length search = BUFSIZE"
    and "\<And>j. length (junk j) = BUFSIZE + 1 \<and> junk j ! BUFSIZE \<noteq> NL"
  shows "\<exists>s'. grep_main (kernel_os u) junk buf search s = Some (0, s') \<and> user_ok u P q s'
    \<and> task_view P s' = fold spec_putc (grep_all (kernel_content k) (kernel_args s) (dnames k)) (task_view P s)"
  using file_os.grep_main_out [OF kernel_files [OF assms(1)] assms(2-7)] assms(8) by simp

theorem grep_on_kernel_witness:
  "\<exists>s'. grep_main (kernel_os sample_user) (\<lambda>_. replicate 1025 0) (replicate 33 0) (replicate 1024 0) (sample_process [0x62]) = Some (0, s')
     \<and> task_view VIDEO s' = fold spec_putc [0x66, 0x3A, 0x61, 0x62, 0x0A, 0x66, 0x3A, 0x63, 0x62, 0x0A] (task_view VIDEO (sample_process [0x62]))"
proof -
  note p = sample_process_ok [of "[0x62]"]
  have l: "lines_of [0x61, 0x62, 0x0A, 0x63, 0x62] = [[0x61, 0x62], [0x63, 0x62]]"
    using lines_of_simps(2) [of "[0x61, 0x62]" "[0x63, 0x62]"] lines_of_simps(3) [of "[0x63, 0x62]"] by simp
  have c: "kernel_content sample_disk [0x66] = Some [0x61, 0x62, 0x0A, 0x63, 0x62]" "dnames sample_disk = [[0x2E], [0x66], [0x72, 0x74, 0x63]]"
    "kernel_content sample_disk [0x72, 0x74, 0x63] = Some []"
    by (simp_all add: kernel_content_def sample_disk_def)
  have t: "grep_text [0x61, 0x62, 0x0A, 0x63, 0x62]" "grep_text []" by (simp_all add: grep_text_def l lines_of_simps(1))
  then have n: "grep_names (kernel_content sample_disk) (dnames sample_disk)" by (simp add: grep_names_def c)
  have "contains [0x62] [0x61, 0x62 :: u8]" "contains [0x62] [0x63, 0x62 :: u8]" by (simp_all add: contains_def)
  then have "grep_all (kernel_content sample_disk) [0x62] (dnames sample_disk) = [0x66, 0x3A, 0x61, 0x62, 0x0A, 0x66, 0x3A, 0x63, 0x62, 0x0A]"
    by (simp add: grep_all_def grep_out_def c l lines_of_simps(1))
  then show ?thesis
    using grep_on_kernel [OF sample_driver p(1) _ _ n, of "replicate 33 0" "replicate 1024 0" "\<lambda>_. replicate 1025 0"] p(2,3) by auto
qed

end
