(* ===== verification/Syserr.thy ===== *)
theory Syserr
  imports Programs
begin

text \<open>
  \<^verbatim>\<open>syscalls/tmntsyserr.c\<close>: the program that tests the error returns of the system calls. The eight
  tests are shown to pass on the kernel's model.
\<close>

subsection \<open>The tests\<close>

abbreviation NEG_FD :: u32 where "NEG_FD \<equiv> - 1073741823"
abbreviation BIG_FD :: u32 where "BIG_FD \<equiv> 1073741823"
abbreviation BIG_NUM :: u32 where "BIG_NUM \<equiv> 1073741823"
abbreviation NEG_NUM :: u32 where "NEG_NUM \<equiv> - 1073741823"

definition call_sys :: "'s os \<Rightarrow> u32 \<Rightarrow> 's \<Rightarrow> (u32 \<times> 's) option" where
  "call_sys os num s = os_call os num s"

text \<open>The statement \<open>if (-1 != r) { fail = 2; tmnt_fdputs (1, msg); }\<close>, in either order.\<close>

definition expect_error :: "'s os \<Rightarrow> u8 list \<Rightarrow> u32 \<Rightarrow> u32 \<Rightarrow> 's \<Rightarrow> (u32 \<times> 's) option" where
  "expect_error os msg fail r s = (if - 1 \<noteq> r then do { s \<leftarrow> say os msg s; Some (2, s) } else Some (fail, s))"

text \<open>The end of a test: the verdict, and the value of \<open>fail\<close>.\<close>

definition verdict :: "'s os \<Rightarrow> string \<Rightarrow> u32 \<Rightarrow> 's \<Rightarrow> (u32 \<times> 's) option" where
  "verdict os name fail s =
     do { s \<leftarrow> say os (if fail \<noteq> 0 then lit_nl (name @ '': FAIL'') else lit_nl (name @ '': PASS'')) s; Some (fail, s) }"

definition err_bad_fd :: "'s os \<Rightarrow> string \<Rightarrow> u32 \<Rightarrow> u8 list \<Rightarrow> 's \<Rightarrow> (u32 \<times> 's) option" where
  "err_bad_fd os name fd buf s =
     do { (r, buf, s) \<leftarrow> tmnt_read os fd buf 0 31 s;
          (fail, s) \<leftarrow> expect_error os (lit_nl ''read fail'') 0 r s;
          (r, s) \<leftarrow> tmnt_write os fd buf 0 31 s;
          (fail, s) \<leftarrow> expect_error os (lit_nl ''write fail'') fail r s;
          (r, s) \<leftarrow> os_close os fd s;
          (fail, s) \<leftarrow> expect_error os (lit_nl ''close fail'') fail r s;
          verdict os name fail s }"

definition err_neg_fd :: "'s os \<Rightarrow> u8 list \<Rightarrow> 's \<Rightarrow> (u32 \<times> 's) option" where
  "err_neg_fd os buf s = err_bad_fd os ''err_neg_fd'' NEG_FD buf s"

definition err_big_fd :: "'s os \<Rightarrow> u8 list \<Rightarrow> 's \<Rightarrow> (u32 \<times> 's) option" where
  "err_big_fd os buf s = err_bad_fd os ''err_big_fd'' BIG_FD buf s"

primrec open_lots :: "'s os \<Rightarrow> nat \<Rightarrow> nat \<Rightarrow> 's \<Rightarrow> (nat \<times> 's) option" where
  "open_lots os 0 cnt s = Some (cnt, s)"
| "open_lots os (Suc n) cnt s =
     do { (r, s) \<leftarrow> tmnt_open os (lit ''.'') s; open_lots os n (if - 1 = r then cnt + 1 else cnt) s }"

primrec close_lots :: "'s os \<Rightarrow> nat list \<Rightarrow> 's \<Rightarrow> 's option" where
  "close_lots os [] s = Some s"
| "close_lots os (i # ks) s = do { (_, s) \<leftarrow> os_close os (of_nat i) s; close_lots os ks s }"

definition err_open_lots :: "'s os \<Rightarrow> 's \<Rightarrow> (u32 \<times> 's) option" where
  "err_open_lots os s =
     do { (cnt, s) \<leftarrow> open_lots os 7 0 s;
          s \<leftarrow> close_lots os [2..<8] s;
          if cnt = 1 then quit os (lit_nl ''err_open_lots: PASS'') 0 s
          else quit os (lit_nl ''err_open_lots: FAIL'') 2 s }"

definition err_open :: "'s os \<Rightarrow> 's \<Rightarrow> (u32 \<times> 's) option" where
  "err_open os s =
     do { (r, s) \<leftarrow> tmnt_open os (lit ''helloo'') s;
          (fail, s) \<leftarrow> expect_error os (lit_nl ([CHR 0x27] @ ''helloo'' @ [CHR 0x27] @ '' fail'')) 0 r s;
          (r, s) \<leftarrow> tmnt_open os (lit ''shel'') s;
          (fail, s) \<leftarrow> expect_error os (lit_nl ([CHR 0x27] @ ''shel'' @ [CHR 0x27] @ '' fail'')) fail r s;
          (r, s) \<leftarrow> tmnt_open os (lit '''') s;
          (fail, s) \<leftarrow> expect_error os (lit_nl ''empty string fail'') fail r s;
          verdict os ''err_open'' fail s }"

text \<open>The three loops of \<open>err_unopened\<close>.\<close>

primrec close_each :: "'s os \<Rightarrow> nat list \<Rightarrow> u32 \<Rightarrow> 's \<Rightarrow> (u32 \<times> 's) option" where
  "close_each os [] fail s = Some (fail, s)"
| "close_each os (i # ks) fail s =
     do { (r, s) \<leftarrow> os_close os (of_nat i) s;
          (fail, s) \<leftarrow> expect_error os (lit_nl ''close unopened or invalid fd fail'') fail r s;
          close_each os ks fail s }"

primrec read_each :: "'s os \<Rightarrow> nat list \<Rightarrow> u32 \<Rightarrow> u8 list \<Rightarrow> 's \<Rightarrow> (u32 \<times> u8 list \<times> 's) option" where
  "read_each os [] fail buf s = Some (fail, buf, s)"
| "read_each os (i # ks) fail buf s =
     do { (r, buf, s) \<leftarrow> tmnt_read os (of_nat i) buf 0 31 s;
          (fail, s) \<leftarrow> expect_error os (lit_nl ''read from unopened fd fail'') fail r s;
          read_each os ks fail buf s }"

primrec write_each :: "'s os \<Rightarrow> nat list \<Rightarrow> u32 \<Rightarrow> u8 list \<Rightarrow> 's \<Rightarrow> (u32 \<times> 's) option" where
  "write_each os [] fail buf s = Some (fail, s)"
| "write_each os (i # ks) fail buf s =
     do { (r, s) \<leftarrow> tmnt_write os (of_nat i) buf 0 31 s;
          (fail, s) \<leftarrow> expect_error os (lit_nl ''write to unopened fd fail'') fail r s;
          write_each os ks fail buf s }"

definition err_unopened :: "'s os \<Rightarrow> u8 list \<Rightarrow> 's \<Rightarrow> (u32 \<times> 's) option" where
  "err_unopened os buf s =
     do { (fail, s) \<leftarrow> close_each os [0..<8] 0 s;
          (fail, buf, s) \<leftarrow> read_each os [2..<8] fail buf s;
          (fail, s) \<leftarrow> write_each os [2..<8] fail buf s;
          verdict os ''err_unopened'' fail s }"

definition err_vidmap :: "'s os \<Rightarrow> 's \<Rightarrow> (u32 \<times> 's) option" where
  "err_vidmap os s =
     do { (r, s) \<leftarrow> os_vidmap os 0 s;
          (fail, s) \<leftarrow> expect_error os (lit_nl ''Null pointer fail'') 0 r s;
          (r, s) \<leftarrow> os_vidmap os 0x400000 s;
          (fail, s) \<leftarrow> expect_error os (lit_nl ''Kernel pointer fail fail'') fail r s;
          verdict os ''err_vidmap'' fail s }"

definition err_stdin_out :: "'s os \<Rightarrow> u8 list \<Rightarrow> 's \<Rightarrow> (u32 \<times> 's) option" where
  "err_stdin_out os buf s =
     do { (r, s) \<leftarrow> tmnt_write os 0 buf 0 31 s;
          (fail, s) \<leftarrow> expect_error os (lit_nl ''write to stdin fail'') 0 r s;
          (r, buf, s) \<leftarrow> tmnt_read os 1 buf 0 31 s;
          (fail, s) \<leftarrow> expect_error os (lit_nl ''read from stdout fail'') fail r s;
          verdict os ''err_stdin_out'' fail s }"

definition err_syscall_num :: "'s os \<Rightarrow> 's \<Rightarrow> (u32 \<times> 's) option" where
  "err_syscall_num os s =
     do { (r, s) \<leftarrow> call_sys os BIG_NUM s;
          (fail, s) \<leftarrow> expect_error os (lit_nl ''syscall 0 fail'') 0 r s;
          (r, s) \<leftarrow> call_sys os NEG_NUM s;
          (fail, s) \<leftarrow> expect_error os (lit_nl ''big num syscall fail'') fail r s;
          (r, s) \<leftarrow> call_sys os 0 s;
          (fail, s) \<leftarrow> expect_error os (lit_nl ''neg num syscall fail'') fail r s;
          verdict os ''err_syscall_num'' fail s }"

text \<open>\<open>case 0\<close> of \<open>main\<close>: all tests. \<open>junk\<close> gives the contents of the local arrays of the tests.\<close>

definition err_all :: "'s os \<Rightarrow> (nat \<Rightarrow> u8 list) \<Rightarrow> 's \<Rightarrow> (u32 \<times> 's) option" where
  "err_all os junk s =
     do { (a, s) \<leftarrow> err_neg_fd os (junk 1) s;
          (b, s) \<leftarrow> err_big_fd os (junk 2) s;
          (c, s) \<leftarrow> err_open_lots os s;
          (d, s) \<leftarrow> err_open os s;
          (e, s) \<leftarrow> err_unopened os (junk 5) s;
          (f, s) \<leftarrow> err_vidmap os s;
          (g, s) \<leftarrow> err_stdin_out os (junk 7) s;
          (h, s) \<leftarrow> err_syscall_num os s;
          let fail = a + b + c + d + e + f + g + h;
          s \<leftarrow> say os (if fail \<noteq> 0 then [0x0A] @ lit_nl ''Overall Tests: FAIL'' else [0x0A] @ lit_nl ''Overall Tests: PASS'') s;
          Some (fail, s) }"

definition syserr_main :: "'s os \<Rightarrow> u8 list \<Rightarrow> (nat \<Rightarrow> u8 list) \<Rightarrow> 's \<Rightarrow> (u32 \<times> 's) option" where
  "syserr_main os buf junk s =
     do { s \<leftarrow> say os (lit ''Choose from tests 1-8. 0 to run all: '') s;
          (cnt, buf, s) \<leftarrow> tmnt_read os 0 buf 0 127 s;
          if - 1 = cnt then quit os (lit_nl ''Can't read test #'') 2 s
          else do { c \<leftarrow> aget buf 0;
                    let select = uint c - uint (of_char CHR ''0'' :: u8);
                    if select = 0 then err_all os junk s
                    else if select = 1 then err_neg_fd os (junk 1) s
                    else if select = 2 then err_big_fd os (junk 2) s
                    else if select = 3 then err_open_lots os s
                    else if select = 4 then err_open os s
                    else if select = 5 then err_unopened os (junk 5) s
                    else if select = 6 then err_vidmap os s
                    else if select = 7 then err_stdin_out os (junk 7) s
                    else if select = 8 then err_syscall_num os s
                    else quit os (lit ''Invalid test number. Choose from tests 1-8 or 0'') 0 s } }"

subsection \<open>What the kernel refuses\<close>

text \<open>No file is open.\<close>

definition no_files :: "kstate \<Rightarrow> bool" where
  "no_files s \<longleftrightarrow> (\<forall>i. 2 \<le> i \<and> i < 8 \<longrightarrow> \<not> fd_in_use (current_fds s ! i))"

text \<open>A test has run: the process is as it was and its screen shows \<open>xs\<close> more.\<close>

definition tested :: "user_env \<Rightarrow> u32 \<Rightarrow> u32 \<Rightarrow> u8 list \<Rightarrow> kstate \<Rightarrow> kstate \<Rightarrow> bool" where
  "tested u P q xs s s' \<longleftrightarrow> user_ok u P q s' \<and> no_files s' \<and> task_view P s' = fold spec_putc xs (task_view P s)"

lemma tested_trans: "tested u P q xs s t \<Longrightarrow> tested u P q ys t v \<Longrightarrow> tested u P q (xs @ ys) s v"
  by (simp add: tested_def)

lemma testedD: "tested u P q xs s s' \<Longrightarrow> user_ok u P q s'" "tested u P q xs s s' \<Longrightarrow> no_files s'"
  by (simp_all add: tested_def)

lemma say_tested:
  assumes "user_ok u P q s" and "no_files s" and "holds_at a 0 (xs @ [0])" and "0 \<notin> set xs" and "0x08 \<notin> set xs" and "length xs \<le> 1025"
  shows "\<exists>s'. say (kernel_os u) a s = Some s' \<and> tested u P q xs s s'"
proof -
  obtain s' where s': "say (kernel_os u) a s = Some s'" "user_ok u P q s'" "same_process s s'" "task_view P s' = fold spec_putc xs (task_view P s)"
    using kernel_console.say_out [OF assms(1,3-6)] by (auto simp: kernel_console.puts_out_def)
  have "no_files s'" using assms(2) same_process_fds [OF s'(3)] by (simp add: no_files_def)
  then show ?thesis using s' by (auto simp: tested_def)
qed

lemma verdict_pass:
  assumes "user_ok u P q s" and "no_files s" and "0 \<notin> set (map of_char name :: u8 list)" and "0x08 \<notin> set (map of_char name :: u8 list)"
    and "length name \<le> 100"
  shows "\<exists>s'. verdict (kernel_os u) name 0 s = Some (0, s') \<and> tested u P q (map of_char (name @ '': PASS'') @ [0x0A]) s s'"
  using say_tested [OF assms(1,2) holds_at_lit(2) [of "name @ '': PASS''"]] assms(3-5) by (auto simp: verdict_def)

lemma expect_error_refused [simp]: "expect_error os m fail (- 1) s = Some (fail, s)"
  by (simp add: expect_error_def)

definition not_open :: "kstate \<Rightarrow> u32 \<Rightarrow> bool" where
  "not_open s fd \<longleftrightarrow> \<not> (2 \<le> unat fd \<and> unat fd < 8 \<and> fd_in_use (current_fds s ! unat fd))"

lemma refuse_read:
  assumes "not_open s fd" and "fd \<noteq> 0" and "ubuf u \<noteq> 0"
  shows "tmnt_read (kernel_os u) fd buf 0 31 s = Some (- 1, buf, s)"
proof -
  have "sys_read (kenv u) irqs fd (ubuf u) (of_nat 31) s = Some (- 1, s)" for irqs
  proof (cases "2 \<le> unat fd \<and> unat fd < 8")
    case True
    then have "\<not> (slt fd (of_nat FIRST_FD) \<or> slt (of_nat FD_ARRAY_SIZE - 1) fd)" by (simp only: fd_range)
    then show ?thesis using True assms by (simp add: sys_read_def not_open_def fd_in_use_def slt_def)
  next
    case False
    then have "slt fd (of_nat FIRST_FD) \<or> slt (of_nat FD_ARRAY_SIZE - 1) fd" using fd_range [of fd] by blast
    then show ?thesis using assms(2) by (simp only: sys_read_def simp_thms if_True)
  qed
  then have "kernel_read u fd 31 s = Some (- 1, [], s)" by (simp add: kernel_read_def mem_bytes_def slt_def)
  then show ?thesis by (simp add: tmnt_read_def kernel_os_def)
qed

lemma refuse_write:
  assumes "user_ok u P q s" and "no_files s" and "not_open s fd" and "fd \<noteq> 1" and "31 \<le> length buf"
  shows "\<exists>s'. tmnt_write (kernel_os u) fd buf 0 31 s = Some (- 1, s') \<and> tested u P q [] s s'"
proof -
  let ?s = "store_bytes (take 31 buf) (ubuf u) s"
  note o = user_ok_store [OF assms(1), of "take 31 buf"]
  have fds: "current_fds ?s = current_fds s" by (rule same_process_fds) (rule o(3), simp)
  have ub: "ubuf u \<noteq> 0" using assms(1) by (auto simp: user_ok_def)
  have "sys_write (kenv u) fd (ubuf u) (of_nat 31) ?s = Some (- 1, ?s)"
  proof (cases "2 \<le> unat fd \<and> unat fd < 8")
    case True
    then have "\<not> (slt fd (of_nat FIRST_FD) \<or> slt (of_nat FD_ARRAY_SIZE - 1) fd)" by (simp only: fd_range)
    then show ?thesis using True assms(3) ub by (simp add: sys_write_def not_open_def fd_in_use_def slt_def fds)
  next
    case False
    then have "slt fd (of_nat FIRST_FD) \<or> slt (of_nat FD_ARRAY_SIZE - 1) fd" using fd_range [of fd] by blast
    then show ?thesis using assms(4) by (simp only: sys_write_def simp_thms if_True)
  qed
  then have "tmnt_write (kernel_os u) fd buf 0 31 s = Some (- 1, ?s)"
    using assms(5) by (simp add: tmnt_write_def bytes_at_def kernel_os_def kernel_write_def)
  then show ?thesis using o(1,2) assms(2) fds by (auto simp: tested_def no_files_def)
qed

lemma refuse_close: "not_open s fd \<Longrightarrow> os_close (kernel_os u) fd s = Some (- 1, s)"
  by (auto simp: kernel_os_def sys_close_eq not_open_def)

lemma not_open_unused: "no_files s \<Longrightarrow> not_open s fd"
  by (auto simp: not_open_def no_files_def)

text \<open>The state between two tests; the steps of a test start and end in it.\<close>

lemma tested_refl: "user_ok u P q s \<Longrightarrow> no_files s \<Longrightarrow> tested u P q [] s s"
  by (simp add: tested_def)

lemma user_buf: "user_ok u P q s \<Longrightarrow> ubuf u \<noteq> 0"
  by (auto simp: user_ok_def)

subsection \<open>The tests pass\<close>

abbreviation pass_line :: "string \<Rightarrow> u8 list" where
  "pass_line name \<equiv> map of_char (name @ '': PASS'') @ [0x0A]"

lemma bad_fd_passes:
  assumes "user_ok u P q s" and "no_files s" and "fd \<noteq> 0" and "fd \<noteq> 1" and "length buf = 32"
    and "0 \<notin> set (map of_char name :: u8 list)" and "0x08 \<notin> set (map of_char name :: u8 list)" and "length name \<le> 100"
  shows "\<exists>s'. err_bad_fd (kernel_os u) name fd buf s = Some (0, s') \<and> tested u P q (pass_line name) s s'"
proof -
  have r: "tmnt_read (kernel_os u) fd buf 0 31 s = Some (- 1, buf, s)"
    by (rule refuse_read [OF not_open_unused [OF assms(2)] assms(3) user_buf [OF assms(1)]])
  obtain s1 where w: "tmnt_write (kernel_os u) fd buf 0 31 s = Some (- 1, s1)" "tested u P q [] s s1"
    using refuse_write [OF assms(1,2) not_open_unused [OF assms(2)] assms(4), of buf] assms(5) by auto
  note t = testedD [OF w(2)]
  have c: "os_close (kernel_os u) fd s1 = Some (- 1, s1)" by (rule refuse_close [OF not_open_unused [OF t(2)]])
  obtain s2 where v: "verdict (kernel_os u) name 0 s1 = Some (0, s2)" "tested u P q (pass_line name) s1 s2"
    using verdict_pass [OF t assms(6-8)] by auto
  show ?thesis using r w(1) c v(1) tested_trans [OF w(2) v(2)] by (simp add: err_bad_fd_def)
qed

lemma close_each_passes: "no_files s \<Longrightarrow> close_each (kernel_os u) ks fail s = Some (fail, s)"
  by (induction ks) (simp_all add: refuse_close not_open_unused)

lemma read_each_passes:
  assumes "no_files s" and "ubuf u \<noteq> 0" and "\<And>i. i \<in> set ks \<Longrightarrow> 0 < i \<and> i < 8"
  shows "read_each (kernel_os u) ks fail buf s = Some (fail, buf, s)"
  using assms(3)
proof (induction ks)
  case (Cons i ks)
  have "0 < i" "i < 8" using Cons.prems [of i] by simp_all
  then have "(of_nat i :: u32) \<noteq> 0" using small_count(3) [of i] by auto
  then show ?case using Cons refuse_read [OF not_open_unused [OF assms(1)] _ assms(2)] by simp
qed simp

lemma write_each_passes:
  assumes "user_ok u P q s" and "no_files s" and "31 \<le> length buf" and "\<And>i. i \<in> set ks \<Longrightarrow> 1 < i \<and> i < 8"
  shows "\<exists>s'. write_each (kernel_os u) ks fail buf s = Some (fail, s') \<and> tested u P q [] s s'"
  using assms(1,2,4)
proof (induction ks arbitrary: s)
  case Nil
  then show ?case by (simp add: tested_refl)
next
  case (Cons i ks)
  then have "i < 8" "1 < i" by simp_all
  then have "(of_nat i :: u32) \<noteq> 1" using small_fd(1) [of i] by auto
  then obtain s1 where s1: "tmnt_write (kernel_os u) (of_nat i) buf 0 31 s = Some (- 1, s1)" "tested u P q [] s s1"
    using refuse_write [OF Cons.prems(1,2) not_open_unused [OF Cons.prems(2)] _ assms(3), of "of_nat i"] by auto
  obtain s2 where s2: "write_each (kernel_os u) ks fail buf s1 = Some (fail, s2)" "tested u P q [] s1 s2"
    using Cons.IH [OF testedD [OF s1(2)]] Cons.prems(3) by auto
  show ?case using s1(1) s2(1) tested_trans [OF s1(2) s2(2)] by simp
qed

lemma string_lit: "0 \<notin> set (map of_char str :: u8 list) \<Longrightarrow> string_at (lit str) 0 = Some (map of_char str)"
  by (rule string_at_holds(2) [OF holds_at_lit(1)])

lemma no_room:
  assumes "user_ok u P q s" and "kernel_room s = 0"
  shows "sys_open e f s = (- 1, s)"
proof (rule sys_open_full, intro allI impI)
  fix i :: nat assume i: "2 \<le> i \<and> i < 8"
  have "finite {i. 2 \<le> i \<and> i < 8 \<and> \<not> fd_in_use (current_fds s ! i)}" by simp
  then have "{i. 2 \<le> i \<and> i < 8 \<and> \<not> fd_in_use (current_fds s ! i)} = {}"
    using assms(2) unfolding kernel_room_def by (simp only: card_0_eq)
  then have "fd_in_use (current_fds s ! i)" using i by blast
  then show "fd_used (current_fds s) i" using i assms(1) by (simp add: fd_used_def user_ok_def)
qed

lemma open_lots_counts:
  assumes "file_driver (kenv u) k"
  shows "user_ok u P q s \<Longrightarrow> \<exists>s'. open_lots (kernel_os u) n cnt s = Some (cnt + (n - kernel_room s), s') \<and> user_ok u P q s' \<and> task_view P s' = task_view P s"
proof (induction n arbitrary: s cnt)
  case (Suc n)
  have d: "string_at (lit ''.'') 0 = Some [0x2E]" using string_lit [of "''.''"] by simp
  show ?case
  proof (cases "kernel_room s = 0")
    case True
    then have "os_open (kernel_os u) [0x2E] s = Some (- 1, s)" using no_room [OF Suc.prems] by (simp add: kernel_os_def)
    then show ?thesis using Suc.IH [OF Suc.prems, of "cnt + 1"] d True by (simp add: tmnt_open_def)
  next
    case False
    then obtain fd s1 where s1: "os_open (kernel_os u) [0x2E] s = Some (fd, s1)" "fd \<noteq> - 1" "user_ok u P q s1"
      "task_view P s1 = task_view P s" "kernel_room s1 = kernel_room s - 1"
      using kernel_open_dir [OF assms Suc.prems] by (auto simp: kernel_os_def gets_fd_def)
    then show ?thesis using Suc.IH [OF s1(3), of cnt] d False by (auto simp: tmnt_open_def)
  qed
qed simp

lemma close_lots_closes:
  assumes "user_ok u P q s" and "\<And>i. i \<in> set ks \<Longrightarrow> 2 \<le> i \<and> i < 8"
  shows "\<exists>s'. close_lots (kernel_os u) ks s = Some s' \<and> user_ok u P q s' \<and> task_view P s' = task_view P s
    \<and> (\<forall>i. i < 8 \<longrightarrow> fd_in_use (current_fds s' ! i) \<longleftrightarrow> fd_in_use (current_fds s ! i) \<and> i \<notin> set ks)"
  using assms
proof (induction ks arbitrary: s)
  case (Cons j ks)
  have j: "2 \<le> j" "j < 8" using Cons.prems(2) [of j] by simp_all
  have len: "length (current_fds s) = 8" using Cons.prems(1) by (simp add: user_ok_def)
  define s1 where "s1 = snd (sys_close (of_nat j) s)"
  have c: "os_close (kernel_os u) (of_nat j) s = Some (fst (sys_close (of_nat j) s), s1)" by (simp add: kernel_os_def s1_def)
  have ok: "user_ok u P q s1" "task_view P s1 = task_view P s"
    using user_ok_upd_fd [OF Cons.prems(1) j(1)] Cons.prems(1) by (simp_all add: s1_def sys_close_eq small_fd(1) [OF j(2)])
  have f: "fd_in_use (current_fds s1 ! i) \<longleftrightarrow> fd_in_use (current_fds s ! i) \<and> i \<noteq> j" if "i < 8" for i
    using fun_cong [OF sys_close_fds(2) [OF j len], of i] sys_close_fds(1) [OF j len] that len by (auto simp: s1_def fd_used_def split: if_splits)
  obtain s2 where s2: "close_lots (kernel_os u) ks s1 = Some s2" "user_ok u P q s2" "task_view P s2 = task_view P s1"
    "\<forall>i. i < 8 \<longrightarrow> fd_in_use (current_fds s2 ! i) \<longleftrightarrow> fd_in_use (current_fds s1 ! i) \<and> i \<notin> set ks"
    using Cons.IH [OF ok(1)] Cons.prems(2) by auto
  show ?case using c s2 ok(2) f by auto
qed simp

lemma open_lots_passes:
  assumes "file_driver (kenv u) k" and "user_ok u P q s" and "no_files s"
  shows "\<exists>s'. err_open_lots (kernel_os u) s = Some (0, s') \<and> tested u P q (pass_line ''err_open_lots'') s s'"
proof -
  have "{i. 2 \<le> i \<and> i < 8 \<and> \<not> fd_in_use (current_fds s ! i)} = {2..<8}" using assms(3) by (auto simp: no_files_def)
  then have "kernel_room s = 6" unfolding kernel_room_def by simp
  then obtain s1 where s1: "open_lots (kernel_os u) 7 0 s = Some (1, s1)" "user_ok u P q s1" "task_view P s1 = task_view P s"
    using open_lots_counts [OF assms(1,2), of 7 0] by auto
  obtain s2 where s2: "close_lots (kernel_os u) [2..<8] s1 = Some s2" "user_ok u P q s2" "task_view P s2 = task_view P s1"
    "\<forall>i. i < 8 \<longrightarrow> fd_in_use (current_fds s2 ! i) \<longleftrightarrow> fd_in_use (current_fds s1 ! i) \<and> i \<notin> set [2..<8]"
    using close_lots_closes [OF s1(2), of "[2..<8]"] by (auto simp del: upt_rec_numeral)
  then have t: "tested u P q [] s s2" using s1(3) by (auto simp: tested_def no_files_def simp del: upt_rec_numeral)
  obtain s3 where s3: "say (kernel_os u) (lit_nl ''err_open_lots: PASS'') s2 = Some s3" "tested u P q (pass_line ''err_open_lots'') s2 s3"
    using say_tested [OF testedD [OF t] holds_at_lit(2) [of "''err_open_lots: PASS''"]] by auto
  show ?thesis using s1(1) s2(1) s3(1) tested_trans [OF t s3(2)] by (simp add: err_open_lots_def quit_def del: upt_rec_numeral)
qed

lemma open_passes:
  assumes "file_driver (kenv u) k" and "user_ok u P q s" and "no_files s"
    and "\<And>f. f \<in> {''helloo'', ''shel'', ''''} \<Longrightarrow> kernel_content k (map of_char f) = None"
  shows "\<exists>s'. err_open (kernel_os u) s = Some (0, s') \<and> tested u P q (pass_line ''err_open'') s s'"
proof -
  have o: "tmnt_open (kernel_os u) (lit f) s = Some (- 1, s)" if "f \<in> {''helloo'', ''shel'', ''''}" for f
  proof -
    have "(0 :: u8) \<notin> set (map of_char f)" "map of_char f \<noteq> [0x2E :: u8]" using that by auto
    then show ?thesis using kernel_open_missing [OF assms(1) _ assms(4) [OF that]] string_lit [of f] by (simp add: tmnt_open_def)
  qed
  obtain s' where "verdict (kernel_os u) ''err_open'' 0 s = Some (0, s')" "tested u P q (pass_line ''err_open'') s s'"
    using verdict_pass [OF assms(2,3), of "''err_open''"] by auto
  then show ?thesis using o [of "''helloo''"] o [of "''shel''"] o [of "''''"] by (simp add: err_open_def)
qed

lemma unopened_passes:
  assumes "user_ok u P q s" and "no_files s" and "length buf = 32"
  shows "\<exists>s'. err_unopened (kernel_os u) buf s = Some (0, s') \<and> tested u P q (pass_line ''err_unopened'') s s'"
proof -
  obtain s1 where s1: "write_each (kernel_os u) [2..<8] 0 buf s = Some (0, s1)" "tested u P q [] s s1"
    using write_each_passes [OF assms(1,2), of buf "[2..<8]" 0] assms(3) by (auto simp del: upt_rec_numeral)
  obtain s2 where s2: "verdict (kernel_os u) ''err_unopened'' 0 s1 = Some (0, s2)" "tested u P q (pass_line ''err_unopened'') s1 s2"
    using verdict_pass [OF testedD [OF s1(2)], of "''err_unopened''"] by auto
  have "read_each (kernel_os u) [2..<8] 0 buf s = Some (0, buf, s)"
    by (rule read_each_passes [OF assms(2) user_buf [OF assms(1)]]) auto
  then show ?thesis
    using close_each_passes [OF assms(2)] s1(1) s2(1) tested_trans [OF s1(2) s2(2)] by (simp add: err_unopened_def del: upt_rec_numeral)
qed

lemma vidmap_passes:
  assumes "user_ok u P q s" and "no_files s"
  shows "\<exists>s'. err_vidmap (kernel_os u) s = Some (0, s') \<and> tested u P q (pass_line ''err_vidmap'') s s'"
proof -
  have "os_vidmap (kernel_os u) 0 s = Some (- 1, s)" "os_vidmap (kernel_os u) 0x400000 s = Some (- 1, s)"
    by (simp_all add: kernel_os_def sys_vidmap_def)
  then show ?thesis using verdict_pass [OF assms, of "''err_vidmap''"] by (auto simp: err_vidmap_def)
qed

lemma stdin_out_passes:
  assumes "user_ok u P q s" and "no_files s" and "length buf = 32"
  shows "\<exists>s'. err_stdin_out (kernel_os u) buf s = Some (0, s') \<and> tested u P q (pass_line ''err_stdin_out'') s s'"
proof -
  obtain s1 where s1: "tmnt_write (kernel_os u) 0 buf 0 31 s = Some (- 1, s1)" "tested u P q [] s s1"
    using refuse_write [OF assms(1,2) not_open_unused [OF assms(2)], of 0 buf] assms(3) by auto
  note t = testedD [OF s1(2)]
  have r: "tmnt_read (kernel_os u) 1 buf 0 31 s1 = Some (- 1, buf, s1)"
    by (rule refuse_read [OF not_open_unused [OF t(2)] _ user_buf [OF assms(1)]]) simp
  obtain s2 where s2: "verdict (kernel_os u) ''err_stdin_out'' 0 s1 = Some (0, s2)" "tested u P q (pass_line ''err_stdin_out'') s1 s2"
    using verdict_pass [OF t, of "''err_stdin_out''"] by auto
  show ?thesis using s1(1) r s2(1) tested_trans [OF s1(2) s2(2)] by (simp add: err_stdin_out_def)
qed

lemma syscall_num_passes:
  assumes "user_ok u P q s" and "no_files s" and "\<And>n t. n \<in> {BIG_NUM, NEG_NUM, 0} \<Longrightarrow> dispatch u n t = Some (- 1, t)"
  shows "\<exists>s'. err_syscall_num (kernel_os u) s = Some (0, s') \<and> tested u P q (pass_line ''err_syscall_num'') s s'"
proof -
  have "call_sys (kernel_os u) n t = Some (- 1, t)" if "n \<in> {BIG_NUM, NEG_NUM, 0}" for n t
    using assms(3) [OF that] by (simp add: call_sys_def kernel_os_def)
  then show ?thesis using verdict_pass [OF assms(1,2), of "''err_syscall_num''"] by (auto simp: err_syscall_num_def)
qed

lemma room_all:
  assumes "kernel_room s = 6"
  shows "no_files s"
proof -
  let ?F = "{i. 2 \<le> i \<and> i < 8 \<and> \<not> fd_in_use (current_fds s ! i)}"
  have "?F = {2..<8}"
  proof (rule card_subset_eq)
    show "card ?F = card {2..<8 :: nat}" using assms unfolding kernel_room_def by simp
  qed (simp_all add: subset_iff)
  then have "i \<in> ?F" if "2 \<le> i \<and> i < 8" for i using that by simp
  then show ?thesis unfolding no_files_def by blast
qed

text \<open>C8. The error tests of \<^verbatim>\<open>syscalls/tmntsyserr.c\<close> pass on the kernel. For a process with no file open, on a
  file system with no file named \<open>helloo\<close>, \<open>shel\<close> or the empty string, and with a handler of interrupt 0x80 that
  refuses the three call numbers that name no call, every one of the eight tests ends and returns 0: the kernel
  refuses negative, too large, unopened and wrong-way descriptors, the seventh open, names one character off, and
  the null and kernel pointers; the run shows the eight lines of passed tests and the overall verdict on the screen
  of the task, and leaves the process with no file open.\<close>

theorem syserr_passes_on_kernel:
  assumes "file_driver (kenv u) k" and "user_ok u P q s" and "no_files s"
    and "\<And>f. f \<in> {''helloo'', ''shel'', ''''} \<Longrightarrow> kernel_content k (map of_char f) = None"
    and "\<And>n t. n \<in> {BIG_NUM, NEG_NUM, 0} \<Longrightarrow> dispatch u n t = Some (- 1, t)"
    and "\<And>j. length (junk j) = 32"
  shows "\<exists>s'. err_all (kernel_os u) junk s = Some (0, s')
    \<and> tested u P q (concat (map pass_line [''err_neg_fd'', ''err_big_fd'', ''err_open_lots'', ''err_open'', ''err_unopened'',
        ''err_vidmap'', ''err_stdin_out'', ''err_syscall_num'']) @ 0x0A # pass_line ''Overall Tests'') s s'"
proof -
  obtain s1 where s1: "err_neg_fd (kernel_os u) (junk 1) s = Some (0, s1)" "tested u P q (pass_line ''err_neg_fd'') s s1"
    using bad_fd_passes [OF assms(2,3), of NEG_FD "junk 1" "''err_neg_fd''"] assms(6) by (auto simp: err_neg_fd_def)
  obtain s2 where s2: "err_big_fd (kernel_os u) (junk 2) s1 = Some (0, s2)" "tested u P q (pass_line ''err_big_fd'') s1 s2"
    using bad_fd_passes [OF testedD [OF s1(2)], of BIG_FD "junk 2" "''err_big_fd''"] assms(6) by (auto simp: err_big_fd_def)
  obtain s3 where s3: "err_open_lots (kernel_os u) s2 = Some (0, s3)" "tested u P q (pass_line ''err_open_lots'') s2 s3"
    using open_lots_passes [OF assms(1) testedD [OF s2(2)]] by blast
  obtain s4 where s4: "err_open (kernel_os u) s3 = Some (0, s4)" "tested u P q (pass_line ''err_open'') s3 s4"
    using open_passes [OF assms(1) testedD [OF s3(2)] assms(4)] by blast
  obtain s5 where s5: "err_unopened (kernel_os u) (junk 5) s4 = Some (0, s5)" "tested u P q (pass_line ''err_unopened'') s4 s5"
    using unopened_passes [OF testedD [OF s4(2)] assms(6)] by blast
  obtain s6 where s6: "err_vidmap (kernel_os u) s5 = Some (0, s6)" "tested u P q (pass_line ''err_vidmap'') s5 s6"
    using vidmap_passes [OF testedD [OF s5(2)]] by blast
  obtain s7 where s7: "err_stdin_out (kernel_os u) (junk 7) s6 = Some (0, s7)" "tested u P q (pass_line ''err_stdin_out'') s6 s7"
    using stdin_out_passes [OF testedD [OF s6(2)] assms(6)] by blast
  obtain s8 where s8: "err_syscall_num (kernel_os u) s7 = Some (0, s8)" "tested u P q (pass_line ''err_syscall_num'') s7 s8"
    using syscall_num_passes [OF testedD [OF s7(2)] assms(5)] by blast
  obtain s9 where s9: "say (kernel_os u) ([0x0A] @ lit_nl ''Overall Tests: PASS'') s8 = Some s9"
    "tested u P q (0x0A # pass_line ''Overall Tests'') s8 s9"
    using say_tested [OF testedD [OF s8(2)], of "[0x0A] @ lit_nl ''Overall Tests: PASS''" "0x0A # pass_line ''Overall Tests''"]
    by (auto simp: holds_at_def lit_nl_def)
  note t = tested_trans [OF s1(2) tested_trans [OF s2(2) tested_trans [OF s3(2) tested_trans [OF s4(2) tested_trans [OF s5(2)
    tested_trans [OF s6(2) tested_trans [OF s7(2) tested_trans [OF s8(2) s9(2)]]]]]]]]
  show ?thesis using s1(1) s2(1) s3(1) s4(1) s5(1) s6(1) s7(1) s8(1) s9(1) t by (simp add: err_all_def)
qed

theorem syserr_passes_on_kernel_witness:
  "\<exists>s'. err_all (kernel_os sample_user) (\<lambda>_. replicate 32 0) (sample_process []) = Some (0, s')
     \<and> tested sample_user VIDEO 0x8048000 (concat (map pass_line [''err_neg_fd'', ''err_big_fd'', ''err_open_lots'', ''err_open'',
        ''err_unopened'', ''err_vidmap'', ''err_stdin_out'', ''err_syscall_num'']) @ 0x0A # pass_line ''Overall Tests'') (sample_process []) s'"
proof -
  note p = sample_process_ok [of "[]"]
  show ?thesis
  proof (rule syserr_passes_on_kernel [OF sample_driver])
    show "user_ok sample_user VIDEO 0x8048000 (sample_process [])" using p(1) by simp
    show "no_files (sample_process [])" using p(3) room_all by simp
    show "kernel_content sample_disk (map of_char f) = None" if "f \<in> {''helloo'', ''shel'', ''''}" for f
      using that by (auto simp: kernel_content_def sample_disk_def)
    show "dispatch sample_user n t = Some (- 1, t)" for n t by (simp add: sample_user_def)
    show "length (replicate 32 (0 :: u8)) = 32" by simp
  qed
qed

end
