(* ===== verification/Fish_Kernel.thy ===== *)
theory Fish_Kernel
  imports Fish Syserr
begin

text \<open>
  The animation of \<^verbatim>\<open>fish/fish.c\<close> with its two files read from the kernel's file system.
\<close>

lemma not_open_upd:
  assumes "current_fds s' = (current_fds s)[unat fd := d]" and "2 \<le> unat fd" and "unat fd < 8" and "length (current_fds s) = 8"
  shows "not_open s' = (not_open s)(fd := \<not> fd_in_use d)"
proof (rule ext)
  fix g :: u32
  show "not_open s' g = ((not_open s)(fd := \<not> fd_in_use d)) g"
  proof (cases "g = fd")
    case True
    then show ?thesis using assms by (simp add: not_open_def)
  next
    case False
    then have "unat g \<noteq> unat fd" by (simp add: word_unat_eq_iff)
    then show ?thesis using False assms(1) by (simp add: not_open_def)
  qed
qed

lemma kernel_read_not_open:
  assumes "file_driver (kenv u) k" and "user_ok u P q s" and "kernel_rest k s fd = Some bs" and "n \<le> 1024"
    and "kernel_read u fd n s = Some (r, xs, s')"
  shows "not_open s' = not_open s"
  using assms(3)
proof (cases rule: kernel_restD)
  case 1
  let ?d = "current_fds s ! unat fd"
  note f = open_asD [OF 1(1)]
  have len: "length (current_fds s) = 8" using assms(2) by (simp add: user_ok_def)
  have s': "s' = advance fd (of_nat (length (take n bs))) (ubuf u) (take n bs) s"
    using kernel_read_file(1) [OF assms(1,2) 1(1) assms(4) 1(2)] assms(5) by simp
  have "current_fds s' = (current_fds s)[unat fd := ?d\<lparr>position := position ?d + of_nat (length (take n bs))\<rparr>]"
    unfolding s' using user_ok_advance(4) [OF assms(2) f(1)] assms(4) by simp
  from not_open_upd [OF this f(1,2) len] show ?thesis
    using f(3) by (auto simp: fun_eq_iff fd_in_use_def not_open_def f(1,2))
next
  case 2
  then have "current_fds s' = current_fds s"
    using kernel_read_device [OF assms(1,2) 2(1,3) assms(4)] assms(5) rtc_frame_process(3) by auto
  then show ?thesis by (simp add: fun_eq_iff not_open_def)
qed

lemma kernel_closes:
  assumes "file_driver (kenv u) k"
  shows "closing_os (kernel_os u) (user_ok u P q) (task_view P) (\<lambda>bs. fold spec_putc bs) same_process
    (kernel_rest k) (kernel_dir k) kernel_room kernel_args (kernel_content k) (dnames k) not_open"
proof (intro closing_os.intro kernel_files [OF assms] closing_os_axioms.intro, goal_cases)
  case (1 s fd bs n r xs s')
  then show ?case using kernel_read_not_open [OF assms] by (simp add: kernel_os_def)
next
  case (2 s fd bs r s')
  then obtain ops where o: "open_as s fd ops" using kernel_rest_open(1) by blast
  note f = open_asD [OF o]
  have len: "length (current_fds s) = 8" using 2(1) by (simp add: user_ok_def)
  have "s' = upd_fd (unat fd) (\<lambda>d. d\<lparr>fd_flags := fd_flags d AND NOT FD_IN_USE\<rparr>) s" using 2(3) f by (simp add: kernel_os_def sys_close_eq)
  then show ?case using not_open_upd [OF _ f(1,2) len, of s'] fd_in_use_clear by simp
next
  case (3 s fd)
  then show ?case by (intro refuse_close) simp
next
  case (4 s fd bs)
  then obtain ops where o: "open_as s fd ops" using kernel_rest_open(1) by blast
  show ?case using open_asD(2) [OF o] by (simp add: slt_unat)
qed

interpretation sample_closing: closing_os "kernel_os sample_user" "user_ok sample_user P q" "task_view P" "\<lambda>bs. fold spec_putc bs"
  same_process "kernel_rest sample_disk" "kernel_dir sample_disk" kernel_room kernel_args "kernel_content sample_disk" "dnames sample_disk" not_open
  for P q
  by (rule kernel_closes [OF sample_driver])

text \<open>C7. The animation on the kernel. When the two frame files are in the file system, with at most 25 rows of at most
  40 characters, \<open>add_frames\<close> reads both to their ends and adds their cells; from then on, after any number \<open>n\<close> of
  clock ticks, every cell of the right half of the screen that is blank in both texts is as it was, and every other
  one shows the first text while \<open>n mod 30\<close> is below 15 and the second text in the rest of the period. The console of
  the process is not touched.\<close>

theorem fish_animates:
  assumes "file_driver (kenv u) k" and "user_ok u P q s" and "2 \<le> kernel_room s"
    and "kernel_content k (map of_char ''frame0.txt'') = Some x0" and "kernel_content k (map of_char ''frame1.txt'') = Some x1"
    and "fits (rows_of x0)" and "fits (rows_of x1)"
  shows "\<exists>t s'. add_frames (kernel_os u) junk (lit ''frame0.txt'') (lit ''frame1.txt'') (cleared v) s = Some (Inr (t, s'))
    \<and> user_ok u P q s' \<and> task_view P s' = task_view P s
    \<and> (\<forall>n. \<exists>t'. serve_all serve (replicate n Clock) t = Some (replicate n 0, t')
        \<and> (\<forall>r<25. \<forall>j<40. vmem t' (2 * (r * 80 + j + 40)) =
              frame_cell n (text_char (rows_of x0) r j) (text_char (rows_of x1) r j) (v (2 * (r * 80 + j + 40)))))"
proof -
  let ?b = "junk\<lparr>on_length := 15, off_length := 15\<rparr>"
  let ?us = "frame_cells ?b 0 (rows_of x0) (rows_of x1)"
  have run: "\<exists>t'. serve_all serve (map Add ?us @ replicate n Clock) (cleared v) = Some (replicate (length ?us + n) 0, t')
    \<and> (\<forall>r<25. \<forall>j<40. vmem t' (2 * (r * 80 + j + 40)) =
        frame_cell n (text_char (rows_of x0) r j) (text_char (rows_of x1) r j) (v (2 * (r * 80 + j + 40))))" for n
    using cells_animate [OF assms(6,7), of ?b n v] by simp
  obtain t where t: "serve_all serve (map Add ?us) (cleared v) = Some (replicate (length ?us) 0, t)" using run [of 0] by auto
  have str: "string_at (lit ''frame0.txt'') 0 = Some (map of_char ''frame0.txt'')" "string_at (lit ''frame1.txt'') 0 = Some (map of_char ''frame1.txt'')"
    by (rule string_lit; simp)+
  obtain s' where s': "add_frames (kernel_os u) junk (lit ''frame0.txt'') (lit ''frame1.txt'') (cleared v) s = Some (Inr (t, s'))"
    "user_ok u P q s'" "task_view P s' = task_view P s"
    using closing_os.add_frames_out [OF kernel_closes [OF assms(1)] assms(2-5) str t] by blast
  have "\<exists>t'. serve_all serve (replicate n Clock) t = Some (replicate n 0, t')
        \<and> (\<forall>r<25. \<forall>j<40. vmem t' (2 * (r * 80 + j + 40)) =
              frame_cell n (text_char (rows_of x0) r j) (text_char (rows_of x1) r j) (v (2 * (r * 80 + j + 40))))" for n
    using run [of n] unfolding serve_all_append t by (auto simp: bind_eq_Some_conv replicate_add)
  then show ?thesis using s' by blast
qed

text \<open>Two frames of one character each.\<close>

definition fish_disk :: disk where
  "fish_disk = \<lparr>dfiles = \<lambda>f. if f = map of_char ''frame0.txt'' then Some 1 else if f = map of_char ''frame1.txt'' then Some 2 else None,
     ddata = \<lambda>i. if i = 1 then [0x2F] else if i = 2 then [0x5C] else [], ddevs = [], dnames = []\<rparr>"

definition fish_user :: user_env where
  "fish_user = sample_user\<lparr>kenv := disk_env fish_disk\<rparr>"

theorem fish_animates_witness:
  "\<exists>t s' t'. add_frames (kernel_os fish_user) zero_blink (lit ''frame0.txt'') (lit ''frame1.txt'') (cleared (\<lambda>_. 0)) (sample_process []) = Some (Inr (t, s'))
     \<and> serve_all serve (replicate 20 Clock) t = Some (replicate 20 0, t') \<and> vmem t' 80 = 0x5C \<and> vmem t' 82 = 0"
proof -
  note p = sample_process_ok [of "[]"]
  have d: "file_driver (kenv fish_user) fish_disk"
    unfolding fish_user_def by simp (rule disk_env_driver, auto simp: fish_disk_def)
  have ok: "user_ok fish_user VIDEO 0x8048000 (sample_process [])" using p(1) by (simp add: user_ok_def fish_user_def)
  have c: "kernel_content fish_disk (map of_char ''frame0.txt'') = Some [0x2F]" "kernel_content fish_disk (map of_char ''frame1.txt'') = Some [0x5C]"
    by (simp_all add: kernel_content_def fish_disk_def)
  have r: "rows_of [0x2F] = [[0x2F]]" "rows_of [0x5C] = [[0x5C]]" by (simp_all add: rows_of.simps)
  have f: "fits (rows_of [0x2F])" "fits (rows_of [0x5C])" by (simp_all add: r fits_def)
  obtain t s' where t: "add_frames (kernel_os fish_user) zero_blink (lit ''frame0.txt'') (lit ''frame1.txt'') (cleared (\<lambda>_. 0)) (sample_process []) = Some (Inr (t, s'))"
    "\<And>n. \<exists>t'. serve_all serve (replicate n Clock) t = Some (replicate n 0, t') \<and> (\<forall>r<25. \<forall>j<40. vmem t' (2 * (r * 80 + j + 40)) =
      frame_cell n (text_char (rows_of [0x2F]) r j) (text_char (rows_of [0x5C]) r j) 0)"
    using fish_animates [OF d ok _ c f, of zero_blink "\<lambda>_. 0"] p(3) by auto
  obtain t' where t': "serve_all serve (replicate 20 Clock) t = Some (replicate 20 0, t')"
    "\<And>r j. r < 25 \<Longrightarrow> j < 40 \<Longrightarrow> vmem t' (2 * (r * 80 + j + 40)) = frame_cell 20 (text_char (rows_of [0x2F]) r j) (text_char (rows_of [0x5C]) r j) 0"
    using t(2) [of 20] by blast
  have "vmem t' 80 = 0x5C" "vmem t' 82 = 0"
    using t'(2) [of 0 0] t'(2) [of 0 1] by (simp_all add: r frame_cell_def text_char_def line_char_def blank_def visible_def)
  then show ?thesis using t(1) t'(1) by blast
qed

end
