(* ===== verification/Emulate.thy ===== *)
theory Emulate
  imports User_Files
begin

text \<open>
  \<^verbatim>\<open>syscalls/tmntemulate.c\<close>: the system call library over Linux, with which the programs are tried out on the
  host (\<^verbatim>\<open>fish/tmntemulate.c\<close> is the same file). What Linux answers is the argument \<open>lx\<close>.
\<close>

subsection \<open>The host\<close>

datatype wait_status = Exited u8 | Signalled nat   \<comment> \<open>\<open>WEXITSTATUS\<close>, \<open>WTERMSIG\<close>\<close>

record 's linux =
  lx_read :: "u32 \<Rightarrow> nat \<Rightarrow> 's \<Rightarrow> u32 \<times> u8 list \<times> 's"
  lx_write :: "u32 \<Rightarrow> u8 list \<Rightarrow> 's \<Rightarrow> u32 \<times> 's"
  lx_close :: "u32 \<Rightarrow> 's \<Rightarrow> u32 \<times> 's"
  lx_open :: "u8 list \<Rightarrow> 's \<Rightarrow> u32 \<times> 's"   \<comment> \<open>for reading\<close>
  lx_opendir :: "'s \<Rightarrow> nat option \<times> 's"   \<comment> \<open>of the current directory\<close>
  lx_devnull :: "'s \<Rightarrow> u32 \<times> 's"
  lx_readdir :: "nat \<Rightarrow> 's \<Rightarrow> u8 list option \<times> 's"
  lx_closedir :: "nat \<Rightarrow> 's \<Rightarrow> 's"
  lx_devmem :: "'s \<Rightarrow> u32 \<times> 's"
  lx_mmap :: "u32 \<Rightarrow> 's \<Rightarrow> u32 option \<times> 's"   \<comment> \<open>of the first megabyte\<close>
  lx_run :: "u8 list \<Rightarrow> u8 list list \<Rightarrow> 's \<Rightarrow> (wait_status \<times> 's) option"   \<comment> \<open>\<open>fork\<close>, \<open>execv\<close> or signal 9, \<open>wait\<close>\<close>

text \<open>The file-level variables \<open>dir\<close>, \<open>dir_fd\<close> and \<open>mem_fd\<close>.\<close>

record emu =
  emu_dir :: "nat option"
  emu_dir_fd :: u32
  emu_mem_fd :: u32

definition emu_start :: emu where
  "emu_start = \<lparr>emu_dir = None, emu_dir_fd = - 1, emu_mem_fd = - 1\<rparr>"

text \<open>The end of \<open>DO_CALL\<close>: an error number becomes -1.\<close>

definition do_call :: "u32 \<Rightarrow> u32" where
  "do_call r = (if r \<le> 0xFFFFC000 then r else - 1)"

subsection \<open>Running programs\<close>

abbreviation SP :: u8 where "SP \<equiv> 0x20"
abbreviation LF :: u8 where "LF \<equiv> 0x0A"

definition word_char :: "u8 \<Rightarrow> bool" where
  "word_char c \<longleftrightarrow> c \<noteq> 0 \<and> c \<noteq> SP \<and> c \<noteq> LF"

function emu_word :: "u8 list \<Rightarrow> nat \<Rightarrow> nat option" where
  "emu_word buf scan = do { c \<leftarrow> aget buf scan; if word_char c then emu_word buf (scan + 1) else Some scan }"
  by pat_completeness auto
termination
  by (relation "measure (\<lambda>(buf, scan). length buf - scan)") (auto simp: aget_eq_Some)

function emu_spaces :: "u8 list \<Rightarrow> nat \<Rightarrow> nat option" where
  "emu_spaces buf scan = do { c \<leftarrow> aget buf scan; if c = SP then emu_spaces buf (scan + 1) else Some scan }"
  by pat_completeness auto
termination
  by (relation "measure (\<lambda>(buf, scan). length buf - scan)") (auto simp: aget_eq_Some)

declare emu_word.simps [simp del] emu_spaces.simps [simp del]

text \<open>The loop over the arguments: the positions of the pointers of \<open>args\<close>.\<close>

partial_function (option) emu_args :: "u8 list \<Rightarrow> nat \<Rightarrow> nat list \<Rightarrow> (u8 list \<times> nat list) option" where
  "emu_args buf scan args =
     do { scan \<leftarrow> emu_spaces buf scan;
          c \<leftarrow> aget buf scan;
          if c = 0 \<or> c = LF then do { buf \<leftarrow> aput buf scan 0; Some (buf, args) }
          else if length args < 1024
          then do { start \<leftarrow> Some scan;
                    scan \<leftarrow> emu_word buf scan;
                    c \<leftarrow> aget buf scan;
                    if c \<noteq> 0 then do { buf \<leftarrow> aput buf scan 0; emu_args buf (scan + 1) (args @ [start]) }
                    else emu_args buf scan (args @ [start]) }
          else None }"

definition emu_parse :: "u8 list \<Rightarrow> (u8 list \<times> nat list) option" where
  "emu_parse buf =
     do { scan \<leftarrow> emu_word buf 2;
          c \<leftarrow> aget buf scan;
          if c \<noteq> 0 then do { buf \<leftarrow> aput buf scan 0; emu_args buf (scan + 1) [0] } else Some (buf, [0]) }"

primrec strings_at :: "u8 list \<Rightarrow> nat list \<Rightarrow> u8 list list option" where
  "strings_at buf [] = Some []"
| "strings_at buf (i # ks) = do { w \<leftarrow> string_at buf i; ws \<leftarrow> strings_at buf ks; Some (w # ws) }"

definition exit_value :: "wait_status \<Rightarrow> u32" where
  "exit_value st = (case st of Exited r \<Rightarrow> ucast r | Signalled n \<Rightarrow> if 9 = n then - 1 else 256)"

definition emulate_execute :: "'s linux \<Rightarrow> u8 list \<Rightarrow> u8 list \<Rightarrow> 's \<Rightarrow> (u32 \<times> 's) option" where
  "emulate_execute lx buf command s =
     do { n \<leftarrow> tmnt_strlen command 0;
          if 1023 < n then Some (- 1, s)
          else do { buf \<leftarrow> aput buf 0 0x2E;
                    buf \<leftarrow> aput buf 1 0x2F;
                    buf \<leftarrow> tmnt_strcpy buf 2 command 0;
                    (buf, args) \<leftarrow> emu_parse buf;
                    if length args < 1024
                    then do { path \<leftarrow> string_at buf 0;
                              argv \<leftarrow> strings_at buf args;
                              (status, s) \<leftarrow> lx_run lx path argv s;
                              Some (exit_value status, s) }
                    else None } }"

text \<open>\<open>tmnt_getargs\<close> over the arguments \<open>argv[1], \<dots>\<close> that the program was started with.\<close>

fun emu_join :: "u8 list list \<Rightarrow> u8 list \<Rightarrow> nat \<Rightarrow> int \<Rightarrow> (u32 \<times> u8 list) option" where
  "emu_join [] buf p nbytes = (if nbytes < 1 then Some (- 1, buf) else do { buf \<leftarrow> aput buf p 0; Some (0, buf) })"
| "emu_join (w # ws) buf p nbytes =
     (if nbytes < int (length w) then Some (- 1, buf)
      else do { buf \<leftarrow> tmnt_strcpy buf p (w @ [0]) 0;
                let p = p + length w;
                let nbytes = nbytes - int (length w);
                if ws = [] then emu_join [] buf p nbytes
                else if nbytes < 1 then Some (- 1, buf)
                else do { buf \<leftarrow> aput buf p SP; emu_join ws buf (p + 1) (nbytes - 1) } })"

definition emulate_getargs :: "u8 list list \<Rightarrow> u8 list \<Rightarrow> int \<Rightarrow> (u32 \<times> u8 list) option" where
  "emulate_getargs argv buf nbytes = emu_join (tl argv) buf 0 nbytes"

subsection \<open>Files and the directory\<close>

definition emulate_open :: "'s linux \<Rightarrow> u8 list \<Rightarrow> emu \<Rightarrow> 's \<Rightarrow> (u32 \<times> emu \<times> 's) option" where
  "emulate_open lx filename e s =
     do { r \<leftarrow> tmnt_strcmp filename 0 (lit ''.'') 0;
          if 0 = r
          then let (d, s) = lx_opendir lx s; (fd, s) = lx_devnull lx s in Some (fd, e\<lparr>emu_dir := d, emu_dir_fd := fd\<rparr>, s)
          else do { f \<leftarrow> string_at filename 0;
                    let (rval, s) = lx_open lx f s;
                    Some (if 0xFFFFC000 < rval then - 1 else rval, e, s) } }"

definition emulate_vidmap :: "'s linux \<Rightarrow> emu \<Rightarrow> 's \<Rightarrow> u32 \<times> u32 option \<times> emu \<times> 's" where
  "emulate_vidmap lx e s =
     (let (e, s) = (if emu_mem_fd e = - 1 then let (fd, s) = lx_devmem lx s in (e\<lparr>emu_mem_fd := fd\<rparr>, s) else (e, s));
          (m, s) = lx_mmap lx (emu_mem_fd e) s
      in case m of None \<Rightarrow> (- 1, None, e, s) | Some mem_image \<Rightarrow> (0, Some (mem_image + 0xB8000), e, s))"

text \<open>The two loops of \<open>tmnt_read\<close> on the directory: \<open>copied\<close> and whether the first one has returned.\<close>

fun emu_copy :: "u8 list \<Rightarrow> nat \<Rightarrow> u8 list \<Rightarrow> nat \<Rightarrow> (u8 list \<times> nat \<times> bool) option" where
  "emu_copy buf copied [] nbytes = Some (buf, copied, False)"
| "emu_copy buf copied (c # cs) nbytes =
     do { buf \<leftarrow> aput buf copied c;
          if copied + 1 = nbytes then Some (buf, nbytes, True)
          else if 32 = copied + 1 then Some (buf, 32, True)
          else emu_copy buf (copied + 1) cs nbytes }"

function emu_pad :: "u8 list \<Rightarrow> nat \<Rightarrow> nat \<Rightarrow> (u8 list \<times> nat) option" where
  "emu_pad buf copied nbytes =
     (if copied < nbytes \<and> copied < 32 then do { buf \<leftarrow> aput buf copied 0; emu_pad buf (copied + 1) nbytes } else Some (buf, copied))"
  by pat_completeness auto
termination
  by (relation "measure (\<lambda>(buf, copied, nbytes). nbytes - copied)") auto

declare emu_pad.simps [simp del]

definition emulate_read :: "'s linux \<Rightarrow> u32 \<Rightarrow> u8 list \<Rightarrow> nat \<Rightarrow> emu \<Rightarrow> 's \<Rightarrow> (u32 \<times> u8 list \<times> 's) option" where
  "emulate_read lx fd buf nbytes e s =
     (case emu_dir e of
        Some d \<Rightarrow>
          if emu_dir_fd e = fd
          then let (de, s) = lx_readdir lx d s
               in case de of None \<Rightarrow> Some (0, buf, s)
                  | Some name \<Rightarrow>
                      do { (buf, copied, done) \<leftarrow> emu_copy buf 0 name nbytes;
                           if done then Some (of_nat copied, buf, s)
                           else do { (buf, copied) \<leftarrow> emu_pad buf copied nbytes; Some (of_nat copied, buf, s) } }
          else let (r, bs, s) = lx_read lx fd nbytes s in do { buf \<leftarrow> store_at buf 0 bs; Some (do_call r, buf, s) }
      | None \<Rightarrow> let (r, bs, s) = lx_read lx fd nbytes s in do { buf \<leftarrow> store_at buf 0 bs; Some (do_call r, buf, s) })"

definition emulate_write :: "'s linux \<Rightarrow> u32 \<Rightarrow> u8 list \<Rightarrow> emu \<Rightarrow> 's \<Rightarrow> u32 \<times> 's" where
  "emulate_write lx fd bs e s =
     (if emu_dir e = None \<or> emu_dir_fd e \<noteq> fd then let (r, s) = lx_write lx fd bs s in (do_call r, s) else (- 1, s))"

definition emulate_close :: "'s linux \<Rightarrow> u32 \<Rightarrow> emu \<Rightarrow> 's \<Rightarrow> u32 \<times> emu \<times> 's" where
  "emulate_close lx fd e s =
     (case emu_dir e of
        Some d \<Rightarrow>
          if emu_dir_fd e = fd
          then let s = lx_closedir lx d s; (_, s) = lx_close lx (emu_dir_fd e) s
               in (0, e\<lparr>emu_dir := None, emu_dir_fd := - 1\<rparr>, s)
          else let (r, s) = lx_close lx fd s in (do_call r, e, s)
      | None \<Rightarrow> let (r, s) = lx_close lx fd s in (do_call r, e, s))"

subsection \<open>The command line\<close>

text \<open>The words of a command line: a newline before a word ends the line, the one behind a word only ends the word.\<close>

function emu_words :: "u8 list \<Rightarrow> u8 list list" where
  "emu_words xs =
     (let ys = dropWhile (\<lambda>c. c = SP) xs
      in if ys = [] \<or> hd ys = LF then [] else takeWhile word_char ys # emu_words (tl (dropWhile word_char ys)))"
  by pat_completeness auto
termination
proof (relation "measure length")
  fix xs ys :: "u8 list"
  assume ys: "ys = dropWhile (\<lambda>c. c = SP) xs" and ne: "\<not> (ys = [] \<or> hd ys = LF)"
  have "length ys \<le> length xs" unfolding ys by (rule length_dropWhile_le)
  moreover have "length (tl (dropWhile word_char ys)) < length ys"
    using ne length_dropWhile_le [of word_char "tl ys"] by (cases ys) (auto simp: less_Suc_eq_le intro: le_trans [OF diff_le_self])
  ultimately show "(tl (dropWhile word_char ys), xs) \<in> measure length" by simp
qed simp

declare emu_words.simps [simp del]

lemma holds_at_split: "holds_at a i (xs @ ys) \<longleftrightarrow> holds_at a i xs \<and> holds_at a (i + length xs) ys"
proof (induction xs arbitrary: i)
  case Nil
  then show ?case by (auto simp: holds_at_def)
next
  case (Cons x xs)
  then show ?case by (auto simp: holds_at_Cons)
qed

lemma holds_at_while:
  "holds_at a i (xs @ zs) \<Longrightarrow> holds_at a i (takeWhile P xs) \<and> holds_at a (i + length (takeWhile P xs)) (dropWhile P xs @ zs)"
  by (metis append_assoc takeWhile_dropWhile_id holds_at_split)

lemma while_length: "length (takeWhile P xs) + length (dropWhile P xs) = length xs"
  by (metis length_append takeWhile_dropWhile_id)

lemma emu_spaces_skip:
  assumes "holds_at buf i (xs @ [0])"
  shows "emu_spaces buf i = Some (i + length (takeWhile (\<lambda>c. c = SP) xs))"
  using assms by (induction xs arbitrary: i) (auto simp: emu_spaces.simps holds_at_Cons)

lemma emu_word_skip:
  assumes "holds_at buf i (xs @ [0])" and "0 \<notin> set xs"
  shows "emu_word buf i = Some (i + length (takeWhile word_char xs))"
  using assms by (induction xs arbitrary: i) (auto simp: emu_word.simps holds_at_Cons word_char_def)

lemma holds_at_prefix: "holds_at a i xs \<Longrightarrow> take k b = take k a \<Longrightarrow> i + length xs \<le> k \<Longrightarrow> length b = length a \<Longrightarrow> holds_at b i xs"
proof -
  assume a: "holds_at a i xs" "take k b = take k a" "i + length xs \<le> k" "length b = length a"
  have "take (length xs) (drop i b) = drop i (take (i + length xs) b)" by (simp add: take_drop add.commute)
  also have "\<dots> = drop i (take (i + length xs) a)" using arg_cong [OF a(2), of "take (i + length xs)"] a(3) by (simp add: min_def)
  also have "\<dots> = take (length xs) (drop i a)" by (simp add: take_drop add.commute)
  finally show ?thesis using a by (simp add: holds_at_def)
qed

lemma strings_at_holds:
  assumes "list_all2 (\<lambda>i w. holds_at buf i (w @ [0]) \<and> 0 \<notin> set w) ks ws"
  shows "strings_at buf ks = Some ws"
  using assms by (induction rule: list_all2_induct) (auto dest: string_at_holds(2))

text \<open>One turn of the loop, at a word: spaces, the word, and the byte behind it.\<close>

lemma emu_args_turn:
  assumes "holds_at buf i (xs @ [0])" and "0 \<notin> set xs" and "length args + length xs < 1024"
  defines "ys \<equiv> dropWhile (\<lambda>c. c = SP) xs" and "j \<equiv> i + length (takeWhile (\<lambda>c. c = SP) xs)"
  defines "w \<equiv> takeWhile word_char ys" and "zs \<equiv> dropWhile word_char ys"
  assumes ne: "\<not> (ys = [] \<or> hd ys = LF)"
  shows "emu_args buf i args = (if zs = [] then Some (buf[j + length w := 0], args @ [j])
           else emu_args (buf[j + length w := 0]) (j + length w + 1) (args @ [j]))"
    and "holds_at (buf[j + length w := 0]) j (w @ [0])" and "0 \<notin> set w" and "0 \<notin> set zs" and "length zs < length xs"
    and "zs \<noteq> [] \<Longrightarrow> holds_at (buf[j + length w := 0]) (j + length w + 1) (tl zs @ [0])"
proof -
  let ?k = "j + length w"
  have hy: "holds_at buf j (ys @ [0])" unfolding ys_def j_def using holds_at_while [OF assms(1)] by blast
  have y0: "0 \<notin> set ys" unfolding ys_def using assms(2) by (metis set_dropWhileD)
  have hz: "holds_at buf ?k (zs @ [0])" "holds_at buf j w" unfolding w_def zs_def using holds_at_while [OF hy] by blast+
  show "0 \<notin> set w" and z0: "0 \<notin> set zs" unfolding w_def zs_def using y0 by (metis set_takeWhileD, metis set_dropWhileD)
  have kl: "?k < length buf" using hz(1) by (simp add: holds_at_def)
  have "holds_at (buf[?k := 0]) j w" using hz(2) by (rule holds_at_prefix [where k = ?k]) simp_all
  then show "holds_at (buf[?k := 0]) j (w @ [0])" using kl by (simp add: holds_at_split holds_at_Cons)
  have "0 < length w" using ne y0 hd_dropWhile [of "\<lambda>c. c = SP" xs] unfolding w_def ys_def
    by (cases "dropWhile (\<lambda>c. c = SP) xs") (auto simp: word_char_def)
  then show "length zs < length xs"
    using while_length [of "\<lambda>c. c = SP" xs] while_length [of word_char ys] unfolding w_def zs_def ys_def by linarith
  show "zs \<noteq> [] \<Longrightarrow> holds_at (buf[?k := 0]) (?k + 1) (tl zs @ [0])"
    using hz(1) by (intro holds_at_update) (cases zs; simp add: holds_at_Cons)+
  have "emu_spaces buf i = Some j" "emu_word buf j = Some ?k"
    unfolding j_def w_def by (rule emu_spaces_skip [OF assms(1)], rule emu_word_skip [OF hy [unfolded j_def] y0])
  moreover have "j < length buf" "buf ! j \<noteq> 0" "buf ! j \<noteq> LF" using hy ne y0 by (cases ys; auto simp: holds_at_Cons)+
  moreover have zk: "buf ! ?k = 0 \<longleftrightarrow> zs = []" using hz(1) z0 by (cases zs) (auto simp: holds_at_Cons)
  moreover have "emu_args buf ?k (args @ [j]) = Some (buf[?k := 0], args @ [j])" if "zs = []"
    using emu_spaces_skip [of buf ?k "[]"] hz(1) that zk kl by (subst emu_args.simps) simp
  ultimately show "emu_args buf i args = (if zs = [] then Some (buf[?k := 0], args @ [j]) else emu_args (buf[?k := 0]) (?k + 1) (args @ [j]))"
    using kl assms(3) by (subst emu_args.simps) simp
qed

lemma emu_args_words:
  assumes "holds_at buf i (xs @ [0])" and "0 \<notin> set xs" and "length args + length xs < 1024"
  shows "\<exists>buf' ks. emu_args buf i args = Some (buf', args @ ks) \<and> length ks \<le> length xs \<and> length buf' = length buf \<and> take i buf' = take i buf
    \<and> list_all2 (\<lambda>k w. holds_at buf' k (w @ [0]) \<and> 0 \<notin> set w) ks (emu_words xs)"
  using assms
proof (induction "length xs" arbitrary: xs buf i args rule: less_induct)
  case less
  define ys j where "ys = dropWhile (\<lambda>c. c = SP) xs" and "j = i + length (takeWhile (\<lambda>c. c = SP) xs)"
  show ?case
  proof (cases "ys = [] \<or> hd ys = LF")
    case True
    have "holds_at buf j (ys @ [0])" unfolding ys_def j_def using holds_at_while [OF less.prems(1)] by blast
    then have "j < length buf" "buf ! j = 0 \<or> buf ! j = LF" using True by (cases ys; auto simp: holds_at_Cons)+
    then have "emu_args buf i args = Some (buf[j := 0], args @ [])"
      using emu_spaces_skip [OF less.prems(1)] by (subst emu_args.simps) (simp add: j_def)
    moreover have "emu_words xs = []" using True by (simp add: emu_words.simps Let_def ys_def)
    ultimately show ?thesis by (intro exI [of _ "buf[j := 0]"] exI [of _ "[]"]) (simp add: j_def)
  next
    case False
    define w zs where "w = takeWhile word_char ys" and "zs = dropWhile word_char ys"
    let ?b = "buf[j + length w := 0]"
    note turn = emu_args_turn [OF less.prems False [unfolded ys_def], folded ys_def, folded j_def w_def zs_def]
    have words: "emu_words xs = w # emu_words (tl zs)" using False by (subst emu_words.simps) (simp add: Let_def ys_def w_def zs_def)
    show ?thesis
    proof (cases "zs = []")
      case True
      then have "emu_words (tl zs) = []" by (simp add: emu_words.simps)
      then show ?thesis using turn(1-3,5) True by (intro exI [of _ ?b] exI [of _ "[j]"]) (simp add: words, simp add: j_def Suc_le_eq)
    next
      case False
      have sm: "length (tl zs) < length xs" "0 \<notin> set (tl zs)" "length (args @ [j]) + length (tl zs) < 1024"
        using turn(4,5) False less.prems(3) by (auto dest: list.set_sel(2))
      obtain buf' ks where r: "emu_args ?b (j + length w + 1) (args @ [j]) = Some (buf', (args @ [j]) @ ks)" "length ks \<le> length (tl zs)" "length buf' = length ?b"
        "take (j + length w + 1) buf' = take (j + length w + 1) ?b" "list_all2 (\<lambda>k w. holds_at buf' k (w @ [0]) \<and> 0 \<notin> set w) ks (emu_words (tl zs))"
        using less.hyps [OF sm(1) turn(6) [OF False] sm(2,3)] by blast
      have "emu_args buf i args = Some (buf', args @ j # ks)" using turn(1) False r(1) by simp
      moreover have "holds_at buf' j (w @ [0])" by (rule holds_at_prefix [OF turn(2) r(4)]) (simp_all add: r(3))
      moreover have "take i buf' = take i buf" using arg_cong [OF r(4), of "take i"] by (simp add: min_def j_def)
      moreover have "length (j # ks) \<le> length xs" using r(2) sm(1) unfolding list.size by linarith
      ultimately show ?thesis using r(3,5) turn(3) by (intro exI [of _ buf'] exI [of _ "j # ks"]) (simp add: words)
    qed
  qed
qed

text \<open>A command line of words with single spaces between them, and the words it is made of.\<close>

definition join :: "u8 list list \<Rightarrow> u8 list" where
  "join ws = (case ws of [] \<Rightarrow> [] | w # ws \<Rightarrow> w @ concat (map (\<lambda>w. SP # w) ws))"

definition is_word :: "u8 list \<Rightarrow> bool" where
  "is_word w \<longleftrightarrow> w \<noteq> [] \<and> list_all word_char w"

lemma join_simps: "join [] = []" "join [w] = w" "ws \<noteq> [] \<Longrightarrow> join (w # ws) = w @ SP # join ws"
  by (simp_all add: join_def split: list.splits)

lemma takeWhile_word: "is_word w \<Longrightarrow> takeWhile word_char w = w \<and> dropWhile word_char w = []"
  "is_word w \<Longrightarrow> takeWhile word_char (w @ SP # xs) = w \<and> dropWhile word_char (w @ SP # xs) = SP # xs"
  by (simp_all add: is_word_def list_all_iff word_char_def takeWhile_append dropWhile_append)

lemma emu_words_join: "list_all is_word ws \<Longrightarrow> emu_words (join ws) = ws"
proof (induction ws)
  case Nil
  then show ?case by (simp add: join_simps emu_words.simps)
next
  case (Cons w ws)
  then have w: "is_word w" by simp
  have h: "w \<noteq> []" "hd w \<noteq> SP" "hd w \<noteq> LF" using w by (cases w; simp add: is_word_def word_char_def)+
  then have d: "dropWhile (\<lambda>c. c = SP) (w @ xs) = w @ xs" for xs by (cases w) simp_all
  have nil: "emu_words [] = []" by (simp add: emu_words.simps)
  show ?case
  proof (cases "ws = []")
    case True
    show ?thesis using d [of "[]"] h by (subst emu_words.simps) (simp add: True join_simps Let_def nil takeWhile_word(1) [OF w])
  next
    case False
    show ?thesis
      using d [of "SP # join ws"] h takeWhile_word(2) [OF w] Cons by (subst emu_words.simps) (simp add: join_simps(3) [OF False] Let_def)
  qed
qed

lemma is_word_0: "is_word w \<Longrightarrow> 0 \<notin> set w" "list_all is_word ws \<Longrightarrow> 0 \<notin> set (join ws)"
proof -
  show a: "is_word w \<Longrightarrow> 0 \<notin> set w" for w by (auto simp: is_word_def list_all_iff word_char_def)
  show "list_all is_word ws \<Longrightarrow> 0 \<notin> set (join ws)"
    by (induction ws) (auto simp: join_def list_all_iff a split: list.splits)
qed

definition command_line :: "u8 list \<Rightarrow> u8 list list \<Rightarrow> u8 list" where
  "command_line name ws = (if ws = [] then name else name @ SP # join ws)"

lemma emu_parse_words:
  assumes "is_word name" and "list_all is_word ws" and "length buf = 1026" and "holds_at buf 0 ([0x2E, 0x2F] @ command_line name ws @ [0])"
    and "length (command_line name ws) \<le> 1023"
  shows "\<exists>buf' ks. emu_parse buf = Some (buf', ks) \<and> length ks < 1024
    \<and> list_all2 (\<lambda>k w. holds_at buf' k (w @ [0]) \<and> 0 \<notin> set w) ks (([0x2E, 0x2F] @ name) # ws) \<and> hd ks = 0"
proof -
  let ?p = "[0x2E, 0x2F] @ name" and ?k = "2 + length name"
  have n0: "0 \<notin> set name" "0 \<notin> set (join ws)" by (rule is_word_0(1) [OF assms(1)], rule is_word_0(2) [OF assms(2)])
  have h: "holds_at buf 2 (command_line name ws @ [0])" using assms(4) by (simp add: holds_at_Cons numeral_2_eq_2)
  have c0: "0 \<notin> set (command_line name ws)" using n0 by (simp add: command_line_def)
  have tw: "takeWhile word_char (command_line name ws) = name"
    using takeWhile_word [OF assms(1)] by (simp add: command_line_def)
  have wd: "emu_word buf 2 = Some ?k" using emu_word_skip [OF h c0] tw by simp
  have hn: "holds_at buf 0 ?p"
    using assms(4) holds_at_split [of buf 0 ?p] by (cases "ws = []") (simp_all add: command_line_def)
  show ?thesis
  proof (cases "ws = []")
    case True
    have k: "?k < length buf" "buf ! ?k = 0" using h holds_at_split [of buf 2 name "[0]"] True by (simp_all add: command_line_def holds_at_Cons)
    then have "emu_parse buf = Some (buf, [0])" using wd by (simp add: emu_parse_def)
    moreover have "holds_at buf 0 (?p @ [0])" using assms(4) True by (simp add: command_line_def)
    ultimately show ?thesis using True n0(1) by (intro exI [of _ buf] exI [of _ "[0]"]) simp
  next
    case False
    have hk: "?k < length buf" "buf ! ?k = SP" "holds_at buf (?k + 1) (join ws @ [0])"
      using h holds_at_split [of buf 2 name "SP # join ws @ [0]"] False by (simp_all add: command_line_def holds_at_Cons)
    let ?b = "buf[?k := 0]"
    have hb: "holds_at ?b (?k + 1) (join ws @ [0])" by (rule holds_at_update [OF hk(3)]) simp
    have la: "length [0 :: nat] + length (join ws) < 1024" using assms(5) False by (simp add: command_line_def)
    obtain buf' ks where r: "emu_args ?b (?k + 1) [0] = Some (buf', [0] @ ks)" "length ks \<le> length (join ws)" "length buf' = length ?b"
      "take (?k + 1) buf' = take (?k + 1) ?b" "list_all2 (\<lambda>k w. holds_at buf' k (w @ [0]) \<and> 0 \<notin> set w) ks (emu_words (join ws))"
      using emu_args_words [OF hb n0(2) la] by blast
    have "holds_at ?b 0 (?p @ [0])"
    proof -
      have "holds_at ?b 0 ?p" using hn by (rule holds_at_prefix [where k = ?k]) simp_all
      then show ?thesis using hk(1) by (simp add: holds_at_split holds_at_Cons)
    qed
    then have "holds_at buf' 0 (?p @ [0])" using r(4) by (rule holds_at_prefix) (simp_all add: r(3))
    moreover have "emu_parse buf = Some (buf', 0 # ks)" using wd hk(1,2) r(1) by (simp add: emu_parse_def)
    ultimately show ?thesis
      using r(2,5) la n0(1) emu_words_join [OF assms(2)] by (intro exI [of _ buf'] exI [of _ "0 # ks"]) simp
  qed
qed

lemma emu_join_fits:
  assumes "list_all is_word ws" and "length (join ws) < n" and "p + n \<le> length buf"
  shows "emu_join ws buf p (int n) = Some (0, overwrite buf p (join ws @ [0]))"
  using assms
proof (induction ws arbitrary: buf p n)
  case Nil
  then show ?case by (simp add: join_simps overwrite_def upd_conv_take_nth_drop)
next
  case (Cons w ws)
  have w0: "0 \<notin> set w" using Cons.prems(1) is_word_0(1) [of w] by simp
  have l: "length w \<le> length (join (w # ws))" by (cases "ws = []") (simp_all add: join_simps)
  have cp: "tmnt_strcpy buf p (w @ [0]) 0 = Some (overwrite buf p (w @ [0]))"
    using Cons.prems(2,3) l w0 by (intro tmnt_strcpy_copies) (simp_all add: holds_at_def)
  let ?b = "overwrite buf p (w @ [0])"
  have lb: "length ?b = length buf" using Cons.prems(2,3) l by simp
  show ?case
  proof (cases "ws = []")
    case True
    have "?b[p + length w := 0] = ?b" using Cons.prems(2,3) l by (simp add: overwrite_def list_update_append nth_append)
    then show ?thesis using True cp lb Cons.prems(2,3) by (simp add: join_simps)
  next
    case False
    let ?c = "?b[p + length w := SP]"
    have j: "length (join ws) < n - length w - 1" using Cons.prems(2) by (simp add: join_simps(3) [OF False])
    have c: "?c = overwrite buf p (w @ [SP])"
      using Cons.prems(2,3) l by (simp add: overwrite_def list_update_append)
    have "emu_join ws ?c (p + length w + 1) (int (n - length w - 1)) = Some (0, overwrite ?c (p + length w + 1) (join ws @ [0]))"
      using Cons.prems(1,3) j lb by (intro Cons.IH) simp_all
    moreover have "overwrite ?c (p + length w + 1) (join ws @ [0]) = overwrite buf p (join (w # ws) @ [0])"
      unfolding c using Cons.prems(3) j by (simp add: overwrite_def join_simps(3) [OF False] ac_simps)
    moreover have "int (n - length w - 1) = int n - int (length w) - 1" using j by simp
    ultimately have "emu_join ws ?c (p + length w + 1) (int n - int (length w) - 1) = Some (0, overwrite buf p (join (w # ws) @ [0]))"
      by (simp only:)
    then show ?thesis using False cp lb l Cons.prems(2,3) j by (simp add: Let_def)
  qed
qed

text \<open>C23. The command line of the emulation. For a command of words with single spaces between them, at most 1023
  bytes long, \<open>tmnt_execute\<close> starts the file of that name in the current directory with exactly these words as its
  arguments, and returns the exit status, -1 for a program that could not be started, or 256 for one that a signal
  ended; and \<open>tmnt_getargs\<close> in that program puts the words together again: when they fit, its buffer holds the
  command line behind the name, byte for byte.\<close>

theorem emulate_arguments:
  assumes "is_word name" and "list_all is_word ws" and "length (command_line name ws) \<le> 1023" and "length buf = 1026"
    and "length (join ws) < n" and "n \<le> length abuf"
  shows "emulate_execute lx buf (command_line name ws @ [0]) s =
      map_option (\<lambda>(status, s). (exit_value status, s)) (lx_run lx ([0x2E, 0x2F] @ name) (([0x2E, 0x2F] @ name) # ws) s)
    \<and> emulate_getargs (([0x2E, 0x2F] @ name) # ws) abuf (int n) = Some (0, overwrite abuf 0 (join ws @ [0]))
    \<and> (\<forall>m<0. emulate_getargs (([0x2E, 0x2F] @ name) # ws) abuf m = Some (- 1, abuf))"
proof (intro conjI)
  let ?c = "command_line name ws" and ?p = "[0x2E, 0x2F] @ name"
  have c0: "0 \<notin> set ?c" using is_word_0(1) [OF assms(1)] is_word_0(2) [OF assms(2)] by (simp add: command_line_def)
  have len: "tmnt_strlen (?c @ [0]) 0 = Some (length ?c)" using string_at_holds(1) [of "?c @ [0]" 0 ?c] c0 by (simp add: holds_at_def)
  let ?b = "buf[0 := 0x2E, 1 := 0x2F]"
  have cp: "tmnt_strcpy ?b 2 (?c @ [0]) 0 = Some (overwrite ?b 2 (?c @ [0]))"
    using assms(3,4) c0 by (intro tmnt_strcpy_copies) (simp_all add: holds_at_def)
  let ?o = "overwrite ?b 2 (?c @ [0])"
  have "take 2 ?b = [0x2E, 0x2F]" using assms(4) by (cases buf; cases "tl buf") auto
  then have h: "holds_at ?o 0 ([0x2E, 0x2F] @ ?c @ [0])" using assms(3,4) by (simp add: holds_at_def overwrite_def)
  have lo: "length ?o = 1026" using assms(3,4) by simp
  obtain buf' ks where r: "emu_parse ?o = Some (buf', ks)" "length ks < 1024" "hd ks = 0"
    "list_all2 (\<lambda>k w. holds_at buf' k (w @ [0]) \<and> 0 \<notin> set w) ks (?p # ws)"
    using emu_parse_words [OF assms(1,2) lo h assms(3)] by blast
  then obtain ks' where ks: "ks = 0 # ks'" by (cases ks) auto
  have "string_at buf' 0 = Some ?p" using r(4) ks string_at_holds(2) [of buf' 0 ?p] by simp
  moreover have "strings_at buf' ks = Some (?p # ws)" by (rule strings_at_holds [OF r(4)])
  ultimately have "emulate_execute lx buf (?c @ [0]) s = do { (status, s) \<leftarrow> lx_run lx ?p (?p # ws) s; Some (exit_value status, s) }"
    using assms(3,4) len cp r(1,2) by (simp add: emulate_execute_def)
  then show "emulate_execute lx buf (?c @ [0]) s = map_option (\<lambda>(status, s). (exit_value status, s)) (lx_run lx ?p (?p # ws) s)"
    by (cases "lx_run lx ?p (?p # ws) s") auto
  show "\<forall>m<0. emulate_getargs (?p # ws) abuf m = Some (- 1, abuf)" by (cases ws) (simp_all add: emulate_getargs_def)
  show "emulate_getargs (?p # ws) abuf (int n) = Some (0, overwrite abuf 0 (join ws @ [0]))"
    unfolding emulate_getargs_def list.sel by (rule emu_join_fits [OF assms(2,5)]) (simp add: assms(6))
qed

definition echo_linux :: "u8 list list linux" where
  "echo_linux = \<lparr>lx_read = \<lambda>_ _ s. (0, [], s), lx_write = \<lambda>_ bs s. (of_nat (length bs), s), lx_close = \<lambda>_ s. (0, s),
     lx_open = \<lambda>_ s. (- 2, s), lx_opendir = \<lambda>s. (Some 0, s), lx_devnull = \<lambda>s. (3, s),
     lx_readdir = \<lambda>_ s. (case s of [] \<Rightarrow> None | n # _ \<Rightarrow> Some n, tl s), lx_closedir = \<lambda>_ s. s, lx_devmem = \<lambda>s. (4, s),
     lx_mmap = \<lambda>_ s. (None, s), lx_run = \<lambda>_ argv _. Some (Exited 7, argv)\<rparr>"

theorem emulate_arguments_witness:
  "emulate_execute echo_linux (replicate 1026 0) (map of_char ''grep a b'' @ [0]) [] = Some (7, [map of_char ''./grep'', [0x61], [0x62]])
   \<and> emulate_getargs [map of_char ''./grep'', [0x61], [0x62]] (replicate 8 1) 8 = Some (0, [0x61, 0x20, 0x62, 0, 1, 1, 1, 1])
   \<and> emulate_getargs [map of_char ''./grep'', [0x61], [0x62]] (replicate 8 1) (- 3) = Some (- 1, replicate 8 1)"
proof -
  let ?n = "map of_char ''grep'' :: u8 list" and ?w = "[[0x61], [0x62]] :: u8 list list"
  have w: "is_word ?n" "list_all is_word ?w" by (simp_all add: is_word_def word_char_def)
  have c: "command_line ?n ?w = map of_char ''grep a b''" by (simp add: command_line_def join_def)
  have j: "join ?w = [0x61, 0x20, 0x62]" by (simp add: join_def)
  have len: "length (command_line ?n ?w) \<le> 1023" "length (replicate 1026 (0 :: u8)) = 1026" "length (join ?w) < 8" "8 \<le> length (replicate 8 (1 :: u8))"
    by (simp_all only: c j length_replicate list.size length_map)
  have run: "lx_run echo_linux p av t = Some (Exited 7, av)" for p av t by (simp add: echo_linux_def)
  have ov: "overwrite (replicate 8 1) 0 ([0x61, 0x20, 0x62] @ [0]) = ([0x61, 0x20, 0x62, 0, 1, 1, 1, 1] :: u8 list)"
    by (simp add: overwrite_def numeral_eq_Suc)
  have p: "[0x2E, 0x2F] @ ?n = map of_char ''./grep''" by simp
  have x: "exit_value (Exited 7) = 7" by (simp add: exit_value_def)
  from emulate_arguments [OF w len, of echo_linux "[]", unfolded run c j ov p] show ?thesis
    by (simp only: option.map prod.case x simp_thms of_nat_numeral neg_less_0_iff_less zero_less_numeral)
qed

text \<open>Arguments that do not fit. An argument exactly as long as the buffer is not refused before it is copied, and
  its terminating zero is written one byte behind the buffer.\<close>

theorem emulate_getargs_overrun:
  assumes "0 \<notin> set w" and "length w = n" and "length abuf = n"
  shows "emulate_getargs [p, w] abuf (int n) = None"
proof -
  have "tmnt_strcpy a d (x @ y @ [0]) (length x) = None" if "0 \<notin> set y" "d + length y = length a" for a d x and y :: "u8 list"
    using that
  proof (induction y arbitrary: a d x)
    case Nil
    then show ?case by (subst tmnt_strcpy.simps) simp
  next
    case (Cons c y)
    have "tmnt_strcpy (a[d := c]) (d + 1) ((x @ [c]) @ y @ [0]) (length (x @ [c])) = None" using Cons.prems by (intro Cons.IH) simp_all
    then show ?case using Cons.prems by (subst tmnt_strcpy.simps) (simp add: nth_append)
  qed
  from this [of w 0 abuf "[]"] show ?thesis using assms by (simp add: emulate_getargs_def)
qed

theorem emulate_getargs_overrun_witness: "emulate_getargs [[0x78], [0x61, 0x62]] [9, 9] 2 = None"
  using emulate_getargs_overrun [of "[0x61, 0x62]" 2 "[9, 9]" "[0x78]"] by simp

subsection \<open>The directory\<close>

lemma emu_copy_name:
  assumes "i < n" and "i < 32" and "n \<le> length buf"
  shows "emu_copy buf i name n =
    (if i + length name < min n 32 then Some (overwrite buf i name, i + length name, False)
     else Some (overwrite buf i (take (min n 32 - i) name), min n 32, True))"
  using assms
proof (induction name arbitrary: buf i)
  case Nil
  then show ?case by simp
next
  case (Cons c name)
  let ?b = "buf[i := c]"
  have o: "overwrite ?b (i + 1) xs = overwrite buf i (c # xs)" if "i + length xs < length buf" for xs using overwrite_Cons [OF that] .
  have one: "overwrite buf i [c] = ?b" using Cons.prems by (simp add: overwrite_def upd_conv_take_nth_drop)
  show ?case
  proof (cases "i + 1 = n \<or> i + 1 = 32")
    case True
    then have "min n 32 = i + 1" using Cons.prems by auto
    then show ?thesis using True Cons.prems one by auto
  next
    case False
    then have i: "i + 1 < n" "i + 1 < 32" using Cons.prems by auto
    have m: "min n 32 - i = Suc (min n 32 - (i + 1))" using i by auto
    have t: "i + length (take (min n 32 - (i + 1)) name) < length buf" using i Cons.prems by auto
    have e: "emu_copy buf i (c # name) n = emu_copy ?b (i + 1) name n" using False Cons.prems by simp
    have l: "n \<le> length ?b" using Cons.prems by simp
    show ?thesis unfolding e Cons.IH [OF i l] using o [of name] o [OF t] m i Cons.prems(3) by auto
  qed
qed

lemma emu_pad_zeros:
  assumes "i \<le> min n 32" and "n \<le> length buf"
  shows "emu_pad buf i n = Some (overwrite buf i (replicate (min n 32 - i) 0), min n 32)"
  using assms
proof (induction "min n 32 - i" arbitrary: buf i)
  case 0
  then have "i = min n 32" by simp
  then show ?case by (subst emu_pad.simps) auto
next
  case (Suc k)
  then have i: "i < n" "i < 32" "min n 32 - (i + 1) = k" "min n 32 - i = Suc k" by auto
  have "emu_pad (buf[i := 0]) (i + 1) n = Some (overwrite (buf[i := 0]) (i + 1) (replicate k 0), min n 32)"
    using Suc.hyps(1) [of "i + 1" "buf[i := 0]"] i Suc.prems(2) by simp
  moreover have "overwrite (buf[i := 0]) (i + 1) (replicate k 0) = overwrite buf i (replicate (Suc k) 0)"
    using overwrite_Cons [of i "replicate k 0" buf 0] i Suc.prems(2) by simp
  ultimately show ?case using i Suc.prems(2) by (subst emu_pad.simps) simp
qed

lemma overwrite_twice: "i + length xs + length ys \<le> length a \<Longrightarrow> overwrite (overwrite a i xs) (i + length xs) ys = overwrite a i (xs @ ys)"
  by (simp add: overwrite_def ac_simps)

text \<open>The directory in the emulation. After the directory was opened, a read of \<open>n > 0\<close> bytes from its descriptor
  stores the next name, cut to 32 bytes and to \<open>n\<close>, and filled up with zeroes, and returns how many bytes it stored,
  always \<open>min n 32\<close>; at the end of the directory it returns 0 and stores nothing; a write is refused; and closing it
  brings back the state of the start, in which the descriptor is an ordinary one. A call that Linux refuses with an
  error number returns -1.\<close>

theorem emulate_directory:
  assumes "lx_opendir lx s = (Some d, s1)" and "lx_devnull lx s1 = (fd, s2)" and "0 < n" and "n \<le> length buf"
  shows "\<exists>e. emulate_open lx (lit ''.'') emu_start s = Some (fd, e, s2)
    \<and> (\<forall>name t t'. lx_readdir lx d t = (Some name, t') \<longrightarrow>
         emulate_read lx fd buf n e t = Some (of_nat (min n 32), overwrite buf 0 (take (min n 32) (name @ replicate 32 0)), t'))
    \<and> (\<forall>t t'. lx_readdir lx d t = (None, t') \<longrightarrow> emulate_read lx fd buf n e t = Some (0, buf, t'))
    \<and> (\<forall>bs t. emulate_write lx fd bs e t = (- 1, t))
    \<and> (\<forall>t. \<exists>t'. emulate_close lx fd e t = (0, emu_start, t'))
    \<and> (\<forall>bs t t' r. lx_write lx fd bs t = (r, t') \<and> 0xFFFFC000 < r \<longrightarrow> emulate_write lx fd bs emu_start t = (- 1, t'))"
proof -
  let ?e = "emu_start\<lparr>emu_dir := Some d, emu_dir_fd := fd\<rparr>" and ?m = "min n 32"
  have "tmnt_strcmp (lit ''.'') 0 (lit ''.'') 0 = Some 0" by (simp add: tmnt_strcmp.simps lit_def)
  then have op: "emulate_open lx (lit ''.'') emu_start s = Some (fd, ?e, s2)" using assms(1,2) by (simp add: emulate_open_def)
  have rd: "emulate_read lx fd buf n ?e t = Some (of_nat ?m, overwrite buf 0 (take ?m (name @ replicate 32 0)), t')"
    if r: "lx_readdir lx d t = (Some name, t')" for name t t'
  proof (cases "length name < ?m")
    case True
    have cp: "emu_copy buf 0 name n = Some (overwrite buf 0 name, length name, False)" using emu_copy_name [of 0 n buf name] assms(3,4) True by simp
    have pd: "emu_pad (overwrite buf 0 name) (length name) n = Some (overwrite (overwrite buf 0 name) (length name) (replicate (?m - length name) 0), ?m)"
      using True assms(4) by (intro emu_pad_zeros) simp_all
    have "overwrite (overwrite buf 0 name) (length name) (replicate (?m - length name) 0) = overwrite buf 0 (name @ replicate (?m - length name) 0)"
      using overwrite_twice [of 0 name "replicate (?m - length name) 0" buf] True assms(4) by simp
    moreover have "take ?m (name @ replicate 32 0) = name @ replicate (?m - length name) (0 :: u8)" using True by simp
    ultimately show ?thesis using r cp pd by (simp add: emulate_read_def)
  next
    case False
    have "emu_copy buf 0 name n = Some (overwrite buf 0 (take ?m name), ?m, True)" using emu_copy_name [of 0 n buf name] assms(3,4) False by simp
    moreover have "?m - length name = 0" using False by linarith
    ultimately show ?thesis using r by (simp add: emulate_read_def)
  qed
  show ?thesis
  proof (intro exI [of _ ?e] conjI allI impI)
    show "emulate_read lx fd buf n ?e t = Some (0, buf, t')" if "lx_readdir lx d t = (None, t')" for t t'
      using that by (simp add: emulate_read_def)
    show "\<exists>t'. emulate_close lx fd ?e t = (0, emu_start, t')" for t
      by (simp add: emulate_close_def emu_start_def Let_def split_beta)
    show "emulate_write lx fd bs emu_start t = (- 1, t')" if "lx_write lx fd bs t = (r, t') \<and> 0xFFFFC000 < r" for bs t t' r
      using that by (auto simp: emulate_write_def emu_start_def do_call_def)
  qed (use op rd in \<open>simp_all add: emulate_write_def\<close>)
qed

theorem emulate_directory_witness:
  "\<exists>e. emulate_open echo_linux (lit ''.'') emu_start [[0x61, 0x62], [0x63]] = Some (3, e, [[0x61, 0x62], [0x63]])
     \<and> emulate_read echo_linux 3 [9, 9, 9, 9, 9] 4 e [[0x61, 0x62], [0x63]] = Some (4, [0x61, 0x62, 0, 0, 9], [[0x63]])"
proof -
  let ?s = "[[0x61, 0x62], [0x63]] :: u8 list list"
  have l: "lx_opendir echo_linux ?s = (Some 0, ?s)" "lx_devnull echo_linux ?s = (3, ?s)" "lx_readdir echo_linux 0 ?s = (Some [0x61, 0x62], [[0x63]])"
    by (simp_all add: echo_linux_def)
  have "overwrite [9, 9, 9, 9, 9] 0 (take (min 4 32) ([0x61, 0x62] @ replicate 32 0)) = ([0x61, 0x62, 0, 0, 9] :: u8 list)"
    by (simp add: overwrite_def numeral_eq_Suc)
  then show ?thesis using emulate_directory [OF l(1,2), of 4 "[9, 9, 9, 9, 9]"] l(3) by fastforce
qed

end
