(* ===== verification/Pingpong.thy ===== *)
theory Pingpong
  imports Programs
begin

text \<open>
  \<^verbatim>\<open>syscalls/tmntpingpong.c\<close>: a letter that bounces between two walls, one step per tick of the real-time
  clock, for ever. The endless loop is the function \<open>ping_turns\<close> of the number of turns; the program is shown to
  get through any number of them, on any machine with a console and a clock, and on the kernel.
\<close>

subsection \<open>The program\<close>

text \<open>The macros, which are not bracketed: \<open>BUFMAX\<close> is \<open>79+2\<close>, \<open>STARTLOOP\<close> is \<open>1+1\<close>, \<open>LOOPMAX\<close> is \<open>79+2-2-1\<close>.\<close>

abbreviation PING_BUFMAX :: nat where "PING_BUFMAX \<equiv> 81"
abbreviation PING_START :: nat where "PING_START \<equiv> 1"
abbreviation STARTLOOP :: nat where "STARTLOOP \<equiv> 2"
abbreviation LOOPMAX :: nat where "LOOPMAX \<equiv> 78"
abbreviation STARTCHAR :: u8 where "STARTCHAR \<equiv> 0x41"
abbreviation ENDCHAR :: u8 where "ENDCHAR \<equiv> 0x5A"

text \<open>\<open>for (i = lo; i < hi; i++) buf[i] = ' ';\<close>\<close>

function ping_clear :: "nat \<Rightarrow> nat \<Rightarrow> u8 list \<Rightarrow> u8 list option" where
  "ping_clear i hi buf = (if i < hi then do { buf \<leftarrow> aput buf i 0x20; ping_clear (i + 1) hi buf } else Some buf)"
  by pat_completeness auto
termination
  by (relation "measure (\<lambda>(i, hi, buf). hi - i)") auto

definition ping_step :: "'s os \<Rightarrow> u32 \<Rightarrow> u8 \<Rightarrow> nat \<Rightarrow> u8 list \<Rightarrow> u8 list \<Rightarrow> 's \<Rightarrow> (u8 list \<times> u8 list \<times> 's) option" where
  "ping_step os rtc_fd curchar j buf garbage s =
     do { buf \<leftarrow> ping_clear STARTLOOP LOOPMAX buf;
          buf \<leftarrow> aput buf j curchar;
          s \<leftarrow> tmnt_fdputs os 1 buf 0 s;
          (_, garbage, s) \<leftarrow> tmnt_read os rtc_fd garbage 0 4 s;
          Some (buf, garbage, s) }"

function ping_out :: "'s os \<Rightarrow> u32 \<Rightarrow> u8 \<Rightarrow> nat \<Rightarrow> u8 list \<Rightarrow> u8 list \<Rightarrow> 's \<Rightarrow> (u8 list \<times> u8 list \<times> 's) option" where
  "ping_out os rtc_fd curchar j buf garbage s =
     (if j < LOOPMAX
      then do { (buf, garbage, s) \<leftarrow> ping_step os rtc_fd curchar j buf garbage s;
                ping_out os rtc_fd curchar (j + 1) buf garbage s }
      else Some (buf, garbage, s))"
  by pat_completeness auto
termination
  by (relation "measure (\<lambda>(os, rtc_fd, curchar, j, buf, garbage, s). LOOPMAX - j)") auto

function ping_back :: "'s os \<Rightarrow> u32 \<Rightarrow> u8 \<Rightarrow> int \<Rightarrow> u8 list \<Rightarrow> u8 list \<Rightarrow> 's \<Rightarrow> (u8 list \<times> u8 list \<times> 's) option" where
  "ping_back os rtc_fd curchar j buf garbage s =
     (if j \<ge> int STARTLOOP
      then do { (buf, garbage, s) \<leftarrow> ping_step os rtc_fd curchar (nat j) buf garbage s;
                ping_back os rtc_fd curchar (j - 1) buf garbage s }
      else Some (buf, garbage, s))"
  by pat_completeness auto
termination
  by (relation "measure (\<lambda>(os, rtc_fd, curchar, j, buf, garbage, s). nat j)") auto

declare ping_clear.simps [simp del] ping_out.simps [simp del] ping_back.simps [simp del]

definition ping_next :: "u8 \<Rightarrow> u8" where
  "ping_next curchar = (if curchar = ENDCHAR then STARTCHAR else curchar + 1)"

text \<open>One pass of \<open>while (1)\<close>, and \<open>n\<close> passes.\<close>

definition ping_turn :: "'s os \<Rightarrow> u32 \<Rightarrow> u8 \<Rightarrow> u8 list \<Rightarrow> u8 list \<Rightarrow> 's \<Rightarrow> (u8 \<times> u8 list \<times> u8 list \<times> 's) option" where
  "ping_turn os rtc_fd curchar buf garbage s =
     do { (buf, garbage, s) \<leftarrow> ping_out os rtc_fd curchar STARTLOOP buf garbage s;
          (buf, garbage, s) \<leftarrow> ping_back os rtc_fd curchar (int LOOPMAX - 1) buf garbage s;
          Some (ping_next curchar, buf, garbage, s) }"

primrec ping_turns :: "'s os \<Rightarrow> nat \<Rightarrow> u32 \<Rightarrow> u8 \<Rightarrow> u8 list \<Rightarrow> u8 list \<Rightarrow> 's \<Rightarrow> (u8 \<times> u8 list \<times> u8 list \<times> 's) option" where
  "ping_turns os 0 rtc_fd curchar buf garbage s = Some (curchar, buf, garbage, s)"
| "ping_turns os (Suc n) rtc_fd curchar buf garbage s =
     do { (curchar, buf, garbage, s) \<leftarrow> ping_turn os rtc_fd curchar buf garbage s;
          ping_turns os n rtc_fd curchar buf garbage s }"

definition ping_walls :: "u8 list \<Rightarrow> u8 list option" where
  "ping_walls buf =
     do { buf \<leftarrow> ping_clear 0 PING_BUFMAX buf;
          buf \<leftarrow> aput buf (81 - 1) 0;
          buf \<leftarrow> aput buf (81 - 2) 0x0A;
          buf \<leftarrow> aput buf (81 - 3) 0x7C;
          aput buf PING_START 0x7C }"

text \<open>\<open>main\<close> up to the end of turn \<open>n\<close>. The value 32 that is written to the clock is four bytes in memory.\<close>

definition ping_main :: "'s os \<Rightarrow> nat \<Rightarrow> u8 list \<Rightarrow> u8 list \<Rightarrow> 's \<Rightarrow> (u8 \<times> 's) option" where
  "ping_main os n buf garbage s =
     do { buf \<leftarrow> ping_walls buf;
          (rtc_fd, s) \<leftarrow> tmnt_open os (lit ''rtc'') s;
          (_, s) \<leftarrow> tmnt_write os rtc_fd [32, 0, 0, 0] 0 4 s;
          (curchar, _, _, s) \<leftarrow> ping_turns os n rtc_fd STARTCHAR buf garbage s;
          Some (curchar, s) }"

subsection \<open>What it shows\<close>

definition ping_line :: "u8 \<Rightarrow> nat \<Rightarrow> u8 list" where
  "ping_line c j = [0x20, 0x7C] @ replicate (j - 2) 0x20 @ [c] @ replicate (77 - j) 0x20 @ [0x7C, 0x0A]"

definition bounce :: "nat list" where
  "bounce = [2..<78] @ rev [2..<78]"

definition letter :: "nat \<Rightarrow> u8" where
  "letter k = 0x41 + of_nat (k mod 26)"

definition ping_text :: "nat \<Rightarrow> u8 list" where
  "ping_text n = concat (map (\<lambda>k. concat (map (ping_line (letter k)) bounce)) [0..<n])"

text \<open>The walls stand and the last byte is the NUL.\<close>

definition walled :: "u8 list \<Rightarrow> bool" where
  "walled buf \<longleftrightarrow> length buf = 81 \<and> take 2 buf = [0x20, 0x7C] \<and> drop 78 buf = [0x7C, 0x0A, 0]"

lemma ping_clear_fills:
  assumes "i \<le> hi" and "hi \<le> length buf"
  shows "ping_clear i hi buf = Some (take i buf @ replicate (hi - i) 0x20 @ drop hi buf)"
  using assms
proof (induction "hi - i" arbitrary: i buf)
  case 0
  then show ?case by (simp add: ping_clear.simps)
next
  case (Suc d)
  then have i: "i < hi" "i < length buf" and d: "d = hi - (i + 1)" by simp_all
  have "ping_clear i hi buf = ping_clear (i + 1) hi (buf[i := 0x20])"
    using i by (subst ping_clear.simps) (simp add: aput_def)
  also have "\<dots> = Some (take (i + 1) (buf[i := 0x20]) @ replicate (hi - (i + 1)) 0x20 @ drop hi (buf[i := 0x20]))"
    using Suc.hyps(1) [OF d] Suc.prems i by simp
  also have "\<dots> = Some (take i buf @ replicate (hi - i) 0x20 @ drop hi buf)"
  proof -
    have "take (i + 1) (buf[i := 0x20]) = take i buf @ [0x20]" using i by (simp add: take_Suc_conv_app_nth)
    moreover have "replicate (hi - i) (0x20 :: u8) = 0x20 # replicate (hi - (i + 1)) 0x20"
      using i(1) by (metis Suc_diff_Suc Suc_eq_plus1 replicate_Suc)
    ultimately show ?thesis using i by simp
  qed
  finally show ?case .
qed

lemma walled_line:
  assumes "walled buf" and "2 \<le> j" and "j < 78"
  shows "do { buf \<leftarrow> ping_clear 2 78 buf; aput buf j c } = Some (ping_line c j @ [0])"
proof -
  have b: "length buf = 81" "take 2 buf = [0x20, 0x7C]" "drop 78 buf = [0x7C, 0x0A, 0]" using assms(1) by (simp_all add: walled_def)
  have c: "ping_clear 2 78 buf = Some ([0x20, 0x7C] @ replicate 76 0x20 @ [0x7C, 0x0A, 0])"
    using ping_clear_fills [of 2 78 buf] b by simp
  let ?r = "replicate 76 (0x20 :: u8)"
  have "?r[j - 2 := c] = take (j - 2) ?r @ c # drop (Suc (j - 2)) ?r"
    by (rule upd_conv_take_nth_drop) (use assms(2,3) in simp)
  also have "\<dots> = replicate (j - 2) 0x20 @ c # replicate (77 - j) 0x20" using assms(2,3) by simp
  finally have r: "?r[j - 2 := c] = replicate (j - 2) 0x20 @ c # replicate (77 - j) 0x20" .
  have "([0x20, 0x7C] @ ?r @ [0x7C, 0x0A, 0])[j := c] = [0x20, 0x7C] @ ?r[j - 2 := c] @ [0x7C, 0x0A, 0]"
    using assms(2,3) by (simp add: list_update_append) (cases j; simp add: list_update_append split: nat.splits)
  then show ?thesis unfolding c r using assms(3) by (simp add: aput_def ping_line_def)
qed

lemma ping_line_facts:
  assumes "2 \<le> j" and "j < 78"
  shows "length (ping_line c j) = 80" "walled (ping_line c j @ [0])"
    "c \<noteq> 0 \<Longrightarrow> 0 \<notin> set (ping_line c j)" "c \<noteq> 8 \<Longrightarrow> 8 \<notin> set (ping_line c j)"
proof -
  have "78 - j = Suc (77 - j)" using assms by simp
  then show "length (ping_line c j) = 80" "walled (ping_line c j @ [0])"
    "c \<noteq> 0 \<Longrightarrow> 0 \<notin> set (ping_line c j)" "c \<noteq> 8 \<Longrightarrow> 8 \<notin> set (ping_line c j)"
    using assms by (auto simp: ping_line_def walled_def)
qed

lemma ping_walls_walled: "length buf = 81 \<Longrightarrow> \<exists>buf'. ping_walls buf = Some buf' \<and> walled buf'"
  using ping_clear_fills [of 0 81 buf] by (simp add: ping_walls_def aput_def walled_def numeral_eq_Suc)

lemma letter_range: "letter k \<noteq> 0" "letter k \<noteq> 8" "ping_next (letter k) = letter (Suc k)"
proof -
  have u: "unat (letter k) = 0x41 + k mod 26"
  proof -
    have "k mod 26 < 26" by simp
    then have "unat (of_nat (k mod 26) :: u8) = k mod 26" by (simp add: unat_of_nat take_bit_nat_eq_self)
    then show ?thesis using \<open>k mod 26 < 26\<close> by (simp add: letter_def unat_word_ariths)
  qed
  then show "letter k \<noteq> 0" "letter k \<noteq> 8" by auto
  show "ping_next (letter k) = letter (Suc k)"
  proof (cases "k mod 26 = 25")
    case True
    then show ?thesis by (simp add: ping_next_def letter_def mod_Suc)
  next
    case False
    then have "letter k \<noteq> ENDCHAR" using u mod_less_divisor [of 26 k] by (auto simp: word_unat_eq_iff)
    then show ?thesis using False by (simp add: ping_next_def letter_def mod_Suc)
  qed
qed

subsection \<open>A machine with a clock\<close>

locale clock_os = console_os os good shown emit frame
  for os :: "'s os" and good shown and emit :: "u8 list \<Rightarrow> 'o \<Rightarrow> 'o" and frame +
  fixes clock :: "'s \<Rightarrow> u32 \<Rightarrow> bool" and room :: "'s \<Rightarrow> nat"
  assumes open_clock: "good s \<Longrightarrow> 0 < room s \<Longrightarrow>
      \<exists>fd s'. os_open os (map of_char ''rtc'') s = Some (fd, s') \<and> good s' \<and> shown s' = shown s \<and> clock s' fd"
    and set_clock: "good s \<Longrightarrow> clock s fd \<Longrightarrow>
      \<exists>r s'. os_write os fd [32, 0, 0, 0] s = Some (r, s') \<and> good s' \<and> shown s' = shown s \<and> clock s' fd"
    and tick: "good s \<Longrightarrow> clock s fd \<Longrightarrow>
      \<exists>r bs s'. os_read os fd 4 s = Some (r, bs, s') \<and> length bs \<le> 4 \<and> good s' \<and> shown s' = shown s \<and> clock s' fd"
    and frame_clock: "frame s s' \<Longrightarrow> clock s fd \<Longrightarrow> clock s' fd"
begin

text \<open>The program is between two steps and has shown \<open>xs\<close>.\<close>

definition playing :: "u32 \<Rightarrow> u8 list \<Rightarrow> 's \<Rightarrow> u8 list \<times> u8 list \<times> 's \<Rightarrow> bool" where
  "playing fd xs s0 x \<longleftrightarrow> (case x of (buf, garbage, s) \<Rightarrow>
     walled buf \<and> length garbage = 4 \<and> good s \<and> clock s fd \<and> shown s = emit xs (shown s0))"

lemma ping_step_out:
  assumes "playing fd xs s0 (buf, garbage, s)" and "2 \<le> j" and "j < 78" and "c \<noteq> 0" and "c \<noteq> 8"
  shows "\<exists>x. ping_step os fd c j buf garbage s = Some x \<and> playing fd (xs @ ping_line c j) s0 x"
proof -
  have p: "walled buf" "length garbage = 4" "good s" "clock s fd" "shown s = emit xs (shown s0)"
    using assms(1) by (simp_all add: playing_def)
  note l = ping_line_facts [OF assms(2,3), of c]
  have "holds_at (ping_line c j @ [0]) 0 (ping_line c j @ [0])" by (simp add: holds_at_def)
  then obtain s1 where s1: "tmnt_fdputs os 1 (ping_line c j @ [0]) 0 s = Some s1" "puts_out s (ping_line c j) s1"
    using fdputs_out [OF p(3)] l(1) l(3) [OF assms(4)] l(4) [OF assms(5)] by force
  then have g: "good s1" "clock s1 fd" "shown s1 = emit (ping_line c j) (shown s)"
    using frame_clock p(4) by (auto simp: puts_out_def)
  obtain r bs s2 where s2: "os_read os fd 4 s1 = Some (r, bs, s2)" "length bs \<le> 4" "good s2" "shown s2 = shown s1" "clock s2 fd"
    using tick [OF g(1,2)] by blast
  have "ping_step os fd c j buf garbage s = Some (ping_line c j @ [0], overwrite garbage 0 bs, s2)"
    using walled_line [OF p(1) assms(2,3), of c] s1(1) s2(1,2) p(2)
    by (auto simp: ping_step_def tmnt_read_def bind_eq_Some_conv)
  moreover have "playing fd (xs @ ping_line c j) s0 (ping_line c j @ [0], overwrite garbage 0 bs, s2)"
    using l(2) s2 g(3) p(2,5) by (simp add: playing_def emit_append)
  ultimately show ?thesis by blast
qed

lemma ping_out_out:
  assumes "playing fd xs s0 (buf, garbage, s)" and "2 \<le> j" and "j \<le> 78" and "c \<noteq> 0" and "c \<noteq> 8"
  shows "\<exists>x. ping_out os fd c j buf garbage s = Some x \<and> playing fd (xs @ concat (map (ping_line c) [j..<78])) s0 x"
  using assms
proof (induction "78 - j" arbitrary: j xs buf garbage s)
  case 0
  then show ?case by (simp add: ping_out.simps)
next
  case (Suc d)
  then have j: "j < 78" "d = 78 - (j + 1)" by simp_all
  obtain buf' g' s' where x: "ping_step os fd c j buf garbage s = Some (buf', g', s')" "playing fd (xs @ ping_line c j) s0 (buf', g', s')"
    using ping_step_out [OF Suc.prems(1,2) j(1) assms(4,5)] by auto
  then show ?case
    using Suc.hyps(1) [OF j(2) x(2)] Suc.prems j(1) by (subst ping_out.simps) (simp add: upt_conv_Cons)
qed

lemma ping_back_out:
  assumes "playing fd xs s0 (buf, garbage, s)" and "1 \<le> j" and "j < 78" and "c \<noteq> 0" and "c \<noteq> 8"
  shows "\<exists>x. ping_back os fd c (int j) buf garbage s = Some x \<and> playing fd (xs @ concat (map (ping_line c) (rev [2..<j + 1]))) s0 x"
  using assms
proof (induction j arbitrary: xs buf garbage s)
  case (Suc j)
  show ?case
  proof (cases "j = 0")
    case True
    then show ?thesis using Suc.prems by (subst ping_back.simps) simp
  next
    case False
    then have j: "2 \<le> Suc j" "1 \<le> j" "j < 78" using Suc.prems by simp_all
    obtain buf' g' s' where x: "ping_step os fd c (Suc j) buf garbage s = Some (buf', g', s')" "playing fd (xs @ ping_line c (Suc j)) s0 (buf', g', s')"
      using ping_step_out [OF Suc.prems(1) j(1) Suc.prems(3-5)] by auto
    have "ping_back os fd c (int (Suc j)) buf garbage s = ping_back os fd c (int j) buf' g' s'"
      using j(1) x(1) by (subst ping_back.simps) (simp add: nat_add_distrib)
    then show ?thesis using Suc.IH [OF x(2) j(2,3) assms(4,5)] j by (simp del: upt_Suc add: upt_Suc_append)
  qed
qed simp

lemma ping_turn_out:
  assumes "playing fd xs s0 (buf, garbage, s)" and "c \<noteq> 0" and "c \<noteq> 8"
  shows "\<exists>x. ping_turn os fd c buf garbage s = Some (ping_next c, x) \<and> playing fd (xs @ concat (map (ping_line c) bounce)) s0 x"
proof -
  obtain b1 g1 s1 where x: "ping_out os fd c 2 buf garbage s = Some (b1, g1, s1)" "playing fd (xs @ concat (map (ping_line c) [2..<78])) s0 (b1, g1, s1)"
    using ping_out_out [OF assms(1) _ _ assms(2,3), of 2] by auto
  obtain y where "ping_back os fd c (int 77) b1 g1 s1 = Some y" "playing fd ((xs @ concat (map (ping_line c) [2..<78])) @ concat (map (ping_line c) (rev [2..<77 + 1]))) s0 y"
    using ping_back_out [OF x(2) _ _ assms(2,3), of 77] by auto
  moreover from this obtain b2 g2 s2 where "y = (b2, g2, s2)" by (cases y)
  ultimately show ?thesis using x(1) by (simp add: ping_turn_def bounce_def del: upt_rec_numeral)
qed

lemma ping_turns_out:
  assumes "playing fd (ping_text k) s0 (buf, garbage, s)"
  shows "\<exists>x. ping_turns os n fd (letter k) buf garbage s = Some (letter (k + n), x) \<and> playing fd (ping_text (k + n)) s0 x"
  using assms
proof (induction n arbitrary: k buf garbage s)
  case (Suc n)
  obtain b1 g1 s1 where x: "ping_turn os fd (letter k) buf garbage s = Some (letter (Suc k), b1, g1, s1)" "playing fd (ping_text (Suc k)) s0 (b1, g1, s1)"
    using ping_turn_out [OF Suc.prems letter_range(1,2) [of k]] letter_range(3) [of k] by (auto simp: ping_text_def)
  then show ?case using Suc.IH [OF x(2)] by simp
qed simp

lemma ping_main_out:
  assumes "good s" and "0 < room s" and "length buf = 81" and "length garbage = 4"
  shows "\<exists>s'. ping_main os n buf garbage s = Some (letter n, s') \<and> good s' \<and> shown s' = emit (ping_text n) (shown s)"
proof -
  obtain b where b: "ping_walls buf = Some b" "walled b" using ping_walls_walled [OF assms(3)] by blast
  obtain fd s1 where s1: "os_open os (map of_char ''rtc'') s = Some (fd, s1)" "good s1" "shown s1 = shown s" "clock s1 fd"
    using open_clock [OF assms(1,2)] by blast
  obtain r s2 where s2: "os_write os fd [32, 0, 0, 0] s1 = Some (r, s2)" "good s2" "shown s2 = shown s1" "clock s2 fd"
    using set_clock [OF s1(2,4)] by blast
  have "playing fd (ping_text 0) s (b, garbage, s2)" using b(2) s1 s2 assms(4) by (simp add: playing_def ping_text_def emit_Nil)
  from ping_turns_out [OF this, of n] obtain b3 g3 s3 where x: "ping_turns os n fd (letter 0) b garbage s2 = Some (letter n, b3, g3, s3)"
    "playing fd (ping_text n) s (b3, g3, s3)" by auto
  have "string_at (lit ''rtc'') 0 = Some (map of_char ''rtc'')" by (rule string_at_holds(2) [OF holds_at_lit(1)]) simp
  then have "ping_main os n buf garbage s = Some (letter n, s3)"
    using b(1) s1(1) s2(1) x(1) by (simp add: ping_main_def tmnt_open_def tmnt_write_def bytes_at_def letter_def)
  then show ?thesis using x(2) by (simp add: playing_def)
qed

end

subsection \<open>The clock of the kernel\<close>

text \<open>The driver of the clock, a parameter: the file system lists the clock, opening it and setting its rate change what
  \<open>rtc_frame\<close> allows, and a read comes back with 0 when the tick has come.\<close>

definition clock_driver :: "env \<Rightarrow> bool" where
  "clock_driver e \<longleftrightarrow> (\<forall>s. read_dentry_by_name e (Some (lit ''rtc'')) s = (0, FILETYPE_RTC))
     \<and> (\<forall>f s. rtc_frame s (snd (open_rtc e f s)))
     \<and> (\<forall>fd buf n s. \<exists>s'. read_rtc e fd buf n s = Some (0, s') \<and> rtc_frame s s')
     \<and> (\<forall>fd buf n s. \<exists>r s'. write_rtc e fd buf n s = Some (r, s') \<and> rtc_frame s s')"

lemma kernel_open_clock:
  assumes "clock_driver (kenv u)" and "user_ok u P q s" and "0 < kernel_room s"
  shows "\<exists>fd s'. os_open (kernel_os u) (map of_char ''rtc'') s = Some (fd, s') \<and> user_ok u P q s'
    \<and> task_view P s' = task_view P s \<and> open_as s' fd rtc_fops"
proof -
  have "device_driver (kenv u) (map of_char ''rtc'')" using assms(1) by (simp add: device_driver_def clock_driver_def lit_def)
  from kernel_open_device [OF this assms(2,3)] show ?thesis by (auto simp: kernel_os_def gets_fd_def)
qed

lemma kernel_set_clock:
  assumes "clock_driver (kenv u)" and "user_ok u P q s" and "open_as s fd rtc_fops" and "length bs = 4"
  shows "\<exists>r s'. os_write (kernel_os u) fd bs s = Some (r, s') \<and> user_ok u P q s'
    \<and> task_view P s' = task_view P s \<and> open_as s' fd rtc_fops"
proof -
  let ?s1 = "store_bytes bs (ubuf u) s"
  have "length bs \<le> 1100" using assms(4) by simp
  note k1 = user_ok_store(1-3) [OF assms(2) this]
  have o1: "open_as ?s1 fd rtc_fops" using assms(3) by (simp add: open_as_def same_process_fds [OF k1(3)])
  note f = open_asD [OF o1]
  obtain r s2 where r: "write_rtc (kenv u) fd (ubuf u) 4 ?s1 = Some (r, s2)" "rtc_frame ?s1 s2"
    using assms(1) unfolding clock_driver_def by blast
  have ub: "ubuf u \<noteq> 0" using assms(2) by (auto simp: user_ok_def)
  have "os_write (kernel_os u) fd bs s = Some (r, s2)"
    using r(1) f ub assms(4) by (simp add: kernel_os_def kernel_write_def sys_write_eq slt_unat)
  then show ?thesis using user_ok_rtc [OF k1(1) r(2)] k1(2) o1 by simp
qed

lemma kernel_tick:
  assumes "clock_driver (kenv u)" and "user_ok u P q s" and "open_as s fd rtc_fops"
  shows "\<exists>r bs s'. os_read (kernel_os u) fd 4 s = Some (r, bs, s') \<and> length bs \<le> 4 \<and> user_ok u P q s'
    \<and> task_view P s' = task_view P s \<and> open_as s' fd rtc_fops"
proof -
  obtain s1 where r: "read_rtc (kenv u) fd (ubuf u) 4 s = Some (0, s1)" "rtc_frame s s1"
    using assms(1) unfolding clock_driver_def by blast
  have ub: "ubuf u \<noteq> 0" using assms(2) by (auto simp: user_ok_def)
  have "sys_read (kenv u) (waits u s) fd (ubuf u) (of_nat 4) s = Some (0, s1)"
    using sys_read_open [OF assms(3) _ ub, of 4] r(1) by simp
  then have "os_read (kernel_os u) fd 4 s = Some (0, [], s1)" by (simp add: kernel_os_def kernel_read_def mem_bytes_def)
  then show ?thesis using user_ok_rtc [OF assms(2) r(2)] assms(3) by simp
qed

lemma kernel_clock:
  assumes "clock_driver (kenv u)"
  shows "clock_os (kernel_os u) (user_ok u P q) (task_view P) (\<lambda>bs. fold spec_putc bs) same_process (\<lambda>s fd. open_as s fd rtc_fops) kernel_room"
  by (intro clock_os.intro kernel_console.console_os_axioms clock_os_axioms.intro kernel_open_clock [OF assms]
      kernel_set_clock [OF assms] kernel_tick [OF assms]) (simp_all add: open_as_def same_process_fds)

text \<open>The concrete file system of the other programs lists the clock.\<close>

lemma sample_clock_driver: "clock_driver (kenv sample_user)"
  by (simp add: clock_driver_def sample_user_def sample_disk_def rtc_frame_def disk_env_def sample_env_def lit_def)

interpretation sample_clock: clock_os "kernel_os sample_user" "user_ok sample_user P q" "task_view P" "\<lambda>bs. fold spec_putc bs"
  same_process "\<lambda>s fd. open_as s fd rtc_fops" kernel_room for P q
  by (rule kernel_clock [OF sample_clock_driver])

text \<open>C40. The bouncing letter on the kernel. With a clock driver and a free descriptor the program opens the clock
  and, for every \<open>n\<close>, gets through \<open>n\<close> passes of its endless loop; it has then shown, for each pass in turn, the
  76 lines of the way out and the 76 lines of the way back, each of 80 bytes with the letter of the pass between the
  two walls, and the letter of the next pass is the next of the alphabet, \<open>A\<close> after \<open>Z\<close>.\<close>

theorem pingpong_on_kernel:
  assumes "clock_driver (kenv u)" and "user_ok u P q s" and "0 < kernel_room s" and "length buf = 81" and "length garbage = 4"
  shows "\<exists>s'. ping_main (kernel_os u) n buf garbage s = Some (letter n, s') \<and> user_ok u P q s'
    \<and> task_view P s' = fold spec_putc (ping_text n) (task_view P s)"
  by (rule clock_os.ping_main_out [OF kernel_clock [OF assms(1)] assms(2-5)])

theorem pingpong_on_kernel_witness:
  "\<exists>s'. ping_main (kernel_os sample_user) 27 (replicate 81 7) [1, 2, 3, 4] (sample_process []) = Some (0x42, s')
     \<and> task_view VIDEO s' = fold spec_putc (ping_text 27) (task_view VIDEO (sample_process []))"
proof -
  note p = sample_process_ok [of "[]"]
  have ok: "user_ok sample_user VIDEO 0x8048000 (sample_process [])" using p(1) by simp
  show ?thesis
    using pingpong_on_kernel [OF sample_clock_driver ok, of "replicate 81 7" "[1, 2, 3, 4]" 27] p(3) by (auto simp: letter_def)
qed

end
