(* ===== verification/Interactive.thy ===== *)
theory Interactive
  imports Programs
begin

text \<open>
  Programs that read the keyboard, on the kernel: the task of the active terminal writes through \<open>putc\<close> and the
  keyboard handler echoes through \<open>putc_active\<close>, each with its own coordinates. The two consoles are shown to be
  one screen, and \<^verbatim>\<open>tmnthello.c\<close> and \<^verbatim>\<open>tmntcounter.c\<close> to show the dialogue with the user.
\<close>

subsection \<open>One screen for output and echo\<close>

definition front :: "u32 \<Rightarrow> kstate \<Rightarrow> bool" where
  "front P s \<longleftrightarrow> scheduling_started s \<noteq> 0 \<and> unat (current_task s) = unat (active_terminal s)
     \<and> linear s (video_mem (ACTIVE_TERMINAL s)) P 4000
     \<and> screen_x s = term_x (ACTIVE_TERMINAL s) \<and> screen_y s = term_y (ACTIVE_TERMINAL s)
     \<and> pcb_terminal (pcbs s (CURRENT_PCB_ADDRESS s)) = unat (active_terminal s)"

lemma front_view: "front P s \<Longrightarrow> active_view P s = task_view P s"
  by (simp add: front_def active_view_def task_view_def)

lemma front_screens: "front P s \<Longrightarrow> task_screen_ok P s \<longleftrightarrow> active_screen_ok P s \<and> linear s VIDEO P 4000"
  using front_view [of P s] by (auto simp: front_def task_screen_ok_def active_screen_ok_def)

lemma front_frame:
  assumes "wf_kernel s" and "front P s" and "console_frame P s s'"
    and "screen_x s' = term_x (ACTIVE_TERMINAL s')" and "screen_y s' = term_y (ACTIVE_TERMINAL s')"
  shows "front P s'"
  using assms video_mem_frame [OF assms(1,3)] console_frame_fields [OF assms(3)]
  by (simp add: front_def linear_def CURRENT_PCB_ADDRESS_def)

lemma front_task: "wf_kernel s \<Longrightarrow> front P s \<Longrightarrow> task_terminal (CURRENT_TASK s) = unat (active_terminal s)"
  by (simp add: front_def wf_kernelD)

lemma front_putc:
  assumes "task_screen_ok P s" and "front P s" and "erasable c (task_view P s)"
  shows "front P (putc c s)"
proof (rule front_frame [OF _ assms(2)])
  note p = putc_refines [OF assms(1,3)]
  show wf: "wf_kernel s" using assms(1) by (simp add: task_screen_ok_def)
  show f: "console_frame P s (putc c s)" by (rule p(3))
  let ?t = "putc_screen c s"
  have ft: "console_frame P s ?t" using putc_screen_refines [OF task_screen_okD [OF assms(1)] assms(3)] by simp
  note tf = console_frame_fields [OF ft]
  have wt: "wf_kernel ?t" by (rule wf_console_frame [OF wf ft])
  have tt: "task_terminal (CURRENT_TASK ?t) = unat (active_terminal ?t)" "scheduling_started ?t \<noteq> 0"
    using front_task [OF wf assms(2)] assms(2) tf by (simp_all add: front_def CURRENT_TASK_def)
  define r where "r = (if active (task_term ?t) \<noteq> 0 then update_cursor ?t else ?t)"
  have r: "terminals r = terminals ?t" "active_terminal r = active_terminal ?t" "tasks r = tasks ?t" "current_task r = current_task ?t"
    by (simp_all add: r_def update_cursor_def Let_def cursor_outb_def outb_def)
  have "putc c s = upd_terminal (unat (active_terminal r)) (\<lambda>t. t\<lparr>term_x := screen_x r, term_y := screen_y r\<rparr>) r"
    using tt r by (simp add: putc_split putc_record_def r_def [symmetric] CURRENT_TASK_def)
  moreover have "unat (active_terminal r) < length (terminals r)" using wf_kernelD(1,2) [OF wt] r by simp
  ultimately show "screen_x (putc c s) = term_x (ACTIVE_TERMINAL (putc c s))" "screen_y (putc c s) = term_y (ACTIVE_TERMINAL (putc c s))"
    by (simp_all add: ACTIVE_TERMINAL_def upd_terminal_def)
qed

lemma front_putc_active:
  assumes "active_screen_ok P s" and "front P s" and "erasable c (active_view P s)"
  shows "front P (putc_active c s)"
proof (rule front_frame [OF _ assms(2)])
  note p = putc_active_refines [OF assms(1,3)]
  show wf: "wf_kernel s" using assms(1) by (simp add: active_screen_ok_def)
  show f: "console_frame P s (putc_active c s)" by (rule p(3))
  have wp: "wf_kernel (putc_active c s)" by (rule wf_console_frame [OF wf f])
  obtain t where t: "putc_active c s = update_cursor_active t" by (simp add: putc_active_def Let_def)
  have tf: "terminals (putc_active c s) = terminals t" "active_terminal (putc_active c s) = active_terminal t"
    "tasks (putc_active c s) = tasks t" "current_task (putc_active c s) = current_task t"
    unfolding t by (simp_all add: update_cursor_active_def Let_def cursor_outb_def outb_def)
  have "unat (current_task (putc_active c s)) = unat (active_terminal (putc_active c s))"
    using assms(2) console_frame_fields [OF f] by (simp add: front_def)
  then have "active (task_term (putc_active c s)) \<noteq> 0" using wf_kernelD(2,7) [OF wp] task_term_eq [OF wp] by simp
  then have "active (task_term t) \<noteq> 0" using tf by (simp add: task_term_def CURRENT_TASK_def)
  then show "screen_x (putc_active c s) = term_x (ACTIVE_TERMINAL (putc_active c s))"
    "screen_y (putc_active c s) = term_y (ACTIVE_TERMINAL (putc_active c s))"
    unfolding t by (simp_all add: update_cursor_active_def Let_def cursor_outb_def outb_def ACTIVE_TERMINAL_def task_term_def CURRENT_TASK_def)
qed

subsection \<open>What a key shows\<close>

text \<open>A key changes the screen when it changes the line.\<close>

definition echoed :: "u8 \<Rightarrow> u8 list \<Rightarrow> u8 list" where
  "echoed c line = (if edit_line c line = line then [] else [c])"

primrec echo_keys :: "u8 list \<Rightarrow> u8 list \<Rightarrow> u8 list" where
  "echo_keys line [] = []"
| "echo_keys line (c # keys) = echoed c line @ echo_keys (edit_line c line) keys"

lemma typed_line: "set (fold edit_line keys line) \<subseteq> set line \<union> (set keys - {0, TAB, BKSP})"
proof (induction keys arbitrary: line)
  case (Cons c keys)
  have "set (edit_line c line) \<subseteq> set line \<union> ({c} - {0, TAB, BKSP})"
    by (auto simp: edit_line_def dest: in_set_butlastD)
  then show ?case using Cons.IH [of "edit_line c line"] by fastforce
qed simp

lemma typed_length: "length line \<le> 127 \<Longrightarrow> length (fold edit_line keys line) \<le> 127"
  by (induction keys arbitrary: line) (simp_all add: edit_line_bound)

text \<open>Updates of a terminal that keep what is on its screen.\<close>

definition steady :: "(terminal \<Rightarrow> terminal) \<Rightarrow> bool" where
  "steady f \<longleftrightarrow> (\<forall>t. video_mem (f t) = video_mem t \<and> active (f t) = active t \<and> term_x (f t) = term_x t \<and> term_y (f t) = term_y t)"

lemma steady_upd:
  assumes "wf_kernel s" and "steady f"
  shows "front P (upd_active f s) = front P s" "active_view P (upd_active f s) = active_view P s"
  using assms ACTIVE_TERMINAL_upd [OF assms(1), of f]
  by (simp_all add: front_def active_view_def steady_def linear_def)
    (simp_all add: upd_active_def upd_terminal_def CURRENT_PCB_ADDRESS_def)

lemma key_shape:
  assumes "wf_kernel s" and "holds_line line (ACTIVE_TERMINAL s)" and "c \<noteq> NEWLINE"
  shows "echoed c line = [] \<and> key_irq c s = s
    \<or> echoed c line = [c] \<and> (c = BKSP \<longrightarrow> line \<noteq> []) \<and> (\<exists>f. steady f \<and> key_irq c s = upd_active f (putc_active c s))"
proof -
  have "steady (put_line (edit_line c line))" by (simp add: steady_def put_line_def)
  then show ?thesis using plain_key_cases [OF assms] unfolding echoed_def key_irq_def by (metis option.simps(5))
qed

subsection \<open>A line typed at the keyboard\<close>

text \<open>The terminal is being typed at: the line is in its buffer, and on its screen, so that every backspace that
  takes a character off the line finds one to erase.\<close>

definition cursor_at :: "tscreen \<Rightarrow> nat" where
  "cursor_at v = 80 * scr_y v + scr_x v"

definition typing :: "u32 \<Rightarrow> u8 list \<Rightarrow> kstate \<Rightarrow> bool" where
  "typing P line s \<longleftrightarrow> active_screen_ok P s \<and> front P s \<and> holds_line line (ACTIVE_TERMINAL s)
     \<and> length line \<le> cursor_at (active_view P s)"

lemma cursor_putc:
  assumes "scr_ok v" and "erasable c v" and "length line \<le> 127" and "length line \<le> cursor_at v" and "c = BKSP \<longrightarrow> line \<noteq> []"
  shows "length (edit_line c line) \<le> cursor_at (spec_putc c v)"
proof -
  have v: "scr_x v < 80" "scr_y v < 25" using assms(1) by (simp_all add: scr_ok_def)
  have l: "length (edit_line c line) \<le> 127" by (rule edit_line_bound [OF assms(3)])
  show ?thesis
  proof (cases "c = BKSP")
    case True
    then have "length (edit_line c line) = length line - 1" by (simp add: edit_line_def)
    moreover have "cursor_at (spec_putc c v) = cursor_at v - 1"
      using True v assms(2) by (auto simp: cursor_at_def spec_putc_def spec_draw_def Let_def erasable_def)
    ultimately show ?thesis using assms(4) by linarith
  next
    case False
    have "cursor_at v + 1 \<le> cursor_at (spec_putc c v) \<or> 127 \<le> cursor_at (spec_putc c v)"
      using False v by (auto simp: cursor_at_def spec_putc_def spec_draw_def Let_def)
    moreover have "length (edit_line c line) \<le> length line + 1" using False by (simp add: edit_line_def)
    ultimately show ?thesis using l assms(4) by linarith
  qed
qed

lemma active_ok_upd:
  assumes "active_screen_ok P s" and "steady f" and "wf_kernel (upd_active f s)"
  shows "active_screen_ok P (upd_active f s)"
proof -
  have wf: "wf_kernel s" using assms(1) by (simp add: active_screen_ok_def)
  show ?thesis
    using assms steady_upd(2) [OF wf assms(2), of P] ACTIVE_TERMINAL_upd [OF wf, of f]
    by (simp add: active_screen_ok_def steady_def linear_def df_clear_def) (simp add: upd_active_def upd_terminal_def)
qed

text \<open>What the keys leave alone.\<close>

definition keys_frame :: "kstate \<Rightarrow> kstate \<Rightarrow> bool" where
  "keys_frame s s' \<longleftrightarrow> same_kernel s s' \<and> eflags s' = eflags s \<and> pid_availability s' = pid_availability s"

lemma keys_frame_trans: "keys_frame s t \<Longrightarrow> keys_frame t u \<Longrightarrow> keys_frame s u"
  using same_kernel_trans by (auto simp: keys_frame_def)

lemma keys_frame_key: "console_frame P s (putc_active c s) \<Longrightarrow> keys_frame s (upd_active f (putc_active c s))"
  using same_kernel_trans [OF echo_same [OF putc_active_echo] upd_active_same] console_frame_fields(2,8)
  by (simp add: keys_frame_def) (simp add: upd_active_def upd_terminal_def)

lemma key_typed:
  assumes "typing P line s" and "c \<noteq> NEWLINE"
  shows "typing P (edit_line c line) (key_irq c s)" "active_view P (key_irq c s) = fold spec_putc (echoed c line) (active_view P s)"
    "input_status (ACTIVE_TERMINAL (key_irq c s)) = input_status (ACTIVE_TERMINAL s)" "keys_frame s (key_irq c s)"
proof -
  have t: "active_screen_ok P s" "front P s" "holds_line line (ACTIVE_TERMINAL s)" "length line \<le> cursor_at (active_view P s)"
    using assms(1) by (simp_all add: typing_def)
  then have wf: "wf_kernel s" and sok: "scr_ok (active_view P s)" by (simp_all add: active_screen_ok_def)
  obtain s1 where "plain_key c s = Some s1" and s1: "wf_kernel s1" "holds_line (edit_line c line) (ACTIVE_TERMINAL s1)"
    "input_status (ACTIVE_TERMINAL s1) = input_status (ACTIVE_TERMINAL s)"
    using plain_key_edits [OF wf t(3) assms(2)] by blast
  then have k: "key_irq c s = s1" by (simp add: key_irq_def)
  show "input_status (ACTIVE_TERMINAL (key_irq c s)) = input_status (ACTIVE_TERMINAL s)" using s1(3) k by simp
  consider (silent) "echoed c line = []" "key_irq c s = s"
    | (seen) f where "echoed c line = [c]" "c = BKSP \<longrightarrow> line \<noteq> []" "steady f" "key_irq c s = upd_active f (putc_active c s)"
    using key_shape [OF wf t(3) assms(2)] by blast
  then have "typing P (edit_line c line) (key_irq c s) \<and> active_view P (key_irq c s) = fold spec_putc (echoed c line) (active_view P s)
    \<and> keys_frame s (key_irq c s)"
  proof cases
    case silent
    then have "edit_line c line = line" by (simp add: echoed_def split: if_splits)
    then show ?thesis using silent assms(1) by (simp add: keys_frame_def same_kernel_def)
  next
    case seen
    have e: "erasable c (active_view P s)"
      using seen(2) t(4) by (cases line) (auto simp: erasable_def cursor_at_def)
    note p = putc_active_refines [OF t(1) e] and fp = front_putc_active [OF t(1,2) e]
    have wp: "wf_kernel (putc_active c s)" using p(2) by (simp add: active_screen_ok_def)
    note u = steady_upd [OF wp seen(3), of P]
    have "active_screen_ok P (key_irq c s)"
      unfolding seen(4) by (rule active_ok_upd [OF p(2) seen(3)]) (use s1(1) k seen(4) in simp)
    moreover have "length line \<le> 127" using t(3) by (simp add: holds_line_def)
    then have "length (edit_line c line) \<le> cursor_at (spec_putc c (active_view P s))"
      using cursor_putc [OF sok e _ t(4) seen(2)] by simp
    ultimately show ?thesis
      using s1(2) k u p(1) fp seen(1,4) keys_frame_key [OF p(3), of f] by (simp add: typing_def)
  qed
  then show "typing P (edit_line c line) (key_irq c s)" "active_view P (key_irq c s) = fold spec_putc (echoed c line) (active_view P s)"
    "keys_frame s (key_irq c s)" by blast+
qed

lemma enter_typed:
  assumes "typing P line s"
  shows "active_screen_ok P (key_irq NEWLINE s)" "front P (key_irq NEWLINE s)"
    "active_view P (key_irq NEWLINE s) = spec_putc NEWLINE (active_view P s)" "keys_frame s (key_irq NEWLINE s)"
proof -
  have t: "active_screen_ok P s" "front P s" "holds_line line (ACTIVE_TERMINAL s)" using assms by (simp_all add: typing_def)
  then have wf: "wf_kernel s" by (simp add: active_screen_ok_def)
  let ?f = "\<lambda>t. t\<lparr>input_status := INPUT_ENDED, buffer_index := buffer_index t + 1\<rparr> :: terminal"
  have k: "key_irq NEWLINE s = upd_active ?f (putc_active NEWLINE s)" by (simp add: key_irq_def plain_key_def Let_def)
  have e: "erasable NEWLINE (active_view P s)" by (simp add: erasable_def)
  note p = putc_active_refines [OF t(1) e]
  have wp: "wf_kernel (putc_active NEWLINE s)" using p(2) by (simp add: active_screen_ok_def)
  have st: "steady ?f" by (simp add: steady_def)
  note u = steady_upd [OF wp st, of P]
  show "active_screen_ok P (key_irq NEWLINE s)"
    unfolding k by (rule active_ok_upd [OF p(2) st]) (use newline_key(1) [OF wf t(3)] k in simp)
  show "front P (key_irq NEWLINE s)" "active_view P (key_irq NEWLINE s) = spec_putc NEWLINE (active_view P s)"
    using u front_putc_active [OF t(1,2) e] p(1) by (simp_all add: k)
  show "keys_frame s (key_irq NEWLINE s)" unfolding k by (rule keys_frame_key [OF p(3)])
qed

lemma keys_typed:
  assumes "typing P line s" and "NEWLINE \<notin> set keys"
  shows "typing P (fold edit_line keys line) (fold key_irq keys s)
    \<and> active_view P (fold key_irq keys s) = fold spec_putc (echo_keys line keys) (active_view P s) \<and> keys_frame s (fold key_irq keys s)
    \<and> (input_status (ACTIVE_TERMINAL s) \<noteq> 0 \<longrightarrow> spin (unat (active_terminal s)) (map key_irq (keys @ [NEWLINE])) s = Some (key_irq NEWLINE (fold key_irq keys s)))"
  using assms
proof (induction keys arbitrary: s line)
  case Nil
  have wf: "wf_kernel s" "holds_line line (ACTIVE_TERMINAL s)" using Nil.prems by (simp_all add: typing_def active_screen_ok_def)
  note k = newline_key [OF wf]
  have "terminals (key_irq NEWLINE s) ! unat (active_terminal s) = ACTIVE_TERMINAL (key_irq NEWLINE s)"
    using k(2) by (simp add: same_kernel_def ACTIVE_TERMINAL_def)
  then have "input_status (terminals (key_irq NEWLINE s) ! unat (active_terminal s)) = 0" using k(3) by simp
  then show ?case using Nil.prems by (simp add: keys_frame_def same_kernel_def active_nth)
next
  case (Cons c keys)
  then have c: "c \<noteq> NEWLINE" by auto
  note k = key_typed [OF Cons.prems(1) c]
  have a: "active_terminal (key_irq c s) = active_terminal s" using k(4) by (simp add: keys_frame_def same_kernel_def)
  note ih = Cons.IH [OF k(1)]
  show ?case
    using ih Cons.prems(2) k(2,3) keys_frame_trans [OF k(4)] by (auto simp: a active_nth)
qed

subsection \<open>A process at the active terminal\<close>

definition same_shell :: "kstate \<Rightarrow> kstate \<Rightarrow> bool" where
  "same_shell s s' \<longleftrightarrow> same_process s s' \<and> pid_availability s' = pid_availability s"

definition seated :: "user_env \<Rightarrow> u32 \<Rightarrow> u32 \<Rightarrow> kstate \<Rightarrow> bool" where
  "seated u P q s \<longleftrightarrow> user_ok u P q s \<and> front P s \<and> holds_line [] (ACTIVE_TERMINAL s)
     \<and> fd_in_use (current_fds s ! 0) \<and> file_ops (current_fds s ! 0) = std_in_fops"

lemma seatedD:
  assumes "seated u P q s"
  shows "user_ok u P q s" "front P s" "holds_line [] (ACTIVE_TERMINAL s)" "task_screen_ok P s" "wf_kernel s"
  using assms by (simp_all add: seated_def user_ok_def task_screen_ok_def)

lemma front_more: "machine.more s' = machine.more s \<Longrightarrow> mmu s' = mmu s \<Longrightarrow> front P s' = front P s"
  using kfields_more [of s' s] by (simp add: front_def linear_def ACTIVE_TERMINAL_def CURRENT_PCB_ADDRESS_def)

lemma front_puts:
  assumes "task_screen_ok P s" and "front P s" and "0x08 \<notin> set bs"
  shows "front P (fold putc bs s)"
  using assms
proof (induction bs arbitrary: s)
  case (Cons b bs)
  then have e: "erasable b (task_view P s)" by (auto simp: erasable_def)
  show ?case using Cons.IH [OF putc_refines(2) [OF Cons.prems(1) e] front_putc [OF Cons.prems(1,2) e]] Cons.prems(3) by simp
qed simp

lemma holds_line_frame:
  assumes "wf_kernel s" and "console_frame P s s'"
  shows "holds_line line (ACTIVE_TERMINAL s') = holds_line line (ACTIVE_TERMINAL s)"
  using forget_xy_nth [OF console_frame_fields(10) [OF assms(2)], of "unat (active_terminal s)"] wf_kernelD(1,2) [OF assms(1)]
    console_frame_fields(3) [OF assms(2)]
  by (simp add: holds_line_def ACTIVE_TERMINAL_def)

lemma seated_write:
  assumes "seated u P q s" and "0x08 \<notin> set bs" and "length bs \<le> 1025"
  shows "\<exists>s'. os_write (kernel_os u) 1 bs s = Some (of_nat (length bs), s') \<and> seated u P q s'
    \<and> same_shell s s' \<and> task_view P s' = fold spec_putc bs (task_view P s)"
proof -
  note d = seatedD [OF assms(1)]
  let ?s = "store_bytes bs (ubuf u) s"
  have len: "length bs \<le> 1100" using assms(3) by simp
  note o = user_ok_store [OF d(1) len]
  have f: "fd_in_use (current_fds ?s ! 1)" "file_ops (current_fds ?s ! 1) = std_out_fops" "task_screen_ok P ?s" "ubuf u \<noteq> 0"
    using o(1) by (auto simp: user_ok_def)
  have lin: "linear ?s (ubuf u) q 1100" and off: "\<forall>k<1100. \<not> within (q + of_nat k) P 4000" using o(1) by (simp_all add: user_ok_def)
  have "mmu ?s (ubuf u + of_nat i) = q + of_nat i" if "i < length bs" for i using lin that len by (simp add: linear_def)
  then have h: "buffer_holds P ?s (ubuf u) bs" using o(4) off len by (auto simp: buffer_holds_def)
  have short: "length bs < 2 ^ 31" using assms(3) by simp
  from write_call_shows [OF f(3,1,2) h assms(2) f(4) short, of "kenv u"]
  obtain s' where s': "sys_write (kenv u) 1 (ubuf u) (of_nat (length bs)) ?s = Some (of_nat (length bs), s')" "console_frame P ?s s'" by blast
  note w = terminal_write_fold [OF f(3) h assms(2) f(4) short]
  have "\<not> slt (of_nat (length bs)) 0" using small_count(1) [OF assms(3)] assms(3) by (simp add: slt_unat)
  then have "s' = (fold putc bs (cli ?s))\<lparr>eflags := eflags ?s\<rparr>"
    using s'(1) w(1) f by (simp add: sys_write_eq)
  moreover have "front P (cli ?s)" using d(2) by (subst front_more) (simp_all add: cli_def)
  then have "front P (fold putc bs (cli ?s))" by (rule front_puts [OF w(2) _ assms(2)])
  ultimately have "front P s'" by (simp add: front_def linear_def CURRENT_PCB_ADDRESS_def ACTIVE_TERMINAL_def)
  moreover have "holds_line [] (ACTIVE_TERMINAL s')"
  proof -
    have "ACTIVE_TERMINAL ?s = ACTIVE_TERMINAL s" by (simp add: ACTIVE_TERMINAL_def kfields_more [OF store_bytes_fields(2)])
    then show ?thesis using holds_line_frame [OF _ s'(2)] f(3) d(3) by (simp add: task_screen_ok_def)
  qed
  moreover obtain s2 where s2: "os_write (kernel_os u) 1 bs s = Some (of_nat (length bs), s2)" "user_ok u P q s2" "same_process s s2"
    "task_view P s2 = fold spec_putc bs (task_view P s)"
    using kernel_console.write_out [OF d(1) assms(2,3)] by blast
  moreover have "s2 = s'" using s2(1) s'(1) by (simp add: kernel_os_def kernel_write_def)
  moreover have "pid_availability s' = pid_availability s"
    using console_frame_fields(8) [OF s'(2)] by (simp add: kfields_more [OF store_bytes_fields(2)])
  ultimately show ?thesis using assms(1) same_process_fds [OF s2(3)] by (auto simp: seated_def same_shell_def)
qed

lemma reset_buffer_eq: "reset_buffer s = upd_active (\<lambda>t. t\<lparr>input_buffer := replicate INPUT_BUFFER_SIZE NEWLINE, buffer_index := 0\<rparr>) s"
  by (simp add: reset_buffer_def cli_and_save_def restore_flags_def cli_def upd_active_def upd_terminal_def)

text \<open>Between the reads of a line: the process, its task and its flags are as they were.\<close>

lemma user_ok_keys:
  assumes "user_ok u P q s" and "keys_frame s s'" and "active_screen_ok P s'" and "front P s'"
  shows "user_ok u P q s'" "task_view P s' = active_view P s'" "same_shell s s'"
proof -
  have k: "mmu s' = mmu s" "same_process s s'" using assms(2) by (simp_all add: keys_frame_def same_kernel_def same_process_def)
  have "linear s' VIDEO P 4000" using assms(1) k(1) by (simp add: user_ok_def task_screen_ok_def linear_def)
  then have "task_screen_ok P s'" using front_screens [OF assms(4)] assms(3) by simp
  then show "user_ok u P q s'" using user_ok_same [OF assms(1) _ k(2,1)] by simp
  show "task_view P s' = active_view P s'" "same_shell s s'"
    using front_view [OF assms(4)] k(2) assms(2) by (simp_all add: same_shell_def keys_frame_def)
qed

lemma upd_active_frame: "keys_frame s (upd_active f s)"
  using upd_active_same by (simp add: keys_frame_def) (simp add: upd_active_def upd_terminal_def)

lemma terminal_line:
  assumes "seated u P q s" and "NEWLINE \<notin> set keys" and "n \<le> 1025" and "line = fold edit_line keys []" and "bs = take n (line @ [NEWLINE])"
  shows "\<exists>s1. terminal_read (map key_irq (keys @ [NEWLINE])) (ubuf u) (of_nat n) s = Some (of_nat (length bs), reset_buffer (store_bytes bs (ubuf u) s1))
    \<and> user_ok u P q s1 \<and> front P s1 \<and> same_shell s s1 \<and> task_view P s1 = fold spec_putc (echo_keys [] keys @ [NEWLINE]) (task_view P s)"
proof -
  note d = seatedD [OF assms(1)]
  let ?f = "\<lambda>r. r\<lparr>input_status := IN_PROGRESS\<rparr> :: terminal"
  define v where "v = upd_active ?f s"
  have st: "steady ?f" by (simp add: steady_def)
  have wv: "wf_kernel v" unfolding v_def using d(3) by (intro wf_upd_active [OF d(5)]) (simp_all add: holds_line_def)
  have vt: "holds_line [] (ACTIVE_TERMINAL v)" "input_status (ACTIVE_TERMINAL v) \<noteq> 0"
    using d(3) by (simp_all add: v_def ACTIVE_TERMINAL_upd [OF d(5)] holds_line_def)
  have av: "active_screen_ok P v" unfolding v_def
    by (rule active_ok_upd [OF _ st]) (use front_screens [OF d(2)] d(4) wv v_def in auto)
  have ty: "typing P [] v" using av vt(1) steady_upd(1) [OF d(5) st, of P] d(2) by (simp add: typing_def v_def)
  define k where "k = fold key_irq keys v"
  define s1 where "s1 = key_irq NEWLINE k"
  have active: "active_terminal v = active_terminal s" by (simp add: v_def upd_active_def upd_terminal_def)
  have kt: "typing P line k" "active_view P k = fold spec_putc (echo_keys [] keys) (active_view P v)" "keys_frame v k"
    "spin (unat (active_terminal s)) (map key_irq (keys @ [NEWLINE])) v = Some s1"
    using keys_typed [OF ty assms(2)] vt(2) unfolding assms(4) k_def s1_def active by blast+
  note e = enter_typed [OF kt(1), folded s1_def]
  have f1: "keys_frame s s1" using keys_frame_trans [OF upd_active_frame [of s ?f] keys_frame_trans [OF kt(3) e(4), unfolded v_def]] by simp
  note ok = user_ok_keys [OF d(1) f1 e(1,2)]
  have hk: "wf_kernel k" "holds_line line (ACTIVE_TERMINAL k)" using kt(1) by (simp_all add: typing_def active_screen_ok_def)
  note nk = newline_key(4,5) [OF hk, folded s1_def]
  have a1: "active_terminal s1 = active_terminal s" using f1 by (simp add: keys_frame_def same_kernel_def)
  have t1: "terminals s1 ! unat (active_terminal s) = ACTIVE_TERMINAL s1" by (simp add: ACTIVE_TERMINAL_def a1)
  have len: "length line \<le> 127" using typed_length [of "[]" keys] assms(4) by simp
  have pt: "unat (active_terminal s) = pcb_terminal (pcbs s (CURRENT_PCB_ADDRESS s))" using d(2) by (simp add: front_def)
  have ub: "ubuf u \<noteq> 0" using d(1) by (auto simp: user_ok_def)
  have n: "unat (of_nat n :: u32) = n" by (rule small_count(1) [OF assms(3)])
  then have nn: "\<not> slt (of_nat n) 0" using assms(3) by (simp add: slt_unat)
  have "spin (unat (active_terminal s)) (map key_irq (keys @ [NEWLINE])) (upd_terminal (unat (active_terminal s)) ?f s) = Some s1"
    using kt(4) by (simp add: v_def upd_active_def)
  then have "terminal_read (map key_irq (keys @ [NEWLINE])) (ubuf u) (of_nat n) s =
      Some (of_nat (min (length line + 1) n), reset_buffer (store_bytes (take (min (length line + 1) n) (input_buffer (ACTIVE_TERMINAL s1))) (ubuf u) s1))"
    using read_copies [OF d(5) ub nn pt, of "map key_irq (keys @ [NEWLINE])" s1 "length line + 1"] nk len n t1 by simp
  moreover have "take (min (length line + 1) n) (input_buffer (ACTIVE_TERMINAL s1)) = bs"
    using nk(2) len by (simp add: assms(5) replicate_first min_def take_Cons')
  moreover have "length bs = min (length line + 1) n" by (simp add: assms(5) min.commute)
  moreover have "task_view P s1 = fold spec_putc (echo_keys [] keys @ [NEWLINE]) (task_view P s)"
    using ok(2) e(3) kt(2) steady_upd(2) [OF d(5) st, of P] front_view [OF d(2)] by (simp add: v_def)
  ultimately show ?thesis using ok(1,3) e(2) by auto
qed

lemma seated_read:
  assumes "seated u P q s" and "waits u s = map key_irq (keys @ [NEWLINE])" and "NEWLINE \<notin> set keys" and "n \<le> 1025"
    and "bs = take n (fold edit_line keys [] @ [NEWLINE])"
  shows "\<exists>s'. os_read (kernel_os u) 0 n s = Some (of_nat (length bs), bs, s') \<and> seated u P q s' \<and> same_shell s s'
    \<and> task_view P s' = fold spec_putc (echo_keys [] keys @ [NEWLINE]) (task_view P s)"
proof -
  let ?f = "\<lambda>t. t\<lparr>input_buffer := replicate INPUT_BUFFER_SIZE NEWLINE, buffer_index := 0\<rparr> :: terminal"
  obtain s1 where r: "terminal_read (map key_irq (keys @ [NEWLINE])) (ubuf u) (of_nat n) s = Some (of_nat (length bs), reset_buffer (store_bytes bs (ubuf u) s1))"
    and s1: "user_ok u P q s1" "front P s1" "same_shell s s1" "task_view P s1 = fold spec_putc (echo_keys [] keys @ [NEWLINE]) (task_view P s)"
    using terminal_line [OF assms(1,3,4) refl assms(5)] by blast
  have len: "length bs \<le> 1025" "length bs \<le> 1100" using assms(4,5) by simp_all
  let ?e = "store_bytes bs (ubuf u) s1"
  note e = user_ok_store [OF s1(1) len(2)]
  have fe: "front P ?e" using s1(2) by (subst front_more) simp_all
  have we: "wf_kernel ?e" using e(1) by (simp add: user_ok_def task_screen_ok_def)
  have st: "steady ?f" by (simp add: steady_def)
  define s' where "s' = upd_active ?f ?e"
  have ws: "wf_kernel s'" unfolding s'_def by (rule wf_upd_active [OF we]) simp_all
  have as: "active_screen_ok P s'" unfolding s'_def
    by (rule active_ok_upd [OF _ st]) (use front_screens [OF fe] e(1) ws s'_def in \<open>auto simp: user_ok_def\<close>)
  have fs: "front P s'" using steady_upd(1) [OF we st] fe by (simp add: s'_def)
  note k = user_ok_keys [OF e(1) upd_active_frame [of ?e ?f, folded s'_def] as fs]
  have sp: "same_shell s s'"
    using k(3) e(3) s1(3) by (simp add: same_shell_def same_process_def kfields_more [OF store_bytes_fields(2)])
  then have sf: "current_fds s' = current_fds s" by (intro same_process_fds) (simp add: same_shell_def)
  have "seated u P q s'"
    using k(1) fs assms(1) sf ACTIVE_TERMINAL_upd [OF we, of ?f]
    by (simp add: seated_def s'_def holds_line_def)
  moreover have "task_view P s' = task_view P s1"
    using k(2) steady_upd(2) [OF we st, of P] front_view [OF fe] e(2) by (simp add: s'_def)
  moreover have "os_read (kernel_os u) 0 n s = Some (of_nat (length bs), bs, s')"
  proof -
    have n: "unat (of_nat n :: u32) = n" by (rule small_count(1) [OF assms(4)])
    then have nn: "\<not> slt (of_nat n) 0" using assms(4) by (simp add: slt_unat)
    have ub: "ubuf u \<noteq> 0" using s1(1) by (auto simp: user_ok_def)
    have l: "unat (of_nat (length bs) :: u32) = length bs" by (rule small_count(1) [OF len(1)])
    then have nl: "\<not> slt (of_nat (length bs)) 0" using len by (simp add: slt_unat)
    have "sys_read (kenv u) (waits u s) 0 (ubuf u) (of_nat n) s = Some (of_nat (length bs), s')"
      using assms(1,2) nn ub r by (simp add: sys_read_eq seated_def reset_buffer_eq s'_def)
    moreover have "mem_bytes s' (ubuf u) (length bs) = bs"
      using e(4) by (intro nth_equalityI) (simp_all add: mem_bytes_def s'_def rd8_def upd_active_def upd_terminal_def)
    ultimately show ?thesis using l nl by (simp add: kernel_os_def kernel_read_def)
  qed
  ultimately show ?thesis using s1(4) sp by auto
qed

end
