(* ===== verification/Dialogue.thy ===== *)
theory Dialogue
  imports Interactive Exec
begin

text \<open>
  The programs that ask the user: \<^verbatim>\<open>tmnthello.c\<close>, \<^verbatim>\<open>tmntcounter.c\<close> and the shell \<^verbatim>\<open>tmntshell.c\<close>. They are
  shown correct for any machine whose console echoes a typed line and hands it to the reader, and the kernel is
  shown to be one.
\<close>

subsection \<open>A machine with a keyboard\<close>

text \<open>The line that the keys make, what they show on the way, and the answers of the counter and of the shell.\<close>

definition answer :: "u8 list \<Rightarrow> u8 list" where
  "answer keys = fold edit_line keys []"

definition echoes :: "u8 list \<Rightarrow> u8 list" where
  "echoes keys = echo_keys [] keys @ [NEWLINE]"

definition count_answer :: "u8 list \<Rightarrow> u8 list" where
  "count_answer keys = (if answer keys = [] then []
     else if answer keys = [0x30] then count_lines 1 101 else if answer keys = [0x31] then count_lines 1 10001
     else if answer keys = [0x32] then count_lines 1 100001 else map of_char ''Wrong Choice!'' @ [NEWLINE])"

definition prompted :: "u8 list \<Rightarrow> u8 list" where
  "prompted keys = map of_char ''TMNT> '' @ echoes keys"

text \<open>The user answers each read of descriptor 0 with \<open>keys\<close> and Enter.\<close>

locale keyboard_os = console_os os good shown emit frame
  for os :: "'s os" and good shown and emit :: "u8 list \<Rightarrow> 'o \<Rightarrow> 'o" and frame +
  fixes keys :: "u8 list"
  assumes one_line: "NEWLINE \<notin> set keys"
    and read_line: "good s \<Longrightarrow> n \<le> 1025 \<Longrightarrow> bs = take n (fold edit_line keys [] @ [NEWLINE]) \<Longrightarrow>
      \<exists>s'. os_read os 0 n s = Some (of_nat (length bs), bs, s') \<and> good s' \<and> frame s s'
        \<and> shown s' = emit (echo_keys [] keys @ [NEWLINE]) (shown s)"
begin

lemma answer_facts: "0 \<notin> set (answer keys)" "0x08 \<notin> set (answer keys)" "NEWLINE \<notin> set (answer keys)" "length (answer keys) \<le> 127"
  using typed_line [of keys "[]"] one_line typed_length [of "[]" keys] by (auto simp: answer_def)

text \<open>The programs read into a buffer of 1024 bytes and put a NUL behind what they got.\<close>

lemma ask_line:
  assumes "good s" and "length buf = 1024"
  shows "\<exists>buf' s'. tmnt_read os 0 buf 0 (1024 - 1) s = Some (of_nat (length (answer keys) + 1), buf', s') \<and> puts_out s (echoes keys) s'
    \<and> length buf' = 1024 \<and> take (length (answer keys) + 1) buf' = answer keys @ [NEWLINE]"
proof -
  have t: "take 1023 (fold edit_line keys [] @ [NEWLINE]) = answer keys @ [NEWLINE]" using answer_facts(4) by (simp add: answer_def)
  obtain s' where s': "os_read os 0 1023 s = Some (of_nat (length (answer keys @ [NEWLINE])), answer keys @ [NEWLINE], s')" "good s'" "frame s s'"
    "shown s' = emit (echoes keys) (shown s)"
    using read_line [OF assms(1) _ t [symmetric]] by (auto simp: echoes_def)
  define b where "b = User_Lib.overwrite buf 0 (answer keys @ [NEWLINE])"
  have "store_at buf 0 (answer keys @ [NEWLINE]) = Some b" using assms(2) answer_facts(4) by (simp add: b_def)
  then have "tmnt_read os 0 buf 0 1023 s = Some (of_nat (length (answer keys) + 1), b, s')"
    using s'(1) by (simp add: tmnt_read_def)
  moreover have "length b = 1024" "take (length (answer keys) + 1) b = answer keys @ [NEWLINE]"
    using assms(2) answer_facts(4) by (simp_all add: b_def) (simp add: User_Lib.overwrite_def)
  ultimately show ?thesis using s' by (auto simp: puts_out_def)
qed

lemma ended_line:
  assumes "length buf = 1024" and "take (length (answer keys) + 1) buf = answer keys @ [NEWLINE]"
  shows "\<exists>buf'. aput buf (unat (of_nat (length (answer keys) + 1) :: u32)) 0 = Some buf' \<and> length buf' = 1024 \<and> holds_at buf' 0 ((answer keys @ [NEWLINE]) @ [0])"
proof -
  have n: "unat (of_nat (length (answer keys) + 1) :: u32) = length (answer keys) + 1" using small_count(1) [of "length (answer keys) + 1"] answer_facts(4) by simp
  have "take (length (answer keys) + 2) (buf[length (answer keys) + 1 := 0]) = answer keys @ [NEWLINE] @ [0]"
    using assms answer_facts(4) by (simp add: take_Suc_conv_app_nth)
  then show ?thesis unfolding n using assms(1) answer_facts(4) by (simp add: aput_def holds_at_def)
qed

lemma count_not_failed: "- 1 \<noteq> (of_nat (length (answer keys) + 1) :: u32)"
proof -
  have "length (answer keys) + 1 \<le> 1025" using answer_facts(4) by simp
  from small_count(2) [OF this] show ?thesis by (rule not_sym)
qed

lemma say_lit:
  assumes "good s" and "0 \<notin> set (map of_char str :: u8 list)" and "0x08 \<notin> set (map of_char str :: u8 list)" and "length str \<le> 1024"
  shows "\<exists>s'. say os (lit str) s = Some s' \<and> puts_out s (map of_char str) s'"
    "\<exists>s'. say os (lit_nl str) s = Some s' \<and> puts_out s (map of_char str @ [NEWLINE]) s'"
  using assms by (intro say_out [OF assms(1) holds_at_lit(1)] say_out [OF assms(1) holds_at_lit(2)]; simp)+

lemma hello_out:
  assumes "good s" and "length buf = 1024"
  shows "\<exists>s'. hello_main os buf s = Some (0, s')
    \<and> puts_out s (map of_char ''Hi, what's your name? '' @ echoes keys @ map of_char ''Hello, '' @ answer keys @ [NEWLINE]) s'"
proof -
  have "\<exists>s1. say os (lit ''Hi, what's your name? '') s = Some s1 \<and> puts_out s (map of_char ''Hi, what's your name? '') s1"
    by (rule say_lit(1) [OF assms(1)]) simp_all
  then obtain s1 where s1: "say os (lit ''Hi, what's your name? '') s = Some s1" "puts_out s (map of_char ''Hi, what's your name? '') s1"
    by blast
  obtain b s2 where s2: "tmnt_read os 0 buf 0 (1024 - 1) s1 = Some (of_nat (length (answer keys) + 1), b, s2)" "puts_out s1 (echoes keys) s2"
    "length b = 1024" "take (length (answer keys) + 1) b = answer keys @ [NEWLINE]"
    using ask_line [OF puts_out_good [OF s1(2)] assms(2)] by blast
  obtain b' where b': "aput b (unat (of_nat (length (answer keys) + 1) :: u32)) 0 = Some b'" "holds_at b' 0 ((answer keys @ [NEWLINE]) @ [0])"
    using ended_line [OF s2(3,4)] by blast
  have "\<exists>s3. say os (lit ''Hello, '') s2 = Some s3 \<and> puts_out s2 (map of_char ''Hello, '') s3"
    by (rule say_lit(1) [OF puts_out_good [OF s2(2)]]) simp_all
  then obtain s3 where s3: "say os (lit ''Hello, '') s2 = Some s3" "puts_out s2 (map of_char ''Hello, '') s3" by blast
  obtain s4 where s4: "say os b' s3 = Some s4" "puts_out s3 (answer keys @ [NEWLINE]) s4"
    using say_out [OF puts_out_good [OF s3(2)] b'(2)] answer_facts by auto
  have "hello_main os buf s = Some (0, s4)"
    using s1(1) s2(1) b'(1) s3(1) s4(1) count_not_failed by (simp add: hello_main_def)
  then show ?thesis using puts_out_append [OF s1(2) puts_out_append [OF s2(2) puts_out_append [OF s3(2) s4(2)]]] by simp
qed

lemma counter_choice:
  assumes "c = (answer keys @ [NEWLINE]) ! 0"
  shows "(2 < length (answer keys) + 1 \<or> length (answer keys) + 1 = 2 \<and> (c < 0x30 \<or> 0x32 < c)) \<longleftrightarrow> answer keys \<noteq> [] \<and> answer keys \<notin> {[0x30], [0x31], [0x32]}"
    "answer keys = [] \<or> answer keys \<in> {[0x30], [0x31], [0x32]} \<Longrightarrow> count_answer keys = count_lines 1 (counter_max c + 1)"
proof -
  have r: "c < 0x30 \<or> 0x32 < c \<longleftrightarrow> c \<notin> {0x30, 0x31, 0x32}" for c :: u8
  proof -
    have "unat c < 48 \<or> 50 < unat c \<longleftrightarrow> unat c \<notin> {48, 49, 50}" by auto
    then show ?thesis by (simp add: word_less_nat_alt word_unat_eq_iff)
  qed
  show "(2 < length (answer keys) + 1 \<or> length (answer keys) + 1 = 2 \<and> (c < 0x30 \<or> 0x32 < c)) \<longleftrightarrow> answer keys \<noteq> [] \<and> answer keys \<notin> {[0x30], [0x31], [0x32]}"
  proof (cases "answer keys")
    case (Cons a l)
    then show ?thesis using assms r [of a] by (cases l) auto
  qed simp
  show "count_answer keys = count_lines 1 (counter_max c + 1)" if "answer keys = [] \<or> answer keys \<in> {[0x30], [0x31], [0x32]}"
    using that assms by (auto simp: count_answer_def counter_max_def count_lines_end)
qed

lemma counter_out:
  assumes "good s" and "length buf = 1024"
  shows "\<exists>s'. counter_main os buf s = Some (0, s')
    \<and> puts_out s ((map of_char ''Enter the Test Number: (0): 100, (1): 10000, (2): 100000'' @ [NEWLINE]) @ echoes keys @ count_answer keys) s'"
proof -
  let ?q = "''Enter the Test Number: (0): 100, (1): 10000, (2): 100000''"
  have "\<exists>s1. say os (lit_nl ?q) s = Some s1 \<and> puts_out s (map of_char ?q @ [NEWLINE]) s1"
    by (rule say_lit(2) [OF assms(1)]) simp_all
  then obtain s1 where s1: "say os (lit_nl ?q) s = Some s1" "puts_out s (map of_char ?q @ [NEWLINE]) s1" by blast
  obtain b s2 where s2: "tmnt_read os 0 buf 0 (1024 - 1) s1 = Some (of_nat (length (answer keys) + 1), b, s2)" "puts_out s1 (echoes keys) s2"
    "length b = 1024" "take (length (answer keys) + 1) b = answer keys @ [NEWLINE]"
    using ask_line [OF puts_out_good [OF s1(2)] assms(2)] by blast
  obtain b' where b': "aput b (unat (of_nat (length (answer keys) + 1) :: u32)) 0 = Some b'" "length b' = 1024" "holds_at b' 0 ((answer keys @ [NEWLINE]) @ [0])"
    using ended_line [OF s2(3,4)] by blast
  have "0 \<notin> set (answer keys @ [NEWLINE])" using answer_facts(1) by simp
  from string_at_holds(1) [OF b'(3) this] have n: "tmnt_strlen b' 0 = Some (length (answer keys) + 1)" by simp
  define c where "c = (answer keys @ [NEWLINE]) ! 0"
  have "take (length (answer keys) + 2) b' = (answer keys @ [NEWLINE]) @ [0]" using b'(3) by (simp add: holds_at_def)
  then have "b' ! 0 = c" using nth_take [of 0 "length (answer keys) + 2" b'] by (cases "answer keys") (simp_all add: c_def)
  then have g: "aget b' 0 = Some c" using b'(2) by (simp add: aget_def)
  note choice = counter_choice [OF c_def]
  note m = s1(1) s2(1) b'(1) n g count_not_failed
  show ?thesis
  proof (cases "answer keys = [] \<or> answer keys \<in> {[0x30], [0x31], [0x32]}")
    case True
    have mx: "counter_max c < 2 ^ 32" by (simp add: counter_max_def)
    obtain s3 where s3: "counter_loop os 0 (counter_max c) b' s2 = Some (0, s3)" "puts_out s2 (count_lines (0 + 1) (counter_max c + 1)) s3"
      using counter_loop_out [OF puts_out_good [OF s2(2)] _ _ mx, of b' 0] b'(2) by auto
    have "counter_main os buf s = Some (0, s3)"
      using m s3(1) choice(1) True by (auto simp: counter_main_def)
    then show ?thesis
      using puts_out_append [OF s1(2) puts_out_append [OF s2(2) s3(2)]] choice(2) [OF True] by auto
  next
    case False
    have "\<exists>s3. say os (lit_nl ''Wrong Choice!'') s2 = Some s3 \<and> puts_out s2 (map of_char ''Wrong Choice!'' @ [NEWLINE]) s3"
      by (rule say_lit(2) [OF puts_out_good [OF s2(2)]]) simp_all
    then obtain s3 where s3: "say os (lit_nl ''Wrong Choice!'') s2 = Some s3" "puts_out s2 (map of_char ''Wrong Choice!'' @ [NEWLINE]) s3" by blast
    have "counter_main os buf s = Some (0, s3)"
      using m s3(1) choice(1) False by (auto simp: counter_main_def quit_def)
    moreover have "count_answer keys = map of_char ''Wrong Choice!'' @ [NEWLINE]" using False by (simp add: count_answer_def)
    ultimately show ?thesis
      using puts_out_append [OF s1(2) puts_out_append [OF s2(2) s3(2)]] by auto
  qed
qed

text \<open>One turn of the shell, up to the decision what to do with the line.\<close>

lemma shell_line:
  assumes "good s" and "length buf = 1024"
  shows "\<exists>b t. puts_out s (prompted keys) t \<and> length b = 1024 \<and> holds_at b 0 (answer keys @ [0]) \<and>
    shell_turn os buf s =
     (if answer keys = map of_char ''exit'' then Some (Inl (0, t))
      else if answer keys = [] then Some (Inr (b, t))
      else do { (rval, t) \<leftarrow> os_execute os (answer keys) t;
                t \<leftarrow> (if - 1 = rval then say os (lit_nl ''no such command'') t
                      else if 256 = rval then say os (lit_nl ''program terminated by exception'') t
                      else if 0 \<noteq> rval then say os (lit_nl ''program terminated abnormally'') t
                      else Some t);
                Some (Inr (b, t)) })"
proof -
  have "\<exists>s1. say os (lit ''TMNT> '') s = Some s1 \<and> puts_out s (map of_char ''TMNT> '') s1"
    by (rule say_lit(1) [OF assms(1)]) simp_all
  then obtain s1 where s1: "say os (lit ''TMNT> '') s = Some s1" "puts_out s (map of_char ''TMNT> '') s1" by blast
  obtain b s2 where s2: "tmnt_read os 0 buf 0 (1024 - 1) s1 = Some (of_nat (length (answer keys) + 1), b, s2)" "puts_out s1 (echoes keys) s2"
    "length b = 1024" "take (length (answer keys) + 1) b = answer keys @ [NEWLINE]"
    using ask_line [OF puts_out_good [OF s1(2)] assms(2)] by blast
  define b' where "b' = b[length (answer keys) := 0]"
  have n: "unat (of_nat (length (answer keys) + 1) :: u32) = length (answer keys) + 1" using small_count(1) [of "length (answer keys) + 1"] answer_facts(4) by simp
  have l: "length (answer keys) < length b" using s2(3) answer_facts(4) by simp
  have "b ! length (answer keys) = NEWLINE"
    using nth_take [of "length (answer keys)" "length (answer keys) + 1" b] unfolding s2(4) by simp
  then have g: "aget b (length (answer keys)) = Some NEWLINE" "aput b (length (answer keys)) 0 = Some b'" using l by (simp_all add: aget_def aput_def b'_def)
  have "take (length (answer keys)) b = (answer keys)" using s2(4) l by (simp add: take_Suc_conv_app_nth)
  then have h: "holds_at b' 0 (answer keys @ [0])" using l by (simp add: holds_at_def b'_def take_Suc_conv_app_nth)
  have c: "tmnt_strcmp b' 0 (lit ''exit'') 0 = Some (byte_order (answer keys) (map of_char ''exit''))"
    by (rule tmnt_strcmp_order [OF h holds_at_lit(1)]) (use answer_facts in simp_all)
  have e: "0 = byte_order (answer keys) (map of_char ''exit'') \<longleftrightarrow> answer keys = map of_char ''exit''"
    using byte_order_0 [of "answer keys" "map of_char ''exit''"] answer_facts(1) by auto
  have x: "string_at b' 0 = Some (answer keys)" by (rule string_at_holds(2) [OF h answer_facts(1)])
  have z: "aget b' 0 = Some (if answer keys = [] then 0 else hd (answer keys))"
  proof -
    have "take (length (answer keys) + 1) b' = answer keys @ [0]" "length b' = 1024" using h s2(3) by (simp_all add: holds_at_def b'_def)
    then show ?thesis using nth_take [of 0 "length (answer keys) + 1" b'] by (cases "answer keys") (auto simp: aget_def)
  qed
  have nz: "answer keys \<noteq> [] \<Longrightarrow> hd (answer keys) \<noteq> 0" using answer_facts(1) by (metis hd_in_set)
  have "puts_out s (prompted keys) s2" unfolding prompted_def by (rule puts_out_append [OF s1(2) s2(2)])
  moreover have "length b' = 1024" using s2(3) by (simp add: b'_def)
  moreover note h
  moreover have "shell_turn os buf s =
     (if answer keys = map of_char ''exit'' then Some (Inl (0, s2))
      else if answer keys = [] then Some (Inr (b', s2))
      else do { (rval, t) \<leftarrow> os_execute os (answer keys) s2;
                t \<leftarrow> (if - 1 = rval then say os (lit_nl ''no such command'') t
                      else if 256 = rval then say os (lit_nl ''program terminated by exception'') t
                      else if 0 \<noteq> rval then say os (lit_nl ''program terminated abnormally'') t
                      else Some t);
                Some (Inr (b', t)) })"
    using nz e by (simp add: shell_turn_def s1(1) s2(1) [simplified] count_not_failed [simplified] n [simplified] g c z tmnt_execute_def x)
  ultimately show ?thesis by blast
qed

lemma shell_exits:
  assumes "good s" and "length buf = 1024" and "answer keys = map of_char ''exit''"
  shows "\<exists>s'. shell_main os buf s = Some (0, s') \<and> puts_out s ((map of_char ''Starting TMNT Shell'' @ [NEWLINE]) @ prompted keys) s'"
proof -
  have "\<exists>s1. say os (lit_nl ''Starting TMNT Shell'') s = Some s1 \<and> puts_out s (map of_char ''Starting TMNT Shell'' @ [NEWLINE]) s1"
    by (rule say_lit(2) [OF assms(1)]) simp_all
  then obtain s1 where s1: "say os (lit_nl ''Starting TMNT Shell'') s = Some s1" "puts_out s (map of_char ''Starting TMNT Shell'' @ [NEWLINE]) s1" by blast
  obtain t where t: "shell_turn os buf s1 = Some (Inl (0, t))" "puts_out s1 (prompted keys) t"
    using shell_line [OF puts_out_good [OF s1(2)] assms(2)] assms(3) by auto
  then have "shell_loop os buf s1 = Some (0, t)" by (subst shell_loop.simps) simp
  then have "shell_main os buf s = Some (0, t)" using s1(1) by (simp add: shell_main_def)
  then show ?thesis using puts_out_append [OF s1(2) t(2)] by blast
qed

lemma shell_goes_on:
  assumes "good s" and "length buf = 1024"
  shows "answer keys = [] \<Longrightarrow> \<exists>b t. shell_turn os buf s = Some (Inr (b, t)) \<and> length b = 1024 \<and> puts_out s (prompted keys) t"
    and "answer keys \<notin> {[], map of_char ''exit''} \<Longrightarrow> (\<And>t. good t \<Longrightarrow> frame s t \<Longrightarrow> os_execute os (answer keys) t = Some (- 1, t)) \<Longrightarrow>
      \<exists>b t. shell_turn os buf s = Some (Inr (b, t)) \<and> length b = 1024
        \<and> puts_out s (prompted keys @ map of_char ''no such command'' @ [NEWLINE]) t"
proof -
  obtain b t where t: "puts_out s (prompted keys) t" "length b = 1024" and turn: "shell_turn os buf s =
     (if answer keys = map of_char ''exit'' then Some (Inl (0, t))
      else if answer keys = [] then Some (Inr (b, t))
      else do { (rval, t) \<leftarrow> os_execute os (answer keys) t;
                t \<leftarrow> (if - 1 = rval then say os (lit_nl ''no such command'') t
                      else if 256 = rval then say os (lit_nl ''program terminated by exception'') t
                      else if 0 \<noteq> rval then say os (lit_nl ''program terminated abnormally'') t
                      else Some t);
                Some (Inr (b, t)) })"
    using shell_line [OF assms] by blast
  show "\<exists>b t. shell_turn os buf s = Some (Inr (b, t)) \<and> length b = 1024 \<and> puts_out s (prompted keys) t" if "answer keys = []"
    using that t turn by simp
  assume a: "answer keys \<notin> {[], map of_char ''exit''}" and x: "\<And>t. good t \<Longrightarrow> frame s t \<Longrightarrow> os_execute os (answer keys) t = Some (- 1, t)"
  have e: "os_execute os (answer keys) t = Some (- 1, t)" using x t(1) by (simp add: puts_out_def)
  have "\<exists>v. say os (lit_nl ''no such command'') t = Some v \<and> puts_out t (map of_char ''no such command'' @ [NEWLINE]) v"
    by (rule say_lit(2) [OF puts_out_good [OF t(1)]]) simp_all
  then obtain v where v: "say os (lit_nl ''no such command'') t = Some v" "puts_out t (map of_char ''no such command'' @ [NEWLINE]) v" by blast
  have "shell_turn os buf s = Some (Inr (b, v))" using turn a e v(1) by auto
  then show "\<exists>b t. shell_turn os buf s = Some (Inr (b, t)) \<and> length b = 1024
      \<and> puts_out s (prompted keys @ map of_char ''no such command'' @ [NEWLINE]) t"
    using puts_out_append [OF t(1) v(2)] t(2) by blast
qed

end

subsection \<open>The kernel has a keyboard\<close>

definition types :: "user_env \<Rightarrow> u8 list \<Rightarrow> bool" where
  "types u keys \<longleftrightarrow> NEWLINE \<notin> set keys \<and> (\<forall>t. waits u t = map key_irq (keys @ [NEWLINE]))"

lemma kernel_keyboard:
  assumes "types u keys"
  shows "keyboard_os (kernel_os u) (seated u P q) (task_view P) (\<lambda>bs. fold spec_putc bs) same_shell keys"
proof (intro keyboard_os.intro console_os.intro keyboard_os_axioms.intro, goal_cases)
  case (3 s bs)
  then show ?case using seated_write by blast
next
  case (7 s n bs)
  then show ?case using seated_read [OF 7(1) _ _ 7(2,3)] assms by (auto simp: types_def)
qed (use assms in \<open>simp_all add: types_def same_shell_def same_process_def\<close>)

lemma kernel_unknown:
  assumes "next_pid s n" and "0 \<notin> set c" and "c \<noteq> []" and "length c \<le> 127"
    and "\<And>t. fst (read_dentry_by_name (kenv u) (Some (pad_cmd (cmd_name (c @ [0])))) t) = - 1"
  shows "os_execute (kernel_os u) c s = Some (- 1, s)"
proof -
  have l: "length (cmd_name (c @ [0])) \<le> MAX_CMD_SIZE" "length (cmd_arg (c @ [0])) \<le> MAX_CMD_SIZE"
  proof -
    have "length (takeWhile p (dropWhile r xs)) \<le> length xs" for p r and xs :: "u8 list"
      using length_takeWhile_le length_dropWhile_le le_trans by blast
    moreover have "length (dropWhile p (dropWhile r xs)) \<le> length xs" for p r and xs :: "u8 list"
      using length_dropWhile_le le_trans by blast
    ultimately have "length (cmd_name (c @ [0])) \<le> length (c @ [0])" "length (cmd_arg (c @ [0])) \<le> length (c @ [0])"
      unfolding cmd_name_def cmd_arg_def by (blast intro: le_trans)+
    then show "length (cmd_name (c @ [0])) \<le> MAX_CMD_SIZE" "length (cmd_arg (c @ [0])) \<le> MAX_CMD_SIZE" using assms(4) by simp_all
  qed
  have "command_empty (Some (c @ [0])) = Some False" using assms(2,3) by (cases c) (auto simp: command_empty_def)
  moreover have "parse_command (c @ [0]) = Some (pad_cmd (cmd_name (c @ [0])), pad_cmd (cmd_arg (c @ [0])))"
    using l by (simp add: parse_command_eq)
  moreover have "sys_open (kenv u) (Some (pad_cmd (cmd_name (c @ [0])))) (take_pid n s) = (- 1, take_pid n s)"
    using assms(5) [of "take_pid n s"] by (simp add: sys_open_def split_beta)
  ultimately have "sys_execute (kenv u) (Some (c @ [0])) s = Some (Return (- 1), s)"
    by (rule exec_fails [OF assms(1)])
  then show ?thesis by (simp add: kernel_os_def kernel_execute_def)
qed

subsection \<open>A process at the keyboard of the concrete kernel\<close>

text \<open>The page of terminal 0 is shown, as \<open>terminal_open\<close> leaves it; the user types \<open>1x\<close>, a backspace and Enter.\<close>

definition seated_kernel :: kstate where
  "seated_kernel = (sample_process [])\<lparr>mmu := \<lambda>a. if within a (BASE_VIDEO_MEM + FOUR_K) 4000 then a - FOUR_K else a\<rparr>"

definition typing_user :: "u8 list \<Rightarrow> user_env" where
  "typing_user keys = sample_user\<lparr>waits := \<lambda>_. map key_irq (keys @ [NEWLINE])\<rparr>"

lemma typing_user_types: "NEWLINE \<notin> set keys \<Longrightarrow> types (typing_user keys) keys"
  by (simp add: types_def typing_user_def)

lemma within_start: "k < n \<Longrightarrow> n \<le> 4096 \<Longrightarrow> within (a + of_nat k) a n"
  by (simp add: within_def unat_of_nat take_bit_nat_eq_self)

lemma seated_kernel_mmu:
  "k < 4000 \<Longrightarrow> mmu seated_kernel (VIDEO + of_nat k) = VIDEO + of_nat k"
  "k < 4000 \<Longrightarrow> mmu seated_kernel (BASE_VIDEO_MEM + FOUR_K + of_nat k) = VIDEO + of_nat k"
  "k < 1100 \<Longrightarrow> mmu seated_kernel (0x8048000 + of_nat k) = 0x8048000 + of_nat k"
proof -
  have w: "\<not> within (x + of_nat k) (BASE_VIDEO_MEM + FOUR_K) 4000"
    if "k < 4000" and "4000 \<le> unat (x - (BASE_VIDEO_MEM + FOUR_K))" and "unat (x - (BASE_VIDEO_MEM + FOUR_K)) + k < 2 ^ 32" for x :: u32 and k
  proof -
    have "x + of_nat k - (BASE_VIDEO_MEM + FOUR_K) = (x - (BASE_VIDEO_MEM + FOUR_K)) + of_nat k" by simp
    then have "unat (x + of_nat k - (BASE_VIDEO_MEM + FOUR_K)) = unat (x - (BASE_VIDEO_MEM + FOUR_K)) + k"
      using unat_offset [of "x - (BASE_VIDEO_MEM + FOUR_K)" k] that(3) by (simp only:)
    then show ?thesis using that(2) by (simp only: within_def)
  qed
  show "mmu seated_kernel (VIDEO + of_nat k) = VIDEO + of_nat k" if "k < 4000"
    using w [where x = VIDEO and k = k] that by (simp add: seated_kernel_def)
  show "mmu seated_kernel (BASE_VIDEO_MEM + FOUR_K + of_nat k) = VIDEO + of_nat k" if "k < 4000"
    using within_start [of k 4000 "BASE_VIDEO_MEM + FOUR_K"] that by (simp add: seated_kernel_def)
  show "mmu seated_kernel (0x8048000 + of_nat k) = 0x8048000 + of_nat k" if "k < 1100"
    using w [where x = "0x8048000" and k = k] that by (simp add: seated_kernel_def)
qed

lemma seated_kernel_ok: "seated (typing_user keys) VIDEO 0x8048000 seated_kernel" "next_pid seated_kernel 3"
proof -
  note p = sample_process_ok(1) [of "[]"]
  have view: "task_view VIDEO seated_kernel = task_view VIDEO (sample_process [])" by (simp add: task_view_def seated_kernel_def)
  have wf: "wf_kernel seated_kernel = wf_kernel (sample_process [])" by (simp add: wf_kernel_def seated_kernel_def)
  have df: "df_clear seated_kernel = df_clear (sample_process [])" by (simp add: df_clear_def seated_kernel_def)
  have lin: "linear seated_kernel VIDEO VIDEO 4000" "linear seated_kernel 0x8048000 0x8048000 1100"
    "linear seated_kernel (BASE_VIDEO_MEM + FOUR_K) VIDEO 4000"
    using seated_kernel_mmu by (simp_all add: linear_def)
  have cf: "current_fds seated_kernel = current_fds (sample_process [])" "pcbs seated_kernel = pcbs (sample_process [])"
    "CURRENT_PCB_ADDRESS seated_kernel = CURRENT_PCB_ADDRESS (sample_process [])"
    by (simp_all add: current_fds_def seated_kernel_def CURRENT_PCB_ADDRESS_def)
  have ok: "user_ok (typing_user keys) VIDEO 0x8048000 seated_kernel"
    using p lin(1,2) by (simp add: user_ok_def task_screen_ok_def typing_user_def sample_user_def view wf df cf)
  have t: "ACTIVE_TERMINAL seated_kernel = sample_terminal 0"
    by (simp add: seated_kernel_def sample_process_def writer_kernel_def ACTIVE_TERMINAL_def)
  have "front VIDEO seated_kernel"
    using lin(3) by (simp add: front_def t) (simp add: seated_kernel_def sample_process_def writer_kernel_def sample_terminal_def writer_pcb_def sample_pcb_def C_TRUE_def)
  moreover have "holds_line [] (ACTIVE_TERMINAL seated_kernel)" by (simp add: t holds_line_def sample_terminal_def)
  moreover have "fd_in_use (current_fds seated_kernel ! 0)" "file_ops (current_fds seated_kernel ! 0) = std_in_fops"
    by (simp_all add: current_fds_def seated_kernel_def sample_process_def writer_pcb_def fd_in_use_def)
  ultimately show "seated (typing_user keys) VIDEO 0x8048000 seated_kernel" using ok by (simp add: seated_def)
  show "next_pid seated_kernel 3"
    using sample_next(1) by (simp add: next_pid_def seated_kernel_def sample_process_def writer_kernel_def)
qed

interpretation sample_keyboard: keyboard_os "kernel_os (typing_user [0x31, 0x78, 0x08])" "seated (typing_user [0x31, 0x78, 0x08]) P q"
  "task_view P" "\<lambda>bs. fold spec_putc bs" same_shell "[0x31, 0x78, 0x08]" for P q
  by (rule kernel_keyboard [OF typing_user_types]) simp

subsection \<open>Properties\<close>

text \<open>C14. The programs that ask the user, on the kernel. A process whose terminal is the active one runs \<^verbatim>\<open>hello\<close> or
  \<^verbatim>\<open>counter\<close>; at the read the user types any keys that are not Enter, and then Enter. Both programs end with status
  0, and the screen has shown, in this order and through the two consoles of the kernel as one: the question of the
  program, every key that changed the line (a backspace erasing), the line break, and the answer. \<^verbatim>\<open>hello\<close> answers
  with the edited line; \<^verbatim>\<open>counter\<close> counts to 100, 10000 or 100000 for the lines \<open>0\<close>, \<open>1\<close>, \<open>2\<close>, says nothing to an
  empty line and refuses every other.\<close>

theorem dialogue_on_kernel:
  assumes "seated u P q s" and "types u keys" and "length buf = 1024"
  shows "(\<exists>s'. hello_main (kernel_os u) buf s = Some (0, s') \<and> seated u P q s'
      \<and> task_view P s' = fold spec_putc (map of_char ''Hi, what's your name? '' @ echoes keys @ map of_char ''Hello, '' @ answer keys @ [NEWLINE]) (task_view P s))
    \<and> (\<exists>s'. counter_main (kernel_os u) buf s = Some (0, s') \<and> seated u P q s'
      \<and> task_view P s' = fold spec_putc ((map of_char ''Enter the Test Number: (0): 100, (1): 10000, (2): 100000'' @ [NEWLINE])
          @ echoes keys @ count_answer keys) (task_view P s))"
proof -
  note K = kernel_keyboard [OF assms(2), of P q]
  note out = console_os.puts_out_def [OF keyboard_os.axioms(1) [OF K]]
  show ?thesis
    using keyboard_os.hello_out [OF K assms(1,3)] keyboard_os.counter_out [OF K assms(1,3)] unfolding out by blast
qed

theorem dialogue_on_kernel_witness:
  "\<exists>s'. counter_main (kernel_os (typing_user [0x33, 0x78, 0x08])) (replicate 1024 0) seated_kernel = Some (0, s')
     \<and> task_view VIDEO s' = fold spec_putc ((map of_char ''Enter the Test Number: (0): 100, (1): 10000, (2): 100000'' @ [NEWLINE])
          @ [0x33, 0x78, 0x08, NEWLINE] @ map of_char ''Wrong Choice!'' @ [NEWLINE]) (task_view VIDEO seated_kernel)"
proof -
  have "types (typing_user [0x33, 0x78, 0x08]) [0x33, 0x78, 0x08]" by (rule typing_user_types) simp
  from dialogue_on_kernel [OF seated_kernel_ok(1) this, of "replicate 1024 0"]
  obtain s' where s': "counter_main (kernel_os (typing_user [0x33, 0x78, 0x08])) (replicate 1024 0) seated_kernel = Some (0, s')"
    "task_view VIDEO s' = fold spec_putc ((map of_char ''Enter the Test Number: (0): 100, (1): 10000, (2): 100000'' @ [NEWLINE])
          @ echoes [0x33, 0x78, 0x08] @ count_answer [0x33, 0x78, 0x08]) (task_view VIDEO seated_kernel)" by auto
  have "answer [0x33, 0x78, 0x08] = [0x33]" "echoes [0x33, 0x78, 0x08] = [0x33, 0x78, 0x08, NEWLINE]"
    by (simp_all add: answer_def echoes_def echoed_def edit_line_def)
  then show ?thesis using s' by (simp add: count_answer_def)
qed

text \<open>C15. The shell on the kernel. To the line \<open>exit\<close> the shell ends with status 0, after its greeting, its prompt and
  the echo of the keys; after an empty line it asks again; a line that names no program of the file system, with a
  process number free, it answers with its message, and asks again, with the process and the table of process numbers
  as they were.\<close>

theorem shell_on_kernel:
  assumes "seated u P q s" and "types u keys" and "length buf = 1024"
  shows "(answer keys = map of_char ''exit'' \<longrightarrow>
      (\<exists>s'. shell_main (kernel_os u) buf s = Some (0, s') \<and> seated u P q s'
        \<and> task_view P s' = fold spec_putc ((map of_char ''Starting TMNT Shell'' @ [NEWLINE]) @ prompted keys) (task_view P s)))
    \<and> (answer keys = [] \<longrightarrow>
      (\<exists>b s'. shell_turn (kernel_os u) buf s = Some (Inr (b, s')) \<and> length b = 1024 \<and> seated u P q s'
        \<and> task_view P s' = fold spec_putc (prompted keys) (task_view P s)))
    \<and> (answer keys \<notin> {[], map of_char ''exit''} \<and> next_pid s n
        \<and> (\<forall>t. fst (read_dentry_by_name (kenv u) (Some (pad_cmd (cmd_name (answer keys @ [0])))) t) = - 1) \<longrightarrow>
      (\<exists>b s'. shell_turn (kernel_os u) buf s = Some (Inr (b, s')) \<and> length b = 1024 \<and> seated u P q s' \<and> same_shell s s'
        \<and> task_view P s' = fold spec_putc (prompted keys @ map of_char ''no such command'' @ [NEWLINE]) (task_view P s)))"
proof (intro conjI impI)
  note K = kernel_keyboard [OF assms(2), of P q]
  note out = console_os.puts_out_def [OF keyboard_os.axioms(1) [OF K]]
  show "\<exists>s'. shell_main (kernel_os u) buf s = Some (0, s') \<and> seated u P q s'
      \<and> task_view P s' = fold spec_putc ((map of_char ''Starting TMNT Shell'' @ [NEWLINE]) @ prompted keys) (task_view P s)"
    if "answer keys = map of_char ''exit''"
    using keyboard_os.shell_exits [OF K assms(1,3) that] unfolding out by blast
  show "\<exists>b s'. shell_turn (kernel_os u) buf s = Some (Inr (b, s')) \<and> length b = 1024 \<and> seated u P q s'
      \<and> task_view P s' = fold spec_putc (prompted keys) (task_view P s)" if "answer keys = []"
    using keyboard_os.shell_goes_on(1) [OF K assms(1,3) that] unfolding out by blast
  assume a: "answer keys \<notin> {[], map of_char ''exit''} \<and> next_pid s n
      \<and> (\<forall>t. fst (read_dentry_by_name (kenv u) (Some (pad_cmd (cmd_name (answer keys @ [0])))) t) = - 1)"
  note f = keyboard_os.answer_facts(1,4) [OF K]
  have "os_execute (kernel_os u) (answer keys) t = Some (- 1, t)" if "seated u P q t" "same_shell s t" for t
  proof (rule kernel_unknown [OF _ f(1) _ f(2)])
    show "next_pid t n" using a that(2) by (simp add: next_pid_def same_shell_def)
  qed (use a in auto)
  from keyboard_os.shell_goes_on(2) [OF K assms(1,3) _ this] a
  show "\<exists>b s'. shell_turn (kernel_os u) buf s = Some (Inr (b, s')) \<and> length b = 1024 \<and> seated u P q s' \<and> same_shell s s'
      \<and> task_view P s' = fold spec_putc (prompted keys @ map of_char ''no such command'' @ [NEWLINE]) (task_view P s)"
    unfolding out by blast
qed

theorem shell_on_kernel_witness:
  "\<exists>s'. shell_main (kernel_os (typing_user (map of_char ''exot'' @ [0x08, 0x08, 0x69, 0x74]))) (replicate 1024 0) seated_kernel = Some (0, s')
     \<and> seated (typing_user (map of_char ''exot'' @ [0x08, 0x08, 0x69, 0x74])) VIDEO 0x8048000 s'"
proof -
  let ?k = "map of_char ''exot'' @ [0x08, 0x08, 0x69, 0x74] :: u8 list"
  have "types (typing_user ?k) ?k" by (rule typing_user_types) simp
  note sh = shell_on_kernel [OF seated_kernel_ok(1) this, of "replicate 1024 0"]
  have "answer ?k = map of_char ''exit''" by (simp add: answer_def edit_line_def)
  then show ?thesis using sh by (auto simp del: list.map)
qed

end
