(* ===== verification/Sigtest.thy ===== *)
theory Sigtest
  imports Dialogue
begin

text \<open>
  \<^verbatim>\<open>syscalls/tmntsigtest.c\<close>, the test of signals. Its \<open>main\<close> stores through a null pointer; a handler that is run
  for the fault redirects the pointer, and the register of the interrupted store, to a variable of the program.
  The kernel refuses handlers (\<open>sys_set_handler\<close>) and its exception handlers are not among the source files, so what happens at
  the fault is an argument: it ends the process, or it runs a handler and completes the store.
\<close>

subsection \<open>The program\<close>

abbreviation SEGFAULT :: u32 where "SEGFAULT \<equiv> 1"
abbreviation ALARM :: u32 where "ALARM \<equiv> 3"

record sigvars =
  charbuf :: u8
  badbuf :: u32

text \<open>The addresses that the linker gives to \<open>charbuf\<close> and to the two handlers, and the fault: the variables and the
  machine when the interrupted store has been completed.\<close>

record 's sigenv =
  char_at :: u32
  segfault_at :: u32
  alarm_at :: u32
  fault :: "sigvars \<Rightarrow> 's \<Rightarrow> (sigvars \<times> 's) option"

definition sig_store :: "'s sigenv \<Rightarrow> sigvars \<Rightarrow> 's \<Rightarrow> (sigvars \<times> 's) option" where
  "sig_store e v s = (if badbuf v = char_at e then Some (v\<lparr>charbuf := 1\<rparr>, s) else fault e v s)"

definition sig_install :: "'s os \<Rightarrow> 's sigenv \<Rightarrow> 's \<Rightarrow> 's option" where
  "sig_install os e s =
     do { s \<leftarrow> say os (lit_nl ''Installing signal handlers'') s;
          (_, s) \<leftarrow> os_set_handler os SEGFAULT (segfault_at e) s;
          (_, s) \<leftarrow> os_set_handler os ALARM (alarm_at e) s;
          Some s }"

text \<open>\<open>main\<close> behind the store.\<close>

definition sigtest_end :: "'s os \<Rightarrow> u8 list \<Rightarrow> u32 \<Rightarrow> sigvars \<Rightarrow> 's \<Rightarrow> (u32 \<times> 's) option" where
  "sigtest_end os buf cnt v s =
     do { buf \<leftarrow> aput buf (unat cnt) 0;
          s \<leftarrow> say os (lit ''Hello, '') s;
          s \<leftarrow> say os buf s;
          s \<leftarrow> (if charbuf v = 1 then say os (lit_nl ''success'') s else say os (lit_nl ''failure'') s);
          Some (0, s) }"

definition sigtest_main :: "'s os \<Rightarrow> 's sigenv \<Rightarrow> u8 list \<Rightarrow> sigvars \<Rightarrow> 's \<Rightarrow> (u32 \<times> 's) option" where
  "sigtest_main os e buf v s =
     do { (r, buf, s) \<leftarrow> tmnt_getargs os buf 1024 s;
          if 0 \<noteq> r then quit os (lit_nl ''could not read argument'') 3 s
          else do { c \<leftarrow> aget buf 0;
                    s \<leftarrow> (if c = 0x31 then sig_install os e s else Some s);
                    s \<leftarrow> say os (lit ''Hi, what's your name? '') s;
                    (cnt, buf, s) \<leftarrow> tmnt_read os 0 buf 0 (1024 - 1) s;
                    if - 1 = cnt then quit os (lit_nl ''Can't read name from keyboard.'') 3 s
                    else do { (v, s) \<leftarrow> sig_store e v s; sigtest_end os buf cnt v s } } }"

definition signum_line :: "u32 \<Rightarrow> u8 list" where
  "signum_line signum =
     (if signum = 0 then lit_nl ''0'' else if signum = 1 then lit_nl ''1'' else if signum = 2 then lit_nl ''2''
      else if signum = 3 then lit_nl ''3'' else lit_nl ''invalid'')"

text \<open>The handler gets the words of the stack from its parameter on; the register \<open>eax\<close> of the interrupted code is
  the eighth of them. Its local \<open>buf\<close> is one byte.\<close>

definition segfault_sighandler ::
  "'s os \<Rightarrow> 's sigenv \<Rightarrow> u32 list \<Rightarrow> u8 list \<Rightarrow> sigvars \<Rightarrow> 's \<Rightarrow> (u32 list \<times> sigvars \<times> 's) option" where
  "segfault_sighandler os e frame buf v s =
     do { s \<leftarrow> say os (lit ''Segfault signal handler called, signum: '') s;
          signum \<leftarrow> aget frame 0;
          s \<leftarrow> say os (signum_line signum) s;
          s \<leftarrow> say os (lit_nl ''Press enter to continue...'') s;
          (_, buf, s) \<leftarrow> tmnt_read os 0 buf 0 1 s;
          let v = v\<lparr>badbuf := char_at e\<rparr>;
          frame \<leftarrow> aput frame 7 (char_at e);
          s \<leftarrow> say os (lit_nl ''Signal handler returning'') s;
          Some (frame, v, s) }"

definition alarm_sighandler :: "'s os \<Rightarrow> u32 \<Rightarrow> 's \<Rightarrow> 's option" where
  "alarm_sighandler os signum s =
     do { s \<leftarrow> say os (lit ''Alarm signal handler called, signum: '') s; say os (signum_line signum) s }"

text \<open>A fault as the program expects it: the handler runs with the number of the signal, and the store is done again
  with the register that the handler left.\<close>

definition delivered :: "'s os \<Rightarrow> 's sigenv \<Rightarrow> u32 list \<Rightarrow> u8 list \<Rightarrow> sigvars \<Rightarrow> 's \<Rightarrow> (sigvars \<times> 's) option" where
  "delivered os e regs buf v s =
     do { (frame, v, s) \<leftarrow> segfault_sighandler os e (SEGFAULT # regs) buf v s;
          eax \<leftarrow> aget frame 7;
          if eax = char_at e then Some (v\<lparr>charbuf := 1\<rparr>, s) else None }"

subsection \<open>What it shows\<close>

definition sig_asked :: "u8 list \<Rightarrow> u8 list \<Rightarrow> u8 list" where
  "sig_asked as keys = (if as ! 0 = 0x31 then map of_char ''Installing signal handlers'' @ [NEWLINE] else [])
     @ map of_char ''Hi, what's your name? '' @ echoes keys"

definition sig_handled :: "u8 list \<Rightarrow> u8 list" where
  "sig_handled keys = map of_char ''Segfault signal handler called, signum: '' @ [0x31, NEWLINE]
     @ (map of_char ''Press enter to continue...'' @ [NEWLINE]) @ echoes keys @ map of_char ''Signal handler returning'' @ [NEWLINE]"

definition sig_greeted :: "u8 list \<Rightarrow> sigvars \<Rightarrow> u8 list" where
  "sig_greeted keys v = map of_char ''Hello, '' @ (answer keys @ [NEWLINE])
     @ (if charbuf v = 1 then map of_char ''success'' else map of_char ''failure'') @ [NEWLINE]"

locale signal_os = keyboard_os os good shown emit frame keys
  for os :: "'s os" and good shown and emit :: "u8 list \<Rightarrow> 'o \<Rightarrow> 'o" and frame keys +
  fixes args :: "'s \<Rightarrow> u8 list"
  assumes read_args: "good s \<Longrightarrow> args s \<noteq> [] \<Longrightarrow> \<exists>s'. os_getargs os 1024 s = Some (0, args s @ [0], s') \<and> good s' \<and> frame s s' \<and> shown s' = shown s"
    and args_short: "good s \<Longrightarrow> length (args s) < 128"
    and set_handler: "good s \<Longrightarrow> \<exists>r s'. os_set_handler os n h s = Some (r, s') \<and> good s' \<and> frame s s' \<and> shown s' = shown s"
begin

lemma handler_quiet: "good s \<Longrightarrow> \<exists>r s'. os_set_handler os n h s = Some (r, s') \<and> puts_out s [] s'"
  using set_handler [of s n h] by (auto simp: puts_out_def emit_Nil)

lemma sig_install_out:
  assumes "good s"
  shows "\<exists>s'. sig_install os e s = Some s' \<and> puts_out s (map of_char ''Installing signal handlers'' @ [NEWLINE]) s'"
proof -
  have "\<exists>s1. say os (lit_nl ''Installing signal handlers'') s = Some s1 \<and> puts_out s (map of_char ''Installing signal handlers'' @ [NEWLINE]) s1"
    by (rule say_lit(2) [OF assms]) simp_all
  then obtain s1 where s1: "say os (lit_nl ''Installing signal handlers'') s = Some s1" "puts_out s (map of_char ''Installing signal handlers'' @ [NEWLINE]) s1" by blast
  obtain r2 s2 where s2: "os_set_handler os SEGFAULT (segfault_at e) s1 = Some (r2, s2)" "puts_out s1 [] s2"
    using handler_quiet [OF puts_out_good [OF s1(2)]] by blast
  obtain r3 s3 where s3: "os_set_handler os ALARM (alarm_at e) s2 = Some (r3, s3)" "puts_out s2 [] s3"
    using handler_quiet [OF puts_out_good [OF s2(2)]] by blast
  have "sig_install os e s = Some s3" using s1(1) s2(1) s3(1) by (simp add: sig_install_def)
  then show ?thesis using puts_out_append [OF puts_out_append [OF s1(2) s2(2)] s3(2)] by simp
qed

lemma sigtest_faults:
  assumes "good s" and "args s \<noteq> []" and "length buf = 1024" and "badbuf v \<noteq> char_at e"
  shows "\<exists>b t. puts_out s (sig_asked (args s) keys) t \<and> length b = 1024 \<and> take (length (answer keys) + 1) b = answer keys @ [NEWLINE]
    \<and> sigtest_main os e buf v s = do { (v, t) \<leftarrow> fault e v t; sigtest_end os b (of_nat (length (answer keys) + 1)) v t }"
proof -
  let ?q = "''Hi, what's your name? ''" and ?i = "map of_char ''Installing signal handlers'' @ [NEWLINE] :: u8 list"
  obtain s1 where s1: "os_getargs os 1024 s = Some (0, args s @ [0], s1)" "puts_out s [] s1"
    using read_args [OF assms(1,2)] by (auto simp: puts_out_def emit_Nil)
  define b1 where "b1 = User_Lib.overwrite buf 0 (args s @ [0])"
  have g: "tmnt_getargs os buf 1024 s = Some (0, b1, s1)" "length b1 = 1024" "aget b1 0 = Some (args s ! 0)"
    using s1(1) args_short [OF assms(1)] assms(2,3)
    by (simp_all add: tmnt_getargs_def b1_def) (simp add: User_Lib.overwrite_def aget_def nth_append)
  obtain s2 where s2: "(if args s ! 0 = 0x31 then sig_install os e s1 else Some s1) = Some s2"
    "puts_out s1 (if args s ! 0 = 0x31 then ?i else []) s2"
  proof (cases "args s ! 0 = 0x31")
    case True
    show ?thesis using that sig_install_out [OF puts_out_good [OF s1(2)], of e] unfolding if_P [OF True] by blast
  next
    case False
    show ?thesis using that puts_out_Nil [OF puts_out_good [OF s1(2)]] unfolding if_not_P [OF False] by blast
  qed
  have "\<exists>s3. say os (lit ?q) s2 = Some s3 \<and> puts_out s2 (map of_char ?q) s3"
    by (rule say_lit(1) [OF puts_out_good [OF s2(2)]]) simp_all
  then obtain s3 where s3: "say os (lit ?q) s2 = Some s3" "puts_out s2 (map of_char ?q) s3" by blast
  obtain b t where t: "tmnt_read os 0 b1 0 (1024 - 1) s3 = Some (of_nat (length (answer keys) + 1), b, t)" "puts_out s3 (echoes keys) t"
    "length b = 1024" "take (length (answer keys) + 1) b = answer keys @ [NEWLINE]"
    using ask_line [OF puts_out_good [OF s3(2)] g(2)] by blast
  have "sigtest_main os e buf v s = do { (v, t) \<leftarrow> fault e v t; sigtest_end os b (of_nat (length (answer keys) + 1)) v t }"
    using g(1,3) s2(1) s3(1) t(1) count_not_failed assms(4) by (simp add: sigtest_main_def sig_store_def)
  moreover have "puts_out s (sig_asked (args s) keys) t"
    using puts_out_append [OF puts_out_append [OF s1(2) s2(2)] puts_out_append [OF s3(2) t(2)]] by (simp add: sig_asked_def)
  ultimately show ?thesis using t(3,4) by blast
qed

text \<open>The handler, and the end of the program.\<close>

lemma segfault_out:
  assumes "good s" and "7 \<le> length regs" and "length hb = 1"
  shows "\<exists>s'. segfault_sighandler os e (SEGFAULT # regs) hb v s = Some ((SEGFAULT # regs)[7 := char_at e], v\<lparr>badbuf := char_at e\<rparr>, s')
    \<and> puts_out s (sig_handled keys) s'"
proof -
  let ?h = "''Segfault signal handler called, signum: ''" and ?p = "''Press enter to continue...''" and ?r = "''Signal handler returning''"
  have "\<exists>s1. say os (lit ?h) s = Some s1 \<and> puts_out s (map of_char ?h) s1" by (rule say_lit(1) [OF assms(1)]) simp_all
  then obtain s1 where s1: "say os (lit ?h) s = Some s1" "puts_out s (map of_char ?h) s1" by blast
  have "\<exists>s2. say os (lit_nl ''1'') s1 = Some s2 \<and> puts_out s1 (map of_char ''1'' @ [NEWLINE]) s2"
    by (rule say_lit(2) [OF puts_out_good [OF s1(2)]]) simp_all
  then obtain s2 where s2: "say os (signum_line SEGFAULT) s1 = Some s2" "puts_out s1 [0x31, NEWLINE] s2" by (auto simp: signum_line_def)
  have "\<exists>s3. say os (lit_nl ?p) s2 = Some s3 \<and> puts_out s2 (map of_char ?p @ [NEWLINE]) s3"
    by (rule say_lit(2) [OF puts_out_good [OF s2(2)]]) simp_all
  then obtain s3 where s3: "say os (lit_nl ?p) s2 = Some s3" "puts_out s2 (map of_char ?p @ [NEWLINE]) s3" by blast
  obtain r b s4 where s4: "os_read os 0 1 s3 = Some (r, b, s4)" "length b \<le> 1" "puts_out s3 (echoes keys) s4"
    using read_line [OF puts_out_good [OF s3(2)], of 1] by (fastforce simp: puts_out_def echoes_def)
  then have rd: "\<exists>b'. tmnt_read os 0 hb 0 1 s3 = Some (r, b', s4)" using assms(3) by (simp add: tmnt_read_def)
  have "\<exists>s5. say os (lit_nl ?r) s4 = Some s5 \<and> puts_out s4 (map of_char ?r @ [NEWLINE]) s5"
    by (rule say_lit(2) [OF puts_out_good [OF s4(3)]]) simp_all
  then obtain s5 where s5: "say os (lit_nl ?r) s4 = Some s5" "puts_out s4 (map of_char ?r @ [NEWLINE]) s5" by blast
  have "aput (SEGFAULT # regs) 7 (char_at e) = Some ((SEGFAULT # regs)[7 := char_at e])" using assms(2) by (simp add: aput_def)
  then have "segfault_sighandler os e (SEGFAULT # regs) hb v s = Some ((SEGFAULT # regs)[7 := char_at e], v\<lparr>badbuf := char_at e\<rparr>, s5)"
    using s1(1) s2(1) s3(1) rd s5(1) by (auto simp: segfault_sighandler_def aget_def simp del: list_update.simps)
  moreover have "puts_out s (sig_handled keys) s5"
    unfolding sig_handled_def
    by (rule puts_out_append [OF s1(2) puts_out_append [OF s2(2) puts_out_append [OF s3(2) puts_out_append [OF s4(3) s5(2)]]]])
  ultimately show ?thesis by blast
qed

lemma delivered_out:
  assumes "good s" and "7 \<le> length regs" and "length hb = 1"
  shows "\<exists>s'. delivered os e regs hb v s = Some (v\<lparr>badbuf := char_at e, charbuf := 1\<rparr>, s') \<and> puts_out s (sig_handled keys) s'"
proof -
  have "(SEGFAULT # regs)[7 := char_at e] ! 7 = char_at e" using assms(2) by simp
  then have "aget ((SEGFAULT # regs)[7 := char_at e]) 7 = Some (char_at e)" using assms(2) by (simp add: aget_def del: list_update.simps)
  then show ?thesis using segfault_out [OF assms, of e v] by (auto simp: delivered_def simp del: list_update.simps)
qed

lemma sigtest_end_out:
  assumes "good t" and "length b = 1024" and "take (length (answer keys) + 1) b = answer keys @ [NEWLINE]"
  shows "\<exists>s'. sigtest_end os b (of_nat (length (answer keys) + 1)) v t = Some (0, s') \<and> puts_out t (sig_greeted keys v) s'"
proof -
  obtain b' where b': "aput b (unat (of_nat (length (answer keys) + 1) :: u32)) 0 = Some b'" "holds_at b' 0 ((answer keys @ [NEWLINE]) @ [0])"
    using ended_line [OF assms(2,3)] by blast
  have "\<exists>s1. say os (lit ''Hello, '') t = Some s1 \<and> puts_out t (map of_char ''Hello, '') s1" by (rule say_lit(1) [OF assms(1)]) simp_all
  then obtain s1 where s1: "say os (lit ''Hello, '') t = Some s1" "puts_out t (map of_char ''Hello, '') s1" by blast
  obtain s2 where s2: "say os b' s1 = Some s2" "puts_out s1 (answer keys @ [NEWLINE]) s2"
    using say_out [OF puts_out_good [OF s1(2)] b'(2)] answer_facts by auto
  define w where "w = (if charbuf v = 1 then ''success'' else ''failure'')"
  have "\<exists>s3. say os (lit_nl w) s2 = Some s3 \<and> puts_out s2 (map of_char w @ [NEWLINE]) s3"
    by (rule say_lit(2) [OF puts_out_good [OF s2(2)]]) (simp_all add: w_def)
  then obtain s3 where s3: "say os (lit_nl w) s2 = Some s3" "puts_out s2 (map of_char w @ [NEWLINE]) s3" by blast
  have "sigtest_end os b (of_nat (length (answer keys) + 1)) v t = Some (0, s3)"
    using b'(1) s1(1) s2(1) s3(1) by (simp add: sigtest_end_def w_def split: if_splits)
  moreover have "sig_greeted keys v = map of_char ''Hello, '' @ (answer keys @ [NEWLINE]) @ map of_char w @ [NEWLINE]"
    by (simp add: sig_greeted_def w_def)
  then have "puts_out t (sig_greeted keys v) s3" using puts_out_append [OF s1(2) puts_out_append [OF s2(2) s3(2)]] by simp
  ultimately show ?thesis by blast
qed

lemma sigtest_passes:
  assumes "good s" and "args s \<noteq> []" and "length buf = 1024" and "badbuf v \<noteq> char_at e"
    and "fault e = delivered os e regs hb" and "7 \<le> length regs" and "length hb = 1"
  shows "\<exists>s'. sigtest_main os e buf v s = Some (0, s')
    \<and> puts_out s (sig_asked (args s) keys @ sig_handled keys @ sig_greeted keys (v\<lparr>charbuf := 1\<rparr>)) s'"
proof -
  obtain b t where t: "puts_out s (sig_asked (args s) keys) t" "length b = 1024" "take (length (answer keys) + 1) b = answer keys @ [NEWLINE]"
    "sigtest_main os e buf v s = do { (v, t) \<leftarrow> fault e v t; sigtest_end os b (of_nat (length (answer keys) + 1)) v t }"
    using sigtest_faults [OF assms(1-4)] by blast
  obtain t1 where t1: "delivered os e regs hb v t = Some (v\<lparr>badbuf := char_at e, charbuf := 1\<rparr>, t1)" "puts_out t (sig_handled keys) t1"
    using delivered_out [OF puts_out_good [OF t(1)] assms(6,7)] by blast
  obtain s' where s': "sigtest_end os b (of_nat (length (answer keys) + 1)) (v\<lparr>badbuf := char_at e, charbuf := 1\<rparr>) t1 = Some (0, s')"
    "puts_out t1 (sig_greeted keys (v\<lparr>badbuf := char_at e, charbuf := 1\<rparr>)) s'"
    using sigtest_end_out [OF puts_out_good [OF t1(2)] t(2,3)] by blast
  have "sigtest_main os e buf v s = Some (0, s')" using t(4) t1(1) s'(1) assms(5) by simp
  moreover have "sig_greeted keys (v\<lparr>badbuf := char_at e, charbuf := 1\<rparr>) = sig_greeted keys (v\<lparr>charbuf := 1\<rparr>)" by (simp add: sig_greeted_def)
  ultimately show ?thesis using puts_out_append [OF t(1) puts_out_append [OF t1(2) s'(2)]] by auto
qed

end

subsection \<open>On the kernel\<close>

lemma seated_store:
  assumes "seated u P q s" and "length bs \<le> 1100"
  shows "seated u P q (store_bytes bs (ubuf u) s)" "same_shell s (store_bytes bs (ubuf u) s)"
proof -
  let ?s = "store_bytes bs (ubuf u) s"
  note o = user_ok_store(1,3) [OF seatedD(1) [OF assms(1)] assms(2)] and k = kfields_more [OF store_bytes_fields(2) [of bs "ubuf u" s]]
  have "front P ?s" using seatedD(2) [OF assms(1)] by (subst front_more) simp_all
  moreover have "ACTIVE_TERMINAL ?s = ACTIVE_TERMINAL s" by (simp add: ACTIVE_TERMINAL_def k)
  ultimately show "seated u P q ?s" using o assms(1) same_process_fds [OF o(2)] by (simp add: seated_def)
  show "same_shell s ?s" using o(2) by (simp add: same_shell_def k)
qed

lemma seated_getargs:
  assumes "seated u P q s" and "kernel_args s \<noteq> []"
  shows "\<exists>s'. os_getargs (kernel_os u) 1024 s = Some (0, kernel_args s @ [0], s') \<and> seated u P q s' \<and> same_shell s s' \<and> task_view P s' = task_view P s"
proof -
  let ?a = "kernel_args s"
  let ?s = "store_bytes (?a @ [0]) (ubuf u) s"
  note ok = seatedD(1) [OF assms(1)]
  note a = kernel_args_plain [OF ok]
  have len: "length (?a @ [0]) \<le> 1100" using a(3) by simp
  have "kernel_getargs u 1024 s = Some (0, ?a @ [0], ?s)" by (rule kernel_getargs_store [OF ok assms(2)])
  then show ?thesis using seated_store [OF assms(1) len] user_ok_store(2) [OF ok len] by (simp add: kernel_os_def)
qed

lemma kernel_signals:
  assumes "types u keys"
  shows "signal_os (kernel_os u) (seated u P q) (task_view P) (\<lambda>bs. fold spec_putc bs) same_shell keys kernel_args"
proof (intro signal_os.intro kernel_keyboard [OF assms] signal_os_axioms.intro)
  show "length (kernel_args s) < 128" if "seated u P q s" for s by (rule kernel_args_plain(3) [OF seatedD(1) [OF that]])
  show "\<exists>r s'. os_set_handler (kernel_os u) n h s = Some (r, s') \<and> seated u P q s' \<and> same_shell s s' \<and> task_view P s' = task_view P s"
    if "seated u P q s" for s n h
    using that by (simp add: kernel_os_def sys_set_handler_def same_shell_def same_process_def)
qed (rule seated_getargs)

interpretation sample_signals: signal_os "kernel_os (typing_user [0x41])" "seated (typing_user [0x41]) P q" "task_view P"
  "\<lambda>bs. fold spec_putc bs" same_shell "[0x41]" kernel_args for P q
  by (rule kernel_signals [OF typing_user_types]) simp

text \<open>The signal test on the kernel. Started with an argument at the active terminal, the program announces the
  handlers if the argument begins with \<open>1\<close>, asks for a name and gets the typed line; the kernel has refused both
  handlers without a trace, and the store through the null pointer goes to the fault: nothing of the greeting comes
  before it, and all that follows depends on it. On a machine that delivers the fault to the program's handler and
  repeats the store with the register the handler has set, the program goes on from there, greets the user, and reports
  success.\<close>

theorem sigtest_on_kernel:
  assumes "seated u P q s" and "types u keys" and "kernel_args s \<noteq> []" and "length buf = 1024" and "badbuf v \<noteq> char_at e"
  shows "(\<exists>b t. seated u P q t \<and> same_shell s t \<and> task_view P t = fold spec_putc (sig_asked (kernel_args s) keys) (task_view P s)
      \<and> take (length (answer keys) + 1) b = answer keys @ [NEWLINE]
      \<and> sigtest_main (kernel_os u) e buf v s =
          do { (v, t) \<leftarrow> fault e v t; sigtest_end (kernel_os u) b (of_nat (length (answer keys) + 1)) v t })
    \<and> (fault e = delivered (kernel_os u) e regs hb \<and> 7 \<le> length regs \<and> length hb = 1 \<longrightarrow>
      (\<exists>s'. sigtest_main (kernel_os u) e buf v s = Some (0, s') \<and> seated u P q s'
        \<and> task_view P s' = fold spec_putc (sig_asked (kernel_args s) keys @ sig_handled keys @ sig_greeted keys (v\<lparr>charbuf := 1\<rparr>)) (task_view P s)))"
proof (intro conjI impI)
  note K = kernel_signals [OF assms(2), of P q]
  note out = console_os.puts_out_def [OF keyboard_os.axioms(1) [OF kernel_keyboard [OF assms(2), of P q]]]
  show "\<exists>b t. seated u P q t \<and> same_shell s t \<and> task_view P t = fold spec_putc (sig_asked (kernel_args s) keys) (task_view P s)
      \<and> take (length (answer keys) + 1) b = answer keys @ [NEWLINE]
      \<and> sigtest_main (kernel_os u) e buf v s =
          do { (v, t) \<leftarrow> fault e v t; sigtest_end (kernel_os u) b (of_nat (length (answer keys) + 1)) v t }"
    using signal_os.sigtest_faults [OF K assms(1,3-5)] unfolding out by blast
  show "\<exists>s'. sigtest_main (kernel_os u) e buf v s = Some (0, s') \<and> seated u P q s'
      \<and> task_view P s' = fold spec_putc (sig_asked (kernel_args s) keys @ sig_handled keys @ sig_greeted keys (v\<lparr>charbuf := 1\<rparr>)) (task_view P s)"
    if "fault e = delivered (kernel_os u) e regs hb \<and> 7 \<le> length regs \<and> length hb = 1"
    using signal_os.sigtest_passes [OF K assms(1,3-5)] that unfolding out by blast
qed

text \<open>A process with the argument \<open>1\<close>, and a machine that delivers the fault.\<close>

definition signal_kernel :: kstate where
  "signal_kernel = seated_kernel\<lparr>pcbs := \<lambda>_. writer_pcb\<lparr>args := 0x31 # replicate 127 0\<rparr>\<rparr>"

definition signal_env :: "kstate os \<Rightarrow> kstate sigenv" where
  "signal_env os = \<lparr>char_at = 0x8049000, segfault_at = 0x8048100, alarm_at = 0x8048200,
     fault = delivered os \<lparr>char_at = 0x8049000, segfault_at = 0x8048100, alarm_at = 0x8048200, fault = \<lambda>v s. None\<rparr> (replicate 7 0) [0]\<rparr>"

lemma delivered_env: "char_at e = char_at e' \<Longrightarrow> delivered os e regs hb = delivered os e' regs hb"
  by (simp add: fun_eq_iff delivered_def segfault_sighandler_def)

lemma signal_kernel_ok: "seated (typing_user keys) VIDEO 0x8048000 signal_kernel" "kernel_args signal_kernel = [0x31]"
proof -
  have c: "current_fds signal_kernel = current_fds seated_kernel"
    by (simp add: current_fds_def signal_kernel_def seated_kernel_def sample_process_def)
  have t: "ACTIVE_TERMINAL signal_kernel = ACTIVE_TERMINAL seated_kernel" by (simp add: signal_kernel_def ACTIVE_TERMINAL_def)
  have "task_screen_ok VIDEO signal_kernel = task_screen_ok VIDEO seated_kernel"
    by (simp add: task_screen_ok_def signal_kernel_def wf_kernel_def linear_def df_clear_def task_view_def)
  moreover have "mmu signal_kernel = mmu seated_kernel" by (simp add: signal_kernel_def)
  ultimately have "user_ok (typing_user keys) VIDEO 0x8048000 signal_kernel"
    using seatedD(1) [OF seated_kernel_ok(1), of keys] by (simp add: user_ok_def linear_def c) (simp add: signal_kernel_def)
  moreover have "front VIDEO signal_kernel"
    using seatedD(2) [OF seated_kernel_ok(1)]
    by (simp add: front_def t linear_def) (simp add: signal_kernel_def seated_kernel_def sample_process_def writer_pcb_def)
  ultimately show "seated (typing_user keys) VIDEO 0x8048000 signal_kernel"
    using seated_kernel_ok(1) [of keys] by (simp add: seated_def c t)
  show "kernel_args signal_kernel = [0x31]" by (simp add: kernel_args_def signal_kernel_def)
qed

theorem sigtest_on_kernel_witness:
  "\<exists>s'. sigtest_main (kernel_os (typing_user [0x41])) (signal_env (kernel_os (typing_user [0x41]))) (replicate 1024 0) \<lparr>charbuf = 0, badbuf = 0\<rparr> signal_kernel = Some (0, s')
     \<and> seated (typing_user [0x41]) VIDEO 0x8048000 s'"
proof -
  let ?os = "kernel_os (typing_user [0x41])"
  let ?e = "signal_env ?os"
  have k: "types (typing_user [0x41]) [0x41]" by (rule typing_user_types) simp
  have a: "kernel_args signal_kernel \<noteq> []" by (simp add: signal_kernel_ok(2))
  have b: "badbuf \<lparr>charbuf = 0, badbuf = 0\<rparr> \<noteq> char_at ?e" by (simp add: signal_env_def)
  have f: "fault ?e = delivered ?os ?e (replicate 7 0) [0]"
    by (subst (1) signal_env_def) (simp, rule delivered_env, simp add: signal_env_def)
  from sigtest_on_kernel [OF signal_kernel_ok(1) k a _ b, of "replicate 1024 0" "replicate 7 0" "[0]"] f show ?thesis by auto
qed

end
