(* ===== verification/Syscall_Entry.thy ===== *)
theory Syscall_Entry
  imports Syscall_Files Descriptors
begin

text \<open>
  Assembly at the edges of the kernel: the wrappers of the system calls in user programs (\<open>DO_CALL\<close> and \<open>_start\<close> of
  \<^verbatim>\<open>tmntsyscall.S\<close>, \<open>USR_CALL\<close> of \<^verbatim>\<open>sys_call_asm.S\<close>), which move the arguments from the stack into
  registers, the stubs of the kernel (\<open>SYS_CALL\<close>), which move them back to a stack for the C functions, and the code of
  \<^verbatim>\<open>boot.S\<close> before \<open>entry\<close>. The handler of interrupt 0x80 between wrapper and stub is not among the source files: it is an
  argument, as is the machine code of the C functions, with the calling convention as hypotheses (\<open>keeps_stack\<close>, \<open>cdecl\<close>).
\<close>

subsection \<open>Registers and stack\<close>

record cpu = kstate +
  eax :: u32
  ebx :: u32
  ecx :: u32
  edx :: u32
  cs :: u16
  ss :: u16
  ds :: u16
  es :: u16
  fs :: u16
  gs :: u16
  gdtr :: "u16 \<times> u32"    \<comment> \<open>limit and base\<close>

definition pushl :: "u32 \<Rightarrow> cpu \<Rightarrow> cpu" where
  "pushl v s = wr32 (esp s - 4) v (s\<lparr>esp := esp s - 4\<rparr>)"

definition popl :: "cpu \<Rightarrow> u32 \<times> cpu" where
  "popl s = (rd32 s (esp s), s\<lparr>esp := esp s + 4\<rparr>)"

subsection \<open>The macros\<close>

text \<open>The result of each is the address that \<open>ret\<close> goes to, and the machine there.\<close>

definition DO_CALL :: "(cpu \<Rightarrow> cpu option) \<Rightarrow> u32 \<Rightarrow> cpu \<Rightarrow> (u32 \<times> cpu) option" where
  "DO_CALL int80 number s =
     do { let s = pushl (ebx s) s;
          let s = s\<lparr>eax := number\<rparr>;
          let s = s\<lparr>ebx := rd32 s (esp s + 8)\<rparr>;
          let s = s\<lparr>ecx := rd32 s (esp s + 12)\<rparr>;
          let s = s\<lparr>edx := rd32 s (esp s + 16)\<rparr>;
          s \<leftarrow> int80 s;
          let (v, s) = popl s;
          let s = s\<lparr>ebx := v\<rparr>;
          Some (popl s) }"

abbreviation FIRST_ARG :: u32 where "FIRST_ARG \<equiv> 0x08"
abbreviation SECOND_ARG :: u32 where "SECOND_ARG \<equiv> 0x0C"
abbreviation THIRD_ARG :: u32 where "THIRD_ARG \<equiv> 0x10"

definition USR_CALL :: "(cpu \<Rightarrow> cpu option) \<Rightarrow> u32 \<Rightarrow> cpu \<Rightarrow> (u32 \<times> cpu) option" where
  "USR_CALL int80 number s =
     do { let s = pushl (ebx s) s;
          let s = s\<lparr>eax := number\<rparr>;
          let s = s\<lparr>ebx := rd32 s (esp s + FIRST_ARG)\<rparr>;
          let s = s\<lparr>ecx := rd32 s (esp s + SECOND_ARG)\<rparr>;
          let s = s\<lparr>edx := rd32 s (esp s + THIRD_ARG)\<rparr>;
          s \<leftarrow> int80 s;
          let (v, s) = popl s;
          let s = s\<lparr>ebx := v\<rparr>;
          Some (popl s) }"

definition SYS_CALL :: "(cpu \<Rightarrow> cpu option) \<Rightarrow> u32 \<Rightarrow> cpu \<Rightarrow> (u32 \<times> cpu) option" where
  "SYS_CALL c_name ra s =
     do { let s = pushl (edx s) s;
          let s = pushl (ecx s) s;
          let s = pushl (ebx s) s;
          s \<leftarrow> c_name (pushl ra s);
          let (v, s) = popl s;
          let s = s\<lparr>ebx := v\<rparr>;
          let (v, s) = popl s;
          let s = s\<lparr>ecx := v\<rparr>;
          let (v, s) = popl s;
          let s = s\<lparr>edx := v\<rparr>;
          Some (popl s) }"

text \<open>\<open>_start\<close>: the results of \<open>main\<close> and of \<open>tmnt_halt\<close> come with the machine behind their \<open>ret\<close>.\<close>

abbreviation SYS_HALT :: u32 where "SYS_HALT \<equiv> 1"

definition start_asm :: "(cpu \<Rightarrow> cpu option) \<Rightarrow> (cpu \<Rightarrow> cpu option) \<Rightarrow> u32 \<Rightarrow> u32 \<Rightarrow> cpu \<Rightarrow> (u32 \<times> cpu) option" where
  "start_asm main int80 ra ra' s =
     do { s \<leftarrow> main (pushl ra s);
          let s = pushl 0 s;
          let s = pushl 0 s;
          let s = pushl (eax s) s;
          DO_CALL int80 SYS_HALT (pushl ra' s) }"

text \<open>\<open>start\<close> of \<^verbatim>\<open>boot.S\<close>, up to the first instruction of \<open>entry\<close>, which does not return.\<close>

definition lgdt :: "u32 \<Rightarrow> cpu \<Rightarrow> cpu" where
  "lgdt p s = s\<lparr>gdtr := (ucast (rd8 s p) OR push_bit 8 (ucast (rd8 s (p + 1))), rd32 s (p + 2))\<rparr>"

definition boot_start :: "u32 \<Rightarrow> u32 \<Rightarrow> cpu \<Rightarrow> cpu" where
  "boot_start gdt_desc_ptr ra s =
     (let s = lgdt gdt_desc_ptr (cli s);
          s = s\<lparr>cs := KERNEL_CS\<rparr>;
          s = s\<lparr>esp := 0x800000\<rparr>;
          s = s\<lparr>ecx := (ecx s AND 0xFFFF0000) OR ucast KERNEL_DS\<rparr>;
          s = s\<lparr>ss := ucast (ecx s), ds := ucast (ecx s), es := ucast (ecx s), fs := ucast (ecx s), gs := ucast (ecx s)\<rparr>;
          s = pushl (ebx s) s;
          s = pushl (eax s) s
      in pushl ra s)"

subsection \<open>The stack\<close>

text \<open>The stack lies in \<open>n\<close> bytes from \<open>a\<close>, at \<open>q\<close> in physical memory, and its top is \<open>k\<close> bytes into them.\<close>

definition stack :: "cpu \<Rightarrow> u32 \<Rightarrow> u32 \<Rightarrow> nat \<Rightarrow> nat \<Rightarrow> bool" where
  "stack s a q n k \<longleftrightarrow> linear s a q n \<and> n \<le> 4096 \<and> esp s = a + of_nat k"

lemma rd8_wr32_other:
  fixes s :: cpu
  assumes "\<forall>k<4. mmu s (p + of_nat k) \<noteq> mmu s b"
  shows "rd8 (wr32 p v s) b = rd8 s b"
proof -
  have "mmu s p \<noteq> mmu s b" "mmu s (p + 1) \<noteq> mmu s b" "mmu s (p + 2) \<noteq> mmu s b" "mmu s (p + 3) \<noteq> mmu s b"
    using assms [rule_format, of 0] assms [rule_format, of 1] assms [rule_format, of 2] assms [rule_format, of 3]
    by simp_all
  then show ?thesis by (simp add: wr32_def rd8_wr8)
qed

lemma rd32_cong:
  assumes "\<forall>k<4. rd8 s (b + of_nat k) = rd8 t (b + of_nat k)"
  shows "rd32 s b = rd32 t b"
  using assms [rule_format, of 0] assms [rule_format, of 1] assms [rule_format, of 2] assms [rule_format, of 3]
  by (simp add: rd32_def)

lemma rd32_wr32_other:
  assumes "linear s a q n" and "n \<le> 4096" and "i + 4 \<le> n" and "j + 4 \<le> n" and "i + 4 \<le> j \<or> j + 4 \<le> i"
  shows "rd32 (wr32 (a + of_nat i) v s) (a + of_nat j) = rd32 (s :: cpu) (a + of_nat j)"
proof (intro rd32_cong allI impI rd8_wr32_other)
  fix l k :: nat assume lt: "l < 4" "k < 4"
  have "mmu s (a + of_nat (i + k)) = q + of_nat (i + k)" "mmu s (a + of_nat (j + l)) = q + of_nat (j + l)"
    using assms(1,3,4) lt unfolding linear_def by (meson add_less_le_mono less_le_trans nat_add_left_cancel_less)+
  moreover have "q + of_nat (i + k) \<noteq> q + of_nat (j + l)"
    using assms(2-5) lt offset_eq_iff [of "i + k" "j + l" q] by auto
  ultimately show "mmu s (a + of_nat i + of_nat k) \<noteq> mmu s (a + of_nat j + of_nat l)"
    by (simp add: add.assoc)
qed

lemma pushl_regs [simp]:
  "eax (pushl v s) = eax s" "ebx (pushl v s) = ebx s" "ecx (pushl v s) = ecx s" "edx (pushl v s) = edx s"
  "mmu (pushl v s) = mmu s"
  by (simp_all add: pushl_def wr32_def wr8_def)

lemma pushl_stack:
  assumes "stack s a q n (k + 4)" and "k + 4 \<le> n"
  shows "stack (pushl v s) a q n k" and "rd32 (pushl v s) (a + of_nat k) = v"
    and "k + 4 \<le> j \<Longrightarrow> j + 4 \<le> n \<Longrightarrow> rd32 (pushl v s) (a + of_nat j) = rd32 s (a + of_nat j)"
proof -
  have e: "esp s - 4 = a + of_nat k" using assms(1) by (simp add: stack_def)
  let ?s = "s\<lparr>esp := a + of_nat k\<rparr>"
  have p: "pushl v s = wr32 (a + of_nat k) v ?s" by (simp add: pushl_def e)
  have lin: "linear ?s a q n" "n \<le> 4096" using assms(1) by (simp_all add: stack_def linear_def)
  show "stack (pushl v s) a q n k" using lin by (simp add: stack_def p linear_def wr32_def wr8_def)
  have "linear ?s (a + of_nat k) (q + of_nat k) 4"
    using lin(1) assms(2) by (simp add: linear_def add.assoc flip: of_nat_add)
  then show "rd32 (pushl v s) (a + of_nat k) = v" unfolding p by (rule rd32_wr32)
  have "rd32 ?s b = rd32 s b" for b by (simp add: rd32_def rd8_def)
  then show "k + 4 \<le> j \<Longrightarrow> j + 4 \<le> n \<Longrightarrow> rd32 (pushl v s) (a + of_nat j) = rd32 s (a + of_nat j)"
    unfolding p using rd32_wr32_other [OF lin, of k j v] assms(2) by simp
qed

lemma pushl_frame: "pushl v s = s\<lparr>mem := mem (pushl v s), esp := esp s - 4\<rparr>"
  by (simp add: pushl_def wr32_def wr8_def)

lemma pushl_mem:
  assumes "stack s a q n (k + 4)" and "k + 4 \<le> n" and "\<forall>i<4. x \<noteq> q + of_nat (k + i)"
  shows "mem (pushl v s) x = mem s x"
proof -
  have e: "esp s - 4 = a + of_nat k" using assms(1) by (simp add: stack_def)
  have "mmu s (a + of_nat k + of_nat i) = q + of_nat (k + i)" if "i < 4" for i
    using assms(1,2) that by (simp add: stack_def linear_def add.assoc flip: of_nat_add)
  from this [of 0] this [of 1] this [of 2] this [of 3]
  have "x \<noteq> mmu s (a + of_nat k)" "x \<noteq> mmu s (a + of_nat k + 1)" "x \<noteq> mmu s (a + of_nat k + 2)" "x \<noteq> mmu s (a + of_nat k + 3)"
    using assms(3) [rule_format, of 0] assms(3) [rule_format, of 1] assms(3) [rule_format, of 2] assms(3) [rule_format, of 3]
    by simp_all
  then show ?thesis by (simp add: pushl_def e wr32_def wr8_def)
qed

lemma popl_stack: "stack s a q n k \<Longrightarrow> popl s = (rd32 s (a + of_nat k), s\<lparr>esp := a + of_nat (k + 4)\<rparr>)"
  by (simp add: popl_def stack_def add.commute add.left_commute)

lemma rd32_regs [simp]:
  "rd32 (s\<lparr>esp := e\<rparr>) b = rd32 s b" "rd32 (s\<lparr>eax := v\<rparr>) b = rd32 s b" "rd32 (s\<lparr>ebx := v\<rparr>) b = rd32 s b"
  "rd32 (s\<lparr>ecx := v\<rparr>) b = rd32 s b" "rd32 (s\<lparr>edx := v\<rparr>) b = rd32 s b"
  by (simp_all add: rd32_def rd8_def)

lemma stack_regs [simp]:
  "stack (s\<lparr>eax := v\<rparr>) a q n k = stack s a q n k" "stack (s\<lparr>ebx := v\<rparr>) a q n k = stack s a q n k"
  "stack (s\<lparr>ecx := v\<rparr>) a q n k = stack s a q n k" "stack (s\<lparr>edx := v\<rparr>) a q n k = stack s a q n k"
  by (simp_all add: stack_def linear_def)

lemma cpu_upd_esp:
  "s\<lparr>esp := e, ebx := v\<rparr> = (s :: cpu)\<lparr>ebx := v, esp := e\<rparr>" "s\<lparr>esp := e, ecx := v\<rparr> = s\<lparr>ecx := v, esp := e\<rparr>"
  "s\<lparr>esp := e, edx := v\<rparr> = s\<lparr>edx := v, esp := e\<rparr>"
  by simp_all

lemma stack_esp [simp]: "stack s a q n j \<Longrightarrow> stack (s\<lparr>esp := a + of_nat k\<rparr>) a q n k"
  by (simp add: stack_def linear_def)

text \<open>What the wrappers rely on in the code that they run: it drops \<open>d\<close> bytes, and leaves the words above them.\<close>

definition keeps_stack :: "nat \<Rightarrow> u32 \<Rightarrow> u32 \<Rightarrow> nat \<Rightarrow> (cpu \<Rightarrow> cpu option) \<Rightarrow> bool" where
  "keeps_stack d a q n c \<longleftrightarrow>
     (\<forall>s t k. c s = Some t \<and> stack s a q n k \<longrightarrow>
        stack t a q n (k + d) \<and> (\<forall>j. k + d \<le> j \<and> j + 4 \<le> n \<longrightarrow> rd32 t (a + of_nat j) = rd32 s (a + of_nat j)))"

lemma keeps_stackD:
  assumes "keeps_stack d a q n c" and "c s = Some t" and "stack s a q n k"
  shows "stack t a q n (k + d)" and "k + d \<le> j \<Longrightarrow> j + 4 \<le> n \<Longrightarrow> rd32 t (a + of_nat j) = rd32 s (a + of_nat j)"
  using assms unfolding keeps_stack_def by blast+

text \<open>What the calling convention promises of a C function with three parameters: it drops the return address and leaves
  the words above its parameters. The parameters themselves are its own variables.\<close>

definition cdecl :: "u32 \<Rightarrow> u32 \<Rightarrow> nat \<Rightarrow> (cpu \<Rightarrow> cpu option) \<Rightarrow> bool" where
  "cdecl a q n c \<longleftrightarrow>
     (\<forall>s t k. c s = Some t \<and> stack s a q n k \<longrightarrow>
        stack t a q n (k + 4) \<and> (\<forall>j. k + 16 \<le> j \<and> j + 4 \<le> n \<longrightarrow> rd32 t (a + of_nat j) = rd32 s (a + of_nat j)))"

lemma cdeclD:
  assumes "cdecl a q n c" and "c s = Some t" and "stack s a q n k"
  shows "stack t a q n (k + 4)" and "k + 16 \<le> j \<Longrightarrow> j + 4 \<le> n \<Longrightarrow> rd32 t (a + of_nat j) = rd32 s (a + of_nat j)"
  using assms unfolding cdecl_def by blast+

text \<open>The three words from an address on.\<close>

definition words3 :: "cpu \<Rightarrow> u32 \<Rightarrow> u32 \<times> u32 \<times> u32" where
  "words3 s x = (rd32 s x, rd32 s (x + 4), rd32 s (x + 8))"

subsection \<open>What the macros do\<close>

lemma USR_CALL_DO_CALL: "USR_CALL = DO_CALL"
  by (intro ext) (simp add: USR_CALL_def DO_CALL_def)

lemma DO_CALL_correct:
  assumes "stack s a q n (k + 4)" and "k + 20 \<le> n" and "keeps_stack 0 a q n int80"
  shows "\<exists>s1. eax s1 = number \<and> ebx s1 = rd32 s (esp s + 4) \<and> ecx s1 = rd32 s (esp s + 8) \<and> edx s1 = rd32 s (esp s + 12)
           \<and> stack s1 a q n k
           \<and> DO_CALL int80 number s = map_option (\<lambda>t. (rd32 s (esp s), t\<lparr>ebx := ebx s, esp := esp s + 4\<rparr>)) (int80 s1)"
proof -
  let ?p = "pushl (ebx s) s"
  have p: "stack ?p a q n k" "rd32 ?p (a + of_nat k) = ebx s"
    and arg: "k + 4 \<le> j \<Longrightarrow> j + 4 \<le> n \<Longrightarrow> rd32 ?p (a + of_nat j) = rd32 s (a + of_nat j)" for j
    using pushl_stack [OF assms(1), where v = "ebx s"] assms(2) by simp_all
  have e: "esp ?p = a + of_nat k" "esp s = a + of_nat (k + 4)" using p(1) assms(1) by (simp_all add: stack_def)
  define s1 where "s1 = ?p\<lparr>eax := number, ebx := rd32 ?p (esp ?p + 8), ecx := rd32 ?p (esp ?p + 12), edx := rd32 ?p (esp ?p + 16)\<rparr>"
  have st: "stack s1 a q n k" and rd: "rd32 s1 b = rd32 ?p b" for b using p(1) by (simp_all add: s1_def)
  have "DO_CALL int80 number s = map_option (\<lambda>t. (rd32 s (esp s), t\<lparr>ebx := ebx s, esp := esp s + 4\<rparr>)) (int80 s1)"
  proof (cases "int80 s1")
    case None
    then show ?thesis by (simp add: DO_CALL_def Let_def s1_def)
  next
    case (Some t)
    note t = keeps_stackD [OF assms(3) Some st]
    have "popl t = (ebx s, t\<lparr>esp := a + of_nat (k + 4)\<rparr>)"
      using popl_stack [OF t(1)] t(2) [of k] p(2) assms(2) by (simp add: rd)
    moreover have "popl (t\<lparr>esp := a + of_nat (k + 4), ebx := ebx s\<rparr>) = (rd32 s (esp s), t\<lparr>ebx := ebx s, esp := esp s + 4\<rparr>)"
      using t(2) [of "k + 4"] arg [of "k + 4"] assms(2) by (simp add: popl_def rd e cpu_upd_esp)
    ultimately show ?thesis using Some by (simp add: DO_CALL_def Let_def s1_def)
  qed
  moreover have "eax s1 = number" "ebx s1 = rd32 s (esp s + 4)" "ecx s1 = rd32 s (esp s + 8)" "edx s1 = rd32 s (esp s + 12)"
    using arg [of "k + 8"] arg [of "k + 12"] arg [of "k + 16"] assms(2) by (simp_all add: s1_def e add.assoc)
  ultimately show ?thesis using st by blast
qed

lemma pushl_four:
  fixes w0 w1 w2 w3 :: u32
  assumes "stack s a q n (k + 16)" and "k + 20 \<le> n"
  defines "s1 \<equiv> pushl w0 (pushl w1 (pushl w2 (pushl w3 s)))"
  shows "stack s1 a q n k" and "rd32 s1 (a + of_nat k) = w0" and "rd32 s1 (a + of_nat (k + 4)) = w1"
    and "rd32 s1 (a + of_nat (k + 8)) = w2" and "rd32 s1 (a + of_nat (k + 12)) = w3"
    and "rd32 s1 (a + of_nat (k + 16)) = rd32 s (a + of_nat (k + 16))"
    and "s1 = s\<lparr>mem := mem s1, esp := esp s - 16\<rparr>" and "\<forall>i<16. x \<noteq> q + of_nat (k + i) \<Longrightarrow> mem s1 x = mem s x"
proof -
  have "stack s a q n (k + 12 + 4)" "k + 12 + 4 \<le> n" using assms(1,2) by (simp_all add: add.assoc)
  note d = pushl_stack [OF this, where v = w3] and d' = pushl_mem [OF this, where v = w3]
  have "stack (pushl w3 s) a q n (k + 8 + 4)" "k + 8 + 4 \<le> n" using d(1) assms(2) by (simp_all add: add.assoc)
  note c = pushl_stack [OF this, where v = w2] and c' = pushl_mem [OF this, where v = w2]
  have "stack (pushl w2 (pushl w3 s)) a q n (k + 4 + 4)" "k + 4 + 4 \<le> n"
    using c(1) assms(2) by (simp_all add: add.assoc)
  note b = pushl_stack [OF this, where v = w1] and b' = pushl_mem [OF this, where v = w1]
  have "k + 4 \<le> n" using assms(2) by simp
  note r = pushl_stack [OF b(1) this, where v = w0] and r' = pushl_mem [OF b(1) this, where v = w0]
  show "stack s1 a q n k" "rd32 s1 (a + of_nat k) = w0" unfolding s1_def by (rule r)+
  show "rd32 s1 (a + of_nat (k + 4)) = w1" unfolding s1_def using r(3) [of "k + 4"] b(2) assms(2) by simp
  show "rd32 s1 (a + of_nat (k + 8)) = w2"
    unfolding s1_def using r(3) [of "k + 8"] b(3) [of "k + 8"] c(2) assms(2) by simp
  show "rd32 s1 (a + of_nat (k + 12)) = w3"
    unfolding s1_def using r(3) [of "k + 12"] b(3) [of "k + 12"] c(3) [of "k + 12"] d(2) assms(2) by simp
  show "rd32 s1 (a + of_nat (k + 16)) = rd32 s (a + of_nat (k + 16))"
    unfolding s1_def
    using r(3) [of "k + 16"] b(3) [of "k + 16"] c(3) [of "k + 16"] d(3) [of "k + 16"] assms(2) by simp
  show "s1 = s\<lparr>mem := mem s1, esp := esp s - 16\<rparr>" unfolding s1_def by (simp add: pushl_def wr32_def wr8_def)
  show "mem s1 x = mem s x" if "\<forall>i<16. x \<noteq> q + of_nat (k + i)"
  proof -
    have m: "\<forall>i<4. x \<noteq> q + of_nat (k + m + i)" if "m \<le> 12" for m
      using \<open>\<forall>i<16. x \<noteq> q + of_nat (k + i)\<close> [rule_format, of "m + i" for i] that by (simp add: add.assoc)
    show ?thesis
      unfolding s1_def using r' [OF m [of 0, unfolded add_0_right]] b' [OF m [of 4]] c' [OF m [of 8]] d' [OF m [of 12]] by simp
  qed
qed

lemma SYS_CALL_pops:
  assumes "stack t a q n k" and "k + 16 \<le> n"
  shows "(case popl t of (v, u) \<Rightarrow> case popl (u\<lparr>ebx := v\<rparr>) of (v, u) \<Rightarrow> case popl (u\<lparr>ecx := v\<rparr>) of (v, u) \<Rightarrow> popl (u\<lparr>edx := v\<rparr>))
    = (rd32 t (a + of_nat (k + 12)),
       t\<lparr>ebx := rd32 t (a + of_nat k), ecx := rd32 t (a + of_nat (k + 4)), edx := rd32 t (a + of_nat (k + 8)), esp := a + of_nat (k + 16)\<rparr>)"
  using assms(1) by (simp add: popl_def stack_def add.assoc cpu_upd_esp)

text \<open>C39. A kernel stub calls its C function, of which only the calling convention is known, with \<open>ebx\<close>, \<open>ecx\<close> and \<open>edx\<close>
  as first, second and third parameter, on a machine that differs only in the sixteen bytes pushed. When the function returns, the stub goes back to its caller with the
  function's \<open>eax\<close> and its effects on the machine, the stack dropped by the return address, and the three registers
  loaded from the words of the parameters as the function left them: they are as they were exactly if it assigned to
  none of its parameters.\<close>

theorem SYS_CALL_correct:
  assumes "stack s a q n (k + 16)" and "k + 20 \<le> n" and "cdecl a q n c_name"
  shows "\<exists>s1. stack s1 a q n k \<and> rd32 s1 (esp s1) = ra \<and> words3 s1 (esp s1 + 4) = (ebx s, ecx s, edx s)
           \<and> s1 = s\<lparr>mem := mem s1, esp := esp s - 16\<rparr> \<and> (\<forall>x. (\<forall>i<16. x \<noteq> q + of_nat (k + i)) \<longrightarrow> mem s1 x = mem s x)
           \<and> SYS_CALL c_name ra s = map_option (\<lambda>t. (rd32 s (esp s),
               t\<lparr>ebx := rd32 t (esp t), ecx := rd32 t (esp t + 4), edx := rd32 t (esp t + 8), esp := esp s + 4\<rparr>)) (c_name s1)
           \<and> (\<forall>t. c_name s1 = Some t \<longrightarrow>
                (words3 t (esp t) = words3 s1 (esp s1 + 4) \<longleftrightarrow>
                 SYS_CALL c_name ra s = Some (rd32 s (esp s), t\<lparr>ebx := ebx s, ecx := ecx s, edx := edx s, esp := esp s + 4\<rparr>)))"
proof -
  define s1 where "s1 = pushl ra (pushl (ebx s) (pushl (ecx s) (pushl (edx s) s)))"
  note p = pushl_four [OF assms(1,2), where ?w0.0 = ra and ?w1.0 = "ebx s" and ?w2.0 = "ecx s" and ?w3.0 = "edx s", folded s1_def]
  have e: "esp s1 = a + of_nat k" "esp s = a + of_nat (k + 16)" using p(1) assms(1) by (simp_all add: stack_def)
  have w: "words3 s1 (esp s1 + 4) = (ebx s, ecx s, edx s)" using p(3-5) e(1) by (simp add: words3_def add.assoc)
  have x: "SYS_CALL c_name ra s = map_option (\<lambda>t. (rd32 s (esp s),
      t\<lparr>ebx := rd32 t (esp t), ecx := rd32 t (esp t + 4), edx := rd32 t (esp t + 8), esp := esp s + 4\<rparr>)) (c_name s1)"
  proof (cases "c_name s1")
    case None
    then show ?thesis by (simp add: SYS_CALL_def Let_def s1_def)
  next
    case (Some t)
    note t = cdeclD [OF assms(3) Some p(1)]
    have et: "esp t = a + of_nat (k + 4)" using t(1) by (simp add: stack_def)
    have "rd32 t (a + of_nat (k + 16)) = rd32 s (esp s)" using t(2) [of "k + 16"] p(6) assms(2) e(2) by simp
    then show ?thesis
      using SYS_CALL_pops [OF t(1)] Some assms(2) e(2)
      by (simp add: SYS_CALL_def Let_def s1_def [symmetric] split_beta et add.assoc)
  qed
  have "words3 t (esp t) = words3 s1 (esp s1 + 4) \<longleftrightarrow>
      SYS_CALL c_name ra s = Some (rd32 s (esp s), t\<lparr>ebx := ebx s, ecx := ecx s, edx := edx s, esp := esp s + 4\<rparr>)"
    if "c_name s1 = Some t" for t
  proof -
    have "t\<lparr>ebx := x, ecx := y, edx := z, esp := m\<rparr> = t\<lparr>ebx := x', ecx := y', edx := z', esp := m\<rparr> \<longleftrightarrow> x = x' \<and> y = y' \<and> z = z'"
      for x y z x' y' z' m
    proof
      assume eq: "t\<lparr>ebx := x, ecx := y, edx := z, esp := m\<rparr> = t\<lparr>ebx := x', ecx := y', edx := z', esp := m\<rparr>"
      show "x = x' \<and> y = y' \<and> z = z'" using arg_cong [OF eq, of ebx] arg_cong [OF eq, of ecx] arg_cong [OF eq, of edx] by simp
    qed simp
    then show ?thesis unfolding x that w by (simp add: words3_def)
  qed
  moreover have "rd32 s1 (esp s1) = ra" using p(2) e(1) by simp
  moreover have "\<forall>x. (\<forall>i<16. x \<noteq> q + of_nat (k + i)) \<longrightarrow> mem s1 x = mem s x" using p(8) by blast
  ultimately show ?thesis using p(1,7) w x by (intro exI [of _ s1]) blast
qed

text \<open>When \<open>main\<close> of a user program returns, \<open>_start\<close> raises the interrupt of the system calls with the number of
  \<open>halt\<close>, the result of \<open>main\<close> as its first argument and zero as the others; it goes on only if that interrupt returns.\<close>

theorem start_halts:
  assumes "stack s a q n (k + 20)" and "k + 24 \<le> n" and "keeps_stack 4 a q n main" and "keeps_stack 0 a q n int80"
    and "main (pushl ra s) = Some t"
  shows "\<exists>s1. eax s1 = SYS_HALT \<and> ebx s1 = eax t \<and> ecx s1 = 0 \<and> edx s1 = 0
           \<and> (start_asm main int80 ra ra' s = None \<longleftrightarrow> int80 s1 = None)"
proof -
  have "stack s a q n (k + 16 + 4)" "k + 16 + 4 \<le> n" using assms(1,2) by (simp_all add: add.assoc)
  from keeps_stackD(1) [OF assms(3,5) pushl_stack(1) [OF this]]
  have t: "stack t a q n (k + 4 + 16)" by (simp add: add.commute add.left_commute)
  have "k + 4 + 20 \<le> n" using assms(2) by simp
  note p = pushl_four [OF t this, where ?w0.0 = ra' and ?w1.0 = "eax t" and ?w2.0 = 0 and ?w3.0 = 0]
  let ?u = "pushl ra' (pushl (eax t) (pushl 0 (pushl 0 t)))"
  have e: "esp ?u = a + of_nat (k + 4)" using p(1) by (simp add: stack_def)
  have "start_asm main int80 ra ra' s = DO_CALL int80 SYS_HALT ?u" using assms(5) by (simp add: start_asm_def Let_def)
  moreover have "k + 20 \<le> n" using assms(2) by simp
  note DO_CALL_correct [OF p(1) this assms(4), of SYS_HALT]
  ultimately show ?thesis using p(3-5) e by (auto simp: add.assoc)
qed

lemma boot_start_stack:
  fixes gdt_desc_ptr ra :: u32
  assumes "linear s 0x7FFFF4 q 12"
  defines "s1 \<equiv> boot_start gdt_desc_ptr ra s"
  shows "esp s1 = 0x7FFFF4" and "rd32 s1 (esp s1) = ra" and "rd32 s1 (esp s1 + 4) = eax s" and "rd32 s1 (esp s1 + 8) = ebx s"
proof -
  define t where "t = pushl ra (pushl (eax s) (pushl (ebx s) (s\<lparr>esp := 0x800000\<rparr>)))"
  have st: "stack (s\<lparr>esp := 0x800000\<rparr>) 0x7FFFF4 q 12 (8 + 4)" using assms(1) by (simp add: stack_def linear_def)
  note b = pushl_stack [OF st, where v = "ebx s", simplified]
  have "stack (pushl (ebx s) (s\<lparr>esp := 0x800000\<rparr>)) 0x7FFFF4 q 12 (4 + 4)" using b(1) by simp
  note c = pushl_stack [OF this, where v = "eax s", simplified]
  have "stack (pushl (eax s) (pushl (ebx s) (s\<lparr>esp := 0x800000\<rparr>))) 0x7FFFF4 q 12 (0 + 4)" using c(1) by simp
  note r = pushl_stack [OF this, where v = ra, simplified, folded t_def]
  have t: "esp t = 0x7FFFF4" "rd32 t 0x7FFFF4 = ra" "rd32 t 0x7FFFF8 = eax s" "rd32 t 0x7FFFFC = ebx s"
    using r(1,2) r(3) [of 4] r(3) [of 8] c(2) c(3) [of 8] b(2) by (simp_all add: stack_def)
  have "mem s1 = mem t" "mmu s1 = mmu t" "esp s1 = esp t"
    by (simp_all add: s1_def t_def boot_start_def lgdt_def cli_def pushl_def wr32_def wr8_def Let_def)
  then have "rd32 s1 x = rd32 t x" for x by (simp add: rd32_def rd8_def)
  with t \<open>esp s1 = esp t\<close> show "esp s1 = 0x7FFFF4" "rd32 s1 (esp s1) = ra" "rd32 s1 (esp s1 + 4) = eax s" "rd32 s1 (esp s1 + 8) = ebx s"
    by simp_all
qed

text \<open>\<open>start\<close> reaches \<open>entry\<close> with interrupts off, the kernel's segments and an initial stack, on which \<open>entry\<close>
  finds the magic number of the boot loader and the address of the boot information as its two parameters.\<close>

theorem boot_start_correct:
  fixes gdt_desc_ptr ra :: u32
  assumes "linear s 0x7FFFF4 q 12"
  defines "s1 \<equiv> boot_start gdt_desc_ptr ra s"
  shows "rd32 s1 (esp s1 + 4) = eax s \<and> rd32 s1 (esp s1 + 8) = ebx s \<and> esp s1 = 0x7FFFF4
    \<and> eflags s1 AND IF_MASK = 0 \<and> cs s1 = KERNEL_CS \<and> (\<forall>r \<in> {ss, ds, es, fs, gs}. r s1 = KERNEL_DS)
    \<and> snd (gdtr s1) = rd32 s (gdt_desc_ptr + 2)"
proof -
  have "(0xFFFF0000 :: u32) = push_bit 16 0xFFFF" by simp
  then have "ucast ((ecx s AND 0xFFFF0000) OR ucast KERNEL_DS) = KERNEL_DS"
    by (intro bit_word_eqI) (auto simp only: bit_simps, simp_all add: bit_simps)
  then have "cs s1 = KERNEL_CS" "\<forall>r \<in> {ss, ds, es, fs, gs}. r s1 = KERNEL_DS" "snd (gdtr s1) = rd32 s (gdt_desc_ptr + 2)"
    by (simp_all add: s1_def boot_start_def lgdt_def cli_def pushl_def wr32_def wr8_def Let_def rd32_def rd8_def)
  moreover have "eflags s1 AND IF_MASK = 0"
    by (simp add: s1_def boot_start_def lgdt_def cli_def pushl_def wr32_def wr8_def Let_def and.assoc)
  ultimately show ?thesis using boot_start_stack [OF assms(1), of gdt_desc_ptr ra] unfolding s1_def by blast
qed

text \<open>The code of a C function of the kernel on this machine: its parameters are read from the stack, and its result is
  returned in \<open>eax\<close>.\<close>

definition c_call :: "(u32 \<Rightarrow> u32 \<Rightarrow> u32 \<Rightarrow> kstate \<Rightarrow> u32 \<times> kstate) \<Rightarrow> cpu \<Rightarrow> cpu option" where
  "c_call f s =
     (let (r, k) = f (rd32 s (esp s + 4)) (rd32 s (esp s + 8)) (rd32 s (esp s + 12)) (kstate.truncate s)
      in Some ((kstate.extend k (cpu.fields r (ebx s) (ecx s) (edx s) (cs s) (ss s) (ds s) (es s) (fs s) (gs s) (gdtr s)))
                \<lparr>esp := esp s + 4\<rparr>))"

text \<open>\<open>sys_close\<close> behind its stub, with descriptor 2 of the caller open.\<close>

definition close_code :: "cpu \<Rightarrow> cpu option" where
  "close_code = c_call (\<lambda>fd _ _. sys_close fd)"

definition sample_cpu :: "u32 \<Rightarrow> cpu" where
  "sample_cpu e =
     kstate.extend (sample_kernel\<lparr>esp := 0x1000 + e, pcbs := \<lambda>_. sample_pcb\<lparr>fd_array := (fd_array sample_pcb)[2 := (fd_array sample_pcb ! 2)\<lparr>fd_flags := FD_IN_USE\<rparr>]\<rparr>\<rparr>)
       (cpu.fields 1 2 22 5 0 0 0 0 0 0 (0, 0))"

lemma close_code_keeps:
  "\<exists>t. close_code s = Some t \<and> mem t = mem s \<and> mmu t = mmu s \<and> esp t = esp s + 4 \<and> eax t = fst (sys_close (rd32 s (esp s + 4)) (kstate.truncate s))
     \<and> pcbs t = pcbs (snd (sys_close (rd32 s (esp s + 4)) (kstate.truncate s)))"
proof -
  have "mem (snd (sys_close fd k)) = mem k" "mmu (snd (sys_close fd k)) = mmu k" for fd and k :: kstate
    by (simp_all add: sys_close_def upd_fd_def upd_pcb_def)
  then show ?thesis
    by (simp add: close_code_def c_call_def split_beta Let_def kstate.defs cpu.defs)
qed

lemma close_code_cdecl: "cdecl a q n close_code"
  unfolding cdecl_def
proof (intro allI impI)
  fix s t k assume st: "close_code s = Some t \<and> stack s a q n k"
  then have m: "mem t = mem s" "mmu t = mmu s" "esp t = esp s + 4" using close_code_keeps [of s] by auto
  then have "rd32 t x = rd32 s x" for x by (simp add: rd32_def rd8_def)
  then show "stack t a q n (k + 4) \<and> (\<forall>j. k + 16 \<le> j \<and> j + 4 \<le> n \<longrightarrow> rd32 t (a + of_nat j) = rd32 s (a + of_nat j))"
    using st m by (simp add: stack_def linear_def add.assoc)
qed

lemma sample_cpu_stack: "stack (sample_cpu (of_nat k)) 0x1000 0x1000 64 k"
  by (simp add: stack_def linear_def sample_cpu_def kstate.defs sample_kernel_def)

lemma sample_close:
  assumes "pcbs k = pcbs (sample_cpu e)" and "global_pid k = 0"
  shows "fst (sys_close 2 k) = 0" and "\<not> fd_used (fd_array (pcbs (snd (sys_close 2 k)) (PCB_ADDRESS 0))) 2"
proof -
  have c: "current_fds k = (fd_array sample_pcb)[2 := (fd_array sample_pcb ! 2)\<lparr>fd_flags := FD_IN_USE\<rparr>]" "CURRENT_PCB_ADDRESS k = PCB_ADDRESS 0"
    using assms by (simp_all add: current_fds_def sample_cpu_def kstate.defs CURRENT_PCB_ADDRESS_def)
  have l: "length (fd_array sample_pcb) = 8" by (simp add: sample_pcb_def)
  have x: "sys_close 2 k = (0, upd_fd 2 (\<lambda>d. d\<lparr>fd_flags := fd_flags d AND NOT FD_IN_USE\<rparr>) k)"
    using l by (simp add: sys_close_def c(1) slt_def)
  then show "fst (sys_close 2 k) = 0" by simp
  have "fd_array (pcbs (snd (sys_close 2 k)) (PCB_ADDRESS 0)) = current_fds (snd (sys_close 2 k))"
    using c(2) by (simp add: x current_fds_def upd_fd_def upd_pcb_def CURRENT_PCB_ADDRESS_def)
  then show "\<not> fd_used (fd_array (pcbs (snd (sys_close 2 k)) (PCB_ADDRESS 0))) 2"
    using l by (simp add: x c(1) fd_used_def fd_in_use_def)
qed

theorem SYS_CALL_correct_witness:
  "\<exists>u. SYS_CALL close_code 0x400 (sample_cpu 32) = Some (0, u) \<and> eax u = 0 \<and> ebx u = 2 \<and> ecx u = 22 \<and> edx u = 5 \<and> esp u = 0x1024
     \<and> \<not> fd_used (fd_array (pcbs u (PCB_ADDRESS 0))) 2"
proof -
  let ?s = "sample_cpu 32"
  have f: "ebx ?s = 2" "ecx ?s = 22" "edx ?s = 5" "esp ?s = 0x1020" "global_pid ?s = 0" "rd32 ?s x = 0" for x
    by (simp_all add: sample_cpu_def kstate.defs cpu.defs rd32_def rd8_def sample_kernel_def)
  have st: "stack ?s 0x1000 0x1000 64 (16 + 16)" using sample_cpu_stack [of 32] by simp
  have n: "16 + 20 \<le> (64::nat)" by simp
  obtain s1 where
    s1: "words3 s1 (esp s1 + 4) = (ebx ?s, ecx ?s, edx ?s)" "s1 = ?s\<lparr>mem := mem s1, esp := esp ?s - 16\<rparr>"
    and r: "\<forall>t. close_code s1 = Some t \<longrightarrow>
        (words3 t (esp t) = words3 s1 (esp s1 + 4) \<longleftrightarrow>
         SYS_CALL close_code 0x400 ?s = Some (rd32 ?s (esp ?s), t\<lparr>ebx := ebx ?s, ecx := ecx ?s, edx := edx ?s, esp := esp ?s + 4\<rparr>))"
    using SYS_CALL_correct [OF st n close_code_cdecl, where ra = "0x400"] by blast
  obtain t where t: "close_code s1 = Some t" "mem t = mem s1" "mmu t = mmu s1" "esp t = esp s1 + 4"
    "eax t = fst (sys_close 2 (kstate.truncate s1))" "pcbs t = pcbs (snd (sys_close 2 (kstate.truncate s1)))"
    using close_code_keeps [of s1] s1(1) by (auto simp: words3_def f)
  have "words3 t (esp t) = words3 s1 (esp s1 + 4)" using t(2-4) by (simp add: words3_def rd32_def rd8_def)
  then have "SYS_CALL close_code 0x400 ?s = Some (rd32 ?s (esp ?s), t\<lparr>ebx := ebx ?s, ecx := ecx ?s, edx := edx ?s, esp := esp ?s + 4\<rparr>)"
    using r t(1) by blast
  moreover have "pcbs (kstate.truncate s1) = pcbs ?s" "global_pid (kstate.truncate s1) = 0"
    by (subst s1(2), simp add: kstate.defs f(5))+
  note sample_close [OF this]
  ultimately show ?thesis using t(5,6) by (simp add: f)
qed

text \<open>A function that assigns to its first parameter: its stub gives the caller another \<open>ebx\<close>.\<close>

definition assigns :: "cpu \<Rightarrow> cpu option" where
  "assigns s = Some (wr32 (esp s + 4) 9 (s\<lparr>esp := esp s + 4\<rparr>))"

lemma assigns_ebx: "map_option (\<lambda>(_, u). (ebx u, ecx u, edx u)) (SYS_CALL assigns 0x400 (sample_cpu 32)) = Some (9, 22, 5)"
  by code_simp

text \<open>A program whose \<open>main\<close> returns 3, and an interrupt that does not return from \<open>halt\<close> with that status.\<close>

definition returns :: "u32 \<Rightarrow> cpu \<Rightarrow> cpu option" where
  "returns r s = Some (s\<lparr>eax := r, esp := esp s + 4\<rparr>)"

definition halting :: "u32 \<Rightarrow> cpu \<Rightarrow> cpu option" where
  "halting st s = (if eax s = SYS_HALT \<and> ebx s = st \<and> ecx s = 0 \<and> edx s = 0 then None else Some s)"

lemma keeps_sample: "keeps_stack 4 a q n (returns r)" "keeps_stack 0 a q n (halting st)"
  by (auto simp: keeps_stack_def returns_def halting_def stack_def linear_def add.assoc)

theorem start_halts_witness: "start_asm (returns 3) (halting 3) 0x400 0x410 (sample_cpu 40) = None"
proof -
  have st: "stack (sample_cpu 40) 0x1000 0x1000 64 (20 + 20)" using sample_cpu_stack [of 40] by simp
  have "returns 3 (pushl 0x400 (sample_cpu 40)) = Some ((pushl 0x400 (sample_cpu 40))\<lparr>eax := 3, esp := esp (pushl 0x400 (sample_cpu 40)) + 4\<rparr>)"
    by (simp add: returns_def)
  from start_halts [OF st _ keeps_sample(1) keeps_sample(2) [of _ _ _ 3] this, of "0x410"] show ?thesis by (auto simp: halting_def)
qed

end
