(* ===== verification/Spec2Isabelle.thy ===== *)
theory Spec2Isabelle
  imports Mem_Ops Strings Terminal_Irq Scheduler Boot Fish_Kernel Emulate Pingpong Sigtest Syscall_Entry
begin

text \<open>
  A verification library for the TMNT operating system: the kernel in \<^verbatim>\<open>student-distrib\<close> (C with inline
  assembly for a 32-bit x86 machine), its user programs in \<^verbatim>\<open>syscalls\<close>, and the fish animation in
  \<^verbatim>\<open>fish\<close>.

  \<^bold>\<open>The program.\<close> The kernel runs up to six processes on three text terminals. It is started by a Multiboot loader,
  sets up descriptor tables and devices, shows a picture in graphics mode and starts a shell. Keyboard interrupts edit
  the line of the active terminal or run commands (switch terminals, halt a process); processes use system calls to
  open, read and write files and the terminal, to execute programs and to halt; timer interrupts switch between three
  tasks, one per terminal; the mouse moves a highlighted cell. The user programs (shell, cat, ls, grep, hello, counter,
  a bouncing letter and two test programs) call the kernel through a small library, which
  \<^verbatim>\<open>tmntemulate.c\<close> implements a second time on Linux. The fish animation shows two frames in turn: a
  device driver keeps a list of blinking characters that a clock routine redraws.

  \<^bold>\<open>How it is modelled.\<close> The state of the kernel is one record, \<open>kstate\<close> (theory Kernel_State), which extends the
  record \<open>machine\<close> (theory Machine: physical memory, address translation, port history, flags, stack registers) with
  the variables of the C files. Every C function is a HOL function on that record. Integers are words of their width;
  signed operators are explicit. An access outside an array, a call through a null pointer and a wait that has not
  ended are the result \<open>None\<close>. Control that leaves a function without returning (\<open>iret\<close>, the jump of \<open>sys_halt\<close>, a
  stack switch) is a value of a datatype. A user program is a function of the record \<open>os\<close> of its system calls, so that
  it runs on the kernel, on Linux or on any other machine that answers them.

  \<^bold>\<open>Theories.\<close>
  \<^item> Tmnt_Prelude: words, C arrays, signed arithmetic, alignment. Machine: memory accesses through the MMU, ports, flags
    (\<^verbatim>\<open>lib.h\<close>).
  \<^item> Mem_Ops, Strings: the routines of \<^verbatim>\<open>lib.c\<close>, assembly included; each is shown to compute its
    description and to touch nothing else.
  \<^item> I8259: the interrupt controllers (\<^verbatim>\<open>i8259.c\<close>); the contract of an interrupt controller is a locale.
    Keyboard: scancode translation (\<^verbatim>\<open>scancode_ascii_lookup.h\<close>, \<^verbatim>\<open>keyboard.c\<close>), a
    refinement of an abstract keyboard.
  \<^item> Kernel_State: structures, address arithmetic, the invariant \<open>wf_kernel\<close>. Slots and Process: the contract of a table
    of slots and its two instances, process numbers (\<^verbatim>\<open>process.h\<close>) and file descriptors.
  \<^item> Console, Screen, Active_Screen, Printing: text output of \<^verbatim>\<open>lib.c\<close>; the consoles implement an abstract
    text screen (locale \<open>text_screen\<close>), and \<open>printf\<close> prints the rendering of its format.
  \<^item> Paging: what the kernel relies on in the page tables. Terminal, Terminal_Display, Line_Input, Terminal_Irq:
    \<^verbatim>\<open>terminal.c\<close>; switching keeps the contents, keys edit an abstract line, a read delivers it.
  \<^item> Syscall, Syscall_Files, Command_Line, Exec: \<^verbatim>\<open>sys_call.c\<close>; descriptors as slots, the parser against
    its description, execute and halt as inverse operations. Syscall_Entry: the assembly around the system calls and
    before the C entry; arguments reach the C functions, and the stack comes back as it was, the registers as the
    functions leave their parameters.
  \<^item> Round_Robin, Scheduler: the contract of a round-robin scheduler and \<open>schedule\<close> of \<^verbatim>\<open>scheduling.c\<close> as
    an instance of it.
  \<^item> Mouse: packets, the pointer and the set-up of \<^verbatim>\<open>mouse.c\<close>, a refinement of a pointer on the 80 by 25
    cells. Rtc: the clock interrupt of \<^verbatim>\<open>rtc.c\<close>.
  \<^item> Vga, Font_Data, Modex: \<^verbatim>\<open>modex.c\<close>; what the two mode changes leave in the registers and the planes of
    the display adapter, whose documented effect of a port access is \<open>vga_step\<close>.
  \<^item> Descriptors, Boot_Info, Boot: \<^verbatim>\<open>x86_desc.h\<close>, \<^verbatim>\<open>x86_desc.S\<close>, \<^verbatim>\<open>multiboot.h\<close>
    and \<^verbatim>\<open>kernel.c\<close>; the descriptors that are built, the printed boot information, and that \<open>entry\<close> ends by
    entering the shell.
  \<^item> User_Lib, User_Os, Grep, Syserr: \<^verbatim>\<open>tmntsupport.c\<close> and the programs. User_Files: what files a machine
    shows to them. Screen_Write, User_Kernel, Programs: the kernel behind the system calls; grep, cat, ls and the
    tests of wrong arguments on it. Pingpong (locale \<open>clock_os\<close>), Interactive and Dialogue (locale \<open>keyboard_os\<close>: one
    screen for output and echo), Sigtest (locale \<open>signal_os\<close>): the programs that wait for the clock or for a line.
  \<^item> Blink, Blink_Clock, Fish, Fish_Kernel: \<^verbatim>\<open>blink.S\<close>, \<^verbatim>\<open>fish.c\<close>; the list of blinking
    characters refines a map from places to characters, and the animation shows its frames on the kernel's files.
    Emulate: \<^verbatim>\<open>tmntemulate.c\<close> over the calls of Linux (the copies under \<^verbatim>\<open>fish\<close> and
    \<^verbatim>\<open>syscalls\<close> are equal).

  \<^bold>\<open>Parameters.\<close> Code that is not among the source files (for the drivers, the paging and the interrupt handlers there is
  only a packed version, \<^verbatim>\<open>student-distrib/todo.zip\<close>, not the original code) is an argument, with what is relied on in
  it stated as a predicate and a concrete instance for the witnesses: page tables, file system, RTC and PIT drivers (\<open>paging\<close>, \<open>env\<close>, \<open>hardware\<close> with
  \<open>paging_ok\<close>, \<open>drivers_ok\<close>, \<open>drivers_keep_setup\<close>, \<open>pic_reads_back\<close>, \<open>vga_reads_back\<close>), the files and the clock that the programs
  open (\<open>file_driver\<close>, \<open>clock_driver\<close>: files, entries for the clock, the directory \<open>.\<close>), the calling convention of compiled
  functions (\<open>cdecl\<close>), the initialisers called at boot (\<open>boot_env\<close> with \<open>boot_env_ok\<close>), the child of an execute, what happens while a program waits and the handler of interrupt 0x80
  (\<open>user_env\<close>), the fault of a store through a null pointer (\<open>fault\<close> of \<open>sigenv\<close>), and Linux (\<open>linux\<close>). Arrays that C
  does not initialise are arguments with any contents.

  \<^bold>\<open>Bounds.\<close> Loops over arrays end by the length of the array; the loops that wait for an interrupt take the list of
  handlers that run meanwhile. Loops whose end depends on the outside (\<open>cat_loop\<close>, \<open>ls_loop\<close>, the reads and lines of
  grep, \<open>shell_loop\<close>, \<open>mods_loop\<close>, \<open>mmap_loop\<close>, \<open>tasklet_loop\<close>, \<open>find_loop\<close>, \<open>frame_rows\<close>, \<open>emu_args\<close>) are partial functions to
  \<open>option\<close>, and the theorems on them show that they return. The endless loop of the bouncing letter is a function of the
  number of its turns. No fuel is used.

  \<^bold>\<open>Not modelled.\<close> Interrupts inside the C functions, other than in waiting loops, are not interleaved with them.
  \<open>inw\<close>, \<open>inl\<close> and \<open>outl\<close> of \<^verbatim>\<open>lib.h\<close> have no caller. \<^verbatim>\<open>debug.h\<close> holds debugging macros.
  \<^verbatim>\<open>createfs\<close> and \<^verbatim>\<open>elfconvert\<close> are binaries without source.
\<close>

end
